(* ===== verification/Lodge_Prelude.thy ===== *)
theory Lodge_Prelude
  imports Complex_Main "HOL-Library.List_Lexorder" "HOL-Library.Char_ord"
begin

text \<open>
  What every component shares: the theorem collections, the result type of a
  fallible Go function, association lists used as tables, and the instants that
  stand for \<^verbatim>\<open>time.Time\<close>.

  A Go function that returns \<^verbatim>\<open>(value, error)\<close> is a function into
  \<^typ>\<open>'e + 'a\<close>: \<^const>\<open>Inl\<close> is the error branch. An instant is an integer number of
  nanoseconds since Go's zero time, so \<^verbatim>\<open>t.IsZero()\<close> is \<open>t = 0\<close>,
  \<^verbatim>\<open>Before\<close>/\<^verbatim>\<open>After\<close> are \<open><\<close>/\<open>>\<close>, \<^verbatim>\<open>Sub\<close> is subtraction and
  \<^verbatim>\<open>UTC()\<close> changes nothing.
\<close>

named_theorems validation_simps \<open>unfolding rules of the validators\<close>
named_theorems step_defs \<open>definitions of the state-changing operations\<close>

type_synonym time = int
type_synonym duration = int

abbreviation (input) nanosecond :: duration where "nanosecond \<equiv> 1"
abbreviation (input) millisecond :: duration where "millisecond \<equiv> 1000000"
abbreviation (input) second :: duration where "second \<equiv> 1000000000"
abbreviation (input) minute :: duration where "minute \<equiv> 60000000000"
abbreviation (input) hour :: duration where "hour \<equiv> 3600000000000"

section \<open>Results\<close>

definition is_ok :: "'e + 'a \<Rightarrow> bool" where
  "is_ok r = (case r of Inl _ \<Rightarrow> False | Inr _ \<Rightarrow> True)"

lemma is_ok_simps [simp]: "is_ok (Inr x)" "\<not> is_ok (Inl e)"
  by (simp_all add: is_ok_def)

lemma is_okE: "is_ok r \<Longrightarrow> (\<And>x. r = Inr x \<Longrightarrow> P) \<Longrightarrow> P"
  by (cases r) auto

text \<open>\<open>guard e b\<close> is the early return \<^verbatim>\<open>if b { return e }\<close> of a validator.\<close>

definition guard :: "'e \<Rightarrow> bool \<Rightarrow> 'e + unit" where
  "guard e b = (if b then Inl e else Inr ())"

definition andThen :: "'e + 'a \<Rightarrow> ('a \<Rightarrow> 'e + 'b) \<Rightarrow> 'e + 'b" where
  "andThen r f = (case r of Inl e \<Rightarrow> Inl e | Inr x \<Rightarrow> f x)"

lemma guard_ok [simp]: "guard e b = Inr u \<longleftrightarrow> \<not> b"
  by (simp add: guard_def)

lemma guard_err [simp]: "guard e b = Inl e' \<longleftrightarrow> b \<and> e = e'"
  by (auto simp: guard_def)

lemma guard_eval [simp]: "guard e True = Inl e" "guard e False = Inr ()"
  by (simp_all add: guard_def)

lemma andThen_simps [simp]: "andThen (Inl e) f = Inl e" "andThen (Inr x) f = f x"
  by (simp_all add: andThen_def)

lemma andThen_ok: "andThen r f = Inr y \<longleftrightarrow> (\<exists>x. r = Inr x \<and> f x = Inr y)"
  by (cases r) auto

lemma andThen_err: "andThen r f = Inl e \<longleftrightarrow> r = Inl e \<or> (\<exists>x. r = Inr x \<and> f x = Inl e)"
  by (cases r) auto

lemma andThen_cong [fundef_cong]:
  "r = r' \<Longrightarrow> (\<And>x. r' = Inr x \<Longrightarrow> f x = g x) \<Longrightarrow> andThen r f = andThen r' g"
  by (cases r') auto

text \<open>The first error of a sequence of checks.\<close>

fun check_all :: "('a \<Rightarrow> 'e + unit) \<Rightarrow> 'a list \<Rightarrow> 'e + unit" where
  "check_all f [] = Inr ()"
| "check_all f (x # xs) = andThen (f x) (\<lambda>_. check_all f xs)"

lemma check_all_ok: "check_all f xs = Inr u \<longleftrightarrow> (\<forall>x \<in> set xs. f x = Inr ())"
  by (induction xs) (auto simp: andThen_ok)

lemma check_all_ok' [simp]: "(check_all f xs = Inr ()) = (\<forall>x \<in> set xs. f x = Inr ())"
  by (rule check_all_ok)

lemma check_all_Inr: "\<forall>x \<in> set xs. f x = Inr () \<Longrightarrow> check_all f xs = Inr ()"
  by simp

text \<open>The loop over the elements of an observation: each element is checked, its key
  must be new, and the checks that follow the key's are made.\<close>

fun check_distinct ::
  "'e \<Rightarrow> ('a \<Rightarrow> 'k) \<Rightarrow> ('a \<Rightarrow> 'e + unit) \<Rightarrow> ('a \<Rightarrow> 'e + unit) \<Rightarrow> 'k list \<Rightarrow> 'a list \<Rightarrow> 'e + unit" where
  "check_distinct dup key pre post seen [] = Inr ()"
| "check_distinct dup key pre post seen (x # xs) =
     andThen (pre x) (\<lambda>_. andThen (guard dup (key x \<in> set seen)) (\<lambda>_. andThen (post x) (\<lambda>_.
       check_distinct dup key pre post (key x # seen) xs)))"

lemma check_distinct_ok:
  "check_distinct dup key pre post seen xs = Inr u \<longleftrightarrow>
    (\<forall>x \<in> set xs. pre x = Inr () \<and> post x = Inr ()) \<and>
    distinct (map key xs) \<and> key ` set xs \<inter> set seen = {}"
  by (induction xs arbitrary: seen) (auto simp: andThen_ok)

section \<open>Lists and association lists\<close>

text \<open>A loop that keeps the keys seen so far and stops at a duplicate.\<close>

fun first_dup :: "'k list \<Rightarrow> 'k list \<Rightarrow> 'k option" where
  "first_dup seen [] = None"
| "first_dup seen (k # ks) = (if k \<in> set seen then Some k else first_dup (k # seen) ks)"

lemma first_dup_None: "first_dup seen ks = None \<longleftrightarrow> distinct ks \<and> set ks \<inter> set seen = {}"
  by (induction ks arbitrary: seen) auto

lemma map_of_rev_distinct:
  "distinct (map fst xs) \<Longrightarrow> map_of (rev xs) = map_of xs"
  by (metis map_of_inject_set distinct_rev rev_map set_rev)

lemma find_distinct_key:
  "distinct (map f xs) \<Longrightarrow> x \<in> set xs \<Longrightarrow> find (\<lambda>y. f y = f x) xs = Some x"
  by (induction xs) (auto simp: rev_image_eqI)

lemma find_SomeD: "find P xs = Some x \<Longrightarrow> x \<in> set xs \<and> P x"
  by (induction xs) (auto split: if_splits)

lemma find_NoneD: "find P xs = None \<Longrightarrow> x \<in> set xs \<Longrightarrow> \<not> P x"
  by (induction xs) (auto split: if_splits)

text \<open>\<^verbatim>\<open>UPDATE ... WHERE p\<close>: every row that satisfies \<open>p\<close> is rewritten in place.\<close>

definition update_where :: "('r \<Rightarrow> bool) \<Rightarrow> ('r \<Rightarrow> 'r) \<Rightarrow> 'r list \<Rightarrow> 'r list" where
  "update_where p f rows = map (\<lambda>r. if p r then f r else r) rows"

definition affected :: "('r \<Rightarrow> bool) \<Rightarrow> 'r list \<Rightarrow> nat" where
  "affected p rows = length (filter p rows)"

lemma length_update_where [simp]: "length (update_where p f rows) = length rows"
  by (simp add: update_where_def)

lemma set_update_where:
  "set (update_where p f rows) = {r \<in> set rows. \<not> p r} \<union> f ` {r \<in> set rows. p r}"
  by (auto simp: update_where_def)

lemma map_update_where:
  "(\<And>r. p r \<Longrightarrow> g (f r) = g r) \<Longrightarrow> map g (update_where p f rows) = map g rows"
  by (induction rows) (auto simp: update_where_def)

lemma update_where_none [simp]: "\<forall>r \<in> set rows. \<not> p r \<Longrightarrow> update_where p f rows = rows"
  by (induction rows) (auto simp: update_where_def)

lemma update_where_append [simp]:
  "update_where p f (xs @ ys) = update_where p f xs @ update_where p f ys"
  by (simp add: update_where_def)

lemma update_where_Nil [simp]: "update_where p f [] = []"
  by (simp add: update_where_def)

lemma update_where_Cons [simp]:
  "update_where p f (x # xs) = (if p x then f x else x) # update_where p f xs"
  by (simp add: update_where_def)

lemma affected_0: "affected p rows = 0 \<longleftrightarrow> (\<forall>r \<in> set rows. \<not> p r)"
  by (auto simp: affected_def filter_empty_conv)

lemma affected_pos: "0 < affected p rows \<longleftrightarrow> (\<exists>r \<in> set rows. p r)"
  using affected_0[of p rows] by auto

lemma affected_key_le_1:
  "distinct (map f rows) \<Longrightarrow> affected (\<lambda>r. f r = k \<and> q r) rows \<le> 1"
proof (induction rows)
  case (Cons r rows)
  have "f r = k \<Longrightarrow> affected (\<lambda>r. f r = k \<and> q r) rows = 0"
    using Cons.prems by (auto simp: affected_0 image_iff)
  with Cons show ?case by (auto simp: affected_def)
qed (simp add: affected_def)

lemma affected_key_1:
  assumes "distinct (map f rows)" "r \<in> set rows" "f r = k" "q r"
  shows "affected (\<lambda>r. f r = k \<and> q r) rows = 1"
proof -
  have "0 < affected (\<lambda>r. f r = k \<and> q r) rows"
    using assms by (auto simp: affected_pos)
  with affected_key_le_1[OF assms(1), of k q] show ?thesis by linarith
qed

text \<open>The order of the rows: \<^verbatim>\<open>ORDER BY\<close> with a lexicographic key.\<close>

lemma sort_key_set [simp]: "set (sort_key f xs) = set xs"
  by simp

lemma sorted_distinct_strict: "sorted xs \<Longrightarrow> distinct xs \<Longrightarrow> sorted_wrt (<) xs"
  by (simp add: strict_sorted_iff)

text \<open>Two stable sorts make the lexicographic order of \<^verbatim>\<open>ORDER BY f, g\<close>.\<close>

definition lex_le :: "('a \<Rightarrow> 'b :: linorder) \<Rightarrow> ('a \<Rightarrow> 'c :: linorder) \<Rightarrow> 'a \<Rightarrow> 'a \<Rightarrow> bool" where
  "lex_le f g x y = (f x < f y \<or> f x = f y \<and> g x \<le> g y)"

lemma insort_lex:
  assumes "sorted_wrt (lex_le f g) ys" "\<forall>y \<in> set ys. g x \<le> g y"
  shows "sorted_wrt (lex_le f g) (insort_key f x ys)"
  using assms
proof (induction ys)
  case (Cons y ys)
  show ?case
  proof (cases "f x \<le> f y")
    case True
    have "lex_le f g x z" if "z \<in> set (y # ys)" for z
      using Cons.prems True that by (fastforce simp: lex_le_def)
    then show ?thesis using Cons.prems True by simp
  next
    case False
    then have "lex_le f g y z" if "z \<in> set (insort_key f x ys)" for z
      using Cons.prems that by (auto simp: lex_le_def set_insort_key)
    then show ?thesis using Cons False by simp
  qed
qed simp

lemma sort_lex: "sorted_wrt (lex_le f g) (sort_key f (sort_key g xs))"
proof -
  have "sorted (map g ys) \<Longrightarrow> sorted_wrt (lex_le f g) (sort_key f ys)" for ys
    by (induction ys) (auto intro: insort_lex)
  then show ?thesis by simp
qed

text \<open>Where the second key is unique, the order is determined by the elements alone.\<close>

lemma sort_key_cong_set:
  assumes "inj_on g (set xs)" "distinct xs" "distinct ys" "set xs = set ys"
  shows "sort_key g xs = sort_key g ys"
proof -
  have "map g (sort_key g xs) = map g (sort_key g ys)"
    using assms by (intro sorted_distinct_set_unique) (auto simp: distinct_map)
  moreover have "inj_on g (set (sort_key g xs) \<union> set (sort_key g ys))" using assms by simp
  ultimately show ?thesis using map_inj_on by blast
qed

text \<open>Go's integer division truncates towards zero.\<close>

definition go_quot :: "int \<Rightarrow> int \<Rightarrow> int" where
  "go_quot a b = sgn a * sgn b * (\<bar>a\<bar> div \<bar>b\<bar>)"

lemma go_quot_nonneg: "0 \<le> a \<Longrightarrow> 0 < b \<Longrightarrow> go_quot a b = a div b"
  by (cases "a = 0") (auto simp: go_quot_def sgn_if)

end
