(* ===== verification/Go_Strings.thy ===== *)
theory Go_Strings
  imports Lodge_Prelude
begin

text \<open>
  Go strings. A Go string is a sequence of bytes, here a HOL \<^typ>\<open>string\<close> (one \<^typ>\<open>char\<close>
  per byte, so \<^const>\<open>length\<close> is \<^verbatim>\<open>len\<close>). The theory models what the program uses of
  \<^verbatim>\<open>unicode/utf8\<close>, \<^verbatim>\<open>unicode\<close>, \<^verbatim>\<open>strings\<close> and \<^verbatim>\<open>strconv\<close>: decoding runes (what
  \<^verbatim>\<open>range\<close> over a string does), validity, white space and control characters, case
  folding against an ASCII text, searching, cutting, and decimal numbers.
\<close>

section \<open>Runes\<close>

definition byte :: "char \<Rightarrow> nat" where
  "byte c = of_char c"

abbreviation (input) rune_error :: nat where "rune_error \<equiv> 65533"

definition cont_byte :: "nat \<Rightarrow> bool" where
  "cont_byte b = (128 \<le> b \<and> b \<le> 191)"

definition second_ok :: "nat \<Rightarrow> nat \<Rightarrow> bool" where
  "second_ok b0 b1 =
     (if b0 = 224 then 160 \<le> b1 \<and> b1 \<le> 191
      else if b0 = 237 then 128 \<le> b1 \<and> b1 \<le> 159
      else if b0 = 240 then 144 \<le> b1 \<and> b1 \<le> 191
      else if b0 = 244 then 128 \<le> b1 \<and> b1 \<le> 143
      else cont_byte b1)"

text \<open>The first rune of a string and the number of bytes it takes; an invalid
  encoding is the error rune of width 1, the empty string the error rune of width 0.\<close>

fun decode_tail :: "nat \<Rightarrow> string \<Rightarrow> nat \<times> nat" where
  "decode_tail b0 [] = (rune_error, 1)"
| "decode_tail b0 [c1] =
     (if second_ok b0 (byte c1) \<and> b0 < 224 then ((b0 - 192) * 64 + (byte c1 - 128), 2)
      else (rune_error, 1))"
| "decode_tail b0 [c1, c2] =
     (if \<not> second_ok b0 (byte c1) then (rune_error, 1)
      else if b0 < 224 then ((b0 - 192) * 64 + (byte c1 - 128), 2)
      else if cont_byte (byte c2) \<and> b0 < 240
        then ((b0 - 224) * 4096 + (byte c1 - 128) * 64 + (byte c2 - 128), 3)
      else (rune_error, 1))"
| "decode_tail b0 (c1 # c2 # c3 # _) =
     (if \<not> second_ok b0 (byte c1) then (rune_error, 1)
      else if b0 < 224 then ((b0 - 192) * 64 + (byte c1 - 128), 2)
      else if \<not> cont_byte (byte c2) then (rune_error, 1)
      else if b0 < 240
        then ((b0 - 224) * 4096 + (byte c1 - 128) * 64 + (byte c2 - 128), 3)
      else if cont_byte (byte c3)
        then ((b0 - 240) * 262144 + (byte c1 - 128) * 4096 + (byte c2 - 128) * 64 + (byte c3 - 128), 4)
      else (rune_error, 1))"

definition decode_rune :: "string \<Rightarrow> nat \<times> nat" where
  "decode_rune s = (case s of [] \<Rightarrow> (rune_error, 0) | c # cs \<Rightarrow>
     (if byte c < 128 then (byte c, 1)
      else if byte c < 194 \<or> 244 < byte c then (rune_error, 1)
      else decode_tail (byte c) cs))"

lemma decode_tail_size: "1 \<le> snd (decode_tail b0 cs) \<and> snd (decode_tail b0 cs) \<le> Suc (length cs)"
  by (induction b0 cs rule: decode_tail.induct) auto

lemma decode_rune_size:
  "s \<noteq> [] \<Longrightarrow> 1 \<le> snd (decode_rune s) \<and> snd (decode_rune s) \<le> length s"
  using decode_tail_size by (cases s) (auto simp: decode_rune_def)

text \<open>A string as its runes, each with the bytes that encode it.\<close>

fun rune_chunks :: "string \<Rightarrow> (nat \<times> string) list" where
  "rune_chunks [] = []"
| "rune_chunks (c # cs) =
     (let (r, n) = decode_rune (c # cs)
      in (r, take n (c # cs)) # rune_chunks (drop (n - 1) cs))"

declare rune_chunks.simps(2) [simp del]

definition runes :: "string \<Rightarrow> nat list" where
  "runes s = map fst (rune_chunks s)"

definition rune_count :: "string \<Rightarrow> nat" where
  "rune_count s = length (rune_chunks s)"

definition bad_chunk :: "nat \<times> string \<Rightarrow> bool" where
  "bad_chunk p = (fst p = rune_error \<and> length (snd p) = 1)"

text \<open>The bytes of U+FFFD, and what encoding a decoded rune again gives.\<close>

definition error_bytes :: string where
  "error_bytes = [CHR 0xEF, CHR 0xBF, CHR 0xBD]"

definition rune_bytes :: "nat \<times> string \<Rightarrow> string" where
  "rune_bytes p = (if bad_chunk p then error_bytes else snd p)"

definition valid_utf8 :: "string \<Rightarrow> bool" where
  "valid_utf8 s = (\<not> list_ex bad_chunk (rune_chunks s))"

lemma rune_chunks_step:
  assumes "s \<noteq> []"
  shows "rune_chunks s =
    (fst (decode_rune s), take (snd (decode_rune s)) s) # rune_chunks (drop (snd (decode_rune s)) s)"
proof -
  obtain c cs where s: "s = c # cs" using assms by (cases s) auto
  obtain r n where d: "decode_rune s = (r, n)" by (cases "decode_rune s")
  have "1 \<le> n" using decode_rune_size[OF assms] d by simp
  then show ?thesis
    using d s by (cases n) (simp_all add: rune_chunks.simps(2))
qed

lemma concat_chunks: "concat (map snd (rune_chunks s)) = s"
proof (induction "length s" arbitrary: s rule: less_induct)
  case less
  show ?case
  proof (cases "s = []")
    case False
    have "snd (decode_rune s) \<ge> 1" using decode_rune_size[OF False] by simp
    then have "length (drop (snd (decode_rune s)) s) < length s" using False by (cases s) auto
    from less[OF this] show ?thesis
      using False by (simp add: rune_chunks_step)
  qed simp
qed

lemma rune_count_Nil [simp]: "rune_count [] = 0" and runes_Nil [simp]: "runes [] = []"
  and valid_utf8_Nil [simp]: "valid_utf8 []"
  by (simp_all add: rune_count_def runes_def valid_utf8_def)

lemma chunk_nonempty: "p \<in> set (rune_chunks s) \<Longrightarrow> snd p \<noteq> []"
proof (induction "length s" arbitrary: s rule: less_induct)
  case less
  show ?case
  proof (cases "s = []")
    case False
    have n: "snd (decode_rune s) \<ge> 1" using decode_rune_size[OF False] by simp
    then have "length (drop (snd (decode_rune s)) s) < length s" using False by (cases s) auto
    note IH = less.hyps[OF this]
    show ?thesis using less.prems n False IH by (auto simp: rune_chunks_step)
  qed (use less in simp)
qed

lemma rune_count_le: "rune_count s \<le> length s"
proof -
  have "length xs \<le> length (concat (map snd xs))" if "\<forall>p \<in> set xs. snd p \<noteq> []"
    for xs :: "(nat \<times> string) list"
    using that by (induction xs) (auto simp: Suc_le_eq add_pos_nonneg less_le_trans neq_Nil_conv)
  from this[of "rune_chunks s"] show ?thesis
    using chunk_nonempty by (auto simp: rune_count_def concat_chunks)
qed

text \<open>A complete rune at the front of a string is decoded the same whatever follows.\<close>

lemma decode_tail_append:
  "decode_tail b0 cs \<noteq> (rune_error, 1) \<Longrightarrow> decode_tail b0 (cs @ t) = decode_tail b0 cs"
  by (induction b0 cs rule: decode_tail.induct; cases t; cases "tl t")
     (auto split: if_splits)

lemma decode_rune_append:
  assumes "s \<noteq> []" "decode_rune s \<noteq> (rune_error, 1)"
  shows "decode_rune (s @ t) = decode_rune s"
  using assms decode_tail_append
  by (cases s) (auto simp: decode_rune_def split: if_splits)

lemma valid_utf8_step:
  assumes "s \<noteq> []"
  shows "valid_utf8 s \<longleftrightarrow>
    decode_rune s \<noteq> (rune_error, 1) \<and> valid_utf8 (drop (snd (decode_rune s)) s)"
proof -
  have "bad_chunk (fst (decode_rune s), take (snd (decode_rune s)) s)
    \<longleftrightarrow> decode_rune s = (rune_error, 1)"
    using decode_rune_size[OF assms] by (auto simp: bad_chunk_def prod_eq_iff)
  then show ?thesis using assms by (simp add: valid_utf8_def rune_chunks_step)
qed

lemma rune_chunks_append:
  "valid_utf8 s \<Longrightarrow> rune_chunks (s @ t) = rune_chunks s @ rune_chunks t"
proof (induction "length s" arbitrary: s rule: less_induct)
  case less
  show ?case
  proof (cases "s = []")
    case False
    let ?n = "snd (decode_rune s)"
    have n: "?n \<ge> 1" "?n \<le> length s" using decode_rune_size[OF False] by auto
    have v: "decode_rune s \<noteq> (rune_error, 1)" "valid_utf8 (drop ?n s)"
      using less.prems valid_utf8_step[OF False] by auto
    have "length (drop ?n s) < length s" using False n by (cases s) auto
    from less.hyps[OF this v(2)] show ?thesis
      using False n v decode_rune_append[OF False v(1), of t]
      by (simp add: rune_chunks_step)
  qed simp
qed

lemma valid_utf8_append: "valid_utf8 s \<Longrightarrow> valid_utf8 (s @ t) \<longleftrightarrow> valid_utf8 t"
  by (auto simp: valid_utf8_def rune_chunks_append)

lemma rune_count_append: "valid_utf8 s \<Longrightarrow> rune_count (s @ t) = rune_count s + rune_count t"
  by (simp add: rune_count_def rune_chunks_append)

lemma runes_append: "valid_utf8 s \<Longrightarrow> runes (s @ t) = runes s @ runes t"
  by (simp add: runes_def rune_chunks_append)

text \<open>ASCII text: one byte per rune.\<close>

definition ascii :: "string \<Rightarrow> bool" where
  "ascii s = list_all (\<lambda>c. byte c < 128) s"

lemma rune_chunks_ascii: "ascii s \<Longrightarrow> rune_chunks s = map (\<lambda>c. (byte c, [c])) s"
  by (induction s) (auto simp: ascii_def rune_chunks.simps(2) decode_rune_def)

lemma runes_ascii: "ascii s \<Longrightarrow> runes s = map byte s"
  by (simp add: runes_def rune_chunks_ascii)

lemma rune_count_ascii: "ascii s \<Longrightarrow> rune_count s = length s"
  by (simp add: rune_count_def rune_chunks_ascii)

lemma valid_utf8_ascii: "ascii s \<Longrightarrow> valid_utf8 s"
  by (auto simp: valid_utf8_def rune_chunks_ascii list_ex_iff bad_chunk_def ascii_def list_all_iff)

text \<open>Chunks that are not errors stand on their own, so a list of them can be
  glued back together without changing the runes.\<close>

definition solid :: "nat \<times> string \<Rightarrow> bool" where
  "solid p = (rune_chunks (snd p) = [p] \<and> \<not> bad_chunk p)"

lemma decode_tail_take:
  "decode_tail b0 cs = (r, Suc n) \<Longrightarrow> (r, Suc n) \<noteq> (rune_error, 1) \<Longrightarrow>
    decode_tail b0 (take n cs) = (r, Suc n)"
  by (induction b0 cs rule: decode_tail.induct)
     (auto split: if_splits)

lemma decode_rune_take:
  assumes "s \<noteq> []" "decode_rune s \<noteq> (rune_error, 1)"
  shows "decode_rune (take (snd (decode_rune s)) s) = decode_rune s"
proof -
  obtain c cs where s: "s = c # cs" using assms(1) by (cases s) auto
  show ?thesis
  proof (cases "byte c < 128")
    case True
    then show ?thesis using s by (simp add: decode_rune_def)
  next
    case False
    then have c: "\<not> (byte c < 194 \<or> 244 < byte c)"
      using assms(2) s by (auto simp: decode_rune_def)
    have d: "decode_rune s = decode_tail (byte c) cs" using False c s by (simp add: decode_rune_def)
    obtain r n where rn: "decode_tail (byte c) cs = (r, n)" by (cases "decode_tail (byte c) cs")
    obtain m where n: "n = Suc m" using decode_tail_size[of "byte c" cs] rn by (cases n) auto
    have "(r, Suc m) \<noteq> (rune_error, 1)" using assms(2) d rn n by simp
    from decode_tail_take[OF rn[unfolded n] this]
    have t: "decode_tail (byte c) (take m cs) = (r, Suc m)" .
    have "decode_rune (c # take m cs) = decode_tail (byte c) (take m cs)"
      using False c by (simp add: decode_rune_def)
    then have "decode_rune (c # take m cs) = (r, Suc m)" using t by simp
    moreover have "decode_rune (c # cs) = (r, Suc m)" using d rn n s by simp
    ultimately show ?thesis by (simp add: s)
  qed
qed

lemma solid_first:
  assumes "s \<noteq> []" "decode_rune s \<noteq> (rune_error, 1)"
  shows "solid (fst (decode_rune s), take (snd (decode_rune s)) s)"
proof -
  let ?t = "take (snd (decode_rune s)) s"
  have n: "1 \<le> snd (decode_rune s)" "snd (decode_rune s) \<le> length s"
    using decode_rune_size[OF assms(1)] by auto
  have t: "?t \<noteq> []" using n assms(1) by (cases s) auto
  have "rune_chunks ?t = [(fst (decode_rune s), ?t)]"
    using rune_chunks_step[OF t] decode_rune_take[OF assms] by simp
  then show ?thesis
    using assms n by (auto simp: solid_def bad_chunk_def prod_eq_iff)
qed

lemma solid_chunks: "valid_utf8 s \<Longrightarrow> p \<in> set (rune_chunks s) \<Longrightarrow> solid p"
proof (induction "length s" arbitrary: s rule: less_induct)
  case less
  show ?case
  proof (cases "s = []")
    case False
    let ?n = "snd (decode_rune s)"
    have n: "1 \<le> ?n" using decode_rune_size[OF False] by simp
    have v: "decode_rune s \<noteq> (rune_error, 1)" "valid_utf8 (drop ?n s)"
      using less.prems valid_utf8_step[OF False] by auto
    have "length (drop ?n s) < length s" using False n by (cases s) auto
    note IH = less.hyps[OF this v(2)]
    show ?thesis
      using less.prems(2) False IH solid_first[OF False v(1)]
      by (auto simp: rune_chunks_step)
  qed (use less in simp)
qed

lemma rune_chunks_glue: "list_all solid ps \<Longrightarrow> rune_chunks (concat (map snd ps)) = ps"
proof (induction ps)
  case (Cons p ps)
  then have "valid_utf8 (snd p)" by (auto simp: solid_def valid_utf8_def)
  with Cons show ?case by (auto simp: rune_chunks_append solid_def)
qed simp

lemma valid_utf8_glue: "list_all solid ps \<Longrightarrow> valid_utf8 (concat (map snd ps))"
  by (auto simp: valid_utf8_def rune_chunks_glue list_ex_iff list_all_iff solid_def)

section \<open>Character classes, white space\<close>

definition is_control :: "nat \<Rightarrow> bool" where
  "is_control r = (r < 32 \<or> (127 \<le> r \<and> r \<le> 159))"

definition is_space :: "nat \<Rightarrow> bool" where
  "is_space r = ((9 \<le> r \<and> r \<le> 13) \<or> r = 32 \<or> r = 133 \<or> r = 160 \<or> r = 5760
     \<or> (8192 \<le> r \<and> r \<le> 8202) \<or> r = 8232 \<or> r = 8233 \<or> r = 8239 \<or> r = 8287 \<or> r = 12288)"

definition has_control :: "string \<Rightarrow> bool" where
  "has_control s = list_ex is_control (runes s)"

definition trim_chunks :: "(nat \<times> string) list \<Rightarrow> (nat \<times> string) list" where
  "trim_chunks ps = rev (dropWhile (\<lambda>p. is_space (fst p)) (rev (dropWhile (\<lambda>p. is_space (fst p)) ps)))"

definition trim_space :: "string \<Rightarrow> string" where
  "trim_space s = concat (map snd (trim_chunks (rune_chunks s)))"

definition blank :: "string \<Rightarrow> bool" where
  "blank s = (trim_space s = [])"

lemma trim_chunks_subset: "set (trim_chunks ps) \<subseteq> set ps"
  unfolding trim_chunks_def by (metis set_dropWhileD set_rev subsetI)

lemma trim_chunks_length: "length (trim_chunks ps) \<le> length ps"
  unfolding trim_chunks_def by (metis length_dropWhile_le length_rev order_trans)

lemma trim_chunks_empty: "trim_chunks ps = [] \<longleftrightarrow> (\<forall>p \<in> set ps. is_space (fst p))"
proof -
  have "trim_chunks ps = [] \<longleftrightarrow> (\<forall>p \<in> set (dropWhile (\<lambda>p. is_space (fst p)) ps). is_space (fst p))"
    by (simp add: trim_chunks_def)
  also have "\<dots> \<longleftrightarrow> (\<forall>p \<in> set ps. is_space (fst p))"
    by (induction ps) auto
  finally show ?thesis .
qed

lemma blank_iff: "blank s \<longleftrightarrow> list_all is_space (runes s)"
proof -
  have "concat (map snd (trim_chunks (rune_chunks s))) = [] \<longleftrightarrow> trim_chunks (rune_chunks s) = []"
    using trim_chunks_subset[of "rune_chunks s"] chunk_nonempty[of _ s]
    by (cases "trim_chunks (rune_chunks s)") auto
  then show ?thesis
    by (simp add: blank_def trim_space_def trim_chunks_empty runes_def list_all_iff)
qed

lemma solid_trim_chunks: "valid_utf8 s \<Longrightarrow> list_all solid (trim_chunks (rune_chunks s))"
  unfolding list_all_iff by (meson solid_chunks trim_chunks_subset subsetD)

lemma valid_trim_space: "valid_utf8 s \<Longrightarrow> valid_utf8 (trim_space s)"
  by (simp add: trim_space_def valid_utf8_glue solid_trim_chunks)

lemma rune_chunks_trim: "valid_utf8 s \<Longrightarrow> rune_chunks (trim_space s) = trim_chunks (rune_chunks s)"
  by (simp add: trim_space_def rune_chunks_glue solid_trim_chunks)

lemma rune_count_trim: "valid_utf8 s \<Longrightarrow> rune_count (trim_space s) \<le> rune_count s"
  by (simp add: rune_count_def rune_chunks_trim trim_chunks_length)

lemma dropWhile_stuck: "dropWhile P xs = xs \<longleftrightarrow> xs = [] \<or> \<not> P (hd xs)"
  by (cases xs) (auto dest: arg_cong[where f = length] simp: dropWhile_eq_drop)

lemma trim_chunks_idem: "trim_chunks (trim_chunks ps) = trim_chunks ps"
proof -
  define P where "P = (\<lambda>p::nat \<times> string. is_space (fst p))"
  define ys where "ys = dropWhile P ps"
  define zs where "zs = dropWhile P (rev ys)"
  have t: "trim_chunks ps = rev zs" by (simp add: trim_chunks_def zs_def ys_def P_def)
  have z: "zs = [] \<or> \<not> P (hd zs)" unfolding zs_def by (metis hd_dropWhile)
  have "rev zs = [] \<or> \<not> P (hd (rev zs))"
  proof (cases "zs = []")
    case False
    obtain us where us: "rev ys = us @ zs"
      unfolding zs_def by (metis takeWhile_dropWhile_id)
    then have "ys = rev zs @ rev us" by (metis rev_append rev_rev_ident)
    then have "hd ys = hd (rev zs)" "ys \<noteq> []" using False by auto
    moreover have "\<not> P (hd ys)" using \<open>ys \<noteq> []\<close> unfolding ys_def by (metis hd_dropWhile)
    ultimately show ?thesis by simp
  qed simp
  then have "dropWhile P (rev zs) = rev zs" by (simp add: dropWhile_stuck)
  moreover have "dropWhile P zs = zs" using z by (simp add: dropWhile_stuck)
  ultimately show ?thesis unfolding t by (simp add: trim_chunks_def flip: P_def)
qed

lemma trim_space_idem: "valid_utf8 s \<Longrightarrow> trim_space (trim_space s) = trim_space s"
  by (simp add: trim_space_def[of "trim_space s"] rune_chunks_trim trim_chunks_idem)
     (simp add: trim_space_def)

section \<open>Searching and cutting\<close>

definition has_prefix :: "string \<Rightarrow> string \<Rightarrow> bool" where
  "has_prefix s p = (take (length p) s = p)"

definition has_suffix :: "string \<Rightarrow> string \<Rightarrow> bool" where
  "has_suffix s p = (length p \<le> length s \<and> drop (length s - length p) s = p)"

definition trim_prefix :: "string \<Rightarrow> string \<Rightarrow> string" where
  "trim_prefix s p = (if has_prefix s p then drop (length p) s else s)"

definition trim_suffix :: "string \<Rightarrow> string \<Rightarrow> string" where
  "trim_suffix s p = (if has_suffix s p then take (length s - length p) s else s)"

fun contains :: "string \<Rightarrow> string \<Rightarrow> bool" where
  "contains [] p = (p = [])"
| "contains (c # cs) p = (has_prefix (c # cs) p \<or> contains cs p)"

text \<open>\<^verbatim>\<open>strings.ContainsAny\<close> for a set of ASCII characters.\<close>

definition contains_any :: "string \<Rightarrow> string \<Rightarrow> bool" where
  "contains_any s chars = list_ex (\<lambda>c. c \<in> set chars) s"

lemma has_prefix_append [simp]: "has_prefix (p @ s) p"
  by (simp add: has_prefix_def)

lemma has_suffix_append [simp]: "has_suffix (s @ p) p"
  by (simp add: has_suffix_def)

lemma has_prefix_iff: "has_prefix s p \<longleftrightarrow> (\<exists>t. s = p @ t)"
  by (metis append_eq_conv_conj append_take_drop_id has_prefix_def)

lemma has_suffix_iff: "has_suffix s p \<longleftrightarrow> (\<exists>t. s = t @ p)"
  by (metis append_take_drop_id has_suffix_append has_suffix_def)

lemma contains_iff: "contains s p \<longleftrightarrow> (\<exists>u v. s = u @ p @ v)"
proof (induction s)
  case (Cons c s)
  have "(\<exists>u v. c # s = u @ p @ v) \<longleftrightarrow> (\<exists>v. c # s = p @ v) \<or> (\<exists>u v. s = u @ p @ v)"
    by (metis append_Cons append_Nil list.exhaust list.inject)
  with Cons show ?case by (simp add: has_prefix_iff)
qed simp

text \<open>\<^verbatim>\<open>strings.Split\<close> at a single byte, \<^verbatim>\<open>strings.Cut\<close> and the position of the last separator.\<close>

fun split_on :: "char \<Rightarrow> string \<Rightarrow> string list" where
  "split_on d [] = [[]]"
| "split_on d (c # cs) =
     (if c = d then [] # split_on d cs
      else case split_on d cs of [] \<Rightarrow> [[c]] | w # ws \<Rightarrow> (c # w) # ws)"

fun cut :: "char \<Rightarrow> string \<Rightarrow> (string \<times> string) option" where
  "cut d [] = None"
| "cut d (c # cs) =
     (if c = d then Some ([], cs) else map_option (\<lambda>(a, b). (c # a, b)) (cut d cs))"

definition cut_last :: "char \<Rightarrow> string \<Rightarrow> (string \<times> string) option" where
  "cut_last d s = map_option (\<lambda>(a, b). (rev b, rev a)) (cut d (rev s))"

lemma split_on_ne [simp]: "split_on d s \<noteq> []"
  by (cases s) (auto split: list.splits)

lemma cut_Some: "cut d s = Some (a, b) \<longleftrightarrow> s = a @ d # b \<and> d \<notin> set a"
proof (induction s arbitrary: a)
  case (Cons c s)
  show ?case using Cons.IH by (cases a) auto
qed simp

lemma cut_None: "cut d s = None \<longleftrightarrow> d \<notin> set s"
  by (induction s) auto

lemma cut_append: "d \<notin> set a \<Longrightarrow> cut d (a @ d # b) = Some (a, b)"
  by (simp add: cut_Some)

text \<open>Text joined with a separator.\<close>

fun join :: "string \<Rightarrow> string list \<Rightarrow> string" where
  "join sep [] = []"
| "join sep [w] = w"
| "join sep (w # v # ws) = w @ sep @ join sep (v # ws)"

lemma split_on_append: "d \<notin> set w \<Longrightarrow> split_on d (w @ d # t) = w # split_on d t"
  by (induction w) auto

lemma split_on_single: "d \<notin> set w \<Longrightarrow> split_on d w = [w]"
  by (induction w) auto

lemma join_Cons: "ws \<noteq> [] \<Longrightarrow> join sep (w # ws) = w @ sep @ join sep ws"
  by (cases ws) auto

lemma split_join:
  "ws \<noteq> [] \<Longrightarrow> \<forall>w \<in> set ws. d \<notin> set w \<Longrightarrow> split_on d (join [d] ws) = ws"
proof (induction ws)
  case (Cons w ws)
  then show ?case
    by (cases "ws = []") (simp_all add: split_on_single join_Cons split_on_append)
qed simp

section \<open>Decimal numbers\<close>

definition digit_char :: "nat \<Rightarrow> char" where
  "digit_char n = char_of (48 + n)"

definition is_digit :: "char \<Rightarrow> bool" where
  "is_digit c = (48 \<le> byte c \<and> byte c \<le> 57)"

fun itoa_nat :: "nat \<Rightarrow> string" where
  "itoa_nat n = (if n < 10 then [digit_char n] else itoa_nat (n div 10) @ [digit_char (n mod 10)])"

declare itoa_nat.simps [simp del]

text \<open>\<^verbatim>\<open>strconv.Itoa\<close> and \<^verbatim>\<open>strconv.FormatInt(n, 10)\<close>.\<close>

definition itoa :: "int \<Rightarrow> string" where
  "itoa n = (if n < 0 then ''-'' @ itoa_nat (nat (- n)) else itoa_nat (nat n))"

definition digits_value :: "string \<Rightarrow> nat" where
  "digits_value s = foldl (\<lambda>v c. v * 10 + (byte c - 48)) 0 s"

text \<open>\<^verbatim>\<open>strconv.ParseUint(s, 10, bits)\<close> and \<^verbatim>\<open>strconv.Atoi\<close> (64-bit).\<close>

definition parse_uint :: "nat \<Rightarrow> string \<Rightarrow> nat option" where
  "parse_uint bits s =
     (if s = [] \<or> \<not> list_all is_digit s then None
      else if digits_value s < 2 ^ bits then Some (digits_value s) else None)"

definition atoi :: "string \<Rightarrow> int option" where
  "atoi s =
     (let neg = (has_prefix s ''-'');
          t = (if neg \<or> has_prefix s ''+'' then drop 1 s else s)
      in if t = [] \<or> \<not> list_all is_digit t then None
         else let v = int (digits_value t)
              in if neg then (if v \<le> 2 ^ 63 then Some (- v) else None)
                 else (if v < 2 ^ 63 then Some v else None))"

lemma byte_digit_char: "n < 10 \<Longrightarrow> byte (digit_char n) = 48 + n"
  by (simp add: byte_def digit_char_def)

lemma is_digit_digit_char: "n < 10 \<Longrightarrow> is_digit (digit_char n)"
  by (simp add: is_digit_def byte_digit_char)

lemma digits_value_snoc: "digits_value (s @ [c]) = digits_value s * 10 + (byte c - 48)"
  by (simp add: digits_value_def)

lemma itoa_nat_digits: "list_all is_digit (itoa_nat n) \<and> itoa_nat n \<noteq> []"
proof (induction n rule: less_induct)
  case (less n)
  show ?case using less[of "n div 10"]
    by (subst itoa_nat.simps) (auto simp: is_digit_digit_char itoa_nat.simps[of n])
qed

lemma digits_value_itoa: "digits_value (itoa_nat n) = n"
proof (induction n rule: less_induct)
  case (less n)
  show ?case
  proof (cases "n < 10")
    case True
    then show ?thesis
      by (simp add: itoa_nat.simps[of n] digits_value_def byte_digit_char)
  next
    case False
    then show ?thesis using less[of "n div 10"]
      by (simp add: itoa_nat.simps[of n] digits_value_snoc byte_digit_char)
  qed
qed

lemma parse_uint_itoa: "n < 2 ^ bits \<Longrightarrow> parse_uint bits (itoa_nat n) = Some n"
  using itoa_nat_digits[of n] by (simp add: parse_uint_def digits_value_itoa)

lemma itoa_nat_inj: "itoa_nat m = itoa_nat n \<longleftrightarrow> m = n"
  by (metis digits_value_itoa)

lemma digits_not: "c \<in> set (itoa_nat n) \<Longrightarrow> is_digit c"
  using itoa_nat_digits[of n] by (auto simp: list_all_iff)

lemma ascii_itoa_nat: "ascii (itoa_nat n)"
  using itoa_nat_digits[of n] by (auto simp: ascii_def list_all_iff is_digit_def)

lemma length_itoa_nat: "n < 10 ^ k \<Longrightarrow> 0 < k \<Longrightarrow> length (itoa_nat n) \<le> k"
proof (induction k arbitrary: n)
  case (Suc k)
  show ?case
  proof (cases "n < 10")
    case False
    then have "0 < k" using Suc.prems by (cases k) auto
    moreover have "n div 10 < 10 ^ k" using Suc.prems by (simp add: div_less_iff_less_mult mult.commute)
    ultimately show ?thesis using Suc.IH[of "n div 10"] False by (simp add: itoa_nat.simps[of n])
  qed (simp add: itoa_nat.simps[of n])
qed simp

section \<open>Case folding\<close>

text \<open>\<^verbatim>\<open>strings.EqualFold(s, t)\<close> for a target \<open>t\<close> in lower-case ASCII: the runes that
  fold to an ASCII letter are the two ASCII cases, the long s and the Kelvin sign.\<close>

definition fold_rune :: "nat \<Rightarrow> nat" where
  "fold_rune r =
     (if 65 \<le> r \<and> r \<le> 90 then r + 32 else if r = 383 then 115 else if r = 8490 then 107 else r)"

definition equal_fold_ascii :: "string \<Rightarrow> string \<Rightarrow> bool" where
  "equal_fold_ascii s t = (map fold_rune (runes s) = map fold_rune (runes t))"

section \<open>Evaluation on ASCII text\<close>

lemma trim_space_empty: "trim_space s = [] \<longleftrightarrow> list_all is_space (runes s)"
  using blank_iff[of s] by (simp add: blank_def)

lemmas ascii_eval =
  ascii_def byte_def runes_ascii rune_count_ascii valid_utf8_ascii trim_space_empty
  is_control_def is_space_def

end
