(* ===== verification/Go_Net.thy ===== *)
theory Go_Net
  imports Go_Strings
begin

text \<open>
  What the program uses of \<^verbatim>\<open>net\<close> and \<^verbatim>\<open>net/netip\<close>: parsing an address
  (\<^verbatim>\<open>netip.ParseAddr\<close>, \<^verbatim>\<open>net.ParseIP\<close>), its canonical text (\<^verbatim>\<open>Addr.String\<close>),
  \<^verbatim>\<open>net.SplitHostPort\<close> and \<^verbatim>\<open>net.JoinHostPort\<close>. An IPv4 address is its four
  octets; an IPv6 address its eight 16-bit groups and its zone.
\<close>

datatype addr = AddrV4 "nat list" | AddrV6 "nat list" string

section \<open>Parsing\<close>

text \<open>A dotted octet: digits only, no leading zero, at most 255.\<close>

definition parse_octet :: "string \<Rightarrow> nat option" where
  "parse_octet w =
     (if w = [] \<or> \<not> list_all is_digit w then None
      else if hd w = CHR ''0'' \<and> length w \<noteq> 1 then None
      else if digits_value w > 255 then None else Some (digits_value w))"

definition parse_ipv4 :: "string \<Rightarrow> nat list option" where
  "parse_ipv4 s =
     (case split_on CHR ''.'' s of
        [a, b, c, d] \<Rightarrow>
          (case (parse_octet a, parse_octet b, parse_octet c, parse_octet d) of
             (Some a', Some b', Some c', Some d') \<Rightarrow> Some [a', b', c', d']
           | _ \<Rightarrow> None)
      | _ \<Rightarrow> None)"

definition hex_value :: "char \<Rightarrow> nat option" where
  "hex_value c =
     (let b = byte c in
      if 48 \<le> b \<and> b \<le> 57 then Some (b - 48)
      else if 97 \<le> b \<and> b \<le> 102 then Some (b - 87)
      else if 65 \<le> b \<and> b \<le> 70 then Some (b - 55) else None)"

definition is_hex :: "char \<Rightarrow> bool" where
  "is_hex c = (hex_value c \<noteq> None)"

definition hex_digits_value :: "string \<Rightarrow> nat" where
  "hex_digits_value s = foldl (\<lambda>v c. v * 16 + the (hex_value c)) 0 s"

text \<open>The loop over the groups: \<open>gs\<close> are the groups read so far, \<open>ell\<close> the position
  of the \<^verbatim>\<open>::\<close> among them. The result is the groups and the position of the \<^verbatim>\<open>::\<close>; an
  embedded IPv4 tail gives two groups. \<open>fuel\<close> bounds the groups (eight at most).\<close>

fun ipv6_groups :: "nat \<Rightarrow> string \<Rightarrow> nat list \<Rightarrow> nat option \<Rightarrow> (nat list \<times> nat option) option" where
  "ipv6_groups 0 s gs ell = (if s = [] then Some (gs, ell) else None)"
| "ipv6_groups (Suc fuel) s gs ell =
     (let h = takeWhile is_hex s; rest = dropWhile is_hex s in
      if h = [] \<or> length h > 4 then None
      else case rest of
        [] \<Rightarrow> Some (gs @ [hex_digits_value h], ell)
      | c # cs \<Rightarrow>
          if c = CHR ''.'' then
            (if ell = None \<and> length gs \<noteq> 6 then None
             else if length gs + 2 > 8 then None
             else case parse_ipv4 s of
               Some [a, b, d, e] \<Rightarrow> Some (gs @ [a * 256 + b, d * 256 + e], ell)
             | _ \<Rightarrow> None)
          else if c \<noteq> CHR '':'' then None
          else case cs of
            [] \<Rightarrow> None
          | c' # cs' \<Rightarrow>
              let gs' = gs @ [hex_digits_value h] in
              if c' = CHR '':'' then
                (if ell \<noteq> None then None
                 else if cs' = [] then Some (gs', Some (length gs'))
                 else ipv6_groups fuel cs' gs' (Some (length gs')))
              else ipv6_groups fuel cs gs' ell)"

definition expand_ellipsis :: "nat list \<times> nat option \<Rightarrow> nat list option" where
  "expand_ellipsis p =
     (case p of
        (gs, None) \<Rightarrow> (if length gs = 8 then Some gs else None)
      | (gs, Some k) \<Rightarrow>
          (if length gs < 8 then Some (take k gs @ replicate (8 - length gs) 0 @ drop k gs) else None))"

definition parse_ipv6_body :: "string \<Rightarrow> nat list option" where
  "parse_ipv6_body s =
     (if take 2 s = ''::'' then
        (if length s = 2 then Some (replicate 8 0)
         else Option.bind (ipv6_groups 8 (drop 2 s) [] (Some 0)) expand_ellipsis)
      else Option.bind (ipv6_groups 8 s [] None) expand_ellipsis)"

definition parse_ipv6 :: "string \<Rightarrow> addr option" where
  "parse_ipv6 s =
     (case cut CHR ''%'' s of
        None \<Rightarrow> map_option (\<lambda>g. AddrV6 g []) (parse_ipv6_body s)
      | Some (a, zone) \<Rightarrow>
          (if zone = [] then None else map_option (\<lambda>g. AddrV6 g zone) (parse_ipv6_body a)))"

text \<open>The first of \<^verbatim>\<open>.\<close>, \<^verbatim>\<open>:\<close>, \<^verbatim>\<open>%\<close> decides which parser reads the text.\<close>

definition parse_addr :: "string \<Rightarrow> addr option" where
  "parse_addr s =
     (case find (\<lambda>c. c \<in> set ''.:%'') s of
        None \<Rightarrow> None
      | Some c \<Rightarrow>
          if c = CHR ''.'' then map_option AddrV4 (parse_ipv4 s)
          else if c = CHR '':'' then parse_ipv6 s else None)"

definition parse_ip :: "string \<Rightarrow> addr option" where
  "parse_ip s =
     (case parse_addr s of
        Some (AddrV6 g zone) \<Rightarrow> (if zone = [] then Some (AddrV6 g zone) else None)
      | r \<Rightarrow> r)"

section \<open>Canonical text\<close>

definition hex_char :: "nat \<Rightarrow> char" where
  "hex_char n = (if n < 10 then char_of (48 + n) else char_of (87 + n))"

fun hex_nat :: "nat \<Rightarrow> string" where
  "hex_nat n = (if n < 16 then [hex_char n] else hex_nat (n div 16) @ [hex_char (n mod 16)])"

declare hex_nat.simps [simp del]

definition ipv4_text :: "nat list \<Rightarrow> string" where
  "ipv4_text os = join ''.'' (map itoa_nat os)"

text \<open>Length of the run of zero groups that starts at a list's head, and the first
  longest run of at least two (RFC 5952).\<close>

definition zero_run :: "nat list \<Rightarrow> nat" where
  "zero_run gs = length (takeWhile (\<lambda>g. g = 0) gs)"

fun longest_zeros :: "nat \<Rightarrow> nat list \<Rightarrow> nat \<Rightarrow> nat \<Rightarrow> nat \<times> nat" where
  "longest_zeros i [] start len = (start, len)"
| "longest_zeros i (g # gs) start len =
     (if zero_run (g # gs) \<ge> 2 \<and> zero_run (g # gs) > len
      then longest_zeros (Suc i) gs i (zero_run (g # gs))
      else longest_zeros (Suc i) gs start len)"

definition ipv6_text :: "nat list \<Rightarrow> string" where
  "ipv6_text gs =
     (let (start, len) = longest_zeros 0 gs 0 0 in
      if len < 2 then join '':'' (map hex_nat gs)
      else join '':'' (map hex_nat (take start gs)) @ ''::'' @
           join '':'' (map hex_nat (drop (start + len) gs)))"

definition is_4in6 :: "nat list \<Rightarrow> bool" where
  "is_4in6 gs = (take 6 gs = [0, 0, 0, 0, 0, 65535])"

definition addr_text :: "addr \<Rightarrow> string" where
  "addr_text a =
     (case a of
        AddrV4 os \<Rightarrow> ipv4_text os
      | AddrV6 gs zone \<Rightarrow>
          (if is_4in6 gs
           then ''::ffff:'' @ ipv4_text [gs ! 6 div 256, gs ! 6 mod 256, gs ! 7 div 256, gs ! 7 mod 256]
           else ipv6_text gs) @ (if zone = [] then [] else ''%'' @ zone))"

section \<open>Host and port\<close>

definition split_host_port :: "string \<Rightarrow> (string \<times> string) option" where
  "split_host_port s =
     (case cut_last CHR '':'' s of
        None \<Rightarrow> None
      | Some (a, port) \<Rightarrow>
          if has_prefix s ''['' then
            (case cut CHR '']'' s of
               None \<Rightarrow> None
             | Some (h, _) \<Rightarrow>
                 if length h + 1 \<noteq> length a then None
                 else if CHR ''['' \<in> set (drop 1 s) \<or> CHR '']'' \<in> set (drop (length a) s) then None
                 else Some (drop 1 h, port))
          else if CHR '':'' \<in> set a then None
          else if CHR ''['' \<in> set s \<or> CHR '']'' \<in> set s then None
          else Some (a, port))"

definition join_host_port :: "string \<Rightarrow> string \<Rightarrow> string" where
  "join_host_port host port =
     (if CHR '':'' \<in> set host then ''['' @ host @ '']:'' @ port else host @ '':'' @ port)"

section \<open>Round trips\<close>

lemma cut_last_append: "d \<notin> set b \<Longrightarrow> cut_last d (a @ d # b) = Some (a, b)"
  by (simp add: cut_last_def cut_append)

lemma split_join_host_port:
  assumes "CHR '':'' \<notin> set port" "CHR ''['' \<notin> set (host @ port)" "CHR '']'' \<notin> set (host @ port)"
  shows "split_host_port (join_host_port host port) = Some (host, port)"
proof (cases "CHR '':'' \<in> set host")
  case True
  let ?s = "(CHR ''['' # host @ [CHR '']'']) @ CHR '':'' # port"
  have s: "join_host_port host port = ?s" using True by (simp add: join_host_port_def)
  have c: "cut_last CHR '':'' ?s = Some (CHR ''['' # host @ [CHR '']''], port)"
    using assms(1) by (rule cut_last_append)
  have "cut CHR '']'' ((CHR ''['' # host) @ CHR '']'' # (CHR '':'' # port)) =
    Some (CHR ''['' # host, CHR '':'' # port)"
    using assms(3) by (intro cut_append) auto
  then have d: "cut CHR '']'' ?s = Some (CHR ''['' # host, CHR '':'' # port)" by simp
  show ?thesis
    unfolding s split_host_port_def c option.case prod.case d
    using assms by (simp add: has_prefix_def)
next
  case False
  have s: "join_host_port host port = host @ CHR '':'' # port" using False by (simp add: join_host_port_def)
  have c: "cut_last CHR '':'' (host @ CHR '':'' # port) = Some (host, port)"
    using assms(1) by (rule cut_last_append)
  have p: "\<not> has_prefix (host @ CHR '':'' # port) ''[''"
    using assms(2) by (cases host) (auto simp: has_prefix_def)
  show ?thesis
    unfolding s split_host_port_def c using p False assms by auto
qed

lemma parse_octet_itoa: "n \<le> 255 \<Longrightarrow> parse_octet (itoa_nat n) = Some n"
proof -
  assume n: "n \<le> 255"
  have "hd (itoa_nat m) = CHR ''0'' \<Longrightarrow> m = 0" for m
  proof (induction m rule: less_induct)
    case (less m)
    show ?case
    proof (cases "m < 10")
      case True
      have "byte (CHR ''0'') = 48" by (simp add: byte_def)
      then have "CHR ''0'' = digit_char m \<Longrightarrow> m = 0"
        using byte_digit_char[OF True] by (metis add_left_cancel add_0_right)
      then show ?thesis using less.prems True by (auto simp: itoa_nat.simps[of m])
    next
      case False
      then have "hd (itoa_nat (m div 10)) = CHR ''0''"
        using less.prems itoa_nat_digits[of "m div 10"] by (simp add: itoa_nat.simps[of m])
      then show ?thesis using less.IH[of "m div 10"] False by simp
    qed
  qed
  then have "hd (itoa_nat n) = CHR ''0'' \<Longrightarrow> n = 0" by blast
  then have "hd (itoa_nat n) = CHR ''0'' \<Longrightarrow> length (itoa_nat n) = 1"
    by (auto simp: itoa_nat.simps[of 0])
  then show ?thesis
    using n itoa_nat_digits[of n] by (auto simp: parse_octet_def digits_value_itoa)
qed

lemma parse_ipv4_text:
  assumes "a \<le> 255" "b \<le> 255" "c \<le> 255" "d \<le> 255"
  shows "parse_ipv4 (ipv4_text [a, b, c, d]) = Some [a, b, c, d]"
proof -
  have "CHR ''.'' \<notin> set (itoa_nat n)" for n
    using digits_not[of "CHR ''.''" n] by (auto simp: is_digit_def byte_def)
  then have "split_on CHR ''.'' (join [CHR ''.''] (map itoa_nat [a, b, c, d])) = map itoa_nat [a, b, c, d]"
    by (intro split_join) auto
  then show ?thesis
    using assms by (simp add: parse_ipv4_def ipv4_text_def parse_octet_itoa)
qed

end
