(* ===== verification/Go_Float.thy ===== *)
theory Go_Float
  imports Go_Strings
begin

text \<open>
  \<^verbatim>\<open>float64\<close>. A finite value is the rational it stands for (the sign of zero, which the
  program never looks at, is not kept); every operation is the exact result rounded to
  nearest, ties to even, with 53 significant bits, a quantum of at least \<open>2^-1074\<close> and
  overflow at \<open>2^1024\<close>. The only operations of the program are conversion from an
  integer, multiplication, division, comparison, truncation and \<^verbatim>\<open>%.2f\<close>.
\<close>

datatype float64 = Fin rat | PosInf | NegInf | NaN

section \<open>Rounding\<close>

fun ilog2 :: "nat \<Rightarrow> nat" where
  "ilog2 n = (if n < 2 then 0 else Suc (ilog2 (n div 2)))"

declare ilog2.simps [simp del]

definition two_powi :: "int \<Rightarrow> rat" where
  "two_powi e = (if 0 \<le> e then 2 ^ nat e else 1 / 2 ^ nat (- e))"

text \<open>The exponent of the leading bit.\<close>

definition binade :: "rat \<Rightarrow> int" where
  "binade x = (let (n, d) = quotient_of \<bar>x\<bar>; e = int (ilog2 (nat n)) - int (ilog2 (nat d))
     in if two_powi e \<le> \<bar>x\<bar> then e else e - 1)"

definition round_even :: "rat \<Rightarrow> int" where
  "round_even x = (let f = \<lfloor>x\<rfloor>; r = x - of_int f
     in if r < 1 / 2 then f else if 1 / 2 < r then f + 1 else if even f then f else f + 1)"

definition round53 :: "rat \<Rightarrow> rat" where
  "round53 x = (if x = 0 then 0
     else let q = two_powi (max (binade x - 52) (- 1074)) in of_int (round_even (x / q)) * q)"

definition fl64 :: "rat \<Rightarrow> float64" where
  "fl64 x = (let y = round53 x in
     if 2 ^ 1024 \<le> y then PosInf else if y \<le> - (2 ^ 1024) then NegInf else Fin y)"

section \<open>Operations\<close>

definition float_of_int :: "int \<Rightarrow> float64" where
  "float_of_int n = fl64 (of_int n)"

definition inf_of_sign :: "rat \<Rightarrow> float64" where
  "inf_of_sign r = (if 0 < r then PosInf else if r < 0 then NegInf else NaN)"

fun float_mul :: "float64 \<Rightarrow> float64 \<Rightarrow> float64" where
  "float_mul NaN _ = NaN"
| "float_mul _ NaN = NaN"
| "float_mul (Fin a) (Fin b) = fl64 (a * b)"
| "float_mul (Fin a) PosInf = inf_of_sign a"
| "float_mul (Fin a) NegInf = inf_of_sign (- a)"
| "float_mul PosInf (Fin b) = inf_of_sign b"
| "float_mul NegInf (Fin b) = inf_of_sign (- b)"
| "float_mul PosInf PosInf = PosInf"
| "float_mul PosInf NegInf = NegInf"
| "float_mul NegInf PosInf = NegInf"
| "float_mul NegInf NegInf = PosInf"

text \<open>Division by a (positive) zero is an infinity, or NaN for zero by zero.\<close>

fun float_div :: "float64 \<Rightarrow> float64 \<Rightarrow> float64" where
  "float_div NaN _ = NaN"
| "float_div _ NaN = NaN"
| "float_div (Fin a) (Fin b) = (if b = 0 then inf_of_sign a else fl64 (a / b))"
| "float_div (Fin a) PosInf = Fin 0"
| "float_div (Fin a) NegInf = Fin 0"
| "float_div PosInf (Fin b) = (if b < 0 then NegInf else PosInf)"
| "float_div NegInf (Fin b) = (if b < 0 then PosInf else NegInf)"
| "float_div PosInf PosInf = NaN"
| "float_div PosInf NegInf = NaN"
| "float_div NegInf PosInf = NaN"
| "float_div NegInf NegInf = NaN"

text \<open>Comparison with a finite constant; every comparison with NaN is false.\<close>

fun float_ge :: "float64 \<Rightarrow> rat \<Rightarrow> bool" where
  "float_ge (Fin a) r = (r \<le> a)"
| "float_ge PosInf r = True"
| "float_ge NegInf r = False"
| "float_ge NaN r = False"

fun float_lt :: "float64 \<Rightarrow> rat \<Rightarrow> bool" where
  "float_lt (Fin a) r = (a < r)"
| "float_lt PosInf r = False"
| "float_lt NegInf r = True"
| "float_lt NaN r = False"

definition trunc_rat :: "rat \<Rightarrow> int" where
  "trunc_rat r = (if 0 \<le> r then \<lfloor>r\<rfloor> else \<lceil>r\<rceil>)"

text \<open>\<^verbatim>\<open>int(f)\<close>; the program converts finite values in range only.\<close>

fun int_of_float :: "float64 \<Rightarrow> int" where
  "int_of_float (Fin r) = trunc_rat r"
| "int_of_float _ = - (2 ^ 63)"

definition two_digits :: "nat \<Rightarrow> string" where
  "two_digits n = [digit_char (n div 10), digit_char (n mod 10)]"

text \<open>\<^verbatim>\<open>fmt.Sprintf("%.2f", f)\<close>.\<close>

fun format_2f :: "float64 \<Rightarrow> string" where
  "format_2f (Fin r) =
     (let n = nat (round_even (\<bar>r\<bar> * 100)) in
      (if r < 0 then ''-'' else []) @ itoa_nat (n div 100) @ ''.'' @ two_digits (n mod 100))"
| "format_2f PosInf = ''+Inf''"
| "format_2f NegInf = ''-Inf''"
| "format_2f NaN = ''NaN''"

section \<open>The rounding error\<close>

lemma ilog2_bounds: "0 < n \<Longrightarrow> 2 ^ ilog2 n \<le> n \<and> n < 2 * 2 ^ ilog2 n"
proof (induction n rule: ilog2.induct)
  case (1 n)
  show ?case
  proof (cases "n < 2")
    case False
    then have "2 ^ ilog2 (n div 2) \<le> n div 2 \<and> n div 2 < 2 * 2 ^ ilog2 (n div 2)"
      using 1 by simp
    moreover have "ilog2 n = Suc (ilog2 (n div 2))" using False by (simp add: ilog2.simps[of n])
    ultimately show ?thesis by (simp only: power_Suc) linarith
  next
    case True
    then show ?thesis using "1.prems" by (simp add: ilog2.simps[of n])
  qed
qed

lemma two_powi_pos [simp]: "0 < two_powi e"
  by (simp add: two_powi_def)

lemma two_powi_eq: "two_powi e = 2 powi e"
  unfolding two_powi_def power_int_def by (simp only: power_inverse inverse_eq_divide power_one_over)

lemma two_powi_add: "two_powi (a + b) = two_powi a * two_powi b"
  by (simp add: two_powi_eq power_int_add)

lemma two_powi_diff_nat: "two_powi (int a - int b) = 2 ^ a / 2 ^ b"
  by (simp add: two_powi_eq power_int_diff)

lemma binade_le:
  assumes "x \<noteq> 0" shows "two_powi (binade x) \<le> \<bar>x\<bar>"
proof -
  obtain n d where q: "quotient_of \<bar>x\<bar> = (n, d)" by (cases "quotient_of \<bar>x\<bar>")
  have d: "0 < d" using quotient_of_denom_pos[OF q] .
  have x: "\<bar>x\<bar> = of_int n / of_int d" using quotient_of_div[OF q] .
  have n: "0 < n" using x d assms by (simp add: zero_less_divide_iff flip: zero_less_abs_iff)
  let ?a = "ilog2 (nat n)" and ?b = "ilog2 (nat d)"
  let ?e = "int ?a - int ?b"
  have "2 ^ ?a \<le> nat n" "nat d < 2 * 2 ^ ?b"
    using ilog2_bounds[of "nat n"] ilog2_bounds[of "nat d"] n d by auto
  then have "(2::int) ^ ?a \<le> n" "d \<le> 2 * 2 ^ ?b"
    using n d by (auto simp: le_nat_iff nat_less_iff)
  then have nb: "(2::rat) ^ ?a \<le> of_int n" and db: "of_int d \<le> 2 * (2::rat) ^ ?b"
    by (metis of_int_le_iff of_int_numeral of_int_power of_int_mult)+
  have "two_powi (?e - 1) = 2 ^ ?a / (2 * 2 ^ ?b)"
    using two_powi_diff_nat[of ?a "Suc ?b"] by (simp add: algebra_simps)
  also have "\<dots> \<le> of_int n / of_int d"
    using nb db d n by (intro frac_le) auto
  finally have "two_powi (?e - 1) \<le> \<bar>x\<bar>" using x by simp
  then show ?thesis by (simp add: binade_def q Let_def)
qed

lemma round_even_error: "\<bar>of_int (round_even x) - x\<bar> \<le> 1 / 2"
proof -
  have "0 \<le> x - of_int \<lfloor>x\<rfloor>" "x - of_int \<lfloor>x\<rfloor> < 1" by linarith+
  then show ?thesis by (auto simp: round_even_def Let_def)
qed

lemma round53_abs_error: "\<bar>round53 x - x\<bar> \<le> two_powi (max (binade x - 52) (- 1074)) / 2"
proof (cases "x = 0")
  case False
  define q where "q = two_powi (max (binade x - 52) (- 1074))"
  have q: "0 < q" by (simp add: q_def)
  have "round53 x - x = (of_int (round_even (x / q)) - x / q) * q"
    using False q by (simp add: round53_def field_simps flip: q_def)
  then have "\<bar>round53 x - x\<bar> = \<bar>of_int (round_even (x / q)) - x / q\<bar> * q"
    using q by (simp add: abs_mult)
  also have "\<dots> \<le> 1 / 2 * q" using round_even_error[of "x / q"] q by (intro mult_right_mono) auto
  finally show ?thesis by (simp add: q_def)
qed (simp add: round53_def less_imp_le)

text \<open>In the normal range the relative error is at most \<open>2^-53\<close>.\<close>

lemma round53_error:
  assumes "1 \<le> \<bar>x\<bar>"
  shows "\<bar>round53 x - x\<bar> \<le> \<bar>x\<bar> / 2 ^ 53"
proof -
  have x: "x \<noteq> 0" using assms by auto
  have b: "- 1074 \<le> binade x - 52"
  proof (rule ccontr)
    assume "\<not> ?thesis"
    then have lt: "binade x \<le> - 1023" by simp
    obtain n d where q: "quotient_of \<bar>x\<bar> = (n, d)" by (cases "quotient_of \<bar>x\<bar>")
    have d: "0 < d" using quotient_of_denom_pos[OF q] .
    have "\<bar>x\<bar> = of_int n / of_int d" using quotient_of_div[OF q] .
    then have "of_int d \<le> (of_int n :: rat)" using assms d by (simp add: le_divide_eq)
    then have "nat d \<le> nat n" by simp
    have mono: "ilog2 a \<le> ilog2 b" if "a \<le> b" for a b :: nat
      using that
    proof (induction b arbitrary: a rule: ilog2.induct)
      case (1 b)
      show ?case
      proof (cases "a < 2")
        case False
        then have "ilog2 (a div 2) \<le> ilog2 (b div 2)" using 1 by (intro "1.IH") auto
        then show ?thesis using False 1 by (simp add: ilog2.simps[of a] ilog2.simps[of b])
      qed (simp add: ilog2.simps[of a])
    qed
    have "int (ilog2 (nat d)) \<le> int (ilog2 (nat n))" using mono \<open>nat d \<le> nat n\<close> by simp
    then show False using lt by (auto simp: binade_def q Let_def split: if_splits)
  qed
  have "two_powi (binade x) = two_powi (binade x - 52) * two_powi 52"
    using two_powi_add[of "binade x - 52" 52] by simp
  moreover have "two_powi 52 = 2 ^ 52" by (simp add: two_powi_def)
  ultimately have e: "two_powi (binade x - 52) = two_powi (binade x) / 2 ^ 52" by simp
  have "\<bar>round53 x - x\<bar> \<le> two_powi (binade x - 52) / 2"
    using round53_abs_error[of x] by (simp only: max_absorb1[OF b])
  also have "\<dots> = two_powi (binade x) / 2 ^ 53" by (simp add: e)
  also have "\<dots> \<le> \<bar>x\<bar> / 2 ^ 53" using binade_le[OF x] by (intro divide_right_mono) auto
  finally show ?thesis .
qed

lemma fl64_fin: "\<bar>round53 x\<bar> < 2 ^ 1024 \<Longrightarrow> fl64 x = Fin (round53 x)"
  by (auto simp: fl64_def Let_def)

end
