(* ===== verification/Domain_Types.thy ===== *)
theory Domain_Types
  imports Go_Net Go_Float
begin

text \<open>
  The durable data of the program (\<^verbatim>\<open>internal/domain/model.go\<close>): every struct is a record
  whose fields are the struct's, with a short prefix per record. Go's open string
  enumerations (\<^verbatim>\<open>type EventState string\<close>) stay strings, because the code receives and
  rejects values outside the constants. A \<^verbatim>\<open>*time.Time\<close> is a \<^typ>\<open>time option\<close>; Go's
  \<^verbatim>\<open>int\<close> and \<^verbatim>\<open>int64\<close> fields are integers, and every use of one that could wrap writes
  its range out.
\<close>

type_synonym host_id = string

section \<open>Inventory\<close>

record host =
  h_ID :: host_id
  h_Name :: string
  h_PublicHost :: string

type_synonym workload_kind = string

abbreviation (input) "WorkloadDocker \<equiv> ''docker''"
abbreviation (input) "WorkloadCompose \<equiv> ''compose''"
abbreviation (input) "WorkloadSystemd \<equiv> ''systemd''"
abbreviation (input) "WorkloadProcess \<equiv> ''process''"

record workload =
  w_HostID :: host_id
  w_Key :: string
  w_Kind :: workload_kind
  w_Name :: string
  w_State :: string
  w_Image :: string
  w_Unit :: string
  w_ComposeProject :: string
  w_ComposeService :: string
  w_Health :: string
  w_PID :: int
  w_StartedAt :: "time option"
  w_Unidentified :: bool

type_synonym binding_scope = string

abbreviation (input) "BindingUnknown \<equiv> ''unknown''"
abbreviation (input) "BindingLocal \<equiv> ''local''"
abbreviation (input) "BindingTailnet \<equiv> ''tailnet''"
abbreviation (input) "BindingWildcard \<equiv> ''wildcard''"
abbreviation (input) "BindingInterface \<equiv> ''interface''"

type_synonym reachability = string

abbreviation (input) "ReachabilityUnknown \<equiv> ''unknown''"
abbreviation (input) "ReachabilityUnreachable \<equiv> ''unreachable''"
abbreviation (input) "ReachabilityTailnet \<equiv> ''tailnet''"
abbreviation (input) "ReachabilityPublic \<equiv> ''public''"

record endpoint =
  ep_HostID :: host_id
  ep_WorkloadKey :: string
  ep_Key :: string
  ep_Protocol :: string
  ep_Bind :: string
  ep_Port :: int
  ep_Binding :: binding_scope
  ep_Reachability :: reachability
  ep_ReachabilitySource :: string
  ep_ReachabilityCheckedAt :: "time option"

type_synonym route_kind = string

abbreviation (input) "RouteUnknown \<equiv> ''unknown''"
abbreviation (input) "RouteProxy \<equiv> ''proxy''"
abbreviation (input) "RouteStatic \<equiv> ''static''"
abbreviation (input) "RouteSite \<equiv> ''site''"

record proxy_route =
  rt_HostID :: host_id
  rt_WorkloadKey :: string
  rt_Key :: string
  rt_Kind :: route_kind
  rt_Scheme :: string
  rt_Host :: string
  rt_Port :: int
  rt_Path :: string
  rt_Upstreams :: "string list"

section \<open>Observations\<close>

record memory_resources =
  mem_TotalBytes :: int
  mem_AvailableBytes :: int
  mem_UsedBytes :: int
  mem_SwapTotalBytes :: int
  mem_SwapUsedBytes :: int

record disk_resources =
  dk_Mount :: string
  dk_Filesystem :: string
  dk_TotalBytes :: int
  dk_FreeBytes :: int
  dk_UsedBytes :: int

record docker_resources =
  dr_Containers :: int
  dr_ContainersRunning :: int
  dr_Images :: int
  dr_Volumes :: int
  dr_ReclaimableBytes :: int
  dr_TotalBytes :: int

record resources =
  rs_CPUs :: int
  rs_Load1 :: float64
  rs_Load5 :: float64
  rs_Load15 :: float64
  rs_Memory :: memory_resources
  rs_Disks :: "disk_resources list"
  rs_Docker :: "docker_resources option"

record ssh_auth_source =
  src_Address :: string
  src_Count :: int

record ssh_auth_observation =
  ssh_WindowStart :: time
  ssh_WindowEnd :: time
  ssh_FailedTotal :: int
  ssh_Sources :: "ssh_auth_source list"

record observation =
  ob_HostID :: host_id
  ob_ObservedAt :: time
  ob_Online :: bool
  ob_LastError :: string
  ob_Hostname :: string
  ob_AgentVersion :: string
  ob_Resources :: "resources option"
  ob_SSH :: "ssh_auth_observation option"
  ob_Workloads :: "workload list option"
  ob_Endpoints :: "endpoint list"
  ob_Routes :: "proxy_route list"
  ob_Warnings :: "string list"

text \<open>\<^verbatim>\<open>Workloads\<close> is the one slice whose nil value the program tells from an empty one: nil
  means that the workloads were not collected.\<close>

definition workloads_of :: "observation \<Rightarrow> workload list" where
  "workloads_of ob = (case ob_Workloads ob of None \<Rightarrow> [] | Some ws \<Rightarrow> ws)"

record observation_summary =
  os_HostID :: host_id
  os_ObservedAt :: time
  os_Online :: bool
  os_LastError :: string
  os_AgentVersion :: string
  os_CPUs :: int
  os_Load1 :: float64
  os_MemoryUsedPct :: int
  os_DiskUsedPct :: int
  os_WorkloadCount :: int
  os_FailedWorkloadCount :: int
  os_WildcardEndpointCount :: int
  os_WarningCount :: int

section \<open>User metadata and link checks\<close>

record annotation =
  an_HostID :: host_id
  an_WorkloadKey :: string
  an_Alias :: string
  an_URL :: string
  an_Hidden :: bool
  an_Notes :: string
  an_UpdatedAt :: time

type_synonym web_link_state = string

abbreviation (input) "WebLinkReachable \<equiv> ''reachable''"
abbreviation (input) "WebLinkDegraded \<equiv> ''degraded''"
abbreviation (input) "WebLinkUnreachable \<equiv> ''unreachable''"

record web_link_check =
  lc_HostID :: host_id
  lc_WorkloadKey :: string
  lc_URL :: string
  lc_State :: web_link_state
  lc_HTTPStatus :: int
  lc_LatencyMS :: int
  lc_ErrorKind :: string
  lc_CheckedAt :: time

section \<open>Events\<close>

type_synonym severity = string

abbreviation (input) "SeverityInfo \<equiv> ''info''"
abbreviation (input) "SeverityWarning \<equiv> ''warning''"
abbreviation (input) "SeverityCritical \<equiv> ''critical''"

type_synonym event_state = string

abbreviation (input) "EventActive \<equiv> ''active''"
abbreviation (input) "EventAcknowledged \<equiv> ''acknowledged''"
abbreviation (input) "EventResolved \<equiv> ''resolved''"

record event =
  ev_ID :: string
  ev_HostID :: host_id
  ev_Kind :: string
  ev_Severity :: severity
  ev_State :: event_state
  ev_DedupeKey :: string
  ev_Title :: string
  ev_Detail :: string
  ev_FirstObservedAt :: time
  ev_LastObservedAt :: time
  ev_AcknowledgedAt :: "time option"
  ev_ResolvedAt :: "time option"

record event_signal =
  sg_HostID :: host_id
  sg_Kind :: string
  sg_Severity :: severity
  sg_DedupeKey :: string
  sg_Title :: string
  sg_Detail :: string

type_synonym event_transition_type = string

abbreviation (input) "EventOpened \<equiv> ''opened''"
abbreviation (input) "EventRecovered \<equiv> ''recovered''"

record event_transition =
  tr_Type :: event_transition_type
  tr_Event :: event

record event_notification_delivery =
  nd_ID :: int
  nd_Channel :: string
  nd_Transition :: event_transition_type
  nd_Event :: event
  nd_Attempt :: int

section \<open>Operations\<close>

type_synonym operation_kind = string

abbreviation (input) "OperationStart \<equiv> ''start''"
abbreviation (input) "OperationStop \<equiv> ''stop''"
abbreviation (input) "OperationRestart \<equiv> ''restart''"
abbreviation (input) "OperationLogs \<equiv> ''logs''"
abbreviation (input) "OperationDeploy \<equiv> ''deploy''"
abbreviation (input) "OperationRollback \<equiv> ''rollback''"

type_synonym operation_state = string

abbreviation (input) "OperationRequested \<equiv> ''requested''"
abbreviation (input) "OperationRunning \<equiv> ''running''"
abbreviation (input) "OperationSucceeded \<equiv> ''succeeded''"
abbreviation (input) "OperationFailed \<equiv> ''failed''"
abbreviation (input) "OperationRolledBack \<equiv> ''rolled_back''"

record operation =
  op_ID :: string
  op_HostID :: host_id
  op_WorkloadKey :: string
  op_Kind :: operation_kind
  op_State :: operation_state
  op_RequestedBy :: string
  op_RequestedAt :: time
  op_StartedAt :: "time option"
  op_FinishedAt :: "time option"
  op_ResultSummary :: string
  op_Error :: string
  op_TargetImage :: string
  op_DeploymentID :: string
  op_TargetReleaseID :: string
  op_BeforeReleaseID :: string
  op_AfterReleaseID :: string

end
