(* ===== verification/Domain.thy ===== *)
theory Domain
  imports Domain_Types
begin

text \<open>
  The validators of \<^verbatim>\<open>internal/domain/model.go\<close>. Each \<^verbatim>\<open>Validate\<close> method is a function
  into \<^typ>\<open>string + unit\<close>: the left branch is the message of the returned error (the
  arguments of a formatted message are left out), and the checks come in the source's
  order, so the first failing one decides the message.
\<close>

type_synonym go_error = string

section \<open>Identifiers and text\<close>

definition containsControl :: "string \<Rightarrow> bool" where
  "containsControl value = list_ex is_control (runes value)"

lemma containsControl_append: "valid_utf8 s \<Longrightarrow> containsControl (s @ t) \<longleftrightarrow> containsControl s \<or> containsControl t"
  by (simp add: containsControl_def runes_append)

text \<open>Texts evaluated byte by byte.\<close>

lemmas utf8_eval = rune_chunks.simps(2) decode_rune_def second_ok_def cont_byte_def byte_def runes_def
  rune_count_def valid_utf8_def bad_chunk_def containsControl_def is_control_def is_space_def

definition validateIdentifier :: "string \<Rightarrow> string \<Rightarrow> nat \<Rightarrow> go_error + unit" where
  "validateIdentifier label value maxBytes =
     andThen (guard (label @ '' must not be empty'') (value = []))
       (\<lambda>_. andThen (guard (label @ '' exceeds the byte limit'') (length value > maxBytes))
         (\<lambda>_. guard (label @ '' contains control characters'')
                (list_ex (\<lambda>r. r = 0 \<or> is_control r) (runes value))))"

definition valid_identifier :: "string \<Rightarrow> nat \<Rightarrow> bool" where
  "valid_identifier value maxBytes =
     (value \<noteq> [] \<and> length value \<le> maxBytes \<and> \<not> containsControl value)"

lemma validateIdentifier_ok [simp]:
  "validateIdentifier label value n = Inr u \<longleftrightarrow> valid_identifier value n"
  by (auto simp: validateIdentifier_def valid_identifier_def containsControl_def andThen_ok
      list_ex_iff is_control_def)

lemma valid_identifier_ascii:
  "ascii s \<Longrightarrow> valid_identifier s n \<longleftrightarrow>
    s \<noteq> [] \<and> length s \<le> n \<and> list_all (\<lambda>c. \<not> is_control (byte c)) s"
  by (auto simp: valid_identifier_def containsControl_def runes_ascii list_ex_iff list_all_iff)

lemma valid_identifier_mono: "valid_identifier v m \<Longrightarrow> m \<le> n \<Longrightarrow> valid_identifier v n"
  by (auto simp: valid_identifier_def)

section \<open>Closed sets of constants\<close>

definition validSeverity :: "severity \<Rightarrow> bool" where
  "validSeverity s = (s = SeverityInfo \<or> s = SeverityWarning \<or> s = SeverityCritical)"

definition validWorkloadKind :: "workload_kind \<Rightarrow> bool" where
  "validWorkloadKind k =
     (k = WorkloadDocker \<or> k = WorkloadCompose \<or> k = WorkloadSystemd \<or> k = WorkloadProcess)"

definition validBinding :: "binding_scope \<Rightarrow> bool" where
  "validBinding b = (b = BindingUnknown \<or> b = BindingLocal \<or> b = BindingTailnet
     \<or> b = BindingWildcard \<or> b = BindingInterface)"

definition validReachability :: "reachability \<Rightarrow> bool" where
  "validReachability r = (r = ReachabilityUnknown \<or> r = ReachabilityUnreachable
     \<or> r = ReachabilityTailnet \<or> r = ReachabilityPublic)"

section \<open>Operations\<close>

definition validateOptionalReleaseSnapshot :: "string \<Rightarrow> nat \<Rightarrow> go_error + unit" where
  "validateOptionalReleaseSnapshot value maxBytes =
     (if value = [] then Inr ()
      else guard ''is invalid''
        (length value > maxBytes \<or> containsControl value \<or> contains_any value [CHR '' '', CHR 0x09]))"

text \<open>\<^verbatim>\<open>strings.Cut\<close> at a text.\<close>

fun cut_at :: "string \<Rightarrow> string \<Rightarrow> (string \<times> string) option" where
  "cut_at sep s =
     (if has_prefix s sep then Some ([], drop (length sep) s)
      else case s of [] \<Rightarrow> None | c # cs \<Rightarrow> map_option (\<lambda>(a, b). (c # a, b)) (cut_at sep cs))"

declare cut_at.simps [simp del]

definition lower_hex_rune :: "nat \<Rightarrow> bool" where
  "lower_hex_rune r = ((48 \<le> r \<and> r \<le> 57) \<or> (97 \<le> r \<and> r \<le> 102))"

definition validImmutableImageReference :: "string \<Rightarrow> bool" where
  "validImmutableImageReference img =
     (if img = [] \<or> length img > 512 \<or> containsControl img
         \<or> contains_any img [CHR '' '', CHR 0x09] then False
      else case cut_at ''@sha256:'' img of
        None \<Rightarrow> False
      | Some (repository, digest) \<Rightarrow>
          repository \<noteq> [] \<and> length digest = 64 \<and> list_all lower_hex_rune (runes digest))"

definition validOperationErrorCategory :: "string \<Rightarrow> bool" where
  "validOperationErrorCategory value =
     (length value \<le> 64
      \<and> list_all (\<lambda>r. r = 95 \<or> (97 \<le> r \<and> r \<le> 122) \<or> (48 \<le> r \<and> r \<le> 57)) (runes value)
      \<and> value \<noteq> [])"

definition validateOperationKind :: "operation \<Rightarrow> go_error + unit" where
  "validateOperationKind p =
     (if op_Kind p \<in> {OperationStart, OperationStop, OperationRestart, OperationLogs} then
        andThen (validateIdentifier ''operation workload key'' (op_WorkloadKey p) 512)
          (\<lambda>_. guard ''non-deployment operation must not record a release snapshot''
            (op_TargetImage p \<noteq> [] \<or> op_DeploymentID p \<noteq> [] \<or> op_TargetReleaseID p \<noteq> []
             \<or> op_BeforeReleaseID p \<noteq> [] \<or> op_AfterReleaseID p \<noteq> []))
      else if op_Kind p \<in> {OperationDeploy, OperationRollback} then
        andThen (if op_WorkloadKey p \<noteq> []
                 then validateIdentifier ''operation workload key'' (op_WorkloadKey p) 512 else Inr ())
        (\<lambda>_. andThen (guard ''operation target image is invalid''
                (op_TargetImage p \<noteq> [] \<and> \<not> validImmutableImageReference (op_TargetImage p)))
        (\<lambda>_. andThen (validateOptionalReleaseSnapshot (op_DeploymentID p) 256)
        (\<lambda>_. andThen (validateOptionalReleaseSnapshot (op_TargetReleaseID p) 64)
        (\<lambda>_. andThen (validateOptionalReleaseSnapshot (op_BeforeReleaseID p) 64)
        (\<lambda>_. validateOptionalReleaseSnapshot (op_AfterReleaseID p) 64)))))
      else Inl ''invalid operation kind'')"

definition validateOperationTimes :: "operation \<Rightarrow> go_error + unit" where
  "validateOperationTimes p =
     andThen (guard ''operation request time must not be zero'' (op_RequestedAt p = 0))
     (\<lambda>_. andThen (guard ''operation start predates request''
            (case op_StartedAt p of None \<Rightarrow> False | Some s \<Rightarrow> s < op_RequestedAt p))
     (\<lambda>_. guard ''operation finish time is invalid''
            (case op_FinishedAt p of None \<Rightarrow> False
             | Some f \<Rightarrow> f < op_RequestedAt p
                 \<or> (case op_StartedAt p of None \<Rightarrow> False | Some s \<Rightarrow> f < s))))"

definition validateOperationState :: "operation \<Rightarrow> go_error + unit" where
  "validateOperationState p =
     (if op_State p = OperationRequested then
        guard ''requested operation contains execution state''
          (op_StartedAt p \<noteq> None \<or> op_FinishedAt p \<noteq> None \<or> op_ResultSummary p \<noteq> []
           \<or> op_Error p \<noteq> [] \<or> op_AfterReleaseID p \<noteq> [])
      else if op_State p = OperationRunning then
        guard ''running operation timestamps or result are inconsistent''
          (op_StartedAt p = None \<or> op_FinishedAt p \<noteq> None \<or> op_ResultSummary p \<noteq> []
           \<or> op_Error p \<noteq> [] \<or> op_AfterReleaseID p \<noteq> [])
      else if op_State p = OperationSucceeded then
        guard ''succeeded operation timestamps or result are inconsistent''
          (op_StartedAt p = None \<or> op_FinishedAt p = None \<or> op_Error p \<noteq> []
           \<or> trim_space (op_ResultSummary p) = [])
      else if op_State p = OperationFailed then
        guard ''failed operation must have finish time and error category''
          (op_FinishedAt p = None \<or> op_Error p = [])
      else if op_State p = OperationRolledBack then
        guard ''rolled-back operation timestamps or result are inconsistent''
          (op_StartedAt p = None \<or> op_FinishedAt p = None \<or> op_Error p = []
           \<or> trim_space (op_ResultSummary p) = [])
      else Inl ''invalid operation state'')"

definition validateOperation :: "operation \<Rightarrow> go_error + unit" where
  "validateOperation p =
     andThen (validateIdentifier ''operation id'' (op_ID p) 128)
     (\<lambda>_. andThen (validateIdentifier ''operation host id'' (op_HostID p) 128)
     (\<lambda>_. andThen (validateOperationKind p)
     (\<lambda>_. andThen (validateIdentifier ''operation requester'' (op_RequestedBy p) 128)
     (\<lambda>_. andThen (validateOperationTimes p)
     (\<lambda>_. andThen (guard ''operation result summary is invalid''
            (\<not> valid_utf8 (op_ResultSummary p) \<or> rune_count (op_ResultSummary p) > 240
             \<or> containsControl (op_ResultSummary p)))
     (\<lambda>_. andThen (guard ''operation error category is invalid''
            (op_Error p \<noteq> [] \<and> \<not> validOperationErrorCategory (op_Error p)))
     (\<lambda>_. validateOperationState p)))))))"

section \<open>Hosts, workloads, endpoints\<close>

definition validateHost :: "host \<Rightarrow> go_error + unit" where
  "validateHost h =
     andThen (validateIdentifier ''host id'' (h_ID h) 128)
       (\<lambda>_. guard ''host name must not be empty'' (trim_space (h_Name h) = []))"

definition validateWorkload :: "host_id \<Rightarrow> workload \<Rightarrow> go_error + unit" where
  "validateWorkload hid w =
     andThen (guard ''workload belongs to another host'' (w_HostID w \<noteq> hid))
     (\<lambda>_. andThen (validateIdentifier ''workload key'' (w_Key w) 512)
     (\<lambda>_. andThen (guard ''workload has invalid kind'' (\<not> validWorkloadKind (w_Kind w)))
     (\<lambda>_. andThen (guard ''workload has no name'' (trim_space (w_Name w) = []))
     (\<lambda>_. andThen (guard ''workload has a Compose service without a project''
            (w_ComposeService w \<noteq> [] \<and> w_ComposeProject w = []))
     (\<lambda>_. if w_ComposeProject w \<noteq> [] \<or> w_ComposeService w \<noteq> [] then
            andThen (guard ''workload has Compose metadata but is not Docker''
              (w_Kind w \<noteq> WorkloadDocker))
            (\<lambda>_. andThen (validateIdentifier ''Compose project'' (w_ComposeProject w) 128)
            (\<lambda>_. if w_ComposeService w \<noteq> []
                 then validateIdentifier ''Compose service'' (w_ComposeService w) 128 else Inr ()))
          else Inr ())))))"

definition composite_key :: "string \<Rightarrow> string \<Rightarrow> string" where
  "composite_key a b = a @ [CHR 0x00] @ b"

definition validateEndpoint :: "host_id \<Rightarrow> string list \<Rightarrow> endpoint \<Rightarrow> go_error + unit" where
  "validateEndpoint hid workloads e =
     andThen (guard ''endpoint belongs to another host'' (ep_HostID e \<noteq> hid))
     (\<lambda>_. andThen (guard ''endpoint references missing workload'' (ep_WorkloadKey e \<notin> set workloads))
     (\<lambda>_. andThen (validateIdentifier ''endpoint key'' (ep_Key e) 512)
     (\<lambda>_. andThen (guard ''endpoint has invalid protocol''
            (ep_Protocol e \<noteq> ''tcp'' \<and> ep_Protocol e \<noteq> ''udp''))
     (\<lambda>_. guard ''endpoint has invalid port'' (ep_Port e < 1 \<or> ep_Port e > 65535)))))"

definition validateEndpointEvidence :: "endpoint \<Rightarrow> go_error + unit" where
  "validateEndpointEvidence e =
     andThen (guard ''endpoint has invalid binding'' (\<not> validBinding (ep_Binding e)))
     (\<lambda>_. andThen (guard ''endpoint has invalid reachability'' (\<not> validReachability (ep_Reachability e)))
     (\<lambda>_. andThen (guard ''endpoint reachability lacks evidence''
            (ep_Reachability e \<noteq> ReachabilityUnknown
             \<and> (ep_ReachabilitySource e = [] \<or> ep_ReachabilityCheckedAt e = None)))
     (\<lambda>_. guard ''endpoint has evidence but unknown reachability''
            (ep_Reachability e = ReachabilityUnknown
             \<and> (ep_ReachabilitySource e \<noteq> [] \<or> ep_ReachabilityCheckedAt e \<noteq> None)))))"

section \<open>Proxy routes\<close>

definition asciiAlphaNumeric :: "char \<Rightarrow> bool" where
  "asciiAlphaNumeric c = (let v = byte c in
     (97 \<le> v \<and> v \<le> 122) \<or> (65 \<le> v \<and> v \<le> 90) \<or> (48 \<le> v \<and> v \<le> 57))"

definition validHostLabel :: "string \<Rightarrow> bool" where
  "validHostLabel label =
     (1 \<le> length label \<and> length label \<le> 63
      \<and> asciiAlphaNumeric (hd label) \<and> asciiAlphaNumeric (last label)
      \<and> list_all (\<lambda>c. asciiAlphaNumeric c \<or> c = CHR ''-'') (butlast (tl label)))"

definition validProxyHost :: "string \<Rightarrow> bool \<Rightarrow> bool" where
  "validProxyHost h allowEmpty =
     (if h = [] then allowEmpty
      else if length h > 253 \<or> has_suffix h ''.'' then False
      else if parse_ip h \<noteq> None then True
      else if contains_any h ''/:@?#[]'' then False
      else list_all validHostLabel (split_on CHR ''.'' h))"

definition validProxyPath :: "string \<Rightarrow> bool" where
  "validProxyPath path =
     (if path = [] \<or> length path > 512 \<or> hd path \<noteq> CHR ''/'' \<or> \<not> valid_utf8 path
         \<or> contains_any path ''?#'' then False
      else \<not> list_ex (\<lambda>r. r = 0 \<or> is_control r) (runes path))"

definition validProxyUpstream :: "string \<Rightarrow> bool" where
  "validProxyUpstream upstream =
     (if length upstream < 3 \<or> length upstream > 256 \<or> contains_any upstream ''/@?#'' then False
      else case split_host_port upstream of
        None \<Rightarrow> False
      | Some (h, portText) \<Rightarrow>
          if \<not> validProxyHost h False then False
          else case atoi portText of None \<Rightarrow> False | Some port \<Rightarrow> 1 \<le> port \<and> port \<le> 65535)"

definition route_key :: "proxy_route \<Rightarrow> string" where
  "route_key r = rt_Scheme r @ ''://'' @ join_host_port (rt_Host r) (itoa (rt_Port r)) @ rt_Path r"

definition validateUpstreams :: "string list \<Rightarrow> go_error + unit" where
  "validateUpstreams us =
     check_distinct ''proxy route has duplicate upstream'' (\<lambda>u. u)
       (\<lambda>u. guard ''proxy route has invalid upstream'' (\<not> validProxyUpstream u)) (\<lambda>_. Inr ()) [] us"

definition validateRoute :: "host_id \<Rightarrow> string list \<Rightarrow> proxy_route \<Rightarrow> go_error + unit" where
  "validateRoute hid workloads r =
     andThen (guard ''proxy route belongs to another host'' (rt_HostID r \<noteq> hid))
     (\<lambda>_. andThen (guard ''proxy route references missing workload'' (rt_WorkloadKey r \<notin> set workloads))
     (\<lambda>_. andThen (validateIdentifier ''proxy route key'' (rt_Key r) 1024)
     (\<lambda>_. andThen (guard ''proxy route has invalid kind''
            (rt_Kind r \<noteq> RouteUnknown \<and> rt_Kind r \<noteq> RouteProxy \<and> rt_Kind r \<noteq> RouteStatic
             \<and> rt_Kind r \<noteq> RouteSite))
     (\<lambda>_. andThen (guard ''proxy route has invalid scheme''
            (rt_Scheme r \<noteq> ''http'' \<and> rt_Scheme r \<noteq> ''https''))
     (\<lambda>_. andThen (guard ''proxy route has invalid host'' (\<not> validProxyHost (rt_Host r) True))
     (\<lambda>_. andThen (guard ''proxy route has invalid port'' (rt_Port r < 1 \<or> rt_Port r > 65535))
     (\<lambda>_. andThen (guard ''proxy route has invalid path'' (\<not> validProxyPath (rt_Path r)))
     (\<lambda>_. andThen (guard ''proxy route does not match its route fields'' (rt_Key r \<noteq> route_key r))
     (\<lambda>_. andThen (guard ''proxy route has too many upstreams'' (length (rt_Upstreams r) > 16))
     (\<lambda>_. validateUpstreams (rt_Upstreams r)))))))))))"

section \<open>SSH authentication summary\<close>

definition validateSSHSource :: "ssh_auth_source \<Rightarrow> go_error + unit" where
  "validateSSHSource s =
     guard ''SSH authentication source is invalid''
       (case parse_addr (src_Address s) of
          None \<Rightarrow> True
        | Some a \<Rightarrow> addr_text a \<noteq> src_Address s \<or> src_Count s < 1 \<or> src_Count s > 1000000)"

definition validateSSHAuthObservation :: "ssh_auth_observation \<Rightarrow> go_error + unit" where
  "validateSSHAuthObservation s =
     (let d = ssh_WindowEnd s - ssh_WindowStart s in
      andThen (guard ''SSH authentication window is invalid''
        (ssh_WindowStart s = 0 \<or> ssh_WindowEnd s = 0 \<or> d < 5 * minute \<or> d > 15 * minute))
      (\<lambda>_. andThen (guard ''SSH authentication counts exceed limits''
        (ssh_FailedTotal s < 0 \<or> ssh_FailedTotal s > 1000000 \<or> length (ssh_Sources s) > 20))
      (\<lambda>_. andThen (guard ''SSH authentication total and sources are inconsistent''
        ((ssh_FailedTotal s = 0) \<noteq> (ssh_Sources s = [])))
      (\<lambda>_. andThen (check_distinct ''SSH authentication source is duplicated''
              (\<lambda>x. parse_addr (src_Address x)) validateSSHSource (\<lambda>_. Inr ()) [] (ssh_Sources s))
      (\<lambda>_. guard ''SSH authentication source counts exceed total''
        (sum_list (map src_Count (ssh_Sources s)) > ssh_FailedTotal s))))))"

section \<open>Observations\<close>

definition validateObservation :: "observation \<Rightarrow> go_error + unit" where
  "validateObservation ob =
     andThen (validateIdentifier ''host id'' (ob_HostID ob) 128)
     (\<lambda>_. andThen (guard ''observation time must not be zero'' (ob_ObservedAt ob = 0))
     (\<lambda>_. andThen (case ob_SSH ob of
            None \<Rightarrow> Inr ()
          | Some s \<Rightarrow>
              andThen (guard ''offline observation must not contain SSH telemetry'' (\<not> ob_Online ob))
              (\<lambda>_. andThen (validateSSHAuthObservation s)
              (\<lambda>_. let clockSkew = ssh_WindowEnd s - ob_ObservedAt ob in
                   guard ''SSH authentication window is stale relative to observation''
                     (clockSkew < - (5 * minute) \<or> clockSkew > 5 * minute))))
     (\<lambda>_. andThen (check_distinct ''duplicate workload key'' w_Key
            (validateWorkload (ob_HostID ob)) (\<lambda>_. Inr ()) [] (workloads_of ob))
     (\<lambda>_. andThen (check_distinct ''duplicate endpoint key''
            (\<lambda>e. composite_key (ep_WorkloadKey e) (ep_Key e))
            (validateEndpoint (ob_HostID ob) (map w_Key (workloads_of ob)))
            validateEndpointEvidence [] (ob_Endpoints ob))
     (\<lambda>_. check_distinct ''duplicate proxy route key''
            (\<lambda>r. composite_key (rt_WorkloadKey r) (rt_Key r))
            (validateRoute (ob_HostID ob) (map w_Key (workloads_of ob)))
            (\<lambda>_. Inr ()) [] (ob_Routes ob))))))"

section \<open>Observation summaries\<close>

definition UsagePercent :: "int \<Rightarrow> int \<Rightarrow> int" where
  "UsagePercent used whole =
     (if used \<le> 0 \<or> whole \<le> 0 then 0
      else if whole \<le> used then 100
      else int_of_float (float_div (float_mul (float_of_int used) (Fin 100)) (float_of_int whole)))"

definition failed_workload :: "workload \<Rightarrow> bool" where
  "failed_workload w =
     (equal_fold_ascii (trim_space (w_State w)) ''failed''
      \<or> equal_fold_ascii (trim_space (w_Health w)) ''unhealthy'')"

definition validateSummary :: "observation_summary \<Rightarrow> go_error + unit" where
  "validateSummary s =
     andThen (validateIdentifier ''host id'' (os_HostID s) 128)
     (\<lambda>_. andThen (guard ''observation summary time must not be zero'' (os_ObservedAt s = 0))
     (\<lambda>_. andThen (guard ''observation summary error is invalid''
            (\<not> valid_utf8 (os_LastError s) \<or> length (os_LastError s) > 4096))
     (\<lambda>_. andThen (guard ''observation summary Agent version is invalid''
            (\<not> valid_utf8 (os_AgentVersion s) \<or> length (os_AgentVersion s) > 128))
     (\<lambda>_. andThen (guard ''observation summary load is invalid''
            (os_CPUs s < 0 \<or> os_CPUs s > 4096 \<or> float_lt (os_Load1 s) 0
             \<or> os_Load1 s = NaN \<or> os_Load1 s = PosInf \<or> os_Load1 s = NegInf))
     (\<lambda>_. andThen (check_all (\<lambda>v. guard ''observation summary percentage is invalid'' (v < 0 \<or> v > 100))
            [os_MemoryUsedPct s, os_DiskUsedPct s])
     (\<lambda>_. andThen (check_all (\<lambda>v. guard ''observation summary count is invalid'' (v < 0))
            [os_WorkloadCount s, os_FailedWorkloadCount s, os_WildcardEndpointCount s, os_WarningCount s])
     (\<lambda>_. guard ''failed workload count exceeds workload count''
            (os_FailedWorkloadCount s > os_WorkloadCount s))))))))"

definition root_disk_pct :: "disk_resources list \<Rightarrow> int" where
  "root_disk_pct ds =
     (case find (\<lambda>d. dk_Mount d = ''/'') ds of
        None \<Rightarrow> 0
      | Some d \<Rightarrow> UsagePercent (dk_UsedBytes d) (dk_TotalBytes d))"

definition summary_of :: "observation \<Rightarrow> observation_summary" where
  "summary_of ob =
     \<lparr>os_HostID = ob_HostID ob, os_ObservedAt = ob_ObservedAt ob, os_Online = ob_Online ob,
      os_LastError = ob_LastError ob, os_AgentVersion = ob_AgentVersion ob,
      os_CPUs = (case ob_Resources ob of None \<Rightarrow> 0 | Some r \<Rightarrow> rs_CPUs r),
      os_Load1 = (case ob_Resources ob of None \<Rightarrow> Fin 0 | Some r \<Rightarrow> rs_Load1 r),
      os_MemoryUsedPct = (case ob_Resources ob of None \<Rightarrow> 0
        | Some r \<Rightarrow> UsagePercent (mem_UsedBytes (rs_Memory r)) (mem_TotalBytes (rs_Memory r))),
      os_DiskUsedPct = (case ob_Resources ob of None \<Rightarrow> 0 | Some r \<Rightarrow> root_disk_pct (rs_Disks r)),
      os_WorkloadCount = int (length (workloads_of ob)),
      os_FailedWorkloadCount = int (affected failed_workload (workloads_of ob)),
      os_WildcardEndpointCount =
        int (affected (\<lambda>e. ep_Binding e = BindingWildcard) (ob_Endpoints ob)),
      os_WarningCount = int (length (ob_Warnings ob))\<rparr>"

definition SummarizeObservation :: "observation \<Rightarrow> go_error + observation_summary" where
  "SummarizeObservation ob =
     andThen (validateObservation ob)
       (\<lambda>_. andThen (validateSummary (summary_of ob)) (\<lambda>_. Inr (summary_of ob)))"

section \<open>Annotations and link checks\<close>

text \<open>\<^verbatim>\<open>url.Parse\<close> is the argument \<open>parse_url\<close>: the fields of the parsed URL the
  program reads, or nothing when it returns an error.\<close>

record parsed_url =
  u_Scheme :: string
  u_Host :: string
  u_HasUser :: bool
  u_Hostname :: string
  u_PortText :: string
  u_Path :: string
  u_RawPath :: string
  u_RawQuery :: string
  u_Fragment :: string
  u_String :: string

type_synonym url_parser = "string \<Rightarrow> parsed_url option"

definition absolute_http :: "url_parser \<Rightarrow> string \<Rightarrow> bool" where
  "absolute_http parse_url u =
     (case parse_url u of None \<Rightarrow> False
      | Some p \<Rightarrow> u_Host p \<noteq> [] \<and> (u_Scheme p = ''http'' \<or> u_Scheme p = ''https'') \<and> \<not> u_HasUser p)"

definition validateAnnotation :: "url_parser \<Rightarrow> annotation \<Rightarrow> go_error + unit" where
  "validateAnnotation parse_url a =
     andThen (validateIdentifier ''host id'' (an_HostID a) 128)
     (\<lambda>_. andThen (validateIdentifier ''workload key'' (an_WorkloadKey a) 512)
     (\<lambda>_. andThen (guard ''annotation update time must not be zero'' (an_UpdatedAt a = 0))
     (\<lambda>_. andThen (guard ''annotation must be valid UTF-8''
            (\<not> valid_utf8 (an_Alias a) \<or> \<not> valid_utf8 (an_URL a) \<or> \<not> valid_utf8 (an_Notes a)))
     (\<lambda>_. andThen (guard ''annotation alias exceeds 120 characters'' (rune_count (an_Alias a) > 120))
     (\<lambda>_. andThen (guard ''annotation URL exceeds 2048 bytes'' (length (an_URL a) > 2048))
     (\<lambda>_. andThen (guard ''annotation notes exceed 4000 characters'' (rune_count (an_Notes a) > 4000))
     (\<lambda>_. guard ''annotation URL must be absolute http/https without credentials''
            (an_URL a \<noteq> [] \<and> \<not> absolute_http parse_url (an_URL a)))))))))"

definition validateLinkState :: "web_link_check \<Rightarrow> go_error + unit" where
  "validateLinkState c =
     (if lc_State c = WebLinkReachable then
        guard ''reachable Web link requires HTTP 100..499 and no error''
          (lc_HTTPStatus c < 100 \<or> lc_HTTPStatus c \<ge> 500 \<or> lc_ErrorKind c \<noteq> [])
      else if lc_State c = WebLinkDegraded then
        guard ''degraded Web link requires HTTP 5xx and no error''
          (lc_HTTPStatus c < 500 \<or> lc_HTTPStatus c > 599 \<or> lc_ErrorKind c \<noteq> [])
      else if lc_State c = WebLinkUnreachable then
        guard ''unreachable Web link requires a sanitized error kind and no HTTP status''
          (lc_HTTPStatus c \<noteq> 0 \<or> lc_ErrorKind c = [])
      else Inl ''invalid Web link state'')"

definition validateWebLinkCheck :: "url_parser \<Rightarrow> web_link_check \<Rightarrow> go_error + unit" where
  "validateWebLinkCheck parse_url c =
     andThen (validateIdentifier ''host id'' (lc_HostID c) 128)
     (\<lambda>_. andThen (validateIdentifier ''workload key'' (lc_WorkloadKey c) 512)
     (\<lambda>_. andThen (guard ''Web link check time must not be zero'' (lc_CheckedAt c = 0))
     (\<lambda>_. andThen (guard ''Web link latency is out of range''
            (lc_LatencyMS c < 0 \<or> lc_LatencyMS c > hour div millisecond))
     (\<lambda>_. andThen (guard ''Web link URL exceeds 2048 bytes'' (length (lc_URL c) > 2048))
     (\<lambda>_. andThen (guard ''Web link URL must be absolute http/https without credentials''
            (\<not> absolute_http parse_url (lc_URL c)))
     (\<lambda>_. andThen (guard ''Web link error kind is invalid''
            (length (lc_ErrorKind c) > 64 \<or> \<not> valid_utf8 (lc_ErrorKind c)))
     (\<lambda>_. validateLinkState c)))))))"

section \<open>Events\<close>

definition validateEventSignal :: "event_signal \<Rightarrow> go_error + unit" where
  "validateEventSignal s =
     andThen (validateIdentifier ''event host id'' (sg_HostID s) 128)
     (\<lambda>_. andThen (validateIdentifier ''event kind'' (sg_Kind s) 128)
     (\<lambda>_. andThen (validateIdentifier ''event dedupe key'' (sg_DedupeKey s) 1024)
     (\<lambda>_. andThen (guard ''event dedupe key must be host-scoped''
            (\<not> has_prefix (sg_DedupeKey s) (sg_HostID s @ '':'')))
     (\<lambda>_. andThen (guard ''invalid event severity'' (\<not> validSeverity (sg_Severity s)))
     (\<lambda>_. andThen (guard ''event title is invalid''
            (trim_space (sg_Title s) = [] \<or> \<not> valid_utf8 (sg_Title s) \<or> rune_count (sg_Title s) > 240))
     (\<lambda>_. guard ''event detail is invalid''
            (\<not> valid_utf8 (sg_Detail s) \<or> rune_count (sg_Detail s) > 4000)))))))"

definition event_signal_of :: "event \<Rightarrow> event_signal" where
  "event_signal_of e =
     \<lparr>sg_HostID = ev_HostID e, sg_Kind = ev_Kind e, sg_Severity = ev_Severity e,
      sg_DedupeKey = ev_DedupeKey e, sg_Title = ev_Title e, sg_Detail = ev_Detail e\<rparr>"

definition validateEventState :: "event \<Rightarrow> go_error + unit" where
  "validateEventState e =
     (if ev_State e = EventActive then
        guard ''active event has terminal timestamps''
          (ev_AcknowledgedAt e \<noteq> None \<or> ev_ResolvedAt e \<noteq> None)
      else if ev_State e = EventAcknowledged then
        guard ''acknowledged event timestamps are inconsistent''
          (ev_AcknowledgedAt e = None \<or> ev_ResolvedAt e \<noteq> None)
      else if ev_State e = EventResolved then
        andThen (guard ''resolved event timestamps are inconsistent''
          (case ev_ResolvedAt e of None \<Rightarrow> True | Some r \<Rightarrow> r < ev_LastObservedAt e))
        (\<lambda>_. guard ''event acknowledgement follows recovery''
          (case (ev_AcknowledgedAt e, ev_ResolvedAt e) of
             (Some a, Some r) \<Rightarrow> r < a | _ \<Rightarrow> False))
      else Inl ''invalid event state'')"

definition validateEvent :: "event \<Rightarrow> go_error + unit" where
  "validateEvent e =
     andThen (validateIdentifier ''event id'' (ev_ID e) 128)
     (\<lambda>_. andThen (validateEventSignal (event_signal_of e))
     (\<lambda>_. andThen (guard ''event observation times are invalid''
            (ev_FirstObservedAt e = 0 \<or> ev_LastObservedAt e = 0
             \<or> ev_LastObservedAt e < ev_FirstObservedAt e))
     (\<lambda>_. andThen (guard ''event acknowledgement predates the event''
            (case ev_AcknowledgedAt e of None \<Rightarrow> False | Some a \<Rightarrow> a < ev_FirstObservedAt e))
     (\<lambda>_. validateEventState e))))"

section \<open>What the validators accept\<close>

lemma check_distinct_ok_Nil:
  "check_distinct dup key pre post [] xs = Inr u \<longleftrightarrow>
    (\<forall>x \<in> set xs. pre x = Inr () \<and> post x = Inr ()) \<and> distinct (map key xs)"
  by (simp add: check_distinct_ok)

lemma validateEventSignal_ok:
  "validateEventSignal s = Inr u \<longleftrightarrow>
    valid_identifier (sg_HostID s) 128 \<and> valid_identifier (sg_Kind s) 128 \<and>
    valid_identifier (sg_DedupeKey s) 1024 \<and> has_prefix (sg_DedupeKey s) (sg_HostID s @ '':'') \<and>
    validSeverity (sg_Severity s) \<and>
    trim_space (sg_Title s) \<noteq> [] \<and> valid_utf8 (sg_Title s) \<and> rune_count (sg_Title s) \<le> 240 \<and>
    valid_utf8 (sg_Detail s) \<and> rune_count (sg_Detail s) \<le> 4000"
  by (auto simp: validateEventSignal_def andThen_ok not_less)

lemma validateEvent_ok:
  "validateEvent e = Inr u \<longleftrightarrow>
    valid_identifier (ev_ID e) 128 \<and> validateEventSignal (event_signal_of e) = Inr () \<and>
    ev_FirstObservedAt e \<noteq> 0 \<and> ev_LastObservedAt e \<noteq> 0 \<and>
    ev_FirstObservedAt e \<le> ev_LastObservedAt e \<and>
    (\<forall>a. ev_AcknowledgedAt e = Some a \<longrightarrow> ev_FirstObservedAt e \<le> a) \<and>
    validateEventState e = Inr ()"
  by (auto simp: validateEvent_def andThen_ok not_less split: option.splits)

lemma validateEventState_ok:
  "validateEventState e = Inr u \<longleftrightarrow>
    (ev_State e = EventActive \<and> ev_AcknowledgedAt e = None \<and> ev_ResolvedAt e = None) \<or>
    (ev_State e = EventAcknowledged \<and> ev_AcknowledgedAt e \<noteq> None \<and> ev_ResolvedAt e = None) \<or>
    (ev_State e = EventResolved \<and> (\<exists>r. ev_ResolvedAt e = Some r \<and> ev_LastObservedAt e \<le> r \<and>
       (\<forall>a. ev_AcknowledgedAt e = Some a \<longrightarrow> a \<le> r)))"
  by (auto simp: validateEventState_def andThen_ok not_less split: option.splits)

lemma validateOperationTimes_ok:
  "validateOperationTimes p = Inr u \<longleftrightarrow>
    op_RequestedAt p \<noteq> 0 \<and>
    (\<forall>s. op_StartedAt p = Some s \<longrightarrow> op_RequestedAt p \<le> s) \<and>
    (\<forall>f. op_FinishedAt p = Some f \<longrightarrow> op_RequestedAt p \<le> f \<and>
       (\<forall>s. op_StartedAt p = Some s \<longrightarrow> s \<le> f))"
  by (auto simp: validateOperationTimes_def andThen_ok not_less split: option.splits)

lemma validateOperation_ok:
  "validateOperation p = Inr u \<longleftrightarrow>
    valid_identifier (op_ID p) 128 \<and> valid_identifier (op_HostID p) 128 \<and>
    validateOperationKind p = Inr () \<and> valid_identifier (op_RequestedBy p) 128 \<and>
    validateOperationTimes p = Inr () \<and>
    valid_utf8 (op_ResultSummary p) \<and> rune_count (op_ResultSummary p) \<le> 240 \<and>
    \<not> containsControl (op_ResultSummary p) \<and>
    (op_Error p \<noteq> [] \<longrightarrow> validOperationErrorCategory (op_Error p)) \<and>
    validateOperationState p = Inr ()"
  by (auto simp: validateOperation_def andThen_ok not_less)

lemma validateHost_ok:
  "validateHost h = Inr u \<longleftrightarrow> valid_identifier (h_ID h) 128 \<and> trim_space (h_Name h) \<noteq> []"
  by (auto simp: validateHost_def andThen_ok)

text \<open>The validators look at nothing but the fields they name.\<close>

lemma validateOperationKind_cong:
  "op_Kind p = op_Kind q \<Longrightarrow> op_WorkloadKey p = op_WorkloadKey q \<Longrightarrow> op_TargetImage p = op_TargetImage q
    \<Longrightarrow> op_DeploymentID p = op_DeploymentID q \<Longrightarrow> op_TargetReleaseID p = op_TargetReleaseID q
    \<Longrightarrow> op_BeforeReleaseID p = op_BeforeReleaseID q \<Longrightarrow> op_AfterReleaseID p = op_AfterReleaseID q
    \<Longrightarrow> validateOperationKind p = validateOperationKind q"
  by (simp add: validateOperationKind_def)

lemma trim_space_nonempty: "trim_space s \<noteq> [] \<Longrightarrow> s \<noteq> []"
  by (auto simp: trim_space_def trim_chunks_def)

section \<open>The percentage of a pair of counters\<close>

lemma float_of_int_small:
  assumes "0 < n" "n < 2 ^ 63"
  shows "\<exists>r. float_of_int n = Fin r \<and> \<bar>r - of_int n\<bar> \<le> of_int n / 2 ^ 53 \<and> r = round53 (of_int n)"
proof -
  have n1: "(1::rat) \<le> of_int n" using assms by simp
  have e: "\<bar>round53 (of_int n) - of_int n\<bar> \<le> of_int n / 2 ^ 53"
    using round53_error[of "of_int n"] n1 by simp
  have nb: "(of_int n :: rat) < 2 ^ 63"
    using assms(2) by (metis of_int_less_iff of_int_numeral of_int_power)
  have "\<bar>round53 (of_int n)\<bar> \<le> of_int n + of_int n / 2 ^ 53" using e n1 by linarith
  also have "\<dots> < 2 ^ 63 + 2 ^ 63 / 2 ^ 53" using nb by simp
  also have "\<dots> < (2::rat) ^ 64" by simp
  also have "\<dots> < 2 ^ 1024" by (rule power_strict_increasing) auto
  finally have "float_of_int n = Fin (round53 (of_int n))"
    by (simp add: float_of_int_def fl64_fin)
  then show ?thesis using e by blast
qed

end
