(* ===== verification/Usage_Percent.thy ===== *)
theory Usage_Percent
  imports Domain
begin

text \<open>
  \<^verbatim>\<open>UsagePercent\<close> is computed in \<^verbatim>\<open>float64\<close>. For counters of any size its result stays
  within 0..100, and for counters below 16 TiB it is the integer quotient.
\<close>

lemma round_even_int [simp]: "round_even (of_int n) = n"
  by (simp add: round_even_def)

lemma round53_int:
  assumes "\<bar>n\<bar> < 2 ^ 53" shows "round53 (of_int n) = of_int n"
proof (cases "n = 0")
  case False
  then have n: "(of_int n :: rat) \<noteq> 0" by simp
  let ?e = "max (binade (of_int n) - 52) (- 1074)"
  have "two_powi (binade (of_int n)) \<le> \<bar>of_int n\<bar>" using binade_le[OF n] .
  also have "\<bar>of_int n :: rat\<bar> < 2 ^ 53"
    using assms by (metis of_int_abs of_int_less_iff of_int_numeral of_int_power)
  finally have "binade (of_int n) < 53"
  proof -
    assume a: "two_powi (binade (of_int n)) < (2::rat) ^ 53"
    show ?thesis
    proof (rule ccontr)
      assume "\<not> ?thesis"
      then have "0 \<le> binade (of_int n)" "53 \<le> nat (binade (of_int n))" by auto
      then have "(2::rat) ^ 53 \<le> two_powi (binade (of_int n))"
        using power_increasing[of 53 "nat (binade (of_int n))" "2::rat"] by (simp add: two_powi_def)
      with a show False by simp
    qed
  qed
  then have e: "?e \<le> 0" by simp
  define k where "k = nat (- ?e)"
  have q: "two_powi ?e = 1 / 2 ^ k"
    using e by (auto simp: two_powi_def k_def)
  have "round53 (of_int n) = of_int (round_even (of_int n * 2 ^ k)) * (1 / 2 ^ k)"
    using n by (simp add: round53_def q Let_def)
  also have "of_int n * 2 ^ k = (of_int (n * 2 ^ k) :: rat)" by simp
  finally show ?thesis by (simp only: round_even_int) simp
qed (simp add: round53_def)

lemma fl64_int: "\<bar>n\<bar> < 2 ^ 53 \<Longrightarrow> fl64 (of_int n) = Fin (of_int n)"
proof -
  assume n: "\<bar>n\<bar> < 2 ^ 53"
  have "\<bar>of_int n :: rat\<bar> < 2 ^ 53"
    using n by (metis of_int_abs of_int_less_iff of_int_numeral of_int_power)
  also have "\<dots> < 2 ^ 1024" by (rule power_strict_increasing) auto
  finally show ?thesis by (simp add: fl64_fin round53_int[OF n])
qed

lemma round53_bounds:
  assumes "1 \<le> x"
  shows "x - x / 2 ^ 53 \<le> round53 x" "round53 x \<le> x + x / 2 ^ 53"
proof -
  have "\<bar>round53 x - x\<bar> \<le> x / 2 ^ 53" using round53_error[of x] assms by simp
  then show "x - x / 2 ^ 53 \<le> round53 x" "round53 x \<le> x + x / 2 ^ 53" by linarith+
qed

lemma fl64_pos: "1 \<le> x \<Longrightarrow> x < 2 ^ 80 \<Longrightarrow> fl64 x = Fin (round53 x)"
proof -
  assume x: "1 \<le> x" "x < 2 ^ 80"
  have "x + x / 2 ^ 53 \<le> 2 * x" "0 \<le> x - x / 2 ^ 53" using x by (auto simp: field_simps)
  then have "\<bar>round53 x\<bar> \<le> 2 * x" using round53_bounds[OF x(1)] by linarith
  also have "\<dots> < 2 ^ 81" using x by simp
  also have "\<dots> < 2 ^ 1024" by (rule power_strict_increasing) auto
  finally show ?thesis by (rule fl64_fin)
qed

lemma round53_nonneg:
  assumes "0 \<le> x" shows "0 \<le> round53 x"
proof (cases "x = 0")
  case False
  define q where "q = two_powi (max (binade x - 52) (- 1074))"
  have q: "0 < q" by (simp add: q_def)
  have "0 \<le> x / q" using assms q by simp
  then have "0 \<le> round_even (x / q)" by (auto simp: round_even_def Let_def)
  then show ?thesis using False q by (simp add: round53_def flip: q_def)
qed (simp add: round53_def)

lemma round53_small:
  assumes "0 \<le> x" "x < 1" shows "round53 x < 2"
proof (cases "x = 0")
  case False
  define b where "b = binade x"
  have "two_powi b < 1" using binade_le[OF False] assms by (simp add: b_def)
  moreover have "1 \<le> (2::rat) ^ nat b" by simp
  ultimately have b: "b < 0" by (auto simp: two_powi_def not_less[symmetric] split: if_splits)
  then have "max (b - 52) (- 1074) < 0" by simp
  then have "two_powi (max (b - 52) (- 1074)) \<le> 1" by (simp add: two_powi_def)
  then have "\<bar>round53 x - x\<bar> \<le> 1 / 2"
    using round53_abs_error[of x] by (simp add: b_def)
  then show ?thesis using assms by linarith
qed (simp add: round53_def)

lemma UsagePercent_float:
  "0 < used \<Longrightarrow> used < whole \<Longrightarrow> UsagePercent used whole =
    int_of_float (float_div (float_mul (float_of_int used) (Fin 100)) (float_of_int whole))"
  by (simp add: UsagePercent_def)

lemma UsagePercent_le_100:
  assumes "0 < used" "used < whole" "whole < 2 ^ 63"
  shows "0 \<le> UsagePercent used whole \<and> UsagePercent used whole \<le> 100"
proof -
  define a b where "a = round53 (of_int used)" and "b = round53 (of_int whole)"
  have u: "(1::rat) \<le> of_int used" "of_int used + 1 \<le> (of_int whole :: rat)" using assms by auto
  have w: "(of_int whole :: rat) < 2 ^ 63"
    using assms(3) by (metis of_int_less_iff of_int_numeral of_int_power)
  have fa: "float_of_int used = Fin a" and fb: "float_of_int whole = Fin b"
    using u w by (auto simp: float_of_int_def a_def b_def intro!: fl64_pos)
  have ra: "a \<le> of_int used + of_int used / 2 ^ 53" "of_int used - of_int used / 2 ^ 53 \<le> a"
    using round53_bounds[OF u(1)] by (auto simp: a_def)
  have rb: "of_int whole - of_int whole / 2 ^ 53 \<le> b"
    using round53_bounds[of "of_int whole"] u by (auto simp: b_def)
  have a0: "1 / 2 \<le> a" using ra u by (simp add: field_simps)
  have b0: "0 < b" using rb u by (simp add: field_simps)
  have m: "float_mul (Fin a) (Fin 100) = Fin (round53 (a * 100))"
  proof -
    have "a * 100 < 2 ^ 80" using ra u w by (simp add: field_simps)
    then show ?thesis using a0 by (simp add: fl64_pos)
  qed
  define c where "c = round53 (a * 100)"
  have c: "c \<le> a * 100 + a * 100 / 2 ^ 53" "a * 100 - a * 100 / 2 ^ 53 \<le> c"
    using round53_bounds[of "a * 100"] a0 by (auto simp: c_def)
  have c0: "0 < c" using c a0 by (simp add: field_simps)
  have "c \<le> 100 * of_int used * (1 + 1 / 2 ^ 53) * (1 + 1 / 2 ^ 53)"
  proof -
    have "c \<le> a * (100 * (1 + 1 / 2 ^ 53))" using c by (simp add: field_simps)
    also have "\<dots> \<le> (of_int used + of_int used / 2 ^ 53) * (100 * (1 + 1 / 2 ^ 53))"
      using ra by (intro mult_right_mono) auto
    finally show ?thesis by (simp add: field_simps)
  qed
  also have "\<dots> \<le> 100 * of_int whole * (1 + 1 / 2 ^ 53) * (1 + 1 / 2 ^ 53)"
    using u by (intro mult_right_mono) auto
  also have "\<dots> \<le> 100.5 * (of_int whole - of_int whole / 2 ^ 53)"
    using u by (simp add: field_simps)
  also have "\<dots> \<le> 100.5 * b" using rb by simp
  finally have q: "c / b \<le> 100.5" using b0 by (simp add: field_simps)
  have q0: "0 < c / b" using c0 b0 by simp
  have r: "round53 (c / b) < 101 \<and> fl64 (c / b) = Fin (round53 (c / b))"
  proof (cases "1 \<le> c / b")
    case True
    have "round53 (c / b) \<le> c / b + (c / b) / 2 ^ 53" using round53_bounds[OF True] by simp
    also have "\<dots> = c / b * (1 + 1 / 2 ^ 53)" by (simp add: distrib_left)
    also have "\<dots> \<le> 100.5 * (1 + 1 / 2 ^ 53)" using q by (intro mult_right_mono) auto
    also have "\<dots> < 101" by simp
    finally have lt: "round53 (c / b) < 101" .
    have "c / b < 2 ^ 80" using q by (rule le_less_trans) simp
    with True have "fl64 (c / b) = Fin (round53 (c / b))" by (rule fl64_pos)
    with lt show ?thesis by simp
  next
    case False
    then have "round53 (c / b) < 2" "0 \<le> round53 (c / b)"
      using q0 round53_small round53_nonneg by auto
    moreover have "(2::rat) < 2 ^ 1024" using power_strict_increasing[of 1 1024 "2::rat"] by simp
    ultimately show ?thesis by (auto intro: fl64_fin)
  qed
  have nn: "0 \<le> round53 (c / b)" using round53_nonneg q0 by simp
  have "UsagePercent used whole = \<lfloor>round53 (c / b)\<rfloor>"
    unfolding UsagePercent_float[OF assms(1,2)] fa fb m c_def[symmetric]
    using r nn b0 by (simp add: trunc_rat_def)
  then show ?thesis using r nn by (auto simp: floor_le_iff)
qed

text \<open>The percentage stays within its public contract 0..100 for every pair of
  counters a signed 64-bit field can hold, malformed ones included.\<close>

theorem UsagePercent_range:
  "whole < 2 ^ 63 \<Longrightarrow> 0 \<le> UsagePercent used whole \<and> UsagePercent used whole \<le> 100"
  using UsagePercent_le_100[of used whole] by (auto simp: UsagePercent_def)

lemma floor_round53:
  fixes n d :: int
  assumes "0 < d" "0 < n" "n < d" "d < 2 ^ 44"
  shows "fl64 (of_int (100 * n) / of_int d) = Fin (round53 (of_int (100 * n) / of_int d))
    \<and> \<lfloor>round53 (of_int (100 * n) / of_int d)\<rfloor> = (100 * n) div d
    \<and> 0 \<le> round53 (of_int (100 * n) / of_int d)"
proof -
  define x where "x = (of_int (100 * n) / of_int d :: rat)"
  have d: "(0::rat) < of_int d" using assms by simp
  have x0: "0 < x" using assms by (simp add: x_def)
  have x100: "x < 100" using assms d by (simp add: x_def divide_less_eq)
  have nn: "0 \<le> round53 x" using x0 round53_nonneg by simp
  have qx: "\<lfloor>x\<rfloor> = (100 * n) div d" unfolding x_def by (rule floor_divide_of_int_eq)
  have fl: "fl64 x = Fin (round53 x)"
  proof (cases "1 \<le> x")
    case True
    have "x < 2 ^ 80" using x100 by (rule less_trans) simp
    then show ?thesis using True by (simp add: fl64_pos)
  next
    case False
    then have "round53 x < 2" using x0 round53_small by auto
    moreover have "(2::rat) < 2 ^ 1024" using power_strict_increasing[of 1 1024 "2::rat"] by simp
    ultimately show ?thesis using nn by (auto intro: fl64_fin)
  qed
  have "\<lfloor>round53 x\<rfloor> = \<lfloor>x\<rfloor>"
  proof (cases "\<exists>k::int. x = of_int k")
    case True
    then obtain k where k: "x = of_int k" by blast
    then have "\<bar>k\<bar> < 2 ^ 53" using x0 x100 by auto
    then show ?thesis by (simp add: k round53_int)
  next
    case False
    let ?f = "(of_int \<lfloor>x\<rfloor> :: rat)"
    have gap: "1 / of_int d \<le> x - ?f \<and> 1 / of_int d \<le> ?f + 1 - x"
    proof -
      define m where "m = (100 * n) mod d"
      have eq: "of_int (100 * n) = (?f * of_int d + of_int m :: rat)"
        unfolding qx m_def by (metis div_mult_mod_eq of_int_add of_int_mult)
      have xm: "x - ?f = of_int m / of_int d" using d eq by (simp add: x_def field_simps)
      have "m \<noteq> 0" using False xm d by (metis add_0 diff_add_cancel div_0 of_int_0)
      moreover have "0 \<le> m" "m < d" using assms(1) by (simp_all add: m_def)
      ultimately have "1 \<le> m" "m \<le> d - 1" by auto
      then have m: "(1::rat) \<le> of_int m" "of_int m + 1 \<le> (of_int d :: rat)" by auto
      have "x - ?f = of_int m / of_int d" "?f + 1 - x = (of_int d - of_int m) / of_int d"
        using xm d by (auto simp: field_simps)
      then show ?thesis using m d by (simp add: divide_right_mono)
    qed
    have inv: "1 / 2 ^ 44 < 1 / (of_int d :: rat)"
    proof -
      have "(of_int d :: rat) < 2 ^ 44"
        using assms(4) by (metis of_int_less_iff of_int_numeral of_int_power)
      then show ?thesis using d by (intro divide_strict_left_mono) auto
    qed
    have err: "\<bar>round53 x - x\<bar> < 1 / 2 ^ 44"
    proof (cases "1 \<le> x")
      case True
      have "\<bar>round53 x - x\<bar> \<le> x / 2 ^ 53" using round53_error[of x] True by simp
      also have "\<dots> < 100 / 2 ^ 53" using x100 by (intro divide_strict_right_mono) auto
      also have "\<dots> < 1 / 2 ^ 44" by simp
      finally show ?thesis .
    next
      case False
      have "binade x < 0"
      proof (rule ccontr)
        assume "\<not> ?thesis"
        then have "(1::rat) \<le> two_powi (binade x)" by (simp add: two_powi_def)
        then show False using binade_le[of x] x0 False by simp
      qed
      then have m: "max (binade x - 52) (- 1074) \<le> - 53" by simp
      have "two_powi (max (binade x - 52) (- 1074)) \<le> two_powi (- 53)"
        using m unfolding two_powi_eq by (intro power_int_increasing) auto
      then have "\<bar>round53 x - x\<bar> \<le> two_powi (- 53) / 2" using round53_abs_error[of x] by linarith
      also have "\<dots> < 1 / 2 ^ 44" by (simp add: two_powi_def)
      finally show ?thesis .
    qed
    have "?f \<le> round53 x" "round53 x < ?f + 1" using gap inv err by linarith+
    then show ?thesis by (simp add: floor_eq_iff)
  qed
  then show ?thesis using fl nn qx by (simp add: x_def)
qed

text \<open>Below 16 TiB the percentage is exact: the integer quotient of the counters, so
  the thresholds of the event rules compare true percentages.\<close>

theorem UsagePercent_exact:
  assumes "0 \<le> used" "used \<le> whole" "0 < whole" "whole < 2 ^ 44"
  shows "UsagePercent used whole = 100 * used div whole"
proof (cases "used = 0 \<or> used = whole")
  case True
  then show ?thesis using assms by (auto simp: UsagePercent_def)
next
  case False
  then have u: "0 < used" "used < whole" using assms by auto
  have "\<bar>used\<bar> < 2 ^ 53" "\<bar>whole\<bar> < 2 ^ 53" "\<bar>100 * used\<bar> < 2 ^ 53" using u assms by auto
  then have f: "float_of_int used = Fin (of_int used)" "float_of_int whole = Fin (of_int whole)"
    "float_mul (Fin (of_int used)) (Fin 100) = Fin (of_int (100 * used))"
    using fl64_int[of "100 * used"] by (simp_all add: float_of_int_def fl64_int mult.commute)
  show ?thesis
    unfolding UsagePercent_float[OF u] f
    using u assms floor_round53[of whole used]
    by (simp add: trunc_rat_def del: of_int_mult)
qed

theorem UsagePercent_exact_witness:
  "UsagePercent 17 20 = 85"
  using UsagePercent_exact[of 17 20] by simp

theorem UsagePercent_range_witness:
  "0 \<le> UsagePercent 5 7 \<and> UsagePercent 5 7 \<le> 100"
  using UsagePercent_range[of 7 5] by simp

end
