(* ===== verification/Database.thy ===== *)
theory Database
  imports Domain
begin

text \<open>
  The SQLite database as the storage layer uses it (\<^verbatim>\<open>internal/storage/migrations.go\<close>):
  one list of rows per table, in insertion order. A statement that violates a primary
  key, a unique index, a foreign key or a CHECK is an error; a transaction is a function
  that returns a new database on commit and only an error on rollback. JSON columns hold
  the value they encode, and the TEXT timestamps, whose fixed-width format makes their
  lexical order the chronological one, hold the instant.
\<close>

section \<open>Rows\<close>

record host_row =
  hr_ID :: host_id
  hr_Name :: string
  hr_PublicHost :: string
  hr_Configured :: bool
  hr_DisplayOrder :: int
  hr_CreatedAt :: time
  hr_UpdatedAt :: time

record observation_row =
  or_ID :: int
  or_HostID :: host_id
  or_ObservedAt :: time
  or_Online :: bool
  or_LastError :: string
  or_Hostname :: string
  or_AgentVersion :: string
  or_Resources :: "resources option"
  or_SSH :: "ssh_auth_observation option"
  or_Warnings :: "string list"
  or_WorkloadsCollected :: bool

text \<open>The tables \<^verbatim>\<open>workloads\<close>, \<^verbatim>\<open>endpoints\<close> and \<^verbatim>\<open>proxy_routes\<close> hold the struct's columns
  beside the observation's id; the host is the observation's and is not a column.\<close>

type_synonym workload_row = "int \<times> workload"
type_synonym endpoint_row = "int \<times> endpoint"
type_synonym route_row = "int \<times> proxy_route"

record outbox_row =
  nb_ID :: int
  nb_EventID :: string
  nb_Transition :: event_transition_type
  nb_Channel :: string
  nb_DedupeKey :: string
  nb_State :: string
  nb_AttemptCount :: int
  nb_NotBefore :: time
  nb_NextAttemptAt :: time
  nb_LastErrorKind :: string
  nb_CreatedAt :: time
  nb_DeliveredAt :: "time option"

record db =
  db_hosts :: "host_row list"
  db_observations :: "observation_row list"
  db_observation_seq :: int
  db_workloads :: "workload_row list"
  db_endpoints :: "endpoint_row list"
  db_routes :: "route_row list"
  db_annotations :: "annotation list"
  db_annotation_imports :: "(string \<times> time \<times> int) list"
  db_link_checks :: "web_link_check list"
  db_events :: "event list"
  db_outbox :: "outbox_row list"
  db_operations :: "operation list"
  db_listener_baselines :: "(host_id \<times> string) list"
  db_listener_hosts :: "(host_id \<times> time) list"

definition empty_db :: db where
  "empty_db = \<lparr>db_hosts = [], db_observations = [], db_observation_seq = 0, db_workloads = [],
     db_endpoints = [], db_routes = [], db_annotations = [], db_annotation_imports = [],
     db_link_checks = [], db_events = [], db_outbox = [], db_operations = [],
     db_listener_baselines = [], db_listener_hosts = []\<rparr>"

definition host_exists :: "host_row list \<Rightarrow> host_id \<Rightarrow> bool" where
  "host_exists hosts hid = list_ex (\<lambda>h. hr_ID h = hid) hosts"

lemma host_exists_iff: "host_exists hosts hid \<longleftrightarrow> hid \<in> hr_ID ` set hosts"
  by (auto simp: host_exists_def list_ex_iff)

section \<open>Loops over statements\<close>

text \<open>A loop whose body runs statements: the first error leaves it.\<close>

fun each :: "('x \<Rightarrow> 's \<Rightarrow> 'e + 's) \<Rightarrow> 'x list \<Rightarrow> 's \<Rightarrow> 'e + 's" where
  "each f [] s = Inr s"
| "each f (x # xs) s = andThen (f x s) (each f xs)"

lemma each_append: "each f (xs @ ys) s = andThen (each f xs s) (each f ys)"
  by (induction xs arbitrary: s) (auto simp: andThen_def split: sum.splits)

lemma each_inv:
  assumes "each f xs s = Inr s'" "I s"
    and "\<And>x s s'. x \<in> set xs \<Longrightarrow> I s \<Longrightarrow> f x s = Inr s' \<Longrightarrow> I s'"
  shows "I s'"
  using assms by (induction xs arbitrary: s) (auto simp: andThen_ok)

lemma each_steps:
  "each f xs s = Inr s' \<Longrightarrow> x \<in> set xs \<Longrightarrow> \<exists>s1 s2. f x s1 = Inr s2"
  by (induction xs arbitrary: s) (auto simp: andThen_ok)

lemma each_ok:
  assumes "I s" "\<And>x s. x \<in> set xs \<Longrightarrow> I s \<Longrightarrow> \<exists>s'. f x s = Inr s' \<and> I s'"
  shows "\<exists>s'. each f xs s = Inr s' \<and> I s'"
  using assms
proof (induction xs arbitrary: s)
  case (Cons x xs)
  then obtain s1 where "f x s = Inr s1" "I s1" by fastforce
  with Cons.IH[of s1] Cons.prems show ?case by auto
qed simp

end
