(* ===== verification/Host_Store.thy ===== *)
theory Host_Store
  imports Database "HOL-Library.Multiset"
begin

text \<open>
  The host inventory, the annotations and the link checks of
  \<^verbatim>\<open>internal/storage/sqlite.go\<close>: \<^verbatim>\<open>SyncHosts\<close>, \<^verbatim>\<open>Hosts\<close>, \<^verbatim>\<open>UpsertAnnotation\<close>,
  \<^verbatim>\<open>Annotations\<close>, \<^verbatim>\<open>ImportAnnotations\<close>, \<^verbatim>\<open>ReplaceWebLinkChecks\<close>, \<^verbatim>\<open>WebLinkChecks\<close>.
\<close>

section \<open>Hosts\<close>

definition upsert_host :: "time \<Rightarrow> nat \<times> host \<Rightarrow> host_row list \<Rightarrow> host_row list" where
  "upsert_host now ph rows =
     (let (position, h) = ph in
      if list_ex (\<lambda>r. hr_ID r = h_ID h) rows
      then update_where (\<lambda>r. hr_ID r = h_ID h)
             (\<lambda>r. r\<lparr>hr_Name := h_Name h, hr_PublicHost := h_PublicHost h, hr_Configured := True,
                   hr_DisplayOrder := int position, hr_UpdatedAt := now\<rparr>) rows
      else rows @ [\<lparr>hr_ID = h_ID h, hr_Name = h_Name h, hr_PublicHost = h_PublicHost h,
                    hr_Configured = True, hr_DisplayOrder = int position,
                    hr_CreatedAt = now, hr_UpdatedAt = now\<rparr>])"

definition SyncHosts :: "time \<Rightarrow> host list \<Rightarrow> db \<Rightarrow> go_error + db" where
  "SyncHosts now hosts d =
     andThen (check_distinct ''duplicate host id'' h_ID validateHost (\<lambda>_. Inr ()) [] hosts)
       (\<lambda>_. Inr (d\<lparr>db_hosts := fold (upsert_host now) (enumerate 0 hosts)
                     (map (\<lambda>r. r\<lparr>hr_Configured := False\<rparr>) (db_hosts d))\<rparr>))"

definition Hosts :: "db \<Rightarrow> host list" where
  "Hosts d = map (\<lambda>r. \<lparr>h_ID = hr_ID r, h_Name = hr_Name r, h_PublicHost = hr_PublicHost r\<rparr>)
     (sort_key hr_DisplayOrder (sort_key hr_ID (filter hr_Configured (db_hosts d))))"

section \<open>Annotations\<close>

definition Annotations :: "url_parser \<Rightarrow> host_id \<Rightarrow> db \<Rightarrow> go_error + annotation list" where
  "Annotations parse_url hid d =
     (let rows = sort_key an_WorkloadKey (filter (\<lambda>a. an_HostID a = hid) (db_annotations d)) in
      andThen (check_all (validateAnnotation parse_url) rows) (\<lambda>_. Inr rows))"

definition UpsertAnnotation :: "url_parser \<Rightarrow> annotation \<Rightarrow> db \<Rightarrow> go_error + db" where
  "UpsertAnnotation parse_url a d =
     andThen (validateAnnotation parse_url a)
     (\<lambda>_. andThen (guard ''FOREIGN KEY constraint failed'' (\<not> host_exists (db_hosts d) (an_HostID a)))
     (\<lambda>_. Inr (d\<lparr>db_annotations :=
        (let same = (\<lambda>r. an_HostID r = an_HostID a \<and> an_WorkloadKey r = an_WorkloadKey a) in
         if list_ex same (db_annotations d) then update_where same (\<lambda>_. a) (db_annotations d)
         else db_annotations d @ [a])\<rparr>)))"

text \<open>One legacy annotation: an existing row wins.\<close>

definition import_annotation ::
  "host_row list \<Rightarrow> annotation \<Rightarrow> annotation list \<times> int \<Rightarrow> go_error + (annotation list \<times> int)" where
  "import_annotation hosts a s =
     (let (rows, imported) = s in
      if list_ex (\<lambda>r. an_HostID r = an_HostID a \<and> an_WorkloadKey r = an_WorkloadKey a) rows
      then Inr (rows, imported)
      else if \<not> host_exists hosts (an_HostID a) then Inl ''FOREIGN KEY constraint failed''
      else Inr (rows @ [a], imported + 1))"

definition ImportAnnotations ::
  "url_parser \<Rightarrow> time \<Rightarrow> string \<Rightarrow> annotation list \<Rightarrow> db \<Rightarrow> go_error + (bool \<times> int \<times> db)" where
  "ImportAnnotations parse_url now importID as d =
     andThen (guard ''annotation import ID must be between 1 and 128 bytes''
        (importID = [] \<or> length importID > 128))
     (\<lambda>_. andThen (check_all (validateAnnotation parse_url) as)
     (\<lambda>_. if list_ex (\<lambda>r. fst r = importID) (db_annotation_imports d) then Inr (False, 0, d)
          else andThen (each (import_annotation (db_hosts d)) as (db_annotations d, 0))
            (\<lambda>(rows, imported). Inr (True, imported,
               d\<lparr>db_annotations := rows,
                 db_annotation_imports := db_annotation_imports d @ [(importID, now, imported)]\<rparr>))))"

section \<open>Web link checks\<close>

definition insert_link_check ::
  "host_row list \<Rightarrow> web_link_check \<Rightarrow> web_link_check list \<Rightarrow> go_error + web_link_check list" where
  "insert_link_check hosts c rows =
     andThen (guard ''FOREIGN KEY constraint failed'' (\<not> host_exists hosts (lc_HostID c)))
     (\<lambda>_. andThen (guard ''CHECK constraint failed''
        (lc_State c \<notin> {WebLinkReachable, WebLinkDegraded, WebLinkUnreachable}
         \<or> lc_HTTPStatus c < 0 \<or> lc_HTTPStatus c > 599 \<or> lc_LatencyMS c < 0))
     (\<lambda>_. andThen (guard ''UNIQUE constraint failed''
        (list_ex (\<lambda>r. lc_HostID r = lc_HostID c \<and> lc_WorkloadKey r = lc_WorkloadKey c
           \<and> lc_URL r = lc_URL c) rows))
     (\<lambda>_. Inr (rows @ [c]))))"

definition ReplaceWebLinkChecks ::
  "url_parser \<Rightarrow> web_link_check list \<Rightarrow> db \<Rightarrow> go_error + db" where
  "ReplaceWebLinkChecks parse_url checks d =
     andThen (check_distinct ''duplicate Web link check''
        (\<lambda>c. (lc_HostID c, lc_WorkloadKey c, lc_URL c))
        (validateWebLinkCheck parse_url) (\<lambda>_. Inr ()) [] checks)
     (\<lambda>_. andThen (each (insert_link_check (db_hosts d)) checks [])
     (\<lambda>rows. Inr (d\<lparr>db_link_checks := rows\<rparr>)))"

definition WebLinkChecks :: "url_parser \<Rightarrow> db \<Rightarrow> go_error + web_link_check list" where
  "WebLinkChecks parse_url d =
     (let rows = sort_key lc_HostID (sort_key lc_WorkloadKey (sort_key lc_URL (db_link_checks d))) in
      andThen (check_all (validateWebLinkCheck parse_url) rows) (\<lambda>_. Inr rows))"

section \<open>The inventory after a synchronisation\<close>

definition hosts_ok :: "host_row list \<Rightarrow> bool" where
  "hosts_ok rows = distinct (map hr_ID rows)"

definition host_of :: "host_row \<Rightarrow> host" where
  "host_of r = \<lparr>h_ID = hr_ID r, h_Name = hr_Name r, h_PublicHost = hr_PublicHost r\<rparr>"

lemma upsert_host_ids:
  "set (map hr_ID (upsert_host now (i, h) rows)) = insert (h_ID h) (set (map hr_ID rows))"
proof (cases "list_ex (\<lambda>r. hr_ID r = h_ID h) rows")
  case True
  then have "h_ID h \<in> set (map hr_ID rows)" by (auto simp: list_ex_iff intro: rev_image_eqI)
  moreover have "map hr_ID (upsert_host now (i, h) rows) = map hr_ID rows"
    using True by (simp add: upsert_host_def map_update_where)
  ultimately show ?thesis by (simp only: insert_absorb)
qed (auto simp: upsert_host_def)

lemma upsert_hosts_keep:
  "hr_ID ` set rows \<subseteq> hr_ID ` set (fold (upsert_host now) phs rows)"
proof (induction phs arbitrary: rows)
  case (Cons ph phs)
  obtain i h where ph: "ph = (i, h)" by (cases ph)
  have "hr_ID ` set rows \<subseteq> hr_ID ` set (upsert_host now ph rows)"
    using upsert_host_ids[of now i h rows] by (simp add: ph) blast
  with Cons.IH[of "upsert_host now ph rows"] show ?case by simp
qed simp

lemma upsert_host_ok: "hosts_ok rows \<Longrightarrow> hosts_ok (upsert_host now (i, h) rows)"
  by (auto simp: hosts_ok_def upsert_host_def list_ex_iff map_update_where)

text \<open>The configured rows are those written so far, each with its place and its fields.\<close>

definition synced :: "(nat \<times> host) list \<Rightarrow> host_row list \<Rightarrow> bool" where
  "synced prev rows =
     ((\<lambda>r. (hr_DisplayOrder r, host_of r)) ` {r \<in> set rows. hr_Configured r} =
      (\<lambda>(i, h). (int i, h)) ` set prev)"

lemma upsert_host_synced:
  assumes "synced prev rows" "h_ID h \<notin> h_ID ` snd ` set prev"
  shows "synced ((i, h) # prev) (upsert_host now (i, h) rows)"
proof -
  have fresh: "hr_ID r \<noteq> h_ID h" if "r \<in> set rows" "hr_Configured r" for r
  proof -
    have "(hr_DisplayOrder r, host_of r) \<in> (\<lambda>(i, h). (int i, h)) ` set prev"
      using assms(1) that by (auto simp: synced_def)
    then obtain i' where "(i', host_of r) \<in> set prev" by auto
    then have "h_ID (host_of r) \<in> h_ID ` snd ` set prev" by force
    then have "h_ID (host_of r) \<noteq> h_ID h" using assms(2) by metis
    then show ?thesis by (simp add: host_of_def)
  qed
  let ?F = "\<lambda>r. (hr_DisplayOrder r, host_of r)"
  have "?F ` {r \<in> set (upsert_host now (i, h) rows). hr_Configured r} =
    insert (int i, h) (?F ` {r \<in> set rows. hr_Configured r})"
  proof (cases "list_ex (\<lambda>r. hr_ID r = h_ID h) rows")
    case True
    then obtain r0 where r0: "r0 \<in> set rows" "hr_ID r0 = h_ID h" by (auto simp: list_ex_iff)
    have "{r \<in> set (upsert_host now (i, h) rows). hr_Configured r} =
      {r \<in> set rows. hr_Configured r} \<union>
      (\<lambda>r. r\<lparr>hr_Name := h_Name h, hr_PublicHost := h_PublicHost h, hr_Configured := True,
             hr_DisplayOrder := int i, hr_UpdatedAt := now\<rparr>) ` {r \<in> set rows. hr_ID r = h_ID h}"
      using True fresh by (auto simp: upsert_host_def set_update_where)
    then show ?thesis using r0 by (auto simp: image_Un host_of_def image_iff)
  next
    case False
    define r0 where "r0 = \<lparr>hr_ID = h_ID h, hr_Name = h_Name h, hr_PublicHost = h_PublicHost h,
      hr_Configured = True, hr_DisplayOrder = int i, hr_CreatedAt = now, hr_UpdatedAt = now\<rparr>"
    have "set (upsert_host now (i, h) rows) = insert r0 (set rows)"
      using False by (simp add: upsert_host_def r0_def)
    moreover have "hr_Configured r0" "?F r0 = (int i, h)" by (simp_all add: r0_def host_of_def)
    ultimately have "{r \<in> set (upsert_host now (i, h) rows). hr_Configured r} =
      insert r0 {r \<in> set rows. hr_Configured r}" by auto
    then show ?thesis using \<open>?F r0 = (int i, h)\<close> by simp
  qed
  then show ?thesis using assms(1) by (simp add: synced_def)
qed

lemma fold_upsert_synced:
  assumes "synced prev rows" "distinct (map h_ID hosts)"
    "h_ID ` set hosts \<inter> h_ID ` snd ` set prev = {}" "hosts_ok rows"
  shows "synced (rev (enumerate n hosts) @ prev) (fold (upsert_host now) (enumerate n hosts) rows)
    \<and> hosts_ok (fold (upsert_host now) (enumerate n hosts) rows)"
  using assms
proof (induction hosts arbitrary: n rows prev)
  case (Cons h hosts)
  have "synced ((n, h) # prev) (upsert_host now (n, h) rows)"
    using Cons.prems by (intro upsert_host_synced) auto
  moreover have "hosts_ok (upsert_host now (n, h) rows)" using Cons.prems by (simp add: upsert_host_ok)
  moreover have "h_ID ` set hosts \<inter> h_ID ` snd ` set ((n, h) # prev) = {}" using Cons.prems by auto
  ultimately show ?case using Cons.IH[of "(n, h) # prev" "upsert_host now (n, h) rows" "Suc n"] Cons.prems
    by simp
qed simp

lemma sorted_by_index:
  assumes "sorted (map f rows)" "distinct (map f rows)"
    and "(\<lambda>r. (f r, g r)) ` set rows = (\<lambda>(i, h). (int i, h)) ` set (enumerate 0 hosts)"
  shows "map g rows = hosts"
proof -
  let ?L = "map (\<lambda>(i, h). (int i, h)) (enumerate 0 hosts)"
  have f: "map fst ?L = map int [0..<length hosts]"
  proof -
    have "map fst ?L = map int (map fst (enumerate 0 hosts))"
      unfolding map_map by (simp add: comp_def case_prod_unfold)
    then show ?thesis by (simp only: map_fst_enumerate) simp
  qed
  have eq: "map (\<lambda>r. (f r, g r)) rows = ?L"
  proof (rule map_sorted_distinct_set_unique[where f = fst])
    show "inj_on fst (set (map (\<lambda>r. (f r, g r)) rows) \<union> set ?L)"
      using assms(3) f
      by (auto simp: inj_on_def in_set_enumerate_eq)
    show "sorted (map fst (map (\<lambda>r. (f r, g r)) rows))" using assms(1) by (simp add: comp_def)
    show "distinct (map fst (map (\<lambda>r. (f r, g r)) rows))" using assms(2) by (simp add: comp_def)
    show "sorted (map fst ?L)" unfolding f by (simp add: sorted_map)
    show "distinct (map fst ?L)" unfolding f by (simp add: distinct_map)
    show "set (map (\<lambda>r. (f r, g r)) rows) = set ?L" using assms(3) by simp
  qed
  have "map g rows = map snd (map (\<lambda>r. (f r, g r)) rows)" by simp
  also have "\<dots> = hosts" unfolding eq by (simp add: comp_def case_prod_unfold)
  finally show ?thesis .
qed

text \<open>A synchronisation that succeeds makes the inventory exactly the given list: the same
  hosts, in the given order, with the given fields; every other row is kept but no longer
  configured.\<close>

theorem SyncHosts_Hosts:
  assumes "SyncHosts now hosts d = Inr d'" "hosts_ok (db_hosts d)"
  shows "Hosts d' = hosts \<and> hosts_ok (db_hosts d') \<and>
    hr_ID ` set (db_hosts d) \<subseteq> hr_ID ` set (db_hosts d')"
proof -
  define base where "base = map (\<lambda>r. r\<lparr>hr_Configured := False\<rparr>) (db_hosts d)"
  define rows where "rows = fold (upsert_host now) (enumerate 0 hosts) base"
  have dist: "distinct (map h_ID hosts)" and d': "db_hosts d' = rows"
    using assms(1) by (auto simp: SyncHosts_def andThen_ok check_distinct_ok rows_def base_def)
  have base: "hosts_ok base" "synced [] base"
    using assms(2) by (auto simp: hosts_ok_def base_def comp_def synced_def)
  have fin: "synced (rev (enumerate 0 hosts)) rows" "hosts_ok rows"
    using fold_upsert_synced[OF base(2) dist _ base(1)] by (auto simp: rows_def)
  define cs where "cs = sort_key hr_DisplayOrder (sort_key hr_ID (filter hr_Configured rows))"
  have set_cs: "set cs = {r \<in> set rows. hr_Configured r}" by (auto simp: cs_def)
  have img: "(\<lambda>r. (hr_DisplayOrder r, host_of r)) ` set cs = (\<lambda>(i, h). (int i, h)) ` set (enumerate 0 hosts)"
    using fin(1) by (simp add: synced_def set_cs)
  have inj_id: "inj_on hr_ID (set rows)" using fin(2) by (simp add: hosts_ok_def distinct_map)
  have "inj_on hr_DisplayOrder (set cs)"
  proof (rule inj_onI)
    fix r s assume rs: "r \<in> set cs" "s \<in> set cs" "hr_DisplayOrder r = hr_DisplayOrder s"
    have "(hr_DisplayOrder r, host_of r) \<in> (\<lambda>(i, h). (int i, h)) ` set (enumerate 0 hosts)"
      "(hr_DisplayOrder s, host_of s) \<in> (\<lambda>(i, h). (int i, h)) ` set (enumerate 0 hosts)"
      using rs img by blast+
    then have "host_of r = host_of s" using rs(3) by (auto simp: in_set_enumerate_eq)
    then have "hr_ID r = hr_ID s" by (simp add: host_of_def)
    then show "r = s" using inj_id rs set_cs by (auto dest: inj_onD)
  qed
  moreover have "distinct rows" using fin(2) by (auto simp: hosts_ok_def distinct_map)
  then have "distinct cs" by (simp add: cs_def)
  ultimately have "distinct (map hr_DisplayOrder cs)" by (simp add: distinct_map)
  then have "map host_of cs = hosts"
    using img by (intro sorted_by_index[where f = hr_DisplayOrder]) (simp_all add: cs_def)
  then have "Hosts d' = hosts" by (simp add: Hosts_def d' cs_def host_of_def[abs_def])
  moreover have "hr_ID ` set base \<subseteq> hr_ID ` set rows"
    unfolding rows_def by (rule upsert_hosts_keep)
  then have "hr_ID ` set (db_hosts d) \<subseteq> hr_ID ` set rows" by (simp add: base_def image_image)
  ultimately show ?thesis using fin(2) d' by simp
qed

definition sample_hosts :: "host list" where
  "sample_hosts =
     [\<lparr>h_ID = ''web-2'', h_Name = ''Web'', h_PublicHost = []\<rparr>,
      \<lparr>h_ID = ''db-1'', h_Name = ''Database'', h_PublicHost = ''db.example.org''\<rparr>]"

theorem SyncHosts_Hosts_witness:
  "\<exists>d'. SyncHosts 7 sample_hosts empty_db = Inr d' \<and> Hosts d' = sample_hosts"
proof -
  have ok: "is_ok (SyncHosts 7 sample_hosts empty_db)"
    by (simp add: SyncHosts_def sample_hosts_def validateHost_def validateIdentifier_def
        valid_identifier_ascii ascii_eval)
  moreover have "hosts_ok (db_hosts empty_db)" by (simp add: hosts_ok_def empty_db_def)
  ultimately show ?thesis using SyncHosts_Hosts by (metis is_okE)
qed

section \<open>Annotations and link checks\<close>

lemma import_annotation_keeps:
  "import_annotation hosts a (rows, n) = Inr (rows', n') \<Longrightarrow>
    (\<exists>new. rows' = rows @ new \<and> n' = n + int (length new)) \<and>
    (an_HostID a, an_WorkloadKey a) \<in> (\<lambda>r. (an_HostID r, an_WorkloadKey r)) ` set rows' \<and>
    (distinct (map (\<lambda>r. (an_HostID r, an_WorkloadKey r)) rows) \<longrightarrow>
      distinct (map (\<lambda>r. (an_HostID r, an_WorkloadKey r)) rows'))"
proof -
  let ?k = "\<lambda>r. (an_HostID r, an_WorkloadKey r)"
  assume s: "import_annotation hosts a (rows, n) = Inr (rows', n')"
  have e: "list_ex (\<lambda>r. an_HostID r = an_HostID a \<and> an_WorkloadKey r = an_WorkloadKey a) rows
    \<longleftrightarrow> ?k a \<in> ?k ` set rows"
    by (auto simp: list_ex_iff intro: rev_image_eqI)
  show ?thesis
  proof (cases "?k a \<in> ?k ` set rows")
    case True
    then show ?thesis using s unfolding import_annotation_def prod.case Let_def e by simp
  next
    case False
    then have "rows' = rows @ [a]" "n' = n + 1"
      using s unfolding import_annotation_def prod.case Let_def e by (auto split: if_splits)
    then show ?thesis using False by auto
  qed
qed

lemma import_each_keeps:
  "each (import_annotation hosts) as (rows, n) = Inr (rows', n') \<Longrightarrow>
    (\<exists>new. rows' = rows @ new \<and> n' = n + int (length new)) \<and>
    (\<forall>a \<in> set as. (an_HostID a, an_WorkloadKey a) \<in> (\<lambda>r. (an_HostID r, an_WorkloadKey r)) ` set rows') \<and>
    (distinct (map (\<lambda>r. (an_HostID r, an_WorkloadKey r)) rows) \<longrightarrow>
      distinct (map (\<lambda>r. (an_HostID r, an_WorkloadKey r)) rows'))"
proof (induction as arbitrary: rows n)
  case (Cons a as)
  then obtain rows1 n1 where s: "import_annotation hosts a (rows, n) = Inr (rows1, n1)"
    "each (import_annotation hosts) as (rows1, n1) = Inr (rows', n')" by (auto simp: andThen_ok)
  note k = import_annotation_keeps[OF s(1)] and ih = Cons.IH[OF s(2)]
  obtain new1 new2 where "rows1 = rows @ new1" "n1 = n + int (length new1)"
    "rows' = rows1 @ new2" "n' = n1 + int (length new2)" using k ih by blast
  with k ih show ?case by auto
qed simp

text \<open>The legacy import runs once: it keeps every durable annotation, adds one for each
  imported workload that had none, counts what it added, and a second run under the same
  import id changes nothing.\<close>

theorem ImportAnnotations_once:
  assumes "ImportAnnotations parse_url now importID as d = Inr (True, n, d')"
  shows "(\<exists>new. db_annotations d' = db_annotations d @ new \<and> n = int (length new))
    \<and> (\<forall>a \<in> set as. (an_HostID a, an_WorkloadKey a) \<in>
         (\<lambda>r. (an_HostID r, an_WorkloadKey r)) ` set (db_annotations d'))
    \<and> ImportAnnotations parse_url now' importID as d' = Inr (False, 0, d')"
proof -
  obtain rows where e: "each (import_annotation (db_hosts d)) as (db_annotations d, 0) = Inr (rows, n)"
    and d': "d' = d\<lparr>db_annotations := rows,
      db_annotation_imports := db_annotation_imports d @ [(importID, now, n)]\<rparr>"
    and v: "importID \<noteq> []" "length importID \<le> 128" "\<forall>a \<in> set as. validateAnnotation parse_url a = Inr ()"
    using assms by (auto simp: ImportAnnotations_def andThen_ok not_less split: if_splits)
  show ?thesis
    using import_each_keeps[OF e] v by (auto simp: d' ImportAnnotations_def check_all_Inr)
qed

lemma insert_link_checks_rows:
  "each (insert_link_check hosts) cs rows = Inr rows' \<Longrightarrow> rows' = rows @ cs"
proof (induction cs arbitrary: rows)
  case (Cons c cs)
  then obtain r1 where "insert_link_check hosts c rows = Inr r1" "each (insert_link_check hosts) cs r1 = Inr rows'"
    by (auto simp: andThen_ok)
  moreover have "r1 = rows @ [c]" using calculation(1) by (simp add: insert_link_check_def andThen_ok)
  ultimately show ?case using Cons.IH[of r1] by simp
qed simp

text \<open>After a replacement the stored link checks are exactly the given set, ordered by
  host, workload and URL: no stale URL survives and none is lost.\<close>

theorem ReplaceWebLinkChecks_exact:
  assumes "ReplaceWebLinkChecks parse_url checks d = Inr d'"
  shows "\<exists>rows. WebLinkChecks parse_url d' = Inr rows \<and> mset rows = mset checks"
proof -
  have v: "\<forall>c \<in> set checks. validateWebLinkCheck parse_url c = Inr ()"
    and r: "db_link_checks d' = checks"
    using assms insert_link_checks_rows
    by (fastforce simp: ReplaceWebLinkChecks_def andThen_ok check_distinct_ok)+
  show ?thesis using v by (simp add: WebLinkChecks_def r Let_def check_all_Inr)
qed

section \<open>The two transactions on a concrete inventory\<close>

text \<open>A URL parser that knows one URL.\<close>

definition sample_parser :: url_parser where
  "sample_parser u =
     (if u = ''https://web.example.org/'' then
        Some \<lparr>u_Scheme = ''https'', u_Host = ''web.example.org'', u_HasUser = False,
              u_Hostname = ''web.example.org'', u_PortText = [], u_Path = ''/'', u_RawPath = [],
              u_RawQuery = [], u_Fragment = [], u_String = u\<rparr>
      else None)"

definition sample_db :: db where
  "sample_db = empty_db\<lparr>db_hosts :=
     [\<lparr>hr_ID = ''web-2'', hr_Name = ''Web'', hr_PublicHost = [], hr_Configured = True,
       hr_DisplayOrder = 0, hr_CreatedAt = 1, hr_UpdatedAt = 1\<rparr>]\<rparr>"

definition sample_annotation :: annotation where
  "sample_annotation =
     \<lparr>an_HostID = ''web-2'', an_WorkloadKey = ''docker:nginx'', an_Alias = ''Front'',
      an_URL = ''https://web.example.org/'', an_Hidden = False, an_Notes = [], an_UpdatedAt = 5\<rparr>"

definition sample_check :: web_link_check where
  "sample_check =
     \<lparr>lc_HostID = ''web-2'', lc_WorkloadKey = ''docker:nginx'', lc_URL = ''https://web.example.org/'',
      lc_State = WebLinkReachable, lc_HTTPStatus = 200, lc_LatencyMS = 12, lc_ErrorKind = [],
      lc_CheckedAt = 5\<rparr>"

lemma sample_annotation_valid: "validateAnnotation sample_parser sample_annotation = Inr ()"
  by (simp add: validateAnnotation_def sample_annotation_def sample_parser_def absolute_http_def
      valid_identifier_ascii ascii_eval andThen_ok)

lemma sample_check_valid: "validateWebLinkCheck sample_parser sample_check = Inr ()"
  by (simp add: validateWebLinkCheck_def validateLinkState_def sample_check_def sample_parser_def
      absolute_http_def valid_identifier_ascii ascii_eval andThen_ok)

theorem ImportAnnotations_once_witness:
  "\<exists>d'. ImportAnnotations sample_parser 9 ''legacy'' [sample_annotation] sample_db = Inr (True, 1, d') \<and>
    ImportAnnotations sample_parser 10 ''legacy'' [sample_annotation] d' = Inr (False, 0, d')"
proof -
  have "ImportAnnotations sample_parser 9 ''legacy'' [sample_annotation] sample_db =
    Inr (True, 1, sample_db\<lparr>db_annotations := [sample_annotation],
      db_annotation_imports := [(''legacy'', 9, 1)]\<rparr>)"
    by (simp add: ImportAnnotations_def sample_annotation_valid import_annotation_def
        sample_db_def empty_db_def host_exists_def)
      (simp add: sample_annotation_def)
  from this ImportAnnotations_once[OF this] show ?thesis by blast
qed

theorem ReplaceWebLinkChecks_exact_witness:
  "\<exists>d' rows. ReplaceWebLinkChecks sample_parser [sample_check] sample_db = Inr d' \<and>
    WebLinkChecks sample_parser d' = Inr rows \<and> mset rows = {#sample_check#}"
proof -
  have "ReplaceWebLinkChecks sample_parser [sample_check] sample_db =
    Inr (sample_db\<lparr>db_link_checks := [sample_check]\<rparr>)"
    by (simp add: ReplaceWebLinkChecks_def sample_check_valid insert_link_check_def
        sample_db_def empty_db_def host_exists_def)
      (simp add: sample_check_def)
  from this ReplaceWebLinkChecks_exact[OF this] show ?thesis by auto
qed

end
