(* ===== verification/Event_Store.thy ===== *)
theory Event_Store
  imports Database
begin

text \<open>
  The event life cycle of \<^verbatim>\<open>internal/storage/sqlite.go\<close>: the reconciliation of the rule
  signals of one observation with the unresolved events of its host
  (\<^verbatim>\<open>reconcileEventSignalsTx\<close>), \<^verbatim>\<open>AcknowledgeEvent\<close>, \<^verbatim>\<open>ActiveEvents\<close> and the event
  reads. The identifiers \<^verbatim>\<open>newEventID\<close> draws are the argument \<open>newid\<close>: the \<open>n\<close>-th
  identifier of the call is \<open>newid n\<close>.
\<close>

section \<open>Reads\<close>

definition loadEvents :: "event list \<Rightarrow> go_error + event list" where
  "loadEvents rows = andThen (check_all validateEvent rows) (\<lambda>_. Inr rows)"

definition unresolved :: "host_id \<Rightarrow> event \<Rightarrow> bool" where
  "unresolved hid e = (ev_HostID e = hid \<and> ev_State e \<noteq> EventResolved)"

definition active_rows :: "host_id \<Rightarrow> event list \<Rightarrow> event list" where
  "active_rows hid events = sort_key ev_DedupeKey (filter (unresolved hid) events)"

definition ActiveEvents :: "host_id \<Rightarrow> db \<Rightarrow> go_error + event list" where
  "ActiveEvents hid d =
     andThen (guard ''event host id must not be empty'' (trim_space hid = []))
       (\<lambda>_. loadEvents (active_rows hid (db_events d)))"

section \<open>Reconciliation\<close>

text \<open>\<^verbatim>\<open>for _, x := range xs { m[key(x)] = x }\<close>: the last entry of a key wins.\<close>

definition index_by :: "('a \<Rightarrow> 'k) \<Rightarrow> 'a list \<Rightarrow> 'k \<rightharpoonup> 'a" where
  "index_by key xs = foldl (\<lambda>m x. m(key x \<mapsto> x)) Map.empty xs"

definition refresh :: "time \<Rightarrow> event_signal \<Rightarrow> event \<Rightarrow> event" where
  "refresh t s e = e\<lparr>ev_Kind := sg_Kind s, ev_Severity := sg_Severity s, ev_Title := sg_Title s,
     ev_Detail := sg_Detail s, ev_LastObservedAt := t\<rparr>"

definition open_event :: "string \<Rightarrow> host_id \<Rightarrow> time \<Rightarrow> event_signal \<Rightarrow> event" where
  "open_event i hid t s =
     \<lparr>ev_ID = i, ev_HostID = hid, ev_Kind = sg_Kind s, ev_Severity = sg_Severity s,
      ev_State = EventActive, ev_DedupeKey = sg_DedupeKey s, ev_Title = sg_Title s,
      ev_Detail = sg_Detail s, ev_FirstObservedAt = t, ev_LastObservedAt = t,
      ev_AcknowledgedAt = None, ev_ResolvedAt = None\<rparr>"

definition resolve :: "time \<Rightarrow> event \<Rightarrow> event" where
  "resolve t e = e\<lparr>ev_State := EventResolved, ev_ResolvedAt := Some t\<rparr>"

text \<open>\<^verbatim>\<open>INSERT INTO events\<close>: primary key, host reference and the unique index on the keys
  of the unresolved events.\<close>

definition insert_event :: "host_row list \<Rightarrow> event \<Rightarrow> event list \<Rightarrow> go_error + event list" where
  "insert_event hosts e events =
     (if list_ex (\<lambda>r. ev_ID r = ev_ID e) events then Inl ''UNIQUE constraint failed: events.id''
      else if \<not> host_exists hosts (ev_HostID e) then Inl ''FOREIGN KEY constraint failed''
      else if ev_State e \<noteq> EventResolved
        \<and> list_ex (\<lambda>r. ev_State r \<noteq> EventResolved \<and> ev_DedupeKey r = ev_DedupeKey e) events
        then Inl ''UNIQUE constraint failed: events.dedupe_key''
      else Inr (events @ [e]))"

text \<open>The rows, the transitions so far and the number of identifiers drawn.\<close>

type_synonym reconcile_state = "event list \<times> event_transition list \<times> nat"

definition apply_signal ::
  "(nat \<Rightarrow> string) \<Rightarrow> host_row list \<Rightarrow> host_id \<Rightarrow> time \<Rightarrow> (string \<rightharpoonup> event) \<Rightarrow> (string \<rightharpoonup> event_signal)
   \<Rightarrow> string \<Rightarrow> reconcile_state \<Rightarrow> go_error + reconcile_state" where
  "apply_signal newid hosts hid t activeByKey signalsByKey key st =
     (let (events, transitions, n) = st; s = the (signalsByKey key) in
      case activeByKey key of
        Some e \<Rightarrow>
          (if t < ev_LastObservedAt e then Inl ''event signal predates its latest observation''
           else let e' = refresh t s e in
             andThen (validateEvent e') (\<lambda>_.
               Inr (update_where (\<lambda>r. ev_ID r = ev_ID e')
                      (\<lambda>r. r\<lparr>ev_Kind := ev_Kind e', ev_Severity := ev_Severity e',
                            ev_Title := ev_Title e', ev_Detail := ev_Detail e',
                            ev_LastObservedAt := ev_LastObservedAt e'\<rparr>) events,
                    transitions, n)))
      | None \<Rightarrow>
          let e = open_event (newid n) hid t s in
          andThen (validateEvent e) (\<lambda>_.
          andThen (insert_event hosts e events) (\<lambda>events'.
            Inr (events', transitions @ [\<lparr>tr_Type = EventOpened, tr_Event = e\<rparr>], Suc n))))"

definition recover_event ::
  "time \<Rightarrow> (string \<rightharpoonup> event) \<Rightarrow> string \<Rightarrow> event list \<times> event_transition list
   \<Rightarrow> go_error + (event list \<times> event_transition list)" where
  "recover_event t activeByKey key st =
     (let (events, transitions) = st; e = the (activeByKey key) in
      if t < ev_LastObservedAt e then Inl ''event recovery predates its latest observation''
      else let e' = resolve t e in
        andThen (validateEvent e') (\<lambda>_.
          Inr (update_where (\<lambda>r. ev_ID r = ev_ID e')
                 (\<lambda>r. r\<lparr>ev_State := EventResolved, ev_ResolvedAt := Some t\<rparr>) events,
               transitions @ [\<lparr>tr_Type = EventRecovered, tr_Event = e'\<rparr>])))"

text \<open>\<^verbatim>\<open>sort.Strings\<close> of the keys of a Go map: sorted, without repetition.\<close>

definition sorted_keys :: "string list \<Rightarrow> string list" where
  "sorted_keys ks = sort (remdups ks)"

definition reconcileEventSignals ::
  "(nat \<Rightarrow> string) \<Rightarrow> host_row list \<Rightarrow> host_id \<Rightarrow> time \<Rightarrow> event_signal list \<Rightarrow> event list
   \<Rightarrow> go_error + (event list \<times> event_transition list)" where
  "reconcileEventSignals newid hosts hid t signals events =
     andThen (loadEvents (active_rows hid events)) (\<lambda>active.
       let activeByKey = index_by ev_DedupeKey active;
           signalsByKey = index_by sg_DedupeKey signals;
           keys = sorted_keys (map sg_DedupeKey signals);
           staleKeys = sorted_keys (filter (\<lambda>k. signalsByKey k = None) (map ev_DedupeKey active)) in
       andThen (each (apply_signal newid hosts hid t activeByKey signalsByKey) keys (events, [], 0))
         (\<lambda>(events1, transitions1, n).
           each (recover_event t activeByKey) staleKeys (events1, transitions1)))"

section \<open>Acknowledgement\<close>

datatype ack_error = AckInvalid | AckResolved | AckPredates | AckStored string

text \<open>The result is the event, whether it was found, and the rows.\<close>

definition AcknowledgeEvent ::
  "string \<Rightarrow> time \<Rightarrow> event list \<Rightarrow> ack_error + ((event \<times> event list) option)" where
  "AcknowledgeEvent i t events =
     (if trim_space i = [] \<or> length i > 128 \<or> t = 0 then Inl AckInvalid
      else case loadEvents (filter (\<lambda>e. ev_ID e = i) events) of
        Inl err \<Rightarrow> Inl (AckStored err)
      | Inr [] \<Rightarrow> Inr None
      | Inr (e # _) \<Rightarrow>
          if ev_State e = EventResolved then Inl AckResolved
          else if ev_State e = EventAcknowledged then Inr (Some (e, events))
          else if t < ev_FirstObservedAt e then Inl AckPredates
          else let e' = e\<lparr>ev_State := EventAcknowledged, ev_AcknowledgedAt := Some t\<rparr> in
            case validateEvent e' of
              Inl err \<Rightarrow> Inl (AckStored err)
            | Inr _ \<Rightarrow> Inr (Some (e',
                update_where (\<lambda>r. ev_ID r = ev_ID e' \<and> ev_State r = EventActive)
                  (\<lambda>r. r\<lparr>ev_State := EventAcknowledged, ev_AcknowledgedAt := Some t\<rparr>) events)))"

section \<open>The invariant of the table\<close>

definition open_keys :: "event list \<Rightarrow> string list" where
  "open_keys events = map ev_DedupeKey (filter (\<lambda>e. ev_State e \<noteq> EventResolved) events)"

definition events_ok :: "event list \<Rightarrow> bool" where
  "events_ok events =
     (distinct (map ev_ID events) \<and> distinct (open_keys events)
      \<and> (\<forall>e \<in> set events. validateEvent e = Inr ()))"

lemma index_by_map_of: "index_by key xs = map_of (rev (map (\<lambda>x. (key x, x)) xs))"
proof -
  have "foldl (\<lambda>m x. m(key x \<mapsto> x)) m xs = m ++ map_of (rev (map (\<lambda>x. (key x, x)) xs))" for m
    by (induction xs arbitrary: m) (auto simp: map_add_def fun_eq_iff split: option.splits)
  then show ?thesis by (simp add: index_by_def)
qed

lemma index_by_Some:
  "distinct (map key xs) \<Longrightarrow> index_by key xs k = Some x \<longleftrightarrow> x \<in> set xs \<and> key x = k"
proof -
  assume d: "distinct (map key xs)"
  have "distinct (map fst (rev (map (\<lambda>x. (key x, x)) xs)))"
    using d by (simp add: rev_map[symmetric] comp_def)
  then show ?thesis by (auto simp: index_by_map_of)
qed

lemma index_by_None: "index_by key xs k = None \<longleftrightarrow> k \<notin> key ` set xs"
  by (auto simp: index_by_map_of map_of_eq_None_iff image_image)

lemma index_by_eq_Some: "index_by key xs k = Some x \<Longrightarrow> x \<in> set xs \<and> key x = k"
  unfolding index_by_map_of by (auto dest!: map_of_SomeD)

lemma sorted_keys_props [simp]:
  "sorted (sorted_keys ks)" "distinct (sorted_keys ks)" "set (sorted_keys ks) = set ks"
  by (simp_all add: sorted_keys_def)

lemma event_host_of_key:
  "validateEvent e = Inr () \<Longrightarrow> has_prefix (ev_DedupeKey e) (ev_HostID e @ '':'')"
  by (simp add: validateEvent_ok validateEventSignal_ok event_signal_of_def)

lemma distinct_active_keys:
  assumes "events_ok events"
  shows "distinct (map ev_DedupeKey (active_rows hid events))"
proof -
  let ?open = "filter (\<lambda>e. ev_State e \<noteq> EventResolved) events"
  have "filter (unresolved hid) events = filter (\<lambda>e. ev_HostID e = hid) ?open"
    by (auto simp: unresolved_def[abs_def] intro: filter_cong)
  moreover have "distinct (map ev_DedupeKey ?open)" using assms by (simp add: events_ok_def open_keys_def)
  ultimately have "distinct (map ev_DedupeKey (filter (unresolved hid) events))"
    by (simp only: distinct_map_filter)
  then show ?thesis by (simp add: active_rows_def distinct_map)
qed

lemma active_index:
  assumes "events_ok events"
  shows "index_by ev_DedupeKey (active_rows hid events) k = Some e \<longleftrightarrow>
    e \<in> set events \<and> unresolved hid e \<and> ev_DedupeKey e = k"
  using index_by_Some[OF distinct_active_keys[OF assms]] by (auto simp: active_rows_def)

lemma loadEvents_active:
  assumes "events_ok events" shows "loadEvents (active_rows hid events) = Inr (active_rows hid events)"
  using assms by (simp add: loadEvents_def check_all_Inr active_rows_def events_ok_def)

section \<open>What the two loops compute\<close>

text \<open>The rows after the keys \<open>A\<close> were refreshed and the keys \<open>B\<close> resolved.\<close>

definition row_after ::
  "host_id \<Rightarrow> time \<Rightarrow> (string \<rightharpoonup> event_signal) \<Rightarrow> string set \<Rightarrow> string set \<Rightarrow> event \<Rightarrow> event" where
  "row_after hid t sig A B e =
     (if \<not> unresolved hid e then e
      else if ev_DedupeKey e \<in> A then refresh t (the (sig (ev_DedupeKey e))) e
      else if ev_DedupeKey e \<in> B then resolve t e else e)"

definition opened_events ::
  "(nat \<Rightarrow> string) \<Rightarrow> host_id \<Rightarrow> time \<Rightarrow> (string \<rightharpoonup> event_signal) \<Rightarrow> string list \<Rightarrow> event list" where
  "opened_events newid hid t sig ks =
     map (\<lambda>(n, k). open_event (newid n) hid t (the (sig k))) (enumerate 0 ks)"

lemma opened_events_snoc:
  "opened_events newid hid t sig (ks @ [k]) =
    opened_events newid hid t sig ks @ [open_event (newid (length ks)) hid t (the (sig k))]"
  by (simp add: opened_events_def enumerate_append_eq)

lemma row_after_ID [simp]: "ev_ID (row_after hid t sig A B e) = ev_ID e"
  by (simp add: row_after_def refresh_def resolve_def)

lemma comp_row_after_ID [simp]: "ev_ID \<circ> row_after hid t sig A B = ev_ID"
  by (simp add: fun_eq_iff)

text \<open>Updating the one row with the identifier of \<open>e0\<close>.\<close>

lemma update_row:
  assumes "distinct (map ev_ID (map f es @ news))" "e0 \<in> set es" "\<And>e. ev_ID (f e) = ev_ID e"
  shows "update_where (\<lambda>r. ev_ID r = ev_ID e0) g (map f es @ news) =
    map (\<lambda>e. if e = e0 then g (f e) else f e) es @ news"
proof -
  have "inj_on ev_ID (set es)" using assms by (auto simp: distinct_map comp_def)
  then have "ev_ID e = ev_ID e0 \<longleftrightarrow> e = e0" if "e \<in> set es" for e
    using that assms(2) by (auto dest: inj_onD)
  then have "update_where (\<lambda>r. ev_ID r = ev_ID e0) g (map f es) =
    map (\<lambda>e. if e = e0 then g (f e) else f e) es"
    using assms(3) by (auto simp: update_where_def)
  moreover have "ev_ID r \<noteq> ev_ID e0" if "r \<in> set news" for r
    using assms that by (auto simp: comp_def)
  ultimately show ?thesis by simp
qed

lemma list_ex_key: "list_ex (\<lambda>r. f r = k) xs \<longleftrightarrow> k \<in> f ` set xs"
  by (induction xs) auto

lemma open_keys_ex:
  "list_ex (\<lambda>r. ev_State r \<noteq> EventResolved \<and> ev_DedupeKey r = k) es \<longleftrightarrow> k \<in> set (open_keys es)"
  by (induction es) (auto simp: open_keys_def)

lemma distinct_snoc_map: "distinct (map f (xs @ [x])) \<longleftrightarrow> distinct (map f xs) \<and> f x \<notin> f ` set xs"
  by auto

lemma insert_event_ok:
  "insert_event hosts e es = Inr es' \<longleftrightarrow>
    es' = es @ [e] \<and> ev_ID e \<notin> ev_ID ` set es \<and> host_exists hosts (ev_HostID e) \<and>
    (ev_State e \<noteq> EventResolved \<longrightarrow> ev_DedupeKey e \<notin> set (open_keys es))"
  by (auto simp: insert_event_def list_ex_key open_keys_ex)

lemma apply_signal_step:
  assumes ok: "events_ok es" and k: "k \<notin> A" and act: "act = index_by ev_DedupeKey (active_rows hid es)"
    and ids: "distinct (map ev_ID (map (row_after hid t sig A {}) es @ news))"
    and r: "apply_signal newid hosts hid t act sig k
      (map (row_after hid t sig A {}) es @ news, trs, n) = Inr (evs, trs', n')"
  shows "distinct (map ev_ID evs) \<and>
    (if act k = None
     then evs = map (row_after hid t sig (insert k A) {}) es @ news @ [open_event (newid n) hid t (the (sig k))]
       \<and> trs' = trs @ [\<lparr>tr_Type = EventOpened, tr_Event = open_event (newid n) hid t (the (sig k))\<rparr>]
       \<and> n' = Suc n
     else evs = map (row_after hid t sig (insert k A) {}) es @ news \<and> trs' = trs \<and> n' = n)"
proof (cases "act k")
  case None
  have "row_after hid t sig (insert k A) {} e = row_after hid t sig A {} e" if "e \<in> set es" for e
    using None active_index[OF ok, of hid k e] that by (auto simp: act row_after_def)
  then have m: "map (row_after hid t sig (insert k A) {}) es = map (row_after hid t sig A {}) es" by simp
  define e where "e = open_event (newid n) hid t (the (sig k))"
  obtain evs0 where i: "insert_event hosts e (map (row_after hid t sig A {}) es @ news) = Inr evs0"
    and rest: "evs = evs0" "trs' = trs @ [\<lparr>tr_Type = EventOpened, tr_Event = e\<rparr>]" "n' = Suc n"
    using r None by (auto simp: apply_signal_def Let_def andThen_ok e_def)
  have evs: "evs = (map (row_after hid t sig A {}) es @ news) @ [e]"
    and fresh: "ev_ID e \<notin> ev_ID ` set (map (row_after hid t sig A {}) es @ news)"
    using i rest by (auto simp: insert_event_ok)
  have "distinct (map ev_ID evs)" using ids fresh unfolding evs distinct_snoc_map by blast
  then show ?thesis using None evs rest m by (simp add: e_def)
next
  case (Some e0)
  then have e0: "e0 \<in> set es" "unresolved hid e0" "ev_DedupeKey e0 = k"
    using active_index[OF ok] by (auto simp: act)
  let ?g = "\<lambda>r. r\<lparr>ev_Kind := sg_Kind (the (sig k)), ev_Severity := sg_Severity (the (sig k)),
    ev_Title := sg_Title (the (sig k)), ev_Detail := sg_Detail (the (sig k)), ev_LastObservedAt := t\<rparr>"
  have evs: "evs = update_where (\<lambda>r. ev_ID r = ev_ID e0) ?g (map (row_after hid t sig A {}) es @ news)"
    and rest: "trs' = trs" "n' = n"
    using r Some by (auto simp: apply_signal_def Let_def andThen_ok refresh_def split: if_splits)
  have uniq: "e = e0" if "e \<in> set es" "unresolved hid e" "ev_DedupeKey e = k" for e
    using that Some active_index[OF ok, of hid k e] by (auto simp: act)
  have "evs = map (\<lambda>e. if e = e0 then ?g (row_after hid t sig A {} e) else row_after hid t sig A {} e) es @ news"
    unfolding evs using ids e0(1) by (intro update_row) auto
  also have "map (\<lambda>e. if e = e0 then ?g (row_after hid t sig A {} e) else row_after hid t sig A {} e) es
    = map (row_after hid t sig (insert k A) {}) es"
  proof (rule map_cong[OF refl])
    fix e assume e: "e \<in> set es"
    show "(if e = e0 then ?g (row_after hid t sig A {} e) else row_after hid t sig A {} e)
      = row_after hid t sig (insert k A) {} e"
    proof (cases "e = e0")
      case True
      then show ?thesis using e0 k by (simp add: row_after_def refresh_def)
    next
      case False
      then show ?thesis using uniq[OF e] by (cases "unresolved hid e") (auto simp: row_after_def)
    qed
  qed
  finally show ?thesis using ids rest Some by simp
qed

definition opened_transition :: "event \<Rightarrow> event_transition" where
  "opened_transition e = \<lparr>tr_Type = EventOpened, tr_Event = e\<rparr>"

definition recovered_transition :: "event \<Rightarrow> event_transition" where
  "recovered_transition e = \<lparr>tr_Type = EventRecovered, tr_Event = e\<rparr>"

lemma apply_signals:
  assumes ok: "events_ok es" and act: "act = index_by ev_DedupeKey (active_rows hid es)"
  shows "distinct ks \<Longrightarrow> each (apply_signal newid hosts hid t act sig) ks (es, [], 0) = Inr (evs, trs, n) \<Longrightarrow>
    evs = map (row_after hid t sig (set ks) {}) es @
      opened_events newid hid t sig (filter (\<lambda>k. act k = None) ks) \<and>
    trs = map opened_transition (opened_events newid hid t sig (filter (\<lambda>k. act k = None) ks)) \<and>
    n = length (filter (\<lambda>k. act k = None) ks) \<and> distinct (map ev_ID evs)"
proof (induction ks arbitrary: evs trs n rule: rev_induct)
  case Nil
  have "map (row_after hid t sig {} {}) es = es" by (induction es) (auto simp: row_after_def)
  with Nil ok show ?case by (simp add: opened_events_def events_ok_def)
next
  case (snoc k ks)
  obtain evs1 trs1 n1 where
    1: "each (apply_signal newid hosts hid t act sig) ks (es, [], 0) = Inr (evs1, trs1, n1)"
    and 2: "apply_signal newid hosts hid t act sig k (evs1, trs1, n1) = Inr (evs, trs, n)"
    using snoc.prems(2) by (auto simp: each_append andThen_ok)
  note ih = snoc.IH[OF _ 1]
  have d: "distinct ks" "k \<notin> set ks" using snoc.prems(1) by auto
  note ih = ih[OF d(1)]
  let ?nk = "filter (\<lambda>k. act k = None) ks"
  have ih_evs: "evs1 = map (row_after hid t sig (set ks) {}) es @ opened_events newid hid t sig ?nk"
    and ih_d: "distinct (map ev_ID evs1)" using ih by blast+
  note ids = ih_d[unfolded ih_evs]
  have step: "apply_signal newid hosts hid t act sig k
      (map (row_after hid t sig (set ks) {}) es @ opened_events newid hid t sig ?nk, trs1, n1) = Inr (evs, trs, n)"
    using 2 ih by simp
  note st = apply_signal_step[OF ok d(2) act ids step]
  have D: "distinct (map ev_ID evs)" using st by blast
  have ih_rest: "trs1 = map opened_transition (opened_events newid hid t sig ?nk)" "n1 = length ?nk"
    using ih by blast+
  show ?case
  proof (cases "act k = None")
    case True
    have "evs = map (row_after hid t sig (insert k (set ks)) {}) es @ opened_events newid hid t sig ?nk @
        [open_event (newid n1) hid t (the (sig k))]"
      "trs = trs1 @ [opened_transition (open_event (newid n1) hid t (the (sig k)))]" "n = Suc n1"
      using st True by (simp_all add: opened_transition_def)
    then show ?thesis using True ih_rest by (intro conjI D) (simp_all add: opened_events_snoc)
  next
    case False
    have "evs = map (row_after hid t sig (insert k (set ks)) {}) es @ opened_events newid hid t sig ?nk"
      "trs = trs1" "n = n1"
      using st False by simp_all
    moreover from False obtain y where "act k = Some y" by blast
    ultimately show ?thesis using ih_rest by (intro conjI D) simp_all
  qed
qed

lemma recover_step:
  assumes ok: "events_ok es" and k: "k \<notin> A" "k \<notin> B" and act: "act = index_by ev_DedupeKey (active_rows hid es)"
    and e0: "act k = Some e0"
    and ids: "distinct (map ev_ID (map (row_after hid t sig A B) es @ news))"
    and r: "recover_event t act k (map (row_after hid t sig A B) es @ news, trs) = Inr (evs, trs')"
  shows "evs = map (row_after hid t sig A (insert k B)) es @ news \<and>
    trs' = trs @ [recovered_transition (resolve t e0)]"
proof -
  have e0': "e0 \<in> set es" "unresolved hid e0" "ev_DedupeKey e0 = k"
    using active_index[OF ok] e0 by (auto simp: act)
  let ?g = "\<lambda>r. r\<lparr>ev_State := EventResolved, ev_ResolvedAt := Some t\<rparr>"
  have evs: "evs = update_where (\<lambda>r. ev_ID r = ev_ID e0) ?g (map (row_after hid t sig A B) es @ news)"
    and trs: "trs' = trs @ [recovered_transition (resolve t e0)]"
    using r e0 by (auto simp: recover_event_def Let_def andThen_ok resolve_def recovered_transition_def
        split: if_splits)
  have uniq: "e = e0" if "e \<in> set es" "unresolved hid e" "ev_DedupeKey e = k" for e
    using that e0 active_index[OF ok, of hid k e] by (auto simp: act)
  have "evs = map (\<lambda>e. if e = e0 then ?g (row_after hid t sig A B e) else row_after hid t sig A B e) es @ news"
    unfolding evs using ids e0'(1) by (intro update_row) auto
  also have "map (\<lambda>e. if e = e0 then ?g (row_after hid t sig A B e) else row_after hid t sig A B e) es
    = map (row_after hid t sig A (insert k B)) es"
  proof (rule map_cong[OF refl])
    fix e assume e: "e \<in> set es"
    show "(if e = e0 then ?g (row_after hid t sig A B e) else row_after hid t sig A B e)
      = row_after hid t sig A (insert k B) e"
    proof (cases "e = e0")
      case True
      then show ?thesis using e0' k by (simp add: row_after_def resolve_def)
    next
      case False
      then show ?thesis using uniq[OF e] by (cases "unresolved hid e") (auto simp: row_after_def)
    qed
  qed
  finally show ?thesis using trs by simp
qed

lemma recover_events:
  assumes ok: "events_ok es" and act: "act = index_by ev_DedupeKey (active_rows hid es)"
    and ids: "distinct (map ev_ID (map (row_after hid t sig A {}) es @ news))"
  shows "distinct ks \<Longrightarrow> set ks \<inter> A = {} \<Longrightarrow> \<forall>k \<in> set ks. act k \<noteq> None \<Longrightarrow>
    each (recover_event t act) ks (map (row_after hid t sig A {}) es @ news, trs) = Inr (evs, trs') \<Longrightarrow>
    evs = map (row_after hid t sig A (set ks)) es @ news \<and>
    trs' = trs @ map (\<lambda>k. recovered_transition (resolve t (the (act k)))) ks"
proof (induction ks arbitrary: evs trs' rule: rev_induct)
  case (snoc k ks)
  obtain evs1 trs1 where
    1: "each (recover_event t act) ks (map (row_after hid t sig A {}) es @ news, trs) = Inr (evs1, trs1)"
    and 2: "recover_event t act k (evs1, trs1) = Inr (evs, trs')"
    using snoc.prems(4) by (auto simp: each_append andThen_ok)
  have d: "distinct ks" "k \<notin> set ks" "k \<notin> A" "set ks \<inter> A = {}" "\<forall>k \<in> set ks. act k \<noteq> None"
    using snoc.prems by auto
  note ih = snoc.IH[OF d(1,4,5) 1]
  obtain e0 where e0: "act k = Some e0" using snoc.prems(3) by auto
  have ids': "distinct (map ev_ID (map (row_after hid t sig A (set ks)) es @ news))"
    using ids by (simp add: comp_def)
  show ?case
    using recover_step[OF ok d(3,2) act e0 ids', of trs1 evs trs'] 2 ih e0 by simp
qed simp

section \<open>The reconciliation as a whole\<close>

definition stale_keys :: "host_id \<Rightarrow> event_signal list \<Rightarrow> event list \<Rightarrow> string list" where
  "stale_keys hid signals es =
     sorted_keys (filter (\<lambda>k. k \<notin> sg_DedupeKey ` set signals) (map ev_DedupeKey (active_rows hid es)))"

definition new_keys :: "host_id \<Rightarrow> event_signal list \<Rightarrow> event list \<Rightarrow> string list" where
  "new_keys hid signals es =
     filter (\<lambda>k. k \<notin> ev_DedupeKey ` set (active_rows hid es)) (sorted_keys (map sg_DedupeKey signals))"

text \<open>What every row becomes: an unresolved event of the host takes its signal's text and
  the new observation time, or is resolved when it has no signal; nothing else changes.\<close>

definition reconcile_row :: "host_id \<Rightarrow> time \<Rightarrow> (string \<rightharpoonup> event_signal) \<Rightarrow> event \<Rightarrow> event" where
  "reconcile_row hid t sig e =
     (if \<not> unresolved hid e then e
      else case sig (ev_DedupeKey e) of Some s \<Rightarrow> refresh t s e | None \<Rightarrow> resolve t e)"

lemma reconcile_closed_form:
  assumes ok: "events_ok es"
    and r: "reconcileEventSignals newid hosts hid t signals es = Inr (evs, trs)"
  defines "sig \<equiv> index_by sg_DedupeKey signals"
    and "act \<equiv> index_by ev_DedupeKey (active_rows hid es)"
  shows "evs = map (reconcile_row hid t sig) es @ opened_events newid hid t sig (new_keys hid signals es)
    \<and> trs = map opened_transition (opened_events newid hid t sig (new_keys hid signals es))
        @ map (\<lambda>k. recovered_transition (resolve t (the (act k)))) (stale_keys hid signals es)
    \<and> distinct (map ev_ID evs)"
proof -
  let ?ks = "sorted_keys (map sg_DedupeKey signals)"
  have stale: "stale_keys hid signals es =
      sorted_keys (filter (\<lambda>k. sig k = None) (map ev_DedupeKey (active_rows hid es)))"
    by (simp add: stale_keys_def sig_def index_by_None)
  have new: "filter (\<lambda>k. act k = None) ?ks = new_keys hid signals es"
    by (simp add: new_keys_def act_def index_by_None)
  obtain evs1 trs1 n where
    1: "each (apply_signal newid hosts hid t act sig) ?ks (es, [], 0) = Inr (evs1, trs1, n)"
    and 2: "each (recover_event t act) (stale_keys hid signals es) (evs1, trs1) = Inr (evs, trs)"
    using r unfolding reconcileEventSignals_def loadEvents_active[OF ok] stale
    by (auto simp: Let_def andThen_ok sig_def act_def)
  note first = apply_signals[OF ok act_def[THEN meta_eq_to_obj_eq] sorted_keys_props(2) 1, unfolded new]
  have s1: "evs1 = map (row_after hid t sig (set ?ks) {}) es @ opened_events newid hid t sig (new_keys hid signals es)"
    "trs1 = map opened_transition (opened_events newid hid t sig (new_keys hid signals es))"
    "distinct (map ev_ID evs1)"
    using first by blast+
  have s2: "evs = map (row_after hid t sig (set ?ks) (set (stale_keys hid signals es))) es @
      opened_events newid hid t sig (new_keys hid signals es)"
    "trs = trs1 @ map (\<lambda>k. recovered_transition (resolve t (the (act k)))) (stale_keys hid signals es)"
    using recover_events[OF ok act_def[THEN meta_eq_to_obj_eq] s1(3)[unfolded s1(1)] _ _ _ 2[unfolded s1(1)]]
    by (auto simp: stale_keys_def act_def index_by_None)
  have row: "row_after hid t sig (set ?ks) (set (stale_keys hid signals es)) e = reconcile_row hid t sig e"
    if "e \<in> set es" for e
  proof (cases "sig (ev_DedupeKey e)")
    case None
    then have "ev_DedupeKey e \<notin> sg_DedupeKey ` set signals" by (simp add: sig_def index_by_None)
    moreover have "unresolved hid e \<Longrightarrow> e \<in> set (active_rows hid es)" using that by (simp add: active_rows_def)
    ultimately show ?thesis
      using None by (auto simp: row_after_def reconcile_row_def stale_keys_def)
  next
    case (Some s)
    then have "ev_DedupeKey e \<in> sg_DedupeKey ` set signals"
      using index_by_None[of sg_DedupeKey signals "ev_DedupeKey e"] by (auto simp: sig_def)
    then show ?thesis using Some by (simp add: row_after_def reconcile_row_def)
  qed
  then have "map (row_after hid t sig (set ?ks) (set (stale_keys hid signals es))) es =
    map (reconcile_row hid t sig) es" by simp
  moreover have "distinct (map ev_ID evs)"
    using s1(3) unfolding s1(1) s2(1) by simp
  ultimately show ?thesis using s2 s1(2) by simp
qed

section \<open>The invariant is kept\<close>

lemma open_keys_append [simp]: "open_keys (xs @ ys) = open_keys xs @ open_keys ys"
  by (simp add: open_keys_def)

lemma open_keys_Nil [simp]: "open_keys [] = []"
  by (simp add: open_keys_def)

lemma open_keys_Cons [simp]:
  "open_keys (e # es) = (if ev_State e = EventResolved then open_keys es else ev_DedupeKey e # open_keys es)"
  by (simp add: open_keys_def)

lemma open_keys_update:
  "(\<And>r. ev_State (g r) = ev_State r) \<Longrightarrow> (\<And>r. ev_DedupeKey (g r) = ev_DedupeKey r) \<Longrightarrow>
    open_keys (update_where p g es) = open_keys es"
  by (induction es) auto

lemma open_keys_resolve:
  "(\<And>r. ev_State (g r) = EventResolved) \<Longrightarrow> distinct (open_keys es) \<Longrightarrow>
    set (open_keys (update_where p g es)) \<subseteq> set (open_keys es) \<and> distinct (open_keys (update_where p g es))"
  by (induction es) (auto split: if_splits)

lemma apply_signal_open_keys:
  assumes "apply_signal newid hosts hid t act sig k (es, trs, n) = Inr (es', trs', n')"
    "distinct (open_keys es)"
  shows "distinct (open_keys es')"
proof (cases "act k")
  case None
  then obtain e where "insert_event hosts e es = Inr es'" "ev_State e = EventActive"
    using assms(1) by (auto simp: apply_signal_def Let_def andThen_ok open_event_def)
  then show ?thesis using assms(2) by (auto simp: insert_event_ok open_keys_def)
next
  case (Some e)
  then obtain p g where "es' = update_where p g es"
    "\<And>r. ev_State (g r) = ev_State r" "\<And>r. ev_DedupeKey (g r) = ev_DedupeKey r"
    using assms(1) by (fastforce simp: apply_signal_def Let_def andThen_ok split: if_splits)
  then show ?thesis using assms(2) by (simp add: open_keys_update)
qed

lemma recover_event_open_keys:
  assumes "recover_event t act k (es, trs) = Inr (es', trs')" "distinct (open_keys es)"
  shows "distinct (open_keys es')"
proof -
  obtain p g where "es' = update_where p g es" "\<And>r. ev_State (g r) = EventResolved"
    using assms(1) by (fastforce simp: recover_event_def Let_def andThen_ok split: if_splits)
  then show ?thesis using assms(2) open_keys_resolve by blast
qed

lemma reconcile_loops:
  assumes ok: "events_ok es"
    and r: "reconcileEventSignals newid hosts hid t signals es = Inr (evs, trs)"
  defines "sig \<equiv> index_by sg_DedupeKey signals"
    and "act \<equiv> index_by ev_DedupeKey (active_rows hid es)"
  obtains evs1 trs1 n where
    "each (apply_signal newid hosts hid t act sig) (sorted_keys (map sg_DedupeKey signals)) (es, [], 0)
      = Inr (evs1, trs1, n)"
    "each (recover_event t act) (stale_keys hid signals es) (evs1, trs1) = Inr (evs, trs)"
proof -
  have stale: "stale_keys hid signals es =
      sorted_keys (filter (\<lambda>k. sig k = None) (map ev_DedupeKey (active_rows hid es)))"
    by (simp add: stale_keys_def sig_def index_by_None)
  show ?thesis
    using r that unfolding reconcileEventSignals_def loadEvents_active[OF ok] stale
    by (auto simp: Let_def andThen_ok sig_def act_def)
qed

lemma reconcile_open_keys_distinct:
  assumes ok: "events_ok es"
    and r: "reconcileEventSignals newid hosts hid t signals es = Inr (evs, trs)"
  shows "distinct (open_keys evs)"
proof -
  let ?sig = "index_by sg_DedupeKey signals" and ?act = "index_by ev_DedupeKey (active_rows hid es)"
  obtain evs1 trs1 n where
    1: "each (apply_signal newid hosts hid t ?act ?sig) (sorted_keys (map sg_DedupeKey signals)) (es, [], 0)
      = Inr (evs1, trs1, n)"
    and 2: "each (recover_event t ?act) (stale_keys hid signals es) (evs1, trs1) = Inr (evs, trs)"
    using reconcile_loops[OF ok r] by blast
  have "(\<lambda>(e, _, _). distinct (open_keys e)) (evs1, trs1, n)"
    by (rule each_inv[OF 1]) (use ok in \<open>auto simp: events_ok_def dest: apply_signal_open_keys\<close>)
  then have "(\<lambda>(e, _). distinct (open_keys e)) (evs1, trs1)" by simp
  then have "(\<lambda>(e, _). distinct (open_keys e)) (evs, trs)"
    by (rule each_inv[OF 2]) (auto dest: recover_event_open_keys)
  then show ?thesis by simp
qed

lemma apply_signal_valid:
  "apply_signal newid hosts hid t act sig k (es, trs, n) = Inr (es', trs', n') \<Longrightarrow>
    (\<forall>tr \<in> set trs. validateEvent (tr_Event tr) = Inr ()) \<Longrightarrow>
    (\<forall>tr \<in> set trs'. validateEvent (tr_Event tr) = Inr ())"
  by (auto simp: apply_signal_def Let_def andThen_ok split: option.splits if_splits)

lemma reconcile_rows_valid:
  assumes ok: "events_ok es"
    and r: "reconcileEventSignals newid hosts hid t signals es = Inr (evs, trs)"
    and e: "e \<in> set es" "unresolved hid e"
  shows "validateEvent (reconcile_row hid t (index_by sg_DedupeKey signals) e) = Inr ()
    \<and> ev_LastObservedAt e \<le> t"
proof -
  let ?sig = "index_by sg_DedupeKey signals" and ?act = "index_by ev_DedupeKey (active_rows hid es)"
  obtain evs1 trs1 n where
    1: "each (apply_signal newid hosts hid t ?act ?sig) (sorted_keys (map sg_DedupeKey signals)) (es, [], 0)
      = Inr (evs1, trs1, n)"
    and 2: "each (recover_event t ?act) (stale_keys hid signals es) (evs1, trs1) = Inr (evs, trs)"
    using reconcile_loops[OF ok r] by blast
  have act: "?act (ev_DedupeKey e) = Some e" using active_index[OF ok] e by blast
  show ?thesis
  proof (cases "?sig (ev_DedupeKey e)")
    case None
    then have "ev_DedupeKey e \<in> set (stale_keys hid signals es)"
      using e by (auto simp: stale_keys_def index_by_None active_rows_def)
    then obtain s1 s2 where "recover_event t ?act (ev_DedupeKey e) s1 = Inr s2"
      using each_steps[OF 2] by blast
    then show ?thesis using act None e(2)
      by (auto simp: recover_event_def Let_def andThen_ok reconcile_row_def split: prod.splits if_splits)
  next
    case (Some s)
    then have "ev_DedupeKey e \<in> set (sorted_keys (map sg_DedupeKey signals))"
      using index_by_None[of sg_DedupeKey signals "ev_DedupeKey e"] by auto
    then obtain s1 s2 where "apply_signal newid hosts hid t ?act ?sig (ev_DedupeKey e) s1 = Inr s2"
      using each_steps[OF 1] by blast
    then show ?thesis using act Some e(2)
      by (auto simp: apply_signal_def Let_def andThen_ok reconcile_row_def split: prod.splits if_splits)
  qed
qed

lemma reconcile_opened_valid:
  assumes ok: "events_ok es"
    and r: "reconcileEventSignals newid hosts hid t signals es = Inr (evs, trs)"
    and e: "e \<in> set (opened_events newid hid t (index_by sg_DedupeKey signals) (new_keys hid signals es))"
  shows "validateEvent e = Inr ()"
proof -
  let ?sig = "index_by sg_DedupeKey signals" and ?act = "index_by ev_DedupeKey (active_rows hid es)"
  let ?ks = "sorted_keys (map sg_DedupeKey signals)"
  obtain evs1 trs1 n where
    1: "each (apply_signal newid hosts hid t ?act ?sig) ?ks (es, [], 0) = Inr (evs1, trs1, n)"
    using reconcile_loops[OF ok r] by blast
  have "trs1 = map opened_transition (opened_events newid hid t ?sig (filter (\<lambda>k. ?act k = None) ?ks))"
    using apply_signals[OF ok refl _ 1] by simp
  also have "filter (\<lambda>k. ?act k = None) ?ks = new_keys hid signals es"
    by (simp add: new_keys_def index_by_None)
  finally have t: "opened_transition e \<in> set trs1" using e by simp
  have "(\<lambda>(_, ts, _). \<forall>tr \<in> set ts. validateEvent (tr_Event tr) = Inr ()) (evs1, trs1, n)"
    by (rule each_inv[OF 1]) (auto dest!: apply_signal_valid)
  then show ?thesis using t by (auto simp: opened_transition_def)
qed

lemma row_valid:
  assumes ok: "events_ok es"
    and r: "reconcileEventSignals newid hosts hid t signals es = Inr (evs, trs)"
    and e: "e \<in> set es"
  shows "validateEvent (reconcile_row hid t (index_by sg_DedupeKey signals) e) = Inr ()"
proof (cases "unresolved hid e")
  case True
  then show ?thesis using reconcile_rows_valid[OF ok r e] by blast
next
  case False
  then show ?thesis using ok e by (simp add: reconcile_row_def events_ok_def)
qed

text \<open>C32. The loops of the reconciliation implement its specification: every unresolved event
  of the host takes its signal's text and the observation time or, without a signal, is
  resolved; one active event is added for each signal whose key had none, in key order;
  every other row is untouched; and the transitions are exactly the opened events followed
  by the recovered ones.\<close>

theorem reconcile_refines:
  assumes "events_ok es"
    and "reconcileEventSignals newid hosts hid t signals es = Inr (evs, trs)"
  shows "evs = map (reconcile_row hid t (index_by sg_DedupeKey signals)) es
       @ opened_events newid hid t (index_by sg_DedupeKey signals) (new_keys hid signals es)
    \<and> trs = map opened_transition
         (opened_events newid hid t (index_by sg_DedupeKey signals) (new_keys hid signals es))
       @ map (\<lambda>k. recovered_transition
           (resolve t (the (index_by ev_DedupeKey (active_rows hid es) k)))) (stale_keys hid signals es)"
  using reconcile_closed_form[OF assms] by blast

lemma invariant_after:
  assumes "events_ok es"
    and "reconcileEventSignals newid hosts hid t signals es = Inr (evs, trs)"
  shows "events_ok evs"
proof -
  note c = reconcile_closed_form[OF assms]
  have "validateEvent e = Inr ()" if "e \<in> set evs" for e
    using that c row_valid[OF assms] reconcile_opened_valid[OF assms] by auto
  moreover have "distinct (map ev_ID evs)" using c by blast
  ultimately show ?thesis
    using reconcile_open_keys_distinct[OF assms] unfolding events_ok_def by blast
qed

text \<open>The reconciliation keeps the table's invariant: identifiers stay distinct, at most
  one unresolved event exists per dedupe key over all hosts, and every row is valid.\<close>

theorem reconcile_invariant:
  assumes "events_ok es"
    and "reconcileEventSignals newid hosts hid t signals es = Inr (evs, trs)"
  shows "events_ok evs"
  using assms by (rule invariant_after)

lemma open_event_simps [simp]:
  "ev_DedupeKey (open_event i hid t s) = sg_DedupeKey s" "ev_HostID (open_event i hid t s) = hid"
  "ev_State (open_event i hid t s) = EventActive" "ev_ID (open_event i hid t s) = i"
  by (simp_all add: open_event_def)

lemma index_key:
  "k \<in> key ` set xs \<Longrightarrow> \<exists>x. index_by key xs k = Some x \<and> key x = k"
  using index_by_None[of key xs k] index_by_eq_Some[of key xs k] by (metis not_None_eq)

lemma opened_keys:
  "set ks \<subseteq> sg_DedupeKey ` set signals \<Longrightarrow>
    map ev_DedupeKey (opened_events newid hid t (index_by sg_DedupeKey signals) ks) = ks"
proof (induction ks rule: rev_induct)
  case (snoc k ks)
  then obtain s where "index_by sg_DedupeKey signals k = Some s" "sg_DedupeKey s = k"
    using index_key[of k sg_DedupeKey signals] by auto
  with snoc show ?case by (simp add: opened_events_snoc)
qed (simp add: opened_events_def)

lemma new_keys_subset: "set (new_keys hid signals es) \<subseteq> sg_DedupeKey ` set signals"
  by (auto simp: new_keys_def)

lemma opened_event_props:
  "e \<in> set (opened_events newid hid t sig ks) \<Longrightarrow> ev_HostID e = hid \<and> ev_State e = EventActive"
  by (auto simp: opened_events_def)

lemma open_keys_after:
  assumes "events_ok es"
    and "reconcileEventSignals newid hosts hid t signals es = Inr (evs, trs)"
  shows "ev_DedupeKey ` {e \<in> set evs. unresolved hid e} = sg_DedupeKey ` set signals"
proof -
  let ?sig = "index_by sg_DedupeKey signals"
  let ?new = "opened_events newid hid t ?sig (new_keys hid signals es)"
  have evs: "evs = map (reconcile_row hid t ?sig) es @ ?new"
    using reconcile_closed_form[OF assms] by blast
  have row: "unresolved hid (reconcile_row hid t ?sig e) \<longleftrightarrow> unresolved hid e \<and> ?sig (ev_DedupeKey e) \<noteq> None"
    "ev_DedupeKey (reconcile_row hid t ?sig e) = ev_DedupeKey e" for e
    by (auto simp: reconcile_row_def unresolved_def refresh_def resolve_def split: option.splits)
  have new: "ev_DedupeKey ` set ?new = set (new_keys hid signals es)" "\<forall>e \<in> set ?new. unresolved hid e"
    using arg_cong[OF opened_keys[OF new_keys_subset, of newid hid t signals hid es], of set]
      opened_event_props by (auto simp: unresolved_def)
  have "{e \<in> set evs. unresolved hid e} =
    reconcile_row hid t ?sig ` {e \<in> set es. unresolved hid e \<and> ?sig (ev_DedupeKey e) \<noteq> None} \<union> set ?new"
    using row(1) new(2) by (auto simp: evs)
  then have "ev_DedupeKey ` {e \<in> set evs. unresolved hid e} =
    ev_DedupeKey ` {e \<in> set es. unresolved hid e \<and> ev_DedupeKey e \<in> sg_DedupeKey ` set signals}
    \<union> set (new_keys hid signals es)"
    using new(1) by (simp add: image_Un image_image row(2) index_by_None)
  also have "ev_DedupeKey ` {e \<in> set es. unresolved hid e \<and> ev_DedupeKey e \<in> sg_DedupeKey ` set signals}
    = ev_DedupeKey ` {e \<in> set es. unresolved hid e} \<inter> sg_DedupeKey ` set signals"
    by blast
  also have "set (new_keys hid signals es) =
    sg_DedupeKey ` set signals - ev_DedupeKey ` {e \<in> set es. unresolved hid e}"
    by (auto simp: new_keys_def active_rows_def)
  also have "ev_DedupeKey ` {e \<in> set es. unresolved hid e} \<inter> sg_DedupeKey ` set signals \<union>
    (sg_DedupeKey ` set signals - ev_DedupeKey ` {e \<in> set es. unresolved hid e}) =
    sg_DedupeKey ` set signals" by blast
  finally show ?thesis .
qed

text \<open>After a reconciliation the unresolved events of the host are exactly its current
  signals: their dedupe keys are the signals' keys.\<close>

theorem reconcile_open_keys:
  assumes "events_ok es"
    and "reconcileEventSignals newid hosts hid t signals es = Inr (evs, trs)"
  shows "ev_DedupeKey ` {e \<in> set evs. unresolved hid e} = sg_DedupeKey ` set signals"
  using assms by (rule open_keys_after)

section \<open>When a reconciliation succeeds\<close>

lemma validateEvent_refresh:
  assumes "validateEvent e = Inr ()" "validateEventSignal s = Inr ()" "sg_HostID s = ev_HostID e"
    "sg_DedupeKey s = ev_DedupeKey e" "ev_LastObservedAt e \<le> t" "ev_State e \<noteq> EventResolved" "t \<noteq> 0"
  shows "validateEvent (refresh t s e) = Inr ()"
  using assms by (auto simp: validateEvent_ok validateEventState_ok validateEventSignal_ok
      event_signal_of_def refresh_def)

lemma validateEvent_open:
  assumes "validateEventSignal s = Inr ()" "sg_HostID s = hid" "valid_identifier i 128" "t \<noteq> 0"
  shows "validateEvent (open_event i hid t s) = Inr ()"
  using assms by (auto simp: validateEvent_ok validateEventState_ok validateEventSignal_ok
      event_signal_of_def open_event_def)

lemma validateEvent_resolve:
  assumes "validateEvent e = Inr ()" "ev_LastObservedAt e \<le> t" "\<forall>a. ev_AcknowledgedAt e = Some a \<longrightarrow> a \<le> t"
  shows "validateEvent (resolve t e) = Inr ()"
  using assms by (auto simp: validateEvent_ok validateEventState_ok event_signal_of_def resolve_def)

text \<open>The observation is recent, the signals are well-formed and the drawn identifiers are new.\<close>

definition reconcile_ready ::
  "(nat \<Rightarrow> string) \<Rightarrow> host_row list \<Rightarrow> host_id \<Rightarrow> time \<Rightarrow> event_signal list \<Rightarrow> event list \<Rightarrow> bool" where
  "reconcile_ready newid hosts hid t signals es =
     (host_exists hosts hid \<and> t \<noteq> 0
      \<and> (\<forall>s \<in> set signals. validateEventSignal s = Inr () \<and> sg_HostID s = hid)
      \<and> (\<forall>e \<in> set es. unresolved hid e \<longrightarrow> ev_LastObservedAt e \<le> t
           \<and> (ev_DedupeKey e \<notin> sg_DedupeKey ` set signals \<longrightarrow>
                (case ev_AcknowledgedAt e of None \<Rightarrow> True | Some a \<Rightarrow> a \<le> t)))
      \<and> (\<forall>e \<in> set es. ev_HostID e \<noteq> hid \<and> ev_State e \<noteq> EventResolved \<longrightarrow>
           ev_DedupeKey e \<notin> sg_DedupeKey ` set signals)
      \<and> distinct (map newid [0..<length signals])
      \<and> (\<forall>n < length signals. valid_identifier (newid n) 128 \<and> newid n \<notin> ev_ID ` set es))"

lemma row_after_open_keys: "open_keys (map (row_after hid t sig A {}) es) = open_keys es"
  by (induction es) (auto simp: row_after_def refresh_def)

lemma open_keys_opened:
  "open_keys (opened_events newid hid t sig ks) = map ev_DedupeKey (opened_events newid hid t sig ks)"
proof -
  have "filter (\<lambda>e. ev_State e \<noteq> EventResolved) (opened_events newid hid t sig ks) =
    opened_events newid hid t sig ks"
    by (auto simp: opened_event_props intro!: filter_True)
  then show ?thesis by (simp add: open_keys_def)
qed

lemma opened_ids:
  "ev_ID ` set (opened_events newid hid t sig ks) = newid ` {..<length ks}"
proof -
  have "map ev_ID (opened_events newid hid t sig ks) = map newid [0..<length ks]"
    by (rule nth_equalityI) (auto simp: opened_events_def nth_enumerate_eq)
  then have "set (map ev_ID (opened_events newid hid t sig ks)) = set (map newid [0..<length ks])" by simp
  then show ?thesis by (simp add: atLeast0LessThan)
qed

lemma apply_signals_total:
  assumes ok: "events_ok es" and ready: "reconcile_ready newid hosts hid t signals es"
  defines "sig \<equiv> index_by sg_DedupeKey signals"
    and "act \<equiv> index_by ev_DedupeKey (active_rows hid es)"
  shows "distinct ks \<Longrightarrow> set ks \<subseteq> sg_DedupeKey ` set signals \<Longrightarrow>
    \<exists>evs trs n. each (apply_signal newid hosts hid t act sig) ks (es, [], 0) = Inr (evs, trs, n)"
proof (induction ks rule: rev_induct)
  case (snoc k ks)
  then obtain evs trs n where 1: "each (apply_signal newid hosts hid t act sig) ks (es, [], 0) = Inr (evs, trs, n)"
    by auto
  let ?nk = "filter (\<lambda>k. act k = None) ks"
  have d: "distinct ks" "k \<notin> set ks" using snoc.prems by auto
  have evs: "evs = map (row_after hid t sig (set ks) {}) es @ opened_events newid hid t sig ?nk"
    and n: "n = length ?nk"
    using apply_signals[OF ok act_def[THEN meta_eq_to_obj_eq] d(1) 1] by blast+
  obtain s where s: "sig k = Some s" "sg_DedupeKey s = k" "s \<in> set signals"
    using index_key[of k sg_DedupeKey signals] index_by_eq_Some[of sg_DedupeKey signals k] snoc.prems(2)
    by (auto simp: sig_def)
  have sv: "validateEventSignal s = Inr ()" "sg_HostID s = hid" and t: "t \<noteq> 0"
    using ready s(3) by (auto simp: reconcile_ready_def)
  have "\<exists>r. apply_signal newid hosts hid t act sig k (evs, trs, n) = Inr r"
  proof (cases "act k")
    case (Some e)
    then have e: "e \<in> set es" "unresolved hid e" "ev_DedupeKey e = k"
      using active_index[OF ok] by (auto simp: act_def)
    then have "validateEvent (refresh t s e) = Inr ()" "\<not> t < ev_LastObservedAt e"
      using ok ready sv s t by (auto simp: events_ok_def reconcile_ready_def unresolved_def
          intro!: validateEvent_refresh)
    then show ?thesis using Some s by (simp add: apply_signal_def Let_def)
  next
    case None
    have len: "n < length signals"
    proof -
      have "card (set (ks @ [k])) \<le> card (sg_DedupeKey ` set signals)"
        using snoc.prems by (intro card_mono) auto
      also have "\<dots> \<le> length signals" by (metis card_image_le card_length finite_set order_trans)
      finally have "length ks < length signals" using snoc.prems(1) by (simp add: distinct_card)
      moreover have "n \<le> length ks" by (simp add: n)
      ultimately show ?thesis by simp
    qed
    have val: "validateEvent (open_event (newid n) hid t s) = Inr ()"
      using sv t len ready by (auto simp: reconcile_ready_def intro!: validateEvent_open)
    have inj: "inj_on newid {..<length signals}"
      using ready by (auto simp: reconcile_ready_def distinct_map atLeast0LessThan)
    have "newid n \<notin> ev_ID ` set es" using ready len by (auto simp: reconcile_ready_def)
    moreover have "newid n \<notin> newid ` {..<n}"
      using inj len by (auto dest!: inj_onD)
    moreover have "ev_ID ` set evs = ev_ID ` set es \<union> newid ` {..<n}"
      by (simp add: evs image_Un opened_ids n image_image)
    ultimately have id: "newid n \<notin> ev_ID ` set evs" by simp
    have ks: "map ev_DedupeKey (opened_events newid hid t sig ?nk) = ?nk"
      unfolding sig_def using snoc.prems(2) by (intro opened_keys) auto
    have "set (open_keys evs) = set (open_keys es) \<union> set ?nk"
      by (simp only: evs open_keys_append row_after_open_keys open_keys_opened ks set_append)
    moreover have "k \<notin> set (open_keys es)"
    proof
      assume "k \<in> set (open_keys es)"
      then obtain e where e: "e \<in> set es" "ev_State e \<noteq> EventResolved" "ev_DedupeKey e = k"
        by (auto simp: open_keys_def)
      then have "ev_DedupeKey e \<in> sg_DedupeKey ` set signals" using s(2,3) by (auto intro: rev_image_eqI)
      then have "ev_HostID e = hid" using ready e by (auto simp: reconcile_ready_def)
      then show False using None e active_index[OF ok, of hid k e] by (simp add: act_def unresolved_def)
    qed
    ultimately have key: "k \<notin> set (open_keys evs)" using d(2) by auto
    have "\<exists>evs'. insert_event hosts (open_event (newid n) hid t s) evs = Inr evs'"
      using id key s ready by (simp add: insert_event_ok reconcile_ready_def)
    then show ?thesis using None s val by (auto simp: apply_signal_def)
  qed
  then show ?case using 1 by (force simp: each_append)
qed simp

lemma recover_total:
  assumes "\<forall>k \<in> set ks. \<exists>e. act k = Some e \<and> ev_LastObservedAt e \<le> t \<and> validateEvent (resolve t e) = Inr ()"
  shows "\<exists>r. each (recover_event t act) ks st = Inr r"
proof -
  have "\<exists>r. each (recover_event t act) ks st = Inr r \<and> True"
    by (rule each_ok) (use assms in \<open>fastforce simp: recover_event_def Let_def split: prod.splits\<close>)+
  then show ?thesis by simp
qed

lemma reconcile_succeeds:
  assumes ok: "events_ok es" and ready: "reconcile_ready newid hosts hid t signals es"
  shows "\<exists>evs trs. reconcileEventSignals newid hosts hid t signals es = Inr (evs, trs)"
proof -
  let ?sig = "index_by sg_DedupeKey signals" and ?act = "index_by ev_DedupeKey (active_rows hid es)"
  have "set (sorted_keys (map sg_DedupeKey signals)) \<subseteq> sg_DedupeKey ` set signals" by simp
  then obtain evs1 trs1 n where
    1: "each (apply_signal newid hosts hid t ?act ?sig) (sorted_keys (map sg_DedupeKey signals)) (es, [], 0)
      = Inr (evs1, trs1, n)"
    using apply_signals_total[OF ok ready sorted_keys_props(2)] by blast
  have "\<forall>k \<in> set (stale_keys hid signals es).
    \<exists>e. ?act k = Some e \<and> ev_LastObservedAt e \<le> t \<and> validateEvent (resolve t e) = Inr ()"
  proof
    fix k assume k: "k \<in> set (stale_keys hid signals es)"
    then obtain e where e: "e \<in> set es" "unresolved hid e" "ev_DedupeKey e = k"
      "k \<notin> sg_DedupeKey ` set signals"
      by (auto simp: stale_keys_def active_rows_def)
    have "?act k = Some e" using active_index[OF ok] e by blast
    moreover have "ev_LastObservedAt e \<le> t" "\<forall>a. ev_AcknowledgedAt e = Some a \<longrightarrow> a \<le> t"
      "validateEvent e = Inr ()"
      using ready ok e by (auto simp: reconcile_ready_def events_ok_def)
    ultimately show "\<exists>e. ?act k = Some e \<and> ev_LastObservedAt e \<le> t \<and> validateEvent (resolve t e) = Inr ()"
      using validateEvent_resolve by blast
  qed
  from recover_total[OF this] obtain r where
    "each (recover_event t ?act) (stale_keys hid signals es) (evs1, trs1) = Inr r" by blast
  moreover have "stale_keys hid signals es =
      sorted_keys (filter (\<lambda>k. ?sig k = None) (map ev_DedupeKey (active_rows hid es)))"
    by (simp add: stale_keys_def index_by_None)
  ultimately show ?thesis
    using 1 by (cases r) (simp add: reconcileEventSignals_def loadEvents_active[OF ok])
qed


text \<open>An event acknowledged after the observation was taken, and which that observation
  would resolve, makes the whole reconciliation fail: the observation is rejected.\<close>

theorem reconcile_rejects_late_ack:
  assumes ok: "events_ok es" and e: "e \<in> set es" "unresolved hid e" "ev_AcknowledgedAt e = Some a"
    and late: "t < a" and stale: "ev_DedupeKey e \<notin> sg_DedupeKey ` set signals"
  shows "\<exists>err. reconcileEventSignals newid hosts hid t signals es = Inl err"
proof (cases "reconcileEventSignals newid hosts hid t signals es")
  case (Inr r)
  obtain evs trs where r: "r = (evs, trs)" by (cases r)
  have "index_by sg_DedupeKey signals (ev_DedupeKey e) = None" using stale by (simp add: index_by_None)
  then have "validateEvent (resolve t e) = Inr ()"
    using reconcile_rows_valid[OF ok Inr[unfolded r] e(1,2)] e(2) by (simp add: reconcile_row_def)
  then show ?thesis using e late by (auto simp: validateEvent_ok validateEventState_ok resolve_def)
qed simp

section \<open>Acknowledgement and history\<close>

lemma ack_cases:
  assumes ok: "events_ok es" and a: "AcknowledgeEvent i t es = Inr (Some (e', es'))"
  obtains e where "e \<in> set es" "ev_ID e = i" "ev_State e = EventAcknowledged" "e' = e" "es' = es"
  | e where "e \<in> set es" "ev_ID e = i" "ev_State e = EventActive" "ev_FirstObservedAt e \<le> t"
    "e' = e\<lparr>ev_State := EventAcknowledged, ev_AcknowledgedAt := Some t\<rparr>" "validateEvent e' = Inr ()"
    "es' = map (\<lambda>x. if x = e then e' else x) es"
proof -
  obtain e rest where f: "filter (\<lambda>e. ev_ID e = i) es = e # rest"
    and e: "e \<in> set es" "ev_ID e = i" "ev_State e \<noteq> EventResolved"
  proof -
    assume "\<And>e rest. filter (\<lambda>e. ev_ID e = i) es = e # rest \<Longrightarrow> e \<in> set es \<Longrightarrow> ev_ID e = i \<Longrightarrow>
      ev_State e \<noteq> EventResolved \<Longrightarrow> thesis"
    moreover obtain e rest where f: "filter (\<lambda>e. ev_ID e = i) es = e # rest" "ev_State e \<noteq> EventResolved"
      using a by (auto simp: AcknowledgeEvent_def loadEvents_def andThen_def split: if_splits sum.splits list.splits)
    moreover have "e \<in> set (filter (\<lambda>e. ev_ID e = i) es)" unfolding f(1) by simp
    then have "e \<in> set es" "ev_ID e = i" by simp_all
    ultimately show thesis by blast
  qed
  have valid: "\<forall>x \<in> set (e # rest). validateEvent x = Inr ()"
    using ok f by (metis events_ok_def filter_is_subset subsetD)
  then have ld: "loadEvents (filter (\<lambda>e. ev_ID e = i) es) = Inr (e # rest)"
    by (simp add: loadEvents_def check_all_Inr f)
  have inv: "\<not> (trim_space i = [] \<or> length i > 128 \<or> t = 0)"
    using a by (auto simp: AcknowledgeEvent_def split: if_splits)
  show thesis
  proof (cases "ev_State e = EventAcknowledged")
    case True
    then have "AcknowledgeEvent i t es = Inr (Some (e, es))"
      unfolding AcknowledgeEvent_def ld using inv by simp
    then have "e' = e" "es' = es" using a by simp_all
    then show thesis by (rule that(1)[OF e(1,2) True])
  next
    case False
    then have act: "ev_State e = EventActive"
      using valid e(3) by (simp add: validateEvent_ok validateEventState_ok)
    define e1 where "e1 = e\<lparr>ev_State := EventAcknowledged, ev_AcknowledgedAt := Some t\<rparr>"
    have r: "ev_FirstObservedAt e \<le> t" "validateEvent e1 = Inr ()" "e' = e1"
      "es' = update_where (\<lambda>r. ev_ID r = ev_ID e1 \<and> ev_State r = EventActive)
                  (\<lambda>r. r\<lparr>ev_State := EventAcknowledged, ev_AcknowledgedAt := Some t\<rparr>) es"
      using a inv act by (auto simp: AcknowledgeEvent_def ld Let_def e1_def split: if_splits sum.splits)
    have "ev_ID x = ev_ID e \<longleftrightarrow> x = e" if "x \<in> set es" for x
      using ok that e(1) by (auto simp: events_ok_def distinct_map dest: inj_onD)
    then have "es' = map (\<lambda>x. if x = e then e1 else x) es"
      unfolding r(4) using act by (auto simp: update_where_def e1_def)
    then show thesis using that(2)[of e] e act r e1_def by simp
  qed
qed

lemma map_replace_open_keys:
  "ev_State e' \<noteq> EventResolved \<Longrightarrow> ev_State e \<noteq> EventResolved \<Longrightarrow> ev_DedupeKey e' = ev_DedupeKey e \<Longrightarrow>
    open_keys (map (\<lambda>x. if x = e then e' else x) es) = open_keys es"
  by (induction es) auto

lemma map_replace_ids:
  "ev_ID e' = ev_ID e \<Longrightarrow> map ev_ID (map (\<lambda>x. if x = e then e' else x) es) = map ev_ID es"
  by (induction es) auto

lemma ack_invariant:
  assumes ok: "events_ok es" and a: "AcknowledgeEvent i t es = Inr (Some (e', es'))"
  shows "events_ok es' \<and> e' \<in> set es' \<and> ev_ID e' = i \<and> ev_State e' = EventAcknowledged
    \<and> open_keys es' = open_keys es"
  using ok a
proof (cases rule: ack_cases)
  case (1 e)
  then show ?thesis using ok by simp
next
  case (2 e)
  have k: "open_keys es' = open_keys es" and m: "map ev_ID es' = map ev_ID es"
    unfolding 2(7) using 2(3,5) by (auto intro!: map_replace_open_keys map_replace_ids simp del: map_map)
  have v: "\<forall>x \<in> set es'. validateEvent x = Inr ()"
    using ok 2(6) by (auto simp: 2(7) events_ok_def)
  have "e' \<in> set es'" using 2(1) by (force simp: 2(7))
  moreover have "events_ok es'" using ok k m v unfolding events_ok_def by metis
  moreover have "ev_ID e' = i" "ev_State e' = EventAcknowledged" using 2 by simp_all
  ultimately show ?thesis using k by blast
qed

text \<open>An acknowledgement marks one unresolved event and leaves it unresolved: the keys of
  the unresolved events and the invariant are kept, and a second acknowledgement, whenever it
  comes, returns the same event and changes nothing.\<close>

theorem acknowledge_idempotent:
  assumes ok: "events_ok es" and a: "AcknowledgeEvent i t es = Inr (Some (e', es'))" and t': "t' \<noteq> 0"
  shows "events_ok es' \<and> open_keys es' = open_keys es \<and> ev_State e' = EventAcknowledged
    \<and> AcknowledgeEvent i t' es' = Inr (Some (e', es'))"
proof -
  note inv = ack_invariant[OF ok a]
  have g: "\<not> (trim_space i = [] \<or> length i > 128)"
    using a by (auto simp: AcknowledgeEvent_def split: if_splits)
  have "filter (\<lambda>x. ev_ID x = i) es' = [e']"
  proof -
    have d: "distinct (map ev_ID es')" using inv by (simp add: events_ok_def)
    have "length (filter (\<lambda>x. ev_ID x = i) es') \<le> 1"
      using affected_key_le_1[OF d, of i "\<lambda>_. True"] by (simp add: affected_def)
    moreover have "e' \<in> set (filter (\<lambda>x. ev_ID x = i) es')" using inv by simp
    ultimately show ?thesis
      by (cases "filter (\<lambda>x. ev_ID x = i) es'"; cases "tl (filter (\<lambda>x. ev_ID x = i) es')") auto
  qed
  moreover have "validateEvent e' = Inr ()" using inv by (simp add: events_ok_def)
  ultimately have "AcknowledgeEvent i t' es' = Inr (Some (e', es'))"
    using inv g t' by (simp add: AcknowledgeEvent_def loadEvents_def)
  then show ?thesis using inv by blast
qed

text \<open>The table over time: reconciliations of any host and acknowledgements, in any order.\<close>

inductive event_step :: "event list \<Rightarrow> event list \<Rightarrow> bool" where
  step_reconcile: "reconcileEventSignals newid hosts hid t signals es = Inr (es', trs) \<Longrightarrow> event_step es es'"
| step_ack: "AcknowledgeEvent i t es = Inr (Some (e, es')) \<Longrightarrow> event_step es es'"

inductive_cases event_stepE: "event_step es es'"

definition state_rank :: "event_state \<Rightarrow> nat" where
  "state_rank s = (if s = EventActive then 0 else if s = EventAcknowledged then 1 else 2)"

definition event_later :: "event \<Rightarrow> event \<Rightarrow> bool" where
  "event_later e e' =
     (ev_ID e' = ev_ID e \<and> ev_HostID e' = ev_HostID e \<and> ev_DedupeKey e' = ev_DedupeKey e
      \<and> ev_FirstObservedAt e' = ev_FirstObservedAt e \<and> ev_LastObservedAt e \<le> ev_LastObservedAt e'
      \<and> state_rank (ev_State e) \<le> state_rank (ev_State e')
      \<and> (ev_State e = EventResolved \<longrightarrow> e' = e))"

lemma event_later_refl [simp]: "event_later e e"
  by (simp add: event_later_def)

lemma event_later_trans: "event_later a b \<Longrightarrow> event_later b c \<Longrightarrow> event_later a c"
  by (auto simp: event_later_def)

lemma event_step_later:
  assumes "event_step es es'" "events_ok es"
  shows "events_ok es' \<and> list_all2 event_later es (take (length es) es') \<and> length es \<le> length es'"
  using assms(1)
proof (cases rule: event_step.cases)
  case (step_reconcile newid hosts hid t signals trs)
  let ?row = "reconcile_row hid t (index_by sg_DedupeKey signals)"
  obtain new where es': "es' = map ?row es @ new"
    using reconcile_closed_form[OF assms(2) step_reconcile] by blast
  have "event_later e (?row e)" if "e \<in> set es" for e
    using reconcile_rows_valid[OF assms(2) step_reconcile that]
    by (auto simp: reconcile_row_def event_later_def refresh_def resolve_def unresolved_def
        state_rank_def split: option.splits)
  then have "list_all2 event_later es (map ?row es)"
    by (simp add: list_all2_conv_all_nth)
  moreover have "distinct (map ev_ID es')" "distinct (open_keys es')"
    using reconcile_closed_form[OF assms(2) step_reconcile]
      reconcile_open_keys_distinct[OF assms(2) step_reconcile] by blast+
  moreover have "\<forall>e \<in> set es'. validateEvent e = Inr ()"
    using reconcile_closed_form[OF assms(2) step_reconcile] row_valid[OF assms(2) step_reconcile]
      reconcile_opened_valid[OF assms(2) step_reconcile] by auto
  ultimately show ?thesis by (simp add: es' events_ok_def)
next
  case (step_ack i t e)
  have "list_all2 event_later es es'" using assms(2) step_ack
  proof (cases rule: ack_cases)
    case (2 x)
    have "event_later x e" using 2(3,5) by (simp add: event_later_def state_rank_def)
    then show ?thesis by (auto simp: 2(7) list_all2_conv_all_nth)
  qed (simp add: list_all2_conv_all_nth)
  then show ?thesis
    using ack_invariant[OF assms(2) step_ack] list_all2_lengthD[of event_later es es'] by simp
qed

text \<open>C34. Over any sequence of reconciliations and acknowledgements no event is lost or
  reordered, its identity and first observation never change, its last observation never
  moves back, its state only advances from active over acknowledged to resolved, and a
  resolved event is never changed again.\<close>

theorem event_history:
  assumes "event_step\<^sup>*\<^sup>* es es'" "events_ok es"
  shows "events_ok es' \<and> length es \<le> length es' \<and>
    (\<forall>i < length es. event_later (es ! i) (es' ! i))"
  using assms
proof (induction rule: rtranclp_induct)
  case (step es1 es2)
  then have ih: "events_ok es1" "length es \<le> length es1" "\<forall>i < length es. event_later (es ! i) (es1 ! i)"
    by blast+
  have s: "events_ok es2" "list_all2 event_later es1 (take (length es1) es2)" "length es1 \<le> length es2"
    using event_step_later[OF step.hyps(2) ih(1)] by blast+
  then have "event_later (es1 ! i) (es2 ! i)" if "i < length es1" for i
    using that by (auto simp: list_all2_conv_all_nth)
  then show ?case using ih s event_later_trans by (meson le_trans less_le_trans)
qed simp

section \<open>A concrete table\<close>

definition sample_host_rows :: "host_row list" where
  "sample_host_rows =
     [\<lparr>hr_ID = ''web-2'', hr_Name = ''Web'', hr_PublicHost = [], hr_Configured = True,
       hr_DisplayOrder = 0, hr_CreatedAt = 1, hr_UpdatedAt = 1\<rparr>]"

definition sample_event :: event where
  "sample_event =
     \<lparr>ev_ID = ''evt_1'', ev_HostID = ''web-2'', ev_Kind = ''resource.memory'',
      ev_Severity = SeverityWarning, ev_State = EventActive,
      ev_DedupeKey = ''web-2:resource:memory'', ev_Title = ''memory'', ev_Detail = ''86%'',
      ev_FirstObservedAt = 3, ev_LastObservedAt = 4, ev_AcknowledgedAt = None, ev_ResolvedAt = None\<rparr>"

definition sample_signal :: event_signal where
  "sample_signal =
     \<lparr>sg_HostID = ''web-2'', sg_Kind = ''resource.load'', sg_Severity = SeverityCritical,
      sg_DedupeKey = ''web-2:resource:load'', sg_Title = ''load'', sg_Detail = []\<rparr>"

lemma sample_event_ok: "events_ok [sample_event]"
  by (simp add: events_ok_def validateEvent_ok validateEventState_ok validateEventSignal_ok
      event_signal_of_def sample_event_def valid_identifier_ascii ascii_eval validSeverity_def has_prefix_def)

lemma sample_signal_ok: "validateEventSignal sample_signal = Inr ()"
  by (simp add: validateEventSignal_ok sample_signal_def valid_identifier_ascii ascii_eval
      validSeverity_def has_prefix_def)

lemma sample_ready:
  "reconcile_ready (\<lambda>n. ''evt_2'') sample_host_rows ''web-2'' 9 [sample_signal] [sample_event]"
  by (simp add: reconcile_ready_def sample_signal_ok host_exists_def sample_host_rows_def
      valid_identifier_ascii ascii_eval)
    (simp add: sample_signal_def sample_event_def)

lemma sample_reconciled:
  "\<exists>evs trs. reconcileEventSignals (\<lambda>n. ''evt_2'') sample_host_rows ''web-2'' 9 [sample_signal]
    [sample_event] = Inr (evs, trs)"
  using reconcile_succeeds[OF sample_event_ok sample_ready] .

theorem reconcile_refines_witness:
  "\<exists>evs trs. reconcileEventSignals (\<lambda>n. ''evt_2'') sample_host_rows ''web-2'' 9 [sample_signal]
    [sample_event] = Inr (evs, trs) \<and> map ev_State evs = [EventResolved, EventActive] \<and> length trs = 2"
proof -
  obtain evs trs where r: "reconcileEventSignals (\<lambda>n. ''evt_2'') sample_host_rows ''web-2'' 9 [sample_signal]
    [sample_event] = Inr (evs, trs)" using sample_reconciled by blast
  note c = reconcile_refines[OF sample_event_ok r]
  have k: "new_keys ''web-2'' [sample_signal] [sample_event] = [''web-2:resource:load'']"
    "stale_keys ''web-2'' [sample_signal] [sample_event] = [''web-2:resource:memory'']"
    by (simp_all add: new_keys_def stale_keys_def sorted_keys_def active_rows_def unresolved_def
        sample_signal_def sample_event_def)
  have "unresolved ''web-2'' sample_event"
    "index_by sg_DedupeKey [sample_signal] (ev_DedupeKey sample_event) = None"
    by (simp_all add: unresolved_def index_by_def sample_signal_def sample_event_def)
  then have "map ev_State evs = [EventResolved, EventActive]" "length trs = 2"
    using c unfolding k by (simp_all add: reconcile_row_def resolve_def opened_events_def)
  with r show ?thesis by (intro exI conjI)
qed

theorem reconcile_invariant_witness:
  "\<exists>evs trs. reconcileEventSignals (\<lambda>n. ''evt_2'') sample_host_rows ''web-2'' 9 [sample_signal]
    [sample_event] = Inr (evs, trs) \<and> events_ok evs"
  using sample_reconciled reconcile_invariant[OF sample_event_ok] by blast

theorem reconcile_open_keys_witness:
  "\<exists>evs trs. reconcileEventSignals (\<lambda>n. ''evt_2'') sample_host_rows ''web-2'' 9 [sample_signal]
    [sample_event] = Inr (evs, trs) \<and>
    ev_DedupeKey ` {e \<in> set evs. unresolved ''web-2'' e} = {''web-2:resource:load''}"
proof -
  obtain evs trs where r: "reconcileEventSignals (\<lambda>n. ''evt_2'') sample_host_rows ''web-2'' 9 [sample_signal]
    [sample_event] = Inr (evs, trs)" using sample_reconciled by blast
  show ?thesis using r reconcile_open_keys[OF sample_event_ok r] by (auto simp: sample_signal_def)
qed


definition sample_acked :: event where
  "sample_acked = sample_event\<lparr>ev_State := EventAcknowledged, ev_AcknowledgedAt := Some 8\<rparr>"

lemma sample_acked_valid: "validateEvent sample_acked = Inr ()"
  by (simp add: validateEvent_ok validateEventState_ok validateEventSignal_ok sample_acked_def
      event_signal_of_def sample_event_def valid_identifier_ascii ascii_eval validSeverity_def has_prefix_def)

lemma sample_ack:
  "AcknowledgeEvent ''evt_1'' 8 [sample_event] = Inr (Some (sample_acked, [sample_acked]))"
proof -
  have f: "filter (\<lambda>e. ev_ID e = ''evt_1'') [sample_event] = [sample_event]"
    by (simp add: sample_event_def)
  have l: "loadEvents [sample_event] = Inr [sample_event]"
    using sample_event_ok by (simp add: loadEvents_def events_ok_def)
  have s: "ev_State sample_event = EventActive" "ev_FirstObservedAt sample_event = 3" "ev_ID sample_event = ''evt_1''"
    by (simp_all add: sample_event_def)
  have g: "\<not> (trim_space ''evt_1'' = [] \<or> length ''evt_1'' > 128 \<or> (8::int) = 0)"
    by (simp add: ascii_eval)
  show ?thesis
    unfolding AcknowledgeEvent_def f l if_not_P[OF g]
    using sample_acked_valid by (simp add: s Let_def flip: sample_acked_def) (simp add: s sample_acked_def)
qed

theorem reconcile_rejects_late_ack_witness:
  "\<exists>err. reconcileEventSignals (\<lambda>n. ''evt_2'') sample_host_rows ''web-2'' 7 [] [sample_acked] = Inl err"
proof (rule reconcile_rejects_late_ack)
  show "events_ok [sample_acked]" using ack_invariant[OF sample_event_ok sample_ack] by blast
  show "unresolved ''web-2'' sample_acked" "ev_AcknowledgedAt sample_acked = Some 8"
    by (simp_all add: unresolved_def sample_acked_def sample_event_def)
qed simp_all

theorem acknowledge_idempotent_witness:
  "AcknowledgeEvent ''evt_1'' 8 [sample_event] = Inr (Some (sample_acked, [sample_acked])) \<and>
    AcknowledgeEvent ''evt_1'' 12 [sample_acked] = Inr (Some (sample_acked, [sample_acked]))"
  using sample_ack acknowledge_idempotent[OF sample_event_ok sample_ack, of 12] by simp

theorem event_history_witness:
  "event_step\<^sup>*\<^sup>* [sample_event] [sample_acked] \<and> event_later sample_event sample_acked"
proof -
  have s: "event_step\<^sup>*\<^sup>* [sample_event] [sample_acked]"
    using step_ack[OF sample_ack] by blast
  show ?thesis using s event_history[OF s sample_event_ok] by simp
qed

end
