(* ===== verification/Outbox.thy ===== *)
theory Outbox
  imports Event_Store
begin

text \<open>
  The durable notification outbox of \<^verbatim>\<open>internal/storage/notifications.go\<close>: the rows that
  the transitions of a reconciliation enqueue (\<^verbatim>\<open>enqueueEventNotificationsTx\<close>), the lease
  a worker takes (\<^verbatim>\<open>ClaimEventNotification\<close>) and the two ways it ends
  (\<^verbatim>\<open>MarkEventNotificationDelivered\<close>, \<^verbatim>\<open>RetryEventNotification\<close>).
\<close>

abbreviation (input) "NbPending \<equiv> ''pending''"
abbreviation (input) "NbSending \<equiv> ''sending''"
abbreviation (input) "NbDelivered \<equiv> ''delivered''"
abbreviation (input) "NbCancelled \<equiv> ''cancelled''"
abbreviation (input) "NbFailed \<equiv> ''failed''"

section \<open>Channel policies\<close>

record notification_policy =
  np_Channel :: string
  np_Cooldown :: duration

definition maximumNotificationCooldown :: duration where
  "maximumNotificationCooldown = 24 * hour"

definition validateNotificationPolicy :: "notification_policy \<Rightarrow> go_error + unit" where
  "validateNotificationPolicy p =
     andThen (guard ''notification channel is invalid''
        (trim_space (np_Channel p) = [] \<or> length (np_Channel p) > 64))
     (\<lambda>_. andThen (guard ''notification channel contains control characters'' (containsControl (np_Channel p)))
     (\<lambda>_. guard ''notification cooldown must be between 0 and 24 hours''
        (np_Cooldown p < 0 \<or> np_Cooldown p > maximumNotificationCooldown)))"

definition validateNotificationPolicies :: "notification_policy list \<Rightarrow> go_error + unit" where
  "validateNotificationPolicies ps =
     check_distinct ''duplicate notification channel'' np_Channel validateNotificationPolicy (\<lambda>_. Inr ()) [] ps"

section \<open>Enqueueing\<close>

text \<open>\<^verbatim>\<open>max(delivered_at)\<close> of the opened notifications a channel delivered for a key.\<close>

definition delivered_times :: "string \<Rightarrow> string \<Rightarrow> outbox_row list \<Rightarrow> time list" where
  "delivered_times channel key rows =
     List.map_filter nb_DeliveredAt (filter (\<lambda>r. nb_Channel r = channel \<and> nb_DedupeKey r = key
        \<and> nb_Transition r = EventOpened \<and> nb_State r = NbDelivered) rows)"

definition last_delivered :: "string \<Rightarrow> string \<Rightarrow> outbox_row list \<Rightarrow> time option" where
  "last_delivered channel key rows =
     (case delivered_times channel key rows of [] \<Rightarrow> None | t # ts \<Rightarrow> Some (fold max ts t))"

text \<open>\<^verbatim>\<open>INTEGER PRIMARY KEY\<close>: one more than the largest identifier.\<close>

definition next_row_id :: "outbox_row list \<Rightarrow> int" where
  "next_row_id rows = 1 + fold max (map nb_ID rows) 0"

definition pending_row ::
  "int \<Rightarrow> event_transition_type \<Rightarrow> string \<Rightarrow> event \<Rightarrow> time \<Rightarrow> time \<Rightarrow> outbox_row" where
  "pending_row i tr channel e notBefore createdAt =
     \<lparr>nb_ID = i, nb_EventID = ev_ID e, nb_Transition = tr, nb_Channel = channel,
      nb_DedupeKey = ev_DedupeKey e, nb_State = NbPending, nb_AttemptCount = 0,
      nb_NotBefore = notBefore, nb_NextAttemptAt = notBefore, nb_LastErrorKind = [],
      nb_CreatedAt = createdAt, nb_DeliveredAt = None\<rparr>"

text \<open>\<^verbatim>\<open>INSERT ... ON CONFLICT(event_id, transition, channel) DO NOTHING\<close>, with the reference
  to the event.\<close>

definition insert_pending ::
  "event list \<Rightarrow> event_transition_type \<Rightarrow> string \<Rightarrow> event \<Rightarrow> time \<Rightarrow> time \<Rightarrow> outbox_row list
   \<Rightarrow> go_error + outbox_row list" where
  "insert_pending events tr channel e notBefore createdAt rows =
     (if list_ex (\<lambda>r. nb_EventID r = ev_ID e \<and> nb_Transition r = tr \<and> nb_Channel r = channel) rows
      then Inr rows
      else if \<not> list_ex (\<lambda>x. ev_ID x = ev_ID e) events then Inl ''FOREIGN KEY constraint failed''
      else Inr (rows @ [pending_row (next_row_id rows) tr channel e notBefore createdAt]))"

definition opened_not_before ::
  "notification_policy \<Rightarrow> event \<Rightarrow> time \<Rightarrow> outbox_row list \<Rightarrow> time" where
  "opened_not_before p e createdAt rows =
     (if np_Cooldown p > 0 then
        (case last_delivered (np_Channel p) (ev_DedupeKey e) rows of
           None \<Rightarrow> createdAt
         | Some latest \<Rightarrow>
             (if latest + np_Cooldown p > createdAt then latest + np_Cooldown p else createdAt))
      else createdAt)"

definition open_notification :: "string \<Rightarrow> string \<Rightarrow> outbox_row \<Rightarrow> bool" where
  "open_notification eid channel r =
     (nb_EventID r = eid \<and> nb_Transition r = EventOpened \<and> nb_Channel r = channel)"

definition enqueue_one ::
  "event list \<Rightarrow> time \<Rightarrow> event_transition \<times> notification_policy \<Rightarrow> outbox_row list
   \<Rightarrow> go_error + outbox_row list" where
  "enqueue_one events createdAt tp rows =
     (let (transition, p) = tp; e = tr_Event transition in
      if tr_Type transition = EventOpened then
        insert_pending events EventOpened (np_Channel p) e (opened_not_before p e createdAt rows) createdAt rows
      else if tr_Type transition = EventRecovered then
        (let stale = (\<lambda>r. open_notification (ev_ID e) (np_Channel p) r \<and> nb_State r = NbPending) in
         if affected stale rows > 0
         then Inr (update_where stale (\<lambda>r. r\<lparr>nb_State := NbCancelled, nb_LastErrorKind := []\<rparr>) rows)
         else if affected (\<lambda>r. open_notification (ev_ID e) (np_Channel p) r
                \<and> nb_State r \<in> {NbSending, NbDelivered}) rows = 0 then Inr rows
         else insert_pending events EventRecovered (np_Channel p) e createdAt createdAt rows)
      else Inl ''unsupported event transition'')"

definition enqueueEventNotifications ::
  "event list \<Rightarrow> event_transition list \<Rightarrow> notification_policy list \<Rightarrow> time \<Rightarrow> outbox_row list
   \<Rightarrow> go_error + outbox_row list" where
  "enqueueEventNotifications events transitions policies createdAt rows =
     each (enqueue_one events createdAt) (List.product transitions policies) rows"

section \<open>The worker's side\<close>

definition due :: "string \<Rightarrow> time \<Rightarrow> outbox_row \<Rightarrow> bool" where
  "due channel now r =
     (nb_Channel r = channel \<and> nb_State r \<in> {NbPending, NbSending} \<and> nb_NextAttemptAt r \<le> now)"

text \<open>\<^verbatim>\<open>ORDER BY next_attempt_at, id LIMIT 1\<close>.\<close>

definition first_due :: "string \<Rightarrow> time \<Rightarrow> outbox_row list \<Rightarrow> outbox_row option" where
  "first_due channel now rows =
     (case sort_key nb_NextAttemptAt (sort_key nb_ID (filter (due channel now) rows)) of
        [] \<Rightarrow> None | r # _ \<Rightarrow> Some r)"

definition ClaimEventNotification ::
  "string \<Rightarrow> time \<Rightarrow> time \<Rightarrow> event list \<Rightarrow> outbox_row list
   \<Rightarrow> go_error + (event_notification_delivery option \<times> outbox_row list)" where
  "ClaimEventNotification channel now leaseUntil events rows =
     andThen (validateNotificationPolicies [\<lparr>np_Channel = channel, np_Cooldown = 0\<rparr>])
     (\<lambda>_. andThen (guard ''notification lease is invalid'' (now = 0 \<or> \<not> now < leaseUntil))
     (\<lambda>_. case first_due channel now rows of
        None \<Rightarrow> Inr (None, rows)
      | Some r \<Rightarrow>
          let attempt = nb_AttemptCount r + 1;
              mine = (\<lambda>x. nb_ID x = nb_ID r \<and> nb_State x \<in> {NbPending, NbSending}
                        \<and> nb_NextAttemptAt x \<le> now) in
          if affected mine rows \<noteq> 1 then Inl ''notification lease was lost''
          else andThen (loadEvents (filter (\<lambda>e. ev_ID e = nb_EventID r) events))
            (\<lambda>es. if length es \<noteq> 1 then Inl ''notification event is missing''
              else Inr (Some \<lparr>nd_ID = nb_ID r, nd_Channel = channel, nd_Transition = nb_Transition r,
                              nd_Event = hd es, nd_Attempt = attempt\<rparr>,
                        update_where mine (\<lambda>x. x\<lparr>nb_State := NbSending, nb_AttemptCount := attempt,
                          nb_NextAttemptAt := leaseUntil, nb_LastErrorKind := []\<rparr>) rows))))"

definition leased :: "int \<Rightarrow> outbox_row \<Rightarrow> bool" where
  "leased i r = (nb_ID r = i \<and> nb_State r = NbSending)"

definition MarkEventNotificationDelivered ::
  "int \<Rightarrow> time \<Rightarrow> outbox_row list \<Rightarrow> go_error + outbox_row list" where
  "MarkEventNotificationDelivered i deliveredAt rows =
     andThen (guard ''delivered notification is invalid'' (i < 1 \<or> deliveredAt = 0))
     (\<lambda>_. andThen (guard ''notification is not leased'' (affected (leased i) rows \<noteq> 1))
     (\<lambda>_. Inr (update_where (leased i) (\<lambda>r. r\<lparr>nb_State := NbDelivered,
        nb_DeliveredAt := Some deliveredAt, nb_NextAttemptAt := deliveredAt, nb_LastErrorKind := []\<rparr>) rows)))"

definition RetryEventNotification ::
  "int \<Rightarrow> time \<Rightarrow> string \<Rightarrow> bool \<Rightarrow> outbox_row list \<Rightarrow> go_error + outbox_row list" where
  "RetryEventNotification i nextAttempt errorKind terminal rows =
     andThen (guard ''notification retry is invalid''
        (i < 1 \<or> nextAttempt = 0 \<or> trim_space errorKind = [] \<or> length errorKind > 64))
     (\<lambda>_. andThen (guard ''notification error kind contains control characters'' (containsControl errorKind))
     (\<lambda>_. andThen (guard ''notification is not leased'' (affected (leased i) rows \<noteq> 1))
     (\<lambda>_. Inr (update_where (leased i) (\<lambda>r. r\<lparr>
        nb_State := (if terminal then NbFailed else NbPending),
        nb_NextAttemptAt := nextAttempt, nb_LastErrorKind := errorKind\<rparr>) rows))))"

section \<open>Sequences of operations\<close>

text \<open>Every operation runs in a transaction of its own, so one that fails leaves the rows as
  they were.\<close>

datatype outbox_op =
    OEnqueue "event list" "event_transition list" "notification_policy list" time
  | OClaim string time time "event list"
  | OMark int time
  | ORetry int time string bool

fun outbox_exec :: "outbox_op \<Rightarrow> outbox_row list \<Rightarrow> go_error + outbox_row list" where
  "outbox_exec (OEnqueue events trs ps t) rows = enqueueEventNotifications events trs ps t rows"
| "outbox_exec (OClaim channel now leaseUntil events) rows =
     andThen (ClaimEventNotification channel now leaseUntil events rows) (\<lambda>(_, rows'). Inr rows')"
| "outbox_exec (OMark i t) rows = MarkEventNotificationDelivered i t rows"
| "outbox_exec (ORetry i t kind terminal) rows = RetryEventNotification i t kind terminal rows"

definition outbox_apply :: "outbox_op \<Rightarrow> outbox_row list \<Rightarrow> outbox_row list" where
  "outbox_apply p rows = (case outbox_exec p rows of Inl _ \<Rightarrow> rows | Inr rows' \<Rightarrow> rows')"

definition outbox_run :: "outbox_op list \<Rightarrow> outbox_row list \<Rightarrow> outbox_row list" where
  "outbox_run ops rows = fold outbox_apply ops rows"

section \<open>The invariant of the outbox\<close>

definition nb_slot :: "outbox_row \<Rightarrow> string \<times> string \<times> string" where
  "nb_slot r = (nb_EventID r, nb_Transition r, nb_Channel r)"

definition row_ok :: "outbox_row \<Rightarrow> bool" where
  "row_ok r =
     (1 \<le> nb_ID r \<and> nb_Transition r \<in> {EventOpened, EventRecovered}
      \<and> nb_State r \<in> {NbPending, NbSending, NbDelivered, NbCancelled, NbFailed}
      \<and> 0 \<le> nb_AttemptCount r
      \<and> (nb_State r \<in> {NbSending, NbDelivered, NbFailed} \<longrightarrow> 1 \<le> nb_AttemptCount r)
      \<and> (nb_State r = NbDelivered \<longleftrightarrow> nb_DeliveredAt r \<noteq> None))"

text \<open>A recovery is announced only on a channel that was sent the opening at least once.\<close>

definition recovery_ok :: "outbox_row list \<Rightarrow> bool" where
  "recovery_ok rows =
     (\<forall>r \<in> set rows. nb_Transition r = EventRecovered \<longrightarrow>
        (\<exists>q \<in> set rows. open_notification (nb_EventID r) (nb_Channel r) q \<and> 1 \<le> nb_AttemptCount q))"

definition outbox_ok :: "outbox_row list \<Rightarrow> bool" where
  "outbox_ok rows =
     (distinct (map nb_ID rows) \<and> distinct (map nb_slot rows) \<and> (\<forall>r \<in> set rows. row_ok r)
      \<and> recovery_ok rows)"

definition row_later :: "outbox_row \<Rightarrow> outbox_row \<Rightarrow> bool" where
  "row_later r r' =
     (nb_ID r' = nb_ID r \<and> nb_slot r' = nb_slot r \<and> nb_DedupeKey r' = nb_DedupeKey r
      \<and> nb_NotBefore r' = nb_NotBefore r \<and> nb_CreatedAt r' = nb_CreatedAt r
      \<and> nb_AttemptCount r \<le> nb_AttemptCount r'
      \<and> (nb_State r \<in> {NbDelivered, NbCancelled, NbFailed} \<longrightarrow> r' = r))"

lemma row_later_refl [simp]: "row_later r r"
  by (simp add: row_later_def)

lemma row_later_trans: "row_later a b \<Longrightarrow> row_later b c \<Longrightarrow> row_later a c"
  by (auto simp: row_later_def)

text \<open>An operation rewrites rows in place.\<close>

lemma rewrite_ok:
  assumes ok: "outbox_ok rows"
    and f: "\<And>r. r \<in> set rows \<Longrightarrow> row_later r (f r) \<and> row_ok (f r)"
  shows "outbox_ok (map f rows)"
proof -
  have ids: "map nb_ID (map f rows) = map nb_ID rows" "map nb_slot (map f rows) = map nb_slot rows"
    using f by (simp_all add: row_later_def)
  have "\<forall>r \<in> set (map f rows). row_ok r" using f by auto
  moreover have "recovery_ok (map f rows)"
    unfolding recovery_ok_def
  proof (intro ballI impI)
    fix r' assume "r' \<in> set (map f rows)" and rec: "nb_Transition r' = EventRecovered"
    then obtain r where r: "r \<in> set rows" "r' = f r" by auto
    then have slot: "nb_Transition r = EventRecovered" "nb_EventID r' = nb_EventID r" "nb_Channel r' = nb_Channel r"
      using f[OF r(1)] rec by (auto simp: row_later_def nb_slot_def)
    then obtain q where q: "q \<in> set rows" "open_notification (nb_EventID r) (nb_Channel r) q"
      "1 \<le> nb_AttemptCount q"
      using ok r(1) unfolding outbox_ok_def recovery_ok_def by blast
    have "open_notification (nb_EventID r') (nb_Channel r') (f q)" "1 \<le> nb_AttemptCount (f q)"
      using f[OF q(1)] q slot by (auto simp: row_later_def nb_slot_def open_notification_def)
    then show "\<exists>q \<in> set (map f rows). open_notification (nb_EventID r') (nb_Channel r') q \<and> 1 \<le> nb_AttemptCount q"
      using q(1) by auto
  qed
  ultimately show ?thesis using ok unfolding outbox_ok_def ids by blast
qed

lemma fold_max_ge: "(a::int) \<le> fold max xs a \<and> (\<forall>x \<in> set xs. x \<le> fold max xs a)"
proof (induction xs arbitrary: a)
  case (Cons x xs)
  from Cons.IH[of "max x a"] show ?case by auto
qed simp

lemma next_row_id_new: "r \<in> set rows \<Longrightarrow> nb_ID r < next_row_id rows" "1 \<le> next_row_id rows"
  using fold_max_ge[of 0 "map nb_ID rows"] by (force simp: next_row_id_def)+

lemma insert_pending_ok:
  assumes i: "insert_pending events tr channel e nbf t rows = Inr rows'" and ok: "outbox_ok rows"
    and tr: "tr \<in> {EventOpened, EventRecovered}"
    and rec: "tr = EventRecovered \<Longrightarrow>
      \<exists>q \<in> set rows. open_notification (ev_ID e) channel q \<and> 1 \<le> nb_AttemptCount q"
  shows "outbox_ok rows' \<and> (\<exists>new. rows' = rows @ new)"
proof (cases "list_ex (\<lambda>r. nb_EventID r = ev_ID e \<and> nb_Transition r = tr \<and> nb_Channel r = channel) rows")
  case True
  then show ?thesis using i ok by (simp add: insert_pending_def)
next
  case False
  let ?r = "pending_row (next_row_id rows) tr channel e nbf t"
  have rows': "rows' = rows @ [?r]"
    using i unfolding insert_pending_def if_not_P[OF False] by (auto split: if_splits)
  have "nb_slot ?r \<notin> nb_slot ` set rows"
    using False by (auto simp: list_ex_iff nb_slot_def pending_row_def)
  moreover have "nb_ID ?r \<notin> nb_ID ` set rows"
    using next_row_id_new(1)[of _ rows] by (fastforce simp: pending_row_def)
  moreover have "row_ok ?r" using tr next_row_id_new(2)[of rows] by (auto simp: row_ok_def pending_row_def)
  moreover have "recovery_ok (rows @ [?r])"
    using ok rec unfolding outbox_ok_def recovery_ok_def
    by (auto simp: pending_row_def open_notification_def)
  ultimately show ?thesis using ok by (simp add: rows' outbox_ok_def)
qed

lemma update_rewrite: "update_where p g rows = map (\<lambda>r. if p r then g r else r) rows"
  by (simp add: update_where_def)

text \<open>What one operation does: it rewrites rows in place and appends rows.\<close>

definition outbox_progress :: "outbox_row list \<Rightarrow> outbox_row list \<Rightarrow> bool" where
  "outbox_progress rows rows' =
     (length rows \<le> length rows' \<and> (\<forall>i < length rows. row_later (rows ! i) (rows' ! i)))"

lemma outbox_progress_refl [simp]: "outbox_progress rows rows"
  by (simp add: outbox_progress_def)

lemma outbox_progress_trans:
  "outbox_progress a b \<Longrightarrow> outbox_progress b c \<Longrightarrow> outbox_progress a c"
  unfolding outbox_progress_def by (meson le_trans less_le_trans row_later_trans)

lemma outbox_progress_append: "outbox_progress rows (rows @ new)"
  by (simp add: outbox_progress_def nth_append)

lemma outbox_progress_map:
  "(\<And>r. r \<in> set rows \<Longrightarrow> row_later r (f r)) \<Longrightarrow> outbox_progress rows (map f rows)"
  by (simp add: outbox_progress_def)

lemma update_progress:
  assumes ok: "outbox_ok rows" and g: "\<And>r. r \<in> set rows \<Longrightarrow> p r \<Longrightarrow> row_later r (g r) \<and> row_ok (g r)"
  shows "outbox_ok (update_where p g rows) \<and> outbox_progress rows (update_where p g rows)"
proof -
  have "row_later r (if p r then g r else r) \<and> row_ok (if p r then g r else r)" if "r \<in> set rows" for r
    using g that ok by (simp add: outbox_ok_def)
  then show ?thesis unfolding update_rewrite
    by (intro conjI rewrite_ok[OF ok] outbox_progress_map) auto
qed

lemma row_of_ok: "outbox_ok rows \<Longrightarrow> r \<in> set rows \<Longrightarrow> row_ok r"
  by (simp add: outbox_ok_def)

lemma enqueue_one_progress:
  assumes e: "enqueue_one events t tp rows = Inr rows'" and ok: "outbox_ok rows"
  shows "outbox_ok rows' \<and> outbox_progress rows rows'"
proof -
  obtain tr p where tp: "tp = (tr, p)" by (cases tp)
  let ?e = "tr_Event tr" and ?ch = "np_Channel p"
  let ?stale = "\<lambda>r. open_notification (ev_ID ?e) ?ch r \<and> nb_State r = NbPending"
  consider (opened) "tr_Type tr = EventOpened"
      "insert_pending events EventOpened ?ch ?e (opened_not_before p ?e t rows) t rows = Inr rows'"
    | (cancelled) "rows' = update_where ?stale (\<lambda>r. r\<lparr>nb_State := NbCancelled, nb_LastErrorKind := []\<rparr>) rows"
    | (silent) "rows' = rows"
    | (recovered) "affected (\<lambda>r. open_notification (ev_ID ?e) ?ch r \<and> nb_State r \<in> {NbSending, NbDelivered}) rows \<noteq> 0"
      "insert_pending events EventRecovered ?ch ?e t t rows = Inr rows'"
    using e by (auto simp: enqueue_one_def tp Let_def split: if_splits)
  then show ?thesis
  proof cases
    case opened
    have "outbox_ok rows' \<and> (\<exists>new. rows' = rows @ new)"
      by (rule insert_pending_ok[OF opened(2) ok]) auto
    then show ?thesis using outbox_progress_append by blast
  next
    case cancelled
    show ?thesis unfolding cancelled
      by (rule update_progress[OF ok]) (auto simp: row_later_def nb_slot_def row_ok_def dest!: row_of_ok[OF ok])
  next
    case silent
    then show ?thesis using ok by simp
  next
    case recovered
    then obtain q where "q \<in> set rows" "open_notification (ev_ID ?e) ?ch q" "nb_State q \<in> {NbSending, NbDelivered}"
      unfolding affected_0 by blast
    moreover from this have "1 \<le> nb_AttemptCount q"
      using row_of_ok[OF ok] by (auto simp: row_ok_def)
    ultimately have "outbox_ok rows' \<and> (\<exists>new. rows' = rows @ new)"
      by (intro insert_pending_ok[OF recovered(2) ok]) auto
    then show ?thesis using outbox_progress_append by blast
  qed
qed

lemma first_due_props:
  assumes "first_due channel now rows = Some r"
  shows "r \<in> set rows \<and> due channel now r \<and>
    (\<forall>x \<in> set rows. due channel now x \<longrightarrow> nb_NextAttemptAt r \<le> nb_NextAttemptAt x)"
proof -
  define L where "L = sort_key nb_NextAttemptAt (sort_key nb_ID (filter (due channel now) rows))"
  obtain rest where L: "L = r # rest"
    using assms by (auto simp: first_due_def L_def split: list.splits)
  have sL: "set L = {x \<in> set rows. due channel now x}" by (simp add: L_def)
  have "sorted (map nb_NextAttemptAt L)" by (simp add: L_def)
  then have "\<forall>x \<in> set L. nb_NextAttemptAt r \<le> nb_NextAttemptAt x" by (auto simp: L)
  moreover have "r \<in> set L" by (simp add: L)
  ultimately show ?thesis unfolding sL by blast
qed

lemma claim_cases:
  assumes c: "ClaimEventNotification channel now lu events rows = Inr (d, rows')"
    and dist: "distinct (map nb_ID rows)"
  obtains "d = None" "rows' = rows"
  | r e where "first_due channel now rows = Some r" "now < lu" "e \<in> set events" "ev_ID e = nb_EventID r"
    "d = Some \<lparr>nd_ID = nb_ID r, nd_Channel = channel, nd_Transition = nb_Transition r, nd_Event = e,
       nd_Attempt = nb_AttemptCount r + 1\<rparr>"
    "rows' = map (\<lambda>x. if x = r then r\<lparr>nb_State := NbSending, nb_AttemptCount := nb_AttemptCount r + 1,
       nb_NextAttemptAt := lu, nb_LastErrorKind := []\<rparr> else x) rows"
proof (cases "first_due channel now rows")
  case None
  then show ?thesis using c that(1) by (simp add: ClaimEventNotification_def andThen_ok)
next
  case (Some r)
  note r = first_due_props[OF Some]
  let ?mine = "\<lambda>x. nb_ID x = nb_ID r \<and> nb_State x \<in> {NbPending, NbSending} \<and> nb_NextAttemptAt x \<le> now"
  obtain es where es: "loadEvents (filter (\<lambda>e. ev_ID e = nb_EventID r) events) = Inr es" "length es = 1"
    and d: "d = Some \<lparr>nd_ID = nb_ID r, nd_Channel = channel, nd_Transition = nb_Transition r,
       nd_Event = hd es, nd_Attempt = nb_AttemptCount r + 1\<rparr>"
    and rows': "rows' = update_where ?mine (\<lambda>x. x\<lparr>nb_State := NbSending,
       nb_AttemptCount := nb_AttemptCount r + 1, nb_NextAttemptAt := lu, nb_LastErrorKind := []\<rparr>) rows"
    and lu: "now < lu"
    using c Some by (auto simp: ClaimEventNotification_def andThen_ok Let_def split: if_splits)
  obtain e where es1: "es = [e]" using es(2) by (cases es) auto
  have flt: "filter (\<lambda>e. ev_ID e = nb_EventID r) events = [e]"
    using es(1) es1 by (auto simp: loadEvents_def andThen_ok)
  have "e \<in> set (filter (\<lambda>e. ev_ID e = nb_EventID r) events)" by (simp add: flt)
  then have e: "e \<in> set events" "ev_ID e = nb_EventID r" "hd es = e" by (simp_all add: es1)
  have "inj_on nb_ID (set rows)" using dist by (simp add: distinct_map)
  then have "?mine x \<longleftrightarrow> x = r" if "x \<in> set rows" for x
    using r that by (auto simp: due_def dest: inj_onD)
  then have "rows' = map (\<lambda>x. if x = r then r\<lparr>nb_State := NbSending, nb_AttemptCount := nb_AttemptCount r + 1,
       nb_NextAttemptAt := lu, nb_LastErrorKind := []\<rparr> else x) rows"
    unfolding rows' update_rewrite by (intro map_cong) auto
  then show ?thesis using that(2)[OF Some lu e(1,2)] d e(3) by simp
qed

lemma replace_progress:
  assumes ok: "outbox_ok rows" and "row_later r r'" "row_ok r'"
  shows "outbox_ok (map (\<lambda>x. if x = r then r' else x) rows)
    \<and> outbox_progress rows (map (\<lambda>x. if x = r then r' else x) rows)"
proof -
  have f: "row_later x (if x = r then r' else x) \<and> row_ok (if x = r then r' else x)" if "x \<in> set rows" for x
    using that assms by (simp add: outbox_ok_def)
  show ?thesis using f by (intro conjI rewrite_ok[OF ok] outbox_progress_map) auto
qed

lemma due_row_claimed:
  assumes "row_ok r" "due channel now r"
  shows "row_later r (r\<lparr>nb_State := NbSending, nb_AttemptCount := nb_AttemptCount r + 1,
       nb_NextAttemptAt := lu, nb_LastErrorKind := []\<rparr>)
    \<and> row_ok (r\<lparr>nb_State := NbSending, nb_AttemptCount := nb_AttemptCount r + 1,
       nb_NextAttemptAt := lu, nb_LastErrorKind := []\<rparr>)"
proof -
  consider "nb_State r = NbPending" | "nb_State r = NbSending" using assms(2) by (auto simp: due_def)
  then show ?thesis using assms(1) by cases (simp_all add: row_later_def row_ok_def nb_slot_def)
qed

lemma outbox_exec_progress:
  assumes x: "outbox_exec p rows = Inr rows'" and ok: "outbox_ok rows"
  shows "outbox_ok rows' \<and> outbox_progress rows rows'"
proof (cases p)
  case (OEnqueue events trs ps t)
  have "each (enqueue_one events t) (List.product trs ps) rows = Inr rows'"
    using x OEnqueue by (simp add: enqueueEventNotifications_def)
  then show ?thesis
  proof (rule each_inv[where I = "\<lambda>r. outbox_ok r \<and> outbox_progress rows r"])
    show "outbox_ok rows \<and> outbox_progress rows rows" using ok by simp
  qed (use enqueue_one_progress outbox_progress_trans in blast)
next
  case (OClaim channel now lu events)
  then obtain d where c: "ClaimEventNotification channel now lu events rows = Inr (d, rows')"
    using x by (auto simp: andThen_ok)
  have dist: "distinct (map nb_ID rows)" using ok by (simp add: outbox_ok_def)
  from c dist show ?thesis
  proof (cases rule: claim_cases)
    case 1
    then show ?thesis using ok by simp
  next
    case (2 r e)
    have r: "r \<in> set rows" "due channel now r" using first_due_props[OF 2(1)] by blast+
    show ?thesis unfolding 2(6)
      using replace_progress[OF ok] due_row_claimed[OF row_of_ok[OF ok r(1)] r(2), of lu] by blast
  qed
next
  case (OMark i t)
  then have rows': "rows' = update_where (leased i) (\<lambda>r. r\<lparr>nb_State := NbDelivered,
        nb_DeliveredAt := Some t, nb_NextAttemptAt := t, nb_LastErrorKind := []\<rparr>) rows"
    using x by (auto simp: MarkEventNotificationDelivered_def andThen_ok)
  show ?thesis unfolding rows'
    by (rule update_progress[OF ok])
       (auto simp: leased_def row_later_def nb_slot_def row_ok_def dest!: row_of_ok[OF ok])
next
  case (ORetry i t kind terminal)
  then have rows': "rows' = update_where (leased i) (\<lambda>r. r\<lparr>
        nb_State := (if terminal then NbFailed else NbPending),
        nb_NextAttemptAt := t, nb_LastErrorKind := kind\<rparr>) rows"
    using x by (auto simp: RetryEventNotification_def andThen_ok)
  show ?thesis unfolding rows'
    by (rule update_progress[OF ok])
       (auto simp: leased_def row_later_def nb_slot_def row_ok_def dest!: row_of_ok[OF ok])
qed

lemma outbox_apply_progress:
  "outbox_ok rows \<Longrightarrow> outbox_ok (outbox_apply p rows) \<and> outbox_progress rows (outbox_apply p rows)"
  using outbox_exec_progress[of p rows] by (auto simp: outbox_apply_def split: sum.splits)

lemma outbox_run_progress:
  "outbox_ok rows \<Longrightarrow> outbox_ok (outbox_run ops rows) \<and> outbox_progress rows (outbox_run ops rows)"
  unfolding outbox_run_def
proof (induction ops arbitrary: rows)
  case (Cons p ops)
  then show ?case using outbox_apply_progress[OF Cons.prems, of p] outbox_progress_trans by fastforce
qed simp

lemma outbox_ok_Nil: "outbox_ok []"
  by (simp add: outbox_ok_def recovery_ok_def)

text \<open>Whatever transactions run, the outbox holds at most one row per event, transition
  and channel, and a recovery is queued only on a channel whose opening was handed to the
  network at least once.\<close>

theorem outbox_invariant:
  "outbox_ok (outbox_run ops [])"
  using outbox_run_progress[OF outbox_ok_Nil] by blast

text \<open>C35. Over any sequence of transactions no row disappears, a row keeps its identity, its
  attempts never decrease, and a delivered, cancelled or failed row is never touched again.\<close>

theorem outbox_history:
  "list_all2 row_later (outbox_run ops [])
     (take (length (outbox_run ops [])) (outbox_run (ops @ ops') []))"
proof -
  have "outbox_run (ops @ ops') [] = outbox_run ops' (outbox_run ops [])" by (simp add: outbox_run_def)
  then show ?thesis
    using outbox_run_progress[of "outbox_run ops []" ops'] outbox_run_progress[OF outbox_ok_Nil, of ops]
    by (auto simp: outbox_progress_def list_all2_conv_all_nth)
qed

section \<open>Leases\<close>

text \<open>An operation that may end or renew the lease of a row before the given instant.\<close>

fun respects_lease :: "int \<Rightarrow> time \<Rightarrow> outbox_op \<Rightarrow> bool" where
  "respects_lease i until (OEnqueue _ _ _ _) = True"
| "respects_lease i until (OClaim _ now _ _) = (now < until)"
| "respects_lease i until (OMark j _) = (j \<noteq> i)"
| "respects_lease i until (ORetry j _ _ _) = (j \<noteq> i)"

definition leased_until :: "int \<Rightarrow> time \<Rightarrow> outbox_row list \<Rightarrow> bool" where
  "leased_until i until rows =
     (\<exists>r \<in> set rows. nb_ID r = i \<and> nb_State r = NbSending \<and> nb_NextAttemptAt r = until)"

lemma leased_until_update:
  assumes "leased_until i until rows" "\<And>r. nb_ID r = i \<Longrightarrow> nb_State r = NbSending \<Longrightarrow> \<not> p r"
  shows "leased_until i until (update_where p g rows)"
  using assms unfolding leased_until_def by (fastforce simp: set_update_where)

lemma leased_until_append: "leased_until i until rows \<Longrightarrow> leased_until i until (rows @ new)"
  by (auto simp: leased_until_def)

lemma enqueue_one_leased:
  assumes "enqueue_one events t tp rows = Inr rows'" "leased_until i until rows"
  shows "leased_until i until rows'"
proof -
  have ins: "insert_pending events tr ch e nbf t rows = Inr rows' \<Longrightarrow> leased_until i until rows'" for tr ch e nbf
    using assms(2) by (auto simp: insert_pending_def leased_until_append split: if_splits)
  show ?thesis
    using assms by (auto simp: enqueue_one_def Let_def intro: ins intro!: leased_until_update
        split: if_splits prod.splits)
qed

lemma leased_row_not_due:
  assumes "outbox_ok rows" "leased_until i until rows" "now < until" "r \<in> set rows" "due channel now r"
  shows "nb_ID r \<noteq> i"
proof
  assume "nb_ID r = i"
  moreover obtain q where "q \<in> set rows" "nb_ID q = i" "nb_NextAttemptAt q = until"
    using assms(2) by (auto simp: leased_until_def)
  moreover have "inj_on nb_ID (set rows)" using assms(1) by (simp add: outbox_ok_def distinct_map)
  ultimately have "r = q" using assms(4) by (auto dest: inj_onD)
  then show False using assms(3,5) \<open>nb_NextAttemptAt q = until\<close> by (simp add: due_def)
qed

lemma outbox_exec_leased:
  assumes ok: "outbox_ok rows" and l: "leased_until i until rows" and r: "respects_lease i until p"
    and x: "outbox_exec p rows = Inr rows'"
  shows "leased_until i until rows'"
proof (cases p)
  case (OEnqueue events trs ps t)
  have "each (enqueue_one events t) (List.product trs ps) rows = Inr rows'"
    using x OEnqueue by (simp add: enqueueEventNotifications_def)
  then show ?thesis
    by (rule each_inv[where I = "leased_until i until"]) (use l enqueue_one_leased in blast)+
next
  case (OClaim channel now lu events)
  then obtain d where c: "ClaimEventNotification channel now lu events rows = Inr (d, rows')"
    using x by (auto simp: andThen_ok)
  have dist: "distinct (map nb_ID rows)" using ok by (simp add: outbox_ok_def)
  from c dist show ?thesis
  proof (cases rule: claim_cases)
    case 1
    then show ?thesis using l by simp
  next
    case (2 q e)
    have "q \<in> set rows" "due channel now q" using first_due_props[OF 2(1)] by blast+
    then have "nb_ID q \<noteq> i" using leased_row_not_due[OF ok l] r OClaim by simp
    then show ?thesis using l by (auto simp: 2(6) leased_until_def)
  qed
next
  case (OMark j t)
  then have rows': "rows' = update_where (leased j) (\<lambda>r. r\<lparr>nb_State := NbDelivered,
        nb_DeliveredAt := Some t, nb_NextAttemptAt := t, nb_LastErrorKind := []\<rparr>) rows"
    using x by (auto simp: MarkEventNotificationDelivered_def andThen_ok)
  show ?thesis unfolding rows' using l r OMark by (intro leased_until_update) (auto simp: leased_def)
next
  case (ORetry j t kind terminal)
  then have rows': "rows' = update_where (leased j) (\<lambda>r. r\<lparr>
        nb_State := (if terminal then NbFailed else NbPending),
        nb_NextAttemptAt := t, nb_LastErrorKind := kind\<rparr>) rows"
    using x by (auto simp: RetryEventNotification_def andThen_ok)
  show ?thesis unfolding rows' using l r ORetry by (intro leased_until_update) (auto simp: leased_def)
qed

lemma outbox_run_leased:
  "outbox_ok rows \<Longrightarrow> leased_until i until rows \<Longrightarrow> list_all (respects_lease i until) ops \<Longrightarrow>
    leased_until i until (outbox_run ops rows) \<and> outbox_ok (outbox_run ops rows)"
  unfolding outbox_run_def
proof (induction ops arbitrary: rows)
  case (Cons p ops)
  have "leased_until i until (outbox_apply p rows)"
    using Cons.prems outbox_exec_leased[of rows i until p]
    by (auto simp: outbox_apply_def split: sum.splits)
  then show ?case using Cons outbox_apply_progress[OF Cons.prems(1), of p] by simp
qed simp

lemma claim_leases:
  assumes ok: "outbox_ok rows" and c: "ClaimEventNotification channel now lu events rows = Inr (Some d, rows')"
  shows "leased_until (nd_ID d) lu rows'"
proof -
  have dist: "distinct (map nb_ID rows)" using ok by (simp add: outbox_ok_def)
  from c dist show ?thesis
  proof (cases rule: claim_cases)
    case (2 r e)
    have "r \<in> set rows" using first_due_props[OF 2(1)] by blast
    then show ?thesis using 2(5) by (auto simp: 2(6) leased_until_def intro!: bexI[of _ r])
  qed simp
qed

text \<open>C36. A lease is exclusive: until it runs out, no other worker is handed the same
  delivery, whatever is enqueued, claimed or finished in the meantime, unless the holder
  itself reports the result.\<close>

theorem lease_exclusive:
  assumes ok: "outbox_ok rows"
    and c: "ClaimEventNotification channel now until events rows = Inr (Some d, rows')"
    and ops: "list_all (respects_lease (nd_ID d) until) ops"
    and c2: "ClaimEventNotification channel2 now2 until2 events2 (outbox_run ops rows') = Inr (Some d2, rows2)"
    and early: "now2 < until"
  shows "nd_ID d2 \<noteq> nd_ID d"
proof -
  have "outbox_exec (OClaim channel now until events) rows = Inr rows'" using c by simp
  then have ok': "outbox_ok rows'" using outbox_exec_progress ok by blast
  note l = outbox_run_leased[OF ok' claim_leases[OF ok c] ops]
  have dist: "distinct (map nb_ID (outbox_run ops rows'))" using l by (simp add: outbox_ok_def)
  from c2 dist show ?thesis
  proof (cases rule: claim_cases)
    case (2 r e)
    then show ?thesis
      using first_due_props[OF 2(1)] leased_row_not_due[OF conjunct2[OF l] conjunct1[OF l] early] by auto
  qed simp
qed

text \<open>A worker is never starved: when a delivery of the channel is due and its event
  is stored, a claim returns one, and it is one whose turn came first; its attempt is
  counted before anything is sent.\<close>

theorem claim_earliest_due:
  assumes ok: "outbox_ok rows" "events_ok events"
    and due: "r \<in> set rows" "due channel now r"
    and stored: "\<forall>r \<in> set rows. nb_EventID r \<in> ev_ID ` set events"
    and ch: "valid_identifier channel 64" "trim_space channel \<noteq> []" and t: "now \<noteq> 0" "now < until"
  shows "\<exists>d rows'. ClaimEventNotification channel now until events rows = Inr (Some d, rows') \<and>
    (\<exists>q \<in> set rows. due channel now q \<and> nb_ID q = nd_ID d \<and> ev_ID (nd_Event d) = nb_EventID q \<and>
      nd_Attempt d = nb_AttemptCount q + 1 \<and>
      (\<forall>x \<in> set rows. due channel now x \<longrightarrow> nb_NextAttemptAt q \<le> nb_NextAttemptAt x))"
proof -
  have "filter (due channel now) rows \<noteq> []" using due by (auto simp: filter_empty_conv)
  then have "sort_key nb_NextAttemptAt (sort_key nb_ID (filter (due channel now) rows)) \<noteq> []"
    by (metis length_0_conv length_sort)
  then obtain q rest where "sort_key nb_NextAttemptAt (sort_key nb_ID (filter (due channel now) rows)) = q # rest"
    by (meson neq_Nil_conv)
  then have q: "first_due channel now rows = Some q" by (simp add: first_due_def)
  note qp = first_due_props[OF q]
  obtain e where e: "e \<in> set events" "ev_ID e = nb_EventID q" using stored qp by auto
  let ?F = "filter (\<lambda>e. ev_ID e = nb_EventID q) events"
  have "length ?F = 1"
    using affected_key_1[of ev_ID events e "nb_EventID q" "\<lambda>_. True"] ok(2) e
    by (simp add: events_ok_def affected_def)
  moreover have "loadEvents ?F = Inr ?F"
    using ok(2) by (simp add: loadEvents_def events_ok_def check_all_Inr)
  moreover have "hd ?F \<in> set ?F" using calculation(1) by (cases ?F) auto
  then have "ev_ID (hd ?F) = nb_EventID q" by simp
  moreover have "affected (\<lambda>x. nb_ID x = nb_ID q \<and> nb_State x \<in> {NbPending, NbSending}
      \<and> nb_NextAttemptAt x \<le> now) rows = 1"
    using ok(1) qp by (intro affected_key_1) (auto simp: outbox_ok_def due_def)
  moreover have "validateNotificationPolicies [\<lparr>np_Channel = channel, np_Cooldown = 0\<rparr>] = Inr ()"
    using ch by (simp add: validateNotificationPolicies_def validateNotificationPolicy_def
        valid_identifier_def maximumNotificationCooldown_def)
  ultimately show ?thesis
    using t q qp by (auto simp: ClaimEventNotification_def Let_def intro!: bexI[of _ q])
qed

section \<open>Openings, recoveries and the cooldown\<close>

text \<open>A channel's cooldown is kept: a newly queued opening is due no earlier than the
  creation time and, when the channel has a cooldown, no earlier than the cooldown after
  every opening of the same key the channel has delivered.\<close>

theorem opening_respects_cooldown:
  assumes e: "enqueue_one events t (opened_transition e, p) rows = Inr rows'"
    and new: "r \<in> set rows'" "r \<notin> set rows"
  shows "nb_State r = NbPending \<and> t \<le> nb_NextAttemptAt r \<and>
    (\<forall>x \<in> set rows. \<forall>da. np_Cooldown p > 0 \<and> nb_Channel x = np_Channel p \<and> nb_DedupeKey x = ev_DedupeKey e
      \<and> nb_Transition x = EventOpened \<and> nb_State x = NbDelivered \<and> nb_DeliveredAt x = Some da
      \<longrightarrow> da + np_Cooldown p \<le> nb_NextAttemptAt r)"
proof -
  let ?nbf = "opened_not_before p e t rows"
  have "insert_pending events EventOpened (np_Channel p) e ?nbf t rows = Inr rows'"
    using e by (simp add: enqueue_one_def opened_transition_def)
  then have r: "r = pending_row (next_row_id rows) EventOpened (np_Channel p) e ?nbf t"
    using new by (auto simp: insert_pending_def split: if_splits)
  have "t \<le> ?nbf" by (auto simp: opened_not_before_def split: option.splits)
  moreover have "da + np_Cooldown p \<le> ?nbf"
    if "0 < np_Cooldown p" "x \<in> set rows" "nb_Channel x = np_Channel p" "nb_DedupeKey x = ev_DedupeKey e"
      "nb_Transition x = EventOpened" "nb_State x = NbDelivered" "nb_DeliveredAt x = Some da" for x da
  proof -
    have m: "da \<in> set (delivered_times (np_Channel p) (ev_DedupeKey e) rows)"
      using that by (auto simp: delivered_times_def map_filter_def image_iff intro!: bexI[of _ x])
    then obtain a as where dl: "delivered_times (np_Channel p) (ev_DedupeKey e) rows = a # as"
      by (cases "delivered_times (np_Channel p) (ev_DedupeKey e) rows") auto
    have "da \<le> fold max as a" using m fold_max_ge[of a as] by (auto simp: dl)
    then show ?thesis using that(1) by (auto simp: opened_not_before_def last_delivered_def dl)
  qed
  ultimately show ?thesis by (auto simp: r pending_row_def)
qed

text \<open>What a recovery does on a channel: an opening still pending is cancelled and nothing
  is announced; an opening that is being sent or was delivered is followed by one pending
  recovery; in every other case the channel stays silent. Openings that were handed to the
  network keep their rows.\<close>

theorem recovery_cases:
  assumes e: "enqueue_one events t (recovered_transition e, p) rows = Inr rows'"
  shows "if \<exists>r \<in> set rows. open_notification (ev_ID e) (np_Channel p) r \<and> nb_State r = NbPending
    then length rows' = length rows \<and> (\<forall>r \<in> set rows'. open_notification (ev_ID e) (np_Channel p) r \<longrightarrow>
        nb_State r \<noteq> NbPending) \<and> (\<forall>r \<in> set rows. nb_State r \<noteq> NbPending \<longrightarrow> r \<in> set rows')
    else if \<exists>r \<in> set rows. open_notification (ev_ID e) (np_Channel p) r \<and> nb_State r \<in> {NbSending, NbDelivered}
    then (\<exists>r \<in> set rows'. nb_slot r = (ev_ID e, EventRecovered, np_Channel p)) \<and> set rows \<subseteq> set rows'
    else rows' = rows"
proof -
  let ?stale = "\<lambda>r. open_notification (ev_ID e) (np_Channel p) r \<and> nb_State r = NbPending"
  let ?sent = "\<lambda>r. open_notification (ev_ID e) (np_Channel p) r \<and> nb_State r \<in> {NbSending, NbDelivered}"
  have "enqueue_one events t (recovered_transition e, p) rows = (if affected ?stale rows > 0
       then Inr (update_where ?stale (\<lambda>r. r\<lparr>nb_State := NbCancelled, nb_LastErrorKind := []\<rparr>) rows)
       else if affected ?sent rows = 0 then Inr rows
       else insert_pending events EventRecovered (np_Channel p) e t t rows)"
    by (simp add: enqueue_one_def recovered_transition_def Let_def)
  note x = this[unfolded e]
  consider (stale) "\<exists>r \<in> set rows. ?stale r" | (sent) "\<not> (\<exists>r \<in> set rows. ?stale r)" "\<exists>r \<in> set rows. ?sent r"
    | (none) "\<not> (\<exists>r \<in> set rows. ?stale r)" "\<not> (\<exists>r \<in> set rows. ?sent r)" by blast
  then show ?thesis
  proof cases
    case stale
    then have "affected ?stale rows > 0" by (simp only: affected_pos)
    then have "rows' = update_where ?stale (\<lambda>r. r\<lparr>nb_State := NbCancelled, nb_LastErrorKind := []\<rparr>) rows"
      using x by simp
    then have "length rows' = length rows" "\<forall>r \<in> set rows'. open_notification (ev_ID e) (np_Channel p) r \<longrightarrow>
        nb_State r \<noteq> NbPending" "\<forall>r \<in> set rows. nb_State r \<noteq> NbPending \<longrightarrow> r \<in> set rows'"
      by (auto simp: set_update_where)
    then show ?thesis using stale by (simp only: if_True simp_thms)
  next
    case sent
    have "\<not> affected ?stale rows > 0" unfolding affected_pos by (rule sent(1))
    moreover have "affected ?sent rows \<noteq> 0" unfolding affected_0 using sent(2) by blast
    ultimately have i: "insert_pending events EventRecovered (np_Channel p) e t t rows = Inr rows'"
      using x by (simp only: if_False if_not_P)
    have "(\<exists>r \<in> set rows'. nb_slot r = (ev_ID e, EventRecovered, np_Channel p)) \<and> set rows \<subseteq> set rows'"
      using i by (auto simp: insert_pending_def list_ex_iff nb_slot_def pending_row_def split: if_splits)
    then show ?thesis using sent by (simp only: if_True if_False simp_thms)
  next
    case none
    have "\<not> affected ?stale rows > 0" unfolding affected_pos by (rule none(1))
    moreover have "affected ?sent rows = 0" unfolding affected_0 using none(2) by blast
    ultimately have "rows' = rows" using x by (simp only: if_False if_True sum.inject simp_thms)
    then show ?thesis using none by (simp only: if_False simp_thms)
  qed
qed

section \<open>A concrete outbox\<close>

definition sample_policy :: notification_policy where
  "sample_policy = \<lparr>np_Channel = ''webhook'', np_Cooldown = 60\<rparr>"

definition sample_row :: outbox_row where
  "sample_row = pending_row 1 EventOpened ''webhook'' sample_event 10 10"

definition sample_sent :: outbox_row where
  "sample_sent = sample_row\<lparr>nb_State := NbSending, nb_AttemptCount := 1, nb_NextAttemptAt := 40\<rparr>"

definition sample_delivery :: event_notification_delivery where
  "sample_delivery = \<lparr>nd_ID = 1, nd_Channel = ''webhook'', nd_Transition = EventOpened,
     nd_Event = sample_event, nd_Attempt = 1\<rparr>"

lemma sample_row_simps [simp]:
  "nb_ID sample_row = 1" "nb_EventID sample_row = ''evt_1''" "nb_Transition sample_row = EventOpened"
  "nb_Channel sample_row = ''webhook''" "nb_State sample_row = NbPending" "nb_AttemptCount sample_row = 0"
  "nb_NextAttemptAt sample_row = 10" "nb_DeliveredAt sample_row = None" "nb_LastErrorKind sample_row = []"
  "nb_DedupeKey sample_row = ev_DedupeKey sample_event"
  by (simp_all add: sample_row_def pending_row_def sample_event_def)

lemma sample_event_ID [simp]: "ev_ID sample_event = ''evt_1''"
  by (simp add: sample_event_def)

lemma sample_load: "loadEvents [sample_event] = Inr [sample_event]"
  using sample_event_ok by (simp add: loadEvents_def events_ok_def)

lemma webhook_channel_ok [simp]:
  "validateNotificationPolicies [\<lparr>np_Channel = ''webhook'', np_Cooldown = 0\<rparr>] = Inr ()"
  by (simp add: validateNotificationPolicies_def validateNotificationPolicy_def ascii_eval
      containsControl_def maximumNotificationCooldown_def)

lemma sample_enqueue:
  "enqueue_one [sample_event] 10 (opened_transition sample_event, sample_policy) [] = Inr [sample_row]"
  by (simp add: enqueue_one_def opened_transition_def insert_pending_def sample_policy_def
      opened_not_before_def last_delivered_def delivered_times_def map_filter_simps next_row_id_def sample_row_def)

lemma sample_claim:
  "ClaimEventNotification ''webhook'' 10 40 [sample_event] [sample_row] = Inr (Some sample_delivery, [sample_sent])"
  by (simp add: ClaimEventNotification_def first_due_def due_def affected_def sample_load Let_def
      sample_delivery_def sample_sent_def)

lemma sample_rows_ok: "outbox_ok [sample_row]"
  by (simp add: outbox_ok_def recovery_ok_def row_ok_def nb_slot_def)

theorem lease_exclusive_witness:
  "ClaimEventNotification ''webhook'' 39 70 [sample_event] [sample_sent] = Inr (None, [sample_sent]) \<and>
    \<not> (\<exists>d2 rows2. ClaimEventNotification ''webhook'' 39 70 [sample_event]
       (outbox_run [OMark 7 20] [sample_sent]) = Inr (Some d2, rows2) \<and> nd_ID d2 = 1)"
proof -
  have "ClaimEventNotification ''webhook'' 39 70 [sample_event] [sample_sent] = Inr (None, [sample_sent])"
    by (simp add: ClaimEventNotification_def first_due_def due_def sample_sent_def)
  moreover have "nd_ID d2 \<noteq> nd_ID sample_delivery"
    if "ClaimEventNotification ''webhook'' 39 70 [sample_event]
       (outbox_run [OMark 7 20] [sample_sent]) = Inr (Some d2, rows2)" for d2 rows2
    by (rule lease_exclusive[OF sample_rows_ok sample_claim _ that]) (simp_all add: sample_delivery_def)
  ultimately show ?thesis unfolding sample_delivery_def by auto
qed

theorem claim_earliest_due_witness:
  "\<exists>d rows'. ClaimEventNotification ''webhook'' 10 40 [sample_event] [sample_row] = Inr (Some d, rows')"
proof -
  have "\<exists>d rows'. ClaimEventNotification ''webhook'' 10 40 [sample_event] [sample_row] = Inr (Some d, rows') \<and>
    (\<exists>q \<in> set [sample_row]. due ''webhook'' 10 q \<and> nb_ID q = nd_ID d \<and> ev_ID (nd_Event d) = nb_EventID q \<and>
      nd_Attempt d = nb_AttemptCount q + 1 \<and>
      (\<forall>x \<in> set [sample_row]. due ''webhook'' 10 x \<longrightarrow> nb_NextAttemptAt q \<le> nb_NextAttemptAt x))"
    by (rule claim_earliest_due[OF sample_rows_ok sample_event_ok])
       (auto simp: due_def valid_identifier_ascii ascii_eval)
  then show ?thesis by blast
qed

theorem opening_respects_cooldown_witness:
  "nb_State sample_row = NbPending \<and> 10 \<le> nb_NextAttemptAt sample_row"
  using opening_respects_cooldown[OF sample_enqueue, of sample_row] by simp

definition sample_recovered :: outbox_row where
  "sample_recovered = pending_row 2 EventRecovered ''webhook'' sample_event 20 20"

lemma sample_recovery:
  "enqueue_one [sample_event] 20 (recovered_transition sample_event, sample_policy) [sample_sent]
    = Inr [sample_sent, sample_recovered]"
  by (simp add: enqueue_one_def recovered_transition_def insert_pending_def sample_policy_def affected_def
      open_notification_def next_row_id_def sample_recovered_def sample_sent_def)

theorem recovery_cases_witness:
  "\<exists>r \<in> set [sample_sent, sample_recovered]. nb_slot r = (''evt_1'', EventRecovered, ''webhook'')"
proof -
  have s: "\<not> (\<exists>r \<in> set [sample_sent]. open_notification (ev_ID sample_event) (np_Channel sample_policy) r
      \<and> nb_State r = NbPending)"
    "\<exists>r \<in> set [sample_sent]. open_notification (ev_ID sample_event) (np_Channel sample_policy) r
      \<and> nb_State r \<in> {NbSending, NbDelivered}"
    by (simp_all add: sample_sent_def open_notification_def sample_policy_def)
  show ?thesis
    using recovery_cases[OF sample_recovery, unfolded if_not_P[OF s(1)] if_P[OF s(2)]]
    by (simp add: sample_policy_def)
qed

definition unseen_opening :: "outbox_op list" where
  "unseen_opening =
     [OEnqueue [sample_event] [opened_transition sample_event] [sample_policy] 10,
      OClaim ''webhook'' 10 40 [sample_event],
      OEnqueue [sample_event] [recovered_transition sample_event] [sample_policy] 20,
      ORetry 1 11 ''status_400'' True,
      OClaim ''webhook'' 30 60 [sample_event],
      OMark 2 30]"

text \<open>Recoveries and openings are delivered independently: when the opening is being sent
  while the event recovers and then fails for good, the recovery is still delivered, to a
  receiver that has never accepted the opening.\<close>

theorem recovery_of_unseen_opening:
  "map (\<lambda>r. (nb_Transition r, nb_State r)) (outbox_run unseen_opening []) =
    [(EventOpened, NbFailed), (EventRecovered, NbDelivered)]"
proof -
  let ?failed = "sample_sent\<lparr>nb_State := NbFailed, nb_NextAttemptAt := 11, nb_LastErrorKind := ''status_400''\<rparr>"
  let ?leased = "sample_recovered\<lparr>nb_State := NbSending, nb_AttemptCount := 1, nb_NextAttemptAt := 60\<rparr>"
  have 1: "outbox_apply (OEnqueue [sample_event] [opened_transition sample_event] [sample_policy] 10) [] = [sample_row]"
    by (simp add: outbox_apply_def enqueueEventNotifications_def sample_enqueue)
  have 2: "outbox_apply (OClaim ''webhook'' 10 40 [sample_event]) [sample_row] = [sample_sent]"
    by (simp add: outbox_apply_def sample_claim)
  have 3: "outbox_apply (OEnqueue [sample_event] [recovered_transition sample_event] [sample_policy] 20)
    [sample_sent] = [sample_sent, sample_recovered]"
    by (simp add: outbox_apply_def enqueueEventNotifications_def sample_recovery)
  have 4: "outbox_apply (ORetry 1 11 ''status_400'' True) [sample_sent, sample_recovered]
    = [?failed, sample_recovered]"
    by (simp add: outbox_apply_def RetryEventNotification_def ascii_eval containsControl_def affected_def
        leased_def sample_sent_def sample_recovered_def pending_row_def)
  have 5: "outbox_apply (OClaim ''webhook'' 30 60 [sample_event]) [?failed, sample_recovered] = [?failed, ?leased]"
    by (simp add: outbox_apply_def ClaimEventNotification_def first_due_def due_def affected_def sample_load
        Let_def sample_sent_def sample_recovered_def pending_row_def)
  have 6: "outbox_apply (OMark 2 30) [?failed, ?leased] = [?failed,
      ?leased\<lparr>nb_State := NbDelivered, nb_DeliveredAt := Some 30, nb_NextAttemptAt := 30\<rparr>]"
    by (simp add: outbox_apply_def MarkEventNotificationDelivered_def affected_def leased_def
        sample_sent_def sample_recovered_def pending_row_def)
  show ?thesis
    by (simp add: outbox_run_def unseen_opening_def 1 2 3 4 5 6)
       (simp add: sample_sent_def sample_recovered_def pending_row_def)
qed

end
