(* ===== verification/Webhook.thy ===== *)
theory Webhook
  imports Outbox
begin

text \<open>
  The webhook worker of \<^verbatim>\<open>internal/hub/webhook.go\<close>. It works through the interface
  \<^verbatim>\<open>EventNotificationQueue\<close>, here the locale \<open>notification_queue\<close>: the three operations, the
  laws the worker relies on, and the worker's correctness proved from them. The outbox of
  \<^verbatim>\<open>internal/storage/notifications.go\<close> is the interpretation. What the network answers is
  the argument \<open>send\<close>.
\<close>

section \<open>Retry policy\<close>

definition webhookChannel :: string where "webhookChannel = ''webhook''"
definition webhookLease :: duration where "webhookLease = 30 * second"
definition maximumWebhookTries :: int where "maximumWebhookTries = 8"

definition webhookRetryDelay :: "int \<Rightarrow> duration" where
  "webhookRetryDelay attempt =
     (let delays = [5 * second, 30 * second, 2 * minute, 10 * minute, 30 * minute] in
      if attempt < 1 then delays ! 0
      else if attempt > int (length delays) then hour
      else delays ! nat (attempt - 1))"

text \<open>The outcome of one HTTP exchange.\<close>

datatype http_outcome =
    EncodeFailure
  | RequestFailure
  | NetworkFailure bool
  | HttpStatus nat

definition webhookNetworkErrorKind :: "bool \<Rightarrow> string" where
  "webhookNetworkErrorKind timeout = (if timeout then ''timeout'' else ''network'')"

definition retryable_status :: "nat \<Rightarrow> bool" where
  "retryable_status code = (code = 408 \<or> code = 425 \<or> code = 429 \<or> code \<ge> 500)"

section \<open>One delivery\<close>

type_synonym 's claim_op =
  "string \<Rightarrow> time \<Rightarrow> time \<Rightarrow> 's \<Rightarrow> go_error + (event_notification_delivery option \<times> 's)"
type_synonym 's mark_op = "int \<Rightarrow> time \<Rightarrow> 's \<Rightarrow> go_error + 's"
type_synonym 's retry_op = "int \<Rightarrow> time \<Rightarrow> string \<Rightarrow> bool \<Rightarrow> 's \<Rightarrow> go_error + 's"

definition finishFailure ::
  "'s retry_op \<Rightarrow> event_notification_delivery \<Rightarrow> time \<Rightarrow> string \<Rightarrow> bool \<Rightarrow> 's \<Rightarrow> go_error \<times> 's" where
  "finishFailure retry d now kind terminal s =
     (let nextAttempt = (if terminal then now else now + webhookRetryDelay (nd_Attempt d)) in
      case retry (nd_ID d) nextAttempt kind terminal s of
        Inl err \<Rightarrow> (''failure state'', s)
      | Inr s' \<Rightarrow> ((if terminal then ''stopped'' else ''scheduled''), s'))"

text \<open>Whether a delivery was processed, the error that is logged, and the queue.\<close>

definition deliverNext ::
  "'s claim_op \<Rightarrow> 's mark_op \<Rightarrow> 's retry_op \<Rightarrow> (event_notification_delivery \<Rightarrow> http_outcome) \<Rightarrow> time \<Rightarrow> 's
   \<Rightarrow> bool \<times> go_error option \<times> 's" where
  "deliverNext claim mark retry send now s =
     (case claim webhookChannel now (now + webhookLease) s of
        Inl err \<Rightarrow> (False, Some err, s)
      | Inr (None, s1) \<Rightarrow> (False, None, s1)
      | Inr (Some d, s1) \<Rightarrow>
          let failed = (\<lambda>kind terminal.
                let (err, s2) = finishFailure retry d now kind terminal s1 in (True, Some err, s2))
          in case send d of
            EncodeFailure \<Rightarrow> failed ''encode'' True
          | RequestFailure \<Rightarrow> failed ''request'' True
          | NetworkFailure timeout \<Rightarrow>
              failed (webhookNetworkErrorKind timeout) (nd_Attempt d \<ge> maximumWebhookTries)
          | HttpStatus code \<Rightarrow>
              if 200 \<le> code \<and> code < 300 then
                (case mark (nd_ID d) now s1 of
                   Inl err \<Rightarrow> (True, Some ''completion'', s1)
                 | Inr s2 \<Rightarrow> (True, None, s2))
              else failed (''status_'' @ itoa (int code))
                     (\<not> retryable_status code \<or> nd_Attempt d \<ge> maximumWebhookTries))"

text \<open>\<^verbatim>\<open>drain\<close>: at most 32 deliveries, until none is due; \<open>clock n\<close> is the time of the
  \<open>n\<close>-th. The result also counts the deliveries processed.\<close>

fun drain_loop ::
  "'s claim_op \<Rightarrow> 's mark_op \<Rightarrow> 's retry_op \<Rightarrow> (event_notification_delivery \<Rightarrow> http_outcome)
   \<Rightarrow> (nat \<Rightarrow> time) \<Rightarrow> nat \<Rightarrow> nat \<Rightarrow> 's \<Rightarrow> nat \<times> 's" where
  "drain_loop claim mark retry send clock n 0 s = (n, s)"
| "drain_loop claim mark retry send clock n (Suc k) s =
     (let (processed, err, s') = deliverNext claim mark retry send (clock n) s in
      if processed then drain_loop claim mark retry send clock (Suc n) k s' else (n, s'))"

definition drain where
  "drain claim mark retry send clock s = drain_loop claim mark retry send clock 0 32 s"

section \<open>The queue interface\<close>

definition valid_error_kind :: "string \<Rightarrow> bool" where
  "valid_error_kind kind = (trim_space kind \<noteq> [] \<and> length kind \<le> 64 \<and> \<not> containsControl kind)"

definition delivered_row :: "time \<Rightarrow> outbox_row \<Rightarrow> outbox_row" where
  "delivered_row t r = r\<lparr>nb_State := NbDelivered, nb_DeliveredAt := Some t, nb_NextAttemptAt := t,
     nb_LastErrorKind := []\<rparr>"

definition retried_row :: "time \<Rightarrow> string \<Rightarrow> bool \<Rightarrow> outbox_row \<Rightarrow> outbox_row" where
  "retried_row t kind terminal r = r\<lparr>nb_State := (if terminal then NbFailed else NbPending),
     nb_NextAttemptAt := t, nb_LastErrorKind := kind\<rparr>"

text \<open>How a claimed row ends, given what the network answered.\<close>

definition finished_row :: "http_outcome \<Rightarrow> time \<Rightarrow> outbox_row \<Rightarrow> outbox_row" where
  "finished_row outcome now r =
     (let again = (\<lambda>kind terminal. retried_row
            (if terminal then now else now + webhookRetryDelay (nb_AttemptCount r)) kind terminal r) in
      case outcome of
        EncodeFailure \<Rightarrow> again ''encode'' True
      | RequestFailure \<Rightarrow> again ''request'' True
      | NetworkFailure timeout \<Rightarrow>
          again (webhookNetworkErrorKind timeout) (nb_AttemptCount r \<ge> maximumWebhookTries)
      | HttpStatus code \<Rightarrow>
          if 200 \<le> code \<and> code < 300 then delivered_row now r
          else again (''status_'' @ itoa (int code))
                 (\<not> retryable_status code \<or> nb_AttemptCount r \<ge> maximumWebhookTries))"

definition status_range :: "http_outcome \<Rightarrow> bool" where
  "status_range outcome = (case outcome of HttpStatus code \<Rightarrow> code < 1000 | _ \<Rightarrow> True)"

locale notification_queue =
  fixes claim :: "'s claim_op" and mark :: "'s mark_op" and retry :: "'s retry_op"
    and inv :: "'s \<Rightarrow> bool" and row :: "'s \<Rightarrow> int \<Rightarrow> outbox_row option"
  assumes claim_some: "inv s \<Longrightarrow> claim ch now lu s = Inr (Some d, s') \<Longrightarrow>
      inv s' \<and> 1 \<le> nd_ID d \<and>
      (\<exists>r. row s' (nd_ID d) = Some r \<and> nb_State r = NbSending \<and> nb_AttemptCount r = nd_Attempt d) \<and>
      (\<forall>j. j \<noteq> nd_ID d \<longrightarrow> row s' j = row s j)"
    and claim_none: "inv s \<Longrightarrow> claim ch now lu s = Inr (None, s') \<Longrightarrow> s' = s"
    and mark_leased: "inv s \<Longrightarrow> row s i = Some r \<Longrightarrow> nb_State r = NbSending \<Longrightarrow> 1 \<le> i \<Longrightarrow> t \<noteq> 0 \<Longrightarrow>
      \<exists>s'. mark i t s = Inr s' \<and> inv s' \<and> row s' i = Some (delivered_row t r) \<and>
        (\<forall>j. j \<noteq> i \<longrightarrow> row s' j = row s j)"
    and retry_leased: "inv s \<Longrightarrow> row s i = Some r \<Longrightarrow> nb_State r = NbSending \<Longrightarrow> 1 \<le> i \<Longrightarrow> t \<noteq> 0 \<Longrightarrow>
      valid_error_kind kind \<Longrightarrow>
      \<exists>s'. retry i t kind terminal s = Inr s' \<and> inv s' \<and> row s' i = Some (retried_row t kind terminal r) \<and>
        (\<forall>j. j \<noteq> i \<longrightarrow> row s' j = row s j)"
begin

lemma valid_kinds:
  "valid_error_kind ''encode''" "valid_error_kind ''request''" "valid_error_kind (webhookNetworkErrorKind b)"
  by (simp_all add: valid_error_kind_def webhookNetworkErrorKind_def ascii_eval containsControl_def)

lemma valid_status_kind:
  assumes "code < 1000" shows "valid_error_kind (''status_'' @ itoa (int code))"
proof -
  have i: "itoa (int code) = itoa_nat code" by (simp add: itoa_def)
  have len: "length (itoa_nat code) \<le> 3" using length_itoa_nat[of code 3] assms by simp
  have a: "ascii (''status_'' @ itoa_nat code)"
    using ascii_itoa_nat[of code] by (simp add: ascii_def byte_def)
  have "\<not> is_control (byte c)" if "c \<in> set (itoa_nat code)" for c
    using digits_not[OF that] by (simp add: is_digit_def is_control_def)
  then have "\<not> containsControl (''status_'' @ itoa_nat code)"
    unfolding containsControl_def runes_ascii[OF a]
    by (auto simp: list_ex_iff byte_def is_control_def)
  moreover have "trim_space (''status_'' @ itoa_nat code) \<noteq> []"
    unfolding trim_space_empty runes_ascii[OF a] by (simp add: byte_def is_space_def)
  ultimately show ?thesis using len by (simp add: valid_error_kind_def i)
qed

lemma delay_pos: "0 < webhookRetryDelay n"
proof -
  consider "n < 1" | "n > 5" | "n = 1" | "n = 2" | "n = 3" | "n = 4" | "n = 5" by linarith
  then show ?thesis by cases (simp_all add: webhookRetryDelay_def)
qed

text \<open>A processed delivery ends in the state the answer calls for, and nothing else changes.\<close>

lemma deliverNext_spec:
  assumes inv: "inv s" and now: "0 < now" and st: "\<And>d. status_range (send d)"
    and r: "deliverNext claim mark retry send now s = (processed, err, s')"
  shows "inv s' \<and> (\<not> processed \<longrightarrow> s' = s) \<and>
    (processed \<longrightarrow> (\<exists>d r. claim webhookChannel now (now + webhookLease) s \<noteq> Inr (None, s) \<and>
      nb_State r = NbSending \<and> nb_AttemptCount r = nd_Attempt d \<and>
      row s' (nd_ID d) = Some (finished_row (send d) now r) \<and>
      (\<forall>j. j \<noteq> nd_ID d \<longrightarrow> row s' j = row s j)))"
proof (cases "claim webhookChannel now (now + webhookLease) s")
  case (Inl e)
  then show ?thesis using r inv by (simp add: deliverNext_def)
next
  case (Inr p)
  obtain od s1 where p: "p = (od, s1)" by (cases p)
  show ?thesis
  proof (cases od)
    case None
    then have "s1 = s" using claim_none[OF inv] Inr p by blast
    then show ?thesis using r inv Inr p None by (simp add: deliverNext_def)
  next
    case (Some d)
    note c = Inr[unfolded p Some]
    obtain q where q: "row s1 (nd_ID d) = Some q" "nb_State q = NbSending" "nb_AttemptCount q = nd_Attempt d"
      and inv1: "inv s1" and id: "1 \<le> nd_ID d" and other: "\<forall>j. j \<noteq> nd_ID d \<longrightarrow> row s1 j = row s j"
      using claim_some[OF inv c] by blast
    have fin: "\<exists>s2. finishFailure retry d now kind terminal s1 =
        ((if terminal then ''stopped'' else ''scheduled''), s2) \<and> inv s2 \<and>
        row s2 (nd_ID d) = Some (retried_row
          (if terminal then now else now + webhookRetryDelay (nb_AttemptCount q)) kind terminal q) \<and>
        (\<forall>j. j \<noteq> nd_ID d \<longrightarrow> row s2 j = row s j)"
      if "valid_error_kind kind" for kind terminal
    proof -
      have "(if terminal then now else now + webhookRetryDelay (nd_Attempt d)) \<noteq> 0"
        using now delay_pos[of "nd_Attempt d"] by auto
      from retry_leased[OF inv1 q(1,2) id this that, of terminal] show ?thesis
        using other q(3) by (auto simp: finishFailure_def Let_def)
    qed
    have mk: "\<exists>s2. mark (nd_ID d) now s1 = Inr s2 \<and> inv s2 \<and> row s2 (nd_ID d) = Some (delivered_row now q) \<and>
        (\<forall>j. j \<noteq> nd_ID d \<longrightarrow> row s2 j = row s j)"
      using mark_leased[OF inv1 q(1,2) id, of now] now other by auto
    have "processed \<and> inv s' \<and> row s' (nd_ID d) = Some (finished_row (send d) now q) \<and>
      (\<forall>j. j \<noteq> nd_ID d \<longrightarrow> row s' j = row s j)"
    proof (cases "send d")
      case EncodeFailure
      then show ?thesis using r c fin[OF valid_kinds(1), of True]
        by (auto simp: deliverNext_def finished_row_def Let_def)
    next
      case RequestFailure
      then show ?thesis using r c fin[OF valid_kinds(2), of True]
        by (auto simp: deliverNext_def finished_row_def Let_def)
    next
      case (NetworkFailure b)
      then show ?thesis using r c fin[OF valid_kinds(3), of b "nd_Attempt d \<ge> maximumWebhookTries"] q(3)
        by (auto simp: deliverNext_def finished_row_def Let_def)
    next
      case (HttpStatus code)
      then have "code < 1000" using st[of d] by (simp add: status_range_def)
      note f = fin[OF valid_status_kind[OF this], of "\<not> retryable_status code \<or> nd_Attempt d \<ge> maximumWebhookTries"]
      show ?thesis
      proof (cases "200 \<le> code \<and> code < 300")
        case True
        then show ?thesis using r c mk HttpStatus by (auto simp: deliverNext_def finished_row_def Let_def)
      next
        case False
        define terminal where "terminal = (\<not> retryable_status code \<or> nd_Attempt d \<ge> maximumWebhookTries)"
        obtain s2 where s2: "finishFailure retry d now (''status_'' @ itoa (int code)) terminal s1 =
            ((if terminal then ''stopped'' else ''scheduled''), s2)" "inv s2"
          "row s2 (nd_ID d) = Some (retried_row
            (if terminal then now else now + webhookRetryDelay (nb_AttemptCount q))
            (''status_'' @ itoa (int code)) terminal q)" "\<forall>j. j \<noteq> nd_ID d \<longrightarrow> row s2 j = row s j"
          using f unfolding terminal_def[symmetric] by blast
        have "deliverNext claim mark retry send now s =
          (True, Some (if terminal then ''stopped'' else ''scheduled''), s2)"
          unfolding deliverNext_def c sum.case prod.case option.case HttpStatus http_outcome.case
            Let_def if_not_P[OF False] terminal_def[symmetric] s2(1) by simp
        moreover have "finished_row (send d) now q = retried_row
            (if terminal then now else now + webhookRetryDelay (nb_AttemptCount q))
            (''status_'' @ itoa (int code)) terminal q"
          unfolding finished_row_def HttpStatus http_outcome.case Let_def if_not_P[OF False] q(3)
            terminal_def[symmetric] ..
        ultimately show ?thesis using r s2 by simp
      qed
    qed
    then show ?thesis using q c by auto
  qed
qed

lemma drain_loop_spec:
  assumes "inv s" "\<And>n. 0 < clock n" "\<And>d. status_range (send d)"
    and "drain_loop claim mark retry send clock n k s = (m, s')"
  shows "inv s' \<and> n \<le> m \<and> m \<le> n + k \<and>
    (\<forall>i r'. row s' i = Some r' \<and> nb_State r' = NbSending \<longrightarrow> row s i = Some r')"
  using assms(1,4)
proof (induction k arbitrary: n s)
  case (Suc k)
  obtain processed err s1 where d: "deliverNext claim mark retry send (clock n) s = (processed, err, s1)"
    by (metis prod_cases3)
  note sp = deliverNext_spec[OF Suc.prems(1) assms(2,3) d]
  show ?case
  proof (cases processed)
    case False
    then show ?thesis using sp Suc.prems d by simp
  next
    case True
    then have loop: "drain_loop claim mark retry send clock (Suc n) k s1 = (m, s')" using Suc.prems(2) d by simp
    obtain dd r where row1: "row s1 (nd_ID dd) = Some (finished_row (send dd) (clock n) r)"
      and oth: "\<forall>j. j \<noteq> nd_ID dd \<longrightarrow> row s1 j = row s j" and st: "nb_State r = NbSending"
      using sp True by blast
    have fin: "nb_State (finished_row (send dd) (clock n) r) \<noteq> NbSending"
      by (auto simp: finished_row_def Let_def retried_row_def delivered_row_def split: http_outcome.splits)
    have ih: "inv s' \<and> Suc n \<le> m \<and> m \<le> Suc n + k \<and>
      (\<forall>i r'. row s' i = Some r' \<and> nb_State r' = NbSending \<longrightarrow> row s1 i = Some r')"
      using Suc.IH[OF _ loop] sp by blast
    have "row s i = Some r'" if "row s' i = Some r'" "nb_State r' = NbSending" for i r'
    proof -
      have "row s1 i = Some r'" using ih that by blast
      then show ?thesis using fin row1 oth that by (cases "i = nd_ID dd") auto
    qed
    then show ?thesis using ih by auto
  qed
qed simp

end

section \<open>The outbox is such a queue\<close>

type_synonym outbox_state = "event list \<times> outbox_row list"

definition outbox_claim :: "outbox_state claim_op" where
  "outbox_claim channel now leaseUntil s =
     (case ClaimEventNotification channel now leaseUntil (fst s) (snd s) of
        Inl err \<Rightarrow> Inl err | Inr (d, rows) \<Rightarrow> Inr (d, (fst s, rows)))"

definition outbox_mark :: "outbox_state mark_op" where
  "outbox_mark i t s = andThen (MarkEventNotificationDelivered i t (snd s)) (\<lambda>rows. Inr (fst s, rows))"

definition outbox_retry :: "outbox_state retry_op" where
  "outbox_retry i t kind terminal s =
     andThen (RetryEventNotification i t kind terminal (snd s)) (\<lambda>rows. Inr (fst s, rows))"

definition outbox_inv :: "outbox_state \<Rightarrow> bool" where
  "outbox_inv s = outbox_ok (snd s)"

definition outbox_find :: "outbox_state \<Rightarrow> int \<Rightarrow> outbox_row option" where
  "outbox_find s i = find (\<lambda>r. nb_ID r = i) (snd s)"

lemma find_map_key:
  "(\<And>r. r \<in> set rows \<Longrightarrow> nb_ID (f r) = nb_ID r) \<Longrightarrow>
    find (\<lambda>r. nb_ID r = i) (map f rows) = map_option f (find (\<lambda>r. nb_ID r = i) rows)"
  by (induction rows) auto

lemma find_id_some: "find (\<lambda>r. nb_ID r = i) rows = Some r \<Longrightarrow> r \<in> set rows \<and> nb_ID r = i"
  by (rule find_SomeD)

lemma leased_update_find:
  assumes ok: "outbox_ok rows" and r: "find (\<lambda>r. nb_ID r = i) rows = Some r" "nb_State r = NbSending"
    and g: "\<And>x. nb_ID (g x) = nb_ID x"
  shows "affected (leased i) rows = 1"
    "find (\<lambda>r. nb_ID r = i) (update_where (leased i) g rows) = Some (g r)"
    "j \<noteq> i \<Longrightarrow> find (\<lambda>r. nb_ID r = j) (update_where (leased i) g rows) = find (\<lambda>r. nb_ID r = j) rows"
proof -
  have ri: "r \<in> set rows" "nb_ID r = i" using find_id_some[OF r(1)] by auto
  show "affected (leased i) rows = 1"
    unfolding leased_def using ok ri r(2) by (intro affected_key_1) (auto simp: outbox_ok_def)
  let ?f = "\<lambda>x. if leased i x then g x else x"
  have f: "find (\<lambda>r. nb_ID r = k) (update_where (leased i) g rows) = map_option ?f (find (\<lambda>r. nb_ID r = k) rows)" for k
    unfolding update_rewrite using g by (intro find_map_key) simp
  show "find (\<lambda>r. nb_ID r = i) (update_where (leased i) g rows) = Some (g r)"
    unfolding f r(1) using ri r(2) by (simp add: leased_def)
  show "find (\<lambda>r. nb_ID r = j) (update_where (leased i) g rows) = find (\<lambda>r. nb_ID r = j) rows" if "j \<noteq> i"
    unfolding f using that find_id_some[of j rows]
    by (cases "find (\<lambda>r. nb_ID r = j) rows") (auto simp: leased_def)
qed

interpretation outbox_queue: notification_queue outbox_claim outbox_mark outbox_retry outbox_inv outbox_find
proof unfold_locales
  fix s ch now lu d s'
  assume inv: "outbox_inv s" and c: "outbox_claim ch now lu s = Inr (Some d, s')"
  have c': "ClaimEventNotification ch now lu (fst s) (snd s) = Inr (Some d, snd s')"
    using c by (auto simp: outbox_claim_def split: sum.splits)
  have ok: "outbox_ok (snd s)" and dist: "distinct (map nb_ID (snd s))"
    using inv by (auto simp: outbox_inv_def outbox_ok_def)
  have "outbox_exec (OClaim ch now lu (fst s)) (snd s) = Inr (snd s')" using c' by simp
  then have ok': "outbox_ok (snd s')" using outbox_exec_progress[OF _ ok] by blast
  from c' dist show "outbox_inv s' \<and> 1 \<le> nd_ID d \<and>
      (\<exists>r. outbox_find s' (nd_ID d) = Some r \<and> nb_State r = NbSending \<and> nb_AttemptCount r = nd_Attempt d) \<and>
      (\<forall>j. j \<noteq> nd_ID d \<longrightarrow> outbox_find s' j = outbox_find s j)"
  proof (cases rule: claim_cases)
    case (2 r e)
    let ?f = "\<lambda>x. if x = r then r\<lparr>nb_State := NbSending, nb_AttemptCount := nb_AttemptCount r + 1,
       nb_NextAttemptAt := lu, nb_LastErrorKind := []\<rparr> else x"
    have r: "r \<in> set (snd s)" using first_due_props[OF 2(1)] by blast
    have fd: "find (\<lambda>x. nb_ID x = nb_ID r) (snd s) = Some r" by (rule find_distinct_key[OF dist r])
    have f: "outbox_find s' k = map_option ?f (outbox_find s k)" for k
      unfolding outbox_find_def 2(6) by (rule find_map_key) simp
    have "outbox_find s' j = outbox_find s j" if j: "j \<noteq> nb_ID r" for j
    proof (cases "outbox_find s j")
      case None
      then show ?thesis using f[of j] by simp
    next
      case (Some x)
      then have "x \<noteq> r" using j find_id_some[of j "snd s" x] by (auto simp: outbox_find_def)
      then show ?thesis using f[of j] Some by simp
    qed
    moreover have "1 \<le> nb_ID r" using row_of_ok[OF ok r] by (simp add: row_ok_def)
    ultimately show ?thesis using 2(5) ok' f[of "nb_ID r"] fd
      by (simp add: outbox_inv_def outbox_find_def)
  qed simp
next
  fix s ch now lu s'
  assume inv: "outbox_inv s" and c: "outbox_claim ch now lu s = Inr (None, s')"
  have c': "ClaimEventNotification ch now lu (fst s) (snd s) = Inr (None, snd s')" and e: "fst s' = fst s"
    using c by (auto simp: outbox_claim_def split: sum.splits)
  have dist: "distinct (map nb_ID (snd s))" using inv by (auto simp: outbox_inv_def outbox_ok_def)
  from c' dist have "snd s' = snd s" by (cases rule: claim_cases) auto
  with e show "s' = s" by (simp add: prod_eq_iff)
next
  fix s i r and t :: time
  assume inv: "outbox_inv s" and r: "outbox_find s i = Some r" "nb_State r = NbSending" and i: "1 \<le> i" "t \<noteq> 0"
  let ?g = "\<lambda>r. r\<lparr>nb_State := NbDelivered, nb_DeliveredAt := Some t, nb_NextAttemptAt := t, nb_LastErrorKind := []\<rparr>"
  note u = leased_update_find[OF inv[unfolded outbox_inv_def] r(1)[unfolded outbox_find_def] r(2), of ?g]
  have m: "MarkEventNotificationDelivered i t (snd s) = Inr (update_where (leased i) ?g (snd s))"
    using u(1) i by (simp add: MarkEventNotificationDelivered_def)
  then have "outbox_exec (OMark i t) (snd s) = Inr (update_where (leased i) ?g (snd s))" by simp
  then have ok: "outbox_ok (update_where (leased i) ?g (snd s))"
    using outbox_exec_progress inv[unfolded outbox_inv_def] by blast
  show "\<exists>s'. outbox_mark i t s = Inr s' \<and> outbox_inv s' \<and> outbox_find s' i = Some (delivered_row t r) \<and>
        (\<forall>j. j \<noteq> i \<longrightarrow> outbox_find s' j = outbox_find s j)"
    using m ok u by (simp add: outbox_mark_def outbox_inv_def outbox_find_def delivered_row_def)
next
  fix s i r kind terminal and t :: time
  assume inv: "outbox_inv s" and r: "outbox_find s i = Some r" "nb_State r = NbSending"
    and i: "1 \<le> i" "t \<noteq> 0" and kind: "valid_error_kind kind"
  let ?g = "\<lambda>r. r\<lparr>nb_State := (if terminal then NbFailed else NbPending), nb_NextAttemptAt := t,
    nb_LastErrorKind := kind\<rparr>"
  note u = leased_update_find[OF inv[unfolded outbox_inv_def] r(1)[unfolded outbox_find_def] r(2), of ?g]
  have m: "RetryEventNotification i t kind terminal (snd s) = Inr (update_where (leased i) ?g (snd s))"
    using u(1) i kind by (simp add: RetryEventNotification_def valid_error_kind_def not_less)
  then have "outbox_exec (ORetry i t kind terminal) (snd s) = Inr (update_where (leased i) ?g (snd s))" by simp
  then have ok: "outbox_ok (update_where (leased i) ?g (snd s))"
    using outbox_exec_progress inv[unfolded outbox_inv_def] by blast
  show "\<exists>s'. outbox_retry i t kind terminal s = Inr s' \<and> outbox_inv s' \<and>
        outbox_find s' i = Some (retried_row t kind terminal r) \<and>
        (\<forall>j. j \<noteq> i \<longrightarrow> outbox_find s' j = outbox_find s j)"
    using m ok u by (simp add: outbox_retry_def outbox_inv_def outbox_find_def retried_row_def)
qed

section \<open>The worker over the outbox\<close>

text \<open>C37. A delivery the worker processes ends as the receiver's answer demands: delivered on a
  2xx; failed for good on an unencodable payload, on a status that is not retryable, and after
  the eighth attempt; otherwise pending again after the delay of its attempt. No other row of
  the outbox changes, and the outbox stays well-formed.\<close>

theorem webhook_delivery:
  assumes "outbox_inv s" and "0 < now" and "\<And>d. status_range (send d)"
    and "deliverNext outbox_claim outbox_mark outbox_retry send now s = (True, err, s')"
  shows "outbox_inv s' \<and> (\<exists>d r. nb_State r = NbSending \<and> nb_AttemptCount r = nd_Attempt d \<and>
      outbox_find s' (nd_ID d) = Some (finished_row (send d) now r) \<and>
      (\<forall>j. j \<noteq> nd_ID d \<longrightarrow> outbox_find s' j = outbox_find s j))"
  using outbox_queue.deliverNext_spec[OF assms] by blast

text \<open>One polling round stops after at most 32 deliveries and leaves no lease of its own
  behind: every row still marked as being sent was so before the round.\<close>

theorem webhook_drain:
  assumes "outbox_inv s" and "\<And>n. 0 < clock n" and "\<And>d. status_range (send d)"
    and "drain outbox_claim outbox_mark outbox_retry send clock s = (m, s')"
  shows "outbox_inv s' \<and> m \<le> 32 \<and>
    (\<forall>i r. outbox_find s' i = Some r \<and> nb_State r = NbSending \<longrightarrow> outbox_find s i = Some r)"
  using outbox_queue.drain_loop_spec[OF assms(1-3) assms(4)[unfolded drain_def]] by simp

text \<open>Eight attempts: a failure of an attempt before the eighth that can be retried is
  scheduled between five seconds and one hour later, later attempts waiting at least as long
  as earlier ones; from the eighth on every failure is final.\<close>

theorem webhook_retry_schedule:
  assumes "nb_State r = NbSending" and "outcome \<noteq> EncodeFailure" "outcome \<noteq> RequestFailure"
    and "\<And>code. outcome = HttpStatus code \<Longrightarrow> retryable_status code"
  shows "if nb_AttemptCount r < 8
    then nb_State (finished_row outcome now r) = NbPending \<and>
      now + 5 * second \<le> nb_NextAttemptAt (finished_row outcome now r) \<and>
      nb_NextAttemptAt (finished_row outcome now r) \<le> now + hour \<and>
      (\<forall>n \<le> nb_AttemptCount r. webhookRetryDelay n \<le> webhookRetryDelay (nb_AttemptCount r))
    else nb_State (finished_row outcome now r) = NbFailed"
proof -
  have c: "n < 1 \<or> n > 5 \<or> n = 1 \<or> n = 2 \<or> n = 3 \<or> n = 4 \<or> n = (5::int)" for n by linarith
  have b: "5 * second \<le> webhookRetryDelay n \<and> webhookRetryDelay n \<le> hour" for n
    using c[of n] by (elim disjE) (simp_all add: webhookRetryDelay_def)
  have m: "webhookRetryDelay n \<le> webhookRetryDelay k" if "n \<le> k" for n k
    using c[of n] c[of k] that by (elim disjE) (simp_all add: webhookRetryDelay_def)
  have "\<not> (200 \<le> code \<and> code < 300)" if "outcome = HttpStatus code" for code
    using assms(4)[OF that] by (auto simp: retryable_status_def)
  then show ?thesis
    using assms b[of "nb_AttemptCount r"] m
    by (cases outcome) (auto simp: finished_row_def Let_def retried_row_def maximumWebhookTries_def)
qed

section \<open>One delivery over a concrete outbox\<close>

lemma sample_worker_claim:
  "\<exists>d s1. outbox_claim webhookChannel 10 (10 + webhookLease) ([sample_event], [sample_row]) = Inr (Some d, s1)"
  by (simp add: outbox_claim_def webhookChannel_def webhookLease_def ClaimEventNotification_def first_due_def
      due_def affected_def sample_load Let_def)

lemma sample_processed:
  "\<exists>err s'. deliverNext outbox_claim outbox_mark outbox_retry (\<lambda>_. HttpStatus 503) 10
    ([sample_event], [sample_row]) = (True, err, s')"
  using sample_worker_claim by (auto simp: deliverNext_def Let_def split: prod.splits)

theorem webhook_delivery_witness:
  "\<exists>err s' (d :: event_notification_delivery) (r :: outbox_row). deliverNext outbox_claim outbox_mark outbox_retry (\<lambda>_. HttpStatus 503) 10
    ([sample_event], [sample_row]) = (True, err, s') \<and>
    outbox_find s' (nd_ID d) = Some (finished_row (HttpStatus 503) 10 r)"
proof -
  obtain err s' where d: "deliverNext outbox_claim outbox_mark outbox_retry (\<lambda>_. HttpStatus 503) 10
    ([sample_event], [sample_row]) = (True, err, s')" using sample_processed by blast
  have "outbox_inv ([sample_event], [sample_row])" using sample_rows_ok by (simp add: outbox_inv_def)
  from webhook_delivery[OF this _ _ d] d show ?thesis by (auto simp: status_range_def)
qed

theorem webhook_drain_witness:
  "fst (drain outbox_claim outbox_mark outbox_retry (\<lambda>_. HttpStatus 503) (\<lambda>_. 10)
    ([sample_event], [sample_row])) \<le> 32"
proof -
  obtain m s' where d: "drain outbox_claim outbox_mark outbox_retry (\<lambda>_. HttpStatus 503) (\<lambda>_. 10)
    ([sample_event], [sample_row]) = (m, s')" by (meson surj_pair)
  have "outbox_inv ([sample_event], [sample_row])" using sample_rows_ok by (simp add: outbox_inv_def)
  from webhook_drain[OF this _ _ d] d show ?thesis by (simp add: status_range_def)
qed

theorem webhook_retry_schedule_witness:
  "nb_State (finished_row (HttpStatus 429) 10 sample_sent) = NbPending"
  using webhook_retry_schedule[of sample_sent "HttpStatus 429" 10]
  by (simp add: sample_sent_def retryable_status_def)

end
