(* ===== verification/Operation_Store.thy ===== *)
theory Operation_Store
  imports Database "HOL-Library.Multiset"
begin

text \<open>
  The operation audit log: the SQLite part of \<^verbatim>\<open>internal/storage/sqlite.go\<close>
  (\<^verbatim>\<open>CreateOperation\<close>, \<^verbatim>\<open>StartOperation\<close>, \<^verbatim>\<open>FinishOperation\<close>, \<^verbatim>\<open>FailInterruptedOperations\<close>,
  \<^verbatim>\<open>Operations\<close>) over the rows of the table \<^verbatim>\<open>operations\<close>, and the contract of the part of
  \<^verbatim>\<open>hub.Store\<close> that the request handlers use, the locale \<open>operation_store\<close>. An operation is
  requested, then running, then finished; the handlers rely on that order being the only one.
  The rows of the model keep their insertion order. The error of a start or a finish is
  returned without the \<^verbatim>\<open>found\<close> flag, which callers read only when there is no error.
\<close>

section \<open>The SQLite operations\<close>

definition ErrOperationState :: go_error where
  "ErrOperationState = ''operation state transition is invalid''"

definition CreateOperation :: "host_row list \<Rightarrow> operation \<Rightarrow> operation list \<Rightarrow> go_error + operation list" where
  "CreateOperation hosts p rows =
     andThen (guard ErrOperationState (op_State p \<noteq> OperationRequested))
     (\<lambda>_. andThen (validateOperation p)
     (\<lambda>_. andThen (guard ''create operation'' (op_ID p \<in> op_ID ` set rows \<or> \<not> host_exists hosts (op_HostID p)))
     (\<lambda>_. Inr (rows @ [p\<lparr>op_StartedAt := None, op_FinishedAt := None, op_ResultSummary := [], op_Error := []\<rparr>]))))"

definition scanOperation :: "operation \<Rightarrow> go_error + operation" where
  "scanOperation row = (case validateOperation row of
       Inl err \<Rightarrow> Inl ''stored operation is invalid'' | Inr _ \<Rightarrow> Inr row)"

definition loadOperation :: "operation list \<Rightarrow> string \<Rightarrow> go_error + operation option" where
  "loadOperation rows oid = (case find (\<lambda>p. op_ID p = oid) rows of
       None \<Rightarrow> Inr None | Some row \<Rightarrow> andThen (scanOperation row) (\<lambda>p. Inr (Some p)))"

definition op_started :: "time \<Rightarrow> operation \<Rightarrow> operation" where
  "op_started t p = p\<lparr>op_State := OperationRunning, op_StartedAt := Some t\<rparr>"

definition op_finished ::
  "operation_state \<Rightarrow> time \<Rightarrow> string \<Rightarrow> string \<Rightarrow> string \<Rightarrow> string \<Rightarrow> operation \<Rightarrow> operation" where
  "op_finished st t summary errorKind afterReleaseID confirmedBefore p =
     p\<lparr>op_State := st, op_FinishedAt := Some t, op_ResultSummary := summary, op_Error := errorKind,
       op_AfterReleaseID := afterReleaseID,
       op_BeforeReleaseID := (if confirmedBefore \<noteq> [] then confirmedBefore else op_BeforeReleaseID p)\<rparr>"

definition final_states :: "operation_state list" where
  "final_states = [OperationSucceeded, OperationFailed, OperationRolledBack]"

definition StartOperation ::
  "string \<Rightarrow> time \<Rightarrow> operation list \<Rightarrow> go_error + (operation option \<times> operation list)" where
  "StartOperation oid startedAt rows =
     andThen (guard ''operation start is invalid''
       (trim_space oid = [] \<or> length oid > 128 \<or> startedAt = 0))
     (\<lambda>_. andThen (loadOperation rows oid) (\<lambda>loaded. case loaded of
        None \<Rightarrow> Inr (None, rows)
      | Some p \<Rightarrow> andThen (guard ErrOperationState (op_State p \<noteq> OperationRequested))
          (\<lambda>_. let q = op_started startedAt p in andThen (validateOperation q)
          (\<lambda>_. let hit = (\<lambda>r. op_ID r = op_ID q \<and> op_State r = OperationRequested) in
               andThen (guard ErrOperationState (affected hit rows \<noteq> 1))
          (\<lambda>_. Inr (Some q, update_where hit
                 (\<lambda>r. r\<lparr>op_State := op_State q, op_StartedAt := Some startedAt\<rparr>) rows))))))"

definition FinishOperation ::
  "string \<Rightarrow> operation_state \<Rightarrow> time \<Rightarrow> string \<Rightarrow> string \<Rightarrow> string \<Rightarrow> string \<Rightarrow> operation list
   \<Rightarrow> go_error + (operation option \<times> operation list)" where
  "FinishOperation oid st finishedAt summary errorKind afterReleaseID confirmedBefore rows =
     andThen (guard ''operation finish is invalid''
       (trim_space oid = [] \<or> length oid > 128 \<or> finishedAt = 0))
     (\<lambda>_. andThen (guard ErrOperationState (st \<notin> set final_states))
     (\<lambda>_. andThen (loadOperation rows oid) (\<lambda>loaded. case loaded of
        None \<Rightarrow> Inr (None, rows)
      | Some p \<Rightarrow> andThen (guard ErrOperationState (op_State p \<noteq> OperationRunning))
          (\<lambda>_. let q = op_finished st finishedAt summary errorKind afterReleaseID confirmedBefore p in
               andThen (validateOperation q)
          (\<lambda>_. let hit = (\<lambda>r. op_ID r = oid \<and> op_State r = OperationRunning) in
               andThen (guard ErrOperationState (affected hit rows \<noteq> 1))
          (\<lambda>_. Inr (Some q, update_where hit (\<lambda>r. r\<lparr>op_State := st, op_FinishedAt := Some finishedAt,
                 op_ResultSummary := summary, op_Error := errorKind, op_AfterReleaseID := op_AfterReleaseID q,
                 op_BeforeReleaseID := op_BeforeReleaseID q\<rparr>) rows)))))))"

definition op_open :: "operation \<Rightarrow> bool" where
  "op_open p = (op_State p = OperationRequested \<or> op_State p = OperationRunning)"

text \<open>\<^verbatim>\<open>coalesce(started_at, requested_at)\<close>.\<close>

definition op_latest :: "operation \<Rightarrow> time" where
  "op_latest p = (case op_StartedAt p of Some s \<Rightarrow> s | None \<Rightarrow> op_RequestedAt p)"

definition op_interrupted :: "time \<Rightarrow> operation \<Rightarrow> operation" where
  "op_interrupted t p = p\<lparr>op_State := OperationFailed,
     op_FinishedAt := Some (if op_latest p > t then op_latest p else t),
     op_ResultSummary := [], op_Error := ''hub_restarted''\<rparr>"

definition FailInterruptedOperations :: "time \<Rightarrow> operation list \<Rightarrow> go_error + (nat \<times> operation list)" where
  "FailInterruptedOperations finishedAt rows =
     andThen (guard ''operation recovery time must not be zero'' (finishedAt = 0))
     (\<lambda>_. Inr (affected op_open rows, update_where op_open (op_interrupted finishedAt) rows))"

text \<open>\<^verbatim>\<open>ORDER BY requested_at DESC, id DESC\<close>: the reverse of the ascending order.\<close>

definition newest_first :: "operation list \<Rightarrow> operation list" where
  "newest_first rows = rev (sort_key op_RequestedAt (sort_key op_ID rows))"

fun scan_all :: "operation list \<Rightarrow> go_error + operation list" where
  "scan_all [] = Inr []"
| "scan_all (r # rs) = andThen (scanOperation r) (\<lambda>p. andThen (scan_all rs) (\<lambda>ps. Inr (p # ps)))"

definition Operations :: "host_id \<Rightarrow> int \<Rightarrow> operation list \<Rightarrow> go_error + operation list" where
  "Operations hid limit rows =
     andThen (guard ''operation limit must be between 1 and 500'' (limit < 1 \<or> limit > 500))
     (\<lambda>_. scan_all (take (nat limit)
        (newest_first (filter (\<lambda>p. hid = [] \<or> op_HostID p = hid) rows))))"

lemmas operation_step_defs = CreateOperation_def StartOperation_def FinishOperation_def

section \<open>The lifecycle of one operation\<close>

definition op_rank :: "operation \<Rightarrow> nat" where
  "op_rank p = (if op_State p = OperationRequested then 0 else if op_State p = OperationRunning then 1 else 2)"

text \<open>What may become of an operation: the request never changes, the start is written once,
  and every change moves it to a later phase, so a finished one is frozen.\<close>

definition op_later :: "operation \<Rightarrow> operation \<Rightarrow> bool" where
  "op_later p q = (
     op_ID q = op_ID p \<and> op_HostID q = op_HostID p \<and> op_WorkloadKey q = op_WorkloadKey p \<and>
     op_Kind q = op_Kind p \<and> op_RequestedBy q = op_RequestedBy p \<and> op_RequestedAt q = op_RequestedAt p \<and>
     op_TargetImage q = op_TargetImage p \<and> op_DeploymentID q = op_DeploymentID p \<and>
     op_TargetReleaseID q = op_TargetReleaseID p \<and>
     (op_StartedAt p \<noteq> None \<longrightarrow> op_StartedAt q = op_StartedAt p) \<and>
     op_rank p \<le> op_rank q \<and> (op_rank p = op_rank q \<longrightarrow> q = p))"

lemma op_later_refl [simp]: "op_later p p"
  by (simp add: op_later_def)

lemma op_later_trans:
  assumes pq: "op_later p q" and qr: "op_later q r"
  shows "op_later p r"
proof (cases "q = p \<or> r = q")
  case True
  with pq qr show ?thesis by auto
next
  case False
  then have "op_rank p \<noteq> op_rank q" "op_rank q \<noteq> op_rank r" using pq qr unfolding op_later_def by blast+
  then have "op_rank p < op_rank r" using pq qr unfolding op_later_def by linarith
  then show ?thesis using pq qr unfolding op_later_def by (metis less_le_not_le order_less_imp_le)
qed

lemma op_later_frozen: "op_later p q \<Longrightarrow> op_rank p = 2 \<Longrightarrow> q = p"
  by (auto simp: op_later_def op_rank_def split: if_splits)

lemma op_open_rank: "op_open p \<longleftrightarrow> op_rank p < 2"
  by (auto simp: op_open_def op_rank_def)

lemma requested_fields:
  "validateOperation p = Inr () \<Longrightarrow> op_State p = OperationRequested \<Longrightarrow>
    op_StartedAt p = None \<and> op_FinishedAt p = None \<and> op_ResultSummary p = [] \<and> op_Error p = [] \<and>
    op_AfterReleaseID p = []"
  by (simp add: validateOperation_ok validateOperationState_def)

lemma running_fields:
  "validateOperation p = Inr () \<Longrightarrow> op_State p = OperationRunning \<Longrightarrow>
    op_StartedAt p \<noteq> None \<and> op_FinishedAt p = None \<and> op_ResultSummary p = [] \<and> op_Error p = [] \<and>
    op_AfterReleaseID p = []"
  by (simp add: validateOperation_ok validateOperationState_def)

lemma op_started_later:
  "validateOperation p = Inr () \<Longrightarrow> op_State p = OperationRequested \<Longrightarrow> op_later p (op_started t p)"
  using requested_fields[of p] unfolding op_later_def op_started_def op_rank_def by simp

lemma op_finished_later:
  "op_State p = OperationRunning \<Longrightarrow> st \<in> set final_states \<Longrightarrow> op_later p (op_finished st t m e a b p)"
proof -
  assume a: "op_State p = OperationRunning" "st \<in> set final_states"
  then have "op_rank p = 1" "op_rank (op_finished st t m e a b p) = 2"
    by (auto simp: op_rank_def op_finished_def final_states_def)
  then show ?thesis unfolding op_later_def by (simp add: op_finished_def)
qed

lemma op_interrupted_later:
  assumes "op_open p"
  shows "op_later p (op_interrupted t p)"
proof -
  have "op_rank p < 2" "op_rank (op_interrupted t p) = 2"
    using assms by (auto simp: op_rank_def op_open_def op_interrupted_def)
  then show ?thesis unfolding op_later_def by (simp add: op_interrupted_def)
qed

lemma op_started_valid:
  assumes "validateOperation p = Inr ()" "op_State p = OperationRequested" "op_RequestedAt p \<le> t"
  shows "validateOperation (op_started t p) = Inr ()"
proof -
  have "validateOperationKind (op_started t p) = validateOperationKind p"
    by (rule validateOperationKind_cong) (simp_all add: op_started_def)
  then show ?thesis
    using assms requested_fields[OF assms(1,2)]
    by (simp add: validateOperation_ok validateOperationTimes_ok op_started_def validateOperationState_def)
qed

lemma hub_restarted_category: "validOperationErrorCategory ''hub_restarted''"
  by (simp add: validOperationErrorCategory_def ascii_eval)

lemma op_interrupted_valid:
  assumes "validateOperation p = Inr ()" "op_open p"
  shows "validateOperation (op_interrupted t p) = Inr ()"
proof -
  have k: "validateOperationKind (op_interrupted t p) = validateOperationKind p"
    by (rule validateOperationKind_cong) (simp_all add: op_interrupted_def)
  have e: "op_FinishedAt p = None"
    using assms requested_fields[of p] running_fields[of p] by (auto simp: op_open_def)
  have t: "validateOperationTimes (op_interrupted t p) = Inr ()"
    using assms(1) e
    by (auto simp: validateOperation_ok validateOperationTimes_ok op_interrupted_def op_latest_def
        split: option.splits)
  have s: "valid_utf8 [] \<and> rune_count [] \<le> 240 \<and> \<not> containsControl []"
    by (simp add: ascii_eval containsControl_def)
  show ?thesis
    using assms(1) k t s hub_restarted_category
    by (simp add: validateOperation_ok op_interrupted_def validateOperationState_def)
qed

section \<open>The contract\<close>

type_synonym 's start_op = "string \<Rightarrow> time \<Rightarrow> 's \<Rightarrow> go_error + (operation option \<times> 's)"
type_synonym 's finish_op =
  "string \<Rightarrow> operation_state \<Rightarrow> time \<Rightarrow> string \<Rightarrow> string \<Rightarrow> string \<Rightarrow> string \<Rightarrow> 's
   \<Rightarrow> go_error + (operation option \<times> 's)"

datatype operation_call =
    CallCreate operation
  | CallStart string time
  | CallFinish string operation_state time string string string string

locale operation_store =
  fixes create :: "operation \<Rightarrow> 's \<Rightarrow> go_error + 's"
    and start :: "'s start_op"
    and finish :: "'s finish_op"
    and lookup :: "'s \<Rightarrow> string \<Rightarrow> operation option"
    and accepts :: "operation \<Rightarrow> bool"
    and inv :: "'s \<Rightarrow> bool"
  assumes lookup_valid:
      "\<lbrakk>inv s; lookup s k = Some p\<rbrakk> \<Longrightarrow> validateOperation p = Inr () \<and> op_ID p = k"
    and create_spec:
      "\<lbrakk>inv s; create p s = Inr s'\<rbrakk> \<Longrightarrow> inv s' \<and> op_State p = OperationRequested \<and>
        lookup s (op_ID p) = None \<and> lookup s' = (lookup s)(op_ID p \<mapsto> p)"
    and create_total:
      "\<lbrakk>inv s; op_State p = OperationRequested; validateOperation p = Inr (); accepts p;
        lookup s (op_ID p) = None\<rbrakk> \<Longrightarrow> \<exists>s'. create p s = Inr s'"
    and start_spec:
      "\<lbrakk>inv s; start k t s = Inr (r, s')\<rbrakk> \<Longrightarrow> inv s' \<and> (case r of
          None \<Rightarrow> lookup s k = None \<and> s' = s
        | Some q \<Rightarrow> (\<exists>p. lookup s k = Some p \<and> op_State p = OperationRequested \<and> q = op_started t p \<and>
            lookup s' = (lookup s)(k \<mapsto> q)))"
    and start_total:
      "\<lbrakk>inv s; lookup s k = Some p; trim_space k \<noteq> []; op_State p = OperationRequested; op_RequestedAt p \<le> t;
        t \<noteq> 0\<rbrakk>
        \<Longrightarrow> \<exists>r s'. start k t s = Inr (r, s')"
    and finish_spec:
      "\<lbrakk>inv s; finish k st t m e a b s = Inr (r, s')\<rbrakk> \<Longrightarrow> inv s' \<and> (case r of
          None \<Rightarrow> lookup s k = None \<and> s' = s
        | Some q \<Rightarrow> (\<exists>p. lookup s k = Some p \<and> op_State p = OperationRunning \<and> st \<in> set final_states \<and>
            q = op_finished st t m e a b p \<and> lookup s' = (lookup s)(k \<mapsto> q)))"
    and finish_total:
      "\<lbrakk>inv s; lookup s k = Some p; trim_space k \<noteq> []; op_State p = OperationRunning; st \<in> set final_states; t \<noteq> 0;
        validateOperation (op_finished st t m e a b p) = Inr ()\<rbrakk>
        \<Longrightarrow> \<exists>r s'. finish k st t m e a b s = Inr (r, s')"
begin

definition call :: "operation_call \<Rightarrow> 's \<Rightarrow> 's" where
  "call c s = (case c of
       CallCreate p \<Rightarrow> (case create p s of Inl _ \<Rightarrow> s | Inr s' \<Rightarrow> s')
     | CallStart k t \<Rightarrow> (case start k t s of Inl _ \<Rightarrow> s | Inr (_, s') \<Rightarrow> s')
     | CallFinish k st t m e a b \<Rightarrow> (case finish k st t m e a b s of Inl _ \<Rightarrow> s | Inr (_, s') \<Rightarrow> s'))"

definition later :: "'s \<Rightarrow> 's \<Rightarrow> bool" where
  "later s s' = (\<forall>k p. lookup s k = Some p \<longrightarrow> (\<exists>q. lookup s' k = Some q \<and> op_later p q))"

lemma later_refl: "later s s"
  by (simp add: later_def)

lemma later_trans: "later s s1 \<Longrightarrow> later s1 s2 \<Longrightarrow> later s s2"
  unfolding later_def using op_later_trans by meson

lemma later_upd: "lookup s' = (lookup s)(k \<mapsto> q) \<Longrightarrow> lookup s k = Some p \<Longrightarrow> op_later p q \<Longrightarrow> later s s'"
  by (simp add: later_def)

lemma create_later: "inv s \<Longrightarrow> create p s = Inr s' \<Longrightarrow> later s s'"
  using create_spec[of s p s'] by (auto simp: later_def)

lemma start_later: "inv s \<Longrightarrow> start k t s = Inr (r, s') \<Longrightarrow> later s s'"
  using start_spec[of s k t r s']
  by (cases r) (auto intro: later_upd later_refl op_started_later dest!: lookup_valid)

lemma finish_later: "inv s \<Longrightarrow> finish k st t m e a b s = Inr (r, s') \<Longrightarrow> later s s'"
  using finish_spec[of s k st t m e a b r s']
  by (cases r) (auto intro: later_upd later_refl op_finished_later)

lemma create_ok: "inv s \<Longrightarrow> create p s = Inr s' \<Longrightarrow> inv s' \<and> later s s'"
  using create_spec create_later by blast

lemma start_ok: "inv s \<Longrightarrow> start k t s = Inr (r, s') \<Longrightarrow> inv s' \<and> later s s'"
  using start_spec start_later by blast

lemma finish_ok: "inv s \<Longrightarrow> finish k st t m e a b s = Inr (r, s') \<Longrightarrow> inv s' \<and> later s s'"
  using finish_spec finish_later by blast

lemma call_ok:
  assumes "inv s"
  shows "inv (call c s) \<and> later s (call c s)"
proof (cases c)
  case (CallCreate p)
  then show ?thesis using assms create_ok[OF assms] later_refl
    by (cases "create p s") (simp_all add: call_def)
next
  case (CallStart k t)
  then show ?thesis using assms start_ok[OF assms] later_refl
    by (cases "start k t s") (auto simp: call_def)
next
  case (CallFinish k st t m e a b)
  then show ?thesis using assms finish_ok[OF assms] later_refl
    by (cases "finish k st t m e a b s") (auto simp: call_def)
qed

lemma history: "inv s \<Longrightarrow> inv (fold call cs s) \<and> later s (fold call cs s)"
proof (induction cs arbitrary: s)
  case (Cons c cs)
  then show ?case using call_ok[of s c] later_trans by (metis fold_simps(2))
qed (simp add: later_refl)

lemma start_some:
  assumes "inv s" "lookup s k = Some p" "trim_space k \<noteq> []" "op_State p = OperationRequested" "op_RequestedAt p \<le> t" "t \<noteq> 0"
  shows "\<exists>s'. start k t s = Inr (Some (op_started t p), s') \<and> inv s' \<and> lookup s' = (lookup s)(k \<mapsto> op_started t p)"
proof -
  obtain r s' where r: "start k t s = Inr (r, s')" using start_total[OF assms] by blast
  from start_spec[OF assms(1) this] assms(2) show ?thesis using r by (cases r) auto
qed

lemma finish_some:
  assumes "inv s" "lookup s k = Some p" "trim_space k \<noteq> []" "op_State p = OperationRunning" "st \<in> set final_states" "t \<noteq> 0"
    and "validateOperation (op_finished st t m e a b p) = Inr ()"
  shows "\<exists>s'. finish k st t m e a b s = Inr (Some (op_finished st t m e a b p), s') \<and> inv s' \<and>
    lookup s' = (lookup s)(k \<mapsto> op_finished st t m e a b p)"
proof -
  obtain r s' where r: "finish k st t m e a b s = Inr (r, s')" using finish_total[OF assms] by blast
  from finish_spec[OF assms(1) this] assms(2) show ?thesis using r by (cases r) auto
qed

lemma finish_refused:
  assumes "inv s" "lookup s k = Some p" "op_State p \<noteq> OperationRunning"
  shows "\<exists>err. finish k st t m e a b s = Inl err"
proof (cases "finish k st t m e a b s")
  case (Inr x)
  then show ?thesis using finish_spec[OF assms(1)] assms by (cases x; cases "fst x") fastforce+
qed simp

lemma start_refused:
  assumes "inv s" "lookup s k = Some p" "op_State p \<noteq> OperationRequested"
  shows "\<exists>err. start k t s = Inl err"
proof (cases "start k t s")
  case (Inr x)
  then show ?thesis using start_spec[OF assms(1)] assms by (cases x; cases "fst x") fastforce+
qed simp

lemma lifecycle:
  assumes "inv s" "op_State p = OperationRequested" "validateOperation p = Inr ()" "accepts p"
    and "lookup s (op_ID p) = None" "trim_space (op_ID p) \<noteq> []" "op_RequestedAt p \<le> t" "t \<noteq> 0" "st \<in> set final_states" "u \<noteq> 0"
    and "validateOperation (op_finished st u m e a b (op_started t p)) = Inr ()"
  shows "\<exists>s1 s2 s3. create p s = Inr s1 \<and> start (op_ID p) t s1 = Inr (Some (op_started t p), s2) \<and>
    finish (op_ID p) st u m e a b s2 = Inr (Some (op_finished st u m e a b (op_started t p)), s3) \<and>
    lookup s3 = (lookup s)(op_ID p \<mapsto> op_finished st u m e a b (op_started t p)) \<and>
    (\<exists>err. start (op_ID p) t s3 = Inl err) \<and> (\<exists>err. finish (op_ID p) st u m e a b s3 = Inl err)"
proof -
  obtain s1 where s1: "create p s = Inr s1" using create_total assms by blast
  note c = create_spec[OF assms(1) s1]
  obtain s2 where s2: "start (op_ID p) t s1 = Inr (Some (op_started t p), s2)" "inv s2"
    "lookup s2 = (lookup s1)(op_ID p \<mapsto> op_started t p)"
    using start_some[of s1 "op_ID p" p t] c assms by auto
  obtain s3 where s3: "finish (op_ID p) st u m e a b s2 =
      Inr (Some (op_finished st u m e a b (op_started t p)), s3)" "inv s3"
    "lookup s3 = (lookup s2)(op_ID p \<mapsto> op_finished st u m e a b (op_started t p))"
    using finish_some[of s2 "op_ID p" "op_started t p" st u m e a b] s2 assms by (auto simp: op_started_def)
  have "st \<noteq> OperationRequested \<and> st \<noteq> OperationRunning" using assms(9) by (auto simp: final_states_def)
  then have "(\<exists>err. start (op_ID p) t s3 = Inl err) \<and> (\<exists>err. finish (op_ID p) st u m e a b s3 = Inl err)"
    using start_refused[OF s3(2)] finish_refused[OF s3(2)] s3(3) by (simp add: op_finished_def)
  then show ?thesis using s1 s2 s3 c by auto
qed

end

section \<open>SQLite keeps the contract\<close>

definition op_find :: "operation list \<Rightarrow> string \<Rightarrow> operation option" where
  "op_find rows k = find (\<lambda>p. op_ID p = k) rows"

definition operations_ok :: "host_row list \<Rightarrow> operation list \<Rightarrow> bool" where
  "operations_ok hosts rows = (distinct (map op_ID rows) \<and>
     (\<forall>p \<in> set rows. validateOperation p = Inr () \<and> host_exists hosts (op_HostID p)))"

lemma op_find_iff:
  "distinct (map op_ID rows) \<Longrightarrow> op_find rows k = Some p \<longleftrightarrow> p \<in> set rows \<and> op_ID p = k"
  using find_distinct_key[of op_ID rows p] by (auto simp: op_find_def dest: find_SomeD)

lemma op_find_None: "op_find rows k = None \<longleftrightarrow> k \<notin> op_ID ` set rows"
  by (auto simp: op_find_def find_None_iff)

lemma op_find_append: "op_find (rows @ [p]) k = (case op_find rows k of Some q \<Rightarrow> Some q
    | None \<Rightarrow> if op_ID p = k then Some p else None)"
  by (induction rows) (auto simp: op_find_def)

lemma load_ok:
  assumes "operations_ok hosts rows"
  shows "loadOperation rows k = Inr (op_find rows k)"
proof (cases "op_find rows k")
  case (Some p)
  then have "validateOperation p = Inr ()" using assms by (auto simp: operations_ok_def op_find_iff)
  then show ?thesis using Some by (simp add: loadOperation_def op_find_def scanOperation_def)
qed (simp add: loadOperation_def op_find_def)

text \<open>An update of the one row with a given id, whose new value is computed from the old.\<close>

lemma update_operation:
  assumes ok: "operations_ok hosts rows" and p: "op_find rows k = Some p" and st: "op_State p = st"
    and f: "\<And>r. op_ID (f r) = op_ID r" "\<And>r. op_HostID (f r) = op_HostID r"
    and v: "validateOperation (f p) = Inr ()"
  defines "rows' \<equiv> update_where (\<lambda>r. op_ID r = k \<and> op_State r = st) f rows"
  shows "affected (\<lambda>r. op_ID r = k \<and> op_State r = st) rows = 1"
    and "operations_ok hosts rows'" and "op_find rows' = (op_find rows)(k \<mapsto> f p)"
proof -
  have d: "distinct (map op_ID rows)" using ok by (simp add: operations_ok_def)
  have pin: "p \<in> set rows" "op_ID p = k" using p d by (simp_all add: op_find_iff)
  show "affected (\<lambda>r. op_ID r = k \<and> op_State r = st) rows = 1"
    using affected_key_1[where f = op_ID and k = k and q = "\<lambda>r. op_State r = st", OF d pin st] .
  have only: "r = p" if "r \<in> set rows" "op_ID r = k" for r
    using d pin that by (metis op_find_iff option.inject p)
  have ids: "map op_ID rows' = map op_ID rows" unfolding rows'_def by (rule map_update_where) (rule f)
  have mem: "r \<in> set rows' \<longleftrightarrow> (r \<in> set rows \<and> op_ID r \<noteq> k) \<or> r = f p" for r
  proof -
    have only_hit: "{r \<in> set rows. op_ID r = k \<and> op_State r = st} = {p}"
      "{r \<in> set rows. \<not> (op_ID r = k \<and> op_State r = st)} = {r \<in> set rows. op_ID r \<noteq> k}"
      using only pin st by blast+
    show ?thesis unfolding rows'_def set_update_where only_hit by blast
  qed
  have d': "distinct (map op_ID rows')" using ids d by simp
  have "host_exists hosts (op_HostID (f p))" using ok pin(1) f(2) by (simp add: operations_ok_def)
  moreover have "validateOperation r = Inr () \<and> host_exists hosts (op_HostID r)" if "r \<in> set rows" for r
    using ok that by (simp add: operations_ok_def)
  ultimately have "\<forall>r \<in> set rows'. validateOperation r = Inr () \<and> host_exists hosts (op_HostID r)"
    unfolding Ball_def mem using v by blast
  then show "operations_ok hosts rows'" using d' unfolding operations_ok_def by blast
  show "op_find rows' = (op_find rows)(k \<mapsto> f p)"
  proof
    fix j
    show "op_find rows' j = ((op_find rows)(k \<mapsto> f p)) j"
    proof (cases "j = k")
      case True
      have "op_find rows' k = Some (f p)" unfolding op_find_iff[OF d'] mem using f(1)[of p] pin by simp
      with True show ?thesis by simp
    next
      case False
      have "(op_ID r = j \<and> r \<in> set rows') = (op_ID r = j \<and> r \<in> set rows)" for r
        using mem[of r] False f(1)[of p] pin(2) by blast
      then have "op_find rows' j = Some r \<longleftrightarrow> op_find rows j = Some r" for r
        unfolding op_find_iff[OF d] op_find_iff[OF d'] by blast
      then have "op_find rows' j = op_find rows j" by (metis option.exhaust)
      then show ?thesis using False by simp
    qed
  qed
qed

lemma create_sqlite:
  assumes ok: "operations_ok hosts rows" and c: "CreateOperation hosts p rows = Inr rows'"
  shows "rows' = rows @ [p]" and "operations_ok hosts rows'" and "op_State p = OperationRequested"
    and "op_find rows (op_ID p) = None" and "op_find rows' = (op_find rows)(op_ID p \<mapsto> p)"
proof -
  have v: "op_State p = OperationRequested" "validateOperation p = Inr ()" "op_ID p \<notin> op_ID ` set rows"
    "host_exists hosts (op_HostID p)"
    and r: "rows' = rows @ [p\<lparr>op_StartedAt := None, op_FinishedAt := None, op_ResultSummary := [], op_Error := []\<rparr>]"
    using c by (auto simp: CreateOperation_def andThen_ok)
  then show r': "rows' = rows @ [p]" using requested_fields[OF v(2,1)] by (cases p) simp
  show "operations_ok hosts rows'" using ok v by (auto simp: r' operations_ok_def)
  show "op_State p = OperationRequested" by (rule v)
  show n: "op_find rows (op_ID p) = None" using v(3) by (simp add: op_find_None)
  show "op_find rows' = (op_find rows)(op_ID p \<mapsto> p)"
    using n by (auto simp: r' op_find_append fun_eq_iff split: option.split)
qed

lemma start_sqlite_spec:
  assumes ok: "operations_ok hosts rows" and s: "StartOperation k t rows = Inr (r, rows')"
  shows "operations_ok hosts rows' \<and> (case r of
          None \<Rightarrow> op_find rows k = None \<and> rows' = rows
        | Some q \<Rightarrow> (\<exists>p. op_find rows k = Some p \<and> op_State p = OperationRequested \<and> q = op_started t p \<and>
            op_find rows' = (op_find rows)(k \<mapsto> q)))"
proof (cases "op_find rows k")
  case None
  then show ?thesis using s ok by (auto simp: StartOperation_def andThen_ok load_ok[OF ok])
next
  case (Some p)
  then have k: "op_ID p = k" using ok by (simp add: operations_ok_def op_find_iff)
  have v: "op_State p = OperationRequested" "validateOperation (op_started t p) = Inr ()" "r = Some (op_started t p)"
    and r': "rows' = update_where (\<lambda>r. op_ID r = k \<and> op_State r = OperationRequested) (op_started t) rows"
    using s Some k by (auto simp: StartOperation_def andThen_ok load_ok[OF ok] Let_def op_started_def[abs_def])
  note u = update_operation[OF ok Some v(1), of "op_started t"]
  show ?thesis using u(2,3) v Some by (simp add: r' op_started_def)
qed

lemma start_sqlite_total:
  assumes ok: "operations_ok hosts rows" and p: "op_find rows k = Some p" "op_State p = OperationRequested"
    and i: "trim_space k \<noteq> []"
    and t: "op_RequestedAt p \<le> t" "t \<noteq> 0"
  shows "\<exists>r rows'. StartOperation k t rows = Inr (r, rows')"
proof -
  have k: "op_ID p = k" "validateOperation p = Inr ()"
    using ok p by (auto simp: operations_ok_def op_find_iff)
  have l: "length k \<le> 128" using k by (auto simp: validateOperation_ok valid_identifier_def)
  have v: "validateOperation (op_started t p) = Inr ()" by (rule op_started_valid[OF k(2) p(2) t(1)])
  note u = update_operation(1)[OF ok p, of "op_started t"]
  show ?thesis using u v i l t p k by (simp add: StartOperation_def load_ok[OF ok] Let_def op_started_def)
qed

lemma finish_sqlite_spec:
  assumes ok: "operations_ok hosts rows" and s: "FinishOperation k st t m e a b rows = Inr (r, rows')"
  shows "operations_ok hosts rows' \<and> (case r of
          None \<Rightarrow> op_find rows k = None \<and> rows' = rows
        | Some q \<Rightarrow> (\<exists>p. op_find rows k = Some p \<and> op_State p = OperationRunning \<and> st \<in> set final_states \<and>
            q = op_finished st t m e a b p \<and> op_find rows' = (op_find rows)(k \<mapsto> q)))"
proof (cases "op_find rows k")
  case None
  then show ?thesis using s ok by (auto simp: FinishOperation_def andThen_ok load_ok[OF ok])
next
  case (Some p)
  let ?q = "op_finished st t m e a b p"
  let ?f = "\<lambda>r. r\<lparr>op_State := st, op_FinishedAt := Some t, op_ResultSummary := m, op_Error := e,
    op_AfterReleaseID := op_AfterReleaseID ?q, op_BeforeReleaseID := op_BeforeReleaseID ?q\<rparr>"
  have f: "?f p = ?q" by (simp add: op_finished_def)
  have v: "op_State p = OperationRunning" "validateOperation ?q = Inr ()" "r = Some ?q" "st \<in> set final_states"
    and r': "rows' = update_where (\<lambda>r. op_ID r = k \<and> op_State r = OperationRunning) ?f rows"
    using s Some by (auto simp: FinishOperation_def andThen_ok load_ok[OF ok] Let_def)
  note u = update_operation[OF ok Some v(1), of ?f, unfolded f]
  show ?thesis using u(2,3) v Some by (simp add: r')
qed

lemma finish_sqlite_total:
  assumes ok: "operations_ok hosts rows" and p: "op_find rows k = Some p" "op_State p = OperationRunning"
    and i: "trim_space k \<noteq> []"
    and st: "st \<in> set final_states" and t: "t \<noteq> 0"
    and v: "validateOperation (op_finished st t m e a b p) = Inr ()"
  shows "\<exists>r rows'. FinishOperation k st t m e a b rows = Inr (r, rows')"
proof -
  have k: "op_ID p = k" "validateOperation p = Inr ()"
    using ok p by (auto simp: operations_ok_def op_find_iff)
  have l: "length k \<le> 128" using k by (auto simp: validateOperation_ok valid_identifier_def)
  have "affected (\<lambda>r. op_ID r = k \<and> op_State r = OperationRunning) rows = 1"
    by (rule update_operation(1)[OF ok p, of "\<lambda>r. r"]) (use k in simp_all)
  then show ?thesis using v i l t p st by (simp add: FinishOperation_def load_ok[OF ok] Let_def)
qed

interpretation sqlite_operations: operation_store "CreateOperation hosts" StartOperation FinishOperation
    op_find "\<lambda>p. host_exists hosts (op_HostID p)" "operations_ok hosts" for hosts
proof unfold_locales
  fix rows k p assume "operations_ok hosts rows" "op_find rows k = Some p"
  then show "validateOperation p = Inr () \<and> op_ID p = k" by (auto simp: operations_ok_def op_find_iff)
next
  fix rows p rows' assume a: "operations_ok hosts rows" "CreateOperation hosts p rows = Inr rows'"
  show "operations_ok hosts rows' \<and> op_State p = OperationRequested \<and> op_find rows (op_ID p) = None \<and>
    op_find rows' = (op_find rows)(op_ID p \<mapsto> p)"
    using create_sqlite[OF a] by blast
next
  fix rows p assume "operations_ok hosts rows" "op_State p = OperationRequested" "validateOperation p = Inr ()"
    "host_exists hosts (op_HostID p)" "op_find rows (op_ID p) = None"
  then show "\<exists>rows'. CreateOperation hosts p rows = Inr rows'" by (simp add: CreateOperation_def op_find_None)
qed (rule start_sqlite_spec start_sqlite_total finish_sqlite_spec finish_sqlite_total; assumption)+

section \<open>Correctness of the audit log\<close>

text \<open>What happens to the log: the three calls of the handlers, and the recovery when the Hub
  starts. A call that fails changes nothing.\<close>

datatype operation_step =
    OpCreate operation
  | OpStart string time
  | OpFinish string operation_state time string string string string
  | OpRecover time

fun operation_exec :: "host_row list \<Rightarrow> operation_step \<Rightarrow> operation list \<Rightarrow> operation list" where
  "operation_exec hosts (OpCreate p) rows =
     (case CreateOperation hosts p rows of Inl _ \<Rightarrow> rows | Inr rows' \<Rightarrow> rows')"
| "operation_exec hosts (OpStart k t) rows =
     (case StartOperation k t rows of Inl _ \<Rightarrow> rows | Inr (_, rows') \<Rightarrow> rows')"
| "operation_exec hosts (OpFinish k st t m e a b) rows =
     (case FinishOperation k st t m e a b rows of Inl _ \<Rightarrow> rows | Inr (_, rows') \<Rightarrow> rows')"
| "operation_exec hosts (OpRecover t) rows =
     (case FailInterruptedOperations t rows of Inl _ \<Rightarrow> rows | Inr (_, rows') \<Rightarrow> rows')"

definition log_later :: "operation list \<Rightarrow> operation list \<Rightarrow> bool" where
  "log_later rows rows' = (\<forall>p \<in> set rows. \<exists>q \<in> set rows'. op_later p q)"

lemma log_later_refl [simp]: "log_later rows rows"
  unfolding log_later_def using op_later_refl by blast

lemma log_later_trans: "log_later a b \<Longrightarrow> log_later b c \<Longrightarrow> log_later a c"
  unfolding log_later_def using op_later_trans by meson

lemma later_log:
  assumes "operations_ok hosts rows" "operations_ok hosts rows'" "sqlite_operations.later rows rows'"
  shows "log_later rows rows'"
proof -
  have "\<exists>q \<in> set rows'. op_later p q" if "p \<in> set rows" for p
  proof -
    have "op_find rows (op_ID p) = Some p" using assms(1) that by (simp add: operations_ok_def op_find_iff)
    then obtain q where "op_find rows' (op_ID p) = Some q" "op_later p q"
      using assms(3) by (auto simp: sqlite_operations.later_def)
    then show ?thesis using assms(2) by (auto simp: operations_ok_def op_find_iff)
  qed
  then show ?thesis by (simp add: log_later_def)
qed

lemma recover_ok:
  assumes "operations_ok hosts rows"
  shows "operations_ok hosts (update_where op_open (op_interrupted t) rows)"
    and "log_later rows (update_where op_open (op_interrupted t) rows)"
proof -
  have "map op_ID (update_where op_open (op_interrupted t) rows) = map op_ID rows"
    by (rule map_update_where) (simp add: op_interrupted_def)
  moreover have "validateOperation (op_interrupted t p) = Inr () \<and> host_exists hosts (op_HostID (op_interrupted t p))"
    if "p \<in> set rows" "op_open p" for p
    using assms that op_interrupted_valid[of p t] by (auto simp: operations_ok_def op_interrupted_def)
  ultimately show "operations_ok hosts (update_where op_open (op_interrupted t) rows)"
    using assms by (auto simp: operations_ok_def set_update_where)
  show "log_later rows (update_where op_open (op_interrupted t) rows)"
    unfolding log_later_def set_update_where using op_interrupted_later op_later_refl by blast
qed

lemma exec_ok:
  assumes "operations_ok hosts rows"
  shows "operations_ok hosts (operation_exec hosts c rows) \<and> log_later rows (operation_exec hosts c rows)"
proof (cases c)
  case (OpCreate p)
  then show ?thesis using assms sqlite_operations.create_ok[OF assms, of p] later_log[OF assms]
    by (cases "CreateOperation hosts p rows") auto
next
  case (OpStart k t)
  then show ?thesis using assms sqlite_operations.start_ok[OF assms, of k t] later_log[OF assms]
    by (cases "StartOperation k t rows") auto
next
  case (OpFinish k st t m e a b)
  then show ?thesis using assms sqlite_operations.finish_ok[OF assms, of k st t m e a b] later_log[OF assms]
    by (cases "FinishOperation k st t m e a b rows") auto
next
  case (OpRecover t)
  then show ?thesis using assms recover_ok[OF assms, of t]
    by (cases "t = 0") (auto simp: FailInterruptedOperations_def)
qed

lemma exec_run:
  "operations_ok hosts rows \<Longrightarrow> operations_ok hosts (fold (operation_exec hosts) cs rows) \<and>
    log_later rows (fold (operation_exec hosts) cs rows)"
proof (induction cs arbitrary: rows)
  case (Cons c cs)
  then show ?case using exec_ok[OF Cons.prems, of c] log_later_trans by (metis fold_simps(2))
qed simp

lemma set_newest_first [simp]: "set (newest_first rows) = set rows"
  by (simp add: newest_first_def)

lemma distinct_newest_first [simp]: "distinct (newest_first rows) = distinct rows"
  by (simp add: newest_first_def)

definition listed_before :: "operation \<Rightarrow> operation \<Rightarrow> bool" where
  "listed_before p q = (op_RequestedAt q < op_RequestedAt p \<or>
     op_RequestedAt p = op_RequestedAt q \<and> op_ID q \<le> op_ID p)"

lemma newest_first_sorted: "sorted_wrt listed_before (newest_first rows)"
proof -
  have "(\<lambda>p q. listed_before q p) = lex_le op_RequestedAt op_ID"
    by (auto simp: fun_eq_iff listed_before_def lex_le_def)
  then show ?thesis unfolding newest_first_def sorted_wrt_rev by (simp only: sort_lex)
qed

lemma scan_all_valid: "\<forall>p \<in> set ps. validateOperation p = Inr () \<Longrightarrow> scan_all ps = Inr ps"
  by (induction ps) (auto simp: scanOperation_def)

lemma Operations_ok:
  assumes "\<forall>p \<in> set rows. validateOperation p = Inr ()" "1 \<le> limit" "limit \<le> 500"
  shows "Operations hid limit rows =
    Inr (take (nat limit) (newest_first (filter (\<lambda>p. hid = [] \<or> op_HostID p = hid) rows)))"
proof -
  have "\<forall>p \<in> set (take (nat limit) (newest_first (filter (\<lambda>p. hid = [] \<or> op_HostID p = hid) rows))).
    validateOperation p = Inr ()" using assms(1) by (auto dest: in_set_takeD)
  then show ?thesis using assms(2,3) by (simp add: Operations_def scan_all_valid)
qed

text \<open>C38. Whatever sequence of requests, starts, finishes and Hub restarts is applied to the
  operation log, ids stay unique and every stored row stays valid; no operation is ever lost,
  its request never changes, its start is written once, its phase never goes back, and a
  finished operation is never rewritten.\<close>

theorem operation_history:
  assumes "operations_ok hosts rows"
  shows "operations_ok hosts (fold (operation_exec hosts) steps rows) \<and>
    (\<forall>p \<in> set rows. \<exists>q \<in> set (fold (operation_exec hosts) steps rows). op_later p q) \<and>
    (\<forall>p \<in> set rows. op_State p \<in> set final_states \<longrightarrow> p \<in> set (fold (operation_exec hosts) steps rows))"
proof -
  note r = exec_run[OF assms, of steps]
  have "p \<in> set (fold (operation_exec hosts) steps rows)"
    if "p \<in> set rows" "op_State p \<in> set final_states" for p
  proof -
    have "op_rank p = 2" using that(2) by (auto simp: op_rank_def final_states_def)
    then show ?thesis using r that(1) op_later_frozen unfolding log_later_def by metis
  qed
  then show ?thesis using r unfolding log_later_def by blast
qed

text \<open>A valid requested operation on a known host is accepted, can be started at any time
  from its request on, and finished with any result that makes a valid row; the stored row is
  then exactly the finished one, no other row changes, and starting or finishing it a second
  time is refused.\<close>

theorem operation_lifecycle:
  assumes "operations_ok hosts rows"
    and "op_State p = OperationRequested" and "validateOperation p = Inr ()"
    and "host_exists hosts (op_HostID p)" and "op_ID p \<notin> op_ID ` set rows" and "trim_space (op_ID p) \<noteq> []"
    and "op_RequestedAt p \<le> t" and "t \<noteq> 0" and "st \<in> set final_states" and "u \<noteq> 0"
    and "validateOperation (op_finished st u m e a b (op_started t p)) = Inr ()"
  shows "\<exists>rows1 rows2 rows3. CreateOperation hosts p rows = Inr rows1 \<and>
    StartOperation (op_ID p) t rows1 = Inr (Some (op_started t p), rows2) \<and>
    FinishOperation (op_ID p) st u m e a b rows2 =
      Inr (Some (op_finished st u m e a b (op_started t p)), rows3) \<and>
    op_find rows3 = (op_find rows)(op_ID p \<mapsto> op_finished st u m e a b (op_started t p)) \<and>
    (\<exists>err. StartOperation (op_ID p) t rows3 = Inl err) \<and>
    (\<exists>err. FinishOperation (op_ID p) st u m e a b rows3 = Inl err)"
  using sqlite_operations.lifecycle[OF assms(1-4) _ assms(6-11)] assms(5) by (simp add: op_find_None)

text \<open>When the Hub restarts, exactly the open operations are closed: each becomes failed with
  the category \<^verbatim>\<open>hub_restarted\<close> at the restart, or at its own latest time when the clock went
  back; the finished ones are not touched, nothing stays open, and every row is still valid.\<close>

theorem interrupted_operations:
  assumes "operations_ok hosts rows" and "t \<noteq> 0"
  shows "\<exists>rows'. FailInterruptedOperations t rows = Inr (length (filter op_open rows), rows') \<and>
    operations_ok hosts rows' \<and> (\<forall>p \<in> set rows'. \<not> op_open p) \<and>
    rows' = map (\<lambda>p. if op_open p then p\<lparr>op_State := OperationFailed,
        op_FinishedAt := Some (max t (case op_StartedAt p of Some s \<Rightarrow> s | None \<Rightarrow> op_RequestedAt p)),
        op_ResultSummary := [], op_Error := ''hub_restarted''\<rparr> else p) rows"
proof -
  have f: "op_interrupted t = (\<lambda>p. p\<lparr>op_State := OperationFailed,
        op_FinishedAt := Some (max t (case op_StartedAt p of Some s \<Rightarrow> s | None \<Rightarrow> op_RequestedAt p)),
        op_ResultSummary := [], op_Error := ''hub_restarted''\<rparr>)"
    by (auto simp: fun_eq_iff op_interrupted_def op_latest_def max_def)
  have "\<not> op_open (op_interrupted t p)" for p by (simp add: op_open_def op_interrupted_def)
  then have "\<forall>p \<in> set (update_where op_open (op_interrupted t) rows). \<not> op_open p"
    by (auto simp: set_update_where)
  moreover have "FailInterruptedOperations t rows =
      Inr (length (filter op_open rows), update_where op_open (op_interrupted t) rows)"
    using assms(2) by (simp add: FailInterruptedOperations_def affected_def)
  ultimately show ?thesis
    using recover_ok(1)[OF assms(1), of t] unfolding f update_where_def by blast
qed

text \<open>The audit list is the newest part of the log: at most \<open>limit\<close> operations of the asked
  host (of all hosts when none is given), ordered by request time and then id, both descending;
  it is short only when there are no more, and whatever is left out comes after everything
  listed.\<close>

theorem Operations_newest:
  assumes "operations_ok hosts rows" and "1 \<le> limit" and "limit \<le> 500"
  shows "\<exists>ps. Operations hid limit rows = Inr ps \<and> sorted_wrt listed_before ps \<and> distinct ps \<and>
    length ps = min (nat limit) (length (filter (\<lambda>p. hid = [] \<or> op_HostID p = hid) rows)) \<and>
    (\<forall>p \<in> set ps. p \<in> set rows \<and> (hid = [] \<or> op_HostID p = hid)) \<and>
    (\<forall>q \<in> set rows. (hid = [] \<or> op_HostID q = hid) \<longrightarrow> q \<notin> set ps \<longrightarrow> (\<forall>p \<in> set ps. listed_before p q))"
proof -
  define L where "L = newest_first (filter (\<lambda>p. hid = [] \<or> op_HostID p = hid) rows)"
  have d: "distinct rows" using assms(1) by (auto simp: operations_ok_def distinct_map)
  have r: "Operations hid limit rows = Inr (take (nat limit) L)"
    unfolding L_def using assms by (intro Operations_ok) (simp_all add: operations_ok_def)
  have s: "sorted_wrt listed_before (take (nat limit) L @ drop (nat limit) L)"
    by (simp add: L_def newest_first_sorted)
  have later: "listed_before p q" if "p \<in> set (take (nat limit) L)" "q \<in> set L" "q \<notin> set (take (nat limit) L)" for p q
  proof -
    have "q \<in> set (drop (nat limit) L)" using that(2,3) by (metis Un_iff append_take_drop_id set_append)
    then show ?thesis using s that(1) unfolding sorted_wrt_append by blast
  qed
  have "length L = length (filter (\<lambda>p. hid = [] \<or> op_HostID p = hid) rows)"
    by (simp add: L_def newest_first_def)
  moreover have "set L = {p \<in> set rows. hid = [] \<or> op_HostID p = hid}" by (simp add: L_def)
  moreover have "distinct (take (nat limit) L)" using d by (simp add: L_def)
  ultimately show ?thesis
    using r s later by (auto simp: sorted_wrt_append dest: in_set_takeD)
qed

section \<open>A concrete operation\<close>

definition sample_operation :: operation where
  "sample_operation = \<lparr>op_ID = ''op_1'', op_HostID = ''web'', op_WorkloadKey = ''docker:api'',
     op_Kind = OperationRestart, op_State = OperationRequested, op_RequestedBy = ''admin'',
     op_RequestedAt = 10, op_StartedAt = None, op_FinishedAt = None, op_ResultSummary = [], op_Error = [],
     op_TargetImage = [], op_DeploymentID = [], op_TargetReleaseID = [], op_BeforeReleaseID = [],
     op_AfterReleaseID = []\<rparr>"

definition sample_hosts :: "host_row list" where
  "sample_hosts = [\<lparr>hr_ID = ''web'', hr_Name = ''Web'', hr_PublicHost = [], hr_Configured = True,
     hr_DisplayOrder = 0, hr_CreatedAt = 1, hr_UpdatedAt = 1\<rparr>]"

lemmas operation_eval = validateOperation_ok validateOperationTimes_ok validateOperationState_def
  validateOperationKind_def validOperationErrorCategory_def containsControl_def valid_identifier_ascii
  ascii_eval andThen_ok

lemma sample_operation_ok: "validateOperation sample_operation = Inr ()"
  by (simp add: sample_operation_def operation_eval)

lemma sample_host_known: "host_exists sample_hosts (op_HostID sample_operation)"
  by (simp add: sample_hosts_def sample_operation_def host_exists_def)

lemma sample_log_ok: "operations_ok sample_hosts [sample_operation]"
  by (simp add: operations_ok_def sample_operation_ok sample_host_known)

theorem operation_history_witness:
  "operations_ok sample_hosts (fold (operation_exec sample_hosts)
     [OpStart ''op_1'' 11, OpRecover 12, OpStart ''op_1'' 13] [sample_operation])"
  using operation_history[OF sample_log_ok] by blast

theorem operation_lifecycle_witness:
  "\<exists>rows1 rows2 rows3. CreateOperation sample_hosts sample_operation [] = Inr rows1 \<and>
    StartOperation ''op_1'' 11 rows1 = Inr (Some (op_started 11 sample_operation), rows2) \<and>
    FinishOperation ''op_1'' OperationSucceeded 12 ''done'' [] [] [] rows2 =
      Inr (Some (op_finished OperationSucceeded 12 ''done'' [] [] [] (op_started 11 sample_operation)), rows3)"
proof -
  have "validateOperation (op_finished OperationSucceeded 12 ''done'' [] [] [] (op_started 11 sample_operation)) = Inr ()"
    by (simp add: sample_operation_def op_finished_def op_started_def operation_eval)
  then show ?thesis
    using operation_lifecycle[of sample_hosts "[]" sample_operation 11 OperationSucceeded 12 "''done''" "[]" "[]" "[]"]
      sample_operation_ok sample_host_known
    by (auto simp: operations_ok_def sample_operation_def ascii_eval final_states_def)
qed

theorem interrupted_operations_witness:
  "\<exists>rows'. FailInterruptedOperations 9 [sample_operation] = Inr (1, rows') \<and>
    map op_FinishedAt rows' = [Some 10] \<and> map op_Error rows' = [''hub_restarted'']"
  using interrupted_operations[OF sample_log_ok, of 9]
  by (auto simp: sample_operation_def op_open_def)

theorem Operations_newest_witness:
  "\<exists>ps. Operations [] 5 [sample_operation] = Inr ps \<and> length ps = 1"
  using Operations_newest[OF sample_log_ok, of 5 "[]"] by auto

end
