(* ===== verification/Mem_Operations.thy ===== *)
theory Mem_Operations
  imports Operation_Store "HOL-Library.AList"
begin

text \<open>
  The operations of the non-durable store (\<^verbatim>\<open>MemStore\<close> of \<^verbatim>\<open>internal/hub/store.go\<close>), the second
  implementation of the contract \<open>operation_store\<close>, and its agreement with the SQLite log. The
  Go map from ids to operations is an association list with distinct keys. \<^verbatim>\<open>sort.Slice\<close> orders
  by request time and id, which distinguishes any two entries, so the order in which Go walks
  the map does not show.
\<close>

type_synonym mem_operations = "(string \<times> operation) list"

definition mem_CreateOperation :: "operation \<Rightarrow> mem_operations \<Rightarrow> go_error + mem_operations" where
  "mem_CreateOperation p m =
     andThen (guard ErrOperationState (op_State p \<noteq> OperationRequested))
     (\<lambda>_. andThen (validateOperation p)
     (\<lambda>_. andThen (guard ''operation ID already exists'' (map_of m (op_ID p) \<noteq> None))
     (\<lambda>_. Inr (AList.update (op_ID p) p m))))"

definition mem_StartOperation :: "mem_operations start_op" where
  "mem_StartOperation oid startedAt m =
     (case map_of m oid of
        None \<Rightarrow> Inr (None, m)
      | Some p \<Rightarrow>
          andThen (guard ErrOperationState (op_State p \<noteq> OperationRequested))
          (\<lambda>_. let q = op_started startedAt p in
               andThen (validateOperation q) (\<lambda>_. Inr (Some q, AList.update oid q m))))"

definition mem_FinishOperation :: "mem_operations finish_op" where
  "mem_FinishOperation oid st finishedAt summary errorKind afterReleaseID confirmedBefore m =
     (case map_of m oid of
        None \<Rightarrow> Inr (None, m)
      | Some p \<Rightarrow>
          andThen (guard ErrOperationState (op_State p \<noteq> OperationRunning \<or> st \<notin> set final_states))
          (\<lambda>_. let q = op_finished st finishedAt summary errorKind afterReleaseID confirmedBefore p in
               andThen (validateOperation q) (\<lambda>_. Inr (Some q, AList.update oid q m))))"

definition mem_Operations :: "host_id \<Rightarrow> int \<Rightarrow> mem_operations \<Rightarrow> go_error + operation list" where
  "mem_Operations hid limit m =
     andThen (guard ''operation limit must be between 1 and 500'' (limit < 1 \<or> limit > 500))
     (\<lambda>_. Inr (take (nat limit) (newest_first (filter (\<lambda>p. hid = [] \<or> op_HostID p = hid) (map snd m)))))"

definition mem_operations_ok :: "mem_operations \<Rightarrow> bool" where
  "mem_operations_ok m = (distinct (map fst m) \<and>
     (\<forall>(k, p) \<in> set m. op_ID p = k \<and> validateOperation p = Inr ()))"

lemma mem_lookup: "mem_operations_ok m \<Longrightarrow> map_of m k = Some p \<Longrightarrow> validateOperation p = Inr () \<and> op_ID p = k"
  by (auto simp: mem_operations_ok_def dest!: map_of_SomeD)

lemma mem_update_ok:
  assumes "mem_operations_ok m" "op_ID p = k" "validateOperation p = Inr ()"
  shows "mem_operations_ok (AList.update k p m)"
proof -
  have "distinct (map fst (AList.update k p m))" using assms(1) by (simp add: mem_operations_ok_def distinct_update)
  moreover have "(j, q) \<in> set (AList.update k p m) \<Longrightarrow> (j, q) = (k, p) \<or> (j, q) \<in> set m" for j q
    by (induction m) (auto split: if_splits)
  ultimately show ?thesis using assms unfolding mem_operations_ok_def by fast
qed

lemma mem_create_spec:
  assumes "mem_operations_ok m" "mem_CreateOperation p m = Inr m'"
  shows "mem_operations_ok m' \<and> op_State p = OperationRequested \<and> map_of m (op_ID p) = None \<and>
    map_of m' = (map_of m)(op_ID p \<mapsto> p)"
  using assms mem_update_ok[OF assms(1), of p]
  by (auto simp: mem_CreateOperation_def andThen_ok update_conv')

lemma mem_start_spec:
  assumes ok: "mem_operations_ok m" and s: "mem_StartOperation k t m = Inr (r, m')"
  shows "mem_operations_ok m' \<and> (case r of
      None \<Rightarrow> map_of m k = None \<and> m' = m
    | Some q \<Rightarrow> (\<exists>p. map_of m k = Some p \<and> op_State p = OperationRequested \<and> q = op_started t p \<and>
        map_of m' = (map_of m)(k \<mapsto> q)))"
proof (cases "map_of m k")
  case (Some p)
  then have "op_ID (op_started t p) = k" using mem_lookup[OF ok] by (simp add: op_started_def)
  note u = mem_update_ok[OF ok this]
  show ?thesis using Some s u by (auto simp: mem_StartOperation_def andThen_ok Let_def update_conv')
qed (use ok s in \<open>auto simp: mem_StartOperation_def\<close>)

lemma mem_start_total:
  assumes "mem_operations_ok m" "map_of m k = Some p" "op_State p = OperationRequested" "op_RequestedAt p \<le> t"
  shows "\<exists>r m'. mem_StartOperation k t m = Inr (r, m')"
  using assms op_started_valid[of p t] mem_lookup[OF assms(1,2)] by (simp add: mem_StartOperation_def Let_def)

lemma mem_finish_spec:
  assumes ok: "mem_operations_ok m" and s: "mem_FinishOperation k st t e1 e2 a b m = Inr (r, m')"
  shows "mem_operations_ok m' \<and> (case r of
      None \<Rightarrow> map_of m k = None \<and> m' = m
    | Some q \<Rightarrow> (\<exists>p. map_of m k = Some p \<and> op_State p = OperationRunning \<and> st \<in> set final_states \<and>
        q = op_finished st t e1 e2 a b p \<and> map_of m' = (map_of m)(k \<mapsto> q)))"
proof (cases "map_of m k")
  case (Some p)
  then have "op_ID (op_finished st t e1 e2 a b p) = k" using mem_lookup[OF ok] by (simp add: op_finished_def)
  note u = mem_update_ok[OF ok this]
  show ?thesis using Some s u by (auto simp: mem_FinishOperation_def andThen_ok Let_def update_conv')
qed (use ok s in \<open>auto simp: mem_FinishOperation_def\<close>)

interpretation mem_operations: operation_store mem_CreateOperation mem_StartOperation mem_FinishOperation
    map_of "\<lambda>_. True" mem_operations_ok
proof unfold_locales
  fix m :: mem_operations and p :: operation assume "op_State p = OperationRequested" "validateOperation p = Inr ()" "map_of m (op_ID p) = None"
  then show "\<exists>m'. mem_CreateOperation p m = Inr m'" by (simp add: mem_CreateOperation_def)
next
  fix m :: mem_operations and k and p :: operation and st t e1 e2 a b
  assume "map_of m k = Some p" "op_State p = OperationRunning" "st \<in> set final_states"
    "validateOperation (op_finished st t e1 e2 a b p) = Inr ()"
  then show "\<exists>r m'. mem_FinishOperation k st t e1 e2 a b m = Inr (r, m')"
    by (simp add: mem_FinishOperation_def Let_def)
qed (rule mem_lookup mem_create_spec mem_start_spec mem_start_total mem_finish_spec; assumption)+

section \<open>The two stores agree\<close>

text \<open>The in-memory store holds the same operations as the table.\<close>

definition stores_agree :: "host_row list \<Rightarrow> operation list \<Rightarrow> mem_operations \<Rightarrow> bool" where
  "stores_agree hosts rows m = (operations_ok hosts rows \<and> mem_operations_ok m \<and> map_of m = op_find rows)"

lemma agree_elements:
  assumes "stores_agree hosts rows m"
  shows "set (map snd m) = set rows" and "distinct (map snd m)"
proof -
  have ok: "operations_ok hosts rows" "mem_operations_ok m" "map_of m = op_find rows"
    using assms by (simp_all add: stores_agree_def)
  have "p \<in> set (map snd m) \<longleftrightarrow> map_of m (op_ID p) = Some p" for p
    using ok(2) map_of_is_SomeI[of m] by (force simp: mem_operations_ok_def dest: map_of_SomeD)
  then show "set (map snd m) = set rows" using ok by (auto simp: operations_ok_def op_find_iff)
  have "map fst m = map op_ID (map snd m)" using ok(2) by (auto simp: mem_operations_ok_def)
  then show "distinct (map snd m)" using ok(2) by (metis distinct_map mem_operations_ok_def)
qed

lemma newest_first_unique:
  assumes "distinct (map op_ID ps)" "distinct (map op_ID qs)" "set ps = set qs"
  shows "newest_first ps = newest_first qs"
proof -
  have "sort_key op_ID ps = sort_key op_ID qs"
    using assms by (intro sort_key_cong_set) (auto simp: distinct_map)
  then show ?thesis by (simp add: newest_first_def)
qed

lemma agree_listing:
  assumes "stores_agree hosts rows m"
  shows "mem_Operations hid limit m = Operations hid limit rows"
proof -
  have ok: "operations_ok hosts rows" "mem_operations_ok m" using assms by (simp_all add: stores_agree_def)
  have "map fst m = map op_ID (map snd m)" using ok(2) by (auto simp: mem_operations_ok_def)
  then have "distinct (map op_ID (map snd m))" using ok(2) by (metis mem_operations_ok_def)
  then have "newest_first (filter (\<lambda>p. hid = [] \<or> op_HostID p = hid) (map snd m)) =
      newest_first (filter (\<lambda>p. hid = [] \<or> op_HostID p = hid) rows)"
    using ok(1) agree_elements(1)[OF assms]
    by (intro newest_first_unique) (auto simp: operations_ok_def distinct_map_filter)
  moreover have "Operations hid limit rows = Inr (take (nat limit) (newest_first (filter (\<lambda>p. hid = [] \<or> op_HostID p = hid) rows)))"
    if "1 \<le> limit" "limit \<le> 500" using Operations_ok ok(1) that by (auto simp: operations_ok_def)
  ultimately show ?thesis by (cases "limit < 1 \<or> limit > 500") (auto simp: mem_Operations_def Operations_def)
qed

lemma agree_create:
  assumes "stores_agree hosts rows m" "CreateOperation hosts p rows = Inr rows'"
  shows "\<exists>m'. mem_CreateOperation p m = Inr m' \<and> stores_agree hosts rows' m'"
proof -
  have ok: "operations_ok hosts rows" "mem_operations_ok m" "map_of m = op_find rows"
    using assms(1) by (simp_all add: stores_agree_def)
  note c = create_sqlite[OF ok(1) assms(2)]
  have "validateOperation p = Inr ()" using c(1,2) by (simp add: operations_ok_def)
  then obtain m' where m': "mem_CreateOperation p m = Inr m'"
    using mem_operations.create_total[OF ok(2) c(3)] c(4) ok(3) by auto
  from mem_create_spec[OF ok(2) m'] show ?thesis using c m' ok(3) by (auto simp: stores_agree_def)
qed

lemma agree_start:
  assumes "stores_agree hosts rows m" "StartOperation k t rows = Inr (r, rows')"
  shows "\<exists>m'. mem_StartOperation k t m = Inr (r, m') \<and> stores_agree hosts rows' m'"
proof -
  have ok: "operations_ok hosts rows" "mem_operations_ok m" "map_of m = op_find rows"
    using assms(1) by (simp_all add: stores_agree_def)
  note c = start_sqlite_spec[OF ok(1) assms(2)]
  show ?thesis
  proof (cases r)
    case None
    then show ?thesis using c ok by (auto simp: mem_StartOperation_def stores_agree_def)
  next
    case (Some q)
    then obtain p where p: "op_find rows k = Some p" "op_State p = OperationRequested" "q = op_started t p"
      "op_find rows' = (op_find rows)(k \<mapsto> q)" "operations_ok hosts rows'" using c by auto
    have "validateOperation q = Inr () \<and> op_ID q = k"
      by (rule sqlite_operations.lookup_valid[OF p(5)]) (simp add: p(4))
    then show ?thesis using p ok Some mem_update_ok[OF ok(2), of q k]
      by (auto simp: mem_StartOperation_def stores_agree_def Let_def update_conv')
  qed
qed

lemma agree_finish:
  assumes "stores_agree hosts rows m" "FinishOperation k st t e1 e2 a b rows = Inr (r, rows')"
  shows "\<exists>m'. mem_FinishOperation k st t e1 e2 a b m = Inr (r, m') \<and> stores_agree hosts rows' m'"
proof -
  have ok: "operations_ok hosts rows" "mem_operations_ok m" "map_of m = op_find rows"
    using assms(1) by (simp_all add: stores_agree_def)
  note c = finish_sqlite_spec[OF ok(1) assms(2)]
  show ?thesis
  proof (cases r)
    case None
    then show ?thesis using c ok by (auto simp: mem_FinishOperation_def stores_agree_def)
  next
    case (Some q)
    then obtain p where p: "op_find rows k = Some p" "op_State p = OperationRunning" "st \<in> set final_states"
      "q = op_finished st t e1 e2 a b p"
      "op_find rows' = (op_find rows)(k \<mapsto> q)" "operations_ok hosts rows'" using c by auto
    have "validateOperation q = Inr () \<and> op_ID q = k"
      by (rule sqlite_operations.lookup_valid[OF p(6)]) (simp add: p(5))
    then show ?thesis using p ok Some mem_update_ok[OF ok(2), of q k]
      by (auto simp: mem_FinishOperation_def stores_agree_def Let_def update_conv')
  qed
qed

text \<open>The in-memory store refines the SQLite log: while the two hold the same operations,
  every create, start and finish that SQLite accepts is accepted in memory with the same
  result and leaves them holding the same operations, and the audit list of the two is the
  same list, errors included.\<close>

theorem operation_stores_agree:
  assumes "stores_agree hosts rows m"
  shows "mem_Operations hid limit m = Operations hid limit rows \<and>
    (\<forall>p rows'. CreateOperation hosts p rows = Inr rows' \<longrightarrow>
      (\<exists>m'. mem_CreateOperation p m = Inr m' \<and> stores_agree hosts rows' m')) \<and>
    (\<forall>k t r rows'. StartOperation k t rows = Inr (r, rows') \<longrightarrow>
      (\<exists>m'. mem_StartOperation k t m = Inr (r, m') \<and> stores_agree hosts rows' m')) \<and>
    (\<forall>k st t e1 e2 a b r rows'. FinishOperation k st t e1 e2 a b rows = Inr (r, rows') \<longrightarrow>
      (\<exists>m'. mem_FinishOperation k st t e1 e2 a b m = Inr (r, m') \<and> stores_agree hosts rows' m'))"
  using agree_listing[OF assms] agree_create[OF assms] agree_start[OF assms] agree_finish[OF assms] by blast

theorem operation_stores_agree_witness:
  "\<exists>m2. mem_StartOperation ''op_1'' 11 [(''op_1'', sample_operation)] =
      Inr (Some (op_started 11 sample_operation), m2) \<and>
    mem_Operations [] 5 [(''op_1'', sample_operation)] = Operations [] 5 [sample_operation]"
proof -
  have agree: "stores_agree sample_hosts [sample_operation] [(''op_1'', sample_operation)]"
    using sample_log_ok sample_operation_ok
    by (auto simp: stores_agree_def mem_operations_ok_def op_find_def fun_eq_iff sample_operation_def)
  have "op_find [sample_operation] ''op_1'' = Some sample_operation" "op_State sample_operation = OperationRequested"
    "op_RequestedAt sample_operation \<le> 11" "trim_space ''op_1'' \<noteq> []"
    by (simp_all add: op_find_def sample_operation_def ascii_eval)
  then obtain rows2 where "StartOperation ''op_1'' 11 [sample_operation] = Inr (Some (op_started 11 sample_operation), rows2)"
    using sqlite_operations.start_some[OF sample_log_ok, of "''op_1''" sample_operation 11] by auto
  with operation_stores_agree[OF agree, of "[]" 5] show ?thesis by blast
qed

end
