(* ===== verification/Shared_Types.thy ===== *)
theory Shared_Types
  imports Domain
begin

text \<open>
  The wire contract between Agent and Hub (\<^verbatim>\<open>internal/shared/types.go\<close>): what an Agent
  publishes about its approved actions and deployments and what it answers when one is
  executed. A slice that JSON may leave \<^verbatim>\<open>null\<close> is an option where the code tells it from
  the empty one.
\<close>

type_synonym action_kind = string
abbreviation (input) "ActionStart \<equiv> ''start''"
abbreviation (input) "ActionStop \<equiv> ''stop''"
abbreviation (input) "ActionRestart \<equiv> ''restart''"
abbreviation (input) "ActionLogs \<equiv> ''logs''"

type_synonym action_target_kind = string
abbreviation (input) "ActionTargetSystemd \<equiv> ''systemd''"
abbreviation (input) "ActionTargetDocker \<equiv> ''docker''"

type_synonym action_risk = string
abbreviation (input) "ActionRiskRead \<equiv> ''read''"
abbreviation (input) "ActionRiskChange \<equiv> ''change''"
abbreviation (input) "ActionRiskDisruptive \<equiv> ''disruptive''"

record action_definition =
  ad_ID :: string
  ad_TargetKey :: string
  ad_TargetLabel :: string
  ad_TargetKind :: action_target_kind
  ad_Kind :: action_kind
  ad_Description :: string
  ad_Confirmation :: string
  ad_Risk :: action_risk

record actions_response =
  as_Actions :: "action_definition list option"

record action_result =
  ar_OK :: bool
  ar_ActionID :: string
  ar_TargetKey :: string
  ar_Kind :: action_kind
  ar_StateBefore :: string
  ar_StateAfter :: string
  ar_Summary :: string
  ar_Logs :: "string list"
  ar_ErrorKind :: string

type_synonym deployment_kind = string
abbreviation (input) "DeploymentDeploy \<equiv> ''deploy''"
abbreviation (input) "DeploymentRollback \<equiv> ''rollback''"

record deployment_definition =
  dd_ID :: string
  dd_StackKey :: string
  dd_StackLabel :: string
  dd_Kind :: deployment_kind
  dd_ReleaseID :: string
  dd_ReleaseLabel :: string
  dd_Image :: string
  dd_CurrentReleaseID :: string
  dd_PreviousReleaseID :: string
  dd_Description :: string
  dd_Confirmation :: string
  dd_Risk :: action_risk

record deployments_response =
  ds_Deployments :: "deployment_definition list option"

record deployment_result =
  de_OK :: bool
  de_ActionID :: string
  de_StackKey :: string
  de_Kind :: deployment_kind
  de_ReleaseID :: string
  de_PreviousReleaseID :: string
  de_Summary :: string
  de_RollbackPerformed :: bool
  de_ErrorKind :: string

section \<open>The patterns of names\<close>

text \<open>A pattern \<^verbatim>\<open>^[first][rest]{0,n}$\<close> over ASCII classes. A byte that is not ASCII is in no
  class, so matching bytes is matching runes.\<close>

definition alnum :: "char \<Rightarrow> bool" where
  "alnum c = ((48 \<le> byte c \<and> byte c \<le> 57) \<or> (65 \<le> byte c \<and> byte c \<le> 90) \<or> (97 \<le> byte c \<and> byte c \<le> 122))"

definition lower_alnum :: "char \<Rightarrow> bool" where
  "lower_alnum c = ((48 \<le> byte c \<and> byte c \<le> 57) \<or> (97 \<le> byte c \<and> byte c \<le> 122))"

definition name_pattern :: "(char \<Rightarrow> bool) \<Rightarrow> (char \<Rightarrow> bool) \<Rightarrow> nat \<Rightarrow> string \<Rightarrow> bool" where
  "name_pattern first rest n s = (case s of [] \<Rightarrow> False | c # cs \<Rightarrow> first c \<and> length cs \<le> n \<and> list_all rest cs)"

definition or_in :: "(char \<Rightarrow> bool) \<Rightarrow> string \<Rightarrow> char \<Rightarrow> bool" where
  "or_in p extra c = (p c \<or> c \<in> set extra)"

text \<open>\<^verbatim>\<open>[A-Za-z0-9][A-Za-z0-9_.@:-]{0,246}\.service\<close> and \<^verbatim>\<open>[A-Za-z0-9][A-Za-z0-9_.-]{0,127}\<close>.\<close>

definition systemd_resource :: "string \<Rightarrow> bool" where
  "systemd_resource s = (has_suffix s ''.service'' \<and>
     name_pattern alnum (or_in alnum ''_.@:-'') 246 (take (length s - 8) s))"

definition docker_resource :: "string \<Rightarrow> bool" where
  "docker_resource s = name_pattern alnum (or_in alnum ''_.-'') 127 s"

text \<open>Text made of such characters is ASCII, has no control character, no slash and no space.\<close>

definition plain_char :: "char \<Rightarrow> bool" where
  "plain_char c = (33 \<le> byte c \<and> byte c \<le> 126 \<and> byte c \<noteq> 47)"

definition plain :: "string \<Rightarrow> bool" where
  "plain s = list_all plain_char s"

lemma alnum_plain: "alnum c \<Longrightarrow> plain_char c"
  by (auto simp: alnum_def plain_char_def)

lemma lower_alnum_plain: "lower_alnum c \<Longrightarrow> plain_char c"
  by (auto simp: lower_alnum_def plain_char_def)

lemma plain_simps [simp]: "plain []" "plain (c # s) \<longleftrightarrow> plain_char c \<and> plain s" "plain (s @ t) \<longleftrightarrow> plain s \<and> plain t"
  by (simp_all add: plain_def)

lemma plain_ascii: "plain s \<Longrightarrow> ascii s"
  by (auto simp: plain_def ascii_def list_all_iff plain_char_def)

lemma plain_control: "plain s \<Longrightarrow> \<not> containsControl s"
  using plain_ascii[of s]
  by (auto simp: plain_def containsControl_def runes_ascii list_ex_iff list_all_iff plain_char_def is_control_def)

lemma plain_no_slash: "plain s \<Longrightarrow> CHR ''/'' \<notin> set s"
  by (auto simp: plain_def list_all_iff plain_char_def byte_def)

lemma plain_not_blank: "plain s \<Longrightarrow> s \<noteq> [] \<Longrightarrow> trim_space s \<noteq> []"
  using plain_ascii[of s]
  by (cases s) (auto simp: trim_space_empty runes_ascii list_all_iff plain_char_def is_space_def)

lemma plain_no_blank_chars: "plain s \<Longrightarrow> \<not> contains_any s [CHR '' '', CHR 0x09]"
  by (auto simp: plain_def contains_any_def list_ex_iff list_all_iff plain_char_def byte_def)

lemma name_pattern_plain:
  assumes "name_pattern first rest n s" "\<And>c. first c \<Longrightarrow> plain_char c" "\<And>c. rest c \<Longrightarrow> plain_char c"
  shows "plain s" and "s \<noteq> []" and "length s \<le> Suc n"
  using assms by (auto simp: name_pattern_def plain_def list_all_iff split: list.splits)

lemma or_in_plain: "or_in p extra c \<Longrightarrow> (\<And>c. p c \<Longrightarrow> plain_char c) \<Longrightarrow> plain extra \<Longrightarrow> plain_char c"
  by (auto simp: or_in_def plain_def list_all_iff)

lemma docker_resource_plain: "docker_resource s \<Longrightarrow> plain s \<and> s \<noteq> [] \<and> length s \<le> 128"
proof -
  assume a: "docker_resource s"
  have "plain ''_.-''" by (simp add: plain_char_def byte_def)
  then have "or_in alnum ''_.-'' c \<Longrightarrow> plain_char c" for c using or_in_plain alnum_plain by blast
  from name_pattern_plain[OF a[unfolded docker_resource_def] alnum_plain this] show ?thesis by simp
qed

lemma systemd_resource_plain: "systemd_resource s \<Longrightarrow> plain s \<and> s \<noteq> [] \<and> length s \<le> 255"
proof -
  assume a: "systemd_resource s"
  then obtain t where s: "s = t @ ''.service''" by (auto simp: systemd_resource_def has_suffix_iff)
  then have t: "name_pattern alnum (or_in alnum ''_.@:-'') 246 t" using a by (simp add: systemd_resource_def)
  have "plain ''_.@:-''" by (simp add: plain_char_def byte_def)
  then have "or_in alnum ''_.@:-'' c \<Longrightarrow> plain_char c" for c using or_in_plain alnum_plain by blast
  from name_pattern_plain[OF t alnum_plain this] show ?thesis by (simp add: s plain_char_def byte_def)
qed

text \<open>What the Hub is configured to know of an Agent (\<^verbatim>\<open>internal/hub/types.go\<close>).\<close>

record agent_config =
  ac_ID :: string
  ac_Name :: string
  ac_URL :: string
  ac_Token :: string
  ac_PublicHost :: string

end
