(* ===== verification/Agent_Deployments.thy ===== *)
theory Agent_Deployments
  imports Shared_Types
begin

text \<open>
  The Agent's side of deployments: the root policy and what it publishes
  (\<^verbatim>\<open>internal/agent/deployment_policy.go\<close>), the state kept per stack
  (\<^verbatim>\<open>deployment_policy_linux.go\<close>) and the executor with its automatic rollback
  (\<^verbatim>\<open>deployment_executor_linux.go\<close>). Commands are argument vectors given to \<open>runner\<close>, HTTP
  probes are given to \<open>probe\<close>; both thread the state of the host. The state file of the stack
  is explicit: staging a candidate and committing it are the two operations on it, and either
  may fail.
\<close>

section \<open>Patterns\<close>

definition deploymentKeyPattern :: "string \<Rightarrow> bool" where
  "deploymentKeyPattern s = name_pattern lower_alnum (or_in lower_alnum ''_.-'') 63 s"

definition deploymentReleasePattern :: "string \<Rightarrow> bool" where
  "deploymentReleasePattern s = name_pattern alnum (or_in alnum ''_.-'') 63 s"

text \<open>\<^verbatim>\<open>[a-z0-9]+(?:[._-][a-z0-9]+)*\<close> as an automaton: the state tells whether the last character
  was a letter or digit.\<close>

fun component_from :: "bool \<Rightarrow> string \<Rightarrow> bool" where
  "component_from after_alnum [] = after_alnum"
| "component_from after_alnum (c # cs) =
     (if lower_alnum c then component_from True cs
      else c \<in> set ''._-'' \<and> after_alnum \<and> component_from False cs)"

definition image_component :: "string \<Rightarrow> bool" where
  "image_component s = component_from False s"

definition registry_component :: "string \<Rightarrow> bool" where
  "registry_component s = (image_component s \<or>
     (case cut (CHR '':'') s of None \<Rightarrow> False
      | Some (name, port) \<Rightarrow>
          image_component name \<and> 1 \<le> length port \<and> length port \<le> 5 \<and> list_all is_digit port))"

definition image_repository :: "string \<Rightarrow> bool" where
  "image_repository s = (case split_on (CHR ''/'') s of
       [] \<Rightarrow> False
     | [c] \<Rightarrow> image_component c
     | c # cs \<Rightarrow> registry_component c \<and> list_all image_component cs)"

definition lower_hex :: "char \<Rightarrow> bool" where
  "lower_hex c = ((48 \<le> byte c \<and> byte c \<le> 57) \<or> (97 \<le> byte c \<and> byte c \<le> 102))"

definition hex64 :: "string \<Rightarrow> bool" where
  "hex64 s = (length s = 64 \<and> list_all lower_hex s)"

text \<open>A repository holds no \<^verbatim>\<open>@\<close>, so the digest starts after the first \<^verbatim>\<open>@sha256:\<close>.\<close>

definition immutableImagePattern :: "string \<Rightarrow> bool" where
  "immutableImagePattern img = (case cut_at ''@sha256:'' img of
       None \<Rightarrow> False | Some (repository, digest) \<Rightarrow> image_repository repository \<and> hex64 digest)"

definition dockerImageIDPattern :: "string \<Rightarrow> bool" where
  "dockerImageIDPattern s = (has_prefix s ''sha256:'' \<and> hex64 (drop 7 s))"

definition immutableImageDigest :: "string \<Rightarrow> string" where
  "immutableImageDigest img = (case cut_at ''@sha256:'' img of None \<Rightarrow> [] | Some (_, digest) \<Rightarrow> digest)"

section \<open>Policy and state\<close>

record health_policy =
  hp_Kind :: string
  hp_URL :: string
  hp_TimeoutSeconds :: int

record policy_release =
  pr_ID :: string
  pr_Label :: string
  pr_Image :: string

record deployment_stack =
  sk_Key :: string
  sk_Label :: string
  sk_ProjectDirectory :: string
  sk_ComposeFile :: string
  sk_Service :: string
  sk_Stateless :: bool
  sk_Health :: health_policy
  sk_Releases :: "policy_release list"

record deployment_policy =
  dp_Version :: int
  dp_Stacks :: "deployment_stack list option"

record state_release =
  sr_ID :: string
  sr_Label :: string
  sr_Image :: string

record deployment_state =
  dt_Version :: int
  dt_StackKey :: string
  dt_Current :: state_release
  dt_Previous :: state_release
  dt_UpdatedAt :: string

definition no_release :: state_release where
  "no_release = \<lparr>sr_ID = [], sr_Label = [], sr_Image = []\<rparr>"

definition no_state :: deployment_state where
  "no_state = \<lparr>dt_Version = 0, dt_StackKey = [], dt_Current = no_release, dt_Previous = no_release, dt_UpdatedAt = []\<rparr>"

definition deploymentPolicyVersion :: int where "deploymentPolicyVersion = 1"
definition deploymentStateVersion :: int where "deploymentStateVersion = 1"
definition maximumDeploymentStacks :: nat where "maximumDeploymentStacks = 32"
definition maximumDeploymentReleases :: nat where "maximumDeploymentReleases = 32"

definition deploymentTextHasControl :: "string \<Rightarrow> bool" where
  "deploymentTextHasControl value = list_ex is_control (runes value)"

definition label_ok :: "string \<Rightarrow> bool" where
  "label_ok s = (\<not> (trim_space s = [] \<or> rune_count s > 80 \<or> deploymentTextHasControl s))"

text \<open>\<^verbatim>\<open>filepath\<close> on absolute paths: a clean one has no empty, dot or dot-dot element, and
  \<^verbatim>\<open>Rel\<close> climbs from the base to the common part and descends to the target.\<close>

definition path_elements :: "string \<Rightarrow> string list" where
  "path_elements p = (if p = ''/'' then [] else split_on (CHR ''/'') (drop 1 p))"

definition is_abs :: "string \<Rightarrow> bool" where
  "is_abs p = has_prefix p ''/''"

definition is_clean_abs :: "string \<Rightarrow> bool" where
  "is_clean_abs p = (is_abs p \<and> list_all (\<lambda>e. e \<noteq> [] \<and> e \<noteq> ''.'' \<and> e \<noteq> ''..'') (path_elements p))"

fun common_prefix :: "string list \<Rightarrow> string list \<Rightarrow> nat" where
  "common_prefix (x # xs) (y # ys) = (if x = y then Suc (common_prefix xs ys) else 0)"
| "common_prefix _ _ = 0"

definition path_rel :: "string \<Rightarrow> string \<Rightarrow> string" where
  "path_rel base targ =
     (let b = path_elements base; t = path_elements targ; n = common_prefix b t;
          es = replicate (length b - n) ''..'' @ drop n t
      in if es = [] then ''.'' else join ''/'' es)"

definition validateDeploymentPath :: "string \<Rightarrow> go_error + unit" where
  "validateDeploymentPath value =
     guard ''path must be a clean absolute UTF-8 path''
       (value = [] \<or> length value > 512 \<or> \<not> valid_utf8 value \<or> deploymentTextHasControl value
        \<or> \<not> is_abs value \<or> \<not> is_clean_abs value)"

definition validateDeploymentHealth :: "url_parser \<Rightarrow> health_policy \<Rightarrow> go_error + unit" where
  "validateDeploymentHealth parse_url h =
     andThen (guard ''timeout must be 10..300 seconds'' (hp_TimeoutSeconds h < 10 \<or> hp_TimeoutSeconds h > 300))
     (\<lambda>_. if hp_Kind h = ''docker'' then guard ''Docker health must not contain a URL'' (hp_URL h \<noteq> [])
          else if hp_Kind h = ''http'' then
            (case parse_url (hp_URL h) of
               None \<Rightarrow> Inl ''HTTP health must be an explicit loopback URL without credentials, query, or fragment''
             | Some u \<Rightarrow>
                 andThen (guard ''HTTP health must be an explicit loopback URL without credentials, query, or fragment''
                   (u_Scheme u \<noteq> ''http'' \<or> u_Hostname u \<noteq> ''127.0.0.1'' \<or> u_HasUser u \<or> u_RawQuery u \<noteq> []
                    \<or> u_Fragment u \<noteq> [] \<or> u_PortText u = []))
                 (\<lambda>_. andThen (guard ''HTTP health port is invalid''
                   (case atoi (u_PortText u) of None \<Rightarrow> True | Some port \<Rightarrow> port < 1 \<or> port > 65535))
                 (\<lambda>_. guard ''HTTP health URL must contain a path'' (u_Path u = []))))
          else Inl ''health kind must be docker or http'')"

text \<open>The loop over the releases: the ids and digests seen so far.\<close>

fun check_releases :: "string list \<Rightarrow> string list \<Rightarrow> policy_release list \<Rightarrow> go_error + unit" where
  "check_releases ids digests [] = Inr ()"
| "check_releases ids digests (r # rs) =
     andThen (guard ''deployment stack release ID is invalid''
       (\<not> deploymentReleasePattern (pr_ID r) \<or> equal_fold_ascii (pr_ID r) ''external''))
     (\<lambda>_. andThen (guard ''deployment stack release label is invalid''
       (trim_space (pr_Label r) = [] \<or> rune_count (pr_Label r) > 80 \<or> deploymentTextHasControl (pr_Label r)))
     (\<lambda>_. andThen (guard ''deployment stack release image must be an immutable sha256 reference''
       (\<not> immutableImagePattern (pr_Image r) \<or> length (pr_Image r) > 512))
     (\<lambda>_. andThen (guard ''deployment stack repeats release'' (pr_ID r \<in> set ids))
     (\<lambda>_. let digest = immutableImageDigest (pr_Image r) in
          andThen (guard ''deployment stack repeats an immutable image digest'' (digest \<in> set digests))
     (\<lambda>_. check_releases (pr_ID r # ids) (digest # digests) rs)))))"

definition validateDeploymentStack :: "url_parser \<Rightarrow> deployment_stack \<Rightarrow> go_error + unit" where
  "validateDeploymentStack parse_url s =
     andThen (guard ''deployment stack key is invalid'' (\<not> deploymentKeyPattern (sk_Key s)))
     (\<lambda>_. andThen (guard ''deployment stack label is invalid''
       (trim_space (sk_Label s) = [] \<or> rune_count (sk_Label s) > 80 \<or> deploymentTextHasControl (sk_Label s)))
     (\<lambda>_. andThen (guard ''deployment stack must explicitly be stateless'' (\<not> sk_Stateless s))
     (\<lambda>_. andThen (guard ''deployment stack project directory is invalid''
       (validateDeploymentPath (sk_ProjectDirectory s) \<noteq> Inr ()))
     (\<lambda>_. andThen (guard ''deployment stack compose file is invalid''
       (validateDeploymentPath (sk_ComposeFile s) \<noteq> Inr ()))
     (\<lambda>_. andThen (let relative = path_rel (sk_ProjectDirectory s) (sk_ComposeFile s) in
       guard ''deployment stack compose file escapes project directory''
         (relative = ''.'' \<or> relative = ''..'' \<or> has_prefix relative ''../''))
     (\<lambda>_. andThen (guard ''deployment stack service is invalid'' (\<not> docker_resource (sk_Service s)))
     (\<lambda>_. andThen (validateDeploymentHealth parse_url (sk_Health s))
     (\<lambda>_. andThen (guard ''deployment stack must have 1..32 releases''
       (length (sk_Releases s) < 1 \<or> length (sk_Releases s) > maximumDeploymentReleases))
     (\<lambda>_. check_releases [] [] (sk_Releases s))))))))))"

definition validateDeploymentPolicy :: "url_parser \<Rightarrow> deployment_policy \<Rightarrow> go_error + unit" where
  "validateDeploymentPolicy parse_url p =
     andThen (guard ''deployment policy version must be 1'' (dp_Version p \<noteq> deploymentPolicyVersion))
     (\<lambda>_. case dp_Stacks p of
        None \<Rightarrow> Inl ''deployment policy stacks are missing or exceed limit''
      | Some stacks \<Rightarrow>
          andThen (guard ''deployment policy stacks are missing or exceed limit''
            (length stacks > maximumDeploymentStacks))
          (\<lambda>_. check_distinct ''duplicate deployment stack'' sk_Key (validateDeploymentStack parse_url)
                 (\<lambda>_. Inr ()) [] stacks))"

definition validateDeploymentStateRelease :: "state_release \<Rightarrow> bool \<Rightarrow> go_error + unit" where
  "validateDeploymentStateRelease r optional =
     (if optional \<and> r = no_release then Inr ()
      else guard ''state release fields are invalid''
        (\<not> deploymentReleasePattern (sr_ID r) \<or> trim_space (sr_Label r) = [] \<or> rune_count (sr_Label r) > 80
         \<or> deploymentTextHasControl (sr_Label r) \<or> \<not> immutableImagePattern (sr_Image r) \<or> length (sr_Image r) > 512))"

text \<open>\<open>utc_stamp\<close> tells whether a text is a UTC time in RFC 3339 form.\<close>

definition validateDeploymentState ::
  "(string \<Rightarrow> bool) \<Rightarrow> deployment_state \<Rightarrow> deployment_stack \<Rightarrow> go_error + unit" where
  "validateDeploymentState utc_stamp st s =
     andThen (guard ''state identity is invalid'' (dt_Version st \<noteq> deploymentStateVersion \<or> dt_StackKey st \<noteq> sk_Key s))
     (\<lambda>_. andThen (guard ''current state release is invalid''
       (validateDeploymentStateRelease (dt_Current st) False \<noteq> Inr ()))
     (\<lambda>_. andThen (guard ''previous state release is invalid''
       (validateDeploymentStateRelease (dt_Previous st) True \<noteq> Inr ()))
     (\<lambda>_. andThen (guard ''current and previous state images are equal''
       (sr_Image (dt_Previous st) \<noteq> [] \<and>
        immutableImageDigest (sr_Image (dt_Current st)) = immutableImageDigest (sr_Image (dt_Previous st))))
     (\<lambda>_. guard ''state update time is invalid'' (\<not> utc_stamp (dt_UpdatedAt st))))))"

section \<open>What the Agent publishes\<close>

definition deploymentActionID :: "deployment_kind \<Rightarrow> string \<Rightarrow> string \<Rightarrow> string" where
  "deploymentActionID kind stackKey releaseID =
     (if kind = DeploymentRollback then ''rollback:'' @ stackKey else ''deploy:'' @ stackKey @ '':'' @ releaseID)"

definition deploy_offer :: "deployment_stack \<Rightarrow> deployment_state \<Rightarrow> policy_release \<Rightarrow> deployment_definition" where
  "deploy_offer s st r =
     \<lparr>dd_ID = deploymentActionID DeploymentDeploy (sk_Key s) (pr_ID r), dd_StackKey = sk_Key s,
      dd_StackLabel = sk_Label s, dd_Kind = DeploymentDeploy, dd_ReleaseID = pr_ID r, dd_ReleaseLabel = pr_Label r,
      dd_Image = pr_Image r, dd_CurrentReleaseID = sr_ID (dt_Current st),
      dd_PreviousReleaseID = sr_ID (dt_Previous st),
      dd_Description = [CHR 0xE9, CHR 0x83, CHR 0xA8, CHR 0xE7, CHR 0xBD, CHR 0xB2, CHR 0xE4, CHR 0xB8, CHR 0x8D, CHR 0xE5, CHR 0x8F, CHR 0xAF, CHR 0xE5, CHR 0x8F, CHR 0x98, CHR 0xE9, CHR 0x95, CHR 0x9C, CHR 0xE5, CHR 0x83, CHR 0x8F, CHR 0xE5, CHR 0xB9, CHR 0xB6, CHR 0xE9, CHR 0xAA, CHR 0x8C, CHR 0xE8, CHR 0xAF, CHR 0x81, CHR 0xEF, CHR 0xBC, CHR 0x9B, CHR 0xE5, CHR 0xA4, CHR 0xB1, CHR 0xE8, CHR 0xB4, CHR 0xA5, CHR 0xE8, CHR 0x87, CHR 0xAA, CHR 0xE5, CHR 0x8A, CHR 0xA8, CHR 0xE5, CHR 0x9B, CHR 0x9E, CHR 0xE6, CHR 0xBB, CHR 0x9A, CHR 0xEF, CHR 0xBC, CHR 0x9A] @ sk_Label s @ '' / '' @ pr_Label r,
      dd_Confirmation = ([CHR 0xE7, CHR 0xA1, CHR 0xAE, CHR 0xE8, CHR 0xAE, CHR 0xA4, CHR 0xE9, CHR 0x83, CHR 0xA8, CHR 0xE7, CHR 0xBD, CHR 0xB2] @ '' '') @ sk_Label s @ ('' '' @ [CHR 0xE5, CHR 0x88, CHR 0xB0] @ '' '') @ pr_Label r,
      dd_Risk = ActionRiskDisruptive\<rparr>"

definition rollback_offer :: "deployment_stack \<Rightarrow> deployment_state \<Rightarrow> deployment_definition" where
  "rollback_offer s st =
     \<lparr>dd_ID = deploymentActionID DeploymentRollback (sk_Key s) [], dd_StackKey = sk_Key s,
      dd_StackLabel = sk_Label s, dd_Kind = DeploymentRollback, dd_ReleaseID = sr_ID (dt_Previous st),
      dd_ReleaseLabel = sr_Label (dt_Previous st),
      dd_Image = sr_Image (dt_Previous st), dd_CurrentReleaseID = sr_ID (dt_Current st),
      dd_PreviousReleaseID = sr_ID (dt_Previous st),
      dd_Description = [CHR 0xE5, CHR 0x9B, CHR 0x9E, CHR 0xE6, CHR 0xBB, CHR 0x9A, CHR 0xE5, CHR 0x88, CHR 0xB0, CHR 0xE4, CHR 0xB8, CHR 0x8A, CHR 0xE4, CHR 0xB8, CHR 0x80, CHR 0xE4, CHR 0xB8, CHR 0xAA, CHR 0xE5, CHR 0xB7, CHR 0xB2, CHR 0xE9, CHR 0xAA, CHR 0x8C, CHR 0xE8, CHR 0xAF, CHR 0x81, CHR 0xE7, CHR 0x89, CHR 0x88, CHR 0xE6, CHR 0x9C, CHR 0xAC, CHR 0xEF, CHR 0xBC, CHR 0x9A] @ sk_Label s @ '' / '' @ sr_Label (dt_Previous st),
      dd_Confirmation = ([CHR 0xE7, CHR 0xA1, CHR 0xAE, CHR 0xE8, CHR 0xAE, CHR 0xA4, CHR 0xE5, CHR 0x9B, CHR 0x9E, CHR 0xE6, CHR 0xBB, CHR 0x9A] @ '' '') @ sk_Label s @ ('' '' @ [CHR 0xE5, CHR 0x88, CHR 0xB0] @ '' '') @ sr_Label (dt_Previous st),
      dd_Risk = ActionRiskDisruptive\<rparr>"

text \<open>The states by stack key; a stack without one has the zero state.\<close>

type_synonym deployment_states = "string \<rightharpoonup> deployment_state"

definition state_of :: "deployment_states \<Rightarrow> string \<Rightarrow> deployment_state" where
  "state_of states key = (case states key of None \<Rightarrow> no_state | Some st \<Rightarrow> st)"

definition stack_offers :: "deployment_states \<Rightarrow> deployment_stack \<Rightarrow> deployment_definition list" where
  "stack_offers states s =
     (let st = state_of states (sk_Key s) in
      map (deploy_offer s st) (filter (\<lambda>r. sr_Image (dt_Current st) \<noteq> pr_Image r) (sk_Releases s)) @
      (if sr_Image (dt_Previous st) \<noteq> [] then [rollback_offer s st] else []))"

definition deploymentDefinitions ::
  "deployment_stack list \<Rightarrow> deployment_states \<Rightarrow> deployment_definition list" where
  "deploymentDefinitions stacks states =
     sort_key dd_StackLabel (sort_key dd_Kind (sort_key dd_ReleaseLabel (concat (map (stack_offers states) stacks))))"

definition findDeploymentDefinition :: "deployment_definition list \<Rightarrow> string \<Rightarrow> deployment_definition option" where
  "findDeploymentDefinition ds k = find (\<lambda>d. dd_ID d = k) ds"

definition findDeploymentStack :: "deployment_stack list \<Rightarrow> string \<Rightarrow> deployment_stack option" where
  "findDeploymentStack stacks key = find (\<lambda>s. sk_Key s = key) stacks"

section \<open>The unprivileged Agent checks the executor\<close>

definition validDeploymentErrorKind :: "string \<Rightarrow> bool \<Rightarrow> bool" where
  "validDeploymentErrorKind value ok =
     (if ok then value = []
      else value \<in> {''preflight_failed'', ''image_prepare_failed'', ''current_release_unknown'',
        ''state_prepare_failed'', ''compose_apply_failed'', ''health_verification_failed'',
        ''state_commit_failed'', ''rollback_failed''})"

definition validateDeploymentDefinition :: "deployment_definition \<Rightarrow> go_error + unit" where
  "validateDeploymentDefinition d =
     andThen (guard ''deployment definition fields are invalid''
       (\<not> deploymentKeyPattern (dd_StackKey d)
        \<or> trim_space (dd_StackLabel d) = [] \<or> rune_count (dd_StackLabel d) > 80 \<or> deploymentTextHasControl (dd_StackLabel d)
        \<or> \<not> deploymentReleasePattern (dd_ReleaseID d)
        \<or> trim_space (dd_ReleaseLabel d) = [] \<or> rune_count (dd_ReleaseLabel d) > 80 \<or> deploymentTextHasControl (dd_ReleaseLabel d)
        \<or> \<not> immutableImagePattern (dd_Image d) \<or> length (dd_Image d) > 512))
     (\<lambda>_. andThen (check_all (\<lambda>r. guard ''deployment definition state identity is invalid''
         (r \<noteq> [] \<and> \<not> deploymentReleasePattern r)) [dd_CurrentReleaseID d, dd_PreviousReleaseID d])
     (\<lambda>_. andThen (guard ''deployment definition risk is invalid'' (dd_Risk d \<noteq> ActionRiskDisruptive))
     (\<lambda>_. if dd_Kind d = DeploymentDeploy then
            guard ''deployment definition deploy presentation is invalid''
              (equal_fold_ascii (dd_ReleaseID d) ''external''
               \<or> dd_ID d \<noteq> deploymentActionID (dd_Kind d) (dd_StackKey d) (dd_ReleaseID d)
               \<or> dd_Description d \<noteq> [CHR 0xE9, CHR 0x83, CHR 0xA8, CHR 0xE7, CHR 0xBD, CHR 0xB2, CHR 0xE4, CHR 0xB8, CHR 0x8D, CHR 0xE5, CHR 0x8F, CHR 0xAF, CHR 0xE5, CHR 0x8F, CHR 0x98, CHR 0xE9, CHR 0x95, CHR 0x9C, CHR 0xE5, CHR 0x83, CHR 0x8F, CHR 0xE5, CHR 0xB9, CHR 0xB6, CHR 0xE9, CHR 0xAA, CHR 0x8C, CHR 0xE8, CHR 0xAF, CHR 0x81, CHR 0xEF, CHR 0xBC, CHR 0x9B, CHR 0xE5, CHR 0xA4, CHR 0xB1, CHR 0xE8, CHR 0xB4, CHR 0xA5, CHR 0xE8, CHR 0x87, CHR 0xAA, CHR 0xE5, CHR 0x8A, CHR 0xA8, CHR 0xE5, CHR 0x9B, CHR 0x9E, CHR 0xE6, CHR 0xBB, CHR 0x9A, CHR 0xEF, CHR 0xBC, CHR 0x9A] @ dd_StackLabel d @ '' / '' @ dd_ReleaseLabel d
               \<or> dd_Confirmation d \<noteq> ([CHR 0xE7, CHR 0xA1, CHR 0xAE, CHR 0xE8, CHR 0xAE, CHR 0xA4, CHR 0xE9, CHR 0x83, CHR 0xA8, CHR 0xE7, CHR 0xBD, CHR 0xB2] @ '' '') @ dd_StackLabel d @ ('' '' @ [CHR 0xE5, CHR 0x88, CHR 0xB0] @ '' '') @ dd_ReleaseLabel d)
          else if dd_Kind d = DeploymentRollback then
            guard ''deployment definition rollback presentation is invalid''
              (dd_ID d \<noteq> deploymentActionID (dd_Kind d) (dd_StackKey d) []
               \<or> dd_Description d \<noteq> [CHR 0xE5, CHR 0x9B, CHR 0x9E, CHR 0xE6, CHR 0xBB, CHR 0x9A, CHR 0xE5, CHR 0x88, CHR 0xB0, CHR 0xE4, CHR 0xB8, CHR 0x8A, CHR 0xE4, CHR 0xB8, CHR 0x80, CHR 0xE4, CHR 0xB8, CHR 0xAA, CHR 0xE5, CHR 0xB7, CHR 0xB2, CHR 0xE9, CHR 0xAA, CHR 0x8C, CHR 0xE8, CHR 0xAF, CHR 0x81, CHR 0xE7, CHR 0x89, CHR 0x88, CHR 0xE6, CHR 0x9C, CHR 0xAC, CHR 0xEF, CHR 0xBC, CHR 0x9A] @ dd_StackLabel d @ '' / '' @ dd_ReleaseLabel d
               \<or> dd_Confirmation d \<noteq> ([CHR 0xE7, CHR 0xA1, CHR 0xAE, CHR 0xE8, CHR 0xAE, CHR 0xA4, CHR 0xE5, CHR 0x9B, CHR 0x9E, CHR 0xE6, CHR 0xBB, CHR 0x9A] @ '' '') @ dd_StackLabel d @ ('' '' @ [CHR 0xE5, CHR 0x88, CHR 0xB0] @ '' '') @ dd_ReleaseLabel d)
          else Inl ''deployment definition kind is invalid'')))"

text \<open>\<^verbatim>\<open>decodeDeploymentsResponse\<close> and \<^verbatim>\<open>decodeDeploymentExecutionResult\<close> after their JSON has been
  decoded; \<open>None\<close> is output that is too long or not the expected JSON.\<close>

definition decodeDeploymentsResponse :: "deployments_response option \<Rightarrow> go_error + deployments_response" where
  "decodeDeploymentsResponse decoded = (case decoded of
       None \<Rightarrow> Inl ''deployment response JSON is invalid''
     | Some r \<Rightarrow> (case ds_Deployments r of
         None \<Rightarrow> Inl ''deployment response count is invalid''
       | Some ds \<Rightarrow>
           andThen (guard ''deployment response count is invalid''
             (length ds > maximumDeploymentStacks * (maximumDeploymentReleases + 1)))
           (\<lambda>_. andThen (check_distinct ''deployment response contains duplicate IDs'' dd_ID
                  validateDeploymentDefinition (\<lambda>_. Inr ()) [] ds) (\<lambda>_. Inr r))))"

definition decodeDeploymentExecutionResult ::
  "deployment_result option \<Rightarrow> deployment_definition \<Rightarrow> go_error + deployment_result" where
  "decodeDeploymentExecutionResult decoded expected = (case decoded of
       None \<Rightarrow> Inl ''deployment result JSON is invalid''
     | Some r \<Rightarrow>
     andThen (guard ''deployment result identity is invalid''
       (de_ActionID r \<noteq> dd_ID expected \<or> de_StackKey r \<noteq> dd_StackKey expected \<or> de_Kind r \<noteq> dd_Kind expected
        \<or> de_ReleaseID r \<noteq> dd_ReleaseID expected
        \<or> dd_CurrentReleaseID expected \<noteq> [] \<and> de_PreviousReleaseID r \<noteq> dd_CurrentReleaseID expected
        \<or> de_PreviousReleaseID r \<noteq> [] \<and> \<not> deploymentReleasePattern (de_PreviousReleaseID r)))
     (\<lambda>_. andThen (guard ''deployment result state is invalid''
       (de_OK r = (de_ErrorKind r \<noteq> []) \<or> \<not> validDeploymentErrorKind (de_ErrorKind r) (de_OK r)))
     (\<lambda>_. andThen (guard ''deployment result rollback state is invalid''
       (de_OK r \<and> de_RollbackPerformed r \<or> de_ErrorKind r = ''rollback_failed'' \<and> de_RollbackPerformed r))
     (\<lambda>_. andThen (guard ''deployment result summary is invalid''
       (deploymentTextHasControl (de_Summary r) \<or> rune_count (de_Summary r) > 200))
     (\<lambda>_. Inr r)))))"

end
