(* ===== verification/Agent_Actions.thy ===== *)
theory Agent_Actions
  imports Shared_Types
begin

text \<open>
  The Agent's side of remote actions: the root policy of \<^verbatim>\<open>internal/agent/action_policy.go\<close>
  (validation, the published definitions, the lookup of an approved one) and the executor of
  \<^verbatim>\<open>internal/agent/action_policy_linux.go\<close>. A command of the executor is its argument vector;
  what the host does with it is the parameter \<open>runner\<close>, which also threads the state of the
  host. \<^verbatim>\<open>sort.Slice\<close> leaves the order of two targets with one label and action open; the model
  keeps the policy's.
\<close>

section \<open>The policy\<close>

record policy_target =
  pt_Key :: string
  pt_Label :: string
  pt_Kind :: action_target_kind
  pt_Resource :: string
  pt_Actions :: "action_kind list"

record action_policy =
  ap_Version :: int
  ap_Targets :: "policy_target list option"

definition actionPolicyVersion :: int where "actionPolicyVersion = 1"
definition maximumActionTargets :: nat where "maximumActionTargets = 64"

definition hasActionControl :: "string \<Rightarrow> bool" where
  "hasActionControl value = list_ex is_control (runes value)"

definition actionID :: "string \<Rightarrow> action_kind \<Rightarrow> string" where
  "actionID targetKey action = action @ '':'' @ targetKey"

definition known_action :: "action_kind \<Rightarrow> bool" where
  "known_action a = (a = ActionStart \<or> a = ActionStop \<or> a = ActionRestart \<or> a = ActionLogs)"

definition validateActionTarget :: "policy_target \<Rightarrow> go_error + unit" where
  "validateActionTarget t =
     andThen (guard ''action target key is invalid''
       (pt_Key t = [] \<or> length (pt_Key t) > 256 \<or> \<not> valid_utf8 (pt_Key t)))
     (\<lambda>_. andThen (guard ''action target label is invalid''
       (trim_space (pt_Label t) = [] \<or> rune_count (pt_Label t) > 80 \<or> hasActionControl (pt_Label t)))
     (\<lambda>_. andThen (guard ''action target must approve 1..4 actions''
       (length (pt_Actions t) < 1 \<or> length (pt_Actions t) > 4))
     (\<lambda>_. andThen
       (if pt_Kind t = ActionTargetSystemd then
          guard ''action target has invalid systemd identity''
            (\<not> systemd_resource (pt_Resource t) \<or> pt_Key t \<noteq> ''systemd:'' @ pt_Resource t)
        else if pt_Kind t = ActionTargetDocker then
          guard ''action target has invalid Docker identity''
            (\<not> docker_resource (pt_Resource t) \<or> pt_Key t \<noteq> ''docker:'' @ pt_Resource t)
        else Inl ''action target kind is invalid'')
     (\<lambda>_. check_distinct ''action target repeats action'' (\<lambda>a. a)
            (\<lambda>a. guard ''action target action is invalid'' (\<not> known_action a)) (\<lambda>_. Inr ()) [] (pt_Actions t)))))"

text \<open>The loop of \<^verbatim>\<open>validateActionPolicy\<close>: the keys and the action ids seen so far.\<close>

fun check_targets :: "string list \<Rightarrow> string list \<Rightarrow> policy_target list \<Rightarrow> go_error + unit" where
  "check_targets keys ids [] = Inr ()"
| "check_targets keys ids (t # ts) =
     andThen (validateActionTarget t)
     (\<lambda>_. andThen (guard ''duplicate action target'' (pt_Key t \<in> set keys))
     (\<lambda>_. let new = map (actionID (pt_Key t)) (pt_Actions t) in
          andThen (guard ''duplicate action'' (first_dup ids new \<noteq> None))
     (\<lambda>_. check_targets (pt_Key t # keys) (rev new @ ids) ts)))"

definition validateActionPolicy :: "action_policy \<Rightarrow> go_error + unit" where
  "validateActionPolicy p =
     andThen (guard ''action policy version must be 1'' (ap_Version p \<noteq> actionPolicyVersion))
     (\<lambda>_. case ap_Targets p of
        None \<Rightarrow> Inl ''action policy targets are missing or exceed limit''
      | Some targets \<Rightarrow>
          andThen (guard ''action policy targets are missing or exceed limit''
            (length targets > maximumActionTargets))
          (\<lambda>_. check_targets [] [] targets))"

section \<open>What the Agent publishes\<close>

definition actionPresentation :: "action_kind \<Rightarrow> string \<times> string \<times> action_risk" where
  "actionPresentation action =
     (if action = ActionStart then ([CHR 0xE5, CHR 0x90, CHR 0xAF, CHR 0xE5, CHR 0x8A, CHR 0xA8], [CHR 0xE5, CHR 0x90, CHR 0xAF, CHR 0xE5, CHR 0x8A, CHR 0xA8, CHR 0xE5, CHR 0xB9, CHR 0xB6, CHR 0xE9, CHR 0xAA, CHR 0x8C, CHR 0xE8, CHR 0xAF, CHR 0x81, CHR 0xE8, CHR 0xBF, CHR 0x90, CHR 0xE8, CHR 0xA1, CHR 0x8C, CHR 0xE7, CHR 0x8A, CHR 0xB6, CHR 0xE6, CHR 0x80, CHR 0x81, CHR 0xEF, CHR 0xBC, CHR 0x9A], ActionRiskChange)
      else if action = ActionStop then ([CHR 0xE5, CHR 0x81, CHR 0x9C, CHR 0xE6, CHR 0xAD, CHR 0xA2], [CHR 0xE5, CHR 0x81, CHR 0x9C, CHR 0xE6, CHR 0xAD, CHR 0xA2, CHR 0xE5, CHR 0xB9, CHR 0xB6, CHR 0xE9, CHR 0xAA, CHR 0x8C, CHR 0xE8, CHR 0xAF, CHR 0x81, CHR 0xE9, CHR 0x80, CHR 0x80, CHR 0xE5, CHR 0x87, CHR 0xBA, CHR 0xE7, CHR 0x8A, CHR 0xB6, CHR 0xE6, CHR 0x80, CHR 0x81, CHR 0xEF, CHR 0xBC, CHR 0x9A], ActionRiskDisruptive)
      else if action = ActionRestart then ([CHR 0xE9, CHR 0x87, CHR 0x8D, CHR 0xE5, CHR 0x90, CHR 0xAF], [CHR 0xE9, CHR 0x87, CHR 0x8D, CHR 0xE5, CHR 0x90, CHR 0xAF, CHR 0xE5, CHR 0xB9, CHR 0xB6, CHR 0xE9, CHR 0xAA, CHR 0x8C, CHR 0xE8, CHR 0xAF, CHR 0x81, CHR 0xE6, CHR 0x81, CHR 0xA2, CHR 0xE5, CHR 0xA4, CHR 0x8D, CHR 0xE8, CHR 0xBF, CHR 0x90, CHR 0xE8, CHR 0xA1, CHR 0x8C, CHR 0xEF, CHR 0xBC, CHR 0x9A], ActionRiskDisruptive)
      else if action = ActionLogs then ([CHR 0xE8, CHR 0xAF, CHR 0xBB, CHR 0xE5, CHR 0x8F, CHR 0x96, CHR 0xE6, CHR 0x97, CHR 0xA5, CHR 0xE5, CHR 0xBF, CHR 0x97], ([CHR 0xE8, CHR 0xAF, CHR 0xBB, CHR 0xE5, CHR 0x8F, CHR 0x96, CHR 0xE6, CHR 0x9C, CHR 0x80, CHR 0xE5, CHR 0xA4, CHR 0x9A] @ '' 200 '' @ [CHR 0xE8, CHR 0xA1, CHR 0x8C, CHR 0xE8, CHR 0x84, CHR 0xB1, CHR 0xE6, CHR 0x95, CHR 0x8F, CHR 0xE6, CHR 0x97, CHR 0xA5, CHR 0xE5, CHR 0xBF, CHR 0x97, CHR 0xEF, CHR 0xBC, CHR 0x9A]), ActionRiskRead)
      else ([CHR 0xE6, CHR 0x89, CHR 0xA7, CHR 0xE8, CHR 0xA1, CHR 0x8C], [CHR 0xE6, CHR 0x89, CHR 0xA7, CHR 0xE8, CHR 0xA1, CHR 0x8C, CHR 0xEF, CHR 0xBC, CHR 0x9A], ActionRiskDisruptive))"

definition actionOrder :: "action_kind \<Rightarrow> nat" where
  "actionOrder action =
     (if action = ActionLogs then 0 else if action = ActionStart then 1
      else if action = ActionRestart then 2 else if action = ActionStop then 3 else 4)"

definition published :: "policy_target \<Rightarrow> action_kind \<Rightarrow> action_definition" where
  "published t action =
     (let (verb, description, risk) = actionPresentation action in
      \<lparr>ad_ID = actionID (pt_Key t) action, ad_TargetKey = pt_Key t, ad_TargetLabel = pt_Label t,
       ad_TargetKind = pt_Kind t, ad_Kind = action, ad_Description = description @ pt_Label t,
       ad_Confirmation = [CHR 0xE7, CHR 0xA1, CHR 0xAE, CHR 0xE8, CHR 0xAE, CHR 0xA4] @ verb @ '' '' @ pt_Label t, ad_Risk = risk\<rparr>)"

definition actionDefinitions :: "policy_target list \<Rightarrow> action_definition list" where
  "actionDefinitions targets =
     sort_key ad_TargetLabel (sort_key (\<lambda>d. actionOrder (ad_Kind d))
       (concat (map (\<lambda>t. map (published t) (pt_Actions t)) targets)))"

fun approvedAction :: "policy_target list \<Rightarrow> string \<Rightarrow> (policy_target \<times> action_definition) option" where
  "approvedAction [] k = None"
| "approvedAction (t # ts) k =
     (case find (\<lambda>d. ad_ID d = k) (actionDefinitions [t]) of
        Some d \<Rightarrow> Some (t, d)
      | None \<Rightarrow> approvedAction ts k)"

section \<open>The executor\<close>

text \<open>A command answers its output, its error output and whether it failed.\<close>

type_synonym 'w runner = "string list \<Rightarrow> 'w \<Rightarrow> (string \<times> string \<times> bool) \<times> 'w"

definition approvedTargetState :: "policy_target \<Rightarrow> 'w runner \<Rightarrow> 'w \<Rightarrow> (go_error + string) \<times> 'w" where
  "approvedTargetState t runner w =
     (if pt_Kind t = ActionTargetSystemd then
        (let ((out, _, failed), w') = runner [''systemctl'', ''is-active'', ''--'', pt_Resource t] w;
             st = trim_space out
         in (if st = ''active'' then Inr ''running''
             else if st = ''inactive'' \<or> st = ''failed'' \<or> st = ''deactivating'' then Inr ''stopped''
             else if failed then Inl ''command failed''
             else Inl ''systemd state is unsupported'', w'))
      else if pt_Kind t = ActionTargetDocker then
        (let ((out, _, failed), w') =
               runner [''docker'', ''inspect'', ''--format={{.State.Running}}'', ''--'', pt_Resource t] w;
             st = trim_space out
         in (if failed then Inl ''command failed''
             else if st = ''true'' then Inr ''running''
             else if st = ''false'' then Inr ''stopped''
             else Inl ''Docker state is unsupported'', w'))
      else (Inl ''target kind is unsupported'', w))"

definition changeApprovedTarget ::
  "policy_target \<Rightarrow> action_kind \<Rightarrow> 'w runner \<Rightarrow> 'w \<Rightarrow> (go_error + unit) \<times> 'w" where
  "changeApprovedTarget t action runner w =
     (if action \<noteq> ActionStart \<and> action \<noteq> ActionStop \<and> action \<noteq> ActionRestart
      then (Inl ''state action is unsupported'', w)
      else if pt_Kind t = ActionTargetSystemd then
        (let ((_, _, failed), w') = runner [''systemctl'', action, ''--'', pt_Resource t] w
         in (guard ''command failed'' failed, w'))
      else if pt_Kind t = ActionTargetDocker then
        (let ((_, _, failed), w') = runner [''docker'', action, pt_Resource t] w
         in (guard ''command failed'' failed, w'))
      else (Inl ''target kind is unsupported'', w))"

section \<open>Log lines\<close>

definition maximumActionLogLines :: nat where "maximumActionLogLines = 200"
definition maximumActionLogBytes :: nat where "maximumActionLogBytes = 65536"
definition maximumActionLineBytes :: nat where "maximumActionLineBytes = 512"

text \<open>The bytes of the error rune, and \<^verbatim>\<open>bytes.ToValidUTF8\<close>: one error rune per run of bad bytes.\<close>

fun valid_chunks :: "bool \<Rightarrow> (nat \<times> string) list \<Rightarrow> (nat \<times> string) list" where
  "valid_chunks bad [] = []"
| "valid_chunks bad (p # ps) =
     (if bad_chunk p then (if bad then valid_chunks True ps else (rune_error, error_bytes) # valid_chunks True ps)
      else p # valid_chunks False ps)"

definition to_valid_utf8 :: "string \<Rightarrow> string" where
  "to_valid_utf8 s = concat (map snd (valid_chunks False (rune_chunks s)))"

text \<open>The loop over the runes of a line: a tab or what is neither below the space nor DEL is kept, until 512 bytes are full.\<close>

fun clean_runes :: "(nat \<times> string) list \<Rightarrow> string \<Rightarrow> string" where
  "clean_runes [] cleaned = cleaned"
| "clean_runes (p # ps) cleaned =
     (if fst p = 9 \<or> 32 \<le> fst p \<and> fst p \<noteq> 127 then
        (if length cleaned + length (rune_bytes p) > maximumActionLineBytes then cleaned
         else clean_runes ps (cleaned @ rune_bytes p))
      else clean_runes ps cleaned)"

text \<open>\<open>redact\<close> stands for the three regular expression replacements of
  \<^verbatim>\<open>sanitizeActionLogLine\<close>.\<close>

definition sanitizeActionLogLine :: "(string \<Rightarrow> string) \<Rightarrow> string \<Rightarrow> string" where
  "sanitizeActionLogLine redact value = trim_space (clean_runes (rune_chunks (redact value)) [])"

fun collect_lines :: "(string \<Rightarrow> string) \<Rightarrow> nat \<Rightarrow> string list \<Rightarrow> string list" where
  "collect_lines redact sofar [] = []"
| "collect_lines redact sofar (raw # raws) =
     (let line = sanitizeActionLogLine redact raw in
      if line = [] then collect_lines redact sofar raws
      else if sofar + length line > maximumActionLogBytes then []
      else line # collect_lines redact (sofar + length line) raws)"

definition sanitizeActionLogLines :: "(string \<Rightarrow> string) \<Rightarrow> string \<Rightarrow> string list" where
  "sanitizeActionLogLines redact content =
     (let rawLines = split_on (CHR 0x0A) (trim_space (to_valid_utf8 content))
      in collect_lines redact 0 (drop (length rawLines - maximumActionLogLines) rawLines))"

text \<open>The log of an approved target; \<open>sanitize\<close> is \<^const>\<open>sanitizeActionLogLines\<close>.\<close>

definition readApprovedLogs ::
  "(string \<Rightarrow> string list) \<Rightarrow> policy_target \<Rightarrow> 'w runner \<Rightarrow> 'w \<Rightarrow> (go_error + string list) \<times> 'w" where
  "readApprovedLogs sanitize t runner w =
     (if pt_Kind t = ActionTargetSystemd \<or> pt_Kind t = ActionTargetDocker then
        (let ((out, err, failed), w') =
               runner (if pt_Kind t = ActionTargetSystemd
                 then [''journalctl'', ''--quiet'', ''--no-pager'', ''--output=short-iso-precise'',
                       ''--lines=200'', ''--unit'', pt_Resource t]
                 else [''docker'', ''logs'', ''--tail=200'', ''--timestamps'', pt_Resource t]) w
         in (if failed then Inl ''command failed'' else Inr (sanitize (out @ [CHR 0x0A] @ err)), w'))
      else (Inl ''target kind is unsupported'', w))"

text \<open>The loop that waits for the expected state. \<open>give_up n\<close> tells whether the context is done
  or the deadline has passed when poll \<open>n\<close> has been made; \<open>None\<close> is running out of fuel. The
  result is the last state read and whether it is the expected one.\<close>

fun await_state ::
  "policy_target \<Rightarrow> 'w runner \<Rightarrow> string \<Rightarrow> (nat \<Rightarrow> bool) \<Rightarrow> nat \<Rightarrow> nat \<Rightarrow> string \<Rightarrow> 'w
   \<Rightarrow> (string \<times> bool \<times> 'w) option" where
  "await_state t runner expected give_up n 0 seen w = None"
| "await_state t runner expected give_up n (Suc fuel) seen w =
     (let (r, w') = approvedTargetState t runner w;
          seen' = (case r of Inl _ \<Rightarrow> seen | Inr after \<Rightarrow> after)
      in if r = Inr expected then Some (seen', True, w')
         else if give_up n then Some (seen', False, w')
         else await_state t runner expected give_up (Suc n) fuel seen' w')"

definition empty_result :: "policy_target \<Rightarrow> action_definition \<Rightarrow> action_result" where
  "empty_result t d = \<lparr>ar_OK = False, ar_ActionID = ad_ID d, ar_TargetKey = pt_Key t, ar_Kind = ad_Kind d,
     ar_StateBefore = [], ar_StateAfter = [], ar_Summary = [], ar_Logs = [], ar_ErrorKind = []\<rparr>"

definition executeApprovedAction ::
  "(string \<Rightarrow> string list) \<Rightarrow> (nat \<Rightarrow> bool) \<Rightarrow> nat \<Rightarrow> policy_target \<Rightarrow> action_definition \<Rightarrow> 'w runner \<Rightarrow> 'w
   \<Rightarrow> (action_result \<times> 'w) option" where
  "executeApprovedAction sanitize give_up fuel t d runner w =
     (if ad_Kind d = ActionLogs then
        (case readApprovedLogs sanitize t runner w of
           (Inl _, w') \<Rightarrow> Some ((empty_result t d)\<lparr>ar_ErrorKind := ''log_read_failed''\<rparr>, w')
         | (Inr ls, w') \<Rightarrow> Some ((empty_result t d)\<lparr>ar_OK := True, ar_Logs := ls,
             ar_Summary := ([CHR 0xE8, CHR 0xBF, CHR 0x94, CHR 0xE5, CHR 0x9B, CHR 0x9E] @ '' '') @ itoa_nat (length ls) @ ('' '' @ [CHR 0xE8, CHR 0xA1, CHR 0x8C, CHR 0xE6, CHR 0x9C, CHR 0x89, CHR 0xE7, CHR 0x95, CHR 0x8C, CHR 0xE8, CHR 0x84, CHR 0xB1, CHR 0xE6, CHR 0x95, CHR 0x8F, CHR 0xE6, CHR 0x97, CHR 0xA5, CHR 0xE5, CHR 0xBF, CHR 0x97])\<rparr>, w'))
      else (case approvedTargetState t runner w of
           (Inl _, w1) \<Rightarrow> Some ((empty_result t d)\<lparr>ar_ErrorKind := ''state_read_failed''\<rparr>, w1)
         | (Inr before, w1) \<Rightarrow>
           let r = (empty_result t d)\<lparr>ar_StateBefore := before\<rparr> in
           (case changeApprovedTarget t (ad_Kind d) runner w1 of
              (Inl _, w2) \<Rightarrow> Some (r\<lparr>ar_ErrorKind := ''command_failed''\<rparr>, w2)
            | (Inr _, w2) \<Rightarrow>
              let expected = (if ad_Kind d = ActionStop then ''stopped'' else ''running'') in
              (case await_state t runner expected give_up 0 fuel [] w2 of
                 None \<Rightarrow> None
               | Some (after, True, w3) \<Rightarrow> Some (r\<lparr>ar_OK := True, ar_StateAfter := after,
                   ar_Summary := pt_Label t @ [CHR 0xEF, CHR 0xBC, CHR 0x9A] @ before @ ('' '' @ [CHR 0xE2, CHR 0x86, CHR 0x92] @ '' '') @ after\<rparr>, w3)
               | Some (after, False, w3) \<Rightarrow>
                   Some (r\<lparr>ar_StateAfter := after, ar_ErrorKind := ''health_verification_failed''\<rparr>, w3)))))"

section \<open>The unprivileged Agent checks the executor\<close>

definition validActionErrorKind :: "string \<Rightarrow> bool" where
  "validActionErrorKind value =
     (value \<in> {''log_read_failed'', ''state_read_failed'', ''command_failed'', ''health_verification_failed''})"

definition hasActionControlExceptTab :: "string \<Rightarrow> bool" where
  "hasActionControlExceptTab value = list_ex (\<lambda>r. is_control r \<and> r \<noteq> 9) (runes value)"

definition validateActionDefinition :: "action_definition \<Rightarrow> go_error + unit" where
  "validateActionDefinition d =
     andThen (guard ''action definition identity is invalid'' (ad_ID d \<noteq> actionID (ad_TargetKey d) (ad_Kind d)))
     (\<lambda>_. andThen (guard ''action definition label is invalid''
       (trim_space (ad_TargetLabel d) = [] \<or> rune_count (ad_TargetLabel d) > 80
        \<or> hasActionControl (ad_TargetLabel d)))
     (\<lambda>_. let resource = trim_prefix (ad_TargetKey d) (ad_TargetKind d @ '':'');
              t = \<lparr>pt_Key = ad_TargetKey d, pt_Label = ad_TargetLabel d, pt_Kind = ad_TargetKind d,
                   pt_Resource = resource, pt_Actions = [ad_Kind d]\<rparr>
          in andThen (guard ''action definition target is invalid'' (validateActionTarget t \<noteq> Inr ()))
     (\<lambda>_. let (verb, description, risk) = actionPresentation (ad_Kind d) in
          guard ''action definition presentation is invalid''
            (ad_Description d \<noteq> description @ ad_TargetLabel d
             \<or> ad_Confirmation d \<noteq> [CHR 0xE7, CHR 0xA1, CHR 0xAE, CHR 0xE8, CHR 0xAE, CHR 0xA4] @ verb @ '' '' @ ad_TargetLabel d \<or> ad_Risk d \<noteq> risk))))"

text \<open>\<^verbatim>\<open>decodeActionsResponse\<close> and \<^verbatim>\<open>decodeActionExecutionResult\<close> after their JSON has been decoded;
  \<open>None\<close> is output that is too long or not the expected JSON.\<close>

definition decodeActionsResponse :: "actions_response option \<Rightarrow> go_error + actions_response" where
  "decodeActionsResponse decoded = (case decoded of
       None \<Rightarrow> Inl ''action response JSON is invalid''
     | Some r \<Rightarrow> (case as_Actions r of
         None \<Rightarrow> Inl ''action response count is invalid''
       | Some ds \<Rightarrow>
           andThen (guard ''action response count is invalid'' (length ds > maximumActionTargets * 4))
           (\<lambda>_. andThen (check_distinct ''action response contains duplicate IDs'' ad_ID validateActionDefinition
                  (\<lambda>_. Inr ()) [] ds) (\<lambda>_. Inr r))))"

definition decodeActionExecutionResult ::
  "action_result option \<Rightarrow> action_definition \<Rightarrow> go_error + action_result" where
  "decodeActionExecutionResult decoded expected = (case decoded of
       None \<Rightarrow> Inl ''action result JSON is invalid''
     | Some r \<Rightarrow>
     andThen (guard ''action result identity is invalid''
       (ar_ActionID r \<noteq> ad_ID expected \<or> ar_TargetKey r \<noteq> ad_TargetKey expected \<or> ar_Kind r \<noteq> ad_Kind expected))
     (\<lambda>_. andThen (guard ''action result error kind is invalid''
       (ar_ErrorKind r \<noteq> [] \<and> \<not> validActionErrorKind (ar_ErrorKind r)))
     (\<lambda>_. andThen (guard ''action result state is invalid''
       (ar_OK r = (ar_ErrorKind r \<noteq> []) \<or> length (ar_Logs r) > maximumActionLogLines))
     (\<lambda>_. andThen (guard ''action result before state is invalid''
       (ar_StateBefore r \<noteq> [] \<and> ar_StateBefore r \<noteq> ''running'' \<and> ar_StateBefore r \<noteq> ''stopped''))
     (\<lambda>_. andThen (guard ''action result after state is invalid''
       (ar_StateAfter r \<noteq> [] \<and> ar_StateAfter r \<noteq> ''running'' \<and> ar_StateAfter r \<noteq> ''stopped''))
     (\<lambda>_. andThen (guard ''action result summary is invalid''
       (hasActionControl (ar_Summary r) \<or> rune_count (ar_Summary r) > 200))
     (\<lambda>_. andThen (check_all (\<lambda>l. guard ''action result log line is invalid''
         (hasActionControlExceptTab l \<or> length l > maximumActionLineBytes)) (ar_Logs r))
     (\<lambda>_. andThen (guard ''action result logs exceed limit''
         (sum_list (map length (ar_Logs r)) > maximumActionLogBytes))
     (\<lambda>_. Inr r)))))))))"

text \<open>What the Agent's HTTP handler answers for an executed action (\<^verbatim>\<open>internal/agent/server.go\<close>).\<close>

definition action_status :: "go_error + action_result \<Rightarrow> nat \<times> action_result option" where
  "action_status result = (case result of
       Inl _ \<Rightarrow> (502, None)
     | Inr r \<Rightarrow> (if \<not> ar_OK r then (502, Some r) else (200, Some r)))"

section \<open>The sanitizer's bounds\<close>

lemma clean_runes_length:
  "length cleaned \<le> maximumActionLineBytes \<Longrightarrow> length (clean_runes ps cleaned) \<le> maximumActionLineBytes"
  by (induction ps arbitrary: cleaned) (auto simp: not_less)

lemma trim_space_length: "length (trim_space s) \<le> length s"
proof -
  have drop: "length (concat (map snd (dropWhile P ps))) \<le> length (concat (map snd ps))"
    for P and ps :: "(nat \<times> string) list" by (induction ps) auto
  have rev: "length (concat (map snd (rev ps))) = length (concat (map snd ps))" for ps :: "(nat \<times> string) list"
    by (induction ps) auto
  have "length (trim_space s) \<le> length (concat (map snd (rune_chunks s)))"
    unfolding trim_space_def trim_chunks_def rev
    by (rule order_trans[OF drop]) (simp add: rev drop)
  then show ?thesis by (simp add: concat_chunks)
qed

lemma collect_lines_bounds:
  "length (collect_lines redact sofar raws) \<le> length raws \<and>
    (sofar \<le> maximumActionLogBytes \<longrightarrow>
      sofar + sum_list (map length (collect_lines redact sofar raws)) \<le> maximumActionLogBytes) \<and>
    (\<forall>l \<in> set (collect_lines redact sofar raws). length l \<le> maximumActionLineBytes \<and> l \<noteq> [])"
proof (induction raws arbitrary: sofar)
  case (Cons raw raws)
  have "length (sanitizeActionLogLine redact raw) \<le> maximumActionLineBytes"
    unfolding sanitizeActionLogLine_def
    by (rule order_trans[OF trim_space_length clean_runes_length]) simp
  then show ?case
    using Cons.IH[of sofar] Cons.IH[of "sofar + length (sanitizeActionLogLine redact raw)"]
    by (auto simp: Let_def not_less algebra_simps)
qed simp

text \<open>Every rune of a sanitized line is a tab or neither below the space nor DEL. The control
  characters U+0080 to U+009F are not removed.\<close>

lemma good_chunk_solid: "p \<in> set (rune_chunks s) \<Longrightarrow> \<not> bad_chunk p \<Longrightarrow> solid p"
proof (induction "length s" arbitrary: s rule: less_induct)
  case less
  show ?case
  proof (cases "s = []")
    case False
    let ?n = "snd (decode_rune s)"
    have n: "1 \<le> ?n" "?n \<le> length s" using decode_rune_size[OF False] by auto
    then have "length (drop ?n s) < length s" using False by (cases s) auto
    note IH = less.hyps[OF this]
    have "p = (fst (decode_rune s), take ?n s) \<or> p \<in> set (rune_chunks (drop ?n s))"
      using less.prems(1) False by (simp add: rune_chunks_step)
    moreover have "decode_rune s \<noteq> (rune_error, 1)" if "p = (fst (decode_rune s), take ?n s)"
      using that less.prems(2) n by (auto simp: bad_chunk_def)
    ultimately show ?thesis using IH less.prems(2) solid_first[OF False] by blast
  qed (use less in simp)
qed

lemma error_bytes_solid: "solid (rune_error, error_bytes)"
  by (simp add: solid_def bad_chunk_def error_bytes_def rune_chunks.simps(2) decode_rune_def second_ok_def
      cont_byte_def byte_def)

definition log_rune :: "nat \<Rightarrow> bool" where
  "log_rune r = (r = 9 \<or> 32 \<le> r \<and> r \<noteq> 127)"

lemma clean_runes_chunks:
  assumes "\<forall>p \<in> set ps. bad_chunk p \<or> solid p" "cleaned = concat (map snd cs)" "list_all solid cs"
    "\<forall>p \<in> set cs. log_rune (fst p)"
  shows "\<exists>ds. clean_runes ps cleaned = concat (map snd ds) \<and> list_all solid ds \<and> (\<forall>p \<in> set ds. log_rune (fst p))"
  using assms
proof (induction ps arbitrary: cleaned cs)
  case (Cons p ps)
  define q where "q = (fst p, rune_bytes p)"
  have q: "solid q"
    using Cons.prems(1) error_bytes_solid by (cases p) (auto simp: q_def rune_bytes_def bad_chunk_def)
  have rest: "\<forall>p \<in> set ps. bad_chunk p \<or> solid p" using Cons.prems(1) by simp
  show ?case
  proof (cases "log_rune (fst p)")
    case True
    have "cleaned @ rune_bytes p = concat (map snd (cs @ [q]))" "list_all solid (cs @ [q])"
      "\<forall>p \<in> set (cs @ [q]). log_rune (fst p)"
      using Cons.prems q True by (auto simp: q_def)
    from Cons.IH[OF rest this] show ?thesis using Cons.prems True by (auto simp: log_rune_def)
  next
    case False
    then show ?thesis using Cons.IH[OF rest Cons.prems(2-4)] by (auto simp: log_rune_def)
  qed
qed auto

lemma sanitized_runes: "r \<in> set (runes (sanitizeActionLogLine redact value)) \<Longrightarrow> log_rune r"
proof -
  assume r: "r \<in> set (runes (sanitizeActionLogLine redact value))"
  have "\<forall>p \<in> set (rune_chunks (redact value)). bad_chunk p \<or> solid p" using good_chunk_solid by blast
  from clean_runes_chunks[OF this, of "[]" "[]"] obtain ds where
    ds: "clean_runes (rune_chunks (redact value)) [] = concat (map snd ds)" "list_all solid ds"
      "\<forall>p \<in> set ds. log_rune (fst p)" by auto
  have "rune_chunks (trim_space (concat (map snd ds))) = trim_chunks ds"
    using ds(2) by (simp add: rune_chunks_trim valid_utf8_glue rune_chunks_glue)
  then show ?thesis using r ds(1,3) trim_chunks_subset[of ds]
    by (auto simp: sanitizeActionLogLine_def runes_def)
qed

lemma collect_lines_runes:
  "l \<in> set (collect_lines redact sofar raws) \<Longrightarrow> r \<in> set (runes l) \<Longrightarrow> log_rune r"
  by (induction raws arbitrary: sofar) (auto simp: Let_def dest: sanitized_runes split: if_splits)

lemma sanitized_lines:
  assumes ls_def: "ls = sanitizeActionLogLines redact content"
  shows "length ls \<le> 200" and "sum_list (map length ls) \<le> 65536"
    and "\<And>l. l \<in> set ls \<Longrightarrow> length l \<le> 512 \<and> l \<noteq> [] \<and> (\<forall>r \<in> set (runes l). log_rune r)"
proof -
  obtain raws where raws: "ls = collect_lines redact 0 raws" "length raws \<le> 200"
    unfolding ls_def sanitizeActionLogLines_def Let_def by (force simp: maximumActionLogLines_def)
  note b = collect_lines_bounds[of redact 0 raws]
  show "length ls \<le> 200" "sum_list (map length ls) \<le> 65536"
    using b raws by (auto simp: maximumActionLogBytes_def)
  show "length l \<le> 512 \<and> l \<noteq> [] \<and> (\<forall>r \<in> set (runes l). log_rune r)" if "l \<in> set ls" for l
    using b that collect_lines_runes[of l redact 0 raws] unfolding raws(1) by (auto simp: maximumActionLineBytes_def)
qed

end
