(* ===== verification/Deployment_Executor.thy ===== *)
theory Deployment_Executor
  imports Agent_Deployments Agent_Actions
begin

text \<open>
  The root deployment executor: the state file of a stack, which is also its Compose override
  (\<^verbatim>\<open>internal/agent/deployment_policy_linux.go\<close>), and the execution with its automatic rollback
  (\<^verbatim>\<open>deployment_executor_linux.go\<close>). What the host does is the record \<open>deploy_env\<close> of
  functions on the state of the host: commands, HTTP probes, the temporary file, the rename,
  the clock. JSON is two functions of the environment; base64 is written out.
\<close>

section \<open>Base64 without padding\<close>

definition b64_char :: "nat \<Rightarrow> char" where
  "b64_char n = char_of (if n < 26 then 65 + n else if n < 52 then 71 + n else if n < 62 then n - 4
     else if n = 62 then 45 else (95::nat))"

definition b64_value :: "char \<Rightarrow> nat option" where
  "b64_value c = (let b = byte c in
     if 65 \<le> b \<and> b \<le> 90 then Some (b - 65) else if 97 \<le> b \<and> b \<le> 122 then Some (b - 71)
     else if 48 \<le> b \<and> b \<le> 57 then Some (b + 4) else if b = 45 then Some 62 else if b = 95 then Some 63 else None)"

text \<open>Three bytes are four characters; a rest of one or two bytes is two or three.\<close>

fun b64_encode :: "string \<Rightarrow> string" where
  "b64_encode [] = []"
| "b64_encode [a] = [b64_char (byte a div 4), b64_char (byte a mod 4 * 16)]"
| "b64_encode [a, b] = [b64_char (byte a div 4), b64_char (byte a mod 4 * 16 + byte b div 16),
     b64_char (byte b mod 16 * 4)]"
| "b64_encode (a # b # c # rest) =
     b64_char (byte a div 4) # b64_char (byte a mod 4 * 16 + byte b div 16)
     # b64_char (byte b mod 16 * 4 + byte c div 64) # b64_char (byte c mod 64) # b64_encode rest"

text \<open>The strict decoder refuses a rest whose unused bits are not zero. (Newlines, which the
  library skips, cannot be in the single line it is given, except a carriage return.)\<close>

fun b64_groups :: "nat list \<Rightarrow> string option" where
  "b64_groups [] = Some []"
| "b64_groups [_] = None"
| "b64_groups [p, q] = (if q mod 16 = 0 then Some [char_of (p * 4 + q div 16)] else None)"
| "b64_groups [p, q, r] = (if r mod 4 = 0
     then Some [char_of (p * 4 + q div 16), char_of (q mod 16 * 16 + r div 4)] else None)"
| "b64_groups (p # q # r # s # rest) = (case b64_groups rest of None \<Rightarrow> None
     | Some t \<Rightarrow> Some (char_of (p * 4 + q div 16) # char_of (q mod 16 * 16 + r div 4) # char_of (r mod 4 * 64 + s) # t))"

definition b64_decode :: "string \<Rightarrow> string option" where
  "b64_decode s = (let vs = map b64_value (filter (\<lambda>c. c \<noteq> CHR 0x0D \<and> c \<noteq> CHR 0x0A) s) in
     if None \<in> set vs then None else b64_groups (map the vs))"

section \<open>The host\<close>

datatype rename_outcome = Renamed | RenameFailed | SyncFailed

record 'h deploy_env =
  en_run :: "'h runner"
  en_probe :: "string \<Rightarrow> 'h \<Rightarrow> int option \<times> 'h"
  en_stage :: "string \<Rightarrow> string \<Rightarrow> 'h \<Rightarrow> string option \<times> 'h"
  en_rename :: "string \<Rightarrow> 'h \<Rightarrow> rename_outcome \<times> 'h"
  en_remove :: "string \<Rightarrow> 'h \<Rightarrow> 'h"
  en_clock :: "'h \<Rightarrow> time"
  en_sleep :: "duration \<Rightarrow> 'h \<Rightarrow> 'h"
  en_done :: "'h \<Rightarrow> bool"
  en_recovery :: "'h \<Rightarrow> 'h"
  en_stamp :: "'h \<Rightarrow> string"
  en_utc :: "string \<Rightarrow> bool"
  en_marshal :: "deployment_state \<Rightarrow> string"
  en_unmarshal :: "string \<Rightarrow> deployment_state option"
  en_digests :: "string \<Rightarrow> string list option"

section \<open>The state file\<close>

definition maximumDeploymentState :: nat where "maximumDeploymentState = 16384"

definition state_header :: string where "state_header = ''# lodge-state ''"

definition encodeDeploymentOverride :: "'h deploy_env \<Rightarrow> deployment_state \<Rightarrow> deployment_stack \<Rightarrow> go_error + string" where
  "encodeDeploymentOverride env st s =
     (let content = state_header @ b64_encode (en_marshal env st) @ [CHR 0x0A] @ ''services:'' @ [CHR 0x0A] @
            ''  '' @ sk_Service s @ '':'' @ [CHR 0x0A] @ ''    image: '' @ sr_Image (dt_Current st) @ [CHR 0x0A]
      in andThen (guard ''deployment state exceeds limit'' (length content > maximumDeploymentState))
         (\<lambda>_. Inr content))"

definition decodeDeploymentOverride :: "'h deploy_env \<Rightarrow> string \<Rightarrow> deployment_stack \<Rightarrow> go_error + deployment_state" where
  "decodeDeploymentOverride env content s = (case cut (CHR 0x0A) content of
       None \<Rightarrow> Inl ''state header is missing''
     | Some (line, _) \<Rightarrow>
         if \<not> has_prefix line state_header then Inl ''state header is missing''
         else (case b64_decode (trim_space (trim_prefix line state_header)) of
             None \<Rightarrow> Inl ''state header is invalid''
           | Some stateJSON \<Rightarrow> (case en_unmarshal env stateJSON of
               None \<Rightarrow> Inl ''state JSON is invalid''
             | Some st \<Rightarrow>
                 andThen (validateDeploymentState (en_utc env) st s)
                 (\<lambda>_. andThen (guard ''state and Compose override differ''
                        (encodeDeploymentOverride env st s \<noteq> Inr content))
                 (\<lambda>_. Inr st)))))"

text \<open>\<^verbatim>\<open>loadDeploymentStates\<close>: \<open>files\<close> gives the content of the override of a stack, \<open>Inr None\<close> when
  there is none and an error when it cannot be opened safely.\<close>

fun loadDeploymentStates ::
  "'h deploy_env \<Rightarrow> (string \<Rightarrow> go_error + string option) \<Rightarrow> deployment_stack list \<Rightarrow> go_error + deployment_states" where
  "loadDeploymentStates env files [] = Inr (\<lambda>_. None)"
| "loadDeploymentStates env files (s # ss) = (case files (sk_Key s) of
     Inl _ \<Rightarrow> Inl ''deployment state is unsafe''
   | Inr None \<Rightarrow> loadDeploymentStates env files ss
   | Inr (Some content) \<Rightarrow> (case decodeDeploymentOverride env content s of
       Inl _ \<Rightarrow> Inl ''deployment state is invalid''
     | Inr st \<Rightarrow> andThen (loadDeploymentStates env files ss) (\<lambda>m. Inr (m(sk_Key s \<mapsto> st)))))"

text \<open>\<^verbatim>\<open>writeDeploymentOverrideCandidate\<close>: the path of the candidate with its content, or an error.
  The commit renames it over the override; when syncing the directory fails, the rename has
  been made.\<close>

definition writeDeploymentOverrideCandidate ::
  "'h deploy_env \<Rightarrow> deployment_stack \<Rightarrow> deployment_state \<Rightarrow> 'h \<Rightarrow> (go_error + string \<times> string) \<times> 'h" where
  "writeDeploymentOverrideCandidate env s st h = (case encodeDeploymentOverride env st s of
       Inl e \<Rightarrow> (Inl e, h)
     | Inr content \<Rightarrow> (case en_stage env (sk_Key s) content h of
         (None, h') \<Rightarrow> (Inl ''candidate cannot be written'', h')
       | (Some path, h') \<Rightarrow> (Inr (path, content), h')))"

definition commit_candidate ::
  "'h deploy_env \<Rightarrow> string \<times> string \<Rightarrow> string option \<times> 'h \<Rightarrow> bool \<times> string option \<times> 'h" where
  "commit_candidate env candidate w = (case w of (file, h) \<Rightarrow>
     (case en_rename env (fst candidate) h of
        (Renamed, h') \<Rightarrow> (True, Some (snd candidate), h')
      | (SyncFailed, h') \<Rightarrow> (False, Some (snd candidate), h')
      | (RenameFailed, h') \<Rightarrow> (False, file, h')))"

section \<open>The commands\<close>

definition composeArguments :: "deployment_stack \<Rightarrow> string \<Rightarrow> string list \<Rightarrow> string list" where
  "composeArguments s overridePath tail =
     [''compose'', ''--project-directory'', sk_ProjectDirectory s, ''--file'', sk_ComposeFile s]
     @ (if overridePath \<noteq> [] then [''--file'', overridePath] else []) @ tail"

definition validateComposeService ::
  "'h deploy_env \<Rightarrow> deployment_stack \<Rightarrow> string \<Rightarrow> 'h \<Rightarrow> (go_error + unit) \<times> 'h" where
  "validateComposeService env s overridePath h =
     (let ((out, _, failed), h') = en_run env (''docker'' # composeArguments s overridePath [''config'', ''--services'']) h
      in if failed then (Inl ''command failed'', h')
         else (guard ''approved Compose service is missing''
                 (\<not> list_ex (\<lambda>line. trim_space line = sk_Service s) (split_on (CHR 0x0A) (trim_space out))), h'))"

definition ensureImmutableImage :: "'h deploy_env \<Rightarrow> string \<Rightarrow> 'h \<Rightarrow> (go_error + unit) \<times> 'h" where
  "ensureImmutableImage env img h =
     (if \<not> immutableImagePattern img then (Inl ''image reference is not immutable'', h)
      else (let ((_, _, failed), h1) = en_run env [''docker'', ''image'', ''inspect'', ''--'', img] h
            in if \<not> failed then (Inr (), h1)
               else (let ((_, _, failed), h2) = en_run env [''docker'', ''pull'', ''--quiet'', img] h1
                     in if failed then (Inl ''command failed'', h2)
                        else (let ((_, _, failed), h3) = en_run env [''docker'', ''image'', ''inspect'', ''--'', img] h2
                              in (guard ''command failed'' failed, h3)))))"

definition composeContainerID ::
  "'h deploy_env \<Rightarrow> deployment_stack \<Rightarrow> string \<Rightarrow> 'h \<Rightarrow> (go_error + string) \<times> 'h" where
  "composeContainerID env s overridePath h =
     (let ((out, _, failed), h') = en_run env (''docker'' # composeArguments s overridePath [''ps'', ''--quiet'', sk_Service s]) h
      in if failed then (Inl ''command failed'', h')
         else let containerID = trim_space out in
           if containerID = [] \<or> contains_any containerID [CHR '' '', CHR 0x09, CHR 0x0D, CHR 0x0A]
           then (Inl ''Compose service container is unavailable'', h') else (Inr containerID, h'))"

definition discoverCurrentRelease ::
  "'h deploy_env \<Rightarrow> deployment_stack \<Rightarrow> 'h \<Rightarrow> (go_error + state_release) \<times> 'h" where
  "discoverCurrentRelease env s h = (case composeContainerID env s [] h of
       (Inl e, h1) \<Rightarrow> (Inl e, h1)
     | (Inr containerID, h1) \<Rightarrow>
       (let ((out, _, failed), h2) = en_run env [''docker'', ''inspect'', ''--format={{.Image}}'', ''--'', containerID] h1;
            imageID = trim_space out
        in if failed then (Inl ''command failed'', h2)
           else if \<not> dockerImageIDPattern imageID then (Inl ''current container image identity is invalid'', h2)
           else (let ((out, _, failed), h3) =
                   en_run env [''docker'', ''image'', ''inspect'', ''--format={{json .RepoDigests}}'', ''--'', imageID] h2
                 in if failed then (Inl ''command failed'', h3)
                    else (case en_digests env (trim_space out) of
                        None \<Rightarrow> (Inl ''current image digests are invalid'', h3)
                      | Some digests \<Rightarrow>
                          (case find (\<lambda>d. length d \<le> 512 \<and> immutableImagePattern d) (sort digests) of
                             None \<Rightarrow> (Inl ''current image has no immutable repository digest'', h3)
                           | Some digest \<Rightarrow>
                               (Inr \<lparr>sr_ID = ''external'', sr_Label = [CHR 0xE9, CHR 0x83, CHR 0xA8, CHR 0xE7, CHR 0xBD, CHR 0xB2, CHR 0xE5, CHR 0x89, CHR 0x8D, CHR 0xE7, CHR 0x89, CHR 0x88, CHR 0xE6, CHR 0x9C, CHR 0xAC], sr_Image = digest\<rparr>, h3))))))"

definition applyDeploymentOverride ::
  "'h deploy_env \<Rightarrow> deployment_stack \<Rightarrow> string \<Rightarrow> 'h \<Rightarrow> (go_error + unit) \<times> 'h" where
  "applyDeploymentOverride env s overridePath h =
     (let ((_, _, failed), h') = en_run env
            (''docker'' # composeArguments s overridePath [''up'', ''--detach'', ''--no-deps'', sk_Service s]) h
      in (guard ''command failed'' failed, h'))"

section \<open>The health check\<close>

text \<open>One round of the loop: whether the container runs and answers as healthy.\<close>

definition healthy_once :: "'h deploy_env \<Rightarrow> deployment_stack \<Rightarrow> string \<Rightarrow> 'h \<Rightarrow> bool \<times> 'h" where
  "healthy_once env s overridePath h = (case composeContainerID env s overridePath h of
       (Inl _, h1) \<Rightarrow> (False, h1)
     | (Inr containerID, h1) \<Rightarrow>
       (let ((running, _, failed), h2) = en_run env [''docker'', ''inspect'', ''--format={{.State.Running}}'', ''--'', containerID] h1
        in if failed \<or> trim_space running \<noteq> ''true'' then (False, h2)
           else if hp_Kind (sk_Health s) = ''docker'' then
             (let ((status, _, failed), h3) = en_run env [''docker'', ''inspect'',
                    ''--format={{if .State.Health}}{{.State.Health.Status}}{{else}}none{{end}}'', ''--'', containerID] h2
              in (\<not> failed \<and> trim_space status = ''healthy'', h3))
           else if hp_Kind (sk_Health s) = ''http'' then
             (case en_probe env (hp_URL (sk_Health s)) h2 of
                (None, h3) \<Rightarrow> (False, h3)
              | (Some status, h3) \<Rightarrow> (200 \<le> status \<and> status < 300, h3))
           else (False, h2)))"

definition deploymentProbeInterval :: duration where "deploymentProbeInterval = 500 * millisecond"

fun await_health ::
  "'h deploy_env \<Rightarrow> deployment_stack \<Rightarrow> string \<Rightarrow> time \<Rightarrow> nat \<Rightarrow> 'h \<Rightarrow> ((go_error + unit) \<times> 'h) option" where
  "await_health env s overridePath deadline 0 h = None"
| "await_health env s overridePath deadline (Suc fuel) h =
     (let (healthy, h') = healthy_once env s overridePath h
      in if healthy then Some (Inr (), h')
         else if en_done env h' \<or> \<not> en_clock env h' < deadline
         then Some (Inl ''deployment health verification timed out'', h')
         else await_health env s overridePath deadline fuel (en_sleep env deploymentProbeInterval h'))"

definition verifyDeploymentHealth ::
  "'h deploy_env \<Rightarrow> nat \<Rightarrow> deployment_stack \<Rightarrow> string \<Rightarrow> 'h \<Rightarrow> ((go_error + unit) \<times> 'h) option" where
  "verifyDeploymentHealth env fuel s overridePath h =
     await_health env s overridePath (en_clock env h + hp_TimeoutSeconds (sk_Health s) * second) fuel h"

section \<open>Execution\<close>

text \<open>The texts of the summaries.\<close>

definition running_text :: string where "running_text = ('' '' @ [CHR 0xE5, CHR 0xB7, CHR 0xB2, CHR 0xE8, CHR 0xBF, CHR 0x90, CHR 0xE8, CHR 0xA1, CHR 0x8C, CHR 0xE7, CHR 0x9B, CHR 0xAE, CHR 0xE6, CHR 0xA0, CHR 0x87, CHR 0xE7, CHR 0x89, CHR 0x88, CHR 0xE6, CHR 0x9C, CHR 0xAC] @ '' '')"
definition rolled_back_text :: string where "rolled_back_text = ('' '' @ [CHR 0xE5, CHR 0xB7, CHR 0xB2, CHR 0xE5, CHR 0x9B, CHR 0x9E, CHR 0xE6, CHR 0xBB, CHR 0x9A, CHR 0xE5, CHR 0x88, CHR 0xB0] @ '' '')"
definition deployed_text :: string where "deployed_text = ('' '' @ [CHR 0xE5, CHR 0xB7, CHR 0xB2, CHR 0xE9, CHR 0x83, CHR 0xA8, CHR 0xE7, CHR 0xBD, CHR 0xB2] @ '' '')"
definition healthy_text :: string where "healthy_text = [CHR 0xEF, CHR 0xBC, CHR 0x8C, CHR 0xE5, CHR 0x81, CHR 0xA5, CHR 0xE5, CHR 0xBA, CHR 0xB7, CHR 0xE9, CHR 0xAA, CHR 0x8C, CHR 0xE8, CHR 0xAF, CHR 0x81, CHR 0xE9, CHR 0x80, CHR 0x9A, CHR 0xE8, CHR 0xBF, CHR 0x87]"

definition failedDeploymentResult ::
  "deployment_definition \<Rightarrow> string \<Rightarrow> bool \<Rightarrow> string \<Rightarrow> deployment_result" where
  "failedDeploymentResult d errorKind rollbackPerformed previousReleaseID =
     \<lparr>de_OK = False, de_ActionID = dd_ID d, de_StackKey = dd_StackKey d, de_Kind = dd_Kind d,
      de_ReleaseID = dd_ReleaseID d, de_PreviousReleaseID = previousReleaseID,
      de_Summary = (if rollbackPerformed then [CHR 0xE9, CHR 0x83, CHR 0xA8, CHR 0xE7, CHR 0xBD, CHR 0xB2, CHR 0xE6, CHR 0x9C, CHR 0xAA, CHR 0xE9, CHR 0x80, CHR 0x9A, CHR 0xE8, CHR 0xBF, CHR 0x87, CHR 0xE9, CHR 0xAA, CHR 0x8C, CHR 0xE8, CHR 0xAF, CHR 0x81, CHR 0xEF, CHR 0xBC, CHR 0x8C, CHR 0xE5, CHR 0xB7, CHR 0xB2, CHR 0xE8, CHR 0x87, CHR 0xAA, CHR 0xE5, CHR 0x8A, CHR 0xA8, CHR 0xE6, CHR 0x81, CHR 0xA2, CHR 0xE5, CHR 0xA4, CHR 0x8D, CHR 0xE5, CHR 0x88, CHR 0xB0, CHR 0xE6, CHR 0x93, CHR 0x8D, CHR 0xE4, CHR 0xBD, CHR 0x9C, CHR 0xE5, CHR 0x89, CHR 0x8D, CHR 0xE7, CHR 0x89, CHR 0x88, CHR 0xE6, CHR 0x9C, CHR 0xAC] else []),
      de_RollbackPerformed = rollbackPerformed, de_ErrorKind = errorKind\<rparr>"

type_synonym 'h deploy_outcome = "deployment_result \<times> string option \<times> 'h"

text \<open>\<open>rollback_state\<close> is the state the rollback restores: the stored one, or the release found
  running when there was none.\<close>

definition rollback_state :: "'h deploy_env \<Rightarrow> deployment_stack \<Rightarrow> deployment_state \<Rightarrow> state_release \<Rightarrow> 'h \<Rightarrow> deployment_state" where
  "rollback_state env s stored current h =
     (if dt_Current stored = no_release
      then \<lparr>dt_Version = deploymentStateVersion, dt_StackKey = sk_Key s, dt_Current = current,
            dt_Previous = no_release, dt_UpdatedAt = en_stamp env h\<rparr>
      else stored)"

definition rollbackFailedDeployment ::
  "'h deploy_env \<Rightarrow> nat \<Rightarrow> deployment_stack \<Rightarrow> deployment_definition \<Rightarrow> deployment_state \<Rightarrow> state_release
   \<Rightarrow> string \<Rightarrow> string option \<times> 'h \<Rightarrow> 'h deploy_outcome option" where
  "rollbackFailedDeployment env fuel s d stored current originalError w = (case w of (file, h0) \<Rightarrow>
     (let h = en_recovery env h0;
          failed = failedDeploymentResult d ''rollback_failed'' False (sr_ID current)
      in case writeDeploymentOverrideCandidate env s (rollback_state env s stored current h) h of
        (Inl _, h1) \<Rightarrow> Some (failed, file, h1)
      | (Inr candidate, h1) \<Rightarrow> (let path = fst candidate in
        case validateComposeService env s path h1 of
          (Inl _, h2) \<Rightarrow> Some (failed, file, en_remove env path h2)
        | (Inr _, h2) \<Rightarrow> (case applyDeploymentOverride env s path h2 of
            (Inl _, h3) \<Rightarrow> Some (failed, file, en_remove env path h3)
          | (Inr _, h3) \<Rightarrow> (case verifyDeploymentHealth env fuel s path h3 of
              None \<Rightarrow> None
            | Some (Inl _, h4) \<Rightarrow> Some (failed, file, en_remove env path h4)
            | Some (Inr _, h4) \<Rightarrow> (case commit_candidate env candidate (file, h4) of
                (False, file', h5) \<Rightarrow> Some (failed, file', en_remove env path h5)
              | (True, file', h5) \<Rightarrow>
                  Some (failedDeploymentResult d originalError True (sr_ID current), file', en_remove env path h5)))))))"

text \<open>The part after the running release is known: when it is the target's digest only its health
  is verified and the state recorded; otherwise the candidate is applied.\<close>

definition deployment_target :: "deployment_definition \<Rightarrow> state_release" where
  "deployment_target d = \<lparr>sr_ID = dd_ReleaseID d, sr_Label = dd_ReleaseLabel d, sr_Image = dd_Image d\<rparr>"

definition next_state ::
  "'h deploy_env \<Rightarrow> deployment_stack \<Rightarrow> state_release \<Rightarrow> state_release \<Rightarrow> 'h \<Rightarrow> deployment_state" where
  "next_state env s targ previous h =
     \<lparr>dt_Version = deploymentStateVersion, dt_StackKey = sk_Key s, dt_Current = targ, dt_Previous = previous,
      dt_UpdatedAt = en_stamp env h\<rparr>"

definition deployed :: "deployment_stack \<Rightarrow> deployment_definition \<Rightarrow> state_release \<Rightarrow> string \<Rightarrow> deployment_result" where
  "deployed s d current summary =
     \<lparr>de_OK = True, de_ActionID = dd_ID d, de_StackKey = sk_Key s, de_Kind = dd_Kind d,
      de_ReleaseID = dd_ReleaseID d, de_PreviousReleaseID = sr_ID current, de_Summary = summary,
      de_RollbackPerformed = False, de_ErrorKind = []\<rparr>"

definition confirm_running_release ::
  "'h deploy_env \<Rightarrow> nat \<Rightarrow> deployment_stack \<Rightarrow> deployment_definition \<Rightarrow> state_release
   \<Rightarrow> string option \<times> 'h \<Rightarrow> 'h deploy_outcome option" where
  "confirm_running_release env fuel s d current w = (case w of (file, h) \<Rightarrow>
     (case verifyDeploymentHealth env fuel s [] h of
        None \<Rightarrow> None
      | Some (Inl _, h1) \<Rightarrow> Some (failedDeploymentResult d ''health_verification_failed'' False (sr_ID current), file, h1)
      | Some (Inr _, h1) \<Rightarrow>
        (case writeDeploymentOverrideCandidate env s (next_state env s (deployment_target d) no_release h1) h1 of
           (Inl _, h2) \<Rightarrow> Some (failedDeploymentResult d ''state_commit_failed'' False (sr_ID current), file, h2)
         | (Inr candidate, h2) \<Rightarrow> (case commit_candidate env candidate (file, h2) of
             (False, file', h3) \<Rightarrow> Some (failedDeploymentResult d ''state_commit_failed'' False (sr_ID current), file',
                en_remove env (fst candidate) h3)
           | (True, file', h3) \<Rightarrow> Some (deployed s d current
                (sk_Label s @ running_text @ dd_ReleaseLabel d @ healthy_text), file',
                en_remove env (fst candidate) h3)))))"

definition apply_release ::
  "'h deploy_env \<Rightarrow> nat \<Rightarrow> deployment_stack \<Rightarrow> deployment_definition \<Rightarrow> deployment_state \<Rightarrow> state_release
   \<Rightarrow> string option \<times> 'h \<Rightarrow> 'h deploy_outcome option" where
  "apply_release env fuel s d stored current w = (case w of (file, h) \<Rightarrow>
     (let roll = (\<lambda>path e w. map_option (\<lambda>(r, file', h'). (r, file', en_remove env path h'))
                    (rollbackFailedDeployment env fuel s d stored current e w))
      in case writeDeploymentOverrideCandidate env s (next_state env s (deployment_target d) current h) h of
        (Inl _, h1) \<Rightarrow> Some (failedDeploymentResult d ''state_prepare_failed'' False (sr_ID current), file, h1)
      | (Inr candidate, h1) \<Rightarrow> (let path = fst candidate in
        case validateComposeService env s path h1 of
          (Inl _, h2) \<Rightarrow> Some (failedDeploymentResult d ''preflight_failed'' False (sr_ID current), file, en_remove env path h2)
        | (Inr _, h2) \<Rightarrow> (case applyDeploymentOverride env s path h2 of
            (Inl _, h3) \<Rightarrow> roll path ''compose_apply_failed'' (file, h3)
          | (Inr _, h3) \<Rightarrow> (case verifyDeploymentHealth env fuel s path h3 of
              None \<Rightarrow> None
            | Some (Inl _, h4) \<Rightarrow> roll path ''health_verification_failed'' (file, h4)
            | Some (Inr _, h4) \<Rightarrow> (case commit_candidate env candidate (file, h4) of
                (False, file', h5) \<Rightarrow> roll path ''state_commit_failed'' (file', h5)
              | (True, file', h5) \<Rightarrow> Some (deployed s d current
                  (if dd_Kind d = DeploymentRollback
                   then sk_Label s @ rolled_back_text @ dd_ReleaseLabel d @ healthy_text
                   else sk_Label s @ deployed_text @ dd_ReleaseLabel d @ healthy_text),
                  file', en_remove env path h5)))))))"

definition executeApprovedDeployment ::
  "'h deploy_env \<Rightarrow> nat \<Rightarrow> deployment_stack \<Rightarrow> deployment_definition \<Rightarrow> deployment_state
   \<Rightarrow> string option \<times> 'h \<Rightarrow> 'h deploy_outcome option" where
  "executeApprovedDeployment env fuel s d stored w = (case w of (file, h) \<Rightarrow>
     (case validateComposeService env s [] h of
        (Inl _, h1) \<Rightarrow> Some (failedDeploymentResult d ''preflight_failed'' False (dd_CurrentReleaseID d), file, h1)
      | (Inr _, h1) \<Rightarrow> (case ensureImmutableImage env (dd_Image d) h1 of
          (Inl _, h2) \<Rightarrow> Some (failedDeploymentResult d ''image_prepare_failed'' False (dd_CurrentReleaseID d), file, h2)
        | (Inr _, h2) \<Rightarrow>
          (case (if dt_Current stored = no_release then discoverCurrentRelease env s h2 else (Inr (dt_Current stored), h2)) of
             (Inl _, h3) \<Rightarrow> Some (failedDeploymentResult d ''current_release_unknown'' False (dd_CurrentReleaseID d), file, h3)
           | (Inr current, h3) \<Rightarrow>
               if immutableImageDigest (sr_Image current) = immutableImageDigest (dd_Image d)
               then confirm_running_release env fuel s d current (file, h3)
               else apply_release env fuel s d stored current (file, h3)))))"

text \<open>\<^verbatim>\<open>ExecutePolicyDeployment\<close> after the lock, the request and the root policy have been read:
  \<open>files\<close> gives the override files and \<open>unsafe\<close> tells which stacks have unsafe files. The outcome
  says which file has changed.\<close>

definition ExecutePolicyDeployment ::
  "'h deploy_env \<Rightarrow> nat \<Rightarrow> deployment_stack list \<Rightarrow> (deployment_stack \<Rightarrow> bool) \<Rightarrow> string
   \<Rightarrow> (string \<rightharpoonup> string) \<times> 'h \<Rightarrow> (go_error + deployment_result \<times> (string \<rightharpoonup> string) \<times> 'h) option" where
  "ExecutePolicyDeployment env fuel stacks unsafe requestID w = (case w of (files, h) \<Rightarrow>
     (case loadDeploymentStates env (\<lambda>k. Inr (files k)) stacks of
        Inl e \<Rightarrow> Some (Inl e)
      | Inr states \<Rightarrow> (case findDeploymentDefinition (deploymentDefinitions stacks states) requestID of
          None \<Rightarrow> Some (Inl ''deployment is not approved by root policy'')
        | Some d \<Rightarrow> (case findDeploymentStack stacks (dd_StackKey d) of
            None \<Rightarrow> Some (Inl ''deployment stack is unavailable'')
          | Some s \<Rightarrow>
              if unsafe s
              then Some (Inr (failedDeploymentResult d ''preflight_failed'' False (dd_CurrentReleaseID d), files, h))
              else map_option (\<lambda>(r, file', h'). Inr (r, files(sk_Key s := file'), h'))
                (executeApprovedDeployment env fuel s d (state_of states (sk_Key s)) (files (sk_Key s), h))))))"

end
