(* ===== verification/Deployment_Records.thy ===== *)
theory Deployment_Records
  imports Deployment_Executor
begin

text \<open>
  What the state files say after a deployment: the file format round-trips, every state the
  executor writes is valid, and the outcome of an execution is what the next load reads.
\<close>

section \<open>The file format\<close>

lemma byte_less: "byte c < 256"
  by (simp add: byte_def)

lemma char_of_byte [simp]: "char_of (byte c) = c"
  by (simp add: byte_def)

lemma b64_value_char: "n < 64 \<Longrightarrow> b64_value (b64_char n) = Some n"
proof -
  assume n: "n < 64"
  have "byte (char_of m) = m" if "m < 256" for m :: nat
    using that by (simp add: byte_def)
  then show ?thesis using n by (auto simp: b64_value_def b64_char_def Let_def)
qed

lemma b64_char_plain: "n < 64 \<Longrightarrow> plain_char (b64_char n) \<and> b64_char n \<noteq> CHR 0x0D \<and> b64_char n \<noteq> CHR 0x0A"
proof -
  assume n: "n < 64"
  have b: "byte (char_of m) = m" if "m < 256" for m :: nat
    using that by (simp add: byte_def)
  then have p: "plain_char (b64_char n)" using n by (auto simp: plain_char_def b64_char_def)
  then show ?thesis by (auto simp: plain_char_def byte_def)
qed

lemma b64_parts:
  "byte a div 4 < 64 \<and> byte a mod 4 * 16 + byte b div 16 < 64 \<and> byte b mod 16 * 4 + byte a div 64 < 64 \<and>
   byte a mod 64 < 64 \<and> byte a mod 4 * 16 < 64 \<and> byte a mod 16 * 4 < 64"
  using byte_less[of a] byte_less[of b] by auto

lemma b64_join:
  "x div 4 * 4 + (x mod 4 * 16 + y div 16) div 16 = x" if "y < 256" for x y :: nat
proof -
  have "y div 16 < 16" using that by auto
  then have "(x mod 4 * 16 + y div 16) div 16 = x mod 4" by auto
  then show ?thesis by (metis mult.commute mult_div_mod_eq)
qed

lemma b64_join2:
  "(x mod 4 * 16 + y div 16) mod 16 * 16 + (y mod 16 * 4 + z div 64) div 4 = y" if "y < 256" "z < 256" for x y z :: nat
proof -
  have "y div 16 < 16" "z div 64 < 4" using that by auto
  then have "(x mod 4 * 16 + y div 16) mod 16 = y div 16" "(y mod 16 * 4 + z div 64) div 4 = y mod 16" by auto
  then show ?thesis by (metis mult.commute mult_div_mod_eq)
qed

lemma b64_join3: "(y mod 16 * 4 + z div 64) mod 4 * 64 + z mod 64 = z" if "z < 256" for y z :: nat
proof -
  have "z div 64 < 4" using that by auto
  then have "(y mod 16 * 4 + z div 64) mod 4 = z div 64" by auto
  then show ?thesis by (metis mult.commute mult_div_mod_eq)
qed

lemma b64_encode_facts:
  "list_all (\<lambda>c. b64_value c \<noteq> None \<and> plain_char c \<and> c \<noteq> CHR 0x0D \<and> c \<noteq> CHR 0x0A) (b64_encode s) \<and>
   b64_groups (map (the \<circ> b64_value) (b64_encode s)) = Some s"
proof (induction s rule: b64_encode.induct)
  case (2 a)
  show ?case using b64_parts[of a a] byte_less[of a] b64_join[of 0 "byte a"]
    by (simp add: b64_value_char b64_char_plain)
next
  case (3 a b)
  show ?case using b64_parts[of a b] b64_parts[of b a] byte_less[of b]
      b64_join[of "byte b" "byte a"] b64_join2[of "byte b" 0 "byte a"]
    by (simp add: b64_value_char b64_char_plain)
next
  case (4 a b c rest)
  show ?case using 4 b64_parts[of a b] b64_parts[of c b] byte_less
      b64_join[of "byte b" "byte a"] b64_join2[of "byte b" "byte c" "byte a"] b64_join3[of "byte c" "byte b"]
    by (simp add: b64_value_char b64_char_plain)
qed simp

lemma b64_plain: "plain (b64_encode s)"
  using b64_encode_facts[of s] by (simp add: plain_def list_all_iff)

lemma b64_roundtrip: "b64_decode (b64_encode s) = Some s"
proof -
  have v: "\<forall>c \<in> set (b64_encode s). b64_value c \<noteq> None \<and> c \<noteq> CHR 0x0D \<and> c \<noteq> CHR 0x0A"
    using b64_encode_facts[of s] by (auto simp: list_all_iff)
  then have f: "filter (\<lambda>c. c \<noteq> CHR 0x0D \<and> c \<noteq> CHR 0x0A) (b64_encode s) = b64_encode s"
    by (intro filter_True) blast
  have n: "None \<notin> set (map b64_value (b64_encode s))" using v by (metis imageE list.set_map)
  show ?thesis unfolding b64_decode_def f Let_def if_not_P[OF n] map_map using b64_encode_facts[of s] by blast
qed

lemma plain_not_space: "plain s \<Longrightarrow> p \<in> set (rune_chunks s) \<Longrightarrow> \<not> is_space (fst p)"
  using plain_ascii[of s] by (auto simp: rune_chunks_ascii plain_def list_all_iff plain_char_def is_space_def)

lemma trim_space_plain: "plain s \<Longrightarrow> trim_space s = s"
proof -
  assume p: "plain s"
  have d: "dropWhile (\<lambda>p. is_space (fst p)) ps = ps" if "set ps = set (rune_chunks s)" for ps
    unfolding dropWhile_stuck using plain_not_space[OF p] that by (cases ps) auto
  have "trim_chunks (rune_chunks s) = rune_chunks s"
    unfolding trim_chunks_def by (simp add: d)
  then show ?thesis by (simp add: trim_space_def concat_chunks)
qed

lemma override_decodes:
  assumes law: "en_unmarshal env (en_marshal env st) = Some st"
    and valid: "validateDeploymentState (en_utc env) st s = Inr ()"
    and written: "encodeDeploymentOverride env st s = Inr content"
  shows "decodeDeploymentOverride env content s = Inr st"
proof -
  let ?b = "b64_encode (en_marshal env st)"
  obtain rest where c: "content = (state_header @ ?b) @ CHR 0x0A # rest"
    using written by (auto simp: encodeDeploymentOverride_def Let_def andThen_ok)
  have "CHR 0x0A \<notin> set state_header" by (simp add: state_header_def)
  moreover have "CHR 0x0A \<notin> set ?b" using b64_plain[of "en_marshal env st"]
    by (auto simp: plain_def list_all_iff plain_char_def byte_def)
  ultimately have "cut (CHR 0x0A) content = Some (state_header @ ?b, rest)"
    unfolding c by (intro cut_append) simp
  moreover have "trim_space (trim_prefix (state_header @ ?b) state_header) = ?b"
    by (simp add: trim_prefix_def has_prefix_def trim_space_plain b64_plain)
  ultimately show ?thesis using law valid written
    by (simp add: decodeDeploymentOverride_def b64_roundtrip)
qed

section \<open>Valid states\<close>

text \<open>The texts of a state are valid UTF-8; \<open>json_laws\<close> is what \<^verbatim>\<open>encoding/json\<close> promises of such a
  state, and of every state it decodes. \<open>stamp_laws\<close> is what \<^verbatim>\<open>time\<close> promises of a formatted time.\<close>

definition state_texts :: "deployment_state \<Rightarrow> bool" where
  "state_texts st = list_all valid_utf8 [dt_StackKey st, dt_UpdatedAt st,
     sr_ID (dt_Current st), sr_Label (dt_Current st), sr_Image (dt_Current st),
     sr_ID (dt_Previous st), sr_Label (dt_Previous st), sr_Image (dt_Previous st)]"

definition json_laws :: "'h deploy_env \<Rightarrow> bool" where
  "json_laws env = ((\<forall>st. state_texts st \<longrightarrow> en_unmarshal env (en_marshal env st) = Some st) \<and>
     (\<forall>t st. en_unmarshal env t = Some st \<longrightarrow> state_texts st))"

definition stamp_laws :: "'h deploy_env \<Rightarrow> bool" where
  "stamp_laws env = (\<forall>h. en_utc env (en_stamp env h) \<and> valid_utf8 (en_stamp env h))"

lemma split_on_chars: "c \<in> set s \<Longrightarrow> c = d \<or> (\<exists>w \<in> set (split_on d s). c \<in> set w)"
  by (induction d s rule: split_on.induct) (auto split: list.splits if_splits)

lemma component_plain: "component_from b s \<Longrightarrow> plain s"
proof (induction b s rule: component_from.induct)
  case (2 b c cs)
  have "plain_char c" if "c \<in> set ''._-''" using that by (auto simp: plain_char_def byte_def)
  then show ?case using 2 lower_alnum_plain by (auto split: if_splits)
qed simp

lemma registry_plain: "registry_component s \<Longrightarrow> plain s"
proof -
  assume r: "registry_component s"
  have "plain s" if "cut (CHR '':'') s = Some (name, port)" "image_component name" "list_all is_digit port" for name port
  proof -
    have "plain port" using that(3) by (auto simp: plain_def list_all_iff is_digit_def plain_char_def)
    moreover have "plain name" using that(2) component_plain by (simp add: image_component_def)
    ultimately show ?thesis using that(1) by (auto simp: cut_Some plain_char_def byte_def)
  qed
  then show ?thesis using r component_plain
    by (auto simp: registry_component_def image_component_def split: option.splits)
qed

lemma repository_ascii: "image_repository s \<Longrightarrow> ascii s"
proof -
  assume r: "image_repository s"
  have "\<forall>w \<in> set (split_on (CHR ''/'') s). plain w"
    using r registry_plain component_plain
    by (auto simp: image_repository_def image_component_def list_all_iff split: list.splits)
  moreover have "byte (CHR ''/'') < 128" by (simp add: byte_def)
  ultimately show ?thesis using split_on_chars[of _ s "CHR ''/''"] plain_ascii
    unfolding ascii_def list_all_iff by metis
qed

lemma cut_at_Some: "cut_at sep s = Some (a, b) \<Longrightarrow> s = a @ sep @ b"
proof (induction s arbitrary: a)
  case Nil
  then show ?case by (auto simp: cut_at.simps[of sep "[]"] has_prefix_def split: if_splits)
next
  case (Cons c cs)
  then show ?case by (auto simp: cut_at.simps[of sep "c # cs"] has_prefix_iff split: if_splits)
qed

lemma immutable_image_ascii: "immutableImagePattern img \<Longrightarrow> ascii img"
proof -
  assume i: "immutableImagePattern img"
  then obtain repo digest where c: "cut_at ''@sha256:'' img = Some (repo, digest)" "image_repository repo" "hex64 digest"
    by (auto simp: immutableImagePattern_def split: option.splits)
  have "ascii digest" using c(3) by (auto simp: hex64_def ascii_def list_all_iff lower_hex_def)
  moreover have "ascii ''@sha256:''" by (simp add: ascii_def byte_def)
  ultimately show ?thesis using cut_at_Some[OF c(1)] repository_ascii[OF c(2)] by (simp add: ascii_def)
qed

lemma image_digest: "immutableImagePattern img \<Longrightarrow> length (immutableImageDigest img) = 64 \<and> img \<noteq> []"
  by (cases img) (auto simp: immutableImagePattern_def immutableImageDigest_def hex64_def cut_at.simps[of _ "[]"]
      has_prefix_def split: option.splits)

lemma release_pattern_plain: "deploymentReleasePattern s \<Longrightarrow> plain s \<and> s \<noteq> [] \<and> length s \<le> 64"
proof -
  assume a: "deploymentReleasePattern s"
  have "plain ''_.-''" by (simp add: plain_char_def byte_def)
  then have "or_in alnum ''_.-'' c \<Longrightarrow> plain_char c" for c using or_in_plain alnum_plain by blast
  from name_pattern_plain[OF a[unfolded deploymentReleasePattern_def] alnum_plain this] show ?thesis by simp
qed

lemma key_pattern_plain: "deploymentKeyPattern s \<Longrightarrow> plain s \<and> s \<noteq> [] \<and> length s \<le> 64"
proof -
  assume a: "deploymentKeyPattern s"
  have "plain ''_.-''" by (simp add: plain_char_def byte_def)
  then have "or_in lower_alnum ''_.-'' c \<Longrightarrow> plain_char c" for c using or_in_plain lower_alnum_plain by blast
  from name_pattern_plain[OF a[unfolded deploymentKeyPattern_def] lower_alnum_plain this] show ?thesis by simp
qed

definition release_ok :: "state_release \<Rightarrow> bool" where
  "release_ok r = (validateDeploymentStateRelease r False = Inr () \<and> valid_utf8 (sr_Label r))"

definition state_ok :: "'h deploy_env \<Rightarrow> deployment_stack \<Rightarrow> deployment_state \<Rightarrow> bool" where
  "state_ok env s st = (validateDeploymentState (en_utc env) st s = Inr () \<and> state_texts st)"

lemma release_ok_iff:
  "release_ok r \<longleftrightarrow> deploymentReleasePattern (sr_ID r) \<and> trim_space (sr_Label r) \<noteq> [] \<and> rune_count (sr_Label r) \<le> 80 \<and>
    \<not> deploymentTextHasControl (sr_Label r) \<and> immutableImagePattern (sr_Image r) \<and> length (sr_Image r) \<le> 512 \<and>
    valid_utf8 (sr_Label r)"
  by (auto simp: release_ok_def validateDeploymentStateRelease_def)

lemma no_release_not_ok: "\<not> release_ok no_release"
  by (auto simp: release_ok_iff no_release_def trim_space_empty)

lemma release_ok_texts: "release_ok r \<Longrightarrow> valid_utf8 (sr_ID r) \<and> valid_utf8 (sr_Label r) \<and> valid_utf8 (sr_Image r)"
  using release_pattern_plain plain_ascii valid_utf8_ascii immutable_image_ascii by (auto simp: release_ok_iff)

lemma no_release_texts: "valid_utf8 (sr_ID no_release) \<and> valid_utf8 (sr_Label no_release) \<and> valid_utf8 (sr_Image no_release)"
  by (simp add: no_release_def valid_utf8_ascii ascii_def)

lemma state_ok_releases:
  assumes "state_ok env s st"
  shows "release_ok (dt_Current st)" and "dt_Previous st = no_release \<or> release_ok (dt_Previous st)"
    and "dt_Previous st \<noteq> no_release \<Longrightarrow>
      immutableImageDigest (sr_Image (dt_Current st)) \<noteq> immutableImageDigest (sr_Image (dt_Previous st))"
    and "dt_StackKey st = sk_Key s"
proof -
  have v: "validateDeploymentState (en_utc env) st s = Inr ()" and t: "state_texts st"
    using assms by (auto simp: state_ok_def)
  show c: "release_ok (dt_Current st)" using v t
    by (auto simp: validateDeploymentState_def andThen_ok release_ok_def state_texts_def)
  show p: "dt_Previous st = no_release \<or> release_ok (dt_Previous st)" using v t
    by (auto simp: validateDeploymentState_def andThen_ok release_ok_def state_texts_def validateDeploymentStateRelease_def)
  show "dt_Previous st \<noteq> no_release \<Longrightarrow>
      immutableImageDigest (sr_Image (dt_Current st)) \<noteq> immutableImageDigest (sr_Image (dt_Previous st))"
    using v p image_digest by (auto simp: validateDeploymentState_def andThen_ok release_ok_iff)
  show "dt_StackKey st = sk_Key s" using v by (auto simp: validateDeploymentState_def andThen_ok)
qed

lemma written_state_ok:
  assumes "stamp_laws env" "valid_utf8 (sk_Key s)" "release_ok current"
    and "previous = no_release \<or> release_ok previous \<and>
      immutableImageDigest (sr_Image current) \<noteq> immutableImageDigest (sr_Image previous)"
  shows "state_ok env s (next_state env s current previous h)"
proof -
  have "en_utc env (en_stamp env h)" "valid_utf8 (en_stamp env h)" using assms(1) by (auto simp: stamp_laws_def)
  moreover have "validateDeploymentStateRelease previous True = Inr ()"
    using assms(4) by (auto simp: release_ok_def validateDeploymentStateRelease_def)
  moreover have "sr_Image previous = [] \<or> immutableImageDigest (sr_Image current) \<noteq> immutableImageDigest (sr_Image previous)"
    using assms(4) by (auto simp: no_release_def)
  ultimately show ?thesis
    using assms release_ok_texts[of current] release_ok_texts[of previous] no_release_texts
    by (auto simp: state_ok_def validateDeploymentState_def next_state_def release_ok_def state_texts_def
        deploymentStateVersion_def andThen_ok)
qed

section \<open>What an execution leaves in the state file\<close>

definition holds_state :: "'h deploy_env \<Rightarrow> deployment_stack \<Rightarrow> string option \<Rightarrow> deployment_state \<Rightarrow> bool" where
  "holds_state env s file st =
     (state_ok env s st \<and> (case file of None \<Rightarrow> False | Some content \<Rightarrow> decodeDeploymentOverride env content s = Inr st))"

text \<open>The outcome \<open>r\<close> of a deployment \<open>d\<close> of a stack whose state was \<open>stored\<close> and whose file was
  \<open>file\<close>: success records the target; an automatic rollback records the release that ran before,
  which is the stored state itself when there was one; every other failure leaves the file as it
  was, unless it happened while a state was being recorded.\<close>

definition outcome_recorded ::
  "'h deploy_env \<Rightarrow> deployment_stack \<Rightarrow> deployment_definition \<Rightarrow> deployment_state \<Rightarrow> string option
   \<Rightarrow> deployment_result \<Rightarrow> string option \<Rightarrow> bool" where
  "outcome_recorded env s d stored file r file' =
     (if de_OK r then
        \<not> de_RollbackPerformed r \<and> (\<exists>st. holds_state env s file' st \<and> dt_Current st = deployment_target d \<and>
          (dt_Previous st = no_release \<or> sr_ID (dt_Previous st) = de_PreviousReleaseID r))
      else if de_RollbackPerformed r then
        \<exists>st. holds_state env s file' st \<and> sr_ID (dt_Current st) = de_PreviousReleaseID r \<and>
          (dt_Current stored \<noteq> no_release \<longrightarrow> st = stored)
      else file' = file \<or>
        de_ErrorKind r \<in> {''rollback_failed'', ''state_commit_failed''} \<and> (\<exists>st. holds_state env s file' st))"

lemma candidate_holds:
  assumes "json_laws env" "state_ok env s st"
    and "writeDeploymentOverrideCandidate env s st h = (Inr candidate, h')"
  shows "holds_state env s (Some (snd candidate)) st"
proof -
  obtain content where c: "encodeDeploymentOverride env st s = Inr content" "snd candidate = content"
    using assms(3) by (auto simp: writeDeploymentOverrideCandidate_def split: sum.splits prod.splits option.splits)
  have "decodeDeploymentOverride env content s = Inr st"
    using assms(1,2) c(1) by (intro override_decodes) (auto simp: json_laws_def state_ok_def)
  then show ?thesis using assms(2) c(2) by (simp add: holds_state_def)
qed

lemma commit_cases:
  "commit_candidate env candidate (file, h) = (ok, file', h') \<Longrightarrow>
    file' = Some (snd candidate) \<or> \<not> ok \<and> file' = file"
  by (auto simp: commit_candidate_def split: prod.splits rename_outcome.splits)

lemma failed_fields [simp]:
  "de_OK (failedDeploymentResult d e b p) = False" "de_RollbackPerformed (failedDeploymentResult d e b p) = b"
  "de_ErrorKind (failedDeploymentResult d e b p) = e" "de_PreviousReleaseID (failedDeploymentResult d e b p) = p"
  by (simp_all add: failedDeploymentResult_def)

lemma deployed_fields [simp]:
  "de_OK (deployed s d c t)" "\<not> de_RollbackPerformed (deployed s d c t)"
  "de_PreviousReleaseID (deployed s d c t) = sr_ID c" "de_ErrorKind (deployed s d c t) = []"
  by (simp_all add: deployed_def)

lemma rollback_state_ok:
  assumes "stamp_laws env" "valid_utf8 (sk_Key s)" "release_ok current"
    and "dt_Current stored = no_release \<or> state_ok env s stored \<and> current = dt_Current stored"
  shows "state_ok env s (rollback_state env s stored current h)"
    and "dt_Current (rollback_state env s stored current h) = current"
    and "dt_Current stored \<noteq> no_release \<Longrightarrow> rollback_state env s stored current h = stored"
proof -
  have "rollback_state env s stored current h = next_state env s current no_release h" if "dt_Current stored = no_release"
    using that by (simp add: rollback_state_def next_state_def)
  then show "state_ok env s (rollback_state env s stored current h)"
    using assms written_state_ok[OF assms(1-3), of no_release] by (cases "dt_Current stored = no_release") (auto simp: rollback_state_def)
qed (use assms(4) in \<open>auto simp: rollback_state_def\<close>)

text \<open>What the code relies on when it executes a deployment of a stack.\<close>

definition executable ::
  "'h deploy_env \<Rightarrow> deployment_stack \<Rightarrow> deployment_definition \<Rightarrow> deployment_state \<Rightarrow> bool" where
  "executable env s d stored = (json_laws env \<and> stamp_laws env \<and> valid_utf8 (sk_Key s) \<and>
     release_ok (deployment_target d) \<and> (dt_Current stored = no_release \<or> state_ok env s stored))"

lemma rollback_recorded:
  assumes x: "executable env s d stored" and current: "release_ok current"
    and same: "dt_Current stored \<noteq> no_release \<Longrightarrow> current = dt_Current stored"
    and run: "rollbackFailedDeployment env fuel s d stored current e (file, h) = Some (r, file', h')"
  shows "de_OK r = False" and "file' = file \<and> r = failedDeploymentResult d ''rollback_failed'' False (sr_ID current) \<or>
    (\<exists>st. holds_state env s file' st \<and> dt_Current st = current \<and> (dt_Current stored \<noteq> no_release \<longrightarrow> st = stored)) \<and>
    (r = failedDeploymentResult d ''rollback_failed'' False (sr_ID current) \<or>
     r = failedDeploymentResult d e True (sr_ID current))"
proof -
  let ?st = "rollback_state env s stored current (en_recovery env h)"
  have cs: "dt_Current stored = no_release \<or> state_ok env s stored \<and> current = dt_Current stored"
    using x same by (auto simp: executable_def)
  have l: "json_laws env" "stamp_laws env" "valid_utf8 (sk_Key s)" using x by (auto simp: executable_def)
  note ok = rollback_state_ok[OF l(2,3) current cs, of "en_recovery env h"]
  obtain w h1 where w: "writeDeploymentOverrideCandidate env s ?st (en_recovery env h) = (w, h1)" by (metis surj_pair)
  have c: "holds_state env s (Some (snd candidate)) ?st" if "w = Inr candidate" for candidate
    using candidate_holds[OF l(1) ok(1)] w that by blast
  show "de_OK r = False"
    using run unfolding rollbackFailedDeployment_def
    by (auto simp: Let_def split: prod.splits sum.splits option.splits bool.splits)
  show "file' = file \<and> r = failedDeploymentResult d ''rollback_failed'' False (sr_ID current) \<or>
    (\<exists>st. holds_state env s file' st \<and> dt_Current st = current \<and> (dt_Current stored \<noteq> no_release \<longrightarrow> st = stored)) \<and>
    (r = failedDeploymentResult d ''rollback_failed'' False (sr_ID current) \<or>
     r = failedDeploymentResult d e True (sr_ID current))"
    using run ok(2,3) c unfolding rollbackFailedDeployment_def prod.case Let_def w
    by (auto split: prod.splits sum.splits option.splits bool.splits dest!: commit_cases)
qed

lemma confirm_recorded:
  assumes x: "executable env s d stored"
    and run: "confirm_running_release env fuel s d current (file, h) = Some (r, file', h')"
  shows "outcome_recorded env s d stored file r file'"
proof -
  have st: "state_ok env s (next_state env s (deployment_target d) no_release h1)" for h1
    using x by (intro written_state_ok) (auto simp: executable_def)
  have c: "holds_state env s (Some (snd candidate)) (next_state env s (deployment_target d) no_release h1)"
    if "writeDeploymentOverrideCandidate env s (next_state env s (deployment_target d) no_release h1) h1 = (Inr candidate, h2)"
    for candidate h1 h2
    using candidate_holds[OF _ st that] x by (simp add: executable_def)
  have n: "dt_Current (next_state env s t p k) = t" "dt_Previous (next_state env s t p k) = p" for t p k
    by (simp_all add: next_state_def)
  show ?thesis
    using run unfolding confirm_running_release_def prod.case
    by (auto simp: outcome_recorded_def split: prod.splits sum.splits option.splits bool.splits
        dest!: commit_cases c intro: n)
qed

lemma rolled_back_recorded:
  assumes "executable env s d stored" "release_ok current"
    and "dt_Current stored \<noteq> no_release \<Longrightarrow> current = dt_Current stored"
    and "rollbackFailedDeployment env fuel s d stored current e (file1, h) = Some (r, file', h')"
    and "file1 = file \<or> (\<exists>st. holds_state env s file1 st)"
  shows "outcome_recorded env s d stored file r file'"
  using rollback_recorded[OF assms(1-4)] assms(5) by (auto simp: outcome_recorded_def)

lemma apply_recorded:
  assumes x: "executable env s d stored" and current: "release_ok current"
    and same: "dt_Current stored \<noteq> no_release \<Longrightarrow> current = dt_Current stored"
    and differs: "immutableImageDigest (sr_Image current) \<noteq> immutableImageDigest (dd_Image d)"
    and run: "apply_release env fuel s d stored current (file, h) = Some (r, file', h')"
  shows "outcome_recorded env s d stored file r file'"
proof -
  let ?st = "next_state env s (deployment_target d) current h"
  have "state_ok env s ?st"
    using x current differs by (intro written_state_ok) (auto simp: executable_def deployment_target_def)
  then have c: "holds_state env s (Some (snd candidate)) ?st"
    if "writeDeploymentOverrideCandidate env s ?st h = (Inr candidate, h1)" for candidate h1
    using candidate_holds[OF _ _ that] x by (simp add: executable_def)
  have n: "dt_Current ?st = deployment_target d" "dt_Previous ?st = current" by (simp_all add: next_state_def)
  note roll = rolled_back_recorded[OF x current same]
  obtain w h1 where w: "writeDeploymentOverrideCandidate env s ?st h = (w, h1)" by (metis surj_pair)
  show ?thesis
  proof (cases w)
    case (Inl e)
    then show ?thesis using run w by (auto simp: apply_release_def outcome_recorded_def)
  next
    case (Inr candidate)
    have held: "holds_state env s (Some (snd candidate)) ?st" using c w Inr by blast
    have ok: "outcome_recorded env s d stored file (deployed s d current t) (Some (snd candidate))" for t
      using held n by (auto simp: outcome_recorded_def)
    from run show ?thesis
      unfolding apply_release_def prod.case Let_def w Inr sum.case
      by (auto split: prod.splits sum.splits option.splits bool.splits simp: outcome_recorded_def[of _ _ _ _ _ "failedDeploymentResult _ _ False _"]
          dest!: commit_cases intro: ok roll held)
  qed
qed

lemma discovered_ok: "discoverCurrentRelease env s h = (Inr current, h') \<Longrightarrow> release_ok current"
proof -
  assume a: "discoverCurrentRelease env s h = (Inr current, h')"
  then have "\<exists>digest. current = \<lparr>sr_ID = ''external'', sr_Label = [CHR 0xE9, CHR 0x83, CHR 0xA8, CHR 0xE7, CHR 0xBD, CHR 0xB2, CHR 0xE5, CHR 0x89, CHR 0x8D, CHR 0xE7, CHR 0x89, CHR 0x88, CHR 0xE6, CHR 0x9C, CHR 0xAC], sr_Image = digest\<rparr> \<and>
      length digest \<le> 512 \<and> immutableImagePattern digest"
    unfolding discoverCurrentRelease_def
    by (auto simp: Let_def split: prod.splits sum.splits option.splits if_splits dest: find_SomeD)
  then show ?thesis
    by (auto simp: release_ok_iff deploymentReleasePattern_def name_pattern_def or_in_def alnum_def trim_space_empty
        deploymentTextHasControl_def rune_chunks.simps(2) decode_rune_def second_ok_def cont_byte_def byte_def runes_def
        rune_count_def valid_utf8_def bad_chunk_def is_control_def is_space_def)
qed

lemma executed_recorded:
  assumes x: "executable env s d stored"
    and run: "executeApprovedDeployment env fuel s d stored (file, h) = Some (r, file', h')"
  shows "outcome_recorded env s d stored file r file'"
proof -
  have early: "outcome_recorded env s d stored f (failedDeploymentResult d e False p) f" for e p f
    by (simp add: outcome_recorded_def)
  obtain v h1 where v: "validateComposeService env s [] h = (v, h1)" by (metis surj_pair)
  obtain i h2 where i: "ensureImmutableImage env (dd_Image d) h1 = (i, h2)" by (metis surj_pair)
  obtain k h3 where k: "(if dt_Current stored = no_release then discoverCurrentRelease env s h2
      else (Inr (dt_Current stored), h2)) = (k, h3)" by (metis surj_pair)
  note run' = run[unfolded executeApprovedDeployment_def prod.case v]
  show ?thesis
  proof (cases "is_ok v \<and> is_ok i \<and> is_ok k")
    case False
    then show ?thesis using run' k early by (cases v; cases i; cases k) (auto simp: i simp del: if_split)
  next
    case True
    then obtain current where current: "v = Inr ()" "i = Inr ()" "k = Inr current"
      by (cases v; cases i; cases k) auto
    have cur: "release_ok current" "dt_Current stored \<noteq> no_release \<Longrightarrow> current = dt_Current stored"
      using k x discovered_ok state_ok_releases(1) unfolding current by (auto simp: executable_def split: if_splits)
    from run' have "(if immutableImageDigest (sr_Image current) = immutableImageDigest (dd_Image d)
        then confirm_running_release env fuel s d current (file, h3)
        else apply_release env fuel s d stored current (file, h3)) = Some (r, file', h')"
      unfolding current i sum.case prod.case k[unfolded current] .
    then show ?thesis using confirm_recorded[OF x] apply_recorded[OF x cur] by (auto split: if_splits)
  qed
qed

section \<open>The policy and the loaded states\<close>

lemma policy_stacks:
  assumes "validateDeploymentPolicy parse_url p = Inr u" "dp_Stacks p = Some stacks"
  shows "\<forall>s \<in> set stacks. validateDeploymentStack parse_url s = Inr ()" and "distinct (map sk_Key stacks)"
    and "length stacks \<le> 32"
  using assms by (auto simp: validateDeploymentPolicy_def andThen_ok check_distinct_ok maximumDeploymentStacks_def)

lemma check_releases_ok:
  "check_releases ids digests rs = Inr () \<Longrightarrow>
    (\<forall>r \<in> set rs. deploymentReleasePattern (pr_ID r) \<and> \<not> equal_fold_ascii (pr_ID r) ''external'' \<and>
       trim_space (pr_Label r) \<noteq> [] \<and> rune_count (pr_Label r) \<le> 80 \<and> \<not> deploymentTextHasControl (pr_Label r) \<and>
       immutableImagePattern (pr_Image r) \<and> length (pr_Image r) \<le> 512 \<and> pr_ID r \<notin> set ids) \<and>
    distinct (map pr_ID rs)"
proof (induction rs arbitrary: ids digests)
  case (Cons r rs)
  from Cons.prems have c: "deploymentReleasePattern (pr_ID r)" "\<not> equal_fold_ascii (pr_ID r) ''external''"
    "trim_space (pr_Label r) \<noteq> []" "rune_count (pr_Label r) \<le> 80" "\<not> deploymentTextHasControl (pr_Label r)"
    "immutableImagePattern (pr_Image r)" "length (pr_Image r) \<le> 512" "pr_ID r \<notin> set ids"
    "check_releases (pr_ID r # ids) (immutableImageDigest (pr_Image r) # digests) rs = Inr ()"
    by (simp_all add: andThen_ok Let_def not_less)
  note IH = Cons.IH[OF c(9)]
  have "pr_ID r \<notin> set (map pr_ID rs)" "\<forall>r \<in> set rs. pr_ID r \<notin> set ids" using IH by auto
  then show ?case using IH c(1-8) by simp
qed simp

lemma stack_facts:
  assumes "validateDeploymentStack parse_url s = Inr u"
  shows "deploymentKeyPattern (sk_Key s)" and "trim_space (sk_Label s) \<noteq> []" and "rune_count (sk_Label s) \<le> 80"
    and "\<not> deploymentTextHasControl (sk_Label s)" and "check_releases [] [] (sk_Releases s) = Inr ()"
    and "length (sk_Releases s) \<le> 32" and "10 \<le> hp_TimeoutSeconds (sk_Health s) \<and> hp_TimeoutSeconds (sk_Health s) \<le> 300"
proof -
  note v = assms[unfolded validateDeploymentStack_def andThen_ok guard_ok Let_def maximumDeploymentReleases_def]
  show "deploymentKeyPattern (sk_Key s)" "trim_space (sk_Label s) \<noteq> []" "rune_count (sk_Label s) \<le> 80"
    "\<not> deploymentTextHasControl (sk_Label s)" "check_releases [] [] (sk_Releases s) = Inr ()"
    "length (sk_Releases s) \<le> 32"
    using v by (simp_all add: not_less)
  have "validateDeploymentHealth parse_url (sk_Health s) = Inr ()" using v by simp
  then show "10 \<le> hp_TimeoutSeconds (sk_Health s) \<and> hp_TimeoutSeconds (sk_Health s) \<le> 300"
    unfolding validateDeploymentHealth_def andThen_ok guard_ok by linarith
qed

text \<open>The labels of a policy that has been decoded from JSON are valid UTF-8.\<close>

definition policy_texts :: "deployment_stack list \<Rightarrow> bool" where
  "policy_texts stacks = list_all (\<lambda>s. valid_utf8 (sk_Label s) \<and> list_all (\<lambda>r. valid_utf8 (pr_Label r)) (sk_Releases s)) stacks"

lemma loaded_iff:
  assumes "distinct (map sk_Key stacks)"
  shows "loadDeploymentStates env (\<lambda>k. Inr (files k)) stacks = Inr states \<longleftrightarrow>
    (\<forall>k. k \<notin> sk_Key ` set stacks \<longrightarrow> states k = None) \<and>
    (\<forall>s \<in> set stacks. case files (sk_Key s) of None \<Rightarrow> states (sk_Key s) = None
       | Some content \<Rightarrow> (\<exists>st. decodeDeploymentOverride env content s = Inr st \<and> states (sk_Key s) = Some st))"
  using assms
proof (induction stacks arbitrary: states)
  case Nil
  show ?case by auto
next
  case (Cons s ss)
  have d: "sk_Key s \<notin> sk_Key ` set ss" and ds: "distinct (map sk_Key ss)" using Cons.prems by auto
  note IH = Cons.IH[OF ds]
  show ?case
  proof (cases "files (sk_Key s)")
    case None
    have "(\<forall>k. k \<notin> sk_Key ` set ss \<longrightarrow> states k = None) \<longleftrightarrow>
        (\<forall>k. k \<notin> sk_Key ` set (s # ss) \<longrightarrow> states k = None) \<and> states (sk_Key s) = None"
      using d by (auto simp del: set_map) metis
    then show ?thesis using None by (simp add: IH; blast)
  next
    case (Some content)
    show ?thesis
    proof (cases "decodeDeploymentOverride env content s")
      case (Inl e)
      then show ?thesis using Some by auto
    next
      case (Inr st)
      have other: "t \<in> set ss \<Longrightarrow> sk_Key t \<noteq> sk_Key s" for t using d by (metis imageI)
      have "loadDeploymentStates env (\<lambda>k. Inr (files k)) (s # ss) = Inr states \<longleftrightarrow>
          (\<exists>m. loadDeploymentStates env (\<lambda>k. Inr (files k)) ss = Inr m \<and> states = m(sk_Key s \<mapsto> st))"
        using Some Inr by (auto simp: andThen_ok)
      also have "\<dots> \<longleftrightarrow> loadDeploymentStates env (\<lambda>k. Inr (files k)) ss = Inr (states(sk_Key s := None)) \<and> states (sk_Key s) = Some st"
      proof
        assume "\<exists>m. loadDeploymentStates env (\<lambda>k. Inr (files k)) ss = Inr m \<and> states = m(sk_Key s \<mapsto> st)"
        then obtain m where m: "loadDeploymentStates env (\<lambda>k. Inr (files k)) ss = Inr m" "states = m(sk_Key s \<mapsto> st)" by blast
        then have "m (sk_Key s) = None" using d by (auto simp: IH)
        then have "states(sk_Key s := None) = m" using m(2) by auto
        then show "loadDeploymentStates env (\<lambda>k. Inr (files k)) ss = Inr (states(sk_Key s := None)) \<and> states (sk_Key s) = Some st"
          using m by simp
      next
        assume "loadDeploymentStates env (\<lambda>k. Inr (files k)) ss = Inr (states(sk_Key s := None)) \<and> states (sk_Key s) = Some st"
        then show "\<exists>m. loadDeploymentStates env (\<lambda>k. Inr (files k)) ss = Inr m \<and> states = m(sk_Key s \<mapsto> st)"
          by (intro exI[of _ "states(sk_Key s := None)"]) (auto simp: fun_eq_iff)
      qed
      finally show ?thesis using Some Inr other by (auto simp: IH split: option.splits)
    qed
  qed
qed

lemma decoded_state_ok:
  "json_laws env \<Longrightarrow> decodeDeploymentOverride env content s = Inr st \<Longrightarrow> state_ok env s st"
  by (auto simp: decodeDeploymentOverride_def json_laws_def state_ok_def andThen_ok
      split: option.splits prod.splits if_splits)

lemma loaded_state_ok:
  assumes "json_laws env" "distinct (map sk_Key stacks)" "loadDeploymentStates env (\<lambda>k. Inr (files k)) stacks = Inr states"
    and "s \<in> set stacks"
  shows "case states (sk_Key s) of None \<Rightarrow> files (sk_Key s) = None
    | Some st \<Rightarrow> state_ok env s st \<and> holds_state env s (files (sk_Key s)) st"
proof -
  have "case files (sk_Key s) of None \<Rightarrow> states (sk_Key s) = None
       | Some content \<Rightarrow> (\<exists>st. decodeDeploymentOverride env content s = Inr st \<and> states (sk_Key s) = Some st)"
    using assms(3,4) unfolding loaded_iff[OF assms(2)] by blast
  then show ?thesis using decoded_state_ok[OF assms(1)] by (auto simp: holds_state_def split: option.splits)
qed

lemma rollback_target: "deployment_target (rollback_offer s st) = dt_Previous st"
  by (simp add: deployment_target_def rollback_offer_def)

lemma offered:
  assumes "validateDeploymentStack parse_url s = Inr u" "policy_texts [s]" "d \<in> set (stack_offers states s)"
    and "case states (sk_Key s) of None \<Rightarrow> True | Some st \<Rightarrow> state_ok env s st"
  shows "dd_StackKey d = sk_Key s" and "release_ok (deployment_target d)"
    and "dd_CurrentReleaseID d = sr_ID (dt_Current (state_of states (sk_Key s)))"
    and "dd_PreviousReleaseID d = sr_ID (dt_Previous (state_of states (sk_Key s)))"
proof -
  let ?st = "state_of states (sk_Key s)"
  have p: "release_ok (dt_Previous ?st)" if "sr_Image (dt_Previous ?st) \<noteq> []"
  proof (cases "states (sk_Key s)")
    case None
    then show ?thesis using that by (simp add: state_of_def no_state_def no_release_def)
  next
    case (Some st)
    then show ?thesis using assms(4) that state_ok_releases(2)[of env s st]
      by (auto simp: state_of_def no_release_def)
  qed
  have r: "release_ok (deployment_target (deploy_offer s ?st r))" if "r \<in> set (sk_Releases s)" for r
    using that assms(2) check_releases_ok[OF stack_facts(5)[OF assms(1)]]
    by (auto simp: release_ok_iff deployment_target_def deploy_offer_def policy_texts_def list_all_iff)
  show "release_ok (deployment_target d)"
    using assms(3) r p by (auto simp: stack_offers_def Let_def rollback_target split: if_splits)
  show "dd_StackKey d = sk_Key s" "dd_CurrentReleaseID d = sr_ID (dt_Current ?st)" "dd_PreviousReleaseID d = sr_ID (dt_Previous ?st)"
    using assms(3) by (auto simp: stack_offers_def Let_def deploy_offer_def rollback_offer_def split: if_splits)
qed

lemma set_deploymentDefinitions: "set (deploymentDefinitions stacks states) = (\<Union>s \<in> set stacks. set (stack_offers states s))"
  by (simp add: deploymentDefinitions_def)

section \<open>The recorded outcome\<close>

lemma reload_one:
  assumes key: "distinct (map sk_Key stacks)"
    and l: "loadDeploymentStates env (\<lambda>k. Inr (files k)) stacks = Inr states" and s: "s \<in> set stacks"
    and new: "file' = files (sk_Key s) \<and> after = states (sk_Key s) \<or> (\<exists>st. holds_state env s file' st \<and> after = Some st)"
  shows "loadDeploymentStates env (\<lambda>k. Inr ((files(sk_Key s := file')) k)) stacks = Inr (states(sk_Key s := after))"
proof -
  note L = l[unfolded loaded_iff[OF key]]
  have "case (files(sk_Key s := file')) (sk_Key t) of None \<Rightarrow> (states(sk_Key s := after)) (sk_Key t) = None
      | Some content \<Rightarrow> (\<exists>st. decodeDeploymentOverride env content t = Inr st \<and>
          (states(sk_Key s := after)) (sk_Key t) = Some st)" if t: "t \<in> set stacks" for t
  proof (cases "t = s")
    case True
    then show ?thesis using new L s by (auto simp: holds_state_def split: option.splits)
  next
    case False
    then have "sk_Key t \<noteq> sk_Key s" using key t s by (metis distinct_map inj_on_def)
    then have e: "(states(sk_Key s := after)) (sk_Key t) = states (sk_Key t)" "(files(sk_Key s := file')) (sk_Key t) = files (sk_Key t)"
      by simp_all
    show ?thesis unfolding e using L t by blast
  qed
  moreover have "(states(sk_Key s := after)) k = None" if "k \<notin> sk_Key ` set stacks" for k
    using that L s by auto
  ultimately show ?thesis unfolding loaded_iff[OF key] by blast
qed

text \<open>The outcome over the loaded states.\<close>

definition state_recorded ::
  "deployment_definition \<Rightarrow> deployment_state option \<Rightarrow> deployment_state option \<Rightarrow> deployment_result \<Rightarrow> bool" where
  "state_recorded d before after r =
     (if de_OK r then (case after of None \<Rightarrow> False | Some st \<Rightarrow>
        dt_Current st = deployment_target d \<and>
        (dt_Previous st = no_release \<or> sr_ID (dt_Previous st) = de_PreviousReleaseID r))
      else if de_RollbackPerformed r then (case after of None \<Rightarrow> False | Some st \<Rightarrow>
        sr_ID (dt_Current st) = de_PreviousReleaseID r \<and> (before = None \<or> before = after))
      else after = before \<or> de_ErrorKind r = ''rollback_failed'' \<or> de_ErrorKind r = ''state_commit_failed'')"

lemma outcome_after:
  assumes "outcome_recorded env s d (case before of None \<Rightarrow> no_state | Some st \<Rightarrow> st) file r file'"
    and "\<forall>st. before = Some st \<longrightarrow> dt_Current st \<noteq> no_release"
  obtains after where "file' = file \<and> after = before \<or> (\<exists>st. holds_state env s file' st \<and> after = Some st)"
    and "state_recorded d before after r"
proof (cases "de_OK r \<or> de_RollbackPerformed r")
  case True
  then obtain st where "holds_state env s file' st" "state_recorded d before (Some st) r"
    using assms by (cases "de_OK r") (auto simp: outcome_recorded_def state_recorded_def split: option.splits)
  then show ?thesis using that by blast
next
  case False
  then consider "file' = file"
    | st where "holds_state env s file' st" "de_ErrorKind r \<in> {''rollback_failed'', ''state_commit_failed''}"
    using assms(1) by (auto simp: outcome_recorded_def)
  then show ?thesis
  proof cases
    case 1
    then show ?thesis using that[of before] False by (simp add: state_recorded_def)
  next
    case 2
    then show ?thesis using that[of "Some st"] False by (auto simp: state_recorded_def)
  qed
qed

lemma chosen_stack:
  assumes policy: "validateDeploymentPolicy parse_url p = Inr ()" "dp_Stacks p = Some stacks" "policy_texts stacks"
    and laws: "json_laws env" "stamp_laws env"
    and l: "loadDeploymentStates env (\<lambda>k. Inr (files k)) stacks = Inr states"
    and d: "findDeploymentDefinition (deploymentDefinitions stacks states) requestID = Some d"
    and s: "findDeploymentStack stacks (dd_StackKey d) = Some s"
  shows "s \<in> set stacks" and "sk_Key s = dd_StackKey d" and "validateDeploymentStack parse_url s = Inr ()"
    and "d \<in> set (stack_offers states s)" and "executable env s d (state_of states (sk_Key s))"
    and "\<forall>st. states (sk_Key s) = Some st \<longrightarrow> dt_Current st \<noteq> no_release"
proof -
  have key: "distinct (map sk_Key stacks)" and valid: "\<And>s. s \<in> set stacks \<Longrightarrow> validateDeploymentStack parse_url s = Inr ()"
    using policy_stacks[OF policy(1,2)] by blast+
  show sk: "s \<in> set stacks" "sk_Key s = dd_StackKey d" using find_SomeD[OF s[unfolded findDeploymentStack_def]] by auto
  show v: "validateDeploymentStack parse_url s = Inr ()" by (rule valid[OF sk(1)])
  obtain t where t: "t \<in> set stacks" "d \<in> set (stack_offers states t)"
    using find_SomeD[OF d[unfolded findDeploymentDefinition_def]] by (auto simp: set_deploymentDefinitions)
  have texts: "policy_texts [t]" using policy(3) t(1) by (auto simp: policy_texts_def list_all_iff)
  have st: "case states (sk_Key t) of None \<Rightarrow> True | Some st \<Rightarrow> state_ok env t st"
    using loaded_state_ok[OF laws(1) key l t(1)] by (auto split: option.splits)
  note off = offered[OF valid[OF t(1)] texts t(2) st]
  have "t = s" using off(1) sk key t(1) by (metis distinct_map inj_on_def)
  then show "d \<in> set (stack_offers states s)" using t(2) by simp
  have c: "\<forall>st. states (sk_Key s) = Some st \<longrightarrow> state_ok env s st" using st \<open>t = s\<close> by (auto split: option.splits)
  then show "\<forall>st. states (sk_Key s) = Some st \<longrightarrow> dt_Current st \<noteq> no_release"
    using state_ok_releases(1) no_release_not_ok by metis
  have "valid_utf8 (sk_Key s)" using key_pattern_plain[OF stack_facts(1)[OF v]] plain_ascii valid_utf8_ascii by blast
  then show "executable env s d (state_of states (sk_Key s))"
    using laws off(2) c by (auto simp: executable_def state_of_def no_state_def split: option.splits)
qed

lemma recorded_outcome:
  assumes policy: "validateDeploymentPolicy parse_url p = Inr ()" "dp_Stacks p = Some stacks" "policy_texts stacks"
    and laws: "json_laws env" "stamp_laws env"
    and run: "ExecutePolicyDeployment env fuel stacks unsafe requestID (files, h) = Some (Inr (r, files', h'))"
  shows "\<exists>states states' d.
    loadDeploymentStates env (\<lambda>k. Inr (files k)) stacks = Inr states \<and>
    findDeploymentDefinition (deploymentDefinitions stacks states) requestID = Some d \<and>
    loadDeploymentStates env (\<lambda>k. Inr (files' k)) stacks = Inr states' \<and>
    (\<forall>k. k \<noteq> dd_StackKey d \<longrightarrow> files' k = files k \<and> states' k = states k) \<and>
    state_recorded d (states (dd_StackKey d)) (states' (dd_StackKey d)) r"
proof -
  have key: "distinct (map sk_Key stacks)" by (rule policy_stacks(2)[OF policy(1,2)])
  from run obtain states d s where l: "loadDeploymentStates env (\<lambda>k. Inr (files k)) stacks = Inr states"
    and d: "findDeploymentDefinition (deploymentDefinitions stacks states) requestID = Some d"
    and s: "findDeploymentStack stacks (dd_StackKey d) = Some s"
    and ran: "if unsafe s then r = failedDeploymentResult d ''preflight_failed'' False (dd_CurrentReleaseID d) \<and> files' = files
      else \<exists>file'. executeApprovedDeployment env fuel s d (state_of states (sk_Key s)) (files (sk_Key s), h) = Some (r, file', h') \<and>
        files' = files(sk_Key s := file')"
    unfolding ExecutePolicyDeployment_def by (auto split: sum.splits option.splits if_splits)
  note c = chosen_stack[OF policy laws l d s]
  obtain file' where files': "files' = files(sk_Key s := file')"
    and rec: "outcome_recorded env s d (state_of states (sk_Key s)) (files (sk_Key s)) r file'"
  proof (cases "unsafe s")
    case True
    then show ?thesis using ran that[of "files (sk_Key s)"] by (simp add: outcome_recorded_def)
  next
    case False
    then show ?thesis using ran that executed_recorded[OF c(5)] by auto
  qed
  from outcome_after[OF rec[unfolded state_of_def] c(6)] obtain after
    where new: "file' = files (sk_Key s) \<and> after = states (sk_Key s) \<or> (\<exists>st. holds_state env s file' st \<and> after = Some st)"
      and ok: "state_recorded d (states (sk_Key s)) after r" by blast
  have "loadDeploymentStates env (\<lambda>k. Inr (files' k)) stacks = Inr (states(sk_Key s := after))"
    unfolding files' by (rule reload_one[OF key l c(1) new])
  then show ?thesis using l d ok c(2) by (auto simp: files' intro!: exI[of _ "states(sk_Key s := after)"])
qed

text \<open>C27. After a deployment has been executed, whatever failed on the way, the Agent can load its
  states again and only the stack's own may differ. Success means that the target is the recorded
  current release and that what ran before is the recorded previous one, unless the target was
  found running. An automatic rollback means that the release that ran before is recorded, and the
  very state that was recorded before if there was one. Any other failure leaves the recorded state
  alone, unless it happened while a state was being recorded.\<close>

theorem deployment_recorded:
  assumes policy: "validateDeploymentPolicy parse_url p = Inr ()" "dp_Stacks p = Some stacks" "policy_texts stacks"
    and laws: "json_laws env" "stamp_laws env"
    and run: "ExecutePolicyDeployment env fuel stacks unsafe requestID (files, h) = Some (Inr (r, files', h'))"
  shows "\<exists>states states' d.
    loadDeploymentStates env (\<lambda>k. Inr (files k)) stacks = Inr states \<and>
    findDeploymentDefinition (deploymentDefinitions stacks states) requestID = Some d \<and>
    loadDeploymentStates env (\<lambda>k. Inr (files' k)) stacks = Inr states' \<and>
    (\<forall>k. k \<noteq> dd_StackKey d \<longrightarrow> files' k = files k \<and> states' k = states k) \<and>
    state_recorded d (states (dd_StackKey d)) (states' (dd_StackKey d)) r"
  by (rule recorded_outcome[OF assms])

section \<open>A concrete host\<close>

text \<open>An encoding of states that is its own inverse on states with valid texts.\<close>

definition quoted :: "string \<Rightarrow> string" where
  "quoted t = concat (map (\<lambda>c. [CHR ''.'', c]) t) @ ''!''"

fun unquoted :: "string \<Rightarrow> string \<Rightarrow> string list option" where
  "unquoted word [] = (if word = [] then Some [] else None)"
| "unquoted word (c # t) =
     (if c = CHR ''!'' then map_option ((#) (rev word)) (unquoted [] t)
      else case t of [] \<Rightarrow> None | x # u \<Rightarrow> unquoted (x # word) u)"

lemma unquoted_quoted: "unquoted word (quoted t @ rest) = map_option ((#) (rev word @ t)) (unquoted [] rest)"
  by (induction t arbitrary: word) (simp_all add: quoted_def)

definition sample_marshal :: "deployment_state \<Rightarrow> string" where
  "sample_marshal st = concat (map quoted [itoa_nat (nat (dt_Version st)), itoa_nat (nat (- dt_Version st)),
     dt_StackKey st, dt_UpdatedAt st,
     sr_ID (dt_Current st), sr_Label (dt_Current st), sr_Image (dt_Current st),
     sr_ID (dt_Previous st), sr_Label (dt_Previous st), sr_Image (dt_Previous st)])"

definition sample_unmarshal :: "string \<Rightarrow> deployment_state option" where
  "sample_unmarshal t = (case unquoted [] t of
       Some [p, n, k, u, a, b, c, x, y, z] \<Rightarrow>
         (let st = \<lparr>dt_Version = int (digits_value p) - int (digits_value n), dt_StackKey = k,
            dt_Current = \<lparr>sr_ID = a, sr_Label = b, sr_Image = c\<rparr>,
            dt_Previous = \<lparr>sr_ID = x, sr_Label = y, sr_Image = z\<rparr>, dt_UpdatedAt = u\<rparr>
          in if state_texts st then Some st else None)
     | _ \<Rightarrow> None)"

lemma sample_json: "state_texts st \<Longrightarrow> sample_unmarshal (sample_marshal st) = Some st"
proof -
  assume t: "state_texts st"
  have last: "unquoted [] (quoted w) = Some [w]" for w
    using unquoted_quoted[of "[]" w "[]"] by simp
  have eta: "\<lparr>sr_ID = sr_ID r, sr_Label = sr_Label r, sr_Image = sr_Image r\<rparr> = r" for r :: state_release by simp
  obtain v k c p u where st: "st = \<lparr>dt_Version = v, dt_StackKey = k, dt_Current = c, dt_Previous = p, dt_UpdatedAt = u\<rparr>"
    by (cases st)
  show ?thesis using t unfolding st
    by (auto simp: sample_unmarshal_def sample_marshal_def unquoted_quoted last digits_value_itoa Let_def eta)
qed

definition sample_image :: "char \<Rightarrow> string" where
  "sample_image c = ''app@sha256:'' @ replicate 64 c"

definition sample_stack :: deployment_stack where
  "sample_stack = \<lparr>sk_Key = ''web'', sk_Label = ''Web'', sk_ProjectDirectory = ''/srv/web'',
     sk_ComposeFile = ''/srv/web/compose.yml'', sk_Service = ''web'', sk_Stateless = True,
     sk_Health = \<lparr>hp_Kind = ''docker'', hp_URL = [], hp_TimeoutSeconds = 30\<rparr>,
     sk_Releases = [\<lparr>pr_ID = ''v2'', pr_Label = ''Two'', pr_Image = sample_image (CHR ''a'')\<rparr>]\<rparr>"

definition sample_deployment_policy :: deployment_policy where
  "sample_deployment_policy = \<lparr>dp_Version = 1, dp_Stacks = Some [sample_stack]\<rparr>"

text \<open>A host on which every command works, the service runs an older image and \<open>healthy\<close> is what
  Docker says of its health.\<close>

definition sample_command :: "string \<Rightarrow> unit runner" where
  "sample_command health c h = ((
     if c ! 1 = ''compose'' then (if ''config'' \<in> set c then ''web'' else if ''ps'' \<in> set c then ''c1'' else [])
     else if c ! 2 = ''--format={{.Image}}'' then ''sha256:'' @ replicate 64 CHR ''c''
     else if c ! 2 = ''--format={{.State.Running}}'' then ''true''
     else if c ! 1 = ''inspect'' then health else [], [], False), h)"

definition sample_env :: "string \<Rightarrow> unit deploy_env" where
  "sample_env health = \<lparr>en_run = sample_command health, en_probe = (\<lambda>_ h. (None, h)),
     en_stage = (\<lambda>_ _ h. (Some ''/tmp/candidate'', h)), en_rename = (\<lambda>_ h. (Renamed, h)),
     en_remove = (\<lambda>_ h. h), en_clock = (\<lambda>_. 0), en_sleep = (\<lambda>_ h. h), en_done = (\<lambda>_. True),
     en_recovery = (\<lambda>h. h), en_stamp = (\<lambda>_. ''2026-08-01T00:00:00Z''), en_utc = (\<lambda>t. t = ''2026-08-01T00:00:00Z''),
     en_marshal = sample_marshal, en_unmarshal = sample_unmarshal,
     en_digests = (\<lambda>_. Some [sample_image (CHR ''b'')])\<rparr>"

lemma sample_laws: "json_laws (sample_env health)" "stamp_laws (sample_env health)"
proof -
  have "sample_unmarshal t = Some st \<Longrightarrow> state_texts st" for t st
    by (auto simp: sample_unmarshal_def Let_def split: option.splits list.splits if_splits)
  then show "json_laws (sample_env health)" by (simp add: json_laws_def sample_env_def sample_json)
  show "stamp_laws (sample_env health)" by (simp add: stamp_laws_def sample_env_def ascii_eval)
qed

lemma sample_images:
  assumes "c \<in> {CHR ''a'', CHR ''b''}"
  shows "immutableImagePattern (sample_image c)" and "immutableImageDigest (sample_image c) = replicate 64 c"
    and "length (sample_image c) = 75"
proof -
  have "cut_at ''@sha256:'' (sample_image c) = Some (''app'', replicate 64 c)"
    by (simp add: sample_image_def cut_at.simps has_prefix_def)
  moreover have "image_repository ''app''"
    by (simp add: image_repository_def image_component_def lower_alnum_def byte_def)
  moreover have "hex64 (replicate 64 c)" using assms by (auto simp: hex64_def lower_hex_def byte_def list_all_iff)
  ultimately show "immutableImagePattern (sample_image c)" "immutableImageDigest (sample_image c) = replicate 64 c"
    by (simp_all add: immutableImagePattern_def immutableImageDigest_def)
  show "length (sample_image c) = 75" by (simp add: sample_image_def)
qed

lemma sample_stacks_ok:
  "validateDeploymentPolicy parse_url sample_deployment_policy = Inr ()"
  "validateDeploymentStack parse_url sample_stack = Inr ()"
  "dp_Stacks sample_deployment_policy = Some [sample_stack]" "policy_texts [sample_stack]"
proof -
  have path: "validateDeploymentPath ''/srv/web'' = Inr ()" "validateDeploymentPath ''/srv/web/compose.yml'' = Inr ()"
    "path_rel ''/srv/web'' ''/srv/web/compose.yml'' = ''compose.yml''"
    by (simp_all add: validateDeploymentPath_def ascii_eval deploymentTextHasControl_def is_clean_abs_def is_abs_def
        has_prefix_def path_elements_def path_rel_def Let_def)
  have rel: "check_releases [] [] (sk_Releases sample_stack) = Inr ()"
    using sample_images[of "CHR ''a''"]
    by (simp add: sample_stack_def deploymentReleasePattern_def name_pattern_def or_in_def alnum_def equal_fold_ascii_def
        ascii_eval deploymentTextHasControl_def Let_def fold_rune_def)
  show v: "validateDeploymentStack parse_url sample_stack = Inr ()"
    using path rel unfolding validateDeploymentStack_def
    by (simp add: sample_stack_def deploymentKeyPattern_def name_pattern_def or_in_def lower_alnum_def ascii_eval
        deploymentTextHasControl_def validateDeploymentHealth_def maximumDeploymentReleases_def has_prefix_def
        docker_resource_def alnum_def)
  show "validateDeploymentPolicy parse_url sample_deployment_policy = Inr ()"
    by (simp add: validateDeploymentPolicy_def sample_deployment_policy_def deploymentPolicyVersion_def
        maximumDeploymentStacks_def v)
  show "dp_Stacks sample_deployment_policy = Some [sample_stack]" by (simp add: sample_deployment_policy_def)
  show "policy_texts [sample_stack]" by (simp add: policy_texts_def sample_stack_def ascii_eval)
qed

text \<open>Deploying \<open>v2\<close> on it.\<close>

lemma b64_length: "length (b64_encode s) \<le> 4 * length s + 2"
  by (induction s rule: b64_encode.induct) auto

definition sample_offer :: deployment_definition where
  "sample_offer = deploy_offer sample_stack no_state \<lparr>pr_ID = ''v2'', pr_Label = ''Two'', pr_Image = sample_image (CHR ''a'')\<rparr>"

definition sample_external :: state_release where
  "sample_external = \<lparr>sr_ID = ''external'', sr_Label = [CHR 0xE9, CHR 0x83, CHR 0xA8, CHR 0xE7, CHR 0xBD, CHR 0xB2, CHR 0xE5, CHR 0x89, CHR 0x8D, CHR 0xE7, CHR 0x89, CHR 0x88, CHR 0xE6, CHR 0x9C, CHR 0xAC], sr_Image = sample_image (CHR ''b'')\<rparr>"

definition sample_next :: deployment_state where
  "sample_next = \<lparr>dt_Version = 1, dt_StackKey = ''web'', dt_Current = deployment_target sample_offer,
     dt_Previous = sample_external, dt_UpdatedAt = ''2026-08-01T00:00:00Z''\<rparr>"

lemma sample_encodes:
  assumes "length (sr_Label (dt_Previous st)) \<le> 20" "sr_Image (dt_Previous st) = [] \<or> dt_Previous st = sample_external"
    "dt_Previous st = no_release \<or> dt_Previous st = sample_external"
    "dt_Current st = deployment_target sample_offer \<or> dt_Current st = sample_external"
    "dt_Version st = 1" "dt_StackKey st = ''web''" "dt_UpdatedAt st = ''2026-08-01T00:00:00Z''"
  shows "\<exists>content. encodeDeploymentOverride (sample_env health) st sample_stack = Inr content"
proof -
  have q: "length (quoted w) = 2 * length w + 1" for w
    by (induction w) (simp_all add: quoted_def)
  have l: "length (sample_image c) = 75" for c by (simp add: sample_image_def)
  have m: "length (sample_marshal st) \<le> 1000"
    using assms length_itoa_nat[of 1 1] length_itoa_nat[of 0 1] by (auto simp: sample_marshal_def q l no_release_def sample_external_def deployment_target_def
        sample_offer_def deploy_offer_def)
  have i: "length (sr_Image (dt_Current st)) = 75"
    using assms(4) by (auto simp: l sample_external_def deployment_target_def sample_offer_def deploy_offer_def)
  show ?thesis using m i b64_length[of "sample_marshal st"]
    by (simp add: encodeDeploymentOverride_def sample_env_def sample_stack_def state_header_def maximumDeploymentState_def Let_def)
qed

lemma trim_words: "trim_space ''web'' = ''web''" "trim_space ''c1'' = ''c1''" "trim_space ''true'' = ''true''"
  "trim_space ''healthy'' = ''healthy''"
  by (simp_all add: trim_space_plain plain_char_def byte_def)

lemma sample_steps:
  assumes "path = [] \<or> path = ''/tmp/candidate''"
  shows
  "validateComposeService (sample_env health) sample_stack path () = (Inr (), ())"
  "ensureImmutableImage (sample_env health) (sample_image (CHR ''a'')) () = (Inr (), ())"
  "composeContainerID (sample_env health) sample_stack path () = (Inr ''c1'', ())"
  "discoverCurrentRelease (sample_env health) sample_stack () = (Inr sample_external, ())"
  "applyDeploymentOverride (sample_env health) sample_stack path () = (Inr (), ())"
  "verifyDeploymentHealth (sample_env ''healthy'') (Suc f) sample_stack path () = Some (Inr (), ())"
proof -
  let ?e = "sample_env health"
  show "validateComposeService ?e sample_stack path () = (Inr (), ())" "applyDeploymentOverride ?e sample_stack path () = (Inr (), ())"
    using assms by (auto simp: validateComposeService_def applyDeploymentOverride_def sample_env_def sample_command_def
        composeArguments_def sample_stack_def trim_words)
  have c: "composeContainerID (sample_env health) sample_stack path () = (Inr ''c1'', ())"
    if "path = [] \<or> path = ''/tmp/candidate''" for path health
    using that by (auto simp: composeContainerID_def sample_env_def sample_command_def composeArguments_def sample_stack_def
        trim_words contains_any_def)
  then show "composeContainerID ?e sample_stack path () = (Inr ''c1'', ())" using assms by blast
  show "ensureImmutableImage ?e (sample_image (CHR ''a'')) () = (Inr (), ())"
    using sample_images(1)[of "CHR ''a''"] by (simp add: ensureImmutableImage_def sample_env_def sample_command_def)
  have hex: "dockerImageIDPattern (''sha256:'' @ replicate 64 CHR ''c'')"
    by (simp add: dockerImageIDPattern_def hex64_def list_all_iff lower_hex_def byte_def has_prefix_def)
  have "plain (''sha256:'' @ replicate 64 CHR ''c'')" by (simp add: plain_def plain_char_def byte_def list_all_iff)
  then have t: "trim_space (''sha256:'' @ replicate 64 CHR ''c'') = ''sha256:'' @ replicate 64 CHR ''c''" by (rule trim_space_plain)
  show "discoverCurrentRelease ?e sample_stack () = (Inr sample_external, ())"
    using sample_images[of "CHR ''b''"] hex t unfolding discoverCurrentRelease_def c[OF disjI1[OF refl]]
    by (simp add: sample_env_def sample_command_def sample_external_def Let_def)
  have "healthy_once (sample_env ''healthy'') sample_stack path () = (True, ())"
    unfolding healthy_once_def c[OF assms] by (simp add: sample_env_def sample_command_def sample_stack_def trim_words)
  then show "verifyDeploymentHealth (sample_env ''healthy'') (Suc f) sample_stack path () = Some (Inr (), ())"
    by (simp add: verifyDeploymentHealth_def)
qed

lemma sample_offers: "deploymentDefinitions [sample_stack] Map.empty = [sample_offer]"
proof -
  have r: "sk_Releases sample_stack = [\<lparr>pr_ID = ''v2'', pr_Label = ''Two'', pr_Image = sample_image (CHR ''a'')\<rparr>]"
    by (simp add: sample_stack_def)
  have i: "sr_Image (dt_Current no_state) = []" "sr_Image (dt_Previous no_state) = []" "[] \<noteq> sample_image (CHR ''a'')"
    by (simp_all add: no_state_def no_release_def sample_image_def)
  have "stack_offers Map.empty sample_stack = [sample_offer]"
    using i by (simp add: stack_offers_def state_of_def r sample_offer_def Let_def)
  then show ?thesis by (simp add: deploymentDefinitions_def)
qed

lemma sample_offer_fields: "dd_ID sample_offer = ''deploy:web:v2''" "dd_StackKey sample_offer = ''web''"
  "dd_Image sample_offer = sample_image (CHR ''a'')" "dd_Kind sample_offer = ''deploy''" "dd_CurrentReleaseID sample_offer = []"
  by (simp_all add: sample_offer_def deploy_offer_def deploymentActionID_def sample_stack_def no_state_def no_release_def)

lemma sample_found: "findDeploymentDefinition (deploymentDefinitions [sample_stack] Map.empty) ''deploy:web:v2'' = Some sample_offer"
  by (simp add: findDeploymentDefinition_def sample_offers sample_offer_fields)

lemma sample_deployed:
  obtains content where "encodeDeploymentOverride (sample_env ''healthy'') sample_next sample_stack = Inr content"
    and "ExecutePolicyDeployment (sample_env ''healthy'') (Suc f) [sample_stack] (\<lambda>_. False) ''deploy:web:v2'' (Map.empty, ()) =
      Some (Inr (deployed sample_stack sample_offer sample_external
        (sk_Label sample_stack @ deployed_text @ dd_ReleaseLabel sample_offer @ healthy_text), [''web'' \<mapsto> content], ()))"
proof -
  let ?e = "sample_env ''healthy''"
  obtain content where c: "encodeDeploymentOverride ?e sample_next sample_stack = Inr content"
    using sample_encodes[of sample_next "''healthy''"]
    by (auto simp: sample_next_def sample_external_def)
  have n: "next_state ?e sample_stack (deployment_target sample_offer) sample_external () = sample_next"
    by (simp add: next_state_def sample_next_def sample_env_def sample_stack_def deploymentStateVersion_def)
  have w: "writeDeploymentOverrideCandidate ?e sample_stack sample_next () = (Inr (''/tmp/candidate'', content), ())"
    unfolding writeDeploymentOverrideCandidate_def c by (simp add: sample_env_def)
  have k: "commit_candidate ?e (''/tmp/candidate'', content) (None, ()) = (True, Some content, ())"
    by (simp add: commit_candidate_def sample_env_def)
  have differs: "immutableImageDigest (sr_Image sample_external) \<noteq> immutableImageDigest (dd_Image sample_offer)"
    using sample_images(2)[of "CHR ''a''"] sample_images(2)[of "CHR ''b''"] by (simp add: sample_offer_fields sample_external_def)
  have z: "dt_Current no_state = no_release" by (simp add: no_state_def)
  have key: "sk_Key sample_stack = ''web''" by (simp add: sample_stack_def)
  have rm: "en_remove ?e path h = h" for path h by (simp add: sample_env_def)
  note steps = sample_steps[OF disjI1[OF refl]] sample_steps[OF disjI2[OF refl]]
  have "executeApprovedDeployment ?e (Suc f) sample_stack sample_offer no_state (None, ()) =
      apply_release ?e (Suc f) sample_stack sample_offer no_state sample_external (None, ())"
    unfolding executeApprovedDeployment_def prod.case steps sum.case sample_offer_fields z
    using differs[unfolded sample_offer_fields] by (simp add: steps)
  also have "\<dots> = Some (deployed sample_stack sample_offer sample_external
        (sk_Label sample_stack @ deployed_text @ dd_ReleaseLabel sample_offer @ healthy_text), Some content, ())"
    unfolding apply_release_def prod.case n w Let_def sum.case fst_conv steps option.case k bool.case
    by (simp add: sample_offer_fields rm)
  finally have "executeApprovedDeployment ?e (Suc f) sample_stack sample_offer no_state (None, ()) =
      Some (deployed sample_stack sample_offer sample_external
        (sk_Label sample_stack @ deployed_text @ dd_ReleaseLabel sample_offer @ healthy_text), Some content, ())" .
  then have "ExecutePolicyDeployment ?e (Suc f) [sample_stack] (\<lambda>_. False) ''deploy:web:v2'' (Map.empty, ()) =
      Some (Inr (deployed sample_stack sample_offer sample_external
        (sk_Label sample_stack @ deployed_text @ dd_ReleaseLabel sample_offer @ healthy_text), [''web'' \<mapsto> content], ()))"
    unfolding ExecutePolicyDeployment_def
    by (simp add: sample_found sample_offer_fields key findDeploymentStack_def state_of_def)
  then show ?thesis using that c by blast
qed

theorem deployment_recorded_witness:
  "\<exists>r files' states'.
     ExecutePolicyDeployment (sample_env ''healthy'') (Suc 0) [sample_stack] (\<lambda>_. False) ''deploy:web:v2'' (Map.empty, ()) =
       Some (Inr (r, files', ())) \<and>
     loadDeploymentStates (sample_env ''healthy'') (\<lambda>k. Inr (files' k)) [sample_stack] = Inr states' \<and>
     dt_Current (state_of states' ''web'') = deployment_target sample_offer"
proof -
  obtain content where run: "ExecutePolicyDeployment (sample_env ''healthy'') (Suc 0) [sample_stack] (\<lambda>_. False)
      ''deploy:web:v2'' (Map.empty, ()) = Some (Inr (deployed sample_stack sample_offer sample_external
        (sk_Label sample_stack @ deployed_text @ dd_ReleaseLabel sample_offer @ healthy_text), [''web'' \<mapsto> content], ()))"
    by (rule sample_deployed)
  have l: "loadDeploymentStates (sample_env ''healthy'') (\<lambda>k. Inr (Map.empty k)) [sample_stack] = Inr Map.empty" by simp
  from deployment_recorded[OF sample_stacks_ok(1,3,4) sample_laws run] obtain states' where
    l': "loadDeploymentStates (sample_env ''healthy'') (\<lambda>k. Inr (([''web'' \<mapsto> content]) k)) [sample_stack] = Inr states'"
    and "state_recorded sample_offer None (states' ''web'')
      (deployed sample_stack sample_offer sample_external
        (sk_Label sample_stack @ deployed_text @ dd_ReleaseLabel sample_offer @ healthy_text))"
    using l sample_found by (auto simp: sample_offer_fields)
  then have "dt_Current (state_of states' ''web'') = deployment_target sample_offer"
    by (auto simp: state_recorded_def state_of_def split: option.splits)
  then show ?thesis using run l' by blast
qed

end
