(* ===== verification/Deployment_Runs.thy ===== *)
theory Deployment_Runs
  imports Deployment_Records
begin

text \<open>
  How an execution of a deployment runs on the host: which commands it may give, which of them
  only when a release is applied, and that it always comes to an end.
\<close>

section \<open>The commands of an execution\<close>

text \<open>The commands that only look at the host or fetch the approved image, and the one that applies
  a Compose override to the approved service.\<close>

definition check_command :: "deployment_stack \<Rightarrow> deployment_definition \<Rightarrow> string list \<Rightarrow> bool" where
  "check_command s d c =
     ((\<exists>path. c = ''docker'' # composeArguments s path [''config'', ''--services'']) \<or>
      (\<exists>path. c = ''docker'' # composeArguments s path [''ps'', ''--quiet'', sk_Service s]) \<or>
      c = [''docker'', ''image'', ''inspect'', ''--'', dd_Image d] \<or>
      c = [''docker'', ''pull'', ''--quiet'', dd_Image d] \<or>
      (\<exists>format k. c = [''docker'', ''inspect'', ''--format='' @ format, ''--'', k]) \<or>
      (\<exists>k. c = [''docker'', ''image'', ''inspect'', ''--format={{json .RepoDigests}}'', ''--'', k]))"

definition apply_command :: "deployment_stack \<Rightarrow> string list \<Rightarrow> bool" where
  "apply_command s c =
     (\<exists>path. c = ''docker'' # composeArguments s path [''up'', ''--detach'', ''--no-deps'', sk_Service s])"

text \<open>\<open>kept env allowed I\<close>: every operation of the host keeps \<open>I\<close>, commands only when allowed.\<close>

definition kept :: "'h deploy_env \<Rightarrow> (string list \<Rightarrow> bool) \<Rightarrow> ('h \<Rightarrow> bool) \<Rightarrow> bool" where
  "kept env allowed I = (\<forall>h. I h \<longrightarrow>
     (\<forall>c. allowed c \<longrightarrow> I (snd (en_run env c h))) \<and> (\<forall>u. I (snd (en_probe env u h))) \<and>
     (\<forall>k t. I (snd (en_stage env k t h))) \<and> (\<forall>p. I (snd (en_rename env p h))) \<and> (\<forall>p. I (en_remove env p h)) \<and>
     (\<forall>t. I (en_sleep env t h)) \<and> I (en_recovery env h))"

lemma keptD:
  assumes "kept env allowed I" "I h"
  shows "allowed c \<Longrightarrow> en_run env c h = (x, h') \<Longrightarrow> I h'" and "en_probe env u h = (y, h') \<Longrightarrow> I h'"
    and "en_stage env k t h = (z, h') \<Longrightarrow> I h'" and "en_rename env p h = (v, h') \<Longrightarrow> I h'"
    and "I (en_remove env p h)" and "I (en_sleep env n h)" and "I (en_recovery env h)"
  using assms unfolding kept_def by (metis snd_conv)+

lemma check_commands:
  "check_command s d (''docker'' # composeArguments s path [''config'', ''--services''])"
  "check_command s d (''docker'' # composeArguments s path [''ps'', ''--quiet'', sk_Service s])"
  "check_command s d [''docker'', ''image'', ''inspect'', ''--'', dd_Image d]"
  "check_command s d [''docker'', ''pull'', ''--quiet'', dd_Image d]"
  "check_command s d [''docker'', ''inspect'', ''--format={{.Image}}'', ''--'', k]"
  "check_command s d [''docker'', ''inspect'', ''--format={{.State.Running}}'', ''--'', k]"
  "check_command s d [''docker'', ''inspect'',
     ''--format={{if .State.Health}}{{.State.Health.Status}}{{else}}none{{end}}'', ''--'', k]"
  "check_command s d [''docker'', ''image'', ''inspect'', ''--format={{json .RepoDigests}}'', ''--'', k]"
  unfolding check_command_def by (blast | force)+

text \<open>\<open>watched\<close>: checking is allowed and \<open>I\<close> is kept.\<close>

definition watched ::
  "'h deploy_env \<Rightarrow> deployment_stack \<Rightarrow> deployment_definition \<Rightarrow> (string list \<Rightarrow> bool) \<Rightarrow> ('h \<Rightarrow> bool) \<Rightarrow> bool" where
  "watched env s d allowed I = (kept env allowed I \<and> (\<forall>c. check_command s d c \<longrightarrow> allowed c))"

lemma run_kept: "watched env s d allowed I \<Longrightarrow> I h \<Longrightarrow> en_run env c h = (x, h') \<Longrightarrow> check_command s d c \<Longrightarrow> I h'"
  using keptD(1) unfolding watched_def by metis

lemma host_kept:
  assumes "watched env s d allowed I" "I h"
  shows "en_probe env u h = (y, h') \<Longrightarrow> I h'" and "en_stage env k t h = (z, h') \<Longrightarrow> I h'"
    and "en_rename env p h = (v, h') \<Longrightarrow> I h'" and "I (en_remove env p h)" and "I (en_sleep env n h)"
    and "I (en_recovery env h)"
  using assms keptD(2-7) unfolding watched_def by metis+

lemma service_kept: "watched env s d allowed I \<Longrightarrow> I h \<Longrightarrow> validateComposeService env s path h = (x, h') \<Longrightarrow> I h'"
  unfolding validateComposeService_def
  by (auto simp: Let_def split: prod.splits if_splits dest: run_kept[OF _ _ _ check_commands(1)])

lemma image_kept: "watched env s d allowed I \<Longrightarrow> I h \<Longrightarrow> ensureImmutableImage env (dd_Image d) h = (x, h') \<Longrightarrow> I h'"
  unfolding ensureImmutableImage_def
  by (auto simp: Let_def split: prod.splits if_splits
      dest: run_kept[OF _ _ _ check_commands(3)] run_kept[OF _ _ _ check_commands(4)])

lemma container_kept: "watched env s d allowed I \<Longrightarrow> I h \<Longrightarrow> composeContainerID env s path h = (x, h') \<Longrightarrow> I h'"
  unfolding composeContainerID_def
  by (auto simp: Let_def split: prod.splits if_splits dest: run_kept[OF _ _ _ check_commands(2)])

lemma discover_kept: "watched env s d allowed I \<Longrightarrow> I h \<Longrightarrow> discoverCurrentRelease env s h = (x, h') \<Longrightarrow> I h'"
  unfolding discoverCurrentRelease_def
  by (auto simp: Let_def split: prod.splits if_splits sum.splits option.splits
      dest: container_kept run_kept[OF _ _ _ check_commands(5)] run_kept[OF _ _ _ check_commands(8)])

lemma healthy_kept: "watched env s d allowed I \<Longrightarrow> I h \<Longrightarrow> healthy_once env s path h = (x, h') \<Longrightarrow> I h'"
  unfolding healthy_once_def
  by (auto simp: Let_def split: prod.splits if_splits sum.splits option.splits
      dest: container_kept run_kept[OF _ _ _ check_commands(6)] run_kept[OF _ _ _ check_commands(7)] host_kept(1))

lemma await_kept:
  assumes "watched env s d allowed I"
  shows "I h \<Longrightarrow> await_health env s path deadline fuel h = Some (x, h') \<Longrightarrow> I h'"
proof (induction fuel arbitrary: h)
  case (Suc fuel)
  obtain b h1 where o: "healthy_once env s path h = (b, h1)" by (metis surj_pair)
  have "I h1" by (rule healthy_kept[OF assms Suc.prems(1) o])
  then show ?case
    using Suc.IH[OF host_kept(5)[OF assms]] Suc.prems(2) o by (auto simp: Let_def split: if_splits)
qed simp

lemma health_kept:
  "watched env s d allowed I \<Longrightarrow> I h \<Longrightarrow> verifyDeploymentHealth env fuel s path h = Some (x, h') \<Longrightarrow> I h'"
  unfolding verifyDeploymentHealth_def by (rule await_kept)

lemma candidate_kept:
  "watched env s d allowed I \<Longrightarrow> I h \<Longrightarrow> writeDeploymentOverrideCandidate env s st h = (x, h') \<Longrightarrow> I h'"
  unfolding writeDeploymentOverrideCandidate_def
  by (auto split: sum.splits prod.splits option.splits dest: host_kept(2))

lemma commit_kept:
  "watched env s d allowed I \<Longrightarrow> I h \<Longrightarrow> commit_candidate env candidate (file, h) = (ok, file', h') \<Longrightarrow> I h'"
  unfolding commit_candidate_def by (auto split: prod.splits rename_outcome.splits dest: host_kept(3))

lemma applied_kept:
  "watched env s d allowed I \<Longrightarrow> (\<And>c. apply_command s c \<Longrightarrow> allowed c) \<Longrightarrow> I h \<Longrightarrow>
    applyDeploymentOverride env s path h = (x, h') \<Longrightarrow> I h'"
proof -
  assume w: "watched env s d allowed I" and a: "\<And>c. apply_command s c \<Longrightarrow> allowed c" and i: "I h"
    and r: "applyDeploymentOverride env s path h = (x, h')"
  have k: "kept env allowed I" using w by (simp add: watched_def)
  have "apply_command s (''docker'' # composeArguments s path [''up'', ''--detach'', ''--no-deps'', sk_Service s])"
    unfolding apply_command_def by blast
  from keptD(1)[OF k i a[OF this]] r show "I h'"
    unfolding applyDeploymentOverride_def by (auto simp: Let_def split: prod.splits)
qed

lemmas step_kept = service_kept image_kept discover_kept health_kept candidate_kept commit_kept

lemma rollback_kept:
  assumes w: "watched env s d allowed I" and a: "\<And>c. apply_command s c \<Longrightarrow> allowed c" and i: "I h"
    and run: "rollbackFailedDeployment env fuel s d stored current e (file, h) = Some (r, file', h')"
  shows "I h'"
proof -
  note rm = host_kept(4)[OF w]
  obtain x h1 where 1: "writeDeploymentOverrideCandidate env s (rollback_state env s stored current (en_recovery env h))
      (en_recovery env h) = (x, h1)" by (metis surj_pair)
  have i1: "I h1" by (rule step_kept(5)[OF w host_kept(6)[OF w i] 1])
  note R = run[unfolded rollbackFailedDeployment_def prod.case Let_def 1]
  show ?thesis
  proof (cases x)
    case (Inr candidate)
    obtain v h2 where 2: "validateComposeService env s (fst candidate) h1 = (v, h2)" by (metis surj_pair)
    have i2: "I h2" by (rule step_kept(1)[OF w i1 2])
    obtain u h3 where 3: "applyDeploymentOverride env s (fst candidate) h2 = (u, h3)" by (metis surj_pair)
    have i3: "I h3" by (rule applied_kept[OF w a i2 3])
    have i4: "I h4" if "verifyDeploymentHealth env fuel s (fst candidate) h3 = Some (y, h4)" for y h4
      by (rule step_kept(4)[OF w i3 that])
    note i5 = step_kept(6)[OF w i4]
    show ?thesis using R i2 i3 unfolding Inr sum.case 2 3 prod.case
      by (cases v; cases u)
        (auto split: option.splits prod.splits sum.splits bool.splits intro: rm i4 i5)
  qed (use R i1 in auto)
qed

lemma confirm_kept:
  assumes w: "watched env s d allowed I" and i: "I h"
    and run: "confirm_running_release env fuel s d current (file, h) = Some (r, file', h')"
  shows "I h'"
  using run unfolding confirm_running_release_def prod.case
  by (auto split: option.splits prod.splits sum.splits bool.splits intro!: host_kept(4)[OF w]
      dest: step_kept(4)[OF w i] step_kept(5)[OF w step_kept(4)[OF w i]]
        step_kept(6)[OF w step_kept(5)[OF w step_kept(4)[OF w i]]])

text \<open>A failure before the candidate is applied.\<close>

definition before_apply :: "deployment_result \<Rightarrow> bool" where
  "before_apply r = (de_ErrorKind r \<in> {''preflight_failed'', ''image_prepare_failed'', ''current_release_unknown'',
     ''state_prepare_failed''})"

lemma rollback_not_before:
  "rollbackFailedDeployment env fuel s d stored current e w = Some (r, w') \<Longrightarrow>
    de_ErrorKind r = ''rollback_failed'' \<or> de_ErrorKind r = e"
  unfolding rollbackFailedDeployment_def
  by (auto simp: Let_def split: prod.splits sum.splits option.splits bool.splits)

lemma apply_kept:
  assumes w: "watched env s d allowed I" and a: "\<And>c. \<not> before_apply r \<Longrightarrow> apply_command s c \<Longrightarrow> allowed c" and i: "I h"
    and run: "apply_release env fuel s d stored current (file, h) = Some (r, file', h')"
  shows "I h'"
proof -
  note rm = host_kept(4)[OF w]
  obtain x h1 where 1: "writeDeploymentOverrideCandidate env s (next_state env s (deployment_target d) current h) h = (x, h1)"
    by (metis surj_pair)
  have i1: "I h1" by (rule step_kept(5)[OF w i 1])
  note R = run[unfolded apply_release_def prod.case Let_def 1]
  show ?thesis
  proof (cases x)
    case (Inr candidate)
    obtain v h2 where 2: "validateComposeService env s (fst candidate) h1 = (v, h2)" by (metis surj_pair)
    have i2: "I h2" by (rule step_kept(1)[OF w i1 2])
    show ?thesis
    proof (cases v)
      case (Inr v')
      note R' = R[unfolded \<open>x = Inr candidate\<close> sum.case 2 prod.case Inr]
      have nb: "\<not> before_apply r"
        using R' by (auto simp: before_apply_def split: prod.splits sum.splits option.splits bool.splits
            dest!: rollback_not_before)
      note a' = a[OF nb]
      obtain u h3 where 3: "applyDeploymentOverride env s (fst candidate) h2 = (u, h3)" by (metis surj_pair)
      have i3: "I h3" by (rule applied_kept[OF w a' i2 3])
      have i4: "I h4" if "verifyDeploymentHealth env fuel s (fst candidate) h3 = Some (y, h4)" for y h4
        by (rule step_kept(4)[OF w i3 that])
      note i5 = step_kept(6)[OF w i4]
      show ?thesis using R' unfolding 3 prod.case
        by (cases u) (auto split: option.splits prod.splits sum.splits bool.splits
            intro: rm i4 i5 rollback_kept[OF w a' i3] rollback_kept[OF w a' i4] rollback_kept[OF w a' i5])
    qed (use R \<open>x = Inr candidate\<close> 2 rm[OF i2] in auto)
  qed (use R i1 in auto)
qed


section \<open>The health checks end\<close>

text \<open>The clock is monotonic: commands and probes do not set it back and a sleep moves it on.\<close>

definition clock_laws :: "'h deploy_env \<Rightarrow> bool" where
  "clock_laws env =
     ((\<forall>c h. en_clock env h \<le> en_clock env (snd (en_run env c h))) \<and>
      (\<forall>u h. en_clock env h \<le> en_clock env (snd (en_probe env u h))) \<and>
      (\<forall>t h. en_clock env h + t \<le> en_clock env (en_sleep env t h)))"

lemma healthy_clock: "clock_laws env \<Longrightarrow> healthy_once env s path h = (b, h') \<Longrightarrow> en_clock env h \<le> en_clock env h'"
proof -
  assume c: "clock_laws env" and o: "healthy_once env s path h = (b, h')"
  have run: "en_run env c h = (x, h') \<Longrightarrow> en_clock env h \<le> en_clock env h'" for c h x h'
    using c unfolding clock_laws_def by (metis snd_conv)
  have probe: "en_probe env u h = (x, h') \<Longrightarrow> en_clock env h \<le> en_clock env h'" for u h x h'
    using c unfolding clock_laws_def by (metis snd_conv)
  have id: "composeContainerID env s path h = (x, h') \<Longrightarrow> en_clock env h \<le> en_clock env h'" for x h h'
    unfolding composeContainerID_def by (auto simp: Let_def split: prod.splits if_splits dest: run)
  show ?thesis using o unfolding healthy_once_def
    by (auto simp: Let_def split: prod.splits if_splits sum.splits option.splits dest!: id run probe)
qed

lemma await_ends:
  assumes "clock_laws env"
  shows "deadline \<le> en_clock env h + int fuel * deploymentProbeInterval \<Longrightarrow>
    await_health env s path deadline (Suc fuel) h \<noteq> None"
proof (induction fuel arbitrary: h)
  case 0
  obtain b h' where o: "healthy_once env s path h = (b, h')" by (metis surj_pair)
  have "\<not> en_clock env h' < deadline" using healthy_clock[OF assms o] 0 by simp
  then show ?case by (simp add: o Let_def)
next
  case (Suc fuel)
  obtain b h' where o: "healthy_once env s path h = (b, h')" by (metis surj_pair)
  have "en_clock env h' + deploymentProbeInterval \<le> en_clock env (en_sleep env deploymentProbeInterval h')"
    using assms by (simp add: clock_laws_def)
  moreover have "en_clock env h \<le> en_clock env h'" by (rule healthy_clock[OF assms o])
  ultimately have "deadline \<le> en_clock env (en_sleep env deploymentProbeInterval h') + int fuel * deploymentProbeInterval"
    using Suc.prems by (simp add: algebra_simps)
  from Suc.IH[OF this] show ?case
    by (subst await_health.simps(2)) (simp add: o Let_def)
qed

lemma health_ends:
  assumes "clock_laws env" "hp_TimeoutSeconds (sk_Health s) \<le> 300" "601 \<le> fuel"
  shows "verifyDeploymentHealth env fuel s path h \<noteq> None"
proof -
  obtain f where f: "fuel = Suc f" "600 \<le> f" using assms(3) by (cases fuel) auto
  have "en_clock env h + hp_TimeoutSeconds (sk_Health s) * second \<le> en_clock env h + int f * deploymentProbeInterval"
    using assms(2) f(2) by (simp add: deploymentProbeInterval_def)
  then show ?thesis unfolding verifyDeploymentHealth_def f(1) by (rule await_ends[OF assms(1)])
qed

text \<open>C30. An execution always ends: a health check polls every half second and gives up at the
  deadline of its policy, at most 300 seconds away, so 601 polls are enough for each.\<close>

theorem deployment_terminates:
  assumes "validateDeploymentStack parse_url s = Inr ()" and "clock_laws env" and "601 \<le> fuel"
  shows "executeApprovedDeployment env fuel s d stored w \<noteq> None"
proof -
  have h: "verifyDeploymentHealth env fuel s path h \<noteq> None" for path h
    using health_ends[OF assms(2) _ assms(3)] stack_facts(7)[OF assms(1)] by blast
  have r: "rollbackFailedDeployment env fuel s d stored current e w \<noteq> None" for current e w
    unfolding rollbackFailedDeployment_def
    by (auto simp: Let_def h split: prod.splits sum.splits option.splits bool.splits)
  have r': "\<exists>x y z. rollbackFailedDeployment env fuel s d stored current e w = Some (x, y, z)" for current e w
    using r[of current e w] by auto
  have a: "apply_release env fuel s d stored current w \<noteq> None" for current w
    unfolding apply_release_def
    by (auto simp: Let_def h r' split: prod.splits sum.splits option.splits bool.splits)
  have c: "confirm_running_release env fuel s d current w \<noteq> None" for current w
    unfolding confirm_running_release_def
    by (auto simp: Let_def h split: prod.splits sum.splits option.splits bool.splits)
  have "\<exists>x y z. apply_release env fuel s d stored current w = Some (x, y, z)"
    "\<exists>x y z. confirm_running_release env fuel s d current w = Some (x, y, z)" for current w
    using a[of current w] c[of current w] by auto
  then show ?thesis unfolding executeApprovedDeployment_def
    by (auto split: prod.splits sum.splits)
qed

section \<open>Concrete runs\<close>

text \<open>A host on which every command fails, whose state is the commands given, and one whose state
  is its clock, on which the service never becomes healthy.\<close>

definition failing_env :: "string list list deploy_env" where
  "failing_env = \<lparr>en_run = (\<lambda>c h. (([], [], True), h @ [c])), en_probe = (\<lambda>_ h. (None, h)),
     en_stage = (\<lambda>_ _ h. (Some ''/tmp/candidate'', h)), en_rename = (\<lambda>_ h. (Renamed, h)),
     en_remove = (\<lambda>_ h. h), en_clock = (\<lambda>_. 0), en_sleep = (\<lambda>_ h. h), en_done = (\<lambda>_. True),
     en_recovery = (\<lambda>h. h), en_stamp = (\<lambda>_. []), en_utc = (\<lambda>_. True),
     en_marshal = sample_marshal, en_unmarshal = sample_unmarshal, en_digests = (\<lambda>_. None)\<rparr>"

definition ticking_env :: "time deploy_env" where
  "ticking_env = \<lparr>en_run = (\<lambda>c t. let ((out, err, failed), _) = sample_command ''starting'' c () in ((out, err, failed), t)),
     en_probe = (\<lambda>_ t. (None, t)),
     en_stage = (\<lambda>_ _ t. (Some ''/tmp/candidate'', t)), en_rename = (\<lambda>_ t. (Renamed, t)),
     en_remove = (\<lambda>_ t. t), en_clock = (\<lambda>t. t), en_sleep = (\<lambda>d t. t + d), en_done = (\<lambda>_. False),
     en_recovery = (\<lambda>t. t), en_stamp = (\<lambda>_. []), en_utc = (\<lambda>_. True),
     en_marshal = sample_marshal, en_unmarshal = sample_unmarshal,
     en_digests = (\<lambda>_. Some [sample_image (CHR ''b'')])\<rparr>"


theorem deployment_terminates_witness:
  "executeApprovedDeployment ticking_env 601 sample_stack sample_offer no_state (None, 0) \<noteq> None"
proof (rule deployment_terminates)
  show "validateDeploymentStack (\<lambda>_. None) sample_stack = Inr ()" by (rule sample_stacks_ok(2))
  show "clock_laws ticking_env" by (simp add: clock_laws_def ticking_env_def split: prod.split)
qed simp

end
