(* ===== verification/Action_Client.thy ===== *)
theory Action_Client
  imports Agent_Actions
begin

text \<open>
  The Hub's side of remote actions (\<^verbatim>\<open>internal/hub/action_client.go\<close>): the checks of what an
  Agent publishes and answers, and the HTTP client whose errors are the fixed categories. What
  the network and \<^verbatim>\<open>encoding/json\<close> make of a request is the argument \<open>agent_answer\<close>: the
  request could not be built, the exchange failed, or a status with the decoded body (\<open>None\<close>
  when it is too long, not the expected JSON or followed by more).

  The theory then joins the two sides: whatever an Agent publishes from a valid policy, and
  whatever it answers for a published action, the Hub accepts.
\<close>

section \<open>Checks\<close>

definition maximumAgentActions :: nat where "maximumAgentActions = 256"

definition hubSystemdActionResource :: "string \<Rightarrow> bool" where
  "hubSystemdActionResource s = systemd_resource s"

definition hubDockerActionResource :: "string \<Rightarrow> bool" where
  "hubDockerActionResource s = docker_resource s"

definition actionTextHasControl :: "string \<Rightarrow> bool" where
  "actionTextHasControl value = list_ex is_control (runes value)"

definition actionLogHasControl :: "string \<Rightarrow> bool" where
  "actionLogHasControl value = list_ex (\<lambda>r. is_control r \<and> r \<noteq> 9) (runes value)"

definition actionRisk :: "action_kind \<Rightarrow> action_risk option" where
  "actionRisk k =
     (if k = ActionLogs then Some ActionRiskRead
      else if k = ActionStart then Some ActionRiskChange
      else if k = ActionStop \<or> k = ActionRestart then Some ActionRiskDisruptive
      else None)"

definition validateAgentActionDefinition :: "action_definition \<Rightarrow> go_error + unit" where
  "validateAgentActionDefinition d =
     andThen (guard ''agent action identity is invalid''
       (ad_ID d \<noteq> ad_Kind d @ '':'' @ ad_TargetKey d \<or> length (ad_ID d) > 320 \<or> contains (ad_ID d) ''/''))
     (\<lambda>_. andThen (guard ''agent action label is invalid''
       (trim_space (ad_TargetLabel d) = [] \<or> rune_count (ad_TargetLabel d) > 80
        \<or> actionTextHasControl (ad_TargetLabel d)))
     (\<lambda>_. andThen (guard ''agent action description is invalid''
       (trim_space (ad_Description d) = [] \<or> rune_count (ad_Description d) > 240
        \<or> actionTextHasControl (ad_Description d)))
     (\<lambda>_. andThen (guard ''agent action confirmation is invalid''
       (trim_space (ad_Confirmation d) = [] \<or> rune_count (ad_Confirmation d) > 160
        \<or> actionTextHasControl (ad_Confirmation d)))
     (\<lambda>_. andThen (guard ''agent action target is invalid''
       (\<not> (if ad_TargetKind d = ActionTargetSystemd then
              (let resource = trim_prefix (ad_TargetKey d) ''systemd:''
               in resource \<noteq> ad_TargetKey d \<and> hubSystemdActionResource resource)
            else if ad_TargetKind d = ActionTargetDocker then
              (let resource = trim_prefix (ad_TargetKey d) ''docker:''
               in resource \<noteq> ad_TargetKey d \<and> hubDockerActionResource resource)
            else False)))
     (\<lambda>_. guard ''agent action kind or risk is invalid'' (actionRisk (ad_Kind d) \<noteq> Some (ad_Risk d)))))))"

definition validateAgentActions :: "actions_response \<Rightarrow> go_error + unit" where
  "validateAgentActions r = (case as_Actions r of
       None \<Rightarrow> Inl ''agent action count is invalid''
     | Some ds \<Rightarrow>
         andThen (guard ''agent action count is invalid'' (length ds > maximumAgentActions))
         (\<lambda>_. check_distinct ''agent action IDs are duplicated'' ad_ID validateAgentActionDefinition
                (\<lambda>_. Inr ()) [] ds))"

definition validAgentActionErrorKind :: "string \<Rightarrow> bool \<Rightarrow> bool" where
  "validAgentActionErrorKind value ok =
     (if ok then value = []
      else value \<in> {''log_read_failed'', ''state_read_failed'', ''command_failed'', ''health_verification_failed''})"

definition validateAgentActionResult :: "action_result \<Rightarrow> action_definition \<Rightarrow> go_error + unit" where
  "validateAgentActionResult r expected =
     andThen (guard ''agent action result identity is invalid''
       (ar_ActionID r \<noteq> ad_ID expected \<or> ar_TargetKey r \<noteq> ad_TargetKey expected \<or> ar_Kind r \<noteq> ad_Kind expected))
     (\<lambda>_. andThen (guard ''agent action result state is invalid''
       (ar_OK r = (ar_ErrorKind r \<noteq> []) \<or> \<not> validAgentActionErrorKind (ar_ErrorKind r) (ar_OK r)))
     (\<lambda>_. andThen (guard ''agent action result summary is invalid''
       ((trim_space (ar_Summary r) = [] \<and> ar_OK r) \<or> rune_count (ar_Summary r) > 240
        \<or> actionTextHasControl (ar_Summary r)))
     (\<lambda>_. andThen (guard ''agent action target state is invalid''
       (\<exists>st \<in> set [ar_StateBefore r, ar_StateAfter r]. st \<noteq> [] \<and> st \<noteq> ''running'' \<and> st \<noteq> ''stopped''))
     (\<lambda>_. andThen
       (if ad_Kind expected = ActionLogs then
          guard ''log action returned state mutation fields'' (ar_StateBefore r \<noteq> [] \<or> ar_StateAfter r \<noteq> [])
        else
          andThen (guard ''state action result is incomplete''
            (length (ar_Logs r) \<noteq> 0 \<or> ar_OK r \<and> (ar_StateBefore r = [] \<or> ar_StateAfter r = [])))
          (\<lambda>_. guard ''state action health result is inconsistent''
            ((ar_OK r \<and> ad_Kind expected = ActionStop \<and> ar_StateAfter r \<noteq> ''stopped'') \<or>
             (ar_OK r \<and> ad_Kind expected \<noteq> ActionStop \<and> ar_StateAfter r \<noteq> ''running''))))
     (\<lambda>_. andThen (guard ''agent action logs are invalid''
       (length (ar_Logs r) > 200 \<or> \<not> ar_OK r \<and> length (ar_Logs r) \<noteq> 0))
     (\<lambda>_. andThen (check_all (\<lambda>l. guard ''agent action log line is invalid''
         (length l > 512 \<or> actionLogHasControl l)) (ar_Logs r))
     (\<lambda>_. guard ''agent action logs exceed limit'' (sum_list (map length (ar_Logs r)) > 65536))))))))"

section \<open>The HTTP client\<close>

datatype 'a agent_answer = RequestInvalid | NetworkError bool | Answer nat "'a option"

definition classifyAgentActionNetworkError :: "bool \<Rightarrow> go_error" where
  "classifyAgentActionNetworkError deadline = (if deadline then ''agent_timeout'' else ''agent_unavailable'')"

definition classifyAgentActionStatus :: "nat \<Rightarrow> go_error" where
  "classifyAgentActionStatus status =
     (if status = 401 \<or> status = 403 then ''agent_auth_failed''
      else if status = 404 \<or> status = 405 then ''agent_incompatible''
      else ''agent_http_error'')"

definition action_List :: "actions_response agent_answer \<Rightarrow> go_error + actions_response" where
  "action_List answer = (case answer of
       RequestInvalid \<Rightarrow> Inl ''agent_invalid_config''
     | NetworkError deadline \<Rightarrow> Inl (classifyAgentActionNetworkError deadline)
     | Answer status body \<Rightarrow>
         if status \<noteq> 200 then Inl (classifyAgentActionStatus status)
         else (case body of
             None \<Rightarrow> Inl ''agent_invalid_response''
           | Some r \<Rightarrow> (case validateAgentActions r of
               Inl _ \<Rightarrow> Inl ''agent_invalid_response'' | Inr _ \<Rightarrow> Inr r)))"

definition action_Execute ::
  "(action_definition \<Rightarrow> action_result agent_answer) \<Rightarrow> action_definition \<Rightarrow> go_error + action_result" where
  "action_Execute post d = (case validateAgentActionDefinition d of
       Inl _ \<Rightarrow> Inl ''agent_invalid_action''
     | Inr _ \<Rightarrow> (case post d of
         RequestInvalid \<Rightarrow> Inl ''agent_invalid_config''
       | NetworkError deadline \<Rightarrow> Inl (classifyAgentActionNetworkError deadline)
       | Answer status body \<Rightarrow>
           if status \<noteq> 200 \<and> status \<noteq> 502 then Inl (classifyAgentActionStatus status)
           else (case body of
               None \<Rightarrow> Inl ''agent_invalid_response''
             | Some r \<Rightarrow>
                 if validateAgentActionResult r d \<noteq> Inr () then Inl ''agent_invalid_response''
                 else if (status = 200 \<and> \<not> ar_OK r) \<or> (status = 502 \<and> ar_OK r)
                 then Inl ''agent_invalid_response'' else Inr r)))"

definition client_categories :: "string list" where
  "client_categories = [''agent_invalid_config'', ''agent_timeout'', ''agent_unavailable'', ''agent_auth_failed'',
     ''agent_incompatible'', ''agent_http_error'', ''agent_invalid_response'', ''agent_invalid_action'']"

lemma client_category_valid: "e \<in> set client_categories \<Longrightarrow> validOperationErrorCategory e"
  by (auto simp: client_categories_def validOperationErrorCategory_def ascii_eval)

lemma action_error_valid: "validAgentActionErrorKind e False \<Longrightarrow> validOperationErrorCategory e \<and> e \<noteq> []"
  by (auto simp: validAgentActionErrorKind_def validOperationErrorCategory_def ascii_eval)

lemma classify_categories [simp]:
  "classifyAgentActionNetworkError b \<in> set client_categories" "classifyAgentActionStatus n \<in> set client_categories"
  by (simp_all add: classifyAgentActionNetworkError_def classifyAgentActionStatus_def client_categories_def)

lemma action_List_cases:
  "case action_List answer of Inl e \<Rightarrow> e \<in> set client_categories | Inr r \<Rightarrow> validateAgentActions r = Inr ()"
proof -
  have c: "''agent_invalid_config'' \<in> set client_categories" "''agent_invalid_response'' \<in> set client_categories"
    by (simp_all add: client_categories_def)
  then show ?thesis
    unfolding action_List_def by (auto split: agent_answer.split option.split sum.split)
qed

lemma action_Execute_cases:
  "case action_Execute post d of Inl e \<Rightarrow> e \<in> set client_categories
   | Inr r \<Rightarrow> validateAgentActionDefinition d = Inr () \<and> validateAgentActionResult r d = Inr () \<and>
       (\<exists>status. post d = Answer status (Some r))"
proof -
  have c: "''agent_invalid_config'' \<in> set client_categories" "''agent_invalid_response'' \<in> set client_categories"
    "''agent_invalid_action'' \<in> set client_categories" by (simp_all add: client_categories_def)
  then show ?thesis
    unfolding action_Execute_def
    by (cases "validateAgentActionDefinition d"; cases "post d") (auto split: option.split)
qed

section \<open>The Agent's policy meets the Hub's checks\<close>

lemma control_same: "actionTextHasControl s = containsControl s" "hasActionControl s = containsControl s"
  by (simp_all add: actionTextHasControl_def hasActionControl_def containsControl_def)

lemma validateActionTarget_ok:
  "validateActionTarget t = Inr u \<longleftrightarrow>
    pt_Key t \<noteq> [] \<and> length (pt_Key t) \<le> 256 \<and> valid_utf8 (pt_Key t) \<and>
    trim_space (pt_Label t) \<noteq> [] \<and> rune_count (pt_Label t) \<le> 80 \<and> \<not> containsControl (pt_Label t) \<and>
    1 \<le> length (pt_Actions t) \<and> length (pt_Actions t) \<le> 4 \<and>
    (pt_Kind t = ActionTargetSystemd \<and> systemd_resource (pt_Resource t) \<and> pt_Key t = ''systemd:'' @ pt_Resource t \<or>
     pt_Kind t = ActionTargetDocker \<and> docker_resource (pt_Resource t) \<and> pt_Key t = ''docker:'' @ pt_Resource t) \<and>
    (\<forall>a \<in> set (pt_Actions t). known_action a) \<and> distinct (pt_Actions t)"
proof -
  have l: "length xs < Suc 0 \<longleftrightarrow> xs = []" "length xs \<noteq> 0 \<longleftrightarrow> xs \<noteq> []" "Suc 0 \<le> length xs \<longleftrightarrow> xs \<noteq> []" for xs :: "string list"
    by (cases xs; simp)+
  show ?thesis
    by (auto simp: validateActionTarget_def andThen_ok check_distinct_ok control_same not_less l split: if_splits)
qed

text \<open>The presentation texts are valid UTF-8 of a few runes, without control characters.\<close>

definition short_text :: "nat \<Rightarrow> string \<Rightarrow> bool" where
  "short_text n s = (valid_utf8 s \<and> rune_count s \<le> n \<and> \<not> containsControl s)"

lemma short_append: "short_text m s \<Longrightarrow> short_text n t \<Longrightarrow> short_text (m + n) (s @ t)"
  by (simp add: short_text_def valid_utf8_append rune_count_append containsControl_append)

lemma short_label:
  assumes "short_text m s" "s \<noteq> []" "\<exists>r \<in> set (runes s). \<not> is_space r" "rune_count t \<le> n" "\<not> containsControl t"
  shows "trim_space (s @ t) \<noteq> []" "rune_count (s @ t) \<le> m + n" "\<not> containsControl (s @ t)"
  using assms by (auto simp: short_text_def rune_count_append containsControl_append trim_space_empty
      runes_append list_all_iff)

lemma action_texts:
  assumes "known_action a" "actionPresentation a = (verb, description, risk)"
  shows "short_text 4 verb" "short_text 20 description" "\<exists>r \<in> set (runes description). \<not> is_space r"
    "actionRisk a = Some risk"
proof -
  have "a = ActionStart \<or> a = ActionStop \<or> a = ActionRestart \<or> a = ActionLogs"
    using assms(1) by (auto simp: known_action_def)
  then have "short_text 4 verb \<and> short_text 20 description \<and> (\<exists>r \<in> set (runes description). \<not> is_space r) \<and>
    actionRisk a = Some risk"
    using assms(2)
    by (elim disjE) (auto simp: actionPresentation_def actionRisk_def short_text_def utf8_eval)
  then show "short_text 4 verb" "short_text 20 description" "\<exists>r \<in> set (runes description). \<not> is_space r"
    "actionRisk a = Some risk" by auto
qed

lemma contains_char: "contains s [c] \<longleftrightarrow> c \<in> set s"
  by (auto simp: contains_iff dest: split_list)

lemma confirm_prefix: "short_text 2 [CHR 0xE7, CHR 0xA1, CHR 0xAE, CHR 0xE8, CHR 0xAE, CHR 0xA4]" "\<exists>r \<in> set (runes [CHR 0xE7, CHR 0xA1, CHR 0xAE, CHR 0xE8, CHR 0xAE, CHR 0xA4]). \<not> is_space r"
  by (auto simp: short_text_def utf8_eval)

lemma space_text: "short_text 1 '' ''"
  by (simp add: short_text_def utf8_eval)

lemma target_key_plain:
  assumes "validateActionTarget t = Inr u"
  shows "plain (pt_Key t)" and "pt_Key t \<noteq> []" and "length (pt_Key t) \<le> 256"
proof -
  have "plain ''systemd:''" "plain ''docker:''" by (simp_all add: plain_char_def byte_def)
  moreover have "pt_Key t = ''systemd:'' @ pt_Resource t \<and> plain (pt_Resource t) \<or>
      pt_Key t = ''docker:'' @ pt_Resource t \<and> plain (pt_Resource t)"
    using assms systemd_resource_plain docker_resource_plain unfolding validateActionTarget_ok by blast
  ultimately show "plain (pt_Key t)" by (metis plain_simps(3))
  show "pt_Key t \<noteq> []" "length (pt_Key t) \<le> 256" using assms by (auto simp: validateActionTarget_ok)
qed

lemma published_valid:
  assumes t: "validateActionTarget t = Inr u" and a: "a \<in> set (pt_Actions t)"
  shows "validateAgentActionDefinition (published t a) = Inr ()"
proof -
  note T = t[unfolded validateActionTarget_ok]
  have k: "known_action a" using T a by blast
  obtain verb description risk where p: "actionPresentation a = (verb, description, risk)" by (metis prod_cases3)
  note A = action_texts[OF k p]
  have lab: "rune_count (pt_Label t) \<le> 80" "\<not> containsControl (pt_Label t)" "trim_space (pt_Label t) \<noteq> []"
    using T by blast+
  have d: "description \<noteq> []" using A(3) by auto
  note D = short_label[OF A(2) d A(3) lab(1,2)]
  have c: "short_text 7 ([CHR 0xE7, CHR 0xA1, CHR 0xAE, CHR 0xE8, CHR 0xAE, CHR 0xA4] @ verb @ '' '')"
    using short_append[OF confirm_prefix(1) short_append[OF A(1) space_text]] by simp
  have cs: "\<exists>r \<in> set (runes ([CHR 0xE7, CHR 0xA1, CHR 0xAE, CHR 0xE8, CHR 0xAE, CHR 0xA4] @ verb @ '' '')). \<not> is_space r"
    using confirm_prefix by (subst runes_append) (auto simp: short_text_def simp del: append.simps)
  note C = short_label[OF c _ cs lab(1,2)]
  have ka: "plain a" "length a \<le> 7"
    using k by (auto simp: known_action_def plain_char_def byte_def)
  have i: "plain (actionID (pt_Key t) a)" "length (actionID (pt_Key t) a) \<le> 264"
    using target_key_plain[OF t] ka by (simp_all add: actionID_def plain_char_def byte_def)
  have slash: "\<not> contains (actionID (pt_Key t) a) ''/''"
    unfolding contains_char using plain_no_slash[OF i(1)] .
  have tgt: "pt_Kind t = ActionTargetSystemd \<and> trim_prefix (pt_Key t) ''systemd:'' \<noteq> pt_Key t \<and>
        hubSystemdActionResource (trim_prefix (pt_Key t) ''systemd:'') \<or>
      pt_Kind t = ActionTargetDocker \<and> trim_prefix (pt_Key t) ''docker:'' \<noteq> pt_Key t \<and>
        hubDockerActionResource (trim_prefix (pt_Key t) ''docker:'')"
    using T by (auto simp: trim_prefix_def has_prefix_def hubSystemdActionResource_def hubDockerActionResource_def)
  show ?thesis
    using i slash lab D C A(4) tgt
    by (auto simp: validateAgentActionDefinition_def published_def p actionID_def andThen_ok control_same Let_def)
qed

lemma published_id [simp]: "ad_ID (published t a) = actionID (pt_Key t) a" "ad_Kind (published t a) = a"
  "ad_TargetKey (published t a) = pt_Key t"
  by (simp_all add: published_def Let_def split: prod.split)

lemma set_actionDefinitions: "set (actionDefinitions ts) = {published t a | t a. t \<in> set ts \<and> a \<in> set (pt_Actions t)}"
  by (auto simp: actionDefinitions_def)

lemma check_targets_ok:
  "check_targets keys ids ts = Inr () \<Longrightarrow>
    (\<forall>t \<in> set ts. validateActionTarget t = Inr () \<and> pt_Key t \<notin> set keys) \<and> distinct (map pt_Key ts) \<and>
    distinct (concat (map (\<lambda>t. map (actionID (pt_Key t)) (pt_Actions t)) ts)) \<and>
    set (concat (map (\<lambda>t. map (actionID (pt_Key t)) (pt_Actions t)) ts)) \<inter> set ids = {}"
proof (induction ts arbitrary: keys ids)
  case (Cons t ts)
  let ?new = "map (actionID (pt_Key t)) (pt_Actions t)"
  have c: "validateActionTarget t = Inr ()" "pt_Key t \<notin> set keys" "first_dup ids ?new = None"
    "check_targets (pt_Key t # keys) (rev ?new @ ids) ts = Inr ()"
    using Cons.prems by (auto simp: andThen_ok Let_def)
  have n: "distinct ?new" "set ?new \<inter> set ids = {}" using c(3) by (simp_all add: first_dup_None)
  have r: "set (rev ?new @ ids) = set ?new \<union> set ids" by simp
  have "set (concat (map (\<lambda>t. map (actionID (pt_Key t)) (pt_Actions t)) ts)) \<inter> (set ?new \<union> set ids) = {}"
    using Cons.IH[OF c(4)] unfolding r by blast
  then have dj: "set ?new \<inter> set (concat (map (\<lambda>t. map (actionID (pt_Key t)) (pt_Actions t)) ts)) = {}"
    "set (concat (map (\<lambda>t. map (actionID (pt_Key t)) (pt_Actions t)) ts)) \<inter> set ids = {}" by blast+
  have "distinct (?new @ concat (map (\<lambda>t. map (actionID (pt_Key t)) (pt_Actions t)) ts))"
    unfolding distinct_append using n(1) dj(1) Cons.IH[OF c(4)] by blast
  moreover have "set (?new @ concat (map (\<lambda>t. map (actionID (pt_Key t)) (pt_Actions t)) ts)) \<inter> set ids = {}"
    unfolding set_append using n(2) dj(2) by blast
  ultimately show ?case using Cons.IH[OF c(4)] c(1,2) by auto
qed simp

lemma policy_targets:
  assumes "validateActionPolicy p = Inr u" "ap_Targets p = Some ts"
  shows "\<forall>t \<in> set ts. validateActionTarget t = Inr ()" and "length ts \<le> 64" and "distinct (map pt_Key ts)"
    and "distinct (concat (map (\<lambda>t. map (actionID (pt_Key t)) (pt_Actions t)) ts))"
  using assms check_targets_ok[of "[]" "[]" ts]
  by (auto simp: validateActionPolicy_def andThen_ok maximumActionTargets_def)

lemma length_published:
  assumes "\<forall>t \<in> set ts. length (pt_Actions t) \<le> 4"
  shows "length (actionDefinitions ts) \<le> 4 * length ts"
proof -
  have "length (concat (map (\<lambda>t. map (published t) (pt_Actions t)) ts)) \<le> 4 * length ts"
    using assms by (induction ts) auto
  then show ?thesis by (simp add: actionDefinitions_def)
qed

lemma distinct_published:
  assumes "distinct (concat (map (\<lambda>t. map (actionID (pt_Key t)) (pt_Actions t)) ts))"
  shows "distinct (map ad_ID (actionDefinitions ts))"
proof -
  let ?ds = "concat (map (\<lambda>t. map (published t) (pt_Actions t)) ts)"
  have "map ad_ID ?ds = concat (map (\<lambda>t. map (actionID (pt_Key t)) (pt_Actions t)) ts)"
    by (simp add: map_concat comp_def)
  then have "distinct (map ad_ID ?ds)" using assms by simp
  then show ?thesis by (simp add: actionDefinitions_def distinct_map)
qed


section \<open>The executor's answers meet the Hub's checks\<close>

lemma approvedAction_Some:
  "approvedAction ts k = Some (t, d) \<Longrightarrow> t \<in> set ts \<and> d \<in> set (actionDefinitions [t]) \<and> ad_ID d = k"
  by (induction ts) (auto split: option.splits dest: find_SomeD)

lemma approvedAction_None:
  "approvedAction ts k = None \<Longrightarrow> t \<in> set ts \<Longrightarrow> a \<in> set (pt_Actions t) \<Longrightarrow> actionID (pt_Key t) a \<noteq> k"
proof (induction ts)
  case (Cons u ts)
  have "find (\<lambda>d. ad_ID d = k) (actionDefinitions [u]) = None" "approvedAction ts k = None"
    using Cons.prems(1) by (auto split: option.splits)
  note none = this
  show ?case
  proof (cases "t = u")
    case True
    then have "published t a \<in> set (actionDefinitions [u])" using Cons.prems(3) by (auto simp: set_actionDefinitions)
    from find_NoneD[OF none(1) this] show ?thesis by simp
  next
    case False
    then show ?thesis using Cons.IH[OF none(2)] Cons.prems(2,3) by simp
  qed
qed simp

text \<open>The root helper executes exactly what the policy publishes: an id is approved when it
  is the id of a published definition and only then, and it then names that definition and the
  target that approves it.\<close>

theorem approved_iff_published:
  assumes "validateActionPolicy p = Inr ()" and "ap_Targets p = Some ts"
  shows "(approvedAction ts k = None \<longleftrightarrow> k \<notin> ad_ID ` set (actionDefinitions ts)) \<and>
    (\<forall>t d. approvedAction ts k = Some (t, d) \<longrightarrow>
       t \<in> set ts \<and> ad_Kind d \<in> set (pt_Actions t) \<and> d = published t (ad_Kind d) \<and>
       find (\<lambda>e. ad_ID e = k) (actionDefinitions ts) = Some d)"
proof -
  have some: "t \<in> set ts \<and> ad_Kind d \<in> set (pt_Actions t) \<and> d = published t (ad_Kind d) \<and>
      d \<in> set (actionDefinitions ts) \<and> ad_ID d = k" if a: "approvedAction ts k = Some (t, d)" for t d
  proof -
    note s = approvedAction_Some[OF a]
    then obtain a where "a \<in> set (pt_Actions t)" "d = published t a" by (auto simp: set_actionDefinitions)
    then show ?thesis using s by (auto simp: set_actionDefinitions)
  qed
  have "find (\<lambda>e. ad_ID e = k) (actionDefinitions ts) = Some d" if "approvedAction ts k = Some (t, d)" for t d
    using find_distinct_key[OF distinct_published[OF policy_targets(4)[OF assms]]] some[OF that] by blast
  moreover have "approvedAction ts k = None \<longleftrightarrow> k \<notin> ad_ID ` set (actionDefinitions ts)"
  proof
    assume "approvedAction ts k = None"
    note none = approvedAction_None[OF this]
    show "k \<notin> ad_ID ` set (actionDefinitions ts)"
    proof
      assume "k \<in> ad_ID ` set (actionDefinitions ts)"
      then obtain t a where "t \<in> set ts" "a \<in> set (pt_Actions t)" "k = ad_ID (published t a)"
        by (auto simp: set_actionDefinitions)
      then show False using none[of t a] by simp
    qed
  next
    assume "k \<notin> ad_ID ` set (actionDefinitions ts)"
    then show "approvedAction ts k = None" using some by (cases "approvedAction ts k") (auto simp: image_iff)
  qed
  ultimately show ?thesis using some by blast
qed

definition target_state :: "string \<Rightarrow> bool" where
  "target_state st = (st = ''running'' \<or> st = ''stopped'')"

lemma state_values: "approvedTargetState t runner w = (Inr st, w') \<Longrightarrow> target_state st"
  by (auto simp: approvedTargetState_def target_state_def Let_def split: prod.splits if_splits)

lemma await_values:
  "await_state t runner expected give_up n fuel seen w = Some (after, ok, w') \<Longrightarrow>
    (seen = [] \<or> target_state seen) \<Longrightarrow> (after = [] \<or> target_state after) \<and> (ok \<longrightarrow> after = expected)"
proof (induction t runner expected give_up n fuel seen w rule: await_state.induct)
  case (2 t runner expected give_up n fuel seen w)
  obtain r w1 where r: "approvedTargetState t runner w = (r, w1)" by (metis surj_pair)
  define seen' where "seen' = (case r of Inl _ \<Rightarrow> seen | Inr after \<Rightarrow> after)"
  have s: "seen' = [] \<or> target_state seen'"
    using 2(3) state_values[of t runner w _ w1] r by (auto simp: seen'_def split: sum.split)
  show ?case
  proof (cases "r = Inr expected \<or> give_up n")
    case True
    then have "await_state t runner expected give_up n (Suc fuel) seen w = Some (seen', r = Inr expected, w1)"
      using r by (auto simp: Let_def seen'_def)
    then have "after = seen'" "ok \<longleftrightarrow> r = Inr expected" using 2(2) by simp_all
    then show ?thesis using s by (auto simp: seen'_def)
  next
    case False
    then have "await_state t runner expected give_up (Suc n) fuel seen' w1 = Some (after, ok, w')"
      using 2(2) r by (simp add: Let_def seen'_def)
    then show ?thesis using 2(1)[OF r[symmetric] refl] False s by (simp add: seen'_def)
  qed
qed simp

lemma await_terminates:
  "give_up (n + k) \<Longrightarrow> k < fuel \<Longrightarrow> await_state t runner expected give_up n fuel seen w \<noteq> None"
proof (induction k arbitrary: n fuel seen w)
  case 0
  then show ?case by (cases fuel) (auto simp: Let_def split: prod.split)
next
  case (Suc k)
  then obtain f where f: "fuel = Suc f" "k < f" by (cases fuel) auto
  have "give_up (Suc n + k)" using Suc.prems(1) by simp
  from Suc.IH[OF this f(2)] show ?case by (auto simp: f(1) Let_def split: prod.split)
qed

text \<open>The shape of every result.\<close>

definition result_ok :: "action_definition \<Rightarrow> action_result \<Rightarrow> bool" where
  "result_ok d r = (ar_ActionID r = ad_ID d \<and> ar_TargetKey r = ad_TargetKey d \<and> ar_Kind r = ad_Kind d \<and>
     (ar_StateBefore r = [] \<or> target_state (ar_StateBefore r)) \<and>
     (ar_StateAfter r = [] \<or> target_state (ar_StateAfter r)) \<and>
     (if ar_OK r then ar_ErrorKind r = [] else validActionErrorKind (ar_ErrorKind r) \<and> ar_Summary r = [] \<and> ar_Logs r = []) \<and>
     (if ad_Kind d = ActionLogs then ar_StateBefore r = [] \<and> ar_StateAfter r = []
      else ar_Logs r = [] \<and> (ar_OK r \<longrightarrow> ar_StateBefore r \<noteq> [] \<and>
        ar_StateAfter r = (if ad_Kind d = ActionStop then ''stopped'' else ''running''))))"

lemma executed_shape:
  assumes e: "executeApprovedAction sanitize give_up fuel t d runner w = Some (r, w')"
    and t: "ad_TargetKey d = pt_Key t"
  shows "result_ok d r"
    and "ar_OK r \<Longrightarrow> ad_Kind d \<noteq> ActionLogs \<Longrightarrow>
      ar_Summary r = pt_Label t @ [CHR 0xEF, CHR 0xBC, CHR 0x9A] @ ar_StateBefore r @ ('' '' @ [CHR 0xE2, CHR 0x86, CHR 0x92] @ '' '') @ ar_StateAfter r \<and> target_state (ar_StateBefore r)"
    and "ar_OK r \<Longrightarrow> ad_Kind d = ActionLogs \<Longrightarrow>
      (\<exists>out. ar_Logs r = sanitize out) \<and> ar_Summary r = ([CHR 0xE8, CHR 0xBF, CHR 0x94, CHR 0xE5, CHR 0x9B, CHR 0x9E] @ '' '') @ itoa_nat (length (ar_Logs r)) @ ('' '' @ [CHR 0xE8, CHR 0xA1, CHR 0x8C, CHR 0xE6, CHR 0x9C, CHR 0x89, CHR 0xE7, CHR 0x95, CHR 0x8C, CHR 0xE8, CHR 0x84, CHR 0xB1, CHR 0xE6, CHR 0x95, CHR 0x8F, CHR 0xE6, CHR 0x97, CHR 0xA5, CHR 0xE5, CHR 0xBF, CHR 0x97])"
proof -
  have "result_ok d r \<and> (ar_OK r \<longrightarrow> ad_Kind d \<noteq> ActionLogs \<longrightarrow>
      ar_Summary r = pt_Label t @ [CHR 0xEF, CHR 0xBC, CHR 0x9A] @ ar_StateBefore r @ ('' '' @ [CHR 0xE2, CHR 0x86, CHR 0x92] @ '' '') @ ar_StateAfter r \<and> target_state (ar_StateBefore r)) \<and>
    (ar_OK r \<longrightarrow> ad_Kind d = ActionLogs \<longrightarrow>
      (\<exists>out. ar_Logs r = sanitize out) \<and> ar_Summary r = ([CHR 0xE8, CHR 0xBF, CHR 0x94, CHR 0xE5, CHR 0x9B, CHR 0x9E] @ '' '') @ itoa_nat (length (ar_Logs r)) @ ('' '' @ [CHR 0xE8, CHR 0xA1, CHR 0x8C, CHR 0xE6, CHR 0x9C, CHR 0x89, CHR 0xE7, CHR 0x95, CHR 0x8C, CHR 0xE8, CHR 0x84, CHR 0xB1, CHR 0xE6, CHR 0x95, CHR 0x8F, CHR 0xE6, CHR 0x97, CHR 0xA5, CHR 0xE5, CHR 0xBF, CHR 0x97]))"
  proof (cases "ad_Kind d = ActionLogs")
    case True
    obtain x w1 where l: "readApprovedLogs sanitize t runner w = (x, w1)" by (metis surj_pair)
    have "\<exists>out. x = Inr (sanitize out)" if "x = Inr ls" for ls
      using l that by (auto simp: readApprovedLogs_def Let_def split: prod.splits if_splits)
    then show ?thesis
      using e t True l by (cases x) (auto simp: executeApprovedAction_def result_ok_def empty_result_def
          validActionErrorKind_def)
  next
    case False
    obtain x w1 where x: "approvedTargetState t runner w = (x, w1)" by (metis surj_pair)
    show ?thesis
    proof (cases x)
      case (Inl err)
      then show ?thesis using e t False x
        by (auto simp: executeApprovedAction_def result_ok_def empty_result_def validActionErrorKind_def)
    next
      case (Inr before)
      then have b: "target_state before" using state_values x by simp
      obtain y w2 where y: "changeApprovedTarget t (ad_Kind d) runner w1 = (y, w2)" by (metis surj_pair)
      let ?exp = "if ad_Kind d = ActionStop then ''stopped'' else ''running''"
      show ?thesis
      proof (cases y)
        case (Inl err)
        then show ?thesis using e t False x y Inr b
          by (auto simp: executeApprovedAction_def result_ok_def empty_result_def validActionErrorKind_def Let_def)
      next
        case (Inr u)
        obtain after ok w3 where a: "await_state t runner ?exp give_up 0 fuel [] w2 = Some (after, ok, w3)"
          using e False x y Inr \<open>x = Inr before\<close>
          by (cases "await_state t runner ?exp give_up 0 fuel [] w2") (auto simp: executeApprovedAction_def Let_def)
        note v = await_values[OF a]
        define r0 where "r0 = (empty_result t d)\<lparr>ar_StateBefore := before\<rparr>"
        have r: "r = (if ok then r0\<lparr>ar_OK := True, ar_StateAfter := after,
              ar_Summary := pt_Label t @ [CHR 0xEF, CHR 0xBC, CHR 0x9A] @ before @ ('' '' @ [CHR 0xE2, CHR 0x86, CHR 0x92] @ '' '') @ after\<rparr>
            else r0\<lparr>ar_StateAfter := after, ar_ErrorKind := ''health_verification_failed''\<rparr>)"
          using e False x y Inr \<open>x = Inr before\<close> a
          by (cases ok) (simp_all add: executeApprovedAction_def Let_def r0_def)
        have i: "ar_ActionID r0 = ad_ID d" "ar_TargetKey r0 = ad_TargetKey d" "ar_Kind r0 = ad_Kind d"
          "ar_StateBefore r0 = before" "ar_OK r0 = False" "ar_Logs r0 = []" "ar_ErrorKind r0 = []"
          "ar_Summary r0 = []" using t by (simp_all add: r0_def empty_result_def)
        have "before \<noteq> []" using b by (auto simp: target_state_def)
        then show ?thesis
          using i False v b unfolding r result_ok_def
          by (cases ok) (simp_all add: validActionErrorKind_def target_state_def)
      qed
    qed
  qed
  then show "result_ok d r" "ar_OK r \<Longrightarrow> ad_Kind d \<noteq> ActionLogs \<Longrightarrow>
      ar_Summary r = pt_Label t @ [CHR 0xEF, CHR 0xBC, CHR 0x9A] @ ar_StateBefore r @ ('' '' @ [CHR 0xE2, CHR 0x86, CHR 0x92] @ '' '') @ ar_StateAfter r \<and> target_state (ar_StateBefore r)"
    "ar_OK r \<Longrightarrow> ad_Kind d = ActionLogs \<Longrightarrow>
      (\<exists>out. ar_Logs r = sanitize out) \<and> ar_Summary r = ([CHR 0xE8, CHR 0xBF, CHR 0x94, CHR 0xE5, CHR 0x9B, CHR 0x9E] @ '' '') @ itoa_nat (length (ar_Logs r)) @ ('' '' @ [CHR 0xE8, CHR 0xA1, CHR 0x8C, CHR 0xE6, CHR 0x9C, CHR 0x89, CHR 0xE7, CHR 0x95, CHR 0x8C, CHR 0xE8, CHR 0x84, CHR 0xB1, CHR 0xE6, CHR 0x95, CHR 0x8F, CHR 0xE6, CHR 0x97, CHR 0xA5, CHR 0xE5, CHR 0xBF, CHR 0x97])"
    by blast+
qed

lemma result_texts:
  "short_text 1 [CHR 0xEF, CHR 0xBC, CHR 0x9A]" "short_text 3 ('' '' @ [CHR 0xE2, CHR 0x86, CHR 0x92] @ '' '')" "short_text 3 ([CHR 0xE8, CHR 0xBF, CHR 0x94, CHR 0xE5, CHR 0x9B, CHR 0x9E] @ '' '')" "short_text 9 ('' '' @ [CHR 0xE8, CHR 0xA1, CHR 0x8C, CHR 0xE6, CHR 0x9C, CHR 0x89, CHR 0xE7, CHR 0x95, CHR 0x8C, CHR 0xE8, CHR 0x84, CHR 0xB1, CHR 0xE6, CHR 0x95, CHR 0x8F, CHR 0xE6, CHR 0x97, CHR 0xA5, CHR 0xE5, CHR 0xBF, CHR 0x97])"
  "\<exists>r \<in> set (runes ([CHR 0xE8, CHR 0xBF, CHR 0x94, CHR 0xE5, CHR 0x9B, CHR 0x9E] @ '' '')). \<not> is_space r"
  by (auto simp: short_text_def utf8_eval)

lemma state_text: "target_state st \<Longrightarrow> short_text 7 st"
  by (auto simp: target_state_def short_text_def ascii_eval containsControl_def)

lemma count_text: "short_text (length (itoa_nat n)) (itoa_nat n)"
proof -
  have "\<not> containsControl (itoa_nat n)"
    using itoa_nat_digits[of n] ascii_itoa_nat[of n]
    by (auto simp: containsControl_def runes_ascii list_ex_iff list_all_iff is_digit_def is_control_def)
  then show ?thesis by (simp add: short_text_def ascii_itoa_nat valid_utf8_ascii rune_count_ascii)
qed

lemma state_summary:
  assumes "valid_utf8 (pt_Label t)" "rune_count (pt_Label t) \<le> 80" "\<not> containsControl (pt_Label t)"
    "trim_space (pt_Label t) \<noteq> []" "target_state a" "target_state b"
  defines "m \<equiv> pt_Label t @ [CHR 0xEF, CHR 0xBC, CHR 0x9A] @ a @ ('' '' @ [CHR 0xE2, CHR 0x86, CHR 0x92] @ '' '') @ b"
  shows "short_text 200 m" "trim_space m \<noteq> []"
proof -
  have "short_text (80 + (1 + (7 + (3 + 7)))) m"
    unfolding m_def using assms state_text
    by (intro short_append result_texts) (auto simp: short_text_def)
  then show "short_text 200 m" by (simp add: short_text_def)
  show "trim_space m \<noteq> []" using assms(1,4) unfolding m_def trim_space_empty by (simp add: runes_append)
qed

lemma log_summary:
  assumes "n \<le> 200"
  defines "m \<equiv> ([CHR 0xE8, CHR 0xBF, CHR 0x94, CHR 0xE5, CHR 0x9B, CHR 0x9E] @ '' '') @ itoa_nat n @ ('' '' @ [CHR 0xE8, CHR 0xA1, CHR 0x8C, CHR 0xE6, CHR 0x9C, CHR 0x89, CHR 0xE7, CHR 0x95, CHR 0x8C, CHR 0xE8, CHR 0x84, CHR 0xB1, CHR 0xE6, CHR 0x95, CHR 0x8F, CHR 0xE6, CHR 0x97, CHR 0xA5, CHR 0xE5, CHR 0xBF, CHR 0x97])"
  shows "short_text 200 m" "trim_space m \<noteq> []"
proof -
  have "length (itoa_nat n) \<le> 3" by (rule length_itoa_nat) (use assms in auto)
  moreover have "short_text (3 + (length (itoa_nat n) + 9)) m"
    unfolding m_def by (intro short_append result_texts count_text)
  ultimately show "short_text 200 m" by (simp add: short_text_def)
  show "trim_space m \<noteq> []"
    using result_texts(3,5) unfolding m_def trim_space_empty
    by (subst runes_append) (auto simp: short_text_def list_all_iff simp del: append.simps)
qed

definition no_c1 :: "string \<Rightarrow> bool" where
  "no_c1 l = (\<forall>c \<in> set (runes l). c < 128 \<or> 159 < c)"

lemma decode_ok:
  "decodeActionExecutionResult (Some r) d = Inr r \<longleftrightarrow>
    (ar_ActionID r = ad_ID d \<and> ar_TargetKey r = ad_TargetKey d \<and> ar_Kind r = ad_Kind d) \<and>
    (ar_ErrorKind r \<noteq> [] \<longrightarrow> validActionErrorKind (ar_ErrorKind r)) \<and>
    (ar_OK r = (ar_ErrorKind r = []) \<and> length (ar_Logs r) \<le> 200) \<and>
    (ar_StateBefore r = [] \<or> ar_StateBefore r = ''running'' \<or> ar_StateBefore r = ''stopped'') \<and>
    (ar_StateAfter r = [] \<or> ar_StateAfter r = ''running'' \<or> ar_StateAfter r = ''stopped'') \<and>
    (\<not> containsControl (ar_Summary r) \<and> rune_count (ar_Summary r) \<le> 200) \<and>
    (\<forall>l \<in> set (ar_Logs r). length l \<le> 512 \<and> \<not> hasActionControlExceptTab l) \<and>
    sum_list (map length (ar_Logs r)) \<le> 65536"
  unfolding decodeActionExecutionResult_def option.case andThen_ok guard_ok check_all_ok control_same
    maximumActionLogLines_def maximumActionLineBytes_def maximumActionLogBytes_def
  by (simp add: not_less) blast

lemma agent_result_ok:
  "validateAgentActionResult r d = Inr u \<longleftrightarrow>
    (ar_ActionID r = ad_ID d \<and> ar_TargetKey r = ad_TargetKey d \<and> ar_Kind r = ad_Kind d) \<and>
    (ar_OK r = (ar_ErrorKind r = []) \<and> validAgentActionErrorKind (ar_ErrorKind r) (ar_OK r)) \<and>
    ((ar_OK r \<longrightarrow> trim_space (ar_Summary r) \<noteq> []) \<and> rune_count (ar_Summary r) \<le> 240
      \<and> \<not> containsControl (ar_Summary r)) \<and>
    (ar_StateBefore r = [] \<or> ar_StateBefore r = ''running'' \<or> ar_StateBefore r = ''stopped'') \<and>
    (ar_StateAfter r = [] \<or> ar_StateAfter r = ''running'' \<or> ar_StateAfter r = ''stopped'') \<and>
    (if ad_Kind d = ActionLogs then ar_StateBefore r = [] \<and> ar_StateAfter r = []
     else ar_Logs r = [] \<and> (ar_OK r \<longrightarrow> ar_StateBefore r \<noteq> [] \<and> ar_StateAfter r \<noteq> [] \<and>
       ar_StateAfter r = (if ad_Kind d = ActionStop then ''stopped'' else ''running''))) \<and>
    (length (ar_Logs r) \<le> 200 \<and> (\<not> ar_OK r \<longrightarrow> ar_Logs r = [])) \<and>
    (\<forall>l \<in> set (ar_Logs r). length l \<le> 512 \<and> \<not> actionLogHasControl l) \<and>
    sum_list (map length (ar_Logs r)) \<le> 65536"
proof -
  have part: "(if k then guard a p else andThen (guard b q) (\<lambda>_. guard c w)) = Inr v \<longleftrightarrow>
      (if k then \<not> p else \<not> q \<and> \<not> w)" for k p q w :: bool and a b c :: go_error and v
    by (simp add: andThen_ok)
  have ex: "(\<exists>x :: unit. P \<and> Q) \<longleftrightarrow> P \<and> Q" for P Q by blast
  show ?thesis
    unfolding validateAgentActionResult_def andThen_ok guard_ok check_all_ok part control_same ex
    by (cases "ad_Kind d = ActionLogs"; cases "ar_OK r") (simp_all add: not_less conj_ac, auto)
qed

lemma result_accepted:
  assumes t: "validateActionTarget t = Inr u" and utf8: "valid_utf8 (pt_Label t)"
    and d: "ad_TargetKey d = pt_Key t"
    and e: "executeApprovedAction (sanitizeActionLogLines redact) give_up fuel t d runner w = Some (r, w')"
    and c1: "\<forall>l \<in> set (ar_Logs r). no_c1 l"
  shows "validateAgentActionResult r d = Inr ()" and "decodeActionExecutionResult (Some r) d = Inr r"
proof -
  note sh = executed_shape[OF e d]
  have lab: "rune_count (pt_Label t) \<le> 80" "\<not> containsControl (pt_Label t)" "trim_space (pt_Label t) \<noteq> []"
    using t unfolding validateActionTarget_ok by blast+
  have logs: "length (ar_Logs r) \<le> 200 \<and> sum_list (map length (ar_Logs r)) \<le> 65536 \<and>
      (\<forall>l \<in> set (ar_Logs r). length l \<le> 512 \<and> \<not> hasActionControlExceptTab l)"
  proof (cases "ar_OK r \<and> ad_Kind d = ActionLogs")
    case True
    then obtain content where "ar_Logs r = sanitizeActionLogLines redact content" using sh(3) by blast
    note l = sanitized_lines[OF this]
    have "\<not> hasActionControlExceptTab l" if "l \<in> set (ar_Logs r)" for l
    proof -
      have "log_rune c" "c < 128 \<or> 159 < c" if "c \<in> set (runes l)" for c
        using l(3)[OF \<open>l \<in> set (ar_Logs r)\<close>] c1 \<open>l \<in> set (ar_Logs r)\<close> that by (auto simp: no_c1_def)
      then show ?thesis
        by (fastforce simp: hasActionControlExceptTab_def list_ex_iff is_control_def log_rune_def)
    qed
    then show ?thesis using l by blast
  next
    case False
    then have "ar_Logs r = []" using sh(1) by (auto simp: result_ok_def split: if_splits)
    then show ?thesis by simp
  qed
  have summary: "short_text 200 (ar_Summary r) \<and> (ar_OK r \<longrightarrow> trim_space (ar_Summary r) \<noteq> [])"
  proof (cases "ar_OK r")
    case False
    then have "ar_Summary r = []" using sh(1) by (simp add: result_ok_def)
    then show ?thesis using False by (simp add: short_text_def containsControl_def)
  next
    case True
    show ?thesis
    proof (cases "ad_Kind d = ActionLogs")
      case logs_kind: True
      then show ?thesis using sh(3)[OF True] log_summary[of "length (ar_Logs r)"] logs by metis
    next
      case False
      have "target_state (ar_StateAfter r)" using sh(1) True False by (auto simp: result_ok_def target_state_def split: if_splits)
      then show ?thesis using sh(2)[OF True False] state_summary[OF utf8 lab] by metis
    qed
  qed
  have states: "ar_StateBefore r = [] \<or> target_state (ar_StateBefore r)" "ar_StateAfter r = [] \<or> target_state (ar_StateAfter r)"
    and ident: "ar_ActionID r = ad_ID d" "ar_TargetKey r = ad_TargetKey d" "ar_Kind r = ad_Kind d"
    using sh(1) by (simp_all add: result_ok_def)
  have err: "ar_OK r = (ar_ErrorKind r = [])" "ar_ErrorKind r \<noteq> [] \<longrightarrow> validActionErrorKind (ar_ErrorKind r)"
    "validAgentActionErrorKind (ar_ErrorKind r) (ar_OK r)" "\<not> ar_OK r \<longrightarrow> ar_Logs r = []"
    using sh(1) by (auto simp: result_ok_def validAgentActionErrorKind_def validActionErrorKind_def split: if_splits)
  have kind: "if ad_Kind d = ActionLogs then ar_StateBefore r = [] \<and> ar_StateAfter r = []
      else ar_Logs r = [] \<and> (ar_OK r \<longrightarrow> ar_StateBefore r \<noteq> [] \<and>
        ar_StateAfter r = (if ad_Kind d = ActionStop then ''stopped'' else ''running''))"
    using sh(1) by (simp add: result_ok_def)
  have lc: "hasActionControlExceptTab = actionLogHasControl"
    by (simp add: fun_eq_iff hasActionControlExceptTab_def actionLogHasControl_def)
  have sum240: "rune_count (ar_Summary r) \<le> 240" "rune_count (ar_Summary r) \<le> 200" "\<not> containsControl (ar_Summary r)"
    using summary by (simp_all add: short_text_def)
  show "decodeActionExecutionResult (Some r) d = Inr r"
    unfolding decode_ok using logs sum240 states ident err unfolding target_state_def by blast
  have k1: "ad_Kind d = ActionLogs \<Longrightarrow> ar_StateBefore r = [] \<and> ar_StateAfter r = []"
    "ad_Kind d \<noteq> ActionLogs \<Longrightarrow> ar_Logs r = [] \<and> (ar_OK r \<longrightarrow> ar_StateBefore r \<noteq> [] \<and>
        ar_StateAfter r = (if ad_Kind d = ActionStop then ''stopped'' else ''running''))"
    using kind by simp_all
  show "validateAgentActionResult r d = Inr ()"
    unfolding agent_result_ok using logs[unfolded lc] sum240 states ident err k1 summary
    unfolding target_state_def by (cases "ad_Kind d = ActionLogs"; cases "ad_Kind d = ActionStop") simp_all
qed


lemma executed_some:
  assumes aw: "\<And>e w2. await_state t runner e give_up 0 fuel [] w2 \<noteq> None"
  shows "executeApprovedAction sanitize give_up fuel t d runner w \<noteq> None"
proof (cases "ad_Kind d = ActionLogs")
  case True
  then show ?thesis by (auto simp: executeApprovedAction_def split: prod.split sum.split)
next
  case False
  obtain x w1 where x: "approvedTargetState t runner w = (x, w1)" by (metis surj_pair)
  obtain y w2 where y: "changeApprovedTarget t (ad_Kind d) runner w1 = (y, w2)" by (metis surj_pair)
  let ?e = "if ad_Kind d = ActionStop then ''stopped'' else ''running''"
  obtain after ok w3 where a: "await_state t runner ?e give_up 0 fuel [] w2 = Some (after, ok, w3)"
    using aw[of ?e w2] by (metis option.exhaust prod_cases3)
  show ?thesis
    unfolding executeApprovedAction_def if_not_P[OF False] x Let_def
    by (cases x; cases y; cases ok) (simp_all only: y a prod.case sum.case option.case bool.case option.distinct not_False_eq_True)
qed

text \<open>The executor answers: polls are at least 250 ms apart and end ten seconds after the
  change, so the wait takes at most 42 of them, whatever the commands answer.\<close>

theorem action_wait_terminates:
  assumes "\<And>n. clock n + 250 * millisecond \<le> clock (Suc n)" and "start \<le> clock 0"
    and "\<And>n. start + 10 * second < clock n \<Longrightarrow> give_up n" and "42 \<le> fuel"
  shows "executeApprovedAction sanitize give_up fuel t d runner w \<noteq> None"
proof -
  have "start + int n * (250 * millisecond) \<le> clock n" for n
  proof (induction n)
    case (Suc n)
    then show ?case using assms(1)[of n] by (simp add: algebra_simps)
  qed (use assms(2) in simp)
  from this[of 41] have "give_up (0 + 41)" using assms(3)[of 41] by simp
  then have aw: "await_state t runner e give_up 0 fuel [] w2 \<noteq> None" for e w2
    using await_terminates[of give_up 0 41 fuel] assms(4) by simp
  show ?thesis by (rule executed_some[OF aw])
qed

text \<open>The commands a target and an action may run.\<close>

definition approved_commands :: "policy_target \<Rightarrow> action_kind \<Rightarrow> string list list" where
  "approved_commands t a =
     (if pt_Kind t = ActionTargetSystemd then
        (if a = ActionLogs then [[''journalctl'', ''--quiet'', ''--no-pager'', ''--output=short-iso-precise'',
           ''--lines=200'', ''--unit'', pt_Resource t]]
         else [[''systemctl'', ''is-active'', ''--'', pt_Resource t], [''systemctl'', a, ''--'', pt_Resource t]])
      else
        (if a = ActionLogs then [[''docker'', ''logs'', ''--tail=200'', ''--timestamps'', pt_Resource t]]
         else [[''docker'', ''inspect'', ''--format={{.State.Running}}'', ''--'', pt_Resource t], [''docker'', a, pt_Resource t]]))"

lemma state_confined:
  assumes "\<And>c w. c \<in> set (approved_commands t a) \<Longrightarrow> run c w = run' c w" "a \<noteq> ActionLogs"
  shows "approvedTargetState t run w = approvedTargetState t run' w"
  using assms by (simp add: approvedTargetState_def approved_commands_def)

lemma await_confined:
  assumes "\<And>c w. c \<in> set (approved_commands t a) \<Longrightarrow> run c w = run' c w" "a \<noteq> ActionLogs"
  shows "await_state t run e give_up n fuel seen w = await_state t run' e give_up n fuel seen w"
proof (induction fuel arbitrary: n seen w)
  case (Suc fuel)
  have st: "approvedTargetState t run w = approvedTargetState t run' w" by (rule state_confined[OF assms])
  show ?case unfolding await_state.simps(2) st Suc.IH ..
qed simp

text \<open>No other command is ever run: the outcome of an executed action depends on the host
  only through the commands fixed for its target and action. Two hosts that answer those alike
  cannot be told apart, whatever else they would do.\<close>

theorem executor_confined:
  assumes "\<And>c w. c \<in> set (approved_commands t (ad_Kind d)) \<Longrightarrow> run c w = run' c w"
  shows "executeApprovedAction sanitize give_up fuel t d run w = executeApprovedAction sanitize give_up fuel t d run' w"
proof (cases "ad_Kind d = ActionLogs")
  case True
  have "readApprovedLogs sanitize t run w = readApprovedLogs sanitize t run' w"
    using assms True by (simp add: readApprovedLogs_def approved_commands_def)
  then show ?thesis by (simp add: executeApprovedAction_def True)
next
  case False
  have st: "approvedTargetState t run = approvedTargetState t run'"
    by (intro ext state_confined[where a = "ad_Kind d"] assms False)
  have ch: "changeApprovedTarget t (ad_Kind d) run w1 = changeApprovedTarget t (ad_Kind d) run' w1" for w1
    using assms False by (simp add: changeApprovedTarget_def approved_commands_def)
  have aw: "await_state t run e give_up 0 fuel [] w2 = await_state t run' e give_up 0 fuel [] w2" for e w2
    by (rule await_confined[OF assms False])
  show ?thesis unfolding executeApprovedAction_def st ch aw if_not_P[OF False] ..
qed

section \<open>A concrete target\<close>

definition sample_target :: policy_target where
  "sample_target = \<lparr>pt_Key = ''docker:api'', pt_Label = ''API'', pt_Kind = ActionTargetDocker,
     pt_Resource = ''api'', pt_Actions = [ActionStart, ActionLogs]\<rparr>"

text \<open>A host on which everything runs, and whose log is one given line.\<close>

definition sample_host_run :: "string \<Rightarrow> unit runner" where
  "sample_host_run line c w = ((if c ! 1 = ''logs'' then line else ''true'', [], False), w)"

lemma sample_target_ok: "validateActionTarget sample_target = Inr ()"
  by (simp add: validateActionTarget_ok sample_target_def docker_resource_def name_pattern_def or_in_def alnum_def
      known_action_def containsControl_def ascii_eval)

lemma sample_policy_ok: "validateActionPolicy \<lparr>ap_Version = 1, ap_Targets = Some [sample_target]\<rparr> = Inr ()"
  using sample_target_ok
  by (simp add: validateActionPolicy_def actionPolicyVersion_def maximumActionTargets_def Let_def)
     (simp add: sample_target_def actionID_def)


theorem approved_iff_published_witness:
  "approvedAction [sample_target] ''start:docker:api'' = Some (sample_target, published sample_target ActionStart)
    \<and> approvedAction [sample_target] ''stop:docker:api'' = None"
proof -
  have ids: "ad_ID ` set (actionDefinitions [sample_target]) = {''start:docker:api'', ''logs:docker:api''}"
    by (simp add: actionDefinitions_def image_image) (auto simp: sample_target_def actionID_def)
  have n: "approvedAction [sample_target] ''stop:docker:api'' = None"
    using approved_iff_published[OF sample_policy_ok, of "[sample_target]" "''stop:docker:api''"] ids by simp
  obtain t d where td: "approvedAction [sample_target] ''start:docker:api'' = Some (t, d)"
    using approved_iff_published[OF sample_policy_ok, of "[sample_target]" "''start:docker:api''"] ids by auto
  then have "t = sample_target" "d = published t (ad_Kind d)" "ad_Kind d \<in> set (pt_Actions sample_target)"
      "ad_ID d = ''start:docker:api''"
    using approved_iff_published[OF sample_policy_ok, of "[sample_target]" "''start:docker:api''"]
      approvedAction_Some[OF td] by auto
  then have "actionID ''docker:api'' (ad_Kind d) = ''start:docker:api''"
    by (metis published_id(1) sample_target_def policy_target.select_convs(1))
  then have "ad_Kind d = ActionStart" using \<open>ad_Kind d \<in> set (pt_Actions sample_target)\<close>
    by (auto simp: sample_target_def actionID_def)
  then show ?thesis using n td \<open>t = sample_target\<close> \<open>d = published t (ad_Kind d)\<close> by metis
qed

lemma trim_true: "trim_space ''true'' = ''true''"
  by (simp add: trim_space_def trim_chunks_def rune_chunks_ascii ascii_def byte_def is_space_def)

lemma sample_start:
  "executeApprovedAction (sanitizeActionLogLines (\<lambda>s. s)) (\<lambda>_. True) (Suc f) sample_target
    (published sample_target ActionStart) (sample_host_run []) () =
   Some (\<lparr>ar_OK = True, ar_ActionID = ''start:docker:api'', ar_TargetKey = ''docker:api'', ar_Kind = ActionStart,
     ar_StateBefore = ''running'', ar_StateAfter = ''running'',
     ar_Summary = ''API'' @ [CHR 0xEF, CHR 0xBC, CHR 0x9A] @ ''running'' @ ('' '' @ [CHR 0xE2, CHR 0x86, CHR 0x92] @ '' '') @ ''running'', ar_Logs = [], ar_ErrorKind = []\<rparr>, ())"
  by (simp add: executeApprovedAction_def approvedTargetState_def changeApprovedTarget_def sample_host_run_def
      sample_target_def published_def actionPresentation_def actionID_def empty_result_def trim_true Let_def)


theorem action_wait_terminates_witness:
  "executeApprovedAction (\<lambda>_. []) (\<lambda>n. 0 + 10 * second < int n * second) 42 sample_target
     (published sample_target ActionStart) (\<lambda>c w. (([], [], True), w)) () \<noteq> None"
  by (rule action_wait_terminates[where clock = "\<lambda>n. int n * second" and start = 0]) auto

theorem executor_confined_witness:
  "executeApprovedAction (\<lambda>_. []) (\<lambda>_. True) 42 sample_target (published sample_target ActionStart)
     (\<lambda>c w. if c ! 2 = ''api'' \<or> c ! 4 = ''api'' then ((''true'', [], False), w) else (([], [], True), w)) () =
   executeApprovedAction (\<lambda>_. []) (\<lambda>_. True) 42 sample_target (published sample_target ActionStart)
     (sample_host_run []) ()"
  by (rule executor_confined)
     (auto simp: approved_commands_def sample_target_def sample_host_run_def published_def actionPresentation_def)

text \<open>The sanitizer lets the control characters U+0080 to U+009F through, and every check of a
  log line refuses them: one such character inside a line, here U+0085 between two words, turns
  the whole successful log action into an error.\<close>

theorem log_line_with_c1_rejected:
  "\<exists>r. executeApprovedAction (sanitizeActionLogLines (\<lambda>s. s)) (\<lambda>_. True) 42 sample_target
      (published sample_target ActionLogs) (sample_host_run [CHR ''a'', CHR 0xC2, CHR 0x85, CHR ''b'']) () = Some (r, ()) \<and>
    ar_OK r \<and> ar_Logs r = [[CHR ''a'', CHR 0xC2, CHR 0x85, CHR ''b'']] \<and>
    decodeActionExecutionResult (Some r) (published sample_target ActionLogs) =
      Inl ''action result log line is invalid'' \<and>
    validateAgentActionResult r (published sample_target ActionLogs) = Inl ''agent action log line is invalid''"
proof -
  let ?l = "[CHR ''a'', CHR 0xC2, CHR 0x85, CHR ''b'']"
  have ch: "rune_chunks ?l = [(97, ''a''), (133, [CHR 0xC2, CHR 0x85]), (98, ''b'')]"
    "rune_chunks (?l @ [CHR 0x0A]) = [(97, ''a''), (133, [CHR 0xC2, CHR 0x85]), (98, ''b''), (10, [CHR 0x0A])]"
    by (simp_all add: utf8_eval)
  have tl: "trim_space ?l = ?l" "trim_space (?l @ [CHR 0x0A]) = ?l"
    unfolding trim_space_def ch by (simp_all add: trim_chunks_def is_space_def)
  have vu: "to_valid_utf8 (?l @ [CHR 0x0A]) = ?l @ [CHR 0x0A]"
    unfolding to_valid_utf8_def ch by (simp add: bad_chunk_def)
  have sl: "sanitizeActionLogLine (\<lambda>s. s) ?l = ?l"
    unfolding sanitizeActionLogLine_def ch(1)
    by (simp add: rune_bytes_def bad_chunk_def maximumActionLineBytes_def tl(1)[simplified])
  have lines: "sanitizeActionLogLines (\<lambda>s. s) (?l @ [CHR 0x0A] @ []) = [?l]"
    unfolding sanitizeActionLogLines_def append_Nil2 vu tl(2)
    using sl by (simp add: maximumActionLogLines_def maximumActionLogBytes_def)
  define d where "d = published sample_target ActionLogs"
  have d: "ad_Kind d = ActionLogs" "ad_ID d = ''logs:docker:api''" "ad_TargetKey d = ''docker:api''"
    by (simp_all add: d_def sample_target_def actionID_def)
  define m where "m = ([CHR 0xE8, CHR 0xBF, CHR 0x94, CHR 0xE5, CHR 0x9B, CHR 0x9E] @ '' '') @ itoa_nat 1 @ ('' '' @ [CHR 0xE8, CHR 0xA1, CHR 0x8C, CHR 0xE6, CHR 0x9C, CHR 0x89, CHR 0xE7, CHR 0x95, CHR 0x8C, CHR 0xE8, CHR 0x84, CHR 0xB1, CHR 0xE6, CHR 0x95, CHR 0x8F, CHR 0xE6, CHR 0x97, CHR 0xA5, CHR 0xE5, CHR 0xBF, CHR 0x97])"
  define r where "r = (empty_result sample_target d)\<lparr>ar_OK := True, ar_Logs := [?l], ar_Summary := m\<rparr>"
  have "sample_host_run ?l [''docker'', ''logs'', ''--tail=200'', ''--timestamps'', ''api''] () = ((?l, [], False), ())"
    by (simp add: sample_host_run_def)
  then have "readApprovedLogs (sanitizeActionLogLines (\<lambda>s. s)) sample_target (sample_host_run ?l) () = (Inr [?l], ())"
    using lines by (simp add: readApprovedLogs_def sample_target_def)
  then have e: "executeApprovedAction (sanitizeActionLogLines (\<lambda>s. s)) (\<lambda>_. True) 42 sample_target d (sample_host_run ?l) () = Some (r, ())"
    by (simp add: executeApprovedAction_def d r_def m_def)
  have c: "hasActionControlExceptTab ?l" "actionLogHasControl ?l"
    unfolding hasActionControlExceptTab_def actionLogHasControl_def runes_def ch(1) by (simp_all add: is_control_def)
  have s: "\<not> containsControl m" "rune_count m \<le> 200" "trim_space m \<noteq> []"
    using log_summary[of 1] unfolding m_def[symmetric] by (simp_all add: short_text_def)
  have f: "ar_ActionID r = ad_ID d" "ar_TargetKey r = ad_TargetKey d" "ar_Kind r = ad_Kind d" "ar_OK r"
    "ar_StateBefore r = []" "ar_StateAfter r = []" "ar_ErrorKind r = []" "ar_Logs r = [?l]" "ar_Summary r = m"
    by (simp_all add: r_def empty_result_def d sample_target_def)
  have "decodeActionExecutionResult (Some r) d = Inl ''action result log line is invalid''"
    using c s by (simp add: decodeActionExecutionResult_def f control_same maximumActionLogLines_def)
  moreover have "validateAgentActionResult r d = Inl ''agent action log line is invalid''"
    using c s by (simp add: validateAgentActionResult_def f d control_same validAgentActionErrorKind_def)
  ultimately show ?thesis using e f unfolding d_def by blast
qed

end
