(* ===== verification/Deployment_Client.thy ===== *)
theory Deployment_Client
  imports Deployment_Runs Action_Client
begin

text \<open>
  The Hub's side of deployments (\<^verbatim>\<open>internal/hub/deployment_client.go\<close>): its own checks of what
  an Agent publishes and answers, and the HTTP client. The theory joins the two sides: whatever an
  Agent publishes from a valid policy and its recorded states, and whatever its executor answers,
  both the unprivileged Agent and the Hub accept.
\<close>

section \<open>Checks\<close>

definition maximumAgentDeployments :: nat where "maximumAgentDeployments = 32 * 33"

definition hubDeploymentKeyPattern :: "string \<Rightarrow> bool" where
  "hubDeploymentKeyPattern s = name_pattern lower_alnum (or_in lower_alnum ''_.-'') 63 s"

definition hubDeploymentReleasePattern :: "string \<Rightarrow> bool" where
  "hubDeploymentReleasePattern s = name_pattern alnum (or_in alnum ''_.-'') 63 s"

definition hubImmutableImagePattern :: "string \<Rightarrow> bool" where
  "hubImmutableImagePattern img = (case cut_at ''@sha256:'' img of
       None \<Rightarrow> False | Some (repository, digest) \<Rightarrow> image_repository repository \<and> hex64 digest)"

definition validDeploymentText :: "string \<Rightarrow> nat \<Rightarrow> bool" where
  "validDeploymentText value maximumRunes =
     (\<not> (trim_space value = [] \<or> rune_count value > maximumRunes \<or> \<not> valid_utf8 value) \<and>
      \<not> list_ex is_control (runes value))"

definition validAgentDeploymentErrorKind :: "string \<Rightarrow> bool \<Rightarrow> bool" where
  "validAgentDeploymentErrorKind value ok =
     (if ok then value = []
      else value \<in> {''preflight_failed'', ''image_prepare_failed'', ''current_release_unknown'',
        ''state_prepare_failed'', ''compose_apply_failed'', ''health_verification_failed'',
        ''state_commit_failed'', ''rollback_failed''})"

definition validateAgentDeploymentDefinition :: "deployment_definition \<Rightarrow> go_error + unit" where
  "validateAgentDeploymentDefinition d =
     andThen (guard ''agent deployment fields are invalid''
       (\<not> hubDeploymentKeyPattern (dd_StackKey d) \<or> contains (dd_ID d) ''/''
        \<or> \<not> validDeploymentText (dd_StackLabel d) 80 \<or> \<not> hubDeploymentReleasePattern (dd_ReleaseID d)
        \<or> \<not> validDeploymentText (dd_ReleaseLabel d) 80 \<or> \<not> hubImmutableImagePattern (dd_Image d)
        \<or> length (dd_Image d) > 512))
     (\<lambda>_. andThen (check_all (\<lambda>r. guard ''agent deployment state identity is invalid''
         (r \<noteq> [] \<and> \<not> hubDeploymentReleasePattern r)) [dd_CurrentReleaseID d, dd_PreviousReleaseID d])
     (\<lambda>_. andThen (guard ''agent deployment risk is invalid'' (dd_Risk d \<noteq> ActionRiskDisruptive))
     (\<lambda>_. if dd_Kind d = DeploymentDeploy then
            guard ''agent deployment presentation is invalid''
              (equal_fold_ascii (dd_ReleaseID d) ''external''
               \<or> dd_ID d \<noteq> ''deploy:'' @ dd_StackKey d @ '':'' @ dd_ReleaseID d
               \<or> dd_Description d \<noteq> [CHR 0xE9, CHR 0x83, CHR 0xA8, CHR 0xE7, CHR 0xBD, CHR 0xB2, CHR 0xE4, CHR 0xB8, CHR 0x8D, CHR 0xE5, CHR 0x8F, CHR 0xAF, CHR 0xE5, CHR 0x8F, CHR 0x98, CHR 0xE9, CHR 0x95, CHR 0x9C, CHR 0xE5, CHR 0x83, CHR 0x8F, CHR 0xE5, CHR 0xB9, CHR 0xB6, CHR 0xE9, CHR 0xAA, CHR 0x8C, CHR 0xE8, CHR 0xAF, CHR 0x81, CHR 0xEF, CHR 0xBC, CHR 0x9B, CHR 0xE5, CHR 0xA4, CHR 0xB1, CHR 0xE8, CHR 0xB4, CHR 0xA5, CHR 0xE8, CHR 0x87, CHR 0xAA, CHR 0xE5, CHR 0x8A, CHR 0xA8, CHR 0xE5, CHR 0x9B, CHR 0x9E, CHR 0xE6, CHR 0xBB, CHR 0x9A, CHR 0xEF, CHR 0xBC, CHR 0x9A] @ dd_StackLabel d @ '' / '' @ dd_ReleaseLabel d
               \<or> dd_Confirmation d \<noteq> ([CHR 0xE7, CHR 0xA1, CHR 0xAE, CHR 0xE8, CHR 0xAE, CHR 0xA4, CHR 0xE9, CHR 0x83, CHR 0xA8, CHR 0xE7, CHR 0xBD, CHR 0xB2] @ '' '') @ dd_StackLabel d @ ('' '' @ [CHR 0xE5, CHR 0x88, CHR 0xB0] @ '' '') @ dd_ReleaseLabel d)
          else if dd_Kind d = DeploymentRollback then
            guard ''agent rollback presentation is invalid''
              (dd_ID d \<noteq> ''rollback:'' @ dd_StackKey d
               \<or> dd_Description d \<noteq> [CHR 0xE5, CHR 0x9B, CHR 0x9E, CHR 0xE6, CHR 0xBB, CHR 0x9A, CHR 0xE5, CHR 0x88, CHR 0xB0, CHR 0xE4, CHR 0xB8, CHR 0x8A, CHR 0xE4, CHR 0xB8, CHR 0x80, CHR 0xE4, CHR 0xB8, CHR 0xAA, CHR 0xE5, CHR 0xB7, CHR 0xB2, CHR 0xE9, CHR 0xAA, CHR 0x8C, CHR 0xE8, CHR 0xAF, CHR 0x81, CHR 0xE7, CHR 0x89, CHR 0x88, CHR 0xE6, CHR 0x9C, CHR 0xAC, CHR 0xEF, CHR 0xBC, CHR 0x9A] @ dd_StackLabel d @ '' / '' @ dd_ReleaseLabel d
               \<or> dd_Confirmation d \<noteq> ([CHR 0xE7, CHR 0xA1, CHR 0xAE, CHR 0xE8, CHR 0xAE, CHR 0xA4, CHR 0xE5, CHR 0x9B, CHR 0x9E, CHR 0xE6, CHR 0xBB, CHR 0x9A] @ '' '') @ dd_StackLabel d @ ('' '' @ [CHR 0xE5, CHR 0x88, CHR 0xB0] @ '' '') @ dd_ReleaseLabel d)
          else Inl ''agent deployment kind is invalid'')))"

definition validateAgentDeployments :: "deployments_response \<Rightarrow> go_error + unit" where
  "validateAgentDeployments r = (case ds_Deployments r of
       None \<Rightarrow> Inl ''agent deployment count is invalid''
     | Some ds \<Rightarrow>
         andThen (guard ''agent deployment count is invalid'' (length ds > maximumAgentDeployments))
         (\<lambda>_. check_distinct ''agent deployment IDs are duplicated'' dd_ID validateAgentDeploymentDefinition
                (\<lambda>_. Inr ()) [] ds))"

definition validateAgentDeploymentResult :: "deployment_result \<Rightarrow> deployment_definition \<Rightarrow> go_error + unit" where
  "validateAgentDeploymentResult r expected =
     andThen (guard ''agent deployment result identity is invalid''
       (de_ActionID r \<noteq> dd_ID expected \<or> de_StackKey r \<noteq> dd_StackKey expected \<or> de_Kind r \<noteq> dd_Kind expected
        \<or> de_ReleaseID r \<noteq> dd_ReleaseID expected
        \<or> dd_CurrentReleaseID expected \<noteq> [] \<and> de_PreviousReleaseID r \<noteq> dd_CurrentReleaseID expected
        \<or> de_PreviousReleaseID r \<noteq> [] \<and> \<not> hubDeploymentReleasePattern (de_PreviousReleaseID r)))
     (\<lambda>_. andThen (guard ''agent deployment result state is invalid''
       (de_OK r = (de_ErrorKind r \<noteq> []) \<or> \<not> validAgentDeploymentErrorKind (de_ErrorKind r) (de_OK r)))
     (\<lambda>_. andThen (guard ''agent deployment rollback state is invalid''
       (de_OK r \<and> de_RollbackPerformed r \<or> de_ErrorKind r = ''rollback_failed'' \<and> de_RollbackPerformed r))
     (\<lambda>_. if de_OK r \<or> de_RollbackPerformed r then
            guard ''agent deployment result summary is missing'' (\<not> validDeploymentText (de_Summary r) 200)
          else guard ''agent deployment result summary is invalid''
            (de_Summary r \<noteq> [] \<and> \<not> validDeploymentText (de_Summary r) 200))))"

section \<open>The HTTP client\<close>

definition deployment_List :: "deployments_response agent_answer \<Rightarrow> go_error + deployments_response" where
  "deployment_List answer = (case answer of
       RequestInvalid \<Rightarrow> Inl ''agent_invalid_config''
     | NetworkError deadline \<Rightarrow> Inl (classifyAgentActionNetworkError deadline)
     | Answer status body \<Rightarrow>
         if status \<noteq> 200 then Inl (classifyAgentActionStatus status)
         else (case body of
             None \<Rightarrow> Inl ''agent_invalid_response''
           | Some r \<Rightarrow> (case validateAgentDeployments r of
               Inl _ \<Rightarrow> Inl ''agent_invalid_response'' | Inr _ \<Rightarrow> Inr r)))"

definition deployment_Execute ::
  "(deployment_definition \<Rightarrow> deployment_result agent_answer) \<Rightarrow> deployment_definition \<Rightarrow> go_error + deployment_result" where
  "deployment_Execute post d = (case validateAgentDeploymentDefinition d of
       Inl _ \<Rightarrow> Inl ''agent_invalid_action''
     | Inr _ \<Rightarrow> (case post d of
         RequestInvalid \<Rightarrow> Inl ''agent_invalid_config''
       | NetworkError deadline \<Rightarrow> Inl (classifyAgentActionNetworkError deadline)
       | Answer status body \<Rightarrow>
           if status \<noteq> 200 \<and> status \<noteq> 502 then Inl (classifyAgentActionStatus status)
           else (case body of
               None \<Rightarrow> Inl ''agent_invalid_response''
             | Some r \<Rightarrow>
                 if validateAgentDeploymentResult r d \<noteq> Inr () then Inl ''agent_invalid_response''
                 else if (status = 200 \<and> \<not> de_OK r) \<or> (status = 502 \<and> de_OK r)
                 then Inl ''agent_invalid_response'' else Inr r)))"

text \<open>What the Agent's HTTP handlers answer (\<^verbatim>\<open>internal/agent/server.go\<close>).\<close>

definition deployment_status :: "go_error + deployment_result \<Rightarrow> nat \<times> deployment_result option" where
  "deployment_status result = (case result of
       Inl _ \<Rightarrow> (502, None)
     | Inr r \<Rightarrow> (if \<not> de_OK r then (502, Some r) else (200, Some r)))"

lemma deployment_List_cases:
  "case deployment_List answer of Inl e \<Rightarrow> e \<in> set client_categories | Inr r \<Rightarrow> validateAgentDeployments r = Inr ()"
proof -
  have c: "''agent_invalid_config'' \<in> set client_categories" "''agent_invalid_response'' \<in> set client_categories"
    by (simp_all add: client_categories_def)
  then show ?thesis
    unfolding deployment_List_def by (auto split: agent_answer.split option.split sum.split)
qed

lemma deployment_Execute_cases:
  "case deployment_Execute post d of Inl e \<Rightarrow> e \<in> set client_categories
   | Inr r \<Rightarrow> validateAgentDeploymentDefinition d = Inr () \<and> validateAgentDeploymentResult r d = Inr () \<and>
       (\<exists>status. post d = Answer status (Some r))"
proof -
  have c: "''agent_invalid_config'' \<in> set client_categories" "''agent_invalid_response'' \<in> set client_categories"
    "''agent_invalid_action'' \<in> set client_categories" by (simp_all add: client_categories_def)
  then show ?thesis
    unfolding deployment_Execute_def
    by (cases "validateAgentDeploymentDefinition d"; cases "post d") (auto split: option.split)
qed

section \<open>What an Agent publishes\<close>

lemma hub_patterns:
  "hubDeploymentKeyPattern s = deploymentKeyPattern s" "hubDeploymentReleasePattern s = deploymentReleasePattern s"
  "hubImmutableImagePattern s = immutableImagePattern s"
  "validDeploymentText s n \<longleftrightarrow> trim_space s \<noteq> [] \<and> rune_count s \<le> n \<and> valid_utf8 s \<and> \<not> deploymentTextHasControl s"
  by (auto simp: hubDeploymentKeyPattern_def deploymentKeyPattern_def hubDeploymentReleasePattern_def
      deploymentReleasePattern_def hubImmutableImagePattern_def immutableImagePattern_def validDeploymentText_def
      deploymentTextHasControl_def not_less)

lemma key_no_colon: "deploymentKeyPattern s \<Longrightarrow> CHR '':'' \<notin> set s"
  by (auto simp: deploymentKeyPattern_def name_pattern_def or_in_def list_all_iff lower_alnum_def byte_def split: list.splits)

lemma offer_ids:
  assumes "d \<in> set (stack_offers states s)"
  shows "(\<exists>r \<in> set (sk_Releases s). d = deploy_offer s (state_of states (sk_Key s)) r) \<or>
    d = rollback_offer s (state_of states (sk_Key s)) \<and> sr_Image (dt_Previous (state_of states (sk_Key s))) \<noteq> []"
  using assms by (auto simp: stack_offers_def Let_def split: if_splits)

lemma offer_fields [simp]:
  "dd_ID (deploy_offer s st r) = ''deploy:'' @ sk_Key s @ '':'' @ pr_ID r"
  "dd_ID (rollback_offer s st) = ''rollback:'' @ sk_Key s"
  by (simp_all add: deploy_offer_def rollback_offer_def deploymentActionID_def)

lemma published_valid_deployment:
  assumes v: "validateDeploymentStack parse_url s = Inr u" and texts: "policy_texts [s]" and d: "d \<in> set (stack_offers states s)"
    and st: "case states (sk_Key s) of None \<Rightarrow> True | Some st \<Rightarrow> state_ok env s st"
  shows "validateDeploymentDefinition d = Inr ()" and "validateAgentDeploymentDefinition d = Inr ()"
proof -
  note off = offered[OF v texts d st]
  let ?st = "state_of states (sk_Key s)"
  have lab: "valid_utf8 (sk_Label s)" using texts by (simp add: policy_texts_def)
  have ids: "sr_ID (dt_Current ?st) = [] \<or> deploymentReleasePattern (sr_ID (dt_Current ?st))"
    "sr_ID (dt_Previous ?st) = [] \<or> deploymentReleasePattern (sr_ID (dt_Previous ?st))"
    using st state_ok_releases(1,2)[of env s ?st]
    by (auto simp: state_of_def no_state_def no_release_def release_ok_iff split: option.splits)
  have kp: "plain (sk_Key s)" using key_pattern_plain stack_facts(1)[OF v] by blast
  have rp: "plain (dd_ReleaseID d)" using off(2) release_pattern_plain by (simp add: release_ok_iff deployment_target_def)
  have lb: "dd_StackLabel d = sk_Label s" "dd_Risk d = ActionRiskDisruptive"
    using offer_ids[OF d] by (auto simp: deploy_offer_def rollback_offer_def)
  have pres: "(dd_Kind d = DeploymentDeploy \<and> \<not> equal_fold_ascii (dd_ReleaseID d) ''external'' \<and>
      dd_ID d = ''deploy:'' @ dd_StackKey d @ '':'' @ dd_ReleaseID d \<and>
      dd_Description d = [CHR 0xE9, CHR 0x83, CHR 0xA8, CHR 0xE7, CHR 0xBD, CHR 0xB2, CHR 0xE4, CHR 0xB8, CHR 0x8D, CHR 0xE5, CHR 0x8F, CHR 0xAF, CHR 0xE5, CHR 0x8F, CHR 0x98, CHR 0xE9, CHR 0x95, CHR 0x9C, CHR 0xE5, CHR 0x83, CHR 0x8F, CHR 0xE5, CHR 0xB9, CHR 0xB6, CHR 0xE9, CHR 0xAA, CHR 0x8C, CHR 0xE8, CHR 0xAF, CHR 0x81, CHR 0xEF, CHR 0xBC, CHR 0x9B, CHR 0xE5, CHR 0xA4, CHR 0xB1, CHR 0xE8, CHR 0xB4, CHR 0xA5, CHR 0xE8, CHR 0x87, CHR 0xAA, CHR 0xE5, CHR 0x8A, CHR 0xA8, CHR 0xE5, CHR 0x9B, CHR 0x9E, CHR 0xE6, CHR 0xBB, CHR 0x9A, CHR 0xEF, CHR 0xBC, CHR 0x9A] @ dd_StackLabel d @ '' / '' @ dd_ReleaseLabel d \<and>
      dd_Confirmation d = ([CHR 0xE7, CHR 0xA1, CHR 0xAE, CHR 0xE8, CHR 0xAE, CHR 0xA4, CHR 0xE9, CHR 0x83, CHR 0xA8, CHR 0xE7, CHR 0xBD, CHR 0xB2] @ '' '') @ dd_StackLabel d @ ('' '' @ [CHR 0xE5, CHR 0x88, CHR 0xB0] @ '' '') @ dd_ReleaseLabel d) \<or>
     (dd_Kind d = DeploymentRollback \<and> dd_ID d = ''rollback:'' @ dd_StackKey d \<and>
      dd_Description d = [CHR 0xE5, CHR 0x9B, CHR 0x9E, CHR 0xE6, CHR 0xBB, CHR 0x9A, CHR 0xE5, CHR 0x88, CHR 0xB0, CHR 0xE4, CHR 0xB8, CHR 0x8A, CHR 0xE4, CHR 0xB8, CHR 0x80, CHR 0xE4, CHR 0xB8, CHR 0xAA, CHR 0xE5, CHR 0xB7, CHR 0xB2, CHR 0xE9, CHR 0xAA, CHR 0x8C, CHR 0xE8, CHR 0xAF, CHR 0x81, CHR 0xE7, CHR 0x89, CHR 0x88, CHR 0xE6, CHR 0x9C, CHR 0xAC, CHR 0xEF, CHR 0xBC, CHR 0x9A] @ dd_StackLabel d @ '' / '' @ dd_ReleaseLabel d \<and>
      dd_Confirmation d = ([CHR 0xE7, CHR 0xA1, CHR 0xAE, CHR 0xE8, CHR 0xAE, CHR 0xA4, CHR 0xE5, CHR 0x9B, CHR 0x9E, CHR 0xE6, CHR 0xBB, CHR 0x9A] @ '' '') @ dd_StackLabel d @ ('' '' @ [CHR 0xE5, CHR 0x88, CHR 0xB0] @ '' '') @ dd_ReleaseLabel d)"
    using offer_ids[OF d] check_releases_ok[OF stack_facts(5)[OF v]]
    by (auto simp: deploy_offer_def rollback_offer_def deploymentActionID_def)
  have "plain (dd_ID d)" using pres kp rp off(1) by (auto simp: plain_char_def byte_def)
  then have slash: "\<not> contains (dd_ID d) ''/''" unfolding contains_char by (rule plain_no_slash)
  note T = off(2)[unfolded release_ok_iff deployment_target_def state_release.simps]
  note F = stack_facts(1-4)[OF v]
  have cid: "deploymentActionID DeploymentDeploy k r = ''deploy:'' @ k @ '':'' @ r"
    "deploymentActionID DeploymentRollback k r = ''rollback:'' @ k" for k r
    by (simp_all add: deploymentActionID_def)
  show "validateDeploymentDefinition d = Inr ()"
    using pres unfolding validateDeploymentDefinition_def
    by (elim disjE) (simp_all only: andThen_ok guard_ok, (use T F lb ids off(1,3,4) in \<open>auto simp: cid not_less\<close>)+)
  show "validateAgentDeploymentDefinition d = Inr ()"
    using pres unfolding validateAgentDeploymentDefinition_def hub_patterns
    by (elim disjE) (simp_all only: andThen_ok guard_ok, (use T F lb lab ids slash off(1,3,4) in \<open>auto simp: cid not_less\<close>)+)
qed

lemma stack_ids_distinct:
  assumes "validateDeploymentStack parse_url s = Inr u"
  shows "distinct (map dd_ID (stack_offers states s))"
proof -
  have "distinct (map pr_ID (sk_Releases s))" using check_releases_ok[OF stack_facts(5)[OF assms]] by blast
  then have d: "distinct (map pr_ID (filter q (sk_Releases s)))" for q by (simp add: distinct_map_filter)
  have "distinct (map (\<lambda>r. ''deploy:'' @ sk_Key s @ '':'' @ pr_ID r) (filter q (sk_Releases s)))" for q
    using d[of q] by (simp add: distinct_map inj_on_def)
  then show ?thesis by (auto simp: stack_offers_def Let_def comp_def)
qed

lemma offer_form:
  assumes "d \<in> set (stack_offers states s)"
  obtains a where "dd_ID d = ''deploy:'' @ sk_Key s @ CHR '':'' # a" | "dd_ID d = ''rollback:'' @ sk_Key s"
proof (cases "\<exists>r \<in> set (sk_Releases s). d = deploy_offer s (state_of states (sk_Key s)) r")
  case True
  then obtain r where "d = deploy_offer s (state_of states (sk_Key s)) r" by blast
  then show ?thesis using that(1)[of "pr_ID r"] by simp
next
  case False
  then have "d = rollback_offer s (state_of states (sk_Key s))" using offer_ids[OF assms] by blast
  then show ?thesis using that(2) by simp
qed

lemma same_id_same_key:
  assumes "deploymentKeyPattern (sk_Key s)" "deploymentKeyPattern (sk_Key t)"
    and "d \<in> set (stack_offers states s)" "e \<in> set (stack_offers states t)" "dd_ID d = dd_ID e"
  shows "sk_Key s = sk_Key t"
proof -
  have cut: "sk_Key s = sk_Key t" if "sk_Key s @ CHR '':'' # a = sk_Key t @ CHR '':'' # b" for a b
    using cut_append[OF key_no_colon[OF assms(1)], of a, unfolded that] cut_append[OF key_no_colon[OF assms(2)], of b]
    by (metis option.inject prod.inject)
  show ?thesis
  proof (rule offer_form[OF assms(3)]; rule offer_form[OF assms(4)])
    fix a b assume "dd_ID d = ''deploy:'' @ sk_Key s @ CHR '':'' # a" "dd_ID e = ''deploy:'' @ sk_Key t @ CHR '':'' # b"
    then show ?thesis using assms(5) cut[of a b] by simp
  qed (use assms(5) in simp_all)
qed

lemma published_ids_distinct:
  assumes "\<forall>s \<in> set stacks. validateDeploymentStack parse_url s = Inr ()" "distinct (map sk_Key stacks)"
  shows "distinct (map dd_ID (deploymentDefinitions stacks states))"
proof -
  have "distinct (map dd_ID (concat (map (stack_offers states) stacks)))"
    using assms
  proof (induction stacks)
    case (Cons s ss)
    have v: "validateDeploymentStack parse_url s = Inr ()" using Cons.prems by simp
    have "dd_ID d \<noteq> dd_ID e" if "d \<in> set (stack_offers states s)" "t \<in> set ss" "e \<in> set (stack_offers states t)" for d e t
    proof
      assume i: "dd_ID d = dd_ID e"
      have "deploymentKeyPattern (sk_Key s)" "deploymentKeyPattern (sk_Key t)"
        using Cons.prems(1) that(2) stack_facts(1) by auto
      from same_id_same_key[OF this that(1,3) i] show False using Cons.prems(2) that(2) by (auto simp: rev_image_eqI)
    qed
    then have "dd_ID ` set (stack_offers states s) \<inter> dd_ID ` set (concat (map (stack_offers states) ss)) = {}" by auto
    then show ?case using Cons stack_ids_distinct[OF v, of states] by auto
  qed simp
  then show ?thesis by (simp add: deploymentDefinitions_def distinct_map)
qed

lemma published_count:
  assumes "\<forall>s \<in> set stacks. validateDeploymentStack parse_url s = Inr ()"
  shows "length (deploymentDefinitions stacks states) \<le> 33 * length stacks"
proof -
  have "length (stack_offers states s) \<le> 33" if "s \<in> set stacks" for s
  proof -
    let ?q = "\<lambda>r. sr_Image (dt_Current (state_of states (sk_Key s))) \<noteq> pr_Image r"
    have "length (filter ?q (sk_Releases s)) \<le> 32"
      using stack_facts(6)[OF bspec[OF assms that]] length_filter_le[of ?q "sk_Releases s"] by linarith
    moreover have "length (stack_offers states s) \<le> length (filter ?q (sk_Releases s)) + 1"
      by (simp add: stack_offers_def Let_def)
    ultimately show ?thesis by linarith
  qed
  then have "length (concat (map (stack_offers states) stacks)) \<le> 33 * length stacks"
    by (induction stacks) (auto simp: add_mono)
  then show ?thesis by (simp add: deploymentDefinitions_def)
qed


section \<open>What an executor answers\<close>

definition names_previous :: "deployment_definition \<Rightarrow> string \<Rightarrow> bool" where
  "names_previous d p = ((dd_CurrentReleaseID d \<noteq> [] \<longrightarrow> p = dd_CurrentReleaseID d) \<and> (p \<noteq> [] \<longrightarrow> deploymentReleasePattern p))"

definition deployed_texts :: "string list" where
  "deployed_texts = [running_text, rolled_back_text, deployed_text]"

definition answer_shape :: "deployment_stack \<Rightarrow> deployment_definition \<Rightarrow> deployment_result \<Rightarrow> bool" where
  "answer_shape s d r =
     ((\<exists>e b p. r = failedDeploymentResult d e b p \<and> names_previous d p \<and> e \<noteq> [] \<and>
         validAgentDeploymentErrorKind e False \<and> \<not> (b \<and> e = ''rollback_failed'')) \<or>
      (\<exists>c t u. r = deployed s d c (sk_Label s @ t @ dd_ReleaseLabel d @ u) \<and> names_previous d (sr_ID c) \<and>
         t \<in> set deployed_texts \<and> u = healthy_text))"

lemma rollback_shape:
  assumes "rollbackFailedDeployment env fuel s d stored current e w = Some (r, w')" and "names_previous d (sr_ID current)"
    and "e \<in> {''compose_apply_failed'', ''health_verification_failed'', ''state_commit_failed''}"
  shows "answer_shape s d r"
proof -
  have "r = failedDeploymentResult d ''rollback_failed'' False (sr_ID current) \<or> r = failedDeploymentResult d e True (sr_ID current)"
    using assms(1) unfolding rollbackFailedDeployment_def
    by (auto simp: Let_def split: prod.splits sum.splits option.splits bool.splits)
  then show ?thesis using assms(2,3)
    unfolding answer_shape_def validAgentDeploymentErrorKind_def by (elim disjE; fastforce)
qed

lemma failed_shape:
  "names_previous d p \<Longrightarrow> e \<in> {''preflight_failed'', ''image_prepare_failed'', ''current_release_unknown'',
     ''state_prepare_failed'', ''health_verification_failed'', ''state_commit_failed''} \<Longrightarrow>
   answer_shape s d (failedDeploymentResult d e False p)"
  unfolding answer_shape_def validAgentDeploymentErrorKind_def by (intro disjI1 exI[of _ e] exI[of _ False] exI[of _ p]) auto

lemma texts: "running_text \<in> set deployed_texts" "rolled_back_text \<in> set deployed_texts" "deployed_text \<in> set deployed_texts"
  by (simp_all add: deployed_texts_def)

lemma deployment_shape:
  assumes run: "executeApprovedDeployment env fuel s d stored w = Some (r, w')"
    and cur: "dt_Current stored = no_release \<or> release_ok (dt_Current stored)" and id: "dd_CurrentReleaseID d = sr_ID (dt_Current stored)"
  shows "answer_shape s d r"
proof -
  have p0: "names_previous d (dd_CurrentReleaseID d)"
    using cur id by (auto simp: names_previous_def no_release_def release_ok_iff)
  have p1: "names_previous d (sr_ID current)"
    if "dt_Current stored = no_release" "discoverCurrentRelease env s h2 = (Inr current, h3)" for current h2 h3
    using that id discovered_ok[OF that(2)] by (simp add: names_previous_def no_release_def release_ok_iff)
  have p2: "names_previous d (sr_ID (dt_Current stored))" if "dt_Current stored \<noteq> no_release"
    using that id cur by (simp add: names_previous_def release_ok_iff)
  note f0 = failed_shape[OF p0] note f1 = failed_shape
  have ok: "answer_shape s d (deployed s d c (sk_Label s @ t @ dd_ReleaseLabel d @ u))"
    if "names_previous d (sr_ID c)" "t \<in> set deployed_texts" "u = healthy_text" for c t u
    using that unfolding answer_shape_def by blast
  have confirm: "answer_shape s d r" if "confirm_running_release env fuel s d current w = Some (r, w')" "names_previous d (sr_ID current)"
    for current w
    using that(1) unfolding confirm_running_release_def
    by (auto split: prod.splits sum.splits option.splits bool.splits intro!: f1[OF that(2)] ok[OF that(2)] texts simp del: append.simps)
  have applied: "answer_shape s d r" if "apply_release env fuel s d stored current w = Some (r, w')" "names_previous d (sr_ID current)"
    for current w
    using that(1) unfolding apply_release_def
    by (auto simp: Let_def simp del: append.simps split: prod.splits sum.splits option.splits bool.splits if_splits
        intro!: f1[OF that(2)] ok[OF that(2)] texts elim!: rollback_shape[OF _ that(2)])
  from run show ?thesis unfolding executeApprovedDeployment_def
    by (auto split: prod.splits sum.splits if_splits intro: f0 p1 p2 confirm applied)
qed

lemma same_control: "deploymentTextHasControl s = containsControl s"
  by (simp add: deploymentTextHasControl_def containsControl_def)

lemma summary_texts:
  "t \<in> set deployed_texts \<Longrightarrow> short_text 9 t" "short_text 7 healthy_text"
  "short_text 20 [CHR 0xE9, CHR 0x83, CHR 0xA8, CHR 0xE7, CHR 0xBD, CHR 0xB2, CHR 0xE6, CHR 0x9C, CHR 0xAA, CHR 0xE9, CHR 0x80, CHR 0x9A, CHR 0xE8, CHR 0xBF, CHR 0x87, CHR 0xE9, CHR 0xAA, CHR 0x8C, CHR 0xE8, CHR 0xAF, CHR 0x81, CHR 0xEF, CHR 0xBC, CHR 0x8C, CHR 0xE5, CHR 0xB7, CHR 0xB2, CHR 0xE8, CHR 0x87, CHR 0xAA, CHR 0xE5, CHR 0x8A, CHR 0xA8, CHR 0xE6, CHR 0x81, CHR 0xA2, CHR 0xE5, CHR 0xA4, CHR 0x8D, CHR 0xE5, CHR 0x88, CHR 0xB0, CHR 0xE6, CHR 0x93, CHR 0x8D, CHR 0xE4, CHR 0xBD, CHR 0x9C, CHR 0xE5, CHR 0x89, CHR 0x8D, CHR 0xE7, CHR 0x89, CHR 0x88, CHR 0xE6, CHR 0x9C, CHR 0xAC]" "\<exists>r \<in> set (runes [CHR 0xE9, CHR 0x83, CHR 0xA8, CHR 0xE7, CHR 0xBD, CHR 0xB2, CHR 0xE6, CHR 0x9C, CHR 0xAA, CHR 0xE9, CHR 0x80, CHR 0x9A, CHR 0xE8, CHR 0xBF, CHR 0x87, CHR 0xE9, CHR 0xAA, CHR 0x8C, CHR 0xE8, CHR 0xAF, CHR 0x81, CHR 0xEF, CHR 0xBC, CHR 0x8C, CHR 0xE5, CHR 0xB7, CHR 0xB2, CHR 0xE8, CHR 0x87, CHR 0xAA, CHR 0xE5, CHR 0x8A, CHR 0xA8, CHR 0xE6, CHR 0x81, CHR 0xA2, CHR 0xE5, CHR 0xA4, CHR 0x8D, CHR 0xE5, CHR 0x88, CHR 0xB0, CHR 0xE6, CHR 0x93, CHR 0x8D, CHR 0xE4, CHR 0xBD, CHR 0x9C, CHR 0xE5, CHR 0x89, CHR 0x8D, CHR 0xE7, CHR 0x89, CHR 0x88, CHR 0xE6, CHR 0x9C, CHR 0xAC]). \<not> is_space r"
  by (auto simp: deployed_texts_def running_text_def rolled_back_text_def deployed_text_def healthy_text_def
      short_text_def utf8_eval)

lemma answer_valid:
  assumes "answer_shape s d r" and key: "dd_StackKey d = sk_Key s"
    and l: "short_text 80 (sk_Label s)" "trim_space (sk_Label s) \<noteq> []" and rl: "short_text 80 (dd_ReleaseLabel d)"
  shows "decodeDeploymentExecutionResult (Some r) d = Inr r \<and> validateAgentDeploymentResult r d = Inr ()"
proof -
  have ns: "\<exists>x \<in> set (runes (sk_Label s)). \<not> is_space x" using l(2) by (auto simp: trim_space_empty list_all_iff)
  have sum: "short_text 176 (sk_Label s @ t @ dd_ReleaseLabel d @ healthy_text)"
    "trim_space (sk_Label s @ t @ dd_ReleaseLabel d @ healthy_text) \<noteq> []" if "t \<in> set deployed_texts" for t
  proof -
    have "short_text (80 + (9 + (80 + 7))) (sk_Label s @ t @ dd_ReleaseLabel d @ healthy_text)"
      by (intro short_append l rl summary_texts that)
    then show "short_text 176 (sk_Label s @ t @ dd_ReleaseLabel d @ healthy_text)" by simp
    show "trim_space (sk_Label s @ t @ dd_ReleaseLabel d @ healthy_text) \<noteq> []"
      using ns l(1) by (auto simp: trim_space_empty short_text_def runes_append list_all_iff)
  qed
  note R = summary_texts(3,4)
  have rb: "trim_space [CHR 0xE9, CHR 0x83, CHR 0xA8, CHR 0xE7, CHR 0xBD, CHR 0xB2, CHR 0xE6, CHR 0x9C, CHR 0xAA, CHR 0xE9, CHR 0x80, CHR 0x9A, CHR 0xE8, CHR 0xBF, CHR 0x87, CHR 0xE9, CHR 0xAA, CHR 0x8C, CHR 0xE8, CHR 0xAF, CHR 0x81, CHR 0xEF, CHR 0xBC, CHR 0x8C, CHR 0xE5, CHR 0xB7, CHR 0xB2, CHR 0xE8, CHR 0x87, CHR 0xAA, CHR 0xE5, CHR 0x8A, CHR 0xA8, CHR 0xE6, CHR 0x81, CHR 0xA2, CHR 0xE5, CHR 0xA4, CHR 0x8D, CHR 0xE5, CHR 0x88, CHR 0xB0, CHR 0xE6, CHR 0x93, CHR 0x8D, CHR 0xE4, CHR 0xBD, CHR 0x9C, CHR 0xE5, CHR 0x89, CHR 0x8D, CHR 0xE7, CHR 0x89, CHR 0x88, CHR 0xE6, CHR 0x9C, CHR 0xAC] \<noteq> []" using R(2) by (auto simp: trim_space_empty list_all_iff)
  consider (failed) e b p where "r = failedDeploymentResult d e b p" "names_previous d p" "e \<noteq> []"
      "validAgentDeploymentErrorKind e False" "\<not> (b \<and> e = ''rollback_failed'')"
    | (ok) c t where "r = deployed s d c (sk_Label s @ t @ dd_ReleaseLabel d @ healthy_text)" "names_previous d (sr_ID c)"
      "t \<in> set deployed_texts"
    using assms(1) unfolding answer_shape_def by blast
  then show ?thesis
  proof cases
    case failed
    have k: "validDeploymentErrorKind e False" using failed(4) by (simp add: validAgentDeploymentErrorKind_def validDeploymentErrorKind_def)
    have "decodeDeploymentExecutionResult (Some r) d = Inr r" using failed(2,3,5) R(1) k
      unfolding decodeDeploymentExecutionResult_def failed(1) failedDeploymentResult_def
      by (auto simp: names_previous_def short_text_def same_control containsControl_def andThen_ok guard_def)
    moreover have "validateAgentDeploymentResult r d = Inr ()" using failed(2-5) R(1) rb
      unfolding validateAgentDeploymentResult_def failed(1) failedDeploymentResult_def hub_patterns
      by (auto simp: names_previous_def short_text_def same_control containsControl_def andThen_ok)
    ultimately show ?thesis ..
  next
    case ok
    have "decodeDeploymentExecutionResult (Some r) d = Inr r" using ok(2) sum[OF ok(3)] key
      unfolding decodeDeploymentExecutionResult_def ok(1) deployed_def
      by (auto simp: names_previous_def short_text_def same_control validDeploymentErrorKind_def andThen_ok)
    moreover have "validateAgentDeploymentResult r d = Inr ()" using ok(2) sum[OF ok(3)] key
      unfolding validateAgentDeploymentResult_def ok(1) deployed_def hub_patterns
      by (auto simp: names_previous_def short_text_def same_control validAgentDeploymentErrorKind_def andThen_ok)
    ultimately show ?thesis ..
  qed
qed

lemma answer_accepted:
  assumes policy: "validateDeploymentPolicy parse_url p = Inr ()" "dp_Stacks p = Some stacks" "policy_texts stacks"
    and laws: "json_laws env" "stamp_laws env"
    and run: "ExecutePolicyDeployment env fuel stacks unsafe requestID (files, h) = Some (Inr (r, files', h'))"
    and published: "loadDeploymentStates env (\<lambda>k. Inr (files k)) stacks = Inr states"
      "findDeploymentDefinition (deploymentDefinitions stacks states) requestID = Some d"
  shows "decodeDeploymentExecutionResult (Some r) d = Inr r \<and>
    deployment_Execute (\<lambda>_. case deployment_status (Inr r) of (status, body) \<Rightarrow> Answer status body) d = Inr r"
proof -
  from run published obtain s where s: "findDeploymentStack stacks (dd_StackKey d) = Some s"
    and ran: "r = failedDeploymentResult d ''preflight_failed'' False (dd_CurrentReleaseID d) \<or>
      (\<exists>w. executeApprovedDeployment env fuel s d (state_of states (sk_Key s)) (files (sk_Key s), h) = Some (r, w))"
    unfolding ExecutePolicyDeployment_def by (auto split: option.splits if_splits)
  note c = chosen_stack[OF policy laws published s]
  have texts: "policy_texts [s]" using policy(3) c(1) by (auto simp: policy_texts_def list_all_iff)
  have st: "case states (sk_Key s) of None \<Rightarrow> True | Some st \<Rightarrow> state_ok env s st"
    using c(5,6) by (auto simp: executable_def state_of_def split: option.splits)
  note off = offered[OF c(3) texts c(4) st]
  have cur: "dt_Current (state_of states (sk_Key s)) = no_release \<or> release_ok (dt_Current (state_of states (sk_Key s)))"
    using st state_ok_releases(1) by (auto simp: state_of_def no_state_def split: option.splits)
  have "names_previous d (dd_CurrentReleaseID d)"
    using cur off(3) by (auto simp: names_previous_def no_release_def release_ok_iff)
  then have "answer_shape s d r"
    using ran deployment_shape[OF _ cur off(3)] failed_shape[of d _ "''preflight_failed''"] by auto
  moreover have "short_text 80 (sk_Label s)" "trim_space (sk_Label s) \<noteq> []"
    using stack_facts(2-4)[OF c(3)] texts by (simp_all add: short_text_def policy_texts_def same_control)
  moreover have "short_text 80 (dd_ReleaseLabel d)"
    using off(2) by (simp add: release_ok_iff deployment_target_def short_text_def same_control)
  ultimately have "decodeDeploymentExecutionResult (Some r) d = Inr r \<and> validateAgentDeploymentResult r d = Inr ()"
    by (intro answer_valid[OF _ off(1)])
  then show ?thesis using published_valid_deployment(2)[OF c(3) texts c(4) st]
    by (simp add: deployment_Execute_def deployment_status_def)
qed

text \<open>C28. Whatever the executor answers for a published deployment, success, failure or automatic
  rollback, the unprivileged Agent and the Hub accept it and the Hub sees exactly that answer.\<close>

theorem executed_deployment_accepted:
  assumes policy: "validateDeploymentPolicy parse_url p = Inr ()" "dp_Stacks p = Some stacks" "policy_texts stacks"
    and laws: "json_laws env" "stamp_laws env"
    and run: "ExecutePolicyDeployment env fuel stacks unsafe requestID (files, h) = Some (Inr (r, files', h'))"
    and published: "loadDeploymentStates env (\<lambda>k. Inr (files k)) stacks = Inr states"
      "findDeploymentDefinition (deploymentDefinitions stacks states) requestID = Some d"
  shows "decodeDeploymentExecutionResult (Some r) d = Inr r \<and>
    deployment_Execute (\<lambda>_. case deployment_status (Inr r) of (status, body) \<Rightarrow> Answer status body) d = Inr r"
  by (rule answer_accepted[OF assms])

section \<open>Concrete answers\<close>


theorem executed_deployment_accepted_witness:
  "\<exists>r. deployment_Execute (\<lambda>_. Answer 200 (Some r)) sample_offer = Inr r \<and> de_OK r"
proof -
  obtain content where run: "ExecutePolicyDeployment (sample_env ''healthy'') (Suc 0) [sample_stack] (\<lambda>_. False)
      ''deploy:web:v2'' (Map.empty, ()) = Some (Inr (deployed sample_stack sample_offer sample_external
        (sk_Label sample_stack @ deployed_text @ dd_ReleaseLabel sample_offer @ healthy_text), [''web'' \<mapsto> content], ()))"
    by (rule sample_deployed)
  have l: "loadDeploymentStates (sample_env ''healthy'') (\<lambda>k. Inr (Map.empty k)) [sample_stack] = Inr Map.empty" by simp
  from executed_deployment_accepted[OF sample_stacks_ok(1,3,4) sample_laws run l sample_found] show ?thesis
    by (auto simp: deployment_status_def)
qed

end
