(* ===== verification/Operation_Handlers.thy ===== *)
theory Operation_Handlers
  imports Mem_Operations Deployment_Client
begin

text \<open>
  The Hub's request handlers for actions and deployments
  (\<^verbatim>\<open>internal/hub/operation_handlers.go\<close>, \<^verbatim>\<open>internal/hub/deployment_handlers.go\<close>): a request is checked,
  the Agent's list is fetched and checked, the exact confirmation is compared, the fleet-wide lock is
  taken, the operation is recorded as requested and running, and only then the Agent is asked
  to execute; the result finishes the operation. The handlers are clients of the locale
  \<open>operation_store\<close>. A handler returns its reply, the store, and the requests it has sent to Agents.
  Clock readings, the random bytes of an id and the answers of the Agents are parameters.
\<close>

section \<open>Requests\<close>

record action_input =
  ai_AgentID :: string
  ai_ActionID :: string
  ai_Confirmation :: string

record deployment_input =
  di_AgentID :: string
  di_DeploymentID :: string
  di_Confirmation :: string

datatype 'i body = BodyTooLarge | BadJSON | Body 'i

record 'i request =
  rq_Method :: string
  rq_RawQuery :: string
  rq_ContentType :: string
  rq_Body :: "'i body"

datatype 'a reply = Refused nat string | Reply nat 'a

definition maxAgentIDBytes :: nat where "maxAgentIDBytes = 128"

definition json_required :: string where
  "json_required = ''Content-Type '' @ [CHR 0xE5, CHR 0xBF, CHR 0x85, CHR 0xE9, CHR 0xA1, CHR 0xBB, CHR 0xE6, CHR 0x98, CHR 0xAF] @ '' application/json''"

definition hasJSONContentType :: "string \<Rightarrow> bool" where
  "hasJSONContentType contentType =
     (let main = (case cut (CHR '';'') contentType of None \<Rightarrow> contentType | Some (a, _) \<Rightarrow> a)
      in equal_fold_ascii (trim_space main) ''application/json'')"

text \<open>The parsed query of a request: every key once, with its values in order. \<open>exactQueryValue\<close> is
  \<open>None\<close> where the source's second result is false.\<close>

type_synonym query = "(string \<times> string list) list"

definition query_values :: "query \<Rightarrow> string \<Rightarrow> string list" where
  "query_values q k = (case map_of q k of None \<Rightarrow> [] | Some vs \<Rightarrow> vs)"

definition query_get :: "query \<Rightarrow> string \<Rightarrow> string" where
  "query_get q k = (case query_values q k of [] \<Rightarrow> [] | v # _ \<Rightarrow> v)"

definition queryKeysAllowed :: "query \<Rightarrow> string list \<Rightarrow> bool" where
  "queryKeysAllowed q allowed = list_all (\<lambda>(k, _). k \<in> set allowed) q"

definition exactQueryValue :: "query \<Rightarrow> string \<Rightarrow> bool \<Rightarrow> string option" where
  "exactQueryValue q k required =
     (if \<not> queryKeysAllowed q [k] then None
      else let values = query_values q k in
        if length values > 1 \<or> (required \<and> length values \<noteq> 1) then None
        else case values of
            [] \<Rightarrow> if required then None else Some []
          | v # _ \<Rightarrow> if v \<noteq> [] \<or> \<not> required then Some v else None)"

text \<open>The checks both POST handlers begin with.\<close>

definition posted_input :: "'i request \<Rightarrow> (nat \<times> string) + 'i" where
  "posted_input rq =
     andThen (guard (405, ''POST'') (rq_Method rq \<noteq> ''POST''))
     (\<lambda>_. andThen (guard (400, ''query_not_allowed'') (rq_RawQuery rq \<noteq> []))
     (\<lambda>_. andThen (guard (415, json_required) (\<not> hasJSONContentType (rq_ContentType rq)))
     (\<lambda>_. case rq_Body rq of
        BodyTooLarge \<Rightarrow> Inl (413, ''body_too_large'')
      | BadJSON \<Rightarrow> Inl (400, ''bad_json'')
      | Body input \<Rightarrow> Inr input)))"

definition agentConfig :: "agent_config list \<Rightarrow> string \<Rightarrow> agent_config option" where
  "agentConfig agents k = find (\<lambda>a. ac_ID a = k) agents"

definition findAgentAction :: "action_definition list \<Rightarrow> string \<Rightarrow> action_definition option" where
  "findAgentAction ds k = find (\<lambda>d. ad_ID d = k) ds"

definition findAgentDeployment :: "deployment_definition list \<Rightarrow> string \<Rightarrow> deployment_definition option" where
  "findAgentDeployment ds k = find (\<lambda>d. dd_ID d = k) ds"

definition operationKind :: "action_kind \<Rightarrow> operation_kind" where
  "operationKind k =
     (if k = ActionStart then OperationStart else if k = ActionStop then OperationStop
      else if k = ActionRestart then OperationRestart else if k = ActionLogs then OperationLogs else [])"

definition deploymentOperationKind :: "deployment_kind \<Rightarrow> operation_kind" where
  "deploymentOperationKind k = (if k = DeploymentRollback then OperationRollback else OperationDeploy)"

definition hex_byte :: "nat \<Rightarrow> string" where
  "hex_byte b = [hex_char (b div 16), hex_char (b mod 16)]"

text \<open>\<open>random\<close> is the sixteen random bytes, \<open>None\<close> when there are none.\<close>

definition newOperationID :: "nat list option \<Rightarrow> string option" where
  "newOperationID random = map_option (\<lambda>bs. ''op_'' @ concat (map hex_byte bs)) random"

text \<open>What a handler reads from its server: the configured Agents, the requester of the session, the
  random bytes and its successive clock readings.\<close>

record handler_env =
  he_Agents :: "agent_config list"
  he_Requester :: string
  he_Random :: "nat list option"
  he_Now :: "nat \<Rightarrow> time"

record 's audit_ops =
  au_Create :: "operation \<Rightarrow> 's \<Rightarrow> go_error + 's"
  au_Start :: "'s start_op"
  au_Finish :: "'s finish_op"

definition not_before :: "time \<Rightarrow> time \<Rightarrow> time" where
  "not_before t earliest = (if t < earliest then earliest else t)"

section \<open>Actions\<close>

record action_reply =
  rp_Operation :: operation
  rp_ErrorKind :: string
  rp_Result :: "action_result option"

definition action_operation :: "handler_env \<Rightarrow> string \<Rightarrow> agent_config \<Rightarrow> action_definition \<Rightarrow> operation" where
  "action_operation env operationID a d =
     \<lparr>op_ID = operationID, op_HostID = ac_ID a, op_WorkloadKey = ad_TargetKey d, op_Kind = operationKind (ad_Kind d),
      op_State = OperationRequested, op_RequestedBy = he_Requester env, op_RequestedAt = he_Now env 0,
      op_StartedAt = None, op_FinishedAt = None, op_ResultSummary = [], op_Error = [], op_TargetImage = [],
      op_DeploymentID = [], op_TargetReleaseID = [], op_BeforeReleaseID = [], op_AfterReleaseID = []\<rparr>"

definition checked_action :: "action_definition \<Rightarrow> go_error + action_result \<Rightarrow> go_error + action_result" where
  "checked_action d answer = andThen answer
     (\<lambda>r. if validateAgentActionResult r d \<noteq> Inr () then Inl ''agent_invalid_response'' else Inr r)"

definition action_outcome :: "go_error + action_result \<Rightarrow> operation_state \<times> string \<times> string" where
  "action_outcome result = (case result of
       Inl e \<Rightarrow> (OperationFailed, [], e)
     | Inr r \<Rightarrow> if \<not> ar_OK r then (OperationFailed, ar_Summary r, ar_ErrorKind r)
               else (OperationSucceeded, ar_Summary r, []))"

definition finish_time :: "handler_env \<Rightarrow> nat \<Rightarrow> operation \<Rightarrow> time" where
  "finish_time env n running = (case op_StartedAt running of
       None \<Rightarrow> he_Now env n | Some started \<Rightarrow> not_before (he_Now env n) started)"

definition action_answer :: "go_error + action_result \<Rightarrow> operation \<Rightarrow> string \<Rightarrow> action_reply reply" where
  "action_answer result finished errorKind = (case result of
       Inl _ \<Rightarrow> Reply 502 \<lparr>rp_Operation = finished, rp_ErrorKind = errorKind, rp_Result = None\<rparr>
     | Inr r \<Rightarrow> Reply 200 \<lparr>rp_Operation = finished, rp_ErrorKind = errorKind, rp_Result = Some r\<rparr>)"

text \<open>The part of \<^verbatim>\<open>executeAction\<close> that holds the lock.\<close>

definition persistence_failed :: "'a reply" where
  "persistence_failed = Refused 500 ''operation_persistence_failed''"

definition run_action ::
  "'s audit_ops \<Rightarrow> handler_env \<Rightarrow> (agent_config \<Rightarrow> action_definition \<Rightarrow> go_error + action_result)
   \<Rightarrow> agent_config \<Rightarrow> action_definition \<Rightarrow> 's \<Rightarrow> action_reply reply \<times> 's \<times> (agent_config \<times> action_definition) list" where
  "run_action store env execute a d s = (case newOperationID (he_Random env) of
       None \<Rightarrow> (Refused 500 ''operation_id_unavailable'', s, [])
     | Some operationID \<Rightarrow>
       (case au_Create store (action_operation env operationID a d) s of
          Inl _ \<Rightarrow> (persistence_failed, s, [])
        | Inr s1 \<Rightarrow>
          (case au_Start store operationID (not_before (he_Now env 1) (he_Now env 0)) s1 of
             Inl _ \<Rightarrow> (persistence_failed, s1, [])
           | Inr (None, s2) \<Rightarrow> (persistence_failed, s2, [])
           | Inr (Some running, s2) \<Rightarrow>
             (let result = checked_action d (execute a d);
                  (st, summary, errorKind) = action_outcome result
              in case au_Finish store (op_ID running) st (finish_time env 2 running) summary errorKind [] [] s2 of
                   Inl _ \<Rightarrow> (persistence_failed, s2, [(a, d)])
                 | Inr (None, s3) \<Rightarrow> (persistence_failed, s3, [(a, d)])
                 | Inr (Some finished, s3) \<Rightarrow> (action_answer result finished errorKind, s3, [(a, d)])))))"

definition valid_action_input :: "action_input \<Rightarrow> bool" where
  "valid_action_input i = (\<not> (
     ai_AgentID i = [] \<or> ai_AgentID i \<noteq> trim_space (ai_AgentID i) \<or> length (ai_AgentID i) > maxAgentIDBytes \<or>
     ai_ActionID i = [] \<or> ai_ActionID i \<noteq> trim_space (ai_ActionID i) \<or> length (ai_ActionID i) > 320 \<or>
     length (ai_Confirmation i) > 512))"

text \<open>The part before the lock: the Agent and the approved action, or the refusal.\<close>

definition choose_action ::
  "handler_env \<Rightarrow> (agent_config \<Rightarrow> go_error + actions_response) \<Rightarrow> action_input request
   \<Rightarrow> (nat \<times> string) + agent_config \<times> action_definition" where
  "choose_action env lst rq =
     andThen (posted_input rq)
     (\<lambda>i. andThen (guard (400, ''invalid_action_request'') (\<not> valid_action_input i))
     (\<lambda>_. case agentConfig (he_Agents env) (ai_AgentID i) of
        None \<Rightarrow> Inl (404, ''unknown_agent'')
      | Some a \<Rightarrow> (case lst a of
          Inl e \<Rightarrow> Inl (502, e)
        | Inr response \<Rightarrow>
            andThen (guard (502, ''agent_invalid_response'') (validateAgentActions response \<noteq> Inr ()))
            (\<lambda>_. case findAgentAction (case as_Actions response of None \<Rightarrow> [] | Some ds \<Rightarrow> ds) (ai_ActionID i) of
               None \<Rightarrow> Inl (404, ''action_not_approved'')
             | Some d \<Rightarrow> andThen (guard (422, ''confirmation_mismatch'') (ai_Confirmation i \<noteq> ad_Confirmation d))
                 (\<lambda>_. Inr (a, d))))))"

definition executeAction ::
  "'s audit_ops \<Rightarrow> handler_env \<Rightarrow> (agent_config \<Rightarrow> go_error + actions_response)
   \<Rightarrow> (agent_config \<Rightarrow> action_definition \<Rightarrow> go_error + action_result)
   \<Rightarrow> action_input request \<Rightarrow> bool \<Rightarrow> 's \<Rightarrow> action_reply reply \<times> 's \<times> (agent_config \<times> action_definition) list" where
  "executeAction store env lst execute rq locked s = (case choose_action env lst rq of
       Inl (code, e) \<Rightarrow> (Refused code e, s, [])
     | Inr (a, d) \<Rightarrow> if locked then (Refused 409 ''action_in_progress'', s, [])
         else run_action store env execute a d s)"

text \<open>\<^verbatim>\<open>agentActions\<close>: the list of one Agent.\<close>

definition agentActions ::
  "agent_config list \<Rightarrow> (agent_config \<Rightarrow> go_error + actions_response) \<Rightarrow> string \<Rightarrow> query
   \<Rightarrow> (agent_config \<times> actions_response) reply" where
  "agentActions agents lst method q =
     (if method \<noteq> ''GET'' then Refused 405 ''GET''
      else case exactQueryValue q ''agent'' True of None \<Rightarrow> Refused 400 ''invalid agent''
      | Some k \<Rightarrow> if length k > maxAgentIDBytes then Refused 400 ''invalid agent''
         else (case agentConfig agents k of
             None \<Rightarrow> Refused 404 ''unknown agent''
           | Some a \<Rightarrow> (case lst a of
               Inl e \<Rightarrow> Refused 502 e
             | Inr response \<Rightarrow> if validateAgentActions response \<noteq> Inr () then Refused 502 ''agent_invalid_response''
                 else Reply 200 (a, response))))"

section \<open>Deployments\<close>

definition deployment_operation :: "handler_env \<Rightarrow> string \<Rightarrow> agent_config \<Rightarrow> deployment_definition \<Rightarrow> operation" where
  "deployment_operation env operationID a d =
     \<lparr>op_ID = operationID, op_HostID = ac_ID a, op_WorkloadKey = dd_StackKey d, op_Kind = deploymentOperationKind (dd_Kind d),
      op_State = OperationRequested, op_RequestedBy = he_Requester env, op_RequestedAt = he_Now env 0,
      op_StartedAt = None, op_FinishedAt = None, op_ResultSummary = [], op_Error = [], op_TargetImage = dd_Image d,
      op_DeploymentID = dd_ID d, op_TargetReleaseID = dd_ReleaseID d, op_BeforeReleaseID = dd_CurrentReleaseID d,
      op_AfterReleaseID = []\<rparr>"

definition valid_deployment_input :: "deployment_input \<Rightarrow> bool" where
  "valid_deployment_input i = (\<not> (
     di_AgentID i = [] \<or> di_AgentID i \<noteq> trim_space (di_AgentID i) \<or> length (di_AgentID i) > maxAgentIDBytes \<or>
     di_DeploymentID i = [] \<or> di_DeploymentID i \<noteq> trim_space (di_DeploymentID i) \<or> length (di_DeploymentID i) > 256 \<or>
     length (di_Confirmation i) > 512))"

definition choose_deployment ::
  "handler_env \<Rightarrow> (agent_config \<Rightarrow> go_error + deployments_response) \<Rightarrow> deployment_input request
   \<Rightarrow> (nat \<times> string) + agent_config \<times> deployment_definition" where
  "choose_deployment env lst rq =
     andThen (posted_input rq)
     (\<lambda>i. andThen (guard (400, ''invalid_deployment_request'') (\<not> valid_deployment_input i))
     (\<lambda>_. case agentConfig (he_Agents env) (di_AgentID i) of
        None \<Rightarrow> Inl (404, ''unknown_agent'')
      | Some a \<Rightarrow> (case lst a of
          Inl e \<Rightarrow> Inl (502, e)
        | Inr response \<Rightarrow>
            andThen (guard (502, ''agent_invalid_response'') (validateAgentDeployments response \<noteq> Inr ()))
            (\<lambda>_. case findAgentDeployment (case ds_Deployments response of None \<Rightarrow> [] | Some ds \<Rightarrow> ds) (di_DeploymentID i) of
               None \<Rightarrow> Inl (404, ''deployment_not_approved'')
             | Some d \<Rightarrow> andThen (guard (422, ''confirmation_mismatch'') (di_Confirmation i \<noteq> dd_Confirmation d))
                 (\<lambda>_. Inr (a, d))))))"

text \<open>A deployment is accepted before it is executed: the handler hands the lock and the running
  operation to a background finalizer, the \<open>job\<close>.\<close>

type_synonym job = "agent_config \<times> deployment_definition \<times> operation"

definition executeDeployment ::
  "'s audit_ops \<Rightarrow> handler_env \<Rightarrow> (agent_config \<Rightarrow> go_error + deployments_response)
   \<Rightarrow> deployment_input request \<Rightarrow> bool \<Rightarrow> 's \<Rightarrow> operation reply \<times> 's \<times> job option" where
  "executeDeployment store env lst rq locked s = (case choose_deployment env lst rq of
       Inl (code, e) \<Rightarrow> (Refused code e, s, None)
     | Inr (a, d) \<Rightarrow> if locked then (Refused 409 ''action_in_progress'', s, None)
         else (case newOperationID (he_Random env) of
             None \<Rightarrow> (Refused 500 ''operation_id_unavailable'', s, None)
           | Some operationID \<Rightarrow>
             (case au_Create store (deployment_operation env operationID a d) s of
                Inl _ \<Rightarrow> (persistence_failed, s, None)
              | Inr s1 \<Rightarrow> (case au_Start store operationID (not_before (he_Now env 1) (he_Now env 0)) s1 of
                  Inl _ \<Rightarrow> (persistence_failed, s1, None)
                | Inr (None, s2) \<Rightarrow> (persistence_failed, s2, None)
                | Inr (Some running, s2) \<Rightarrow> (Reply 202 running, s2, Some (a, d, running))))))"

text \<open>The result the finalizer works with, and the previous release it was told of: a client error
  carries no result, an invalid result is dropped but its previous release is still read.\<close>

definition checked_deployment ::
  "deployment_definition \<Rightarrow> go_error + deployment_result \<Rightarrow> (go_error + deployment_result) \<times> string" where
  "checked_deployment d answer = (case answer of
       Inl e \<Rightarrow> (Inl e, [])
     | Inr r \<Rightarrow> (if validateAgentDeploymentResult r d \<noteq> Inr () then Inl ''agent_invalid_response'' else Inr r,
         de_PreviousReleaseID r))"

text \<open>State, summary, error kind and the release that runs afterwards.\<close>

definition deployment_outcome :: "go_error + deployment_result \<Rightarrow> operation_state \<times> string \<times> string \<times> string" where
  "deployment_outcome result = (case result of
       Inl e \<Rightarrow> (OperationFailed, [], e, [])
     | Inr r \<Rightarrow>
         if \<not> de_OK r \<and> de_RollbackPerformed r
         then (OperationRolledBack, de_Summary r, de_ErrorKind r, de_PreviousReleaseID r)
         else if \<not> de_OK r then (OperationFailed, de_Summary r, de_ErrorKind r, [])
         else (OperationSucceeded, de_Summary r, [], de_ReleaseID r))"

definition finishDeploymentOperation ::
  "'s audit_ops \<Rightarrow> handler_env \<Rightarrow> (agent_config \<Rightarrow> deployment_definition \<Rightarrow> go_error + deployment_result)
   \<Rightarrow> job \<Rightarrow> 's \<Rightarrow> 's" where
  "finishDeploymentOperation store env execute j s = (case j of (a, d, running) \<Rightarrow>
     (let (result, confirmedBefore) = checked_deployment d (execute a d);
          (st, summary, errorKind, afterReleaseID) = deployment_outcome result
      in case au_Finish store (op_ID running) st (finish_time env 2 running) summary errorKind afterReleaseID confirmedBefore s of
           Inl _ \<Rightarrow> s
         | Inr (_, s') \<Rightarrow> s'))"

definition agentDeployments ::
  "agent_config list \<Rightarrow> (agent_config \<Rightarrow> go_error + deployments_response) \<Rightarrow> string \<Rightarrow> query
   \<Rightarrow> (agent_config \<times> deployments_response) reply" where
  "agentDeployments agents lst method q =
     (if method \<noteq> ''GET'' then Refused 405 ''GET''
      else case exactQueryValue q ''agent'' True of None \<Rightarrow> Refused 400 ''invalid agent''
      | Some k \<Rightarrow> if length k > maxAgentIDBytes then Refused 400 ''invalid agent''
         else (case agentConfig agents k of
             None \<Rightarrow> Refused 404 ''unknown agent''
           | Some a \<Rightarrow> (case lst a of
               Inl e \<Rightarrow> Refused 502 e
             | Inr response \<Rightarrow> if validateAgentDeployments response \<noteq> Inr () then Refused 502 ''agent_invalid_response''
                 else Reply 200 (a, response))))"

section \<open>The audit list\<close>

definition boundedQueryLimit :: "query \<Rightarrow> int \<Rightarrow> int \<Rightarrow> int option" where
  "boundedQueryLimit q defaultLimit maximum =
     (if query_get q ''limit'' = [] then Some defaultLimit
      else case atoi (query_get q ''limit'') of None \<Rightarrow> None
      | Some parsed \<Rightarrow> if parsed < 1 \<or> parsed > maximum then None else Some parsed)"

definition hasAgent :: "agent_config list \<Rightarrow> string \<Rightarrow> bool" where
  "hasAgent agents k = list_ex (\<lambda>a. ac_ID a = k) agents"

definition operations_handler ::
  "agent_config list \<Rightarrow> (host_id \<Rightarrow> int \<Rightarrow> go_error + operation list) \<Rightarrow> string \<Rightarrow> query \<Rightarrow> operation list reply" where
  "operations_handler agents stored method q =
     (if method \<noteq> ''GET'' then Refused 405 ''GET''
      else if \<not> queryKeysAllowed q [''agent'', ''limit''] then Refused 400 ''invalid_query''
      else let agentID = query_get q ''agent'' in
        if length (query_values q ''agent'') > 1 \<or> length (query_values q ''limit'') > 1 \<or> length agentID > maxAgentIDBytes
        then Refused 400 ''invalid_agent''
        else if agentID \<noteq> [] \<and> \<not> hasAgent agents agentID then Refused 404 ''unknown_agent''
        else (case boundedQueryLimit q 100 500 of
            None \<Rightarrow> Refused 400 ''operation limit must be between 1 and 500''
          | Some limit \<Rightarrow> (case stored agentID limit of
              Inl _ \<Rightarrow> persistence_failed
            | Inr ps \<Rightarrow> Reply 200 ps)))"

end
