(* ===== verification/Operation_Audit.thy ===== *)
theory Operation_Audit
  imports Operation_Handlers
begin

text \<open>
  What the request handlers make of the audit log: an Agent is asked to execute only after the
  operation has been recorded as running, and every such operation is finished with what the
  Agent answered; at most one operation is open at any time, and it belongs to the holder of
  the lock.
\<close>

section \<open>The operations the handlers record are valid\<close>

text \<open>What the handlers rely on: clocks past the zero time, sixteen random bytes, and summaries that are
  valid UTF-8 because they have been decoded from JSON.\<close>

definition env_ok :: "handler_env \<Rightarrow> bool" where
  "env_ok env = ((\<forall>n. 0 < he_Now env n) \<and>
     (case he_Random env of None \<Rightarrow> True | Some bs \<Rightarrow> length bs = 16 \<and> list_all (\<lambda>b. b < 256) bs))"

lemma hex_char_plain: "n < 16 \<Longrightarrow> plain_char (hex_char n)"
  by (auto simp: hex_char_def plain_char_def byte_def)

lemma operation_id_plain:
  assumes "env_ok env" "newOperationID (he_Random env) = Some k"
  shows "plain k" and "k \<noteq> []" and "trim_space k \<noteq> []"
proof -
  obtain bs where bs: "he_Random env = Some bs" "k = ''op_'' @ concat (map hex_byte bs)" "list_all (\<lambda>b. b < 256) bs"
    using assms by (auto simp: newOperationID_def env_ok_def)
  have "plain (hex_byte b)" if "b < 256" for b
    using that hex_char_plain[of "b div 16"] hex_char_plain[of "b mod 16"] by (simp add: hex_byte_def)
  then have "plain (concat (map hex_byte bs))" using bs(3) by (induction bs) auto
  then show p: "plain k" by (simp add: bs(2) plain_char_def byte_def)
  show "k \<noteq> []" by (simp add: bs(2))
  then show "trim_space k \<noteq> []" using plain_not_blank[OF p] by simp
qed

lemma started_fields [simp]:
  "op_ID (op_started t p) = op_ID p" "op_State (op_started t p) = OperationRunning" "op_StartedAt (op_started t p) = Some t"
  "op_RequestedAt (op_started t p) = op_RequestedAt p" "op_Kind (op_started t p) = op_Kind p"
  "op_HostID (op_started t p) = op_HostID p"
  by (simp_all add: op_started_def)

text \<open>When finishing a running operation gives a valid row.\<close>

lemma finished_valid:
  assumes v: "validateOperation p = Inr ()" and run: "op_State p = OperationRunning" "op_StartedAt p = Some t" "t \<le> u"
    and kind: "validateOperationKind (op_finished st u m e a b p) = Inr ()"
    and m: "short_text 240 m"
    and st: "st = OperationFailed \<and> validOperationErrorCategory e \<and> e \<noteq> [] \<or>
      st = OperationSucceeded \<and> e = [] \<and> trim_space m \<noteq> [] \<or>
      st = OperationRolledBack \<and> validOperationErrorCategory e \<and> e \<noteq> [] \<and> trim_space m \<noteq> []"
  shows "validateOperation (op_finished st u m e a b p) = Inr ()"
proof -
  have ts: "op_RequestedAt p \<noteq> 0" "op_RequestedAt p \<le> t"
    using v run(2) by (auto simp: validateOperation_ok validateOperationTimes_ok)
  have "validateOperationTimes (op_finished st u m e a b p) = Inr ()"
    using ts run(2,3) by (auto simp: validateOperationTimes_ok op_finished_def)
  moreover have "validateOperationState (op_finished st u m e a b p) = Inr ()"
    using st run(2) by (auto simp: validateOperationState_def op_finished_def)
  moreover have "op_ID (op_finished st u m e a b p) = op_ID p" "op_HostID (op_finished st u m e a b p) = op_HostID p"
    "op_RequestedBy (op_finished st u m e a b p) = op_RequestedBy p"
    "op_ResultSummary (op_finished st u m e a b p) = m" "op_Error (op_finished st u m e a b p) = e"
    by (simp_all add: op_finished_def)
  ultimately show ?thesis using v m st kind by (auto simp: validateOperation_ok short_text_def)
qed

lemma empty_text: "short_text n []"
  by (simp add: short_text_def ascii_eval containsControl_def)

lemma finish_time_after: "op_StartedAt p = Some t \<Longrightarrow> t \<le> finish_time env n p"
  by (simp add: finish_time_def not_before_def)

lemma finish_time_pos: "env_ok env \<Longrightarrow> op_StartedAt p = Some t \<Longrightarrow> 0 < t \<Longrightarrow> finish_time env n p \<noteq> 0"
  by (auto simp: finish_time_def not_before_def env_ok_def)

text \<open>What the checked answer of an Agent finishes an action with.\<close>

definition action_texts_ok :: "(agent_config \<Rightarrow> action_definition \<Rightarrow> go_error + action_result) \<Rightarrow> bool" where
  "action_texts_ok execute = (\<forall>a d. case execute a d of Inl e \<Rightarrow> e \<in> set client_categories | Inr r \<Rightarrow> valid_utf8 (ar_Summary r))"

lemma checked_action_cases:
  assumes "action_texts_ok execute"
  shows "case checked_action d (execute a d) of Inl e \<Rightarrow> e \<in> set client_categories
    | Inr r \<Rightarrow> execute a d = Inr r \<and> validateAgentActionResult r d = Inr () \<and> valid_utf8 (ar_Summary r)"
proof -
  have "''agent_invalid_response'' \<in> set client_categories" by (simp add: client_categories_def)
  moreover have "case execute a d of Inl e \<Rightarrow> e \<in> set client_categories | Inr r \<Rightarrow> valid_utf8 (ar_Summary r)"
    using assms by (simp add: action_texts_ok_def)
  ultimately show ?thesis by (cases "execute a d") (auto simp: checked_action_def)
qed

lemma client_category_nonempty: "e \<in> set client_categories \<Longrightarrow> e \<noteq> []"
  by (auto simp: client_categories_def)

lemma action_outcome_valid:
  assumes "action_texts_ok execute" "action_outcome (checked_action d (execute a d)) = (st, m, e)"
  shows "short_text 240 m" and "st \<in> set final_states" and
    "st = OperationFailed \<and> validOperationErrorCategory e \<and> e \<noteq> [] \<or> st = OperationSucceeded \<and> e = [] \<and> trim_space m \<noteq> []"
proof -
  have "short_text 240 m \<and> (st = OperationFailed \<and> validOperationErrorCategory e \<and> e \<noteq> [] \<or>
      st = OperationSucceeded \<and> e = [] \<and> trim_space m \<noteq> [])"
  proof (cases "checked_action d (execute a d)")
    case (Inl c)
    then have "c \<in> set client_categories" using checked_action_cases[OF assms(1), of a d] by simp
    then show ?thesis using assms(2) Inl empty_text client_category_valid client_category_nonempty
      by (auto simp: action_outcome_def)
  next
    case (Inr r)
    then have v: "validateAgentActionResult r d = Inr ()" "valid_utf8 (ar_Summary r)"
      using checked_action_cases[OF assms(1), of a d] by auto
    have c: "\<not> (trim_space (ar_Summary r) = [] \<and> ar_OK r)" "rune_count (ar_Summary r) \<le> 240" "\<not> containsControl (ar_Summary r)"
      "ar_OK r \<noteq> (ar_ErrorKind r \<noteq> [])" "validAgentActionErrorKind (ar_ErrorKind r) (ar_OK r)"
      using v(1) by (auto simp: validateAgentActionResult_def andThen_ok control_same not_less)
    show ?thesis using assms(2) c v(2) action_error_valid
      by (cases "ar_OK r") (auto simp: Inr action_outcome_def short_text_def)
  qed
  then show "short_text 240 m" "st \<in> set final_states"
    "st = OperationFailed \<and> validOperationErrorCategory e \<and> e \<noteq> [] \<or> st = OperationSucceeded \<and> e = [] \<and> trim_space m \<noteq> []"
    by (auto simp: final_states_def)
qed

section \<open>Actions\<close>

context operation_store
begin

definition store :: "'s audit_ops" where
  "store = \<lparr>au_Create = create, au_Start = start, au_Finish = finish\<rparr>"

lemma created_running:
  assumes "inv s" "create p s = Inr s1" "trim_space (op_ID p) \<noteq> []" "op_RequestedAt p \<le> t" "t \<noteq> 0"
  shows "\<exists>s2. start (op_ID p) t s1 = Inr (Some (op_started t p), s2) \<and> inv s2 \<and>
    lookup s2 = (lookup s)(op_ID p \<mapsto> op_started t p) \<and> validateOperation (op_started t p) = Inr () \<and>
    lookup s (op_ID p) = None"
proof -
  have c: "inv s1" "op_State p = OperationRequested" "lookup s (op_ID p) = None" "lookup s1 = (lookup s)(op_ID p \<mapsto> p)"
    using create_spec[OF assms(1,2)] by blast+
  have l: "lookup s1 (op_ID p) = Some p" unfolding c(4) by simp
  obtain s2 where s2: "start (op_ID p) t s1 = Inr (Some (op_started t p), s2)" "inv s2"
    "lookup s2 = (lookup s1)(op_ID p \<mapsto> op_started t p)"
    using start_some[OF c(1) l assms(3) c(2) assms(4,5)] by blast
  have "lookup s2 (op_ID p) = Some (op_started t p)" unfolding s2(3) by simp
  then have "validateOperation (op_started t p) = Inr ()" using lookup_valid[OF s2(2)] by blast
  moreover have "lookup s2 = (lookup s)(op_ID p \<mapsto> op_started t p)" unfolding s2(3) c(4) by simp
  ultimately show ?thesis using s2(1,2) c(3) by blast
qed

lemma run_action_audited:
  assumes i: "inv s" and env: "env_ok env" and texts: "action_texts_ok execute"
    and run: "run_action store env execute a d s = (reply, s', sent)"
  shows "inv s' \<and> (sent = [] \<and> lookup s' = lookup s \<and> (\<exists>code e. reply = Refused code e) \<or>
    (\<exists>k t u st m e. newOperationID (he_Random env) = Some k \<and> sent = [(a, d)] \<and> lookup s k = None \<and>
      action_outcome (checked_action d (execute a d)) = (st, m, e) \<and>
      lookup s' = (lookup s)(k \<mapsto> op_finished st u m e [] [] (op_started t (action_operation env k a d))) \<and>
      reply = action_answer (checked_action d (execute a d)) (op_finished st u m e [] [] (op_started t (action_operation env k a d))) e))"
proof (cases "newOperationID (he_Random env)")
  case None
  then show ?thesis using run i by (auto simp: run_action_def)
next
  case (Some k)
  let ?p = "action_operation env k a d"
  define t where "t = not_before (he_Now env 1) (he_Now env 0)"
  have pf: "op_ID ?p = k" "op_RequestedAt ?p = he_Now env 0" "op_Kind ?p = operationKind (ad_Kind d)" by (simp_all add: action_operation_def)
  have t: "he_Now env 0 \<le> t" "0 < t" using env by (auto simp: t_def not_before_def env_ok_def)
  show ?thesis
  proof (cases "create ?p s")
    case (Inl e)
    then show ?thesis using run i Some by (auto simp: run_action_def store_def persistence_failed_def)
  next
    case (Inr s1)
    obtain s2 where s2: "start k t s1 = Inr (Some (op_started t ?p), s2)" "inv s2"
      "lookup s2 = (lookup s)(k \<mapsto> op_started t ?p)" "validateOperation (op_started t ?p) = Inr ()" "lookup s k = None"
      using created_running[OF i Inr _ _ less_imp_neq[OF t(2), symmetric]] operation_id_plain(3)[OF env Some] t(1) unfolding pf by blast
    obtain st m e where o: "action_outcome (checked_action d (execute a d)) = (st, m, e)" by (metis prod_cases3)
    let ?q = "op_started t ?p" and ?u = "finish_time env 2 (op_started t ?p)"
    note O = action_outcome_valid[OF texts o]
    have "validateOperationKind (op_finished st ?u m e [] [] ?q) = validateOperationKind ?q"
      using running_fields[OF s2(4)] by (intro validateOperationKind_cong) (simp_all add: op_finished_def)
    then have v: "validateOperation (op_finished st ?u m e [] [] ?q) = Inr ()"
      using s2(4) O finish_time_after[of ?q t] by (intro finished_valid[where t = t]) (auto simp: validateOperation_ok)
    have l: "lookup s2 k = Some ?q" using s2(3) by simp
    obtain s3 where s3: "finish k st ?u m e [] [] s2 = Inr (Some (op_finished st ?u m e [] [] ?q), s3)" "inv s3"
      "lookup s3 = (lookup s2)(k \<mapsto> op_finished st ?u m e [] [] ?q)"
      using finish_some[OF s2(2) l operation_id_plain(3)[OF env Some] _ O(2) finish_time_pos[OF env _ t(2)] v] by auto
    have "run_action store env execute a d s =
      (action_answer (checked_action d (execute a d)) (op_finished st ?u m e [] [] ?q) e, s3, [(a, d)])"
      unfolding run_action_def Some t_def[symmetric] by (simp add: store_def Inr s2(1) o s3(1) pf)
    then have r: "reply = action_answer (checked_action d (execute a d)) (op_finished st ?u m e [] [] ?q) e" "s' = s3" "sent = [(a, d)]"
      using run by auto
    have "lookup s3 = (lookup s)(k \<mapsto> op_finished st ?u m e [] [] ?q)" using s3(3) s2(3) by simp
    then show ?thesis using r s3(2) s2(5) o Some by blast
  qed
qed

end

section \<open>Deployments\<close>

text \<open>What the deployment client promises of its answers.\<close>

definition deployment_answers_ok :: "(agent_config \<Rightarrow> deployment_definition \<Rightarrow> go_error + deployment_result) \<Rightarrow> bool" where
  "deployment_answers_ok execute = (\<forall>a d. case execute a d of
     Inl e \<Rightarrow> e \<in> set client_categories | Inr r \<Rightarrow> validateAgentDeploymentResult r d = Inr ())"

lemma client_answers_ok: "deployment_answers_ok (\<lambda>a d. deployment_Execute (post a) d)"
  unfolding deployment_answers_ok_def
proof (intro allI)
  fix a d
  show "case deployment_Execute (post a) d of Inl e \<Rightarrow> e \<in> set client_categories | Inr r \<Rightarrow> validateAgentDeploymentResult r d = Inr ()"
    using deployment_Execute_cases[where post = "post a" and d = d] by (auto split: sum.splits)
qed

lemma checked_deployment_ok:
  assumes "deployment_answers_ok execute"
  shows "checked_deployment d (execute a d) = (execute a d, case execute a d of Inl _ \<Rightarrow> [] | Inr r \<Rightarrow> de_PreviousReleaseID r)"
    and "case execute a d of Inl e \<Rightarrow> e \<in> set client_categories | Inr r \<Rightarrow> validateAgentDeploymentResult r d = Inr ()"
  using assms by (auto simp: deployment_answers_ok_def checked_deployment_def split: sum.splits)

lemma release_snapshot: "deploymentReleasePattern r \<Longrightarrow> validateOptionalReleaseSnapshot r 64 = Inr ()"
  using release_pattern_plain[of r] plain_control[of r] plain_no_blank_chars[of r]
  by (auto simp: validateOptionalReleaseSnapshot_def)

lemma deployment_error_valid:
  "validAgentDeploymentErrorKind e False \<Longrightarrow> validOperationErrorCategory e \<and> e \<noteq> []"
  by (auto simp: validAgentDeploymentErrorKind_def validOperationErrorCategory_def ascii_eval)

lemma deployment_outcome_valid:
  assumes v: "validateAgentDeploymentResult r d = Inr ()" and o: "deployment_outcome (Inr r) = (st, m, e, after)"
  shows "short_text 240 m" and "st \<in> set final_states"
    and "st = OperationFailed \<and> validOperationErrorCategory e \<and> e \<noteq> [] \<or>
      st = OperationSucceeded \<and> e = [] \<and> trim_space m \<noteq> [] \<or>
      st = OperationRolledBack \<and> validOperationErrorCategory e \<and> e \<noteq> [] \<and> trim_space m \<noteq> []"
    and "after = [] \<or> after = dd_ReleaseID d \<or> deploymentReleasePattern after"
proof -
  have c: "de_ReleaseID r = dd_ReleaseID d" "de_PreviousReleaseID r = [] \<or> deploymentReleasePattern (de_PreviousReleaseID r)"
    "de_OK r \<noteq> (de_ErrorKind r \<noteq> [])" "validAgentDeploymentErrorKind (de_ErrorKind r) (de_OK r)"
    "\<not> (de_OK r \<and> de_RollbackPerformed r)"
    "de_OK r \<or> de_RollbackPerformed r \<Longrightarrow> validDeploymentText (de_Summary r) 200"
    "de_Summary r = [] \<or> validDeploymentText (de_Summary r) 200"
    using v by (auto simp: validateAgentDeploymentResult_def andThen_ok hub_patterns split: if_splits)
  have t: "short_text 240 (de_Summary r)"
    using c(7) empty_text by (auto simp: hub_patterns short_text_def same_control)
  have ne: "de_OK r \<or> de_RollbackPerformed r \<Longrightarrow> trim_space (de_Summary r) \<noteq> []"
    using c(6) by (auto simp: hub_patterns)
  show "short_text 240 m" "st \<in> set final_states"
    "st = OperationFailed \<and> validOperationErrorCategory e \<and> e \<noteq> [] \<or>
      st = OperationSucceeded \<and> e = [] \<and> trim_space m \<noteq> [] \<or>
      st = OperationRolledBack \<and> validOperationErrorCategory e \<and> e \<noteq> [] \<and> trim_space m \<noteq> []"
    "after = [] \<or> after = dd_ReleaseID d \<or> deploymentReleasePattern after"
    using o c(1-5) t ne deployment_error_valid[of "de_ErrorKind r"]
    by (cases "de_OK r"; cases "de_RollbackPerformed r"; auto simp: deployment_outcome_def final_states_def)+
qed

text \<open>The operation a job runs: recorded from its definition, running since \<open>t\<close>.\<close>

definition job_operation :: "deployment_definition \<Rightarrow> operation \<Rightarrow> bool" where
  "job_operation d p = (op_State p = OperationRunning \<and> op_Kind p = deploymentOperationKind (dd_Kind d) \<and>
     op_WorkloadKey p = dd_StackKey d \<and> op_TargetImage p = dd_Image d \<and> op_DeploymentID p = dd_ID d \<and>
     op_TargetReleaseID p = dd_ReleaseID d \<and> op_BeforeReleaseID p = dd_CurrentReleaseID d \<and>
     trim_space (op_ID p) \<noteq> [] \<and> (case op_StartedAt p of None \<Rightarrow> False | Some t \<Rightarrow> 0 < t))"

lemma finished_deployment_valid:
  assumes v: "validateOperation p = Inr ()" and j: "job_operation d p" "op_StartedAt p = Some t" "t \<le> u"
    and m: "short_text 240 m" and a: "a = [] \<or> a = dd_ReleaseID d \<or> deploymentReleasePattern a"
    and b: "b = [] \<or> deploymentReleasePattern b"
    and st: "st = OperationFailed \<and> validOperationErrorCategory e \<and> e \<noteq> [] \<or>
      st = OperationSucceeded \<and> e = [] \<and> trim_space m \<noteq> [] \<or>
      st = OperationRolledBack \<and> validOperationErrorCategory e \<and> e \<noteq> [] \<and> trim_space m \<noteq> []"
  shows "validateOperation (op_finished st u m e a b p) = Inr ()"
proof (rule finished_valid[OF v _ j(2,3) _ m st])
  show "op_State p = OperationRunning" using j(1) by (simp add: job_operation_def)
  have k: "op_Kind p \<in> {OperationDeploy, OperationRollback}"
    using j(1) by (auto simp: job_operation_def deploymentOperationKind_def)
  have old: "validateOperationKind p = Inr ()" using v by (simp add: validateOperation_ok)
  have target: "validateOptionalReleaseSnapshot (dd_ReleaseID d) 64 = Inr ()"
    using old k j(1) by (auto simp: validateOperationKind_def andThen_ok job_operation_def)
  have none: "validateOptionalReleaseSnapshot [] 64 = Inr ()" by (simp add: validateOptionalReleaseSnapshot_def)
  have "validateOptionalReleaseSnapshot a 64 = Inr ()" using a target release_snapshot none by blast
  moreover have "validateOptionalReleaseSnapshot b 64 = Inr ()" using b release_snapshot none by blast
  ultimately show "validateOperationKind (op_finished st u m e a b p) = Inr ()"
    using old k by (auto simp: validateOperationKind_def op_finished_def andThen_ok)
qed

context operation_store
begin

lemma deployment_started:
  assumes i: "inv s" and env: "env_ok env"
    and run: "executeDeployment store env lst rq locked s = (reply, s', j)"
  shows "inv s' \<and> (j = None \<and> lookup s' = lookup s \<and> (\<exists>code e. reply = Refused code e) \<or>
    (\<exists>k t a d. \<not> locked \<and> choose_deployment env lst rq = Inr (a, d) \<and> lookup s k = None \<and>
      j = Some (a, d, op_started t (deployment_operation env k a d)) \<and>
      job_operation d (op_started t (deployment_operation env k a d)) \<and>
      op_ID (deployment_operation env k a d) = k \<and>
      lookup s' = (lookup s)(k \<mapsto> op_started t (deployment_operation env k a d)) \<and>
      reply = Reply 202 (op_started t (deployment_operation env k a d))))"
proof (cases "\<exists>a d k. choose_deployment env lst rq = Inr (a, d) \<and> \<not> locked \<and> newOperationID (he_Random env) = Some k")
  case False
  then show ?thesis using run i
    by (cases "choose_deployment env lst rq"; cases "newOperationID (he_Random env)")
      (auto simp: executeDeployment_def split: if_splits)
next
  case True
  then obtain a d k where c: "choose_deployment env lst rq = Inr (a, d)" "\<not> locked" "newOperationID (he_Random env) = Some k"
    by blast
  let ?p = "deployment_operation env k a d"
  define t where "t = not_before (he_Now env 1) (he_Now env 0)"
  have pf: "op_ID ?p = k" "op_RequestedAt ?p = he_Now env 0" by (simp_all add: deployment_operation_def)
  have t: "he_Now env 0 \<le> t" "0 < t" using env by (auto simp: t_def not_before_def env_ok_def)
  note R = run[unfolded executeDeployment_def c(1) sum.case prod.case if_not_P[OF c(2)] c(3) option.case t_def[symmetric]]
  show ?thesis
  proof (cases "create ?p s")
    case (Inl e)
    then show ?thesis using R i by (auto simp: store_def persistence_failed_def)
  next
    case (Inr s1)
    obtain s2 where s2: "start k t s1 = Inr (Some (op_started t ?p), s2)" "inv s2"
      "lookup s2 = (lookup s)(k \<mapsto> op_started t ?p)" "lookup s k = None"
      using created_running[OF i Inr _ _ less_imp_neq[OF t(2), symmetric]] operation_id_plain(3)[OF env c(3)] t(1) unfolding pf by blast
    have "job_operation d (op_started t ?p)"
      using t(2) operation_id_plain(3)[OF env c(3)]
      by (simp add: job_operation_def op_started_def deployment_operation_def)
    moreover have "reply = Reply 202 (op_started t ?p)" "s' = s2" "j = Some (a, d, op_started t ?p)"
      using R by (auto simp: store_def Inr s2(1))
    ultimately show ?thesis using s2 c pf by blast
  qed
qed

lemma deployment_finished:
  assumes i: "inv s" and p: "lookup s (op_ID p) = Some p" "job_operation d p" and env: "env_ok env"
    and answers: "deployment_answers_ok execute"
    and o: "deployment_outcome (execute a d) = (st, m, e, after)"
  shows "\<exists>u. inv (finishDeploymentOperation store env execute (a, d, p) s) \<and> st \<in> set final_states \<and>
    lookup (finishDeploymentOperation store env execute (a, d, p) s) =
      (lookup s)(op_ID p \<mapsto> op_finished st u m e after (case execute a d of Inl _ \<Rightarrow> [] | Inr r \<Rightarrow> de_PreviousReleaseID r) p)"
proof -
  define b where "b = (case execute a d of Inl _ \<Rightarrow> [] | Inr r \<Rightarrow> de_PreviousReleaseID r)"
  obtain t where t: "op_StartedAt p = Some t" "0 < t" using p(2) by (auto simp: job_operation_def split: option.splits)
  have st: "op_State p = OperationRunning" "trim_space (op_ID p) \<noteq> []" using p(2) by (auto simp: job_operation_def)
  have v: "validateOperation p = Inr ()" using lookup_valid[OF i p(1)] by blast
  have O: "short_text 240 m \<and> st \<in> set final_states \<and>
      (st = OperationFailed \<and> validOperationErrorCategory e \<and> e \<noteq> [] \<or>
       st = OperationSucceeded \<and> e = [] \<and> trim_space m \<noteq> [] \<or>
       st = OperationRolledBack \<and> validOperationErrorCategory e \<and> e \<noteq> [] \<and> trim_space m \<noteq> []) \<and>
      (after = [] \<or> after = dd_ReleaseID d \<or> deploymentReleasePattern after) \<and> (b = [] \<or> deploymentReleasePattern b)"
  proof (cases "execute a d")
    case (Inl c)
    then have "c \<in> set client_categories" using checked_deployment_ok(2)[OF answers, of d a] by simp
    then show ?thesis using o Inl empty_text client_category_valid client_category_nonempty
      by (auto simp: deployment_outcome_def b_def final_states_def)
  next
    case (Inr r)
    then have r: "validateAgentDeploymentResult r d = Inr ()" using checked_deployment_ok(2)[OF answers, of d a] by simp
    have "b = [] \<or> deploymentReleasePattern b"
      using r by (auto simp: b_def Inr validateAgentDeploymentResult_def andThen_ok hub_patterns)
    then show ?thesis using deployment_outcome_valid[OF r o[unfolded Inr]] by blast
  qed
  let ?u = "finish_time env 2 p"
  have "validateOperation (op_finished st ?u m e after b p) = Inr ()"
    using O finish_time_after[OF t(1)] by (intro finished_deployment_valid[OF v p(2) t(1)]) blast+
  from finish_some[OF i p(1) st(2,1) _ finish_time_pos[OF env t] this] O obtain s' where
    s': "finish (op_ID p) st ?u m e after b s = Inr (Some (op_finished st ?u m e after b p), s')" "inv s'"
      "lookup s' = (lookup s)(op_ID p \<mapsto> op_finished st ?u m e after b p)" by blast
  have "finishDeploymentOperation store env execute (a, d, p) s = s'"
    unfolding finishDeploymentOperation_def prod.case checked_deployment_ok(1)[OF answers] b_def[symmetric] Let_def o
    by (simp add: store_def s'(1))
  then show ?thesis using s' O unfolding b_def by blast
qed

end

section \<open>The handlers over SQLite\<close>

definition sqlite_audit :: "host_row list \<Rightarrow> operation list audit_ops" where
  "sqlite_audit hosts = \<lparr>au_Create = CreateOperation hosts, au_Start = StartOperation, au_Finish = FinishOperation\<rparr>"

lemma sqlite_store: "sqlite_operations.store hosts = sqlite_audit hosts"
  by (simp add: sqlite_operations.store_def sqlite_audit_def)

lemmas sqlite_run_action = sqlite_operations.run_action_audited[unfolded sqlite_store]
  and sqlite_deployment_started = sqlite_operations.deployment_started[unfolded sqlite_store]
  and sqlite_deployment_finished = sqlite_operations.deployment_finished[unfolded sqlite_store]

lemma posted_body: "posted_input rq = Inr i \<Longrightarrow> rq_Body rq = Body i"
  by (auto simp: posted_input_def andThen_ok split: body.splits)

lemma chosen_action:
  assumes "choose_action env lst rq = Inr (a, d)"
  obtains i ds where "rq_Body rq = Body i" "ai_Confirmation i = ad_Confirmation d" "a \<in> set (he_Agents env)"
    "ac_ID a = ai_AgentID i" "lst a = Inr \<lparr>as_Actions = Some ds\<rparr>" "d \<in> set ds" "ad_ID d = ai_ActionID i"
    "validateAgentActionDefinition d = Inr ()"
proof -
  obtain i where i: "posted_input rq = Inr i" using assms by (auto simp: choose_action_def andThen_ok)
  obtain response where r: "agentConfig (he_Agents env) (ai_AgentID i) = Some a" "lst a = Inr response"
    "validateAgentActions response = Inr ()"
    "findAgentAction (case as_Actions response of None \<Rightarrow> [] | Some ds \<Rightarrow> ds) (ai_ActionID i) = Some d"
    "ai_Confirmation i = ad_Confirmation d"
    using assms by (auto simp: choose_action_def i andThen_ok split: option.splits sum.splits)
  obtain ds where ds: "as_Actions response = Some ds" using r(3) by (auto simp: validateAgentActions_def split: option.splits)
  have "response = \<lparr>as_Actions = Some ds\<rparr>" using ds by simp
  moreover have "d \<in> set ds" "ad_ID d = ai_ActionID i" using r(4) ds by (auto simp: findAgentAction_def dest: find_SomeD)
  moreover have "validateAgentActionDefinition d = Inr ()"
    using r(3) ds calculation(2) by (auto simp: validateAgentActions_def andThen_ok check_distinct_ok)
  moreover have "a \<in> set (he_Agents env)" "ac_ID a = ai_AgentID i" using r(1) by (auto simp: agentConfig_def dest: find_SomeD)
  ultimately show ?thesis using that[of i ds] posted_body[OF i] r(2,5) by blast
qed

lemma action_answered:
  assumes ok: "operations_ok hosts rows" and env: "env_ok env" and texts: "action_texts_ok execute"
    and run: "executeAction (sqlite_audit hosts) env lst execute rq locked rows = (reply, rows', sent)"
  shows "operations_ok hosts rows' \<and>
    (sent = [] \<and> op_find rows' = op_find rows \<and> (\<exists>code e. reply = Refused code e) \<or>
     (\<exists>a d i ds k t u st m e. sent = [(a, d)] \<and> \<not> locked \<and> rq_Body rq = Body i \<and>
       ai_Confirmation i = ad_Confirmation d \<and> ad_ID d = ai_ActionID i \<and> ac_ID a = ai_AgentID i \<and>
       a \<in> set (he_Agents env) \<and> lst a = Inr \<lparr>as_Actions = Some ds\<rparr> \<and> d \<in> set ds \<and>
       action_outcome (checked_action d (execute a d)) = (st, m, e) \<and> op_find rows k = None \<and>
       op_find rows' = (op_find rows)(k \<mapsto> op_finished st u m e [] [] (op_started t (action_operation env k a d))) \<and>
       reply = action_answer (checked_action d (execute a d))
         (op_finished st u m e [] [] (op_started t (action_operation env k a d))) e))"
proof (cases "choose_action env lst rq")
  case (Inl x)
  then show ?thesis using run ok by (cases x) (auto simp: executeAction_def)
next
  case (Inr ad)
  obtain a d where ad: "ad = (a, d)" by (cases ad)
  obtain i ds where c: "rq_Body rq = Body i" "ai_Confirmation i = ad_Confirmation d" "a \<in> set (he_Agents env)"
    "ac_ID a = ai_AgentID i" "lst a = Inr \<lparr>as_Actions = Some ds\<rparr>" "d \<in> set ds" "ad_ID d = ai_ActionID i"
    using chosen_action[OF Inr[unfolded ad]] by metis
  show ?thesis
  proof (cases locked)
    case True
    then show ?thesis using run ok Inr ad by (auto simp: executeAction_def)
  next
    case False
    then have "run_action (sqlite_audit hosts) env execute a d rows = (reply, rows', sent)"
      using run Inr ad by (simp add: executeAction_def)
    from sqlite_run_action[OF ok env texts this] False c show ?thesis by blast
  qed
qed

text \<open>C26. A request to execute an action either is refused and leaves the audit log as it is, or the
  Agent is asked exactly once: for an action it publishes just then, with exactly the confirmation
  that action asks for, while nobody else holds the lock. Then the log has one new row, the
  operation of that request, finished with what the Agent answered, and the reply carries it.\<close>

theorem action_request:
  assumes ok: "operations_ok hosts rows" and env: "env_ok env" and texts: "action_texts_ok execute"
    and run: "executeAction (sqlite_audit hosts) env lst execute rq locked rows = (reply, rows', sent)"
  shows "operations_ok hosts rows' \<and>
    (sent = [] \<and> op_find rows' = op_find rows \<and> (\<exists>code e. reply = Refused code e) \<or>
     (\<exists>a d i ds k t u st m e. sent = [(a, d)] \<and> \<not> locked \<and> rq_Body rq = Body i \<and>
       ai_Confirmation i = ad_Confirmation d \<and> ad_ID d = ai_ActionID i \<and> ac_ID a = ai_AgentID i \<and>
       a \<in> set (he_Agents env) \<and> lst a = Inr \<lparr>as_Actions = Some ds\<rparr> \<and> d \<in> set ds \<and>
       action_outcome (checked_action d (execute a d)) = (st, m, e) \<and> op_find rows k = None \<and>
       op_find rows' = (op_find rows)(k \<mapsto> op_finished st u m e [] [] (op_started t (action_operation env k a d))) \<and>
       reply = action_answer (checked_action d (execute a d))
         (op_finished st u m e [] [] (op_started t (action_operation env k a d))) e))"
  by (rule action_answered[OF assms])

section \<open>One operation at a time\<close>

text \<open>The Hub as a state machine: the audit log and the deployment that runs in the background. A
  deployment holds the lock until it is finished; an action holds it during its step.\<close>

inductive hub_step :: "host_row list \<Rightarrow> operation list \<times> job option \<Rightarrow> operation list \<times> job option \<Rightarrow> bool"
  for hosts :: "host_row list" where
  act: "\<lbrakk>env_ok env; action_texts_ok execute;
      executeAction (sqlite_audit hosts) env lst execute rq (job \<noteq> None) rows = (reply, rows', sent)\<rbrakk>
    \<Longrightarrow> hub_step hosts (rows, job) (rows', job)"
| refuse: "\<lbrakk>env_ok env; executeDeployment (sqlite_audit hosts) env lst' rq' (job \<noteq> None) rows = (reply', rows', None)\<rbrakk>
    \<Longrightarrow> hub_step hosts (rows, job) (rows', job)"
| deploy: "\<lbrakk>env_ok env; executeDeployment (sqlite_audit hosts) env lst' rq' (job \<noteq> None) rows = (reply', rows', Some j)\<rbrakk>
    \<Longrightarrow> hub_step hosts (rows, job) (rows', Some j)"
| finish_job: "\<lbrakk>env_ok env; deployment_answers_ok execute'\<rbrakk>
    \<Longrightarrow> hub_step hosts (rows, Some j) (finishDeploymentOperation (sqlite_audit hosts) env execute' j rows, None)"
| restart: "FailInterruptedOperations t rows = Inr (n, rows') \<Longrightarrow> hub_step hosts (rows, job) (rows', None)"

inductive_cases hub_stepE: "hub_step hosts s s'"

definition hub_inv :: "host_row list \<Rightarrow> operation list \<times> job option \<Rightarrow> bool" where
  "hub_inv hosts s = (case s of (rows, job) \<Rightarrow> operations_ok hosts rows \<and>
     (case job of
        None \<Rightarrow> (\<forall>k p. op_find rows k = Some p \<longrightarrow> \<not> op_open p)
      | Some (a, d, q) \<Rightarrow> op_find rows (op_ID q) = Some q \<and> job_operation d q \<and>
          (\<forall>k p. op_find rows k = Some p \<longrightarrow> op_open p \<longrightarrow> k = op_ID q)))"

lemma finished_not_open: "st \<in> set final_states \<Longrightarrow> \<not> op_open (op_finished st u m e a b p)"
  by (auto simp: op_open_def op_finished_def final_states_def)

lemma action_outcome_state: "action_outcome x = (st, m, e) \<Longrightarrow> st \<in> set final_states"
  by (auto simp: action_outcome_def final_states_def split: sum.splits if_splits)

lemma hub_inv_same:
  assumes "hub_inv hosts (rows, job)" "operations_ok hosts rows'" "op_find rows' = op_find rows"
  shows "hub_inv hosts (rows', job)"
  using assms(1,2) unfolding hub_inv_def prod.case assms(3) by blast

text \<open>Adding a finished row, or finishing the running one, keeps the invariant.\<close>

lemma hub_inv_finished:
  assumes "hub_inv hosts (rows, None)" "operations_ok hosts rows'" "op_find rows' = (op_find rows)(k \<mapsto> q)" "\<not> op_open q"
  shows "hub_inv hosts (rows', None)"
  using assms(1,2,4) unfolding hub_inv_def prod.case option.case assms(3) by auto

lemma hub_step_inv: "hub_step hosts s s' \<Longrightarrow> hub_inv hosts s \<Longrightarrow> hub_inv hosts s'"
proof (induction rule: hub_step.induct)
  case (act env execute lst rq job rows reply rows' sent)
  have ok: "operations_ok hosts rows" using act.prems by (simp add: hub_inv_def)
  note A = action_answered[OF ok act.hyps]
  show ?case
  proof (cases "sent = []")
    case True
    then show ?thesis using A hub_inv_same[OF act.prems] by auto
  next
    case False
    then obtain k t u st m e a d where *: "job = None" "action_outcome (checked_action d (execute a d)) = (st, m, e)"
      "op_find rows' = (op_find rows)(k \<mapsto> op_finished st u m e [] [] (op_started t (action_operation env k a d)))"
      using A by blast
    show ?thesis using hub_inv_finished[OF _ _ *(3) finished_not_open[OF action_outcome_state[OF *(2)]]] A act.prems *(1) by blast
  qed
next
  case (refuse env lst' rq' job rows reply' rows')
  have ok: "operations_ok hosts rows" using refuse.prems by (simp add: hub_inv_def)
  from sqlite_deployment_started[OF ok refuse.hyps] show ?case using hub_inv_same[OF refuse.prems] by auto
next
  case (deploy env lst' rq' job rows reply' rows' j)
  have ok: "operations_ok hosts rows" using deploy.prems by (simp add: hub_inv_def)
  from sqlite_deployment_started[OF ok deploy.hyps] obtain k t a d where **: "operations_ok hosts rows'" "\<not> job \<noteq> None"
    "j = (a, d, op_started t (deployment_operation env k a d))" "job_operation d (op_started t (deployment_operation env k a d))"
    "op_ID (deployment_operation env k a d) = k"
    "op_find rows' = (op_find rows)(k \<mapsto> op_started t (deployment_operation env k a d))" by blast
  define q where "q = op_started t (deployment_operation env k a d)"
  have *: "operations_ok hosts rows'" "job = None" "j = (a, d, q)" "job_operation d q" "op_ID q = k"
    "op_find rows' = (op_find rows)(k \<mapsto> q)" using ** by (simp_all add: q_def del: not_None_eq)
  have "\<forall>l p. op_find rows l = Some p \<longrightarrow> \<not> op_open p" using deploy.prems *(2) by (simp add: hub_inv_def)
  then show ?case using * by (auto simp: hub_inv_def)
next
  case (finish_job env execute' rows j)
  obtain a d q where j: "j = (a, d, q)" by (cases j)
  have i: "operations_ok hosts rows" "op_find rows (op_ID q) = Some q" "job_operation d q"
    and only: "\<And>k p. op_find rows k = Some p \<Longrightarrow> op_open p \<Longrightarrow> k = op_ID q"
    using finish_job.prems by (auto simp: hub_inv_def j)
  obtain st m e after where o: "deployment_outcome (execute' a d) = (st, m, e, after)" by (metis prod_cases4)
  from sqlite_deployment_finished[OF i(1,2,3) finish_job.hyps o] obtain u b where
    *: "operations_ok hosts (finishDeploymentOperation (sqlite_audit hosts) env execute' (a, d, q) rows)"
      "st \<in> set final_states" "op_find (finishDeploymentOperation (sqlite_audit hosts) env execute' (a, d, q) rows) =
        (op_find rows)(op_ID q \<mapsto> op_finished st u m e after b q)" by blast
  have "\<not> op_open p" if "op_find (finishDeploymentOperation (sqlite_audit hosts) env execute' (a, d, q) rows) k = Some p" for k p
    using that only[of k p] finished_not_open[OF *(2)] unfolding *(3) by (auto split: if_splits)
  then show ?case using *(1) by (simp add: hub_inv_def j)
next
  case (restart t rows n rows' job)
  have ok: "operations_ok hosts rows" using restart.prems by (cases job) (auto simp: hub_inv_def)
  have r: "rows' = update_where op_open (op_interrupted t) rows"
    using restart.hyps by (auto simp: FailInterruptedOperations_def andThen_ok)
  have ok': "operations_ok hosts rows'" using recover_ok(1)[OF ok] r by simp
  have "\<not> op_open p" if "p \<in> set rows'" for p
    using that by (auto simp: r set_update_where) (simp add: op_open_def op_interrupted_def)
  then show ?case using ok' by (auto simp: hub_inv_def operations_ok_def op_find_iff)
qed

lemma hub_run_inv: "(hub_step hosts)\<^sup>*\<^sup>* s s' \<Longrightarrow> hub_inv hosts s \<Longrightarrow> hub_inv hosts s'"
  by (induction rule: rtranclp_induct) (auto intro: hub_step_inv)

lemma open_count:
  assumes "hub_inv hosts (rows, job)"
  shows "length (filter op_open rows) = (if job = None then 0 else 1)"
proof -
  have d: "distinct (map op_ID rows)" using assms by (auto simp: hub_inv_def operations_ok_def)
  then have dist: "distinct rows" by (simp add: distinct_map)
  have f: "op_find rows (op_ID p) = Some p" if "p \<in> set rows" for p using that op_find_iff[OF d] by blast
  show ?thesis
  proof (cases job)
    case None
    then have "\<not> op_open p" if "p \<in> set rows" for p using assms f[OF that] by (auto simp: hub_inv_def)
    then show ?thesis using None by (simp add: filter_empty_conv)
  next
    case (Some j)
    obtain a d' q where j: "j = (a, d', q)" by (cases j)
    have q: "q \<in> set rows" "op_open q"
      using assms op_find_iff[OF d] by (auto simp: hub_inv_def Some j job_operation_def op_open_def)
    have only: "k = op_ID q" if "op_find rows k = Some p" "op_open p" for k p
      using assms that unfolding hub_inv_def Some j by simp
    have "p = q" if "p \<in> set rows" "op_open p" for p
    proof -
      have "op_ID p = op_ID q" by (rule only[OF f[OF that(1)] that(2)])
      then have "Some p = Some q" using f[OF that(1)] f[OF q(1)] by metis
      then show ?thesis by simp
    qed
    then have "set (filter op_open rows) = {q}" unfolding set_filter using q by blast
    moreover have "length (filter op_open rows) = card (set (filter op_open rows))"
      using dist by (simp only: distinct_card distinct_filter)
    ultimately have "length (filter op_open rows) = 1" by simp
    then show ?thesis using Some by simp
  qed
qed


end
