(* ===== verification/Operation_Runs.thy ===== *)
theory Operation_Runs
  imports Operation_Audit
begin

text \<open>
  Confirmed requests end to end: the operation a handler records is always a valid one, so a
  confirmed request is executed; and what the audit log says of a deployment is what the Agent has
  recorded.
\<close>

section \<open>A confirmed request is recorded\<close>

lemma image_chars:
  assumes "immutableImagePattern img"
  shows "list_all (\<lambda>c. 33 \<le> byte c \<and> byte c \<le> 126) img"
proof -
  obtain repo digest where c: "cut_at ''@sha256:'' img = Some (repo, digest)" "image_repository repo" "hex64 digest"
    using assms by (auto simp: immutableImagePattern_def split: option.splits)
  have "\<forall>w \<in> set (split_on (CHR ''/'') repo). plain w"
    using c(2) registry_plain component_plain
    by (auto simp: image_repository_def image_component_def list_all_iff split: list.splits)
  then have "33 \<le> byte x \<and> byte x \<le> 126" if "x \<in> set repo" for x
    using split_on_chars[OF that, of "CHR ''/''"] by (auto simp: plain_def list_all_iff plain_char_def byte_def)
  moreover have "33 \<le> byte x \<and> byte x \<le> 126" if "x \<in> set digest" for x
    using c(3) that by (auto simp: hex64_def list_all_iff lower_hex_def)
  ultimately show ?thesis unfolding cut_at_Some[OF c(1)] by (auto simp: list_all_iff byte_def)
qed

lemma image_reference:
  assumes "immutableImagePattern img" "length img \<le> 512"
  shows "validImmutableImageReference img"
proof -
  obtain repo digest where c: "cut_at ''@sha256:'' img = Some (repo, digest)" "image_repository repo" "hex64 digest"
    using assms(1) by (auto simp: immutableImagePattern_def split: option.splits)
  note ch = image_chars[OF assms(1)]
  have "repo \<noteq> []" using c(2) by (auto simp: image_repository_def image_component_def registry_component_def)
  moreover have "ascii digest" using c(3) by (auto simp: hex64_def ascii_def list_all_iff lower_hex_def)
  then have "list_all lower_hex_rune (runes digest)"
    using c(3) by (auto simp: runes_ascii hex64_def list_all_iff lower_hex_def lower_hex_rune_def)
  moreover have "\<not> containsControl img"
    using immutable_image_ascii[OF assms(1)] ch
    by (auto simp: containsControl_def runes_ascii list_ex_iff list_all_iff is_control_def)
  moreover have "\<not> contains_any img [CHR '' '', CHR 0x09]"
    using ch by (auto simp: contains_any_def list_ex_iff list_all_iff byte_def)
  moreover have "img \<noteq> []" using image_digest[OF assms(1)] by blast
  ultimately show ?thesis using c(1,3) assms(2) by (simp add: validImmutableImageReference_def hex64_def)
qed

lemma operation_id_valid:
  assumes "env_ok env" "newOperationID (he_Random env) = Some k"
  shows "valid_identifier k 128"
proof -
  obtain bs where "he_Random env = Some bs" "k = ''op_'' @ concat (map hex_byte bs)" "length bs = 16"
    using assms by (auto simp: newOperationID_def env_ok_def)
  moreover have "length (concat (map hex_byte bs)) = 2 * length bs" by (induction bs) (simp_all add: hex_byte_def)
  ultimately have "length k \<le> 128" by simp
  then show ?thesis using operation_id_plain[OF assms] plain_control by (simp add: valid_identifier_def)
qed

lemma plain_identifier: "plain s \<Longrightarrow> s \<noteq> [] \<Longrightarrow> length s \<le> n \<Longrightarrow> valid_identifier s n"
  using plain_control by (simp add: valid_identifier_def)

lemma plain_snapshot: "plain s \<Longrightarrow> length s \<le> n \<Longrightarrow> validateOptionalReleaseSnapshot s n = Inr ()"
  using plain_control plain_no_blank_chars by (simp add: validateOptionalReleaseSnapshot_def)

definition requests_ok :: "handler_env \<Rightarrow> bool" where
  "requests_ok env = (env_ok env \<and> valid_identifier (he_Requester env) 128 \<and>
     list_all (\<lambda>a. valid_identifier (ac_ID a) 128) (he_Agents env))"

lemma new_operation_valid:
  assumes "op_State p = OperationRequested" "op_StartedAt p = None" "op_FinishedAt p = None" "op_ResultSummary p = []"
    and "op_Error p = []" "op_AfterReleaseID p = []" "op_RequestedAt p \<noteq> 0"
    and "valid_identifier (op_ID p) 128" "valid_identifier (op_HostID p) 128" "valid_identifier (op_RequestedBy p) 128"
    and "validateOperationKind p = Inr ()"
  shows "validateOperation p = Inr ()"
  using assms by (simp add: validateOperation_ok validateOperationTimes_ok validateOperationState_def ascii_eval containsControl_def)

lemma action_operation_valid:
  assumes env: "requests_ok env" and a: "a \<in> set (he_Agents env)" and d: "validateAgentActionDefinition d = Inr ()"
    and k: "newOperationID (he_Random env) = Some k"
  shows "validateOperation (action_operation env k a d) = Inr ()"
proof -
  have e: "env_ok env" "valid_identifier (he_Requester env) 128" "valid_identifier (ac_ID a) 128"
    using env a by (auto simp: requests_ok_def list_all_iff)
  have pre: "s = p @ trim_prefix s p" if "trim_prefix s p \<noteq> s" for s p
    using that by (auto simp: trim_prefix_def has_prefix_iff split: if_splits)
  have tgt: "\<exists>r. plain r \<and> length r \<le> 255 \<and> (ad_TargetKey d = ''systemd:'' @ r \<or> ad_TargetKey d = ''docker:'' @ r)"
  proof -
    have "trim_prefix (ad_TargetKey d) ''systemd:'' \<noteq> ad_TargetKey d \<and> systemd_resource (trim_prefix (ad_TargetKey d) ''systemd:'') \<or>
        trim_prefix (ad_TargetKey d) ''docker:'' \<noteq> ad_TargetKey d \<and> docker_resource (trim_prefix (ad_TargetKey d) ''docker:'')"
      using d unfolding validateAgentActionDefinition_def andThen_ok guard_ok Let_def hubSystemdActionResource_def
        hubDockerActionResource_def by (metis (full_types))
    then show ?thesis
    proof (elim disjE conjE)
      assume t: "trim_prefix (ad_TargetKey d) ''systemd:'' \<noteq> ad_TargetKey d" "systemd_resource (trim_prefix (ad_TargetKey d) ''systemd:'')"
      show ?thesis using pre[OF t(1)] systemd_resource_plain[OF t(2)] by blast
    next
      assume t: "trim_prefix (ad_TargetKey d) ''docker:'' \<noteq> ad_TargetKey d" "docker_resource (trim_prefix (ad_TargetKey d) ''docker:'')"
      have "length (trim_prefix (ad_TargetKey d) ''docker:'') \<le> 255" using docker_resource_plain[OF t(2)] by linarith
      then show ?thesis using pre[OF t(1)] docker_resource_plain[OF t(2)] by blast
    qed
  qed
  have kind: "operationKind (ad_Kind d) \<in> {OperationStart, OperationStop, OperationRestart, OperationLogs}"
    using d by (auto simp: validateAgentActionDefinition_def andThen_ok actionRisk_def operationKind_def split: if_splits)
  have w: "valid_identifier (ad_TargetKey d) 512"
    using tgt by (intro plain_identifier) (auto simp: plain_char_def byte_def)
  show ?thesis
    by (rule new_operation_valid)
      (use e operation_id_valid[OF e(1) k] kind w in \<open>auto simp: action_operation_def validateOperationKind_def andThen_ok env_ok_def less_imp_neq[symmetric]\<close>)
qed

lemma andThen_unit:
  fixes m :: "'e + unit"
  assumes "andThen m f = Inr y"
  shows "m = Inr ()" "f () = Inr y"
  using assms by (cases m; simp)+

lemma deployment_operation_valid:
  assumes env: "requests_ok env" and a: "a \<in> set (he_Agents env)" and d: "validateAgentDeploymentDefinition d = Inr ()"
    and k: "newOperationID (he_Random env) = Some k"
  shows "validateOperation (deployment_operation env k a d) = Inr ()"
proof -
  have e: "env_ok env" "valid_identifier (he_Requester env) 128" "valid_identifier (ac_ID a) 128"
    using env a by (auto simp: requests_ok_def list_all_iff)
  note D = d[unfolded validateAgentDeploymentDefinition_def andThen_ok guard_ok check_all_ok' hub_patterns]
  have c: "deploymentKeyPattern (dd_StackKey d)" "deploymentReleasePattern (dd_ReleaseID d)" "immutableImagePattern (dd_Image d)"
    "length (dd_Image d) \<le> 512"
    using D by (simp_all add: not_less)
  have "check_all (\<lambda>r. guard ''agent deployment state identity is invalid'' (r \<noteq> [] \<and> \<not> hubDeploymentReleasePattern r))
      [dd_CurrentReleaseID d, dd_PreviousReleaseID d] = Inr ()"
    by (rule andThen_unit(1)[OF andThen_unit(2)[OF d[unfolded validateAgentDeploymentDefinition_def]]])
  then have c5: "dd_CurrentReleaseID d = [] \<or> deploymentReleasePattern (dd_CurrentReleaseID d)"
    by (simp add: andThen_ok hub_patterns split: if_splits)
  have cid: "plain (dd_CurrentReleaseID d)" "length (dd_CurrentReleaseID d) \<le> 64"
    using c5 release_pattern_plain[of "dd_CurrentReleaseID d"] by auto
  have p: "plain (dd_StackKey d) \<and> dd_StackKey d \<noteq> [] \<and> length (dd_StackKey d) \<le> 64"
    "plain (dd_ReleaseID d) \<and> length (dd_ReleaseID d) \<le> 64" "validImmutableImageReference (dd_Image d)"
    "plain (dd_CurrentReleaseID d) \<and> length (dd_CurrentReleaseID d) \<le> 64"
    using key_pattern_plain[OF c(1)] release_pattern_plain[OF c(2)] image_reference[OF c(3,4)] cid by blast+
  have "dd_ID d = ''deploy:'' @ dd_StackKey d @ '':'' @ dd_ReleaseID d \<or> dd_ID d = ''rollback:'' @ dd_StackKey d"
    using D by (simp del: contains.simps append.simps split: if_splits)
  note p = p this
  have i: "plain (dd_ID d) \<and> length (dd_ID d) \<le> 256" using p by (auto simp: plain_char_def byte_def)
  have kind: "validateOperationKind (deployment_operation env k a d) = Inr ()"
    using p i plain_identifier[of "dd_StackKey d" 512] plain_snapshot
    by (auto simp: validateOperationKind_def deployment_operation_def deploymentOperationKind_def andThen_ok
        validateOptionalReleaseSnapshot_def[of "[]"])
  show ?thesis
    by (rule new_operation_valid)
      (use e operation_id_valid[OF e(1) k] kind in \<open>auto simp: deployment_operation_def env_ok_def less_imp_neq[symmetric]\<close>)
qed


section \<open>A confirmed request is executed\<close>

lemma chosen_deployment:
  assumes "choose_deployment env lst rq = Inr (a, d)"
  shows "a \<in> set (he_Agents env)" "validateAgentDeploymentDefinition d = Inr ()"
proof -
  obtain i where i: "posted_input rq = Inr i" using assms by (auto simp: choose_deployment_def andThen_ok)
  obtain response where r: "agentConfig (he_Agents env) (di_AgentID i) = Some a"
    "validateAgentDeployments response = Inr ()"
    "findAgentDeployment (case ds_Deployments response of None \<Rightarrow> [] | Some ds \<Rightarrow> ds) (di_DeploymentID i) = Some d"
    using assms by (auto simp: choose_deployment_def i andThen_ok split: option.splits sum.splits)
  show "a \<in> set (he_Agents env)" using r(1) by (auto simp: agentConfig_def dest: find_SomeD)
  obtain ds where ds: "ds_Deployments response = Some ds" using r(2) by (auto simp: validateAgentDeployments_def split: option.splits)
  have "d \<in> set ds" using r(3) ds by (auto simp: findAgentDeployment_def dest: find_SomeD)
  then show "validateAgentDeploymentDefinition d = Inr ()"
    using r(2) ds by (auto simp: validateAgentDeployments_def andThen_ok check_distinct_ok)
qed

lemma sqlite_created:
  assumes "operations_ok hosts rows" "op_State p = OperationRequested" "validateOperation p = Inr ()"
    "host_exists hosts (op_HostID p)" "op_find rows (op_ID p) = None"
  obtains rows' where "CreateOperation hosts p rows = Inr rows'"
  using sqlite_operations.create_total[OF assms(1-3) _ assms(5)] assms(4) by blast

lemma action_runs:
  assumes ok: "operations_ok hosts rows" and env: "requests_ok env" and texts: "action_texts_ok execute"
    and chosen: "choose_action env lst rq = Inr (a, d)" and host: "host_exists hosts (ac_ID a)"
    and fresh: "newOperationID (he_Random env) = Some k" "op_find rows k = None"
  shows "\<exists>q rows' errorKind. executeAction (sqlite_audit hosts) env lst execute rq False rows =
    (action_answer (checked_action d (execute a d)) q errorKind, rows', [(a, d)]) \<and>
    op_find rows' k = Some q \<and> op_State q \<in> set final_states"
proof -
  let ?p = "action_operation env k a d"
  have e: "env_ok env" using env by (simp add: requests_ok_def)
  obtain i ds where c: "a \<in> set (he_Agents env)" "validateAgentActionDefinition d = Inr ()"
    using chosen_action[OF chosen] by metis
  have pf: "op_State ?p = OperationRequested" "op_HostID ?p = ac_ID a" "op_ID ?p = k" by (simp_all add: action_operation_def)
  obtain rows1 where r1: "CreateOperation hosts ?p rows = Inr rows1"
    using sqlite_created[OF ok pf(1) action_operation_valid[OF env c fresh(1)]] host fresh(2) unfolding pf by blast
  define reply rows' sent where all: "reply = fst (run_action (sqlite_audit hosts) env execute a d rows)"
    "rows' = fst (snd (run_action (sqlite_audit hosts) env execute a d rows))"
    "sent = snd (snd (run_action (sqlite_audit hosts) env execute a d rows))"
  have run: "run_action (sqlite_audit hosts) env execute a d rows = (reply, rows', sent)" by (simp add: all)
  define t where "t = not_before (he_Now env 1) (he_Now env 0)"
  have pos: "0 < he_Now env 0" "0 < he_Now env 1" using e unfolding env_ok_def by blast+
  then have t: "op_RequestedAt ?p \<le> t" "t \<noteq> 0" by (auto simp: t_def not_before_def action_operation_def)
  obtain rows2 where r2: "StartOperation k t rows1 = Inr (Some (op_started t ?p), rows2)"
    using sqlite_operations.created_running[OF ok r1 _ t] operation_id_plain(3)[OF e fresh(1)] unfolding pf by blast
  have "sent \<noteq> []"
    using run unfolding run_action_def fresh(1) option.case t_def[symmetric] sqlite_audit_def audit_ops.simps r1 sum.case r2 prod.case
    by (auto simp: Let_def split: prod.splits sum.splits option.splits)
  then obtain k' t u st m er where "newOperationID (he_Random env) = Some k'" "sent = [(a, d)]"
    "action_outcome (checked_action d (execute a d)) = (st, m, er)"
    "op_find rows' = (op_find rows)(k' \<mapsto> op_finished st u m er [] [] (op_started t (action_operation env k' a d)))"
    "reply = action_answer (checked_action d (execute a d)) (op_finished st u m er [] [] (op_started t (action_operation env k' a d))) er"
    using sqlite_run_action[OF ok e texts run] by blast
  moreover have "st \<in> set final_states" by (rule action_outcome_state[OF calculation(3)])
  ultimately show ?thesis using run fresh(1) by (auto simp: executeAction_def chosen op_finished_def)
qed


lemma deployment_starts:
  assumes ok: "operations_ok hosts rows" and env: "requests_ok env"
    and chosen: "choose_deployment env lst rq = Inr (a, d)" and host: "host_exists hosts (ac_ID a)"
    and fresh: "newOperationID (he_Random env) = Some k" "op_find rows k = None"
  shows "\<exists>t rows'. executeDeployment (sqlite_audit hosts) env lst rq False rows =
    (Reply 202 (op_started t (deployment_operation env k a d)), rows',
     Some (a, d, op_started t (deployment_operation env k a d))) \<and>
    op_find rows' = (op_find rows)(k \<mapsto> op_started t (deployment_operation env k a d))"
proof -
  let ?p = "deployment_operation env k a d"
  have e: "env_ok env" using env by (simp add: requests_ok_def)
  have c: "a \<in> set (he_Agents env)" "validateAgentDeploymentDefinition d = Inr ()"
    using chosen_deployment[OF chosen] by metis+
  have pf: "op_State ?p = OperationRequested" "op_HostID ?p = ac_ID a" "op_ID ?p = k" by (simp_all add: deployment_operation_def)
  obtain rows1 where r1: "CreateOperation hosts ?p rows = Inr rows1"
    using sqlite_created[OF ok pf(1) deployment_operation_valid[OF env c fresh(1)]] host fresh(2) unfolding pf by blast
  define t where "t = not_before (he_Now env 1) (he_Now env 0)"
  have pos: "0 < he_Now env 0" "0 < he_Now env 1" using e unfolding env_ok_def by blast+
  then have t: "op_RequestedAt ?p \<le> t" "t \<noteq> 0" by (auto simp: t_def not_before_def deployment_operation_def)
  obtain rows2 where r2: "StartOperation k t rows1 = Inr (Some (op_started t ?p), rows2)"
    "op_find rows2 = (op_find rows)(k \<mapsto> op_started t ?p)"
    using sqlite_operations.created_running[OF ok r1 _ t] operation_id_plain(3)[OF e fresh(1)] unfolding pf by blast
  have "executeDeployment (sqlite_audit hosts) env lst rq False rows = (Reply 202 (op_started t ?p), rows2, Some (a, d, op_started t ?p))"
    unfolding executeDeployment_def chosen sum.case prod.case if_False fresh(1) option.case t_def[symmetric] sqlite_audit_def
      audit_ops.simps r1 r2(1) ..
  then show ?thesis using r2(2) by blast
qed

text \<open>A confirmed request is carried out: when the approved action or deployment has been chosen, the
  host is known, nobody holds the lock and the fresh id is not in the log, an action is sent to
  the Agent and ends in a final state, and a deployment is accepted and recorded as running. No
  valid action or deployment an Agent publishes is refused by the audit log.\<close>

theorem confirmed_request_runs:
  assumes "operations_ok hosts rows" and "requests_ok env" and "host_exists hosts (ac_ID a)"
    and "newOperationID (he_Random env) = Some k" "op_find rows k = None" and "action_texts_ok execute"
  shows "(choose_action env lst rq = Inr (a, d) \<longrightarrow>
      (\<exists>q rows' errorKind. executeAction (sqlite_audit hosts) env lst execute rq False rows =
        (action_answer (checked_action d (execute a d)) q errorKind, rows', [(a, d)]) \<and>
        op_find rows' k = Some q \<and> op_State q \<in> set final_states)) \<and>
    (choose_deployment env lst' rq' = Inr (a, e) \<longrightarrow>
      (\<exists>q rows'. executeDeployment (sqlite_audit hosts) env lst' rq' False rows = (Reply 202 q, rows', Some (a, e, q)) \<and>
        op_find rows' k = Some q \<and> op_State q = OperationRunning))"
proof (intro conjI impI)
  assume "choose_action env lst rq = Inr (a, d)"
  from action_runs[OF assms(1,2,6) this assms(3-5)] show "\<exists>q rows' errorKind.
    executeAction (sqlite_audit hosts) env lst execute rq False rows =
        (action_answer (checked_action d (execute a d)) q errorKind, rows', [(a, d)]) \<and>
        op_find rows' k = Some q \<and> op_State q \<in> set final_states" .
next
  assume "choose_deployment env lst' rq' = Inr (a, e)"
  from deployment_starts[OF assms(1,2) this assms(3-5)] show "\<exists>q rows'.
    executeDeployment (sqlite_audit hosts) env lst' rq' False rows = (Reply 202 q, rows', Some (a, e, q)) \<and>
        op_find rows' k = Some q \<and> op_State q = OperationRunning"
    by (metis fun_upd_same started_fields(2))
qed

section \<open>The audit log tells what the Agent has recorded\<close>

text \<open>What the Hub is told of the result \<open>r\<close> of an execution.\<close>

definition agent_answers :: "deployment_result \<Rightarrow> agent_config \<Rightarrow> deployment_definition \<Rightarrow> go_error + deployment_result" where
  "agent_answers r a d =
     deployment_Execute (\<lambda>_. case deployment_status (Inr r) of (status, body) \<Rightarrow> Answer status body) d"

text \<open>The recorded state of a stack before and after, and the finished operation.\<close>

definition audit_matches :: "deployment_state option \<Rightarrow> deployment_state option \<Rightarrow> operation \<Rightarrow> bool" where
  "audit_matches before after q =
     (if op_State q = OperationSucceeded then (case after of None \<Rightarrow> False | Some st \<Rightarrow>
        sr_ID (dt_Current st) = op_AfterReleaseID q \<and> op_AfterReleaseID q = op_TargetReleaseID q \<and>
        sr_Image (dt_Current st) = op_TargetImage q)
      else if op_State q = OperationRolledBack then (case after of None \<Rightarrow> False | Some st \<Rightarrow>
        sr_ID (dt_Current st) = op_AfterReleaseID q \<and> (before = None \<or> before = after))
      else op_State q = OperationFailed \<and> op_AfterReleaseID q = [] \<and>
        (after = before \<or> op_Error q = ''rollback_failed'' \<or> op_Error q = ''state_commit_failed''))"

lemma audited_deployment:
  assumes policy: "validateDeploymentPolicy parse_url pol = Inr ()" "dp_Stacks pol = Some stacks" "policy_texts stacks"
    and laws: "json_laws denv" "stamp_laws denv"
    and run: "ExecutePolicyDeployment denv fuel stacks unsafe requestID (files, h) = Some (Inr (r, files', h'))"
    and published: "loadDeploymentStates denv (\<lambda>k. Inr (files k)) stacks = Inr states"
      "findDeploymentDefinition (deploymentDefinitions stacks states) requestID = Some d"
    and ok: "operations_ok hosts rows" "op_find rows (op_ID p) = Some p" "job_operation d p" and env: "env_ok env"
  shows "\<exists>q states'. loadDeploymentStates denv (\<lambda>k. Inr (files' k)) stacks = Inr states' \<and>
    op_find (finishDeploymentOperation (sqlite_audit hosts) env (agent_answers r) (a, d, p) rows) = (op_find rows)(op_ID p \<mapsto> q) \<and>
    audit_matches (states (dd_StackKey d)) (states' (dd_StackKey d)) q"
proof -
  obtain states' where s': "loadDeploymentStates denv (\<lambda>k. Inr (files' k)) stacks = Inr states'"
    "state_recorded d (states (dd_StackKey d)) (states' (dd_StackKey d)) r"
    using recorded_outcome[OF policy laws run] published by auto
  have r: "agent_answers r a d = Inr r" for a
    using answer_accepted[OF policy laws run published] by (simp add: agent_answers_def)
  have answers: "deployment_answers_ok (agent_answers r)"
    using client_answers_ok[of "\<lambda>_ _. case deployment_status (Inr r) of (status, body) \<Rightarrow> Answer status body"]
    by (simp add: deployment_answers_ok_def agent_answers_def)
  have v: "validateAgentDeploymentResult r d = Inr ()"
    using checked_deployment_ok(2)[OF answers, of d a] by (simp add: r)
  have id: "de_ReleaseID r = dd_ReleaseID d" "\<not> (de_OK r \<and> de_RollbackPerformed r)"
    using v by (auto simp: validateAgentDeploymentResult_def andThen_ok)
  obtain st m e after where o: "deployment_outcome (agent_answers r a d) = (st, m, e, after)" by (metis prod_cases4)
  obtain u where q: "op_find (finishDeploymentOperation (sqlite_audit hosts) env (agent_answers r) (a, d, p) rows) =
      (op_find rows)(op_ID p \<mapsto> op_finished st u m e after (de_PreviousReleaseID r) p)"
    using sqlite_deployment_finished[OF ok env answers o] by (auto simp: r)
  have t: "op_TargetReleaseID p = dd_ReleaseID d" "op_TargetImage p = dd_Image d" using ok(3) by (simp_all add: job_operation_def)
  have "audit_matches (states (dd_StackKey d)) (states' (dd_StackKey d)) (op_finished st u m e after (de_PreviousReleaseID r) p)"
    using s'(2) o id
    by (cases "de_OK r"; cases "de_RollbackPerformed r";
        auto simp: r deployment_outcome_def audit_matches_def state_recorded_def op_finished_def t deployment_target_def
          split: option.splits)
  then show ?thesis using s'(1) q by blast
qed


text \<open>C24. The audit log is truthful about deployments, across the Agent's files, its answer, the Hub's
  checks and the SQLite row: when the background finalizer has stored the outcome of an execution,
  the row says succeeded exactly with the target release and image the Agent has recorded as
  current; it says rolled back only with the release the Agent has recorded, whose state is the one
  before; and a failed row names no release, the Agent's recorded state being the one before unless
  the row says that recording or restoring it failed.\<close>

theorem deployment_audit_truthful:
  assumes policy: "validateDeploymentPolicy parse_url pol = Inr ()" "dp_Stacks pol = Some stacks" "policy_texts stacks"
    and laws: "json_laws denv" "stamp_laws denv"
    and run: "ExecutePolicyDeployment denv fuel stacks unsafe requestID (files, h) = Some (Inr (r, files', h'))"
    and published: "loadDeploymentStates denv (\<lambda>k. Inr (files k)) stacks = Inr states"
      "findDeploymentDefinition (deploymentDefinitions stacks states) requestID = Some d"
    and ok: "operations_ok hosts rows" "op_find rows (op_ID p) = Some p" "job_operation d p" and env: "env_ok env"
  shows "\<exists>q states'. loadDeploymentStates denv (\<lambda>k. Inr (files' k)) stacks = Inr states' \<and>
    op_find (finishDeploymentOperation (sqlite_audit hosts) env (agent_answers r) (a, d, p) rows) = (op_find rows)(op_ID p \<mapsto> q) \<and>
    audit_matches (states (dd_StackKey d)) (states' (dd_StackKey d)) q"
  by (rule audited_deployment[OF assms])

section \<open>A concrete Hub\<close>

definition sample_agent :: agent_config where
  "sample_agent = \<lparr>ac_ID = ''web'', ac_Name = ''Web'', ac_URL = ''http://10.0.0.1:9101'', ac_Token = ''t'', ac_PublicHost = []\<rparr>"

definition sample_handlers :: handler_env where
  "sample_handlers = \<lparr>he_Agents = [sample_agent], he_Requester = ''admin'', he_Random = Some (replicate 16 0),
     he_Now = (\<lambda>n. 10 + int n)\<rparr>"

definition sample_operation_id :: string where
  "sample_operation_id = ''op_'' @ concat (map hex_byte (replicate 16 0))"

definition posted :: "'i \<Rightarrow> 'i request" where
  "posted i = \<lparr>rq_Method = ''POST'', rq_RawQuery = [], rq_ContentType = ''application/json'', rq_Body = Body i\<rparr>"

lemma posted_ok: "posted_input (posted i) = Inr i"
proof -
  have "trim_space ''application/json'' = ''application/json''" 
    by (simp add: trim_space_def trim_chunks_def rune_chunks_ascii ascii_def byte_def is_space_def)
  then have "hasJSONContentType ''application/json''" by (simp add: hasJSONContentType_def cut_def equal_fold_ascii_def)
  then show ?thesis by (simp add: posted_input_def posted_def)
qed

lemma sample_handlers_ok:
  "requests_ok sample_handlers" "env_ok sample_handlers" "newOperationID (he_Random sample_handlers) = Some sample_operation_id"
  "agentConfig (he_Agents sample_handlers) ''web'' = Some sample_agent" "sample_agent \<in> set (he_Agents sample_handlers)"
  "host_exists Operation_Store.sample_hosts (ac_ID sample_agent)"
  by (simp_all add: requests_ok_def env_ok_def sample_handlers_def sample_operation_id_def newOperationID_def agentConfig_def
      sample_agent_def host_exists_def Operation_Store.sample_hosts_def plain_identifier plain_char_def byte_def list_all_iff)

definition sample_start_action :: action_definition where
  "sample_start_action = published sample_target ActionStart"

definition sample_actions :: actions_response where
  "sample_actions = \<lparr>as_Actions = Some [sample_start_action]\<rparr>"

definition sample_action_input :: action_input where
  "sample_action_input = \<lparr>ai_AgentID = ''web'', ai_ActionID = ''start:docker:api'', ai_Confirmation = ad_Confirmation sample_start_action\<rparr>"

lemma sample_chosen_action:
  "choose_action sample_handlers (\<lambda>_. Inr sample_actions) (posted sample_action_input) = Inr (sample_agent, sample_start_action)"
proof -
  have id: "ad_ID sample_start_action = ''start:docker:api''"
    by (simp add: sample_start_action_def sample_target_def actionID_def)
  have v: "validateAgentActionDefinition sample_start_action = Inr ()"
    unfolding sample_start_action_def by (rule published_valid[OF sample_target_ok]) (simp add: sample_target_def)
  have "length (ad_Confirmation sample_start_action) \<le> 512"
    by (simp add: sample_start_action_def sample_target_def published_def actionPresentation_def)
  then have i: "valid_action_input sample_action_input"
    by (simp add: valid_action_input_def sample_action_input_def maxAgentIDBytes_def trim_space_plain plain_char_def byte_def)
  have a: "validateAgentActions sample_actions = Inr ()"
    using v by (simp add: validateAgentActions_def sample_actions_def check_distinct_ok maximumAgentActions_def)
  show ?thesis using i a id
    by (simp add: choose_action_def posted_ok sample_handlers_ok sample_action_input_def findAgentAction_def sample_actions_def)
qed

definition sample_deployment_input :: deployment_input where
  "sample_deployment_input = \<lparr>di_AgentID = ''web'', di_DeploymentID = ''deploy:web:v2'',
     di_Confirmation = dd_Confirmation sample_offer\<rparr>"

lemma sample_offer_valid: "validateAgentDeploymentDefinition sample_offer = Inr ()"
proof -
  have "sample_offer \<in> set (stack_offers Map.empty sample_stack)"
    using arg_cong[OF sample_offers, of set] by (auto simp: deploymentDefinitions_def)
  then show ?thesis using published_valid_deployment(2)[OF sample_stacks_ok(2,4), of sample_offer Map.empty] by simp
qed

lemma sample_chosen_deployment:
  "choose_deployment sample_handlers (\<lambda>_. Inr \<lparr>ds_Deployments = Some [sample_offer]\<rparr>) (posted sample_deployment_input) =
    Inr (sample_agent, sample_offer)"
proof -
  have "length (dd_Confirmation sample_offer) \<le> 512"
    by (simp add: sample_offer_def deploy_offer_def sample_stack_def)
  then have i: "valid_deployment_input sample_deployment_input"
    by (simp add: valid_deployment_input_def sample_deployment_input_def maxAgentIDBytes_def trim_space_plain plain_char_def byte_def)
  have "validateAgentDeployments \<lparr>ds_Deployments = Some [sample_offer]\<rparr> = Inr ()"
    using sample_offer_valid by (simp add: validateAgentDeployments_def check_distinct_ok maximumAgentDeployments_def)
  then show ?thesis using i
    by (simp add: choose_deployment_def posted_ok sample_handlers_ok sample_deployment_input_def findAgentDeployment_def
        sample_offer_fields)
qed

lemma empty_log_ok: "operations_ok hosts []" "op_find [] k = None"
  by (simp_all add: operations_ok_def op_find_def)

definition sample_running :: operation where
  "sample_running = op_started 11 (deployment_operation sample_handlers sample_operation_id sample_agent sample_offer)"

lemma sample_started:
  obtains q rows where "executeDeployment (sqlite_audit Operation_Store.sample_hosts) sample_handlers
      (\<lambda>_. Inr \<lparr>ds_Deployments = Some [sample_offer]\<rparr>) (posted sample_deployment_input) False [] =
      (Reply 202 q, rows, Some (sample_agent, sample_offer, q))"
    "operations_ok Operation_Store.sample_hosts rows" "op_find rows (op_ID q) = Some q" "job_operation sample_offer q"
    "op_TargetReleaseID q = dd_ReleaseID sample_offer"
proof -
  note S = deployment_starts[OF empty_log_ok(1) sample_handlers_ok(1) sample_chosen_deployment sample_handlers_ok(6,3) empty_log_ok(2)]
  from S obtain q rows where run: "executeDeployment (sqlite_audit Operation_Store.sample_hosts) sample_handlers
      (\<lambda>_. Inr \<lparr>ds_Deployments = Some [sample_offer]\<rparr>) (posted sample_deployment_input) False [] =
      (Reply 202 q, rows, Some (sample_agent, sample_offer, q))" by blast
  from sqlite_deployment_started[OF empty_log_ok(1) sample_handlers_ok(2) run] have
    "operations_ok Operation_Store.sample_hosts rows" "op_find rows (op_ID q) = Some q" "job_operation sample_offer q"
    by auto
  then show ?thesis using that run by (simp add: job_operation_def)
qed

lemma sample_action_texts: "valid_utf8 (ar_Summary r) \<Longrightarrow> action_texts_ok (\<lambda>_ _. Inr r)"
  by (simp add: action_texts_ok_def)

lemma sample_result:
  obtains r where "validateAgentActionResult r sample_start_action = Inr ()" "ar_OK r" "valid_utf8 (ar_Summary r)"
proof -
  note run = sample_start[of 0]
  have k: "ad_TargetKey (published sample_target ActionStart) = pt_Key sample_target" "valid_utf8 (pt_Label sample_target)"
    by (simp_all add: sample_target_def ascii_eval)
  note v = result_accepted(1)[OF sample_target_ok k(2,1) run]
  have "valid_utf8 (''API'' @ [CHR 0xEF, CHR 0xBC, CHR 0x9A] @ ''running'' @ ('' '' @ [CHR 0xE2, CHR 0x86, CHR 0x92] @ '' '') @ ''running'')"
    by (simp add: utf8_eval)
  then show ?thesis using v that unfolding sample_start_action_def by simp
qed

theorem confirmed_request_runs_witness:
  "\<exists>q rows r. executeDeployment (sqlite_audit Operation_Store.sample_hosts) sample_handlers
      (\<lambda>_. Inr \<lparr>ds_Deployments = Some [sample_offer]\<rparr>) (posted sample_deployment_input) False [] =
      (Reply 202 q, rows, Some (sample_agent, sample_offer, q)) \<and>
    fst (executeAction (sqlite_audit Operation_Store.sample_hosts) sample_handlers (\<lambda>_. Inr sample_actions) (\<lambda>_ _. Inr r)
      (posted sample_action_input) False []) \<noteq> Refused 404 ''action_not_approved''"
proof -
  obtain r where "validateAgentActionResult r sample_start_action = Inr ()" "ar_OK r" and r: "valid_utf8 (ar_Summary r)"
    by (rule sample_result)
  from confirmed_request_runs[OF empty_log_ok(1) sample_handlers_ok(1,6,3) empty_log_ok(2) sample_action_texts[OF r]]
    sample_chosen_deployment sample_chosen_action
  obtain q rows e q' rows' where
    "executeDeployment (sqlite_audit Operation_Store.sample_hosts) sample_handlers
      (\<lambda>_. Inr \<lparr>ds_Deployments = Some [sample_offer]\<rparr>) (posted sample_deployment_input) False [] =
      (Reply 202 q, rows, Some (sample_agent, sample_offer, q))"
    "executeAction (sqlite_audit Operation_Store.sample_hosts) sample_handlers (\<lambda>_. Inr sample_actions) (\<lambda>_ _. Inr r)
      (posted sample_action_input) False [] =
     (action_answer (checked_action sample_start_action (Inr r)) q' e, rows', [(sample_agent, sample_start_action)])"
    by (metis (no_types, lifting))
  moreover have "action_answer x y e \<noteq> Refused 404 ''action_not_approved''" for x y
    by (simp add: action_answer_def split: sum.split)
  ultimately show ?thesis by (metis fst_conv)
qed

theorem action_request_witness:
  "\<exists>rows' r k q. executeAction (sqlite_audit Operation_Store.sample_hosts) sample_handlers (\<lambda>_. Inr sample_actions) (\<lambda>_ _. Inr r)
      (posted sample_action_input) False [] =
      (Reply 200 \<lparr>rp_Operation = q, rp_ErrorKind = [], rp_Result = Some r\<rparr>, rows', [(sample_agent, sample_start_action)]) \<and>
    op_find rows' k = Some q \<and> op_State q = OperationSucceeded"
proof -
  obtain r where r: "validateAgentActionResult r sample_start_action = Inr ()" "ar_OK r" "valid_utf8 (ar_Summary r)"
    by (rule sample_result)
  have c: "checked_action sample_start_action (Inr r) = Inr r" using r(1) by (simp add: checked_action_def)
  from action_runs[OF empty_log_ok(1) sample_handlers_ok(1) sample_action_texts[OF r(3)] sample_chosen_action sample_handlers_ok(6,3)
      empty_log_ok(2)]
  obtain reply rows' where run: "executeAction (sqlite_audit Operation_Store.sample_hosts) sample_handlers (\<lambda>_. Inr sample_actions)
      (\<lambda>_ _. Inr r) (posted sample_action_input) False [] = (reply, rows', [(sample_agent, sample_start_action)])" by blast
  note A = action_request[OF empty_log_ok(1) sample_handlers_ok(2) sample_action_texts[OF r(3)] run]
  obtain a d k t u st m e where B: "[(sample_agent, sample_start_action)] = [(a, d)]"
    "action_outcome (checked_action d (Inr r)) = (st, m, e)"
    "op_find rows' = (op_find [])(k \<mapsto> op_finished st u m e [] [] (op_started t (action_operation sample_handlers k a d)))"
    "reply = action_answer (checked_action d (Inr r)) (op_finished st u m e [] [] (op_started t (action_operation sample_handlers k a d))) e"
    using A by (elim conjE disjE exE) (simp, blast)
  then have "action_outcome (Inr r) = (st, m, e)"
    "op_find rows' k = Some (op_finished st u m e [] [] (op_started t (action_operation sample_handlers k sample_agent sample_start_action)))"
    "reply = action_answer (Inr r) (op_finished st u m e [] [] (op_started t (action_operation sample_handlers k sample_agent sample_start_action))) e"
    using c by (auto simp del: fun_upd_apply simp: fun_upd_same)
  then have "e = []" "op_find rows' k = Some (op_finished OperationSucceeded u m e [] [] (op_started t (action_operation sample_handlers k sample_agent sample_start_action)))"
    "reply = Reply 200 \<lparr>rp_Operation = op_finished OperationSucceeded u m e [] [] (op_started t (action_operation sample_handlers k sample_agent sample_start_action)),
      rp_ErrorKind = [], rp_Result = Some r\<rparr>"
    using r(2) by (auto simp: action_outcome_def action_answer_def)
  moreover have "op_State (op_finished OperationSucceeded u m e [] [] p) = OperationSucceeded" for p by (simp add: op_finished_def)
  ultimately show ?thesis using run by blast
qed


theorem deployment_audit_truthful_witness:
  "\<exists>r files' states' rows p q.
     ExecutePolicyDeployment (sample_env ''healthy'') (Suc 0) [sample_stack] (\<lambda>_. False) ''deploy:web:v2'' (Map.empty, ()) =
       Some (Inr (r, files', ())) \<and>
     loadDeploymentStates (sample_env ''healthy'') (\<lambda>k. Inr (files' k)) [sample_stack] = Inr states' \<and>
     op_find (finishDeploymentOperation (sqlite_audit Operation_Store.sample_hosts) sample_handlers (agent_answers r)
       (sample_agent, sample_offer, p) rows) (op_ID p) = Some q \<and>
     audit_matches None (states' ''web'') q"
proof -
  obtain content where run: "ExecutePolicyDeployment (sample_env ''healthy'') (Suc 0) [sample_stack] (\<lambda>_. False)
      ''deploy:web:v2'' (Map.empty, ()) = Some (Inr (deployed sample_stack sample_offer sample_external
        (sk_Label sample_stack @ deployed_text @ dd_ReleaseLabel sample_offer @ healthy_text), [''web'' \<mapsto> content], ()))"
    by (rule sample_deployed)
  define r where "r = deployed sample_stack sample_offer sample_external
        (sk_Label sample_stack @ deployed_text @ dd_ReleaseLabel sample_offer @ healthy_text)"
  note run = run[folded r_def]
  have l: "loadDeploymentStates (sample_env ''healthy'') (\<lambda>k. Inr (Map.empty k)) [sample_stack] = Inr Map.empty" by simp
  obtain p rows where p: "operations_ok Operation_Store.sample_hosts rows" "op_find rows (op_ID p) = Some p" "job_operation sample_offer p"
    by (rule sample_started)
  from deployment_audit_truthful[OF sample_stacks_ok(1,3,4) sample_laws run l sample_found p sample_handlers_ok(2), of sample_agent]
  obtain q states' where q: "loadDeploymentStates (sample_env ''healthy'') (\<lambda>k. Inr (([''web'' \<mapsto> content]) k)) [sample_stack] = Inr states'"
    "op_find (finishDeploymentOperation (sqlite_audit Operation_Store.sample_hosts) sample_handlers (agent_answers r)
       (sample_agent, sample_offer, p) rows) = (op_find rows)(op_ID p \<mapsto> q)"
    "audit_matches None (states' ''web'') q"
    unfolding sample_offer_fields by blast
  have "op_find (finishDeploymentOperation (sqlite_audit Operation_Store.sample_hosts) sample_handlers (agent_answers r)
       (sample_agent, sample_offer, p) rows) (op_ID p) = Some q" unfolding q(2) by simp
  then show ?thesis using run q(1,3) by blast
qed


section \<open>A deployment nobody can confirm\<close>

text \<open>A label of 80 characters outside the Basic Multilingual Plane, and the stack and release it names.\<close>

definition wide_label :: "nat \<Rightarrow> string" where
  "wide_label n = concat (replicate n [CHR 0xF0, CHR 0x9F, CHR 0x98, CHR 0x80])"

definition wide_release :: policy_release where
  "wide_release = \<lparr>pr_ID = ''v2'', pr_Label = wide_label 80, pr_Image = sample_image (CHR ''a'')\<rparr>"

definition wide_stack :: deployment_stack where
  "wide_stack = sample_stack\<lparr>sk_Label := wide_label 80, sk_Releases := [wide_release]\<rparr>"

lemma wide_text: "valid_utf8 (wide_label n) \<and> runes (wide_label n) = replicate n 128512 \<and> rune_count (wide_label n) = n \<and>
    length (wide_label n) = 4 * n"
proof (induction n)
  case 0
  then show ?case by (simp add: wide_label_def ascii_eval)
next
  case (Suc n)
  have one: "valid_utf8 [CHR 0xF0, CHR 0x9F, CHR 0x98, CHR 0x80]" "runes [CHR 0xF0, CHR 0x9F, CHR 0x98, CHR 0x80] = [128512]"
    "rune_count [CHR 0xF0, CHR 0x9F, CHR 0x98, CHR 0x80] = 1" by (simp_all add: utf8_eval)
  have "wide_label (Suc n) = [CHR 0xF0, CHR 0x9F, CHR 0x98, CHR 0x80] @ wide_label n" by (simp add: wide_label_def)
  then show ?case using Suc one
    by (simp only: valid_utf8_append[OF one(1)] runes_append[OF one(1)] rune_count_append[OF one(1)] length_append) simp
qed

lemma wide_label_ok: "rune_count (wide_label 80) = 80" "trim_space (wide_label 80) \<noteq> []" "\<not> deploymentTextHasControl (wide_label 80)"
  "valid_utf8 (wide_label 80)" "length (wide_label 80) = 320"
  using wide_text[of 80]
  by (simp_all add: trim_space_empty list_all_iff is_space_def deploymentTextHasControl_def is_control_def list_ex_iff)

lemma wide_stack_ok: "validateDeploymentStack parse_url wide_stack = Inr ()"
proof -
  note S = sample_stacks_ok(2)[of parse_url, unfolded validateDeploymentStack_def andThen_ok guard_ok]
  have "check_releases [] [] (sk_Releases wide_stack) = Inr ()"
    using S wide_label_ok by (simp add: wide_stack_def wide_release_def sample_stack_def andThen_ok Let_def not_less)
  then show ?thesis using S wide_label_ok
    by (simp add: validateDeploymentStack_def andThen_ok wide_stack_def maximumDeploymentReleases_def)
qed

text \<open>A flaw: labels are bounded by 80 characters but the confirmation is bounded by 512 bytes, so a
  policy the Agent accepts can publish a deployment, accepted by the Hub, that no request can ever
  confirm: two labels of 80 four-byte characters make a confirmation of 658 bytes.\<close>

theorem long_confirmation_refused:
  "validateDeploymentPolicy parse_url \<lparr>dp_Version = 1, dp_Stacks = Some [wide_stack]\<rparr> = Inr () \<and>
   deploymentDefinitions [wide_stack] Map.empty = [deploy_offer wide_stack no_state wide_release] \<and>
   validateAgentDeploymentDefinition (deploy_offer wide_stack no_state wide_release) = Inr () \<and>
   choose_deployment env lst rq \<noteq> Inr (a, deploy_offer wide_stack no_state wide_release)"
proof (intro conjI)
  let ?d = "deploy_offer wide_stack no_state wide_release"
  show "validateDeploymentPolicy parse_url \<lparr>dp_Version = 1, dp_Stacks = Some [wide_stack]\<rparr> = Inr ()"
    by (simp add: validateDeploymentPolicy_def deploymentPolicyVersion_def maximumDeploymentStacks_def wide_stack_ok)
  have off: "stack_offers Map.empty wide_stack = [?d]"
    by (simp add: stack_offers_def state_of_def wide_stack_def Let_def no_state_def no_release_def wide_release_def sample_image_def)
  then show "deploymentDefinitions [wide_stack] Map.empty = [?d]" by (simp add: deploymentDefinitions_def)
  have "policy_texts [wide_stack]"
    using wide_label_ok(4) by (simp add: policy_texts_def wide_stack_def wide_release_def sample_stack_def ascii_eval sample_image_def)
  then show "validateAgentDeploymentDefinition ?d = Inr ()"
    using published_valid_deployment(2)[OF wide_stack_ok, of ?d Map.empty] off by simp
  have l: "512 < length (dd_Confirmation ?d)" using wide_label_ok(5) by (simp add: deploy_offer_def wide_stack_def wide_release_def)
  have "valid_deployment_input i \<and> di_Confirmation i = dd_Confirmation d" if "choose_deployment env lst rq = Inr (a, d)"
    "posted_input rq = Inr i" for i d
    using that by (auto simp: choose_deployment_def andThen_ok split: option.splits sum.splits)
  moreover have "\<exists>i. posted_input rq = Inr i" if "choose_deployment env lst rq = Inr (a, d)" for d
    using that by (auto simp: choose_deployment_def andThen_ok)
  ultimately show "choose_deployment env lst rq \<noteq> Inr (a, ?d)" using l unfolding valid_deployment_input_def by fastforce
qed

end
