(* ===== verification/Go_Time.thy ===== *)
theory Go_Time
  imports Domain
begin

text \<open>
  \<^verbatim>\<open>time.Parse(time.RFC3339, s)\<close> as the standard library reads that layout: two digits where the layout
  is zero-padded, one or two for the hour, an optional fraction of a second after a point or a comma, and
  \<^verbatim>\<open>Z\<close> or an offset. The result is the instant in nanoseconds since the zero time.
\<close>

definition take_digits :: "nat \<Rightarrow> string \<Rightarrow> (nat \<times> string) option" where
  "take_digits n s = (if length s < n \<or> \<not> list_all is_digit (take n s) then None
     else Some (digits_value (take n s), drop n s))"

definition take_char :: "char \<Rightarrow> string \<Rightarrow> string option" where
  "take_char c s = (case s of [] \<Rightarrow> None | x # xs \<Rightarrow> if x = c then Some xs else None)"

text \<open>The hour: one digit unless a second one follows.\<close>

definition take_hour :: "string \<Rightarrow> (nat \<times> string) option" where
  "take_hour s = (case take_digits 2 s of Some r \<Rightarrow> Some r | None \<Rightarrow> take_digits 1 s)"

text \<open>The fraction: the digits after the mark, nine of them significant.\<close>

definition take_fraction :: "string \<Rightarrow> int \<times> string" where
  "take_fraction s = (case s of
       c # d # cs \<Rightarrow>
         if (c = CHR ''.'' \<or> c = CHR '','') \<and> is_digit d then
           (let ds = takeWhile is_digit (d # cs); n = take 9 ds in
            (foldl (\<lambda>v c. v * 10 + int (byte c - 48)) 0 n * 10 ^ (9 - length n), dropWhile is_digit (d # cs)))
         else (0, s)
     | _ \<Rightarrow> (0, s))"

text \<open>The offset in minutes.\<close>

definition take_zone :: "string \<Rightarrow> (int \<times> string) option" where
  "take_zone s = (case s of [] \<Rightarrow> None | c # cs \<Rightarrow>
     if c = CHR ''Z'' then Some (0, cs)
     else if c \<noteq> CHR ''+'' \<and> c \<noteq> CHR ''-'' then None
     else Option.bind (take_digits 2 cs) (\<lambda>(h, r1).
       Option.bind (take_char CHR '':'' r1) (\<lambda>r2.
       Option.bind (take_digits 2 r2) (\<lambda>(m, r3).
         if h > 24 \<or> m > 60 then None
         else Some ((if c = CHR ''-'' then -1 else 1) * (int h * 60 + int m), r3)))))"

definition leap :: "nat \<Rightarrow> bool" where
  "leap y = (y mod 4 = 0 \<and> (y mod 100 \<noteq> 0 \<or> y mod 400 = 0))"

definition month_days :: "nat \<Rightarrow> nat \<Rightarrow> nat" where
  "month_days y m = (if m = 2 then (if leap y then 29 else 28) else if m \<in> {4, 6, 9, 11} then 30 else 31)"

text \<open>Days from the first of January of the year 1.\<close>

definition days_before_year :: "nat \<Rightarrow> int" where
  "days_before_year y = (let n = int y - 1 in 365 * n + n div 4 - n div 100 + n div 400)"

definition day_number :: "nat \<Rightarrow> nat \<Rightarrow> nat \<Rightarrow> int" where
  "day_number y m d = days_before_year y + int (sum_list (map (month_days y) [1..<m])) + int d - 1"

definition parse_rfc3339 :: "string \<Rightarrow> time option" where
  "parse_rfc3339 s =
     Option.bind (take_digits 4 s) (\<lambda>(y, s1). Option.bind (take_char CHR ''-'' s1) (\<lambda>s2.
     Option.bind (take_digits 2 s2) (\<lambda>(mo, s3). Option.bind (take_char CHR ''-'' s3) (\<lambda>s4.
     Option.bind (take_digits 2 s4) (\<lambda>(d, s5). Option.bind (take_char CHR ''T'' s5) (\<lambda>s6.
     Option.bind (take_hour s6) (\<lambda>(h, s7). Option.bind (take_char CHR '':'' s7) (\<lambda>s8.
     Option.bind (take_digits 2 s8) (\<lambda>(mi, s9). Option.bind (take_char CHR '':'' s9) (\<lambda>s10.
     Option.bind (take_digits 2 s10) (\<lambda>(sec, s11).
       let (nanos, s12) = take_fraction s11 in
       Option.bind (take_zone s12) (\<lambda>(offset, rest).
         if rest \<noteq> [] \<or> mo < 1 \<or> mo > 12 \<or> d < 1 \<or> d > month_days y mo \<or> h > 23 \<or> mi > 59 \<or> sec > 59 then None
         else Some (((day_number y mo d * 24 + int h) * 60 + int mi - offset) * minute + int sec * second + nanos)))))))))))))"

lemma parse_zero_time: "parse_rfc3339 ''0001-01-01T00:00:00Z'' = Some 0"
  by code_simp

end
