(* ===== verification/Hub_Wire.thy ===== *)
theory Hub_Wire
  imports Go_Time Go_Float Shared_Types
begin

text \<open>
  What an Agent reports about its host (\<^verbatim>\<open>internal/shared/types.go\<close>) and how a listening address is
  classified (\<^verbatim>\<open>internal/shared/exposure.go\<close>).
\<close>

section \<open>Exposure\<close>

type_synonym exposure = string
abbreviation (input) "ExposureLocal \<equiv> ''local''"
abbreviation (input) "ExposureTailnet \<equiv> ''tailnet''"
abbreviation (input) "ExposurePublic \<equiv> ''public''"
abbreviation (input) "ExposureOther \<equiv> ''other''"

text \<open>\<^verbatim>\<open>strings.Trim(b, "[]")\<close>.\<close>

definition trim_brackets :: "string \<Rightarrow> string" where
  "trim_brackets s =
     rev (dropWhile (\<lambda>c. c = CHR ''['' \<or> c = CHR '']'') (rev (dropWhile (\<lambda>c. c = CHR ''['' \<or> c = CHR '']'') s)))"

definition unmap :: "addr \<Rightarrow> addr" where
  "unmap a = (case a of
       AddrV4 os \<Rightarrow> AddrV4 os
     | AddrV6 gs zone \<Rightarrow> if is_4in6 gs then AddrV4 [gs ! 6 div 256, gs ! 6 mod 256, gs ! 7 div 256, gs ! 7 mod 256]
         else AddrV6 gs zone)"

definition is_unspecified :: "addr \<Rightarrow> bool" where
  "is_unspecified a = (a = AddrV4 [0, 0, 0, 0] \<or> a = AddrV6 (replicate 8 0) [])"

definition is_loopback :: "addr \<Rightarrow> bool" where
  "is_loopback a = (case a of
       AddrV4 os \<Rightarrow> hd os = 127
     | AddrV6 gs zone \<Rightarrow> gs = [0, 0, 0, 0, 0, 0, 0, 1])"

text \<open>\<^verbatim>\<open>100.64.0.0/10\<close> and \<^verbatim>\<open>fd7a:115c:a1e0::/48\<close>.\<close>

definition in_tailnet :: "addr \<Rightarrow> bool" where
  "in_tailnet a = (case a of
       AddrV4 os \<Rightarrow> hd os = 100 \<and> 64 \<le> os ! 1 \<and> os ! 1 < 128
     | AddrV6 gs zone \<Rightarrow> zone = [] \<and> take 3 gs = [0xFD7A, 0x115C, 0xA1E0])"

definition ClassifyBind :: "string \<Rightarrow> exposure" where
  "ClassifyBind bind =
     (let b = trim_brackets (trim_space bind) in
      if b = [] \<or> b = ''*'' \<or> b = ''0.0.0.0'' \<or> b = ''::'' then ExposurePublic
      else let b = (case cut CHR ''%'' b of None \<Rightarrow> b | Some (a, _) \<Rightarrow> a) in
        case parse_addr b of
          None \<Rightarrow> ExposurePublic
        | Some a \<Rightarrow>
            let addr = unmap a in
            if is_unspecified addr then ExposurePublic
            else if is_loopback addr then ExposureLocal
            else if in_tailnet addr then ExposureTailnet
            else ExposureOther)"

definition exposureRank :: "exposure \<Rightarrow> nat" where
  "exposureRank e = (if e = ExposureLocal then 0 else if e = ExposureTailnet then 1 else if e = ExposureOther then 2
     else if e = ExposurePublic then 3 else 0)"

record port =
  po_Proto :: string
  po_Port :: int
  po_Bind :: string
  po_Exposure :: exposure

definition MaxExposure :: "port list \<Rightarrow> exposure" where
  "MaxExposure ports = foldl (\<lambda>worst p. if exposureRank (po_Exposure p) > exposureRank worst then po_Exposure p else worst)
     ExposureLocal ports"

definition SplitHostPort :: "string \<Rightarrow> (string \<times> int) option" where
  "SplitHostPort s = (case cut_last CHR '':'' s of
       None \<Rightarrow> None
     | Some (bind, portStr) \<Rightarrow> (case atoi portStr of
         None \<Rightarrow> None
       | Some p \<Rightarrow> if p \<le> 0 \<or> p > 65535 then None else Some (trim_brackets bind, p)))"

section \<open>Services\<close>

record wire_route =
  wr_Kind :: string
  wr_Scheme :: string
  wr_Host :: string
  wr_Port :: int
  wr_Path :: string
  wr_Upstreams :: "string list"

record service =
  sv_Key :: string
  sv_Kind :: string
  sv_Name :: string
  sv_Status :: string
  sv_Since :: string
  sv_Image :: string
  sv_Unit :: string
  sv_ComposeProject :: string
  sv_ComposeService :: string
  sv_Health :: string
  sv_PID :: int
  sv_Ports :: "port list"
  sv_Routes :: "wire_route list"
  sv_Unidentified :: bool
  sv_MaxExposure :: exposure

section \<open>Status\<close>

record load_average =
  la_One :: float64
  la_Five :: float64
  la_Fifteen :: float64
  la_CPUs :: int

record wire_memory =
  wm_TotalBytes :: int
  wm_AvailableBytes :: int
  wm_UsedBytes :: int
  wm_SwapTotalBytes :: int
  wm_SwapUsedBytes :: int

record wire_disk =
  wd_Mount :: string
  wd_Filesystem :: string
  wd_TotalBytes :: int
  wd_FreeBytes :: int
  wd_UsedBytes :: int

record docker_summary =
  dc_Containers :: int
  dc_ContainersRunning :: int
  dc_Images :: int
  dc_Volumes :: int
  dc_ReclaimableBytes :: int
  dc_TotalBytes :: int

record wire_ssh_source =
  ws_Address :: string
  ws_Count :: int

record ssh_auth_summary =
  sa_WindowStart :: string
  sa_WindowEnd :: string
  sa_FailedTotal :: int
  sa_Sources :: "wire_ssh_source list"

text \<open>The security posture, which the Hub passes on untouched, is left out.\<close>

record status =
  st_Hostname :: string
  st_Kernel :: string
  st_OS :: string
  st_UptimeSec :: int
  st_CollectedAt :: string
  st_Load :: load_average
  st_Memory :: wire_memory
  st_Disks :: "wire_disk list"
  st_Docker :: "docker_summary option"
  st_SSH :: "ssh_auth_summary option"
  st_Warnings :: "string list"

record ping =
  pg_OK :: bool
  pg_Hostname :: string
  pg_AgentVer :: string
  pg_APIVersion :: string
  pg_UptimeSec :: int

record services_response =
  sr_Hostname :: string
  sr_CollectedAt :: string
  sr_Services :: "service list option"
  sr_Warnings :: "string list"

section \<open>The exposure of an address\<close>

text \<open>An address is only classified as anything but public when it is one.\<close>

lemma exposure_cases: "ClassifyBind b \<in> {ExposureLocal, ExposureTailnet, ExposurePublic, ExposureOther}"
  by (simp add: ClassifyBind_def Let_def split: option.split)

lemma foldl_exposure:
  "exposureRank (foldl (\<lambda>worst p. if exposureRank (po_Exposure p) > exposureRank worst then po_Exposure p else worst) w ps) =
    Max (insert (exposureRank w) ((\<lambda>p. exposureRank (po_Exposure p)) ` set ps))"
proof (induction ps arbitrary: w)
  case (Cons p ps)
  then show ?case by (cases "ps = []") (auto simp: max_def Max_insert insert_commute)
qed simp

end
