(* ===== verification/Hub_Projection.thy ===== *)
theory Hub_Projection
  imports Hub_Wire
begin

text \<open>
  The projection of what an Agent reports onto an observation (\<^verbatim>\<open>internal/hub/projection.go\<close>). The
  exposure an Agent claims is not read: the binding follows from the address, and the reachability
  starts as unknown.
\<close>

text \<open>\<^verbatim>\<open>strings.ToLower\<close>, for a protocol that must be ASCII in the end.\<close>

definition to_lower :: "string \<Rightarrow> string" where
  "to_lower s = map (\<lambda>c. if 65 \<le> byte c \<and> byte c \<le> 90 then char_of (byte c + 32) else c) s"

definition projectRouteKind :: "string \<Rightarrow> route_kind" where
  "projectRouteKind kind = (if kind = ''proxy'' then RouteProxy else if kind = ''static'' then RouteStatic
     else if kind = ''site'' then RouteSite else RouteUnknown)"

definition projectWorkloadKind :: "string \<Rightarrow> workload_kind" where
  "projectWorkloadKind kind = (if kind = ''docker'' then WorkloadDocker else if kind = ''systemd'' then WorkloadSystemd
     else WorkloadProcess)"

definition projectBinding :: "exposure \<Rightarrow> binding_scope" where
  "projectBinding e = (if e = ExposureLocal then BindingLocal else if e = ExposureTailnet then BindingTailnet
     else if e = ExposurePublic then BindingWildcard else if e = ExposureOther then BindingInterface else BindingUnknown)"

definition statusHasResourceTelemetry :: "status \<Rightarrow> bool" where
  "statusHasResourceTelemetry s = (la_CPUs (st_Load s) > 0 \<or> wm_TotalBytes (st_Memory s) > 0 \<or> st_Disks s \<noteq> [] \<or> st_Docker s \<noteq> None)"

definition projectResources :: "status \<Rightarrow> resources option" where
  "projectResources s =
     (if \<not> statusHasResourceTelemetry s then None
      else Some \<lparr>rs_CPUs = la_CPUs (st_Load s), rs_Load1 = la_One (st_Load s), rs_Load5 = la_Five (st_Load s),
        rs_Load15 = la_Fifteen (st_Load s),
        rs_Memory = \<lparr>mem_TotalBytes = wm_TotalBytes (st_Memory s), mem_AvailableBytes = wm_AvailableBytes (st_Memory s),
          mem_UsedBytes = wm_UsedBytes (st_Memory s), mem_SwapTotalBytes = wm_SwapTotalBytes (st_Memory s),
          mem_SwapUsedBytes = wm_SwapUsedBytes (st_Memory s)\<rparr>,
        rs_Disks = map (\<lambda>d. \<lparr>dk_Mount = wd_Mount d, dk_Filesystem = wd_Filesystem d, dk_TotalBytes = wd_TotalBytes d,
          dk_FreeBytes = wd_FreeBytes d, dk_UsedBytes = wd_UsedBytes d\<rparr>) (st_Disks s),
        rs_Docker = map_option (\<lambda>k. \<lparr>dr_Containers = dc_Containers k, dr_ContainersRunning = dc_ContainersRunning k,
          dr_Images = dc_Images k, dr_Volumes = dc_Volumes k, dr_ReclaimableBytes = dc_ReclaimableBytes k,
          dr_TotalBytes = dc_TotalBytes k\<rparr>) (st_Docker s)\<rparr>)"

text \<open>A projection that fails is only told from one that succeeds.\<close>

definition projectSSHAuth :: "ssh_auth_summary \<Rightarrow> ssh_auth_observation option" where
  "projectSSHAuth s =
     (case (parse_rfc3339 (sa_WindowStart s), parse_rfc3339 (sa_WindowEnd s)) of
        (Some start, Some finish) \<Rightarrow>
          (let projected = \<lparr>ssh_WindowStart = start, ssh_WindowEnd = finish, ssh_FailedTotal = sa_FailedTotal s,
                ssh_Sources = map (\<lambda>x. \<lparr>src_Address = ws_Address x, src_Count = ws_Count x\<rparr>) (sa_Sources s)\<rparr>
           in case validateSSHAuthObservation projected of Inr _ \<Rightarrow> Some projected | Inl _ \<Rightarrow> None)
      | _ \<Rightarrow> None)"

text \<open>\<^verbatim>\<open>seen\<close>: the first element of each key.\<close>

fun first_of_key :: "('a \<Rightarrow> string) \<Rightarrow> string list \<Rightarrow> 'a list \<Rightarrow> 'a list" where
  "first_of_key key seen [] = []"
| "first_of_key key seen (x # xs) =
     (if key x \<in> set seen then first_of_key key seen xs else x # first_of_key key (key x # seen) xs)"

definition port_protocol :: "port \<Rightarrow> string" where
  "port_protocol p = trim_suffix (to_lower (trim_space (po_Proto p))) ''6''"

definition port_key :: "port \<Rightarrow> string" where
  "port_key p = port_protocol p @ ''://'' @ join_host_port (po_Bind p) (itoa (po_Port p))"

definition project_port :: "host_id \<Rightarrow> service \<Rightarrow> port \<Rightarrow> endpoint" where
  "project_port hid s p =
     \<lparr>ep_HostID = hid, ep_WorkloadKey = sv_Key s, ep_Key = port_key p, ep_Protocol = port_protocol p, ep_Bind = po_Bind p,
      ep_Port = po_Port p, ep_Binding = projectBinding (ClassifyBind (po_Bind p)), ep_Reachability = ReachabilityUnknown,
      ep_ReachabilitySource = [], ep_ReachabilityCheckedAt = None\<rparr>"

definition wire_route_key :: "wire_route \<Rightarrow> string" where
  "wire_route_key r = wr_Scheme r @ ''://'' @ join_host_port (wr_Host r) (itoa (wr_Port r)) @ wr_Path r"

definition project_route :: "host_id \<Rightarrow> service \<Rightarrow> wire_route \<Rightarrow> proxy_route" where
  "project_route hid s r =
     \<lparr>rt_HostID = hid, rt_WorkloadKey = sv_Key s, rt_Key = wire_route_key r, rt_Kind = projectRouteKind (wr_Kind r),
      rt_Scheme = wr_Scheme r, rt_Host = wr_Host r, rt_Port = wr_Port r, rt_Path = wr_Path r, rt_Upstreams = wr_Upstreams r\<rparr>"

definition project_workload :: "host_id \<Rightarrow> service \<Rightarrow> workload" where
  "project_workload hid s =
     \<lparr>w_HostID = hid, w_Key = sv_Key s, w_Kind = projectWorkloadKind (sv_Kind s), w_Name = sv_Name s, w_State = sv_Status s,
      w_Image = sv_Image s, w_Unit = sv_Unit s, w_ComposeProject = sv_ComposeProject s, w_ComposeService = sv_ComposeService s,
      w_Health = sv_Health s, w_PID = sv_PID s,
      w_StartedAt = (if sv_Since s = [] then None else parse_rfc3339 (sv_Since s)), w_Unidentified = sv_Unidentified s\<rparr>"

definition start_warning :: "service \<Rightarrow> string list" where
  "start_warning s = (if sv_Since s \<noteq> [] \<and> parse_rfc3339 (sv_Since s) = None
     then [''workload '' @ sv_Key s @ '' has invalid start time''] else [])"

definition service_endpoints :: "host_id \<Rightarrow> service \<Rightarrow> endpoint list" where
  "service_endpoints hid s = map (project_port hid s) (first_of_key port_key [] (sv_Ports s))"

definition service_routes :: "host_id \<Rightarrow> service \<Rightarrow> proxy_route list" where
  "service_routes hid s = map (project_route hid s) (first_of_key wire_route_key [] (sv_Routes s))"

definition projected ::
  "agent_config \<Rightarrow> bool \<Rightarrow> string \<Rightarrow> ping \<Rightarrow> status option \<Rightarrow> service list option \<Rightarrow> time \<Rightarrow> observation" where
  "projected agent online lastError ping status services observedAt =
     (let svs = (case services of None \<Rightarrow> [] | Some ss \<Rightarrow> ss);
          ssh = (case status of None \<Rightarrow> None | Some s \<Rightarrow> Option.bind (st_SSH s) projectSSHAuth) in
      \<lparr>ob_HostID = ac_ID agent, ob_ObservedAt = observedAt, ob_Online = online, ob_LastError = lastError,
       ob_Hostname = (case status of None \<Rightarrow> pg_Hostname ping
         | Some s \<Rightarrow> if st_Hostname s \<noteq> [] then st_Hostname s else pg_Hostname ping),
       ob_AgentVersion = pg_AgentVer ping,
       ob_Resources = Option.bind status projectResources,
       ob_SSH = ssh,
       ob_Workloads = map_option (map (project_workload (ac_ID agent))) services,
       ob_Endpoints = concat (map (service_endpoints (ac_ID agent)) svs),
       ob_Routes = concat (map (service_routes (ac_ID agent)) svs),
       ob_Warnings = (case status of None \<Rightarrow> [] | Some s \<Rightarrow> st_Warnings s @
           (if st_SSH s \<noteq> None \<and> ssh = None then [''agent SSH authentication summary is invalid''] else []))
         @ concat (map start_warning svs)\<rparr>)"

definition projectObservation ::
  "agent_config \<Rightarrow> bool \<Rightarrow> string \<Rightarrow> ping \<Rightarrow> status option \<Rightarrow> service list option \<Rightarrow> time \<Rightarrow> go_error + observation" where
  "projectObservation agent online lastError ping status services observedAt =
     (let ob = projected agent online lastError ping status services observedAt
      in andThen (validateObservation ob) (\<lambda>_. Inr ob))"

end
