(* ===== verification/Mem_Store.thy ===== *)
theory Mem_Store
  imports Hub_Projection Host_Store
begin

text \<open>
  The runtime projection (\<^verbatim>\<open>MemStore\<close> of \<^verbatim>\<open>internal/hub/store.go\<close>): the agents, their latest snapshots,
  the annotations, the link checks and the recent summaries. The time last seen, a text with whole
  seconds in the source, is kept as an instant. Its operations are in \<open>Mem_Operations\<close>.
\<close>

record agent_snapshot =
  sn_ID :: string
  sn_Name :: string
  sn_Online :: bool
  sn_LastSeen :: "time option"
  sn_LastError :: string
  sn_AgentVer :: string
  sn_Status :: "status option"
  sn_Services :: "service list option"

record hub_annotation =
  ha_Key :: string
  ha_AgentID :: string
  ha_Alias :: string
  ha_URL :: string
  ha_Hidden :: bool
  ha_Notes :: string

record mem_store =
  mm_agents :: "agent_config list"
  mm_snaps :: "string \<rightharpoonup> agent_snapshot"
  mm_anns :: "string \<Rightarrow> (string \<rightharpoonup> hub_annotation)"
  mm_checks :: "web_link_check list"
  mm_history :: "string \<Rightarrow> observation_summary list"

definition NewMemStore :: mem_store where
  "NewMemStore = \<lparr>mm_agents = [], mm_snaps = Map.empty, mm_anns = (\<lambda>_. Map.empty), mm_checks = [], mm_history = (\<lambda>_. [])\<rparr>"

definition empty_snapshot :: "string \<Rightarrow> agent_snapshot" where
  "empty_snapshot i = \<lparr>sn_ID = i, sn_Name = [], sn_Online = False, sn_LastSeen = None, sn_LastError = [], sn_AgentVer = [],
     sn_Status = None, sn_Services = None\<rparr>"

definition snapshot_or_new :: "(string \<rightharpoonup> agent_snapshot) \<Rightarrow> string \<Rightarrow> agent_snapshot" where
  "snapshot_or_new snaps i = (case snaps i of None \<Rightarrow> empty_snapshot i | Some s \<Rightarrow> s)"

definition mem_SetAgents :: "agent_config list \<Rightarrow> mem_store \<Rightarrow> mem_store" where
  "mem_SetAgents configured m =
     m\<lparr>mm_agents := configured,
       mm_snaps := fold (\<lambda>a snaps. snaps(ac_ID a \<mapsto> (snapshot_or_new snaps (ac_ID a))\<lparr>sn_Name := ac_Name a\<rparr>)) configured (mm_snaps m)\<rparr>"

definition service_failed :: "service \<Rightarrow> bool" where
  "service_failed s =
     (equal_fold_ascii (trim_space (sv_Status s)) ''failed'' \<or> equal_fold_ascii (trim_space (sv_Health s)) ''unhealthy'')"

definition runtime_summary ::
  "string \<Rightarrow> bool \<Rightarrow> string \<Rightarrow> ping \<Rightarrow> status option \<Rightarrow> service list option \<Rightarrow> time \<Rightarrow> observation_summary" where
  "runtime_summary i online lastError ping status services observedAt =
     (let svs = (case services of None \<Rightarrow> [] | Some ss \<Rightarrow> ss) in
      \<lparr>os_HostID = i, os_ObservedAt = observedAt, os_Online = online, os_LastError = lastError, os_AgentVersion = pg_AgentVer ping,
       os_CPUs = (case status of None \<Rightarrow> 0 | Some s \<Rightarrow> la_CPUs (st_Load s)),
       os_Load1 = (case status of None \<Rightarrow> Fin 0 | Some s \<Rightarrow> la_One (st_Load s)),
       os_MemoryUsedPct = (case status of None \<Rightarrow> 0 | Some s \<Rightarrow> UsagePercent (wm_UsedBytes (st_Memory s)) (wm_TotalBytes (st_Memory s))),
       os_DiskUsedPct = (case status of None \<Rightarrow> 0 | Some s \<Rightarrow>
          (case find (\<lambda>d. wd_Mount d = ''/'') (st_Disks s) of None \<Rightarrow> 0
           | Some d \<Rightarrow> UsagePercent (wd_UsedBytes d) (wd_TotalBytes d))),
       os_WorkloadCount = int (length svs),
       os_FailedWorkloadCount = int (affected service_failed svs),
       os_WildcardEndpointCount = int (affected (\<lambda>p. po_Exposure p = ExposurePublic) (concat (map sv_Ports svs))),
       os_WarningCount = (case status of None \<Rightarrow> 0 | Some s \<Rightarrow> int (length (st_Warnings s)))\<rparr>)"

definition summarizeRuntimeUpdate ::
  "string \<Rightarrow> bool \<Rightarrow> string \<Rightarrow> ping \<Rightarrow> status option \<Rightarrow> service list option \<Rightarrow> time \<Rightarrow> go_error + observation_summary" where
  "summarizeRuntimeUpdate i online lastError ping status services observedAt =
     (let s = runtime_summary i online lastError ping status services observedAt in andThen (validateSummary s) (\<lambda>_. Inr s))"

definition mem_Update ::
  "string \<Rightarrow> bool \<Rightarrow> string \<Rightarrow> ping \<Rightarrow> status option \<Rightarrow> service list option \<Rightarrow> time \<Rightarrow> mem_store \<Rightarrow> go_error + mem_store" where
  "mem_Update i online lastError ping status services observedAt m =
     andThen (summarizeRuntimeUpdate i online lastError ping status services observedAt)
     (\<lambda>summary.
       let snapshot = snapshot_or_new (mm_snaps m) i;
           snapshot' = snapshot\<lparr>sn_Online := online, sn_LastError := lastError, sn_AgentVer := pg_AgentVer ping, sn_Status := status,
             sn_Services := services, sn_LastSeen := (if online then Some (observedAt div second * second) else sn_LastSeen snapshot)\<rparr>
       in Inr (m\<lparr>mm_snaps := (mm_snaps m)(i \<mapsto> snapshot'),
                 mm_history := (mm_history m)(i := take 1000 (summary # mm_history m i))\<rparr>))"

definition mem_Snapshot :: "mem_store \<Rightarrow> agent_snapshot list" where
  "mem_Snapshot m = List.map_filter (\<lambda>a. mm_snaps m (ac_ID a)) (mm_agents m)"

definition mem_SetAnnotation :: "string \<Rightarrow> string \<Rightarrow> hub_annotation \<Rightarrow> mem_store \<Rightarrow> mem_store" where
  "mem_SetAnnotation agentID key a m =
     m\<lparr>mm_anns := (mm_anns m)(agentID := (mm_anns m agentID)(key \<mapsto> a\<lparr>ha_Key := key, ha_AgentID := agentID\<rparr>))\<rparr>"

definition mem_ObservationSummaryHistory :: "host_id \<Rightarrow> int \<Rightarrow> mem_store \<Rightarrow> go_error + observation_summary list" where
  "mem_ObservationSummaryHistory hid limit m =
     andThen (guard ''history limit must be between 1 and 1000'' (limit < 1 \<or> limit > 1000))
     (\<lambda>_. Inr (take (nat limit) (mm_history m hid)))"

definition mem_ReplaceWebLinkChecks :: "url_parser \<Rightarrow> web_link_check list \<Rightarrow> mem_store \<Rightarrow> go_error + mem_store" where
  "mem_ReplaceWebLinkChecks parse_url checks m =
     andThen (check_distinct ''duplicate Web link check'' (\<lambda>c. (lc_HostID c, lc_WorkloadKey c, lc_URL c))
        (validateWebLinkCheck parse_url) (\<lambda>_. Inr ()) [] checks)
     (\<lambda>_. Inr (m\<lparr>mm_checks := checks\<rparr>))"

end
