(* ===== verification/Event_Rules.thy ===== *)
theory Event_Rules
  imports Event_Store Usage_Percent
begin

text \<open>
  The rules that turn an observation into the current event signals of its host
  (\<^verbatim>\<open>internal/hub/event_rules.go\<close>). A Go map is a partial function beside the sorted list of its
  keys; the source ranges over it in no fixed order and sorts the signals at the end, so the order
  would matter only between two signals of one key. That there are none is proved in
  \<open>Event_Evidence\<close>.
\<close>

section \<open>Telemetry\<close>

definition warningServiceDiscoveryFailed :: string where
  "warningServiceDiscoveryFailed = [CHR 0xE6, CHR 0x9C, CHR 0x8D, CHR 0xE5, CHR 0x8A, CHR 0xA1, CHR 0xE5, CHR 0x8F, CHR 0x91, CHR 0xE7, CHR 0x8E, CHR 0xB0, CHR 0xE9, CHR 0x87, CHR 0x87, CHR 0xE9, CHR 0x9B, CHR 0x86, CHR 0xE5, CHR 0xA4, CHR 0xB1, CHR 0xE8, CHR 0xB4, CHR 0xA5]"

definition observationHasWarning :: "observation \<Rightarrow> string list \<Rightarrow> bool" where
  "observationHasWarning ob needles = list_ex (\<lambda>w. list_ex (contains w) needles) (ob_Warnings ob)"

definition memoryTelemetryMissing :: "observation \<Rightarrow> bool" where
  "memoryTelemetryMissing ob = (case ob_Resources ob of
       None \<Rightarrow> True
     | Some rs \<Rightarrow> mem_TotalBytes (rs_Memory rs) \<le> 0 \<or> observationHasWarning ob [''meminfo''])"

definition diskTelemetryMissing :: "observation \<Rightarrow> bool" where
  "diskTelemetryMissing ob = (case ob_Resources ob of
       None \<Rightarrow> True
     | Some rs \<Rightarrow> observationHasWarning ob [[CHR 0xE9, CHR 0x87, CHR 0x87, CHR 0xE9, CHR 0x9B, CHR 0x86, CHR 0xE7, CHR 0xA3, CHR 0x81, CHR 0xE7, CHR 0x9B, CHR 0x98, CHR 0xE5, CHR 0xA4, CHR 0xB1, CHR 0xE8, CHR 0xB4, CHR 0xA5]] \<or> \<not> list_ex (\<lambda>d. dk_Mount d = ''/'') (rs_Disks rs))"

definition loadTelemetryMissing :: "observation \<Rightarrow> bool" where
  "loadTelemetryMissing ob = (case ob_Resources ob of
       None \<Rightarrow> True
     | Some rs \<Rightarrow> rs_CPUs rs \<le> 0 \<or> observationHasWarning ob [''loadavg''])"

definition workloadCategoryMissing :: "observation \<Rightarrow> string \<Rightarrow> string \<Rightarrow> bool" where
  "workloadCategoryMissing ob dedupeKey hostPrefix =
     (if ob_Workloads ob = None \<or> observationHasWarning ob [warningServiceDiscoveryFailed] then True
      else let identity = trim_suffix (trim_prefix dedupeKey (hostPrefix @ ''workload:'')) '':failed'' in
        if has_prefix identity ''docker:'' then observationHasWarning ob [''docker ps '' @ [CHR 0xE5, CHR 0xA4, CHR 0xB1, CHR 0xE8, CHR 0xB4, CHR 0xA5]]
        else if has_prefix identity ''systemd:'' then observationHasWarning ob [''systemd unit '' @ [CHR 0xE9, CHR 0x87, CHR 0x87, CHR 0xE9, CHR 0x9B, CHR 0x86, CHR 0xE5, CHR 0xA4, CHR 0xB1, CHR 0xE8, CHR 0xB4, CHR 0xA5]]
        else observationHasWarning ob [[CHR 0xE8, CHR 0xBF, CHR 0x9B, CHR 0xE7, CHR 0xA8, CHR 0x8B, CHR 0xE6, CHR 0x9D, CHR 0xA5, CHR 0xE6, CHR 0xBA, CHR 0x90, CHR 0xE9, CHR 0x87, CHR 0x87, CHR 0xE9, CHR 0x9B, CHR 0x86, CHR 0xE5, CHR 0xA4, CHR 0xB1, CHR 0xE8, CHR 0xB4, CHR 0xA5]])"

definition listenerTelemetryMissing :: "observation \<Rightarrow> bool" where
  "listenerTelemetryMissing ob =
     (if ob_Workloads ob = None then True
      else observationHasWarning ob [warningServiceDiscoveryFailed, ''docker ps '' @ [CHR 0xE5, CHR 0xA4, CHR 0xB1, CHR 0xE8, CHR 0xB4, CHR 0xA5], ''ss '' @ [CHR 0xE9, CHR 0x87, CHR 0x87, CHR 0xE9, CHR 0x9B, CHR 0x86, CHR 0xE5, CHR 0xA4, CHR 0xB1, CHR 0xE8, CHR 0xB4, CHR 0xA5]])"

section \<open>Signals\<close>

definition signalFromEvent :: "event \<Rightarrow> event_signal" where
  "signalFromEvent e =
     \<lparr>sg_HostID = ev_HostID e, sg_Kind = ev_Kind e, sg_Severity = ev_Severity e,
      sg_DedupeKey = ev_DedupeKey e, sg_Title = ev_Title e, sg_Detail = ev_Detail e\<rparr>"

definition boundedEventDetail :: "string \<Rightarrow> string \<Rightarrow> string" where
  "boundedEventDetail value fallback =
     (let v = (if trim_space value = [] then fallback else trim_space value)
      in if rune_count v > 1000 then concat (map rune_bytes (take 1000 (rune_chunks v))) else v)"

definition sortedEventSignals :: "event_signal list \<Rightarrow> event_signal list" where
  "sortedEventSignals signals = sort_key sg_DedupeKey signals"

text \<open>\<^verbatim>\<open>activeByKey\<close>, and its entries in the order of their keys.\<close>

definition active_by_key :: "observation \<Rightarrow> event list \<Rightarrow> string \<rightharpoonup> event" where
  "active_by_key ob active = index_by ev_DedupeKey (filter (unresolved (ob_HostID ob)) active)"

definition active_entries :: "observation \<Rightarrow> event list \<Rightarrow> event list" where
  "active_entries ob active =
     map (\<lambda>k. the (active_by_key ob active k))
       (sorted_keys (map ev_DedupeKey (filter (unresolved (ob_HostID ob)) active)))"

text \<open>\<^verbatim>\<open>activeByKey[key].ID != ""\<close>, and carrying that event.\<close>

definition is_active :: "(string \<rightharpoonup> event) \<Rightarrow> string \<Rightarrow> bool" where
  "is_active m key = (case m key of None \<Rightarrow> False | Some e \<Rightarrow> ev_ID e \<noteq> [])"

definition carry :: "(string \<rightharpoonup> event) \<Rightarrow> string \<Rightarrow> event_signal list" where
  "carry m key = (if is_active m key then [signalFromEvent (the (m key))] else [])"

section \<open>Resources\<close>

definition memory_signals :: "observation \<Rightarrow> resources \<Rightarrow> (string \<rightharpoonup> event) \<Rightarrow> event_signal list" where
  "memory_signals ob rs m =
     (let key = ob_HostID ob @ '':resource:memory'' in
      if memoryTelemetryMissing ob then carry m key
      else let memory = UsagePercent (mem_UsedBytes (rs_Memory rs)) (mem_TotalBytes (rs_Memory rs)) in
        if memory \<ge> 85 \<or> (is_active m key \<and> memory \<ge> 80) then
          [\<lparr>sg_HostID = ob_HostID ob, sg_Kind = ''resource.memory'',
            sg_Severity = (if memory \<ge> 95 then SeverityCritical else SeverityWarning), sg_DedupeKey = key,
            sg_Title = [CHR 0xE5, CHR 0x86, CHR 0x85, CHR 0xE5, CHR 0xAD, CHR 0x98, CHR 0xE5, CHR 0x8E, CHR 0x8B, CHR 0xE5, CHR 0x8A, CHR 0x9B], sg_Detail = [CHR 0xE5, CHR 0x86, CHR 0x85, CHR 0xE5, CHR 0xAD, CHR 0x98, CHR 0xE4, CHR 0xBD, CHR 0xBF, CHR 0xE7, CHR 0x94, CHR 0xA8, CHR 0xE7, CHR 0x8E, CHR 0x87] @ '' '' @ itoa memory @ ''%''\<rparr>]
        else [])"

definition disk_signals :: "observation \<Rightarrow> resources \<Rightarrow> (string \<rightharpoonup> event) \<Rightarrow> event_signal list" where
  "disk_signals ob rs m =
     (let key = ob_HostID ob @ '':resource:disk:/'' in
      if diskTelemetryMissing ob then carry m key
      else case find (\<lambda>d. dk_Mount d = ''/'') (rs_Disks rs) of
          None \<Rightarrow> []
        | Some d \<Rightarrow>
            let used = UsagePercent (dk_UsedBytes d) (dk_TotalBytes d) in
            if used \<ge> 90 \<or> (is_active m key \<and> used \<ge> 85) then
              [\<lparr>sg_HostID = ob_HostID ob, sg_Kind = ''resource.disk'',
                sg_Severity = (if used \<ge> 95 then SeverityCritical else SeverityWarning), sg_DedupeKey = key,
                sg_Title = [CHR 0xE6, CHR 0xA0, CHR 0xB9, CHR 0xE7, CHR 0xA3, CHR 0x81, CHR 0xE7, CHR 0x9B, CHR 0x98, CHR 0xE7, CHR 0xA9, CHR 0xBA, CHR 0xE9, CHR 0x97, CHR 0xB4, CHR 0xE4, CHR 0xB8, CHR 0x8D, CHR 0xE8, CHR 0xB6, CHR 0xB3], sg_Detail = [CHR 0xE6, CHR 0xA0, CHR 0xB9, CHR 0xE6, CHR 0x96, CHR 0x87, CHR 0xE4, CHR 0xBB, CHR 0xB6, CHR 0xE7, CHR 0xB3, CHR 0xBB, CHR 0xE7, CHR 0xBB, CHR 0x9F, CHR 0xE4, CHR 0xBD, CHR 0xBF, CHR 0xE7, CHR 0x94, CHR 0xA8, CHR 0xE7, CHR 0x8E, CHR 0x87] @ '' '' @ itoa used @ ''%''\<rparr>]
            else [])"

definition load_signals :: "observation \<Rightarrow> resources \<Rightarrow> (string \<rightharpoonup> event) \<Rightarrow> event_signal list" where
  "load_signals ob rs m =
     (let key = ob_HostID ob @ '':resource:load'' in
      if loadTelemetryMissing ob then carry m key
      else if rs_CPUs rs > 0 then
        (let ratio = float_div (rs_Load1 rs) (float_of_int (rs_CPUs rs)) in
         if float_ge ratio (3 / 2) \<or> (is_active m key \<and> float_ge ratio 1) then
           [\<lparr>sg_HostID = ob_HostID ob, sg_Kind = ''resource.load'',
             sg_Severity = (if float_ge ratio 2 then SeverityCritical else SeverityWarning), sg_DedupeKey = key,
             sg_Title = [CHR 0xE7, CHR 0xB3, CHR 0xBB, CHR 0xE7, CHR 0xBB, CHR 0x9F, CHR 0xE8, CHR 0xB4, CHR 0x9F, CHR 0xE8, CHR 0xBD, CHR 0xBD, CHR 0xE6, CHR 0x8C, CHR 0x81, CHR 0xE7, CHR 0xBB, CHR 0xAD, CHR 0xE5, CHR 0x81, CHR 0x8F, CHR 0xE9, CHR 0xAB, CHR 0x98],
             sg_Detail = ''1 '' @ [CHR 0xE5, CHR 0x88, CHR 0x86, CHR 0xE9, CHR 0x92, CHR 0x9F, CHR 0xE8, CHR 0xB4, CHR 0x9F, CHR 0xE8, CHR 0xBD, CHR 0xBD] @ '' '' @ format_2f (rs_Load1 rs) @ '' / '' @ itoa (rs_CPUs rs) @ '' CPU''\<rparr>]
         else [])
      else [])"

definition resource_signals :: "observation \<Rightarrow> (string \<rightharpoonup> event) \<Rightarrow> event list \<Rightarrow> event_signal list" where
  "resource_signals ob m entries = (case ob_Resources ob of
       None \<Rightarrow> map signalFromEvent (filter (\<lambda>e. has_prefix (ev_DedupeKey e) (ob_HostID ob @ '':resource:'')) entries)
     | Some rs \<Rightarrow> memory_signals ob rs m @ disk_signals ob rs m @ load_signals ob rs m)"

section \<open>SSH\<close>

text \<open>\<^verbatim>\<open>int(d.Minutes())\<close>: the whole minutes plus the rest divided by a minute, in float64.\<close>

definition whole_minutes :: "duration \<Rightarrow> int" where
  "whole_minutes d =
     int_of_float (case float_div (float_of_int (d - minute * go_quot d minute)) (Fin 60000000000) of
         Fin r \<Rightarrow> (case float_of_int (go_quot d minute) of Fin q \<Rightarrow> fl64 (q + r) | f \<Rightarrow> f)
       | f \<Rightarrow> f)"

definition sshFailureDetail :: "ssh_auth_observation \<Rightarrow> string" where
  "sshFailureDetail summary =
     (let n = whole_minutes (ssh_WindowEnd summary - ssh_WindowStart summary);
          windowMinutes = (if n < 1 then 1 else n);
          detail = itoa windowMinutes @ '' '' @ [CHR 0xE5, CHR 0x88, CHR 0x86, CHR 0xE9, CHR 0x92, CHR 0x9F, CHR 0xE5, CHR 0x86, CHR 0x85] @ '' SSH '' @ [CHR 0xE8, CHR 0xAE, CHR 0xA4, CHR 0xE8, CHR 0xAF, CHR 0x81, CHR 0xE5, CHR 0xA4, CHR 0xB1, CHR 0xE8, CHR 0xB4, CHR 0xA5] @ '' '' @ itoa (ssh_FailedTotal summary)
            @ '' '' @ [CHR 0xE6, CHR 0xAC, CHR 0xA1];
          sources = take 3 (sort_key (\<lambda>s. - src_Count s) (sort_key src_Address (ssh_Sources summary)))
      in if ssh_Sources summary = [] then detail
         else detail @ [CHR 0xEF, CHR 0xBC, CHR 0x9B, CHR 0xE4, CHR 0xB8, CHR 0xBB, CHR 0xE8, CHR 0xA6, CHR 0x81, CHR 0xE6, CHR 0x9D, CHR 0xA5, CHR 0xE6, CHR 0xBA, CHR 0x90] @ '' '' @
           join [CHR 0xE3, CHR 0x80, CHR 0x81] (map (\<lambda>s. src_Address s @ '' '' @ [CHR 0xC3, CHR 0x97] @ '' '' @ itoa (src_Count s)) sources))"

definition top_source :: "ssh_auth_observation \<Rightarrow> int" where
  "top_source s = foldl (\<lambda>top source. if src_Count source > top then src_Count source else top) 0 (ssh_Sources s)"

definition ssh_signals :: "observation \<Rightarrow> (string \<rightharpoonup> event) \<Rightarrow> event_signal list" where
  "ssh_signals ob m =
     (let key = ob_HostID ob @ '':ssh:authentication-failures'' in
      case ob_SSH ob of
        None \<Rightarrow> carry m key
      | Some s \<Rightarrow>
          let topSource = top_source s;
              aboveOpen = ssh_FailedTotal s \<ge> 30 \<or> topSource \<ge> 10;
              aboveClear = ssh_FailedTotal s \<ge> 10 \<or> topSource \<ge> 3
          in if aboveOpen \<or> (is_active m key \<and> aboveClear) then
               [\<lparr>sg_HostID = ob_HostID ob, sg_Kind = ''ssh.bruteforce'',
                 sg_Severity = (if ssh_FailedTotal s \<ge> 100 \<or> topSource \<ge> 50 then SeverityCritical else SeverityWarning),
                 sg_DedupeKey = key, sg_Title = ''SSH '' @ [CHR 0xE8, CHR 0xAE, CHR 0xA4, CHR 0xE8, CHR 0xAF, CHR 0x81, CHR 0xE5, CHR 0xA4, CHR 0xB1, CHR 0xE8, CHR 0xB4, CHR 0xA5, CHR 0xE7, CHR 0xAA, CHR 0x81, CHR 0xE5, CHR 0xA2, CHR 0x9E], sg_Detail = sshFailureDetail s\<rparr>]
             else [])"

section \<open>Workloads\<close>

definition workloadFailed :: "workload \<Rightarrow> bool" where
  "workloadFailed w =
     (equal_fold_ascii (trim_space (w_State w)) ''failed'' \<or> equal_fold_ascii (trim_space (w_Health w)) ''unhealthy'')"

definition workload_key :: "host_id \<Rightarrow> workload \<Rightarrow> string" where
  "workload_key hid w = hid @ '':workload:'' @ w_Key w @ '':failed''"

definition workload_signal :: "host_id \<Rightarrow> workload \<Rightarrow> event_signal" where
  "workload_signal hid w =
     \<lparr>sg_HostID = hid, sg_Kind = ''workload.failed'', sg_Severity = SeverityCritical, sg_DedupeKey = workload_key hid w,
      sg_Title = [CHR 0xE6, CHR 0x9C, CHR 0x8D, CHR 0xE5, CHR 0x8A, CHR 0xA1, CHR 0xE5, CHR 0xA4, CHR 0xB1, CHR 0xE8, CHR 0xB4, CHR 0xA5, CHR 0xEF, CHR 0xBC, CHR 0x9A] @ w_Name w,
      sg_Detail = boundedEventDetail (w_State w) [CHR 0xE5, CHR 0xB7, CHR 0xA5, CHR 0xE4, CHR 0xBD, CHR 0x9C, CHR 0xE8, CHR 0xB4, CHR 0x9F, CHR 0xE8, CHR 0xBD, CHR 0xBD, CHR 0xE5, CHR 0xA4, CHR 0x84, CHR 0xE4, CHR 0xBA, CHR 0x8E, CHR 0xE5, CHR 0xA4, CHR 0xB1, CHR 0xE8, CHR 0xB4, CHR 0xA5, CHR 0xE7, CHR 0x8A, CHR 0xB6, CHR 0xE6, CHR 0x80, CHR 0x81]\<rparr>"

text \<open>The loop over the workloads, with the keys that have a signal already.\<close>

fun failed_workloads :: "host_id \<Rightarrow> string list \<Rightarrow> workload list \<Rightarrow> event_signal list" where
  "failed_workloads hid seen [] = []"
| "failed_workloads hid seen (w # ws) =
     (if \<not> workloadFailed w \<or> workload_key hid w \<in> set seen then failed_workloads hid seen ws
      else workload_signal hid w # failed_workloads hid (workload_key hid w # seen) ws)"

definition workload_signals :: "observation \<Rightarrow> event list \<Rightarrow> event_signal list" where
  "workload_signals ob entries =
     (let prefix = ob_HostID ob @ '':'';
          mine = filter (\<lambda>e. has_prefix (ev_DedupeKey e) (prefix @ ''workload:'')) entries in
      case ob_Workloads ob of
        None \<Rightarrow> map signalFromEvent mine
      | Some ws \<Rightarrow>
          let carried = filter (\<lambda>e. workloadCategoryMissing ob (ev_DedupeKey e) prefix) mine in
          map signalFromEvent carried @ failed_workloads (ob_HostID ob) (map ev_DedupeKey carried) ws)"

section \<open>Listeners\<close>

definition listener_key :: "host_id \<Rightarrow> endpoint \<Rightarrow> string" where
  "listener_key hid e = hid @ '':listener:'' @ ep_Key e"

definition wildcard_endpoints :: "observation \<Rightarrow> endpoint list" where
  "wildcard_endpoints ob = (if ob_Online ob then filter (\<lambda>e. ep_Binding e = BindingWildcard) (ob_Endpoints ob) else [])"

definition listenerWildcardEndpoints :: "observation \<Rightarrow> string \<rightharpoonup> endpoint" where
  "listenerWildcardEndpoints ob = index_by (listener_key (ob_HostID ob)) (wildcard_endpoints ob)"

definition listenerWildcardKeys :: "observation \<Rightarrow> string list" where
  "listenerWildcardKeys ob = sorted_keys (map (listener_key (ob_HostID ob)) (wildcard_endpoints ob))"

definition listenerAddedSignal :: "host_id \<Rightarrow> string \<Rightarrow> endpoint \<Rightarrow> event_signal" where
  "listenerAddedSignal hid key e =
     \<lparr>sg_HostID = hid, sg_Kind = ''listener.added'', sg_Severity = SeverityWarning, sg_DedupeKey = key,
      sg_Title = [CHR 0xE6, CHR 0x96, CHR 0xB0, CHR 0xE5, CHR 0xA2, CHR 0x9E, CHR 0xE5, CHR 0x85, CHR 0xAC, CHR 0xE7, CHR 0xBD, CHR 0x91, CHR 0xE7, CHR 0xBB, CHR 0x91, CHR 0xE5, CHR 0xAE, CHR 0x9A, CHR 0xEF, CHR 0xBC, CHR 0x9A] @ itoa (ep_Port e) @ ''/'' @ ep_Protocol e,
      sg_Detail = ep_WorkloadKey e @ '' '' @ [CHR 0xC2, CHR 0xB7] @ '' '' @ ep_Bind e\<rparr>"

definition establishingListeners :: "observation option \<Rightarrow> observation \<Rightarrow> bool \<Rightarrow> bool" where
  "establishingListeners previous ob established =
     (let completeTelemetry = ob_Online ob \<and> \<not> listenerTelemetryMissing ob in
      completeTelemetry \<and> (\<not> established \<or> (case previous of None \<Rightarrow> True | Some p \<Rightarrow> \<not> ob_Online p)))"

definition listener_signals ::
  "observation option \<Rightarrow> observation \<Rightarrow> (string \<rightharpoonup> event) \<Rightarrow> event list \<Rightarrow> string set \<Rightarrow> bool \<Rightarrow> event_signal list" where
  "listener_signals previous ob m entries completeListeners established =
     (let added = (\<lambda>key. listenerAddedSignal (ob_HostID ob) key (the (listenerWildcardEndpoints ob key)));
          keys = listenerWildcardKeys ob in
      if listenerTelemetryMissing ob then
        (let carried = filter (\<lambda>e. has_prefix (ev_DedupeKey e) (ob_HostID ob @ '':listener:'')) entries in
         map signalFromEvent carried @
           (if established
            then map added (filter (\<lambda>k. k \<notin> completeListeners \<and> k \<notin> ev_DedupeKey ` set carried) keys)
            else []))
      else if establishingListeners previous ob established then map added (filter (is_active m) keys)
      else map added (filter (\<lambda>k. \<not> (m k = None \<and> k \<in> completeListeners)) keys))"

section \<open>Evaluation\<close>

definition offline_signal :: "observation \<Rightarrow> event_signal" where
  "offline_signal ob =
     \<lparr>sg_HostID = ob_HostID ob, sg_Kind = ''host.offline'', sg_Severity = SeverityCritical,
      sg_DedupeKey = ob_HostID ob @ '':host:offline'', sg_Title = [CHR 0xE4, CHR 0xB8, CHR 0xBB, CHR 0xE6, CHR 0x9C, CHR 0xBA, CHR 0xE7, CHR 0xA6, CHR 0xBB, CHR 0xE7, CHR 0xBA, CHR 0xBF],
      sg_Detail = boundedEventDetail (ob_LastError ob) (''Hub '' @ [CHR 0xE6, CHR 0x97, CHR 0xA0, CHR 0xE6, CHR 0xB3, CHR 0x95, CHR 0xE5, CHR 0x8F, CHR 0x96, CHR 0xE5, CHR 0xBE, CHR 0x97] @ '' Agent '' @ [CHR 0xE5, CHR 0xAE, CHR 0x9E, CHR 0xE6, CHR 0x97, CHR 0xB6, CHR 0xE7, CHR 0x8A, CHR 0xB6, CHR 0xE6, CHR 0x80, CHR 0x81])\<rparr>"

definition evaluateEventSignals ::
  "observation option \<Rightarrow> observation \<Rightarrow> event list \<Rightarrow> string set \<Rightarrow> bool \<Rightarrow> event_signal list" where
  "evaluateEventSignals previous ob active completeListeners established =
     (let m = active_by_key ob active; entries = active_entries ob active in
      sortedEventSignals
        (if \<not> ob_Online ob then
           map signalFromEvent (filter (\<lambda>e. ev_Kind e \<noteq> ''host.offline'') entries) @ [offline_signal ob]
         else
           resource_signals ob m entries @ ssh_signals ob m @ workload_signals ob entries
           @ listener_signals previous ob m entries completeListeners established))"

end
