(* ===== verification/Observation_Store.thy ===== *)
theory Observation_Store
  imports Event_Rules Outbox
begin

text \<open>
  Observations in SQLite (\<^verbatim>\<open>internal/storage/sqlite.go\<close>): recording one with its workloads, endpoints
  and proxy routes, loading it again, the latest one, the history and its summaries, pruning, and the
  baseline of the listeners of a host. Columns that hold JSON keep the encoded value: \<^verbatim>\<open>json.Marshal\<close>
  fails on a float that is not finite and replaces invalid UTF-8 by U+FFFD.
\<close>

section \<open>JSON columns\<close>

definition json_text :: "string \<Rightarrow> string" where
  "json_text s = concat (map rune_bytes (rune_chunks s))"

definition finite_float :: "float64 \<Rightarrow> bool" where
  "finite_float f = (case f of Fin _ \<Rightarrow> True | _ \<Rightarrow> False)"

definition marshal_resources :: "resources \<Rightarrow> go_error + resources" where
  "marshal_resources rs =
     andThen (guard ''json: unsupported value''
       (\<not> (finite_float (rs_Load1 rs) \<and> finite_float (rs_Load5 rs) \<and> finite_float (rs_Load15 rs))))
     (\<lambda>_. Inr (rs\<lparr>rs_Disks := map (\<lambda>d. d\<lparr>dk_Mount := json_text (dk_Mount d), dk_Filesystem := json_text (dk_Filesystem d)\<rparr>)
        (rs_Disks rs)\<rparr>))"

definition marshal_ssh :: "ssh_auth_observation \<Rightarrow> ssh_auth_observation" where
  "marshal_ssh a = a\<lparr>ssh_Sources := map (\<lambda>s. s\<lparr>src_Address := json_text (src_Address s)\<rparr>) (ssh_Sources a)\<rparr>"

section \<open>Recording an observation\<close>

definition insert_workload :: "int \<Rightarrow> workload \<Rightarrow> db \<Rightarrow> go_error + db" where
  "insert_workload i w d =
     (if list_ex (\<lambda>r. fst r = i \<and> w_Key (snd r) = w_Key w) (db_workloads d) then Inl ''insert workload''
      else Inr (d\<lparr>db_workloads := db_workloads d @ [(i, w)]\<rparr>))"

definition workload_exists :: "db \<Rightarrow> int \<Rightarrow> string \<Rightarrow> bool" where
  "workload_exists d i k = list_ex (\<lambda>r. fst r = i \<and> w_Key (snd r) = k) (db_workloads d)"

definition insert_endpoint :: "int \<Rightarrow> endpoint \<Rightarrow> db \<Rightarrow> go_error + db" where
  "insert_endpoint i e d =
     (if ep_Port e < 1 \<or> ep_Port e > 65535 \<or> \<not> workload_exists d i (ep_WorkloadKey e)
         \<or> list_ex (\<lambda>r. fst r = i \<and> ep_WorkloadKey (snd r) = ep_WorkloadKey e \<and> ep_Key (snd r) = ep_Key e) (db_endpoints d)
      then Inl ''insert endpoint''
      else Inr (d\<lparr>db_endpoints := db_endpoints d @ [(i, e)]\<rparr>))"

definition insert_route :: "int \<Rightarrow> proxy_route \<Rightarrow> db \<Rightarrow> go_error + db" where
  "insert_route i r d =
     (if (rt_Scheme r \<noteq> ''http'' \<and> rt_Scheme r \<noteq> ''https'') \<or> rt_Port r < 1 \<or> rt_Port r > 65535
         \<or> rt_Kind r \<notin> {RouteUnknown, RouteProxy, RouteStatic, RouteSite}
         \<or> \<not> workload_exists d i (rt_WorkloadKey r)
         \<or> list_ex (\<lambda>x. fst x = i \<and> rt_WorkloadKey (snd x) = rt_WorkloadKey r \<and> rt_Key (snd x) = rt_Key r) (db_routes d)
      then Inl ''insert proxy route''
      else Inr (d\<lparr>db_routes := db_routes d @ [(i, r\<lparr>rt_Upstreams := map json_text (rt_Upstreams r)\<rparr>)]\<rparr>))"

definition insert_observation :: "observation \<Rightarrow> resources option \<Rightarrow> db \<Rightarrow> go_error + (int \<times> db)" where
  "insert_observation ob rs d =
     (let i = db_observation_seq d + 1 in
      andThen (guard ''insert observation'' (\<not> host_exists (db_hosts d) (ob_HostID ob)))
      (\<lambda>_. Inr (i, d\<lparr>db_observation_seq := i, db_observations := db_observations d @
        [\<lparr>or_ID = i, or_HostID = ob_HostID ob, or_ObservedAt = ob_ObservedAt ob, or_Online = ob_Online ob,
          or_LastError = ob_LastError ob, or_Hostname = ob_Hostname ob, or_AgentVersion = ob_AgentVersion ob,
          or_Resources = rs, or_SSH = map_option marshal_ssh (ob_SSH ob), or_Warnings = map json_text (ob_Warnings ob),
          or_WorkloadsCollected = (ob_Workloads ob \<noteq> None)\<rparr>]\<rparr>)))"

definition recordObservationTx :: "observation \<Rightarrow> db \<Rightarrow> go_error + (int \<times> db)" where
  "recordObservationTx ob d =
     andThen (case ob_Resources ob of None \<Rightarrow> Inr None | Some rs \<Rightarrow> andThen (marshal_resources rs) (\<lambda>r. Inr (Some r)))
     (\<lambda>rs. andThen (insert_observation ob rs d)
     (\<lambda>(i, d1). andThen (each (insert_workload i) (workloads_of ob) d1)
     (\<lambda>d2. andThen (each (insert_endpoint i) (ob_Endpoints ob) d2)
     (\<lambda>d3. andThen (each (insert_route i) (ob_Routes ob) d3)
     (\<lambda>d4. Inr (i, d4))))))"

definition RecordObservation :: "observation \<Rightarrow> db \<Rightarrow> go_error + (int \<times> db)" where
  "RecordObservation ob d = andThen (validateObservation ob) (\<lambda>_. recordObservationTx ob d)"

section \<open>The listener baseline\<close>

definition listenerBaselineKeys :: "host_id \<Rightarrow> db \<Rightarrow> string set" where
  "listenerBaselineKeys hid d = snd ` set (filter (\<lambda>r. fst r = hid) (db_listener_baselines d))"

definition ListenerBaseline :: "host_id \<Rightarrow> db \<Rightarrow> go_error + (string set \<times> bool)" where
  "ListenerBaseline hid d =
     andThen (guard ''listener baseline host id must not be empty'' (trim_space hid = []))
     (\<lambda>_. Inr (listenerBaselineKeys hid d, list_ex (\<lambda>r. fst r = hid) (db_listener_hosts d)))"

definition insert_baseline :: "host_id \<Rightarrow> string \<Rightarrow> db \<Rightarrow> go_error + db" where
  "insert_baseline hid key d =
     (if trim_space key = [] \<or> length key > 640 then Inl ''listener baseline key is invalid''
      else if \<not> host_exists (db_hosts d) hid \<or> (hid, key) \<in> set (db_listener_baselines d) then Inl ''insert listener baseline''
      else Inr (d\<lparr>db_listener_baselines := db_listener_baselines d @ [(hid, key)]\<rparr>))"

definition replaceListenerBaselineTx :: "time \<Rightarrow> host_id \<Rightarrow> string list \<Rightarrow> db \<Rightarrow> go_error + db" where
  "replaceListenerBaselineTx now hid keys d =
     andThen (each (insert_baseline hid) keys
       (d\<lparr>db_listener_baselines := filter (\<lambda>r. fst r \<noteq> hid) (db_listener_baselines d)\<rparr>))
     (\<lambda>d1. if list_ex (\<lambda>r. fst r = hid) (db_listener_hosts d1)
           then Inr (d1\<lparr>db_listener_hosts := update_where (\<lambda>r. fst r = hid) (\<lambda>r. (hid, now)) (db_listener_hosts d1)\<rparr>)
           else if \<not> host_exists (db_hosts d1) hid then Inl ''establish listener baseline host''
           else Inr (d1\<lparr>db_listener_hosts := db_listener_hosts d1 @ [(hid, now)]\<rparr>))"

definition EstablishListenerBaseline :: "time \<Rightarrow> host_id \<Rightarrow> string list \<Rightarrow> db \<Rightarrow> go_error + db" where
  "EstablishListenerBaseline now hid keys d =
     andThen (guard ''listener baseline host id must not be empty'' (trim_space hid = []))
     (\<lambda>_. replaceListenerBaselineTx now hid keys d)"

section \<open>Recording with events, notifications and a baseline\<close>

definition validateSignals :: "host_id \<Rightarrow> event_signal list \<Rightarrow> go_error + unit" where
  "validateSignals hid signals =
     check_distinct ''duplicate event signal'' sg_DedupeKey
       (\<lambda>s. andThen (validateEventSignal s) (\<lambda>_. guard ''event signal belongs to a different host'' (sg_HostID s \<noteq> hid)))
       (\<lambda>_. Inr ()) [] signals"

definition recordObservationWithEvents ::
  "(nat \<Rightarrow> string) \<Rightarrow> time \<Rightarrow> observation \<Rightarrow> event_signal list \<Rightarrow> notification_policy list \<Rightarrow> string list option \<Rightarrow> db
   \<Rightarrow> go_error + (int \<times> event_transition list \<times> db)" where
  "recordObservationWithEvents newid now ob signals policies listenerBaseline d =
     andThen (validateObservation ob)
     (\<lambda>_. andThen (validateNotificationPolicies policies)
     (\<lambda>_. andThen (validateSignals (ob_HostID ob) signals)
     (\<lambda>_. andThen (recordObservationTx ob d)
     (\<lambda>(i, d1). andThen (reconcileEventSignals newid (db_hosts d1) (ob_HostID ob) (ob_ObservedAt ob) signals (db_events d1))
     (\<lambda>(events, transitions). andThen (enqueueEventNotifications events transitions policies (ob_ObservedAt ob) (db_outbox d1))
     (\<lambda>rows. let d2 = d1\<lparr>db_events := events, db_outbox := rows\<rparr> in
        andThen (case listenerBaseline of None \<Rightarrow> Inr d2 | Some keys \<Rightarrow> replaceListenerBaselineTx now (ob_HostID ob) keys d2)
        (\<lambda>d3. Inr (i, transitions, d3))))))))"

definition RecordObservationWithEvents ::
  "(nat \<Rightarrow> string) \<Rightarrow> observation \<Rightarrow> event_signal list \<Rightarrow> db \<Rightarrow> go_error + (int \<times> event_transition list \<times> db)" where
  "RecordObservationWithEvents newid ob signals d = recordObservationWithEvents newid 0 ob signals [] None d"

definition RecordObservationWithNotifications ::
  "(nat \<Rightarrow> string) \<Rightarrow> observation \<Rightarrow> event_signal list \<Rightarrow> notification_policy list \<Rightarrow> db
   \<Rightarrow> go_error + (int \<times> event_transition list \<times> db)" where
  "RecordObservationWithNotifications newid ob signals policies d = recordObservationWithEvents newid 0 ob signals policies None d"

definition RecordObservationWithListenerBaseline ::
  "(nat \<Rightarrow> string) \<Rightarrow> time \<Rightarrow> observation \<Rightarrow> event_signal list \<Rightarrow> notification_policy list \<Rightarrow> string list \<Rightarrow> db
   \<Rightarrow> go_error + (int \<times> event_transition list \<times> db)" where
  "RecordObservationWithListenerBaseline newid now ob signals policies keys d =
     recordObservationWithEvents newid now ob signals policies (Some keys) d"

section \<open>Loading\<close>

definition load_workloads :: "host_id \<Rightarrow> int \<Rightarrow> db \<Rightarrow> workload list" where
  "load_workloads hid i d =
     map (\<lambda>r. (snd r)\<lparr>w_HostID := hid\<rparr>) (sort_key (\<lambda>r. w_Key (snd r)) (filter (\<lambda>r. fst r = i) (db_workloads d)))"

definition load_endpoints :: "host_id \<Rightarrow> int \<Rightarrow> db \<Rightarrow> endpoint list" where
  "load_endpoints hid i d =
     map (\<lambda>r. (snd r)\<lparr>ep_HostID := hid\<rparr>)
       (sort_key (\<lambda>r. ep_WorkloadKey (snd r)) (sort_key (\<lambda>r. ep_Key (snd r)) (filter (\<lambda>r. fst r = i) (db_endpoints d))))"

definition load_routes :: "host_id \<Rightarrow> int \<Rightarrow> db \<Rightarrow> proxy_route list" where
  "load_routes hid i d =
     map (\<lambda>r. (snd r)\<lparr>rt_HostID := hid\<rparr>)
       (sort_key (\<lambda>r. rt_WorkloadKey (snd r)) (sort_key (\<lambda>r. rt_Key (snd r)) (filter (\<lambda>r. fst r = i) (db_routes d))))"

text \<open>Without collected workloads a nil slice stays nil, unless there are rows.\<close>

definition loadObservation :: "db \<Rightarrow> int \<Rightarrow> go_error + observation" where
  "loadObservation d i =
     (case find (\<lambda>r. or_ID r = i) (db_observations d) of
        None \<Rightarrow> Inl ''sql: no rows in result set''
      | Some r \<Rightarrow>
          let ws = load_workloads (or_HostID r) i d;
              ob = \<lparr>ob_HostID = or_HostID r, ob_ObservedAt = or_ObservedAt r, ob_Online = or_Online r,
                    ob_LastError = or_LastError r, ob_Hostname = or_Hostname r, ob_AgentVersion = or_AgentVersion r,
                    ob_Resources = or_Resources r, ob_SSH = or_SSH r,
                    ob_Workloads = (if ws = [] \<and> \<not> or_WorkloadsCollected r then None else Some ws),
                    ob_Endpoints = load_endpoints (or_HostID r) i d, ob_Routes = load_routes (or_HostID r) i d,
                    ob_Warnings = or_Warnings r\<rparr>
          in andThen (validateObservation ob) (\<lambda>_. Inr ob))"

text \<open>\<^verbatim>\<open>ORDER BY observed_at DESC, id DESC\<close>.\<close>

definition newest_observations :: "host_id \<Rightarrow> db \<Rightarrow> observation_row list" where
  "newest_observations hid d =
     sort_key (\<lambda>r. - or_ObservedAt r) (sort_key (\<lambda>r. - or_ID r) (filter (\<lambda>r. or_HostID r = hid) (db_observations d)))"

definition LatestObservation :: "host_id \<Rightarrow> db \<Rightarrow> go_error + observation option" where
  "LatestObservation hid d =
     (case newest_observations hid d of
        [] \<Rightarrow> Inr None
      | r # _ \<Rightarrow> andThen (loadObservation d (or_ID r)) (\<lambda>ob. Inr (Some ob)))"

text \<open>A loop that collects the results and stops at the first error.\<close>

fun collect :: "('a \<Rightarrow> 'e + 'b) \<Rightarrow> 'a list \<Rightarrow> 'e + 'b list" where
  "collect f [] = Inr []"
| "collect f (x # xs) = andThen (f x) (\<lambda>y. andThen (collect f xs) (\<lambda>ys. Inr (y # ys)))"

definition ObservationHistory :: "host_id \<Rightarrow> int \<Rightarrow> db \<Rightarrow> go_error + observation list" where
  "ObservationHistory hid limit d =
     andThen (guard ''history limit must be between 1 and 1000'' (limit < 1 \<or> limit > 1000))
     (\<lambda>_. collect (\<lambda>r. loadObservation d (or_ID r)) (take (nat limit) (newest_observations hid d)))"

section \<open>Summaries\<close>

text \<open>SQLite's \<^verbatim>\<open>trim\<close> removes spaces only, and its \<^verbatim>\<open>lower\<close> folds ASCII letters only.\<close>

definition sql_trim :: "string \<Rightarrow> string" where
  "sql_trim s = rev (dropWhile (\<lambda>c. c = CHR '' '') (rev (dropWhile (\<lambda>c. c = CHR '' '') s)))"

definition sql_lower :: "string \<Rightarrow> string" where
  "sql_lower s = map (\<lambda>c. if 65 \<le> byte c \<and> byte c \<le> 90 then char_of (byte c + 32) else c) s"

definition sql_failed :: "workload \<Rightarrow> bool" where
  "sql_failed w = (sql_lower (sql_trim (w_State w)) = ''failed'' \<or> sql_lower (sql_trim (w_Health w)) = ''unhealthy'')"

definition summary_row :: "db \<Rightarrow> observation_row \<Rightarrow> observation_summary" where
  "summary_row d r =
     \<lparr>os_HostID = or_HostID r, os_ObservedAt = or_ObservedAt r, os_Online = or_Online r, os_LastError = or_LastError r,
      os_AgentVersion = or_AgentVersion r,
      os_CPUs = (case or_Resources r of None \<Rightarrow> 0 | Some x \<Rightarrow> rs_CPUs x),
      os_Load1 = (case or_Resources r of None \<Rightarrow> Fin 0 | Some x \<Rightarrow> rs_Load1 x),
      os_MemoryUsedPct = (case or_Resources r of None \<Rightarrow> 0
        | Some x \<Rightarrow> UsagePercent (mem_UsedBytes (rs_Memory x)) (mem_TotalBytes (rs_Memory x))),
      os_DiskUsedPct = (case or_Resources r of None \<Rightarrow> 0 | Some x \<Rightarrow> root_disk_pct (rs_Disks x)),
      os_WorkloadCount = int (affected (\<lambda>w. fst w = or_ID r) (db_workloads d)),
      os_FailedWorkloadCount = int (affected (\<lambda>w. fst w = or_ID r \<and> sql_failed (snd w)) (db_workloads d)),
      os_WildcardEndpointCount = int (affected (\<lambda>e. fst e = or_ID r \<and> ep_Binding (snd e) = BindingWildcard) (db_endpoints d)),
      os_WarningCount = int (length (or_Warnings r))\<rparr>"

definition ObservationSummaryHistory :: "host_id \<Rightarrow> int \<Rightarrow> db \<Rightarrow> go_error + observation_summary list" where
  "ObservationSummaryHistory hid limit d =
     andThen (guard ''history limit must be between 1 and 1000'' (limit < 1 \<or> limit > 1000))
     (\<lambda>_. collect (\<lambda>r. andThen (validateSummary (summary_row d r)) (\<lambda>_. Inr (summary_row d r)))
       (take (nat limit) (newest_observations hid d)))"

section \<open>Retention\<close>

text \<open>\<^verbatim>\<open>DELETE FROM observations\<close>, whose rows take their workloads, endpoints and routes with them.\<close>

definition PruneObservations :: "time \<Rightarrow> db \<Rightarrow> int \<times> db" where
  "PruneObservations before d =
     (let gone = (\<lambda>r. or_ObservedAt r < before);
          ids = map or_ID (filter gone (db_observations d)) in
      (int (affected gone (db_observations d)),
       d\<lparr>db_observations := filter (\<lambda>r. \<not> gone r) (db_observations d),
         db_workloads := filter (\<lambda>r. fst r \<notin> set ids) (db_workloads d),
         db_endpoints := filter (\<lambda>r. fst r \<notin> set ids) (db_endpoints d),
         db_routes := filter (\<lambda>r. fst r \<notin> set ids) (db_routes d)\<rparr>))"

end
