(* ===== verification/Hub_Store.thy ===== *)
theory Hub_Store
  imports Mem_Store Observation_Store
begin

text \<open>
  The durable store of the Hub (\<^verbatim>\<open>internal/hub/sqlite_store.go\<close>): the database beside the runtime
  projection. An update that fails after the database committed leaves the database changed, so an
  operation returns the store even when it returns an error.
\<close>

record hub_store =
  hb_database :: db
  hb_runtime :: mem_store
  hb_policies :: "notification_policy list"

definition config_host :: "agent_config \<Rightarrow> host" where
  "config_host a = \<lparr>h_ID = ac_ID a, h_Name = ac_Name a, h_PublicHost = ac_PublicHost a\<rparr>"

definition SetAgents :: "time \<Rightarrow> agent_config list \<Rightarrow> hub_store \<Rightarrow> go_error + hub_store" where
  "SetAgents now configured s =
     andThen (SyncHosts now (map config_host configured) (hb_database s))
     (\<lambda>d. Inr (s\<lparr>hb_database := d, hb_runtime := mem_SetAgents configured (hb_runtime s)\<rparr>))"

definition find_agent :: "string \<Rightarrow> mem_store \<Rightarrow> agent_config option" where
  "find_agent i m = find (\<lambda>a. ac_ID a = i) (mm_agents m)"

text \<open>The part of \<^verbatim>\<open>Update\<close> inside the critical section.\<close>

definition persist_observation ::
  "(nat \<Rightarrow> string) \<Rightarrow> time \<Rightarrow> notification_policy list \<Rightarrow> observation \<Rightarrow> db \<Rightarrow> go_error + db" where
  "persist_observation newid now policies ob d =
     andThen (LatestObservation (ob_HostID ob) d)
     (\<lambda>previous. andThen (ActiveEvents (ob_HostID ob) d)
     (\<lambda>active. andThen (ListenerBaseline (ob_HostID ob) d)
     (\<lambda>(completeListeners, established).
       let signals = evaluateEventSignals previous ob active completeListeners established in
       andThen (if ob_Online ob \<and> \<not> listenerTelemetryMissing ob
          then RecordObservationWithListenerBaseline newid now ob signals policies (listenerWildcardKeys ob) d
          else RecordObservationWithNotifications newid ob signals policies d)
       (\<lambda>(_, _, d'). Inr d'))))"

definition Update ::
  "(nat \<Rightarrow> string) \<Rightarrow> time \<Rightarrow> string \<Rightarrow> bool \<Rightarrow> string \<Rightarrow> ping \<Rightarrow> status option \<Rightarrow> service list option \<Rightarrow> time \<Rightarrow> hub_store
   \<Rightarrow> (go_error + unit) \<times> hub_store" where
  "Update newid now i online lastError ping status services observedAt s =
     (case find_agent i (hb_runtime s) of
        None \<Rightarrow> (Inl ''update unknown agent'', s)
      | Some agent \<Rightarrow>
          (case projectObservation agent online lastError ping status services observedAt of
             Inl e \<Rightarrow> (Inl e, s)
           | Inr ob \<Rightarrow>
               (case persist_observation newid now (hb_policies s) ob (hb_database s) of
                  Inl e \<Rightarrow> (Inl e, s)
                | Inr d \<Rightarrow>
                    let s1 = s\<lparr>hb_database := d\<rparr> in
                    (case mem_Update i online lastError ping status services observedAt (hb_runtime s1) of
                       Inl e \<Rightarrow> (Inl e, s1)
                     | Inr m \<Rightarrow> (Inr (), s1\<lparr>hb_runtime := m\<rparr>)))))"

definition SetAnnotation :: "url_parser \<Rightarrow> time \<Rightarrow> string \<Rightarrow> string \<Rightarrow> hub_annotation \<Rightarrow> hub_store \<Rightarrow> go_error + hub_store" where
  "SetAnnotation parse_url now agentID key a s =
     andThen (UpsertAnnotation parse_url
        \<lparr>an_HostID = agentID, an_WorkloadKey = key, an_Alias = ha_Alias a, an_URL = ha_URL a, an_Hidden = ha_Hidden a,
         an_Notes = ha_Notes a, an_UpdatedAt = now\<rparr> (hb_database s))
     (\<lambda>d. Inr (s\<lparr>hb_database := d, hb_runtime := mem_SetAnnotation agentID key a (hb_runtime s)\<rparr>))"

definition annotation_of :: "annotation \<Rightarrow> hub_annotation" where
  "annotation_of a = \<lparr>ha_Key = an_WorkloadKey a, ha_AgentID = an_HostID a, ha_Alias = an_Alias a, ha_URL = an_URL a,
     ha_Hidden = an_Hidden a, ha_Notes = an_Notes a\<rparr>"

definition reload_host :: "url_parser \<Rightarrow> db \<Rightarrow> agent_config \<Rightarrow> mem_store \<Rightarrow> go_error + mem_store" where
  "reload_host parse_url d agent m =
     andThen (Annotations parse_url (ac_ID agent) d)
     (\<lambda>as. Inr (fold (\<lambda>a. mem_SetAnnotation (ac_ID agent) (an_WorkloadKey a) (annotation_of a)) as m))"

definition reloadAnnotations :: "url_parser \<Rightarrow> hub_store \<Rightarrow> go_error + hub_store" where
  "reloadAnnotations parse_url s =
     andThen (each (reload_host parse_url (hb_database s)) (mm_agents (hb_runtime s)) (hb_runtime s))
     (\<lambda>m. Inr (s\<lparr>hb_runtime := m\<rparr>))"

text \<open>The baseline of a host that has none: the keys migrated from an older version, or those of the newest
  complete observation.\<close>

definition backfill_host :: "time \<Rightarrow> agent_config \<Rightarrow> db \<Rightarrow> go_error + db" where
  "backfill_host now agent d =
     andThen (ListenerBaseline (ac_ID agent) d)
     (\<lambda>(keys, established).
       if established then Inr d
       else if keys \<noteq> {} then EstablishListenerBaseline now (ac_ID agent) (sorted_list_of_set keys) d
       else andThen (ObservationHistory (ac_ID agent) 1000 d)
         (\<lambda>history. case find (\<lambda>ob. ob_Online ob \<and> \<not> listenerTelemetryMissing ob) history of
             None \<Rightarrow> Inr d
           | Some ob \<Rightarrow> EstablishListenerBaseline now (ac_ID agent) (listenerWildcardKeys ob) d))"

definition backfillListenerBaselines :: "time \<Rightarrow> hub_store \<Rightarrow> go_error + hub_store" where
  "backfillListenerBaselines now s =
     andThen (each (backfill_host now) (mm_agents (hb_runtime s)) (hb_database s))
     (\<lambda>d. Inr (s\<lparr>hb_database := d\<rparr>))"

end
