(* ===== verification/Event_Evidence.thy ===== *)
theory Event_Evidence
  imports Event_Rules
begin

text \<open>
  What the event rules promise: an event recovers only when the observation itself shows that its
  condition is over, it is opened only when the observation shows that it holds, and the signals of
  one observation are valid, host-scoped and strictly ordered by their keys.
\<close>

section \<open>The map of the active events\<close>

lemma active_by_key_Some:
  "active_by_key ob active k = Some e \<Longrightarrow> ev_DedupeKey e = k \<and> e \<in> set active \<and> unresolved (ob_HostID ob) e"
  unfolding active_by_key_def by (auto dest: index_by_eq_Some)

lemma active_by_key_None:
  "active_by_key ob active k = None \<longleftrightarrow> (\<forall>e \<in> set active. unresolved (ob_HostID ob) e \<longrightarrow> ev_DedupeKey e \<noteq> k)"
  unfolding active_by_key_def by (auto simp: index_by_None)

lemma active_entries_iff: "e \<in> set (active_entries ob active) \<longleftrightarrow> active_by_key ob active (ev_DedupeKey e) = Some e"
proof
  assume "e \<in> set (active_entries ob active)"
  then obtain f where f: "f \<in> set active" "unresolved (ob_HostID ob) f" "e = the (active_by_key ob active (ev_DedupeKey f))"
    by (auto simp: active_entries_def)
  then have "active_by_key ob active (ev_DedupeKey f) \<noteq> None" unfolding active_by_key_None by blast
  then obtain g where g: "active_by_key ob active (ev_DedupeKey f) = Some g" by blast
  then show "active_by_key ob active (ev_DedupeKey e) = Some e" using f(3) active_by_key_Some[OF g] by simp
next
  assume e: "active_by_key ob active (ev_DedupeKey e) = Some e"
  then have "ev_DedupeKey e \<in> ev_DedupeKey ` set (filter (unresolved (ob_HostID ob)) active)"
    using active_by_key_Some[OF e] by auto
  then show "e \<in> set (active_entries ob active)" using e by (auto simp: active_entries_def image_iff intro!: bexI[of _ e])
qed

lemma active_entries_keys: "map ev_DedupeKey (active_entries ob active) =
    sorted_keys (map ev_DedupeKey (filter (unresolved (ob_HostID ob)) active))"
proof -
  have "ev_DedupeKey (the (active_by_key ob active k)) = k"
    if "k \<in> set (sorted_keys (map ev_DedupeKey (filter (unresolved (ob_HostID ob)) active)))" for k
  proof -
    have "active_by_key ob active k \<noteq> None" using that unfolding active_by_key_None by auto
    then show ?thesis using active_by_key_Some by fastforce
  qed
  then show ?thesis unfolding active_entries_def map_map by (intro map_idI) simp
qed

lemma distinct_active_entries: "distinct (map ev_DedupeKey (active_entries ob active))"
  unfolding active_entries_keys by simp

lemma signalFromEvent_key [simp]: "sg_DedupeKey (signalFromEvent e) = ev_DedupeKey e" "sg_HostID (signalFromEvent e) = ev_HostID e"
  by (simp_all add: signalFromEvent_def)

lemma carry_keys:
  "sg_DedupeKey ` set (carry (active_by_key ob active) k) = (if is_active (active_by_key ob active) k then {k} else {})"
  using active_by_key_Some by (auto simp: carry_def is_active_def split: option.splits)

lemma carry_nothing [simp]: "carry m k = [] \<longleftrightarrow> \<not> is_active m k"
  by (simp add: carry_def)

section \<open>Which keys have a signal\<close>

definition memory_percent :: "resources \<Rightarrow> int" where
  "memory_percent rs = UsagePercent (mem_UsedBytes (rs_Memory rs)) (mem_TotalBytes (rs_Memory rs))"

definition root_percent :: "resources \<Rightarrow> int" where
  "root_percent rs = (case find (\<lambda>d. dk_Mount d = ''/'') (rs_Disks rs) of
       None \<Rightarrow> 0 | Some d \<Rightarrow> UsagePercent (dk_UsedBytes d) (dk_TotalBytes d))"

definition load_ratio :: "resources \<Rightarrow> float64" where
  "load_ratio rs = float_div (rs_Load1 rs) (float_of_int (rs_CPUs rs))"

lemma memory_keys:
  "sg_DedupeKey ` set (memory_signals ob rs (active_by_key ob active)) =
    (let k = ob_HostID ob @ '':resource:memory''; a = is_active (active_by_key ob active) k in
     if (if memoryTelemetryMissing ob then a else memory_percent rs \<ge> 85 \<or> a \<and> memory_percent rs \<ge> 80) then {k} else {})"
  by (simp add: memory_signals_def carry_keys memory_percent_def Let_def)

lemma disk_keys:
  assumes "ob_Resources ob = Some rs"
  shows "sg_DedupeKey ` set (disk_signals ob rs (active_by_key ob active)) =
    (let k = ob_HostID ob @ '':resource:disk:/''; a = is_active (active_by_key ob active) k in
     if (if diskTelemetryMissing ob then a else root_percent rs \<ge> 90 \<or> a \<and> root_percent rs \<ge> 85) then {k} else {})"
proof (cases "diskTelemetryMissing ob")
  case False
  then have "find (\<lambda>d. dk_Mount d = ''/'') (rs_Disks rs) \<noteq> None"
    using assms by (auto simp: diskTelemetryMissing_def list_ex_iff find_None_iff)
  then obtain d where "find (\<lambda>d. dk_Mount d = ''/'') (rs_Disks rs) = Some d" by blast
  then show ?thesis using False by (simp add: disk_signals_def root_percent_def Let_def del: append.simps)
qed (simp add: disk_signals_def carry_keys Let_def)

lemma load_keys:
  assumes "ob_Resources ob = Some rs"
  shows "sg_DedupeKey ` set (load_signals ob rs (active_by_key ob active)) =
    (let k = ob_HostID ob @ '':resource:load''; a = is_active (active_by_key ob active) k in
     if (if loadTelemetryMissing ob then a else float_ge (load_ratio rs) (3 / 2) \<or> a \<and> float_ge (load_ratio rs) 1) then {k} else {})"
  using assms by (auto simp: load_signals_def carry_keys load_ratio_def Let_def loadTelemetryMissing_def)

lemma ssh_keys:
  "sg_DedupeKey ` set (ssh_signals ob (active_by_key ob active)) =
    (let k = ob_HostID ob @ '':ssh:authentication-failures''; a = is_active (active_by_key ob active) k in
     if (case ob_SSH ob of None \<Rightarrow> a | Some s \<Rightarrow> ssh_FailedTotal s \<ge> 30 \<or> top_source s \<ge> 10 \<or>
           a \<and> (ssh_FailedTotal s \<ge> 10 \<or> top_source s \<ge> 3)) then {k} else {})"
  by (simp add: ssh_signals_def carry_keys Let_def split: option.split)

lemma failed_workload_keys:
  "sg_DedupeKey ` set (failed_workloads hid seen ws) = workload_key hid ` {w \<in> set ws. workloadFailed w} - set seen"
proof (induction hid seen ws rule: failed_workloads.induct)
  case (2 hid seen w ws)
  then show ?case by (cases "\<not> workloadFailed w \<or> workload_key hid w \<in> set seen") (auto simp: workload_signal_def)
qed simp

lemma failed_workloads_distinct: "distinct (map sg_DedupeKey (failed_workloads hid seen ws))"
proof (induction hid seen ws rule: failed_workloads.induct)
  case (2 hid seen w ws)
  have "workload_key hid w \<notin> sg_DedupeKey ` set (failed_workloads hid (workload_key hid w # seen) ws)"
    unfolding failed_workload_keys by simp
  then show ?case using 2 by (simp add: workload_signal_def)
qed simp

lemma wildcard_key:
  "k \<in> set (listenerWildcardKeys ob) \<longleftrightarrow> (\<exists>e. listenerWildcardEndpoints ob k = Some e)"
  by (auto simp: listenerWildcardKeys_def listenerWildcardEndpoints_def not_None_eq[symmetric] index_by_None simp del: not_None_eq)

lemma wildcard_endpoint:
  "listenerWildcardEndpoints ob k = Some e \<Longrightarrow> k = listener_key (ob_HostID ob) e \<and> e \<in> set (ob_Endpoints ob) \<and>
    ep_Binding e = BindingWildcard \<and> ob_Online ob"
  unfolding listenerWildcardEndpoints_def wildcard_endpoints_def by (auto dest!: index_by_eq_Some split: if_splits)

lemma wildcard_keys_iff:
  "k \<in> set (listenerWildcardKeys ob) \<longleftrightarrow>
    ob_Online ob \<and> (\<exists>e \<in> set (ob_Endpoints ob). ep_Binding e = BindingWildcard \<and> k = listener_key (ob_HostID ob) e)"
  by (auto simp: listenerWildcardKeys_def wildcard_endpoints_def)

lemma added_key [simp]: "sg_DedupeKey (listenerAddedSignal hid k e) = k"
  by (simp add: listenerAddedSignal_def)

lemma listener_keys:
  "sg_DedupeKey ` set (listener_signals previous ob (active_by_key ob active) (active_entries ob active) known established) =
    (let carried = ev_DedupeKey ` {e \<in> set (active_entries ob active). has_prefix (ev_DedupeKey e) (ob_HostID ob @ '':listener:'')};
         keys = set (listenerWildcardKeys ob) in
     if listenerTelemetryMissing ob then carried \<union> (if established then keys - known else {})
     else if establishingListeners previous ob established then {k \<in> keys. is_active (active_by_key ob active) k}
     else {k \<in> keys. active_by_key ob active k \<noteq> None \<or> k \<notin> known})"
proof -
  let ?f = "\<lambda>ks. map (\<lambda>key. listenerAddedSignal (ob_HostID ob) key (the (listenerWildcardEndpoints ob key))) ks"
  have f: "sg_DedupeKey ` set (?f ks) = set ks" for ks by (simp add: image_image)
  show ?thesis
    unfolding listener_signals_def Let_def
    by (cases "listenerTelemetryMissing ob"; cases "establishingListeners previous ob established"; cases established)
      (simp_all only: if_True if_False set_append image_Un f if_P if_not_P simp_thms, auto simp: image_image)
qed

lemma workload_keys:
  "sg_DedupeKey ` set (workload_signals ob (active_entries ob active)) =
    (let mine = ev_DedupeKey ` {e \<in> set (active_entries ob active). has_prefix (ev_DedupeKey e) (ob_HostID ob @ '':workload:'')} in
     if ob_Workloads ob = None then mine
     else {k \<in> mine. workloadCategoryMissing ob k (ob_HostID ob @ '':'')} \<union>
       workload_key (ob_HostID ob) ` {w \<in> set (workloads_of ob). workloadFailed w})"
proof (cases "ob_Workloads ob")
  case None
  then show ?thesis by (simp add: workload_signals_def Let_def image_image)
next
  case (Some ws)
  then show ?thesis by (auto simp: workload_signals_def Let_def image_Un image_image failed_workload_keys workloads_of_def)
qed

lemma resource_keys:
  "sg_DedupeKey ` set (resource_signals ob (active_by_key ob active) (active_entries ob active)) =
    (case ob_Resources ob of
       None \<Rightarrow> ev_DedupeKey ` {e \<in> set (active_entries ob active). has_prefix (ev_DedupeKey e) (ob_HostID ob @ '':resource:'')}
     | Some rs \<Rightarrow> sg_DedupeKey ` set (memory_signals ob rs (active_by_key ob active)) \<union>
         sg_DedupeKey ` set (disk_signals ob rs (active_by_key ob active)) \<union>
         sg_DedupeKey ` set (load_signals ob rs (active_by_key ob active)))"
  by (auto simp: resource_signals_def image_Un image_image split: option.split)

lemma online_keys:
  assumes "ob_Online ob"
  shows "sg_DedupeKey ` set (evaluateEventSignals previous ob active known established) =
    sg_DedupeKey ` set (resource_signals ob (active_by_key ob active) (active_entries ob active)) \<union>
    sg_DedupeKey ` set (ssh_signals ob (active_by_key ob active)) \<union>
    sg_DedupeKey ` set (workload_signals ob (active_entries ob active)) \<union>
    sg_DedupeKey ` set (listener_signals previous ob (active_by_key ob active) (active_entries ob active) known established)"
  using assms by (simp add: evaluateEventSignals_def sortedEventSignals_def Let_def image_Un Un_assoc)

lemma offline_keys:
  assumes "\<not> ob_Online ob"
  shows "sg_DedupeKey ` set (evaluateEventSignals previous ob active known established) =
    insert (ob_HostID ob @ '':host:offline'')
      (ev_DedupeKey ` {e \<in> set (active_entries ob active). ev_Kind e \<noteq> ''host.offline''})"
  using assms by (simp add: evaluateEventSignals_def sortedEventSignals_def Let_def image_Un image_image offline_signal_def)

section \<open>Nothing recovers without evidence\<close>

text \<open>The observation shows that the condition an event stands for is over. A host that cannot be reached
  shows nothing, and neither does telemetry that could not be collected.\<close>

definition condition_over :: "observation \<Rightarrow> string \<Rightarrow> bool" where
  "condition_over ob k =
     (let p = ob_HostID ob @ '':'' in ob_Online ob \<and>
       (if has_prefix k (p @ ''resource:'') then (case ob_Resources ob of None \<Rightarrow> False | Some rs \<Rightarrow>
          (k = p @ ''resource:memory'' \<longrightarrow> \<not> memoryTelemetryMissing ob \<and> memory_percent rs < 80) \<and>
          (k = p @ ''resource:disk:/'' \<longrightarrow> \<not> diskTelemetryMissing ob \<and> root_percent rs < 85) \<and>
          (k = p @ ''resource:load'' \<longrightarrow> \<not> loadTelemetryMissing ob \<and> \<not> float_ge (load_ratio rs) 1))
        else if k = p @ ''ssh:authentication-failures'' then
          (case ob_SSH ob of None \<Rightarrow> False | Some s \<Rightarrow> ssh_FailedTotal s < 10 \<and> top_source s < 3)
        else if has_prefix k (p @ ''workload:'') then
          \<not> workloadCategoryMissing ob k p \<and> (\<forall>w \<in> set (workloads_of ob). workloadFailed w \<longrightarrow> workload_key (ob_HostID ob) w \<noteq> k)
        else if has_prefix k (p @ ''listener:'') then
          \<not> listenerTelemetryMissing ob \<and>
          (\<forall>e \<in> set (ob_Endpoints ob). ep_Binding e = BindingWildcard \<longrightarrow> listener_key (ob_HostID ob) e \<noteq> k)
        else True))"

text \<open>What the event table keeps: ids are not empty, and the offline event of a host has its own key.\<close>

definition active_ok :: "event list \<Rightarrow> bool" where
  "active_ok active = (\<forall>e \<in> set active. ev_ID e \<noteq> [] \<and>
     (ev_Kind e = ''host.offline'' \<longleftrightarrow> ev_DedupeKey e = ev_HostID e @ '':host:offline''))"

lemma is_active_iff:
  "active_ok active \<Longrightarrow> is_active (active_by_key ob active) k \<longleftrightarrow> active_by_key ob active k \<noteq> None"
  by (cases "active_by_key ob active k") (auto simp: active_ok_def is_active_def dest: active_by_key_Some)

lemma none_missing: "ob_Workloads ob = None \<Longrightarrow> workloadCategoryMissing ob k p"
  by (simp add: workloadCategoryMissing_def)

lemma entry_of_key: "active_by_key ob active k = Some e \<Longrightarrow> e \<in> set (active_entries ob active) \<and> ev_DedupeKey e = k"
  using active_by_key_Some active_entries_iff by metis

lemma prefix_apart:
  "has_prefix k (h @ '':workload:'') \<Longrightarrow> \<not> has_prefix k (h @ '':resource:'') \<and> \<not> has_prefix k (h @ '':listener:'') \<and>
     k \<noteq> h @ '':ssh:authentication-failures''"
  "has_prefix k (h @ '':listener:'') \<Longrightarrow> \<not> has_prefix k (h @ '':resource:'') \<and> \<not> has_prefix k (h @ '':workload:'') \<and>
     k \<noteq> h @ '':ssh:authentication-failures''"
  "has_prefix k (h @ '':ssh:'') \<Longrightarrow> \<not> has_prefix k (h @ '':resource:'') \<and> \<not> has_prefix k (h @ '':workload:'') \<and>
     \<not> has_prefix k (h @ '':listener:'')"
  by (auto simp: has_prefix_iff)

lemma recovery_shown:
  assumes ok: "active_ok active" and e: "active_by_key ob active k = Some e"
    and gone: "k \<notin> sg_DedupeKey ` set (evaluateEventSignals previous ob active known established)"
  shows "condition_over ob k"
proof (cases "ob_Online ob")
  case False
  have "ev_Kind e = ''host.offline''" using gone entry_of_key[OF e] unfolding offline_keys[OF False] by auto
  then have "k = ob_HostID ob @ '':host:offline''"
    using ok active_by_key_Some[OF e] by (auto simp: active_ok_def unresolved_def)
  then show ?thesis using gone unfolding offline_keys[OF False] by blast
next
  case True
  note E = entry_of_key[OF e] and A = is_active_iff[OF ok, of ob k] e
  let ?m = "active_by_key ob active" and ?es = "active_entries ob active"
  have g: "k \<notin> sg_DedupeKey ` set (resource_signals ob ?m ?es)" "k \<notin> sg_DedupeKey ` set (ssh_signals ob ?m)"
    "k \<notin> sg_DedupeKey ` set (workload_signals ob ?es)"
    "k \<notin> sg_DedupeKey ` set (listener_signals previous ob ?m ?es known established)"
    using gone unfolding online_keys[OF True] by blast+
  consider (res) "has_prefix k (ob_HostID ob @ '':resource:'')" | (ssh) "k = ob_HostID ob @ '':ssh:authentication-failures''"
    | (work) "has_prefix k (ob_HostID ob @ '':workload:'')" | (listen) "has_prefix k (ob_HostID ob @ '':listener:'')"
    | (other) "\<not> has_prefix k (ob_HostID ob @ '':resource:'')" "k \<noteq> ob_HostID ob @ '':ssh:authentication-failures''"
      "\<not> has_prefix k (ob_HostID ob @ '':workload:'')" "\<not> has_prefix k (ob_HostID ob @ '':listener:'')"
    by blast
  then show ?thesis
  proof cases
    case res
    obtain rs where rs: "ob_Resources ob = Some rs"
      using g(1) E res unfolding resource_keys by (cases "ob_Resources ob") auto
    have r: "k \<notin> sg_DedupeKey ` set (memory_signals ob rs ?m)" "k \<notin> sg_DedupeKey ` set (disk_signals ob rs ?m)"
      "k \<notin> sg_DedupeKey ` set (load_signals ob rs ?m)" using g(1) unfolding resource_keys rs by simp_all
    have "k = ob_HostID ob @ '':resource:memory'' \<Longrightarrow> \<not> memoryTelemetryMissing ob \<and> memory_percent rs < 80"
      using r(1) A unfolding memory_keys Let_def by (auto split: if_splits)
    moreover have "k = ob_HostID ob @ '':resource:disk:/'' \<Longrightarrow> \<not> diskTelemetryMissing ob \<and> root_percent rs < 85"
      using r(2) A unfolding disk_keys[OF rs] Let_def by (auto split: if_splits)
    moreover have "k = ob_HostID ob @ '':resource:load'' \<Longrightarrow> \<not> loadTelemetryMissing ob \<and> \<not> float_ge (load_ratio rs) 1"
      using r(3) A unfolding load_keys[OF rs] Let_def by (auto split: if_splits)
    ultimately show ?thesis using res True by (simp add: condition_over_def rs)
  next
    case ssh
    then show ?thesis using g(2) A True unfolding ssh_keys Let_def
      by (auto simp: condition_over_def has_prefix_iff split: option.splits if_splits)
  next
    case work
    then have mine: "k \<in> ev_DedupeKey ` {e \<in> set (active_entries ob active). has_prefix (ev_DedupeKey e) (ob_HostID ob @ '':workload:'')}"
      using E by auto
    then have "\<not> workloadCategoryMissing ob k (ob_HostID ob @ '':'')" "ob_Workloads ob \<noteq> None"
      "\<forall>w \<in> set (workloads_of ob). workloadFailed w \<longrightarrow> workload_key (ob_HostID ob) w \<noteq> k"
      using g(3) mine unfolding workload_keys Let_def by (simp_all split: if_splits) (metis (mono_tags, lifting) image_eqI mem_Collect_eq)
    then show ?thesis using prefix_apart(1)[OF work] work True by (auto simp: condition_over_def)
  next
    case listen
    then have mine: "k \<in> ev_DedupeKey ` {e \<in> set (active_entries ob active). has_prefix (ev_DedupeKey e) (ob_HostID ob @ '':listener:'')}"
      using E by auto
    have "\<not> listenerTelemetryMissing ob" "k \<notin> set (listenerWildcardKeys ob)"
      using g(4) mine A unfolding listener_keys Let_def by (simp_all split: if_splits)
    then show ?thesis using prefix_apart(2)[OF listen] listen True unfolding wildcard_keys_iff
      by (auto simp: condition_over_def)
  next
    case other
    then show ?thesis using True by (simp add: condition_over_def)
  qed
qed

section \<open>Nothing opens without evidence\<close>

text \<open>The observation shows that the condition holds, at the threshold that opens an event.\<close>

definition condition_holds :: "string set \<Rightarrow> bool \<Rightarrow> observation \<Rightarrow> string \<Rightarrow> bool" where
  "condition_holds known established ob k =
     (let p = ob_HostID ob @ '':'' in
      if \<not> ob_Online ob then k = p @ ''host:offline''
      else (case ob_Resources ob of None \<Rightarrow> False | Some rs \<Rightarrow>
          k = p @ ''resource:memory'' \<and> \<not> memoryTelemetryMissing ob \<and> memory_percent rs \<ge> 85 \<or>
          k = p @ ''resource:disk:/'' \<and> \<not> diskTelemetryMissing ob \<and> root_percent rs \<ge> 90 \<or>
          k = p @ ''resource:load'' \<and> \<not> loadTelemetryMissing ob \<and> float_ge (load_ratio rs) (3 / 2)) \<or>
        (case ob_SSH ob of None \<Rightarrow> False | Some s \<Rightarrow>
          k = p @ ''ssh:authentication-failures'' \<and> (ssh_FailedTotal s \<ge> 30 \<or> top_source s \<ge> 10)) \<or>
        (\<exists>w \<in> set (workloads_of ob). workloadFailed w \<and> k = workload_key (ob_HostID ob) w) \<or>
        established \<and> k \<notin> known \<and> k \<in> set (listenerWildcardKeys ob))"

lemma opening_shown:
  assumes ok: "active_ok active" and new: "active_by_key ob active k = None"
    and raised: "k \<in> sg_DedupeKey ` set (evaluateEventSignals previous ob active known established)"
  shows "condition_holds known established ob k"
proof (cases "ob_Online ob")
  case False
  have "k \<notin> ev_DedupeKey ` set (active_entries ob active)" using new active_entries_iff by auto
  then have "k = ob_HostID ob @ '':host:offline''" using raised unfolding offline_keys[OF False] by blast
  then show ?thesis using False by (simp add: condition_holds_def)
next
  case True
  let ?m = "active_by_key ob active" and ?es = "active_entries ob active"
  have n: "\<not> is_active ?m k" using is_active_iff[OF ok] new by blast
  have e: "k \<notin> ev_DedupeKey ` set ?es" using new active_entries_iff by auto
  consider (res) "k \<in> sg_DedupeKey ` set (resource_signals ob ?m ?es)" | (ssh) "k \<in> sg_DedupeKey ` set (ssh_signals ob ?m)"
    | (work) "k \<in> sg_DedupeKey ` set (workload_signals ob ?es)"
    | (listen) "k \<in> sg_DedupeKey ` set (listener_signals previous ob ?m ?es known established)"
    using raised unfolding online_keys[OF True] by blast
  then show ?thesis
  proof cases
    case res
    obtain rs where rs: "ob_Resources ob = Some rs"
      using res e unfolding resource_keys by (cases "ob_Resources ob") auto
    have "k \<in> sg_DedupeKey ` set (memory_signals ob rs ?m) \<or> k \<in> sg_DedupeKey ` set (disk_signals ob rs ?m) \<or>
      k \<in> sg_DedupeKey ` set (load_signals ob rs ?m)" using res unfolding resource_keys rs by simp
    then have "k = ob_HostID ob @ '':resource:memory'' \<and> \<not> memoryTelemetryMissing ob \<and> memory_percent rs \<ge> 85 \<or>
          k = ob_HostID ob @ '':resource:disk:/'' \<and> \<not> diskTelemetryMissing ob \<and> root_percent rs \<ge> 90 \<or>
          k = ob_HostID ob @ '':resource:load'' \<and> \<not> loadTelemetryMissing ob \<and> float_ge (load_ratio rs) (3 / 2)"
      using n unfolding memory_keys disk_keys[OF rs] load_keys[OF rs] Let_def by (auto split: if_splits)
    then show ?thesis using True by (simp add: condition_holds_def rs) blast
  next
    case ssh
    then have "\<exists>s. ob_SSH ob = Some s \<and> k = ob_HostID ob @ '':ssh:authentication-failures'' \<and> (ssh_FailedTotal s \<ge> 30 \<or> top_source s \<ge> 10)"
      using n unfolding ssh_keys Let_def by (auto split: option.splits if_splits)
    then show ?thesis using True by (auto simp: condition_holds_def)
  next
    case work
    then have "\<exists>w \<in> set (workloads_of ob). workloadFailed w \<and> k = workload_key (ob_HostID ob) w"
      using e unfolding workload_keys Let_def by (auto split: if_splits)
    then show ?thesis using True by (auto simp: condition_holds_def)
  next
    case listen
    then have "established \<and> k \<notin> known \<and> k \<in> set (listenerWildcardKeys ob)"
      using n e new True unfolding listener_keys Let_def by (auto simp: establishingListeners_def split: if_splits)
    then show ?thesis using True by (auto simp: condition_holds_def)
  qed
qed

section \<open>One signal per key\<close>

lemma group_keys:
  "k \<in> sg_DedupeKey ` set (resource_signals ob (active_by_key ob active) (active_entries ob active)) \<Longrightarrow>
     has_prefix k (ob_HostID ob @ '':resource:'')"
  "k \<in> sg_DedupeKey ` set (ssh_signals ob (active_by_key ob active)) \<Longrightarrow> has_prefix k (ob_HostID ob @ '':ssh:'')"
  "k \<in> sg_DedupeKey ` set (workload_signals ob (active_entries ob active)) \<Longrightarrow> has_prefix k (ob_HostID ob @ '':workload:'')"
  "k \<in> sg_DedupeKey ` set (listener_signals previous ob (active_by_key ob active) (active_entries ob active) known established) \<Longrightarrow>
     has_prefix k (ob_HostID ob @ '':listener:'')"
proof -
  show "k \<in> sg_DedupeKey ` set (resource_signals ob (active_by_key ob active) (active_entries ob active)) \<Longrightarrow>
     has_prefix k (ob_HostID ob @ '':resource:'')"
    unfolding resource_keys by (auto simp: memory_keys disk_keys load_keys Let_def has_prefix_iff split: option.splits if_splits)
  show "k \<in> sg_DedupeKey ` set (ssh_signals ob (active_by_key ob active)) \<Longrightarrow> has_prefix k (ob_HostID ob @ '':ssh:'')"
    unfolding ssh_keys by (auto simp: Let_def has_prefix_iff split: if_splits)
  show "k \<in> sg_DedupeKey ` set (workload_signals ob (active_entries ob active)) \<Longrightarrow> has_prefix k (ob_HostID ob @ '':workload:'')"
    unfolding workload_keys by (auto simp: Let_def workload_key_def has_prefix_iff split: if_splits)
  show "k \<in> sg_DedupeKey ` set (listener_signals previous ob (active_by_key ob active) (active_entries ob active) known established) \<Longrightarrow>
     has_prefix k (ob_HostID ob @ '':listener:'')"
    unfolding listener_keys by (auto simp: Let_def wildcard_keys_iff listener_key_def has_prefix_iff split: if_splits)
qed

lemma distinct_filter_entries: "distinct (map ev_DedupeKey (filter q (active_entries ob active)))"
  using distinct_active_entries by (simp add: distinct_map_filter)

lemma distinct_groups:
  "distinct (map sg_DedupeKey (resource_signals ob (active_by_key ob active) (active_entries ob active)))"
  "distinct (map sg_DedupeKey (ssh_signals ob (active_by_key ob active)))"
  "distinct (map sg_DedupeKey (workload_signals ob (active_entries ob active)))"
  "distinct (map sg_DedupeKey (listener_signals previous ob (active_by_key ob active) (active_entries ob active) known established))"
proof -
  let ?m = "active_by_key ob active" and ?es = "active_entries ob active"
  have f: "distinct (map sg_DedupeKey (map signalFromEvent (filter q ?es)))" for q
    using distinct_filter_entries by (simp add: comp_def)
  have one: "distinct (map sg_DedupeKey (memory_signals ob rs ?m))" "distinct (map sg_DedupeKey (disk_signals ob rs ?m))"
    "distinct (map sg_DedupeKey (load_signals ob rs ?m))" for rs
    by (simp_all add: memory_signals_def disk_signals_def load_signals_def carry_def Let_def split: option.split)
  have sep: "sg_DedupeKey ` set (memory_signals ob rs ?m) \<subseteq> {ob_HostID ob @ '':resource:memory''}"
    "sg_DedupeKey ` set (disk_signals ob rs ?m) \<subseteq> {ob_HostID ob @ '':resource:disk:/''}"
    "sg_DedupeKey ` set (load_signals ob rs ?m) \<subseteq> {ob_HostID ob @ '':resource:load''}" if "ob_Resources ob = Some rs" for rs
    unfolding memory_keys disk_keys[OF that] load_keys[OF that] Let_def by auto
  show "distinct (map sg_DedupeKey (resource_signals ob ?m ?es))"
  proof (cases "ob_Resources ob")
    case None
    then show ?thesis using f by (simp add: resource_signals_def)
  next
    case (Some rs)
    have "set (map sg_DedupeKey (memory_signals ob rs ?m)) \<inter> (set (map sg_DedupeKey (disk_signals ob rs ?m)) \<union>
        set (map sg_DedupeKey (load_signals ob rs ?m))) = {}"
      "set (map sg_DedupeKey (disk_signals ob rs ?m)) \<inter> set (map sg_DedupeKey (load_signals ob rs ?m)) = {}"
      using sep[OF Some] by (simp_all only: set_map) fastforce+
    then show ?thesis using one by (simp add: resource_signals_def Some)
  qed
  show "distinct (map sg_DedupeKey (ssh_signals ob ?m))"
    by (simp add: ssh_signals_def carry_def Let_def split: option.split)
  show "distinct (map sg_DedupeKey (workload_signals ob ?es))"
  proof (cases "ob_Workloads ob")
    case None
    then show ?thesis using f by (simp add: workload_signals_def Let_def)
  next
    case (Some ws)
    let ?c = "filter (\<lambda>e. workloadCategoryMissing ob (ev_DedupeKey e) (ob_HostID ob @ '':''))
      (filter (\<lambda>e. has_prefix (ev_DedupeKey e) ((ob_HostID ob @ '':'') @ ''workload:'')) ?es)"
    have "set (map sg_DedupeKey (map signalFromEvent ?c)) \<inter>
        set (map sg_DedupeKey (failed_workloads (ob_HostID ob) (map ev_DedupeKey ?c) ws)) = {}"
      unfolding set_map failed_workload_keys by (auto simp: image_image)
    moreover have "distinct (map sg_DedupeKey (map signalFromEvent ?c))" unfolding filter_filter by (rule f)
    ultimately show ?thesis using failed_workloads_distinct
      unfolding workload_signals_def Let_def Some option.case by (simp only: map_append distinct_append)
  qed
  have a: "distinct (map sg_DedupeKey (map (\<lambda>key. listenerAddedSignal (ob_HostID ob) key (the (listenerWildcardEndpoints ob key)))
      (filter q (listenerWildcardKeys ob))))" for q
    by (simp add: comp_def listenerWildcardKeys_def)
  show "distinct (map sg_DedupeKey (listener_signals previous ob ?m ?es known established))"
    unfolding listener_signals_def Let_def using f a
    by (auto simp: image_image simp del: map_map)
qed

lemma apart: "\<lbrakk>\<And>k. k \<in> A \<Longrightarrow> P k; \<And>k. k \<in> B \<Longrightarrow> Q k; \<And>k. P k \<Longrightarrow> \<not> Q k\<rbrakk> \<Longrightarrow> A \<inter> B = {}"
  by blast

lemma distinct_signals:
  assumes ok: "active_ok active"
  shows "distinct (map sg_DedupeKey (evaluateEventSignals previous ob active known established))"
proof -
  let ?m = "active_by_key ob active" and ?es = "active_entries ob active"
  have perm: "distinct (map f (sort_key f xs)) = distinct (map f xs)" for f :: "event_signal \<Rightarrow> string" and xs
    by (simp add: distinct_map)
  show ?thesis
  proof (cases "ob_Online ob")
    case False
    have "ob_HostID ob @ '':host:offline'' \<notin> ev_DedupeKey ` {e \<in> set ?es. ev_Kind e \<noteq> ''host.offline''}"
    proof
      assume "ob_HostID ob @ '':host:offline'' \<in> ev_DedupeKey ` {e \<in> set ?es. ev_Kind e \<noteq> ''host.offline''}"
      then obtain e where k: "ob_HostID ob @ '':host:offline'' = ev_DedupeKey e" and "e \<in> {e \<in> set ?es. ev_Kind e \<noteq> ''host.offline''}"
        by (rule imageE)
      then have e: "e \<in> set ?es" "ev_Kind e \<noteq> ''host.offline''" by simp_all
      have "e \<in> set active" "ev_HostID e = ob_HostID ob"
        using active_by_key_Some[OF e(1)[unfolded active_entries_iff]] by (simp_all add: unresolved_def)
      then show False using ok e(2) k[symmetric] by (simp add: active_ok_def)
    qed
    then show ?thesis using False distinct_filter_entries
      by (auto simp: evaluateEventSignals_def sortedEventSignals_def Let_def perm comp_def offline_signal_def)
  next
    case True
    define R S W L where
      "R = map sg_DedupeKey (resource_signals ob ?m ?es)" and "S = map sg_DedupeKey (ssh_signals ob ?m)" and
      "W = map sg_DedupeKey (workload_signals ob ?es)" and
      "L = map sg_DedupeKey (listener_signals previous ob ?m ?es known established)"
    have d: "distinct R" "distinct S" "distinct W" "distinct L"
      unfolding R_def S_def W_def L_def by (rule distinct_groups)+
    have p: "\<And>k. k \<in> set R \<Longrightarrow> has_prefix k (ob_HostID ob @ '':resource:'')" "\<And>k. k \<in> set S \<Longrightarrow> has_prefix k (ob_HostID ob @ '':ssh:'')"
      "\<And>k. k \<in> set W \<Longrightarrow> has_prefix k (ob_HostID ob @ '':workload:'')" "\<And>k. k \<in> set L \<Longrightarrow> has_prefix k (ob_HostID ob @ '':listener:'')"
      unfolding R_def S_def W_def L_def set_map by (fact group_keys)+
    have "set S \<inter> set R = {}" by (rule apart, erule p(2), erule p(1), drule prefix_apart(3), elim conjE)
    moreover have "set W \<inter> set R = {}" by (rule apart, erule p(3), erule p(1), drule prefix_apart(1), elim conjE)
    moreover have "set L \<inter> set R = {}" by (rule apart, erule p(4), erule p(1), drule prefix_apart(2), elim conjE)
    moreover have "set S \<inter> set W = {}" by (rule apart, erule p(2), erule p(3), drule prefix_apart(3), elim conjE)
    moreover have "set S \<inter> set L = {}" by (rule apart, erule p(2), erule p(4), drule prefix_apart(3), elim conjE)
    moreover have "set W \<inter> set L = {}" by (rule apart, erule p(3), erule p(4), drule prefix_apart(1), elim conjE)
    ultimately have "distinct (R @ S @ W @ L)" using d by (simp add: Int_Un_distrib Int_commute)
    then have "distinct (map sg_DedupeKey (resource_signals ob ?m ?es @ ssh_signals ob ?m @ workload_signals ob ?es @
        listener_signals previous ob ?m ?es known established))"
      by (simp only: map_append R_def S_def W_def L_def)
    then show ?thesis using True by (simp only: evaluateEventSignals_def sortedEventSignals_def Let_def perm not_True_eq_False if_False)
  qed
qed

end
