(* ===== verification/Event_Validity.thy ===== *)
theory Event_Validity
  imports Event_Evidence
begin

text \<open>
  Every signal the event rules produce passes \<^verbatim>\<open>EventSignal.Validate\<close> (\<^verbatim>\<open>internal/domain/model.go\<close>), when the
  observation is valid, its texts came from JSON and its workloads' names are short enough; a longer
  name breaks the title of the signal, and with it the whole observation.
\<close>

section \<open>Every signal is valid\<close>

text \<open>Texts of bounded length. The constant parts of the signals' texts are evaluated.\<close>

definition text_le :: "nat \<Rightarrow> string \<Rightarrow> bool" where
  "text_le n s = (valid_utf8 s \<and> rune_count s \<le> n)"

lemma text_append: "text_le m s \<Longrightarrow> text_le n t \<Longrightarrow> m + n \<le> k \<Longrightarrow> text_le k (s @ t)"
  by (simp add: text_le_def valid_utf8_append rune_count_append)

lemma text_ascii: "ascii s \<Longrightarrow> length s \<le> n \<Longrightarrow> text_le n s"
  by (simp add: text_le_def valid_utf8_ascii rune_count_ascii)

lemma text_bytes: "valid_utf8 s \<Longrightarrow> length s \<le> n \<Longrightarrow> text_le n s"
  using rune_count_le[of s] by (simp add: text_le_def)

lemma itoa_text: "\<bar>i\<bar> < 10 ^ k \<Longrightarrow> 0 < k \<Longrightarrow> text_le (Suc k) (itoa i)"
proof -
  assume i: "\<bar>i\<bar> < 10 ^ k" "0 < k"
  have "nat \<bar>i\<bar> < 10 ^ k" using i(1) by (simp add: nat_less_iff)
  then have l: "length (itoa_nat (nat \<bar>i\<bar>)) \<le> k" by (rule length_itoa_nat[OF _ i(2)])
  have f: "itoa i = (if i < 0 then ''-'' else []) @ itoa_nat (nat \<bar>i\<bar>)" by (simp add: itoa_def)
  have "ascii (itoa i)" unfolding f using ascii_itoa_nat[of "nat \<bar>i\<bar>"] by (simp add: ascii_def byte_def)
  moreover have "length (itoa i) \<le> Suc k" unfolding f using l by (cases "i < 0") simp_all
  ultimately show ?thesis by (rule text_ascii)
qed

text \<open>What the rules rely on beyond the validated observation: its texts are valid UTF-8, as decoded from
  JSON, names and addresses are not too long, and the numbers are in the range of their types.\<close>

definition float_in_range :: "float64 \<Rightarrow> bool" where
  "float_in_range f = (case f of Fin r \<Rightarrow> \<bar>r\<bar> < 10 ^ 310 | _ \<Rightarrow> True)"

definition signal_texts :: "observation \<Rightarrow> bool" where
  "signal_texts ob = (valid_utf8 (ob_HostID ob) \<and> valid_utf8 (ob_LastError ob) \<and>
     list_all (\<lambda>w. valid_utf8 (w_Key w) \<and> valid_utf8 (w_Name w) \<and> rune_count (w_Name w) \<le> 235 \<and> valid_utf8 (w_State w))
       (workloads_of ob) \<and>
     list_all (\<lambda>e. valid_utf8 (ep_Key e) \<and> valid_utf8 (ep_WorkloadKey e) \<and> text_le 512 (ep_Bind e)) (ob_Endpoints ob) \<and>
     (case ob_Resources ob of None \<Rightarrow> True | Some rs \<Rightarrow> \<bar>rs_CPUs rs\<bar> < 2 ^ 63 \<and> float_in_range (rs_Load1 rs) \<and>
        mem_TotalBytes (rs_Memory rs) < 2 ^ 63 \<and> list_all (\<lambda>d. dk_TotalBytes d < 2 ^ 63) (rs_Disks rs)) \<and>
     (case ob_SSH ob of None \<Rightarrow> True | Some s \<Rightarrow> list_all (\<lambda>x. text_le 512 (src_Address x)) (ssh_Sources s)))"

lemma format_2f_length:
  assumes "\<bar>r\<bar> < 10 ^ k"
  shows "ascii (format_2f (Fin r)) \<and> length (format_2f (Fin r)) \<le> k + 7"
proof -
  define n where "n = nat (round_even (\<bar>r\<bar> * 100))"
  have "(1 :: rat) \<le> 10 ^ k" by (rule one_le_power) simp
  then have "\<bar>r\<bar> * 100 + 1 / 2 < 1000 * 10 ^ k" using assms by linarith
  moreover have "of_int (round_even (\<bar>r\<bar> * 100)) \<le> \<bar>r\<bar> * 100 + 1 / 2" using round_even_error[of "\<bar>r\<bar> * 100"] by linarith
  ultimately have "of_int (round_even (\<bar>r\<bar> * 100)) < (of_int (10 ^ (k + 3)) :: rat)" by (simp add: power_add)
  then have "round_even (\<bar>r\<bar> * 100) < 10 ^ (k + 3)" unfolding of_int_less_iff .
  then have "n < 10 ^ (k + 3)" unfolding n_def by (simp add: nat_less_iff)
  then have "n div 100 < 10 ^ (k + 3)" by (meson div_le_dividend le_less_trans)
  then have l: "length (itoa_nat (n div 100)) \<le> k + 3" by (rule length_itoa_nat) simp
  have d: "n mod 100 div 10 < 10" by (rule less_mult_imp_div_less) simp
  have m: "n mod 100 mod 10 < 10" by (rule mod_less_divisor) simp
  have "ascii (two_digits (n mod 100))" unfolding two_digits_def ascii_def list.pred_inject byte_digit_char[OF d] byte_digit_char[OF m]
    using d m by simp
  then have "ascii ((if r < 0 then ''-'' else []) @ itoa_nat (n div 100) @ ''.'' @ two_digits (n mod 100))"
    using ascii_itoa_nat[of "n div 100"] by (simp add: ascii_def byte_def)
  moreover have "length ((if r < 0 then ''-'' else []) @ itoa_nat (n div 100) @ ''.'' @ two_digits (n mod 100)) \<le> k + 7"
    using l by (simp add: two_digits_def)
  ultimately show ?thesis unfolding format_2f.simps Let_def n_def[symmetric] by blast
qed

lemma format_2f_text:
  assumes "float_in_range f"
  shows "text_le 320 (format_2f f)"
proof (cases f)
  case (Fin r)
  then have "\<bar>r\<bar> < 10 ^ 310" using assms by (simp only: float_in_range_def float64.case)
  from format_2f_length[OF this] show ?thesis unfolding Fin by (intro text_ascii) auto
qed (simp_all add: text_ascii ascii_def byte_def)

section \<open>Identifiers and titles\<close>

lemma control_append: "valid_utf8 a \<Longrightarrow> \<not> containsControl a \<Longrightarrow> \<not> containsControl b \<Longrightarrow> \<not> containsControl (a @ b)"
  by (simp add: containsControl_append)

lemma shown_append: "valid_utf8 a \<Longrightarrow> trim_space a \<noteq> [] \<Longrightarrow> trim_space (a @ b) \<noteq> []"
  by (simp add: trim_space_empty runes_append)

lemma signal_valid:
  assumes "valid_identifier hid 128" "valid_utf8 hid" "hd rest = CHR '':''" "rest \<noteq> []" "\<not> containsControl rest"
    "length rest \<le> 896" "valid_identifier kind 128" "validSeverity sev" "text_le 240 title" "trim_space title \<noteq> []"
    "text_le 4000 detail"
  shows "validateEventSignal \<lparr>sg_HostID = hid, sg_Kind = kind, sg_Severity = sev, sg_DedupeKey = hid @ rest,
    sg_Title = title, sg_Detail = detail\<rparr> = Inr ()"
proof -
  have "has_prefix (hid @ rest) (hid @ '':'')"
    unfolding has_prefix_iff using assms(3,4) by (cases rest) auto
  moreover have "valid_identifier (hid @ rest) 1024"
    using assms(1,2,5,6) by (auto simp: valid_identifier_def control_append)
  ultimately show ?thesis using assms by (simp add: validateEventSignal_ok text_le_def)
qed

lemma bounded_text:
  assumes "valid_utf8 v" "valid_utf8 fallback"
  shows "text_le 1000 (boundedEventDetail v fallback)"
proof -
  define w where "w = (if trim_space v = [] then fallback else trim_space v)"
  have w: "valid_utf8 w" using assms by (simp add: w_def valid_trim_space)
  let ?ps = "take 1000 (rune_chunks w)"
  have s: "list_all solid ?ps" using solid_chunks[OF w] by (auto simp: list_all_iff dest: in_set_takeD)
  have "\<And>p. p \<in> set ?ps \<Longrightarrow> rune_bytes p = snd p"
    using w by (auto simp: valid_utf8_def list_ex_iff rune_bytes_def dest: in_set_takeD)
  then have m: "map rune_bytes ?ps = map snd ?ps" by simp
  have "text_le 1000 (concat (map snd ?ps))"
    unfolding text_le_def rune_count_def using valid_utf8_glue[OF s] rune_chunks_glue[OF s] by simp
  then show ?thesis using w unfolding boundedEventDetail_def w_def[symmetric] Let_def m by (simp add: text_le_def)
qed

text \<open>The Chinese titles: characters of three bytes, none of them a space.\<close>

lemma chunk_cjk:
  assumes "228 \<le> byte a" "byte a \<le> 239" "byte a \<noteq> 237" "cont_byte (byte b)" "cont_byte (byte c)"
  shows "rune_chunks (a # b # c # s) =
    ((byte a - 224) * 4096 + (byte b - 128) * 64 + (byte c - 128), [a, b, c]) # rune_chunks s"
proof -
  have "decode_tail (byte a) (b # c # s) = ((byte a - 224) * 4096 + (byte b - 128) * 64 + (byte c - 128), 3)"
    using assms by (cases s) (auto simp: second_ok_def cont_byte_def)
  then show ?thesis using assms by (simp add: rune_chunks.simps(2)[of a] decode_rune_def)
qed

lemma text_cjk [simp]:
  assumes "228 \<le> byte a" "byte a \<le> 239" "byte a \<noteq> 237" "cont_byte (byte b)" "cont_byte (byte c)"
  shows "text_le n (a # b # c # s) \<longleftrightarrow> 0 < n \<and> text_le (n - 1) s"
  unfolding text_le_def valid_utf8_def rune_count_def chunk_cjk[OF assms] by (auto simp: bad_chunk_def)

lemma shown_cjk:
  assumes "228 \<le> byte a" "byte a \<le> 239" "byte a \<noteq> 237" "cont_byte (byte b)" "cont_byte (byte c)"
  shows "trim_space (a # b # c # s) \<noteq> []"
proof -
  have "16384 \<le> (byte a - 224) * 4096 + (byte b - 128) * 64 + (byte c - 128)" using assms(1) by simp
  then have "\<not> is_space ((byte a - 224) * 4096 + (byte b - 128) * 64 + (byte c - 128))" by (auto simp: is_space_def)
  then show ?thesis unfolding trim_space_empty runes_def chunk_cjk[OF assms] by simp
qed

lemma text_Nil [simp]: "text_le n []"
  by (simp add: text_le_def valid_utf8_def)

lemma const_texts:
  "text_le 5 [CHR 0xE5, CHR 0x86, CHR 0x85, CHR 0xE5, CHR 0xAD, CHR 0x98, CHR 0xE4, CHR 0xBD, CHR 0xBF, CHR 0xE7, CHR 0x94, CHR 0xA8, CHR 0xE7, CHR 0x8E, CHR 0x87]" "text_le 8 [CHR 0xE6, CHR 0xA0, CHR 0xB9, CHR 0xE6, CHR 0x96, CHR 0x87, CHR 0xE4, CHR 0xBB, CHR 0xB6, CHR 0xE7, CHR 0xB3, CHR 0xBB, CHR 0xE7, CHR 0xBB, CHR 0x9F, CHR 0xE4, CHR 0xBD, CHR 0xBF, CHR 0xE7, CHR 0x94, CHR 0xA8, CHR 0xE7, CHR 0x8E, CHR 0x87]" "text_le 5 [CHR 0xE5, CHR 0x88, CHR 0x86, CHR 0xE9, CHR 0x92, CHR 0x9F, CHR 0xE8, CHR 0xB4, CHR 0x9F, CHR 0xE8, CHR 0xBD, CHR 0xBD]" "text_le 5 [CHR 0xE6, CHR 0x9C, CHR 0x8D, CHR 0xE5, CHR 0x8A, CHR 0xA1, CHR 0xE5, CHR 0xA4, CHR 0xB1, CHR 0xE8, CHR 0xB4, CHR 0xA5, CHR 0xEF, CHR 0xBC, CHR 0x9A]"
  "text_le 10 [CHR 0xE5, CHR 0xB7, CHR 0xA5, CHR 0xE4, CHR 0xBD, CHR 0x9C, CHR 0xE8, CHR 0xB4, CHR 0x9F, CHR 0xE8, CHR 0xBD, CHR 0xBD, CHR 0xE5, CHR 0xA4, CHR 0x84, CHR 0xE4, CHR 0xBA, CHR 0x8E, CHR 0xE5, CHR 0xA4, CHR 0xB1, CHR 0xE8, CHR 0xB4, CHR 0xA5, CHR 0xE7, CHR 0x8A, CHR 0xB6, CHR 0xE6, CHR 0x80, CHR 0x81]" "text_le 7 [CHR 0xE6, CHR 0x96, CHR 0xB0, CHR 0xE5, CHR 0xA2, CHR 0x9E, CHR 0xE5, CHR 0x85, CHR 0xAC, CHR 0xE7, CHR 0xBD, CHR 0x91, CHR 0xE7, CHR 0xBB, CHR 0x91, CHR 0xE5, CHR 0xAE, CHR 0x9A, CHR 0xEF, CHR 0xBC, CHR 0x9A]" "text_le 1 [CHR 0xEF, CHR 0xBC, CHR 0x9B]"
  by (simp_all add: byte_def cont_byte_def)

lemma const_titles:
  "text_le 240 [CHR 0xE5, CHR 0x86, CHR 0x85, CHR 0xE5, CHR 0xAD, CHR 0x98, CHR 0xE5, CHR 0x8E, CHR 0x8B, CHR 0xE5, CHR 0x8A, CHR 0x9B]" "text_le 240 [CHR 0xE6, CHR 0xA0, CHR 0xB9, CHR 0xE7, CHR 0xA3, CHR 0x81, CHR 0xE7, CHR 0x9B, CHR 0x98, CHR 0xE7, CHR 0xA9, CHR 0xBA, CHR 0xE9, CHR 0x97, CHR 0xB4, CHR 0xE4, CHR 0xB8, CHR 0x8D, CHR 0xE8, CHR 0xB6, CHR 0xB3]" "text_le 240 [CHR 0xE7, CHR 0xB3, CHR 0xBB, CHR 0xE7, CHR 0xBB, CHR 0x9F, CHR 0xE8, CHR 0xB4, CHR 0x9F, CHR 0xE8, CHR 0xBD, CHR 0xBD, CHR 0xE6, CHR 0x8C, CHR 0x81, CHR 0xE7, CHR 0xBB, CHR 0xAD, CHR 0xE5, CHR 0x81, CHR 0x8F, CHR 0xE9, CHR 0xAB, CHR 0x98]" "text_le 240 [CHR 0xE4, CHR 0xB8, CHR 0xBB, CHR 0xE6, CHR 0x9C, CHR 0xBA, CHR 0xE7, CHR 0xA6, CHR 0xBB, CHR 0xE7, CHR 0xBA, CHR 0xBF]"
  by (simp_all add: byte_def cont_byte_def)

lemma const_shown:
  "trim_space [CHR 0xE5, CHR 0x86, CHR 0x85, CHR 0xE5, CHR 0xAD, CHR 0x98, CHR 0xE5, CHR 0x8E, CHR 0x8B, CHR 0xE5, CHR 0x8A, CHR 0x9B] \<noteq> []" "trim_space [CHR 0xE6, CHR 0xA0, CHR 0xB9, CHR 0xE7, CHR 0xA3, CHR 0x81, CHR 0xE7, CHR 0x9B, CHR 0x98, CHR 0xE7, CHR 0xA9, CHR 0xBA, CHR 0xE9, CHR 0x97, CHR 0xB4, CHR 0xE4, CHR 0xB8, CHR 0x8D, CHR 0xE8, CHR 0xB6, CHR 0xB3] \<noteq> []" "trim_space [CHR 0xE7, CHR 0xB3, CHR 0xBB, CHR 0xE7, CHR 0xBB, CHR 0x9F, CHR 0xE8, CHR 0xB4, CHR 0x9F, CHR 0xE8, CHR 0xBD, CHR 0xBD, CHR 0xE6, CHR 0x8C, CHR 0x81, CHR 0xE7, CHR 0xBB, CHR 0xAD, CHR 0xE5, CHR 0x81, CHR 0x8F, CHR 0xE9, CHR 0xAB, CHR 0x98] \<noteq> []"
  "trim_space [CHR 0xE6, CHR 0x9C, CHR 0x8D, CHR 0xE5, CHR 0x8A, CHR 0xA1, CHR 0xE5, CHR 0xA4, CHR 0xB1, CHR 0xE8, CHR 0xB4, CHR 0xA5, CHR 0xEF, CHR 0xBC, CHR 0x9A] \<noteq> []" "trim_space [CHR 0xE6, CHR 0x96, CHR 0xB0, CHR 0xE5, CHR 0xA2, CHR 0x9E, CHR 0xE5, CHR 0x85, CHR 0xAC, CHR 0xE7, CHR 0xBD, CHR 0x91, CHR 0xE7, CHR 0xBB, CHR 0x91, CHR 0xE5, CHR 0xAE, CHR 0x9A, CHR 0xEF, CHR 0xBC, CHR 0x9A] \<noteq> []" "trim_space [CHR 0xE4, CHR 0xB8, CHR 0xBB, CHR 0xE6, CHR 0x9C, CHR 0xBA, CHR 0xE7, CHR 0xA6, CHR 0xBB, CHR 0xE7, CHR 0xBA, CHR 0xBF] \<noteq> []"
  by (simp_all add: shown_cjk byte_def cont_byte_def)

section \<open>The signals of each rule\<close>

definition signal_ok :: "host_id \<Rightarrow> event_signal \<Rightarrow> bool" where
  "signal_ok hid s = (validateEventSignal s = Inr () \<and> sg_HostID s = hid)"

text \<open>The key of a rule after the host's identifier.\<close>

definition rule_key :: "string \<Rightarrow> bool" where
  "rule_key rest = (rest \<noteq> [] \<and> hd rest = CHR '':'' \<and> \<not> containsControl rest \<and> length rest \<le> 896)"

lemma rule_signal:
  assumes "valid_identifier hid 128" "valid_utf8 hid" "rule_key rest" "valid_identifier kind 128" "validSeverity sev"
    "text_le 240 title" "trim_space title \<noteq> []" "text_le 4000 detail"
  shows "signal_ok hid \<lparr>sg_HostID = hid, sg_Kind = kind, sg_Severity = sev, sg_DedupeKey = hid @ rest,
    sg_Title = title, sg_Detail = detail\<rparr>"
  unfolding signal_ok_def using signal_valid[OF assms(1,2) _ _ _ _ assms(4-8), of rest] assms(3) by (simp add: rule_key_def)

lemma rule_keys:
  "rule_key '':resource:memory''" "rule_key '':resource:disk:/''" "rule_key '':resource:load''"
  "rule_key '':ssh:authentication-failures''" "rule_key '':host:offline''"
  by (simp_all add: rule_key_def containsControl_def ascii_eval is_control_def)

lemma rule_key_append:
  assumes "rule_key a" "valid_utf8 a" "valid_identifier b n" "length a + n \<le> 896"
  shows "rule_key (a @ b)"
  using assms by (auto simp: rule_key_def valid_identifier_def control_append)

lemma rule_kinds:
  "valid_identifier ''resource.memory'' 128" "valid_identifier ''resource.disk'' 128" "valid_identifier ''resource.load'' 128"
  "valid_identifier ''ssh.bruteforce'' 128" "valid_identifier ''workload.failed'' 128" "valid_identifier ''listener.added'' 128"
  "valid_identifier ''host.offline'' 128"
  by (simp_all add: valid_identifier_def containsControl_def ascii_eval is_control_def)

lemma severities: "validSeverity (if b then SeverityCritical else SeverityWarning)" "validSeverity SeverityCritical"
  "validSeverity SeverityWarning"
  by (simp_all add: validSeverity_def)

text \<open>The identifier and the text of the host.\<close>

definition host_text :: "host_id \<Rightarrow> bool" where
  "host_text hid = (valid_identifier hid 128 \<and> valid_utf8 hid)"

lemma text_byte: "text_le 20 (itoa i)" if "\<bar>i\<bar> < 2 ^ 63"
proof -
  have "(2 :: int) ^ 63 \<le> 10 ^ 19" by simp
  then have "\<bar>i\<bar> < 10 ^ 19" using that by linarith
  from itoa_text[OF this] show ?thesis by simp
qed

lemma ascii_text: "ascii s \<Longrightarrow> text_le (length s) s"
  by (rule text_ascii) simp_all

lemma ascii_parts: "ascii '' ''" "ascii ''%''" "ascii ''1 ''" "ascii '' / ''" "ascii '' CPU''" "ascii ''/''" "ascii ''tcp''" "ascii ''udp''"
  by (simp_all add: ascii_eval)

lemmas text_parts = ascii_parts[THEN ascii_text]

lemma text_add: "text_le m s \<Longrightarrow> text_le n t \<Longrightarrow> text_le (m + n) (s @ t)"
  using text_append[of m s n t "m + n"] by simp

lemma text_mono: "text_le m s \<Longrightarrow> m \<le> n \<Longrightarrow> text_le n s"
  by (simp add: text_le_def)

lemma percent_bounds: "w < 2 ^ 63 \<Longrightarrow> \<bar>UsagePercent u w\<bar> < 2 ^ 63"
proof -
  assume w: "w < 2 ^ 63"
  have "0 \<le> UsagePercent u w \<and> UsagePercent u w \<le> 100"
    using UsagePercent_le_100[OF _ _ w, of u] by (cases "0 < u \<and> u < w") (auto simp: UsagePercent_def)
  then have "\<bar>UsagePercent u w\<bar> \<le> 100" by linarith
  moreover have "(100 :: int) < 2 ^ 63" by simp
  ultimately show ?thesis by linarith
qed

lemma carry_valid:
  assumes "\<forall>e \<in> set active. validateEvent e = Inr ()" "s \<in> set (carry (active_by_key ob active) k)"
  shows "signal_ok (ob_HostID ob) s"
proof -
  obtain e where e: "active_by_key ob active k = Some e" "s = signalFromEvent e"
    using assms(2) by (auto simp: carry_def is_active_def split: if_splits option.splits)
  show ?thesis using assms(1) active_by_key_Some[OF e(1)]
    by (auto simp: signal_ok_def e(2) validateEvent_ok signalFromEvent_def event_signal_of_def unresolved_def)
qed

lemma entry_valid:
  assumes "\<forall>e \<in> set active. validateEvent e = Inr ()" "e \<in> set (active_entries ob active)"
  shows "signal_ok (ob_HostID ob) (signalFromEvent e)"
  using assms(1) active_by_key_Some[OF assms(2)[unfolded active_entries_iff]]
  by (auto simp: signal_ok_def validateEvent_ok signalFromEvent_def event_signal_of_def unresolved_def)

lemma memory_valid:
  assumes h: "host_text (ob_HostID ob)" and c: "\<forall>k. \<forall>s \<in> set (carry m k). signal_ok (ob_HostID ob) s"
    and t: "mem_TotalBytes (rs_Memory rs) < 2 ^ 63" and s: "s \<in> set (memory_signals ob rs m)"
  shows "signal_ok (ob_HostID ob) s"
proof -
  have d: "text_le 4000 ([CHR 0xE5, CHR 0x86, CHR 0x85, CHR 0xE5, CHR 0xAD, CHR 0x98, CHR 0xE4, CHR 0xBD, CHR 0xBF, CHR 0xE7, CHR 0x94, CHR 0xA8, CHR 0xE7, CHR 0x8E, CHR 0x87] @ '' '' @ itoa (UsagePercent (mem_UsedBytes (rs_Memory rs)) (mem_TotalBytes (rs_Memory rs))) @ ''%'')"
    by (rule text_mono, (rule text_add const_texts text_parts text_byte percent_bounds t)+, simp)
  show ?thesis using s c h
    unfolding memory_signals_def Let_def host_text_def
    by (auto split: if_splits simp del: append.simps
        intro!: rule_signal rule_keys rule_kinds severities const_titles const_shown d)
qed

lemma disk_valid:
  assumes h: "host_text (ob_HostID ob)" and c: "\<forall>k. \<forall>s \<in> set (carry m k). signal_ok (ob_HostID ob) s"
    and t: "\<forall>d \<in> set (rs_Disks rs). dk_TotalBytes d < 2 ^ 63" and s: "s \<in> set (disk_signals ob rs m)"
  shows "signal_ok (ob_HostID ob) s"
proof -
  have d: "text_le 4000 ([CHR 0xE6, CHR 0xA0, CHR 0xB9, CHR 0xE6, CHR 0x96, CHR 0x87, CHR 0xE4, CHR 0xBB, CHR 0xB6, CHR 0xE7, CHR 0xB3, CHR 0xBB, CHR 0xE7, CHR 0xBB, CHR 0x9F, CHR 0xE4, CHR 0xBD, CHR 0xBF, CHR 0xE7, CHR 0x94, CHR 0xA8, CHR 0xE7, CHR 0x8E, CHR 0x87] @ '' '' @ itoa (UsagePercent (dk_UsedBytes d) (dk_TotalBytes d)) @ ''%'')"
    if "dk_TotalBytes d < 2 ^ 63" for d
    by (rule text_mono, (rule text_add const_texts text_parts text_byte percent_bounds that)+, simp)
  have f: "dk_TotalBytes d < 2 ^ 63" if "find (\<lambda>d. dk_Mount d = ''/'') (rs_Disks rs) = Some d" for d
    using t that by (auto simp: find_Some_iff)
  show ?thesis using s c h
    unfolding disk_signals_def Let_def host_text_def
    by (auto split: if_splits option.splits simp del: append.simps
        intro!: rule_signal rule_keys rule_kinds severities const_titles const_shown d f)
qed

lemma load_valid:
  assumes h: "host_text (ob_HostID ob)" and c: "\<forall>k. \<forall>s \<in> set (carry m k). signal_ok (ob_HostID ob) s"
    and t: "\<bar>rs_CPUs rs\<bar> < 2 ^ 63" "float_in_range (rs_Load1 rs)" and s: "s \<in> set (load_signals ob rs m)"
  shows "signal_ok (ob_HostID ob) s"
proof -
  have d: "text_le 4000 (''1 '' @ [CHR 0xE5, CHR 0x88, CHR 0x86, CHR 0xE9, CHR 0x92, CHR 0x9F, CHR 0xE8, CHR 0xB4, CHR 0x9F, CHR 0xE8, CHR 0xBD, CHR 0xBD] @ '' '' @ format_2f (rs_Load1 rs) @ '' / '' @ itoa (rs_CPUs rs) @ '' CPU'')"
    by (rule text_mono, (rule text_add const_texts text_parts text_byte t format_2f_text)+, simp)
  show ?thesis using s c h
    unfolding load_signals_def Let_def host_text_def
    by (auto split: if_splits simp del: append.simps
        intro!: rule_signal rule_keys rule_kinds severities const_titles const_shown d)
qed

text \<open>The minutes of the window fit in 310 digits, whatever the float64 is.\<close>

lemma fl64_range: "fl64 x = Fin r \<Longrightarrow> \<bar>r\<bar> < 2 ^ 1024"
  by (auto simp only: fl64_def Let_def not_le abs_less_iff split: if_splits)

lemma trunc_le: "of_int \<bar>trunc_rat r\<bar> \<le> \<bar>r\<bar>"
proof (cases "0 \<le> r")
  case True
  then show ?thesis by (simp add: trunc_rat_def)
next
  case False
  then have "\<lceil>r\<rceil> \<le> 0" "r \<le> of_int \<lceil>r\<rceil>" by linarith+
  then show ?thesis using False by (simp add: trunc_rat_def)
qed

lemma int_of_fl64: "\<bar>int_of_float (fl64 x)\<bar> < 10 ^ 310"
proof (cases "fl64 x")
  case (Fin r)
  have p: "(2 :: int) ^ 1024 < 10 ^ 310" by simp
  have "of_int \<bar>trunc_rat r\<bar> < (of_int (2 ^ 1024) :: rat)"
    using trunc_le[of r] fl64_range[OF Fin] unfolding of_int_abs of_int_power of_int_numeral by linarith
  then have "\<bar>trunc_rat r\<bar> < 2 ^ 1024" unfolding of_int_less_iff .
  then show ?thesis unfolding Fin int_of_float.simps using p by (rule less_trans)
qed simp_all

lemma minutes_range: "\<bar>whole_minutes d\<bar> < 10 ^ 310"
proof -
  have o: "\<bar>int_of_float f\<bar> < 10 ^ 310" if "\<forall>r. f \<noteq> Fin r" for f using that by (cases f) simp_all
  show ?thesis unfolding whole_minutes_def
    using int_of_fl64 by (auto simp only: split: float64.split intro!: o)
qed

lemma join_text:
  assumes "\<forall>s \<in> set ss. text_le n s" "text_le k sep"
  shows "text_le ((n + k) * length ss) (join sep ss)"
  using assms
proof (induction ss rule: join.induct[of _ sep])
  case (2 sep w)
  then show ?case by (auto intro: text_mono)
next
  case (3 sep w v ws)
  have "text_le (n + (k + (n + k) * length (v # ws))) (join sep (w # v # ws))"
    unfolding join.simps using 3 by (intro text_add) auto
  then show ?case by (rule text_mono) simp
qed simp

lemma ssh_texts:
  "text_le 3 [CHR 0xE5, CHR 0x88, CHR 0x86, CHR 0xE9, CHR 0x92, CHR 0x9F, CHR 0xE5, CHR 0x86, CHR 0x85]" "text_le 4 [CHR 0xE8, CHR 0xAE, CHR 0xA4, CHR 0xE8, CHR 0xAF, CHR 0x81, CHR 0xE5, CHR 0xA4, CHR 0xB1, CHR 0xE8, CHR 0xB4, CHR 0xA5]" "text_le 1 [CHR 0xE6, CHR 0xAC, CHR 0xA1]" "text_le 4 [CHR 0xE4, CHR 0xB8, CHR 0xBB, CHR 0xE8, CHR 0xA6, CHR 0x81, CHR 0xE6, CHR 0x9D, CHR 0xA5, CHR 0xE6, CHR 0xBA, CHR 0x90]"
  "text_le 1 [CHR 0xE3, CHR 0x80, CHR 0x81]" "text_le 1 [CHR 0xC3, CHR 0x97]" "text_le 1 [CHR 0xC2, CHR 0xB7]" "text_le 5 '' SSH ''" "text_le 4 ''SSH ''"
  by (simp_all add: byte_def cont_byte_def text_le_def valid_utf8_def rune_count_def utf8_eval bad_chunk_def)

definition ssh_texts_ok :: "ssh_auth_observation \<Rightarrow> bool" where
  "ssh_texts_ok a = (\<bar>ssh_FailedTotal a\<bar> < 2 ^ 63 \<and>
     list_all (\<lambda>x. text_le 512 (src_Address x) \<and> \<bar>src_Count x\<bar> < 2 ^ 63) (ssh_Sources a))"

lemma minutes_text: "text_le 311 (itoa (if whole_minutes d < 1 then 1 else whole_minutes d))"
proof -
  have "\<bar>if whole_minutes d < 1 then 1 else whole_minutes d\<bar> < 10 ^ 310" using minutes_range[of d] by auto
  from itoa_text[OF this] show ?thesis by simp
qed

lemma ssh_detail_text:
  assumes "ssh_texts_ok a"
  shows "text_le 4000 (sshFailureDetail a)"
proof -
  define detail where "detail = itoa (if whole_minutes (ssh_WindowEnd a - ssh_WindowStart a) < 1 then 1
     else whole_minutes (ssh_WindowEnd a - ssh_WindowStart a)) @ '' '' @ [CHR 0xE5, CHR 0x88, CHR 0x86, CHR 0xE9, CHR 0x92, CHR 0x9F, CHR 0xE5, CHR 0x86, CHR 0x85] @ '' SSH '' @ [CHR 0xE8, CHR 0xAE, CHR 0xA4, CHR 0xE8, CHR 0xAF, CHR 0x81, CHR 0xE5, CHR 0xA4, CHR 0xB1, CHR 0xE8, CHR 0xB4, CHR 0xA5] @ '' ''
     @ itoa (ssh_FailedTotal a) @ '' '' @ [CHR 0xE6, CHR 0xAC, CHR 0xA1]"
  define ss where "ss = take 3 (sort_key (\<lambda>s. - src_Count s) (sort_key src_Address (ssh_Sources a)))"
  define parts where "parts = map (\<lambda>s. src_Address s @ '' '' @ [CHR 0xC3, CHR 0x97] @ '' '' @ itoa (src_Count s)) ss"
  have ft: "\<bar>ssh_FailedTotal a\<bar> < 2 ^ 63" using assms by (simp add: ssh_texts_ok_def)
  have d: "text_le 400 detail" unfolding detail_def
    by (rule text_mono, (rule text_add minutes_text ssh_texts text_parts text_byte ft)+) simp
  have "text_le 536 (src_Address s @ '' '' @ [CHR 0xC3, CHR 0x97] @ '' '' @ itoa (src_Count s))" if "s \<in> set ss" for s
  proof -
    have "s \<in> set (ssh_Sources a)" using that by (auto simp: ss_def dest: in_set_takeD)
    then have "text_le 512 (src_Address s)" "\<bar>src_Count s\<bar> < 2 ^ 63" using assms by (auto simp: ssh_texts_ok_def list_all_iff)
    note t = this
    show ?thesis by (rule text_mono, (rule text_add t ssh_texts text_parts text_byte)+) simp
  qed
  then have "text_le ((536 + 1) * length parts) (join [CHR 0xE3, CHR 0x80, CHR 0x81] parts)"
    by (intro join_text ssh_texts(5)) (auto simp: parts_def)
  moreover have "length parts \<le> 3" by (simp add: parts_def ss_def)
  ultimately have j: "text_le 1611 (join [CHR 0xE3, CHR 0x80, CHR 0x81] parts)" by (elim text_mono) simp
  have e: "text_le (400 + (5 + (1 + 1611))) (detail @ [CHR 0xEF, CHR 0xBC, CHR 0x9B, CHR 0xE4, CHR 0xB8, CHR 0xBB, CHR 0xE8, CHR 0xA6, CHR 0x81, CHR 0xE6, CHR 0x9D, CHR 0xA5, CHR 0xE6, CHR 0xBA, CHR 0x90] @ '' '' @ join [CHR 0xE3, CHR 0x80, CHR 0x81] parts)"
    by (intro text_add d j) (simp_all add: byte_def cont_byte_def text_ascii ascii_eval)
  have "sshFailureDetail a = (if ssh_Sources a = [] then detail else detail @ [CHR 0xEF, CHR 0xBC, CHR 0x9B, CHR 0xE4, CHR 0xB8, CHR 0xBB, CHR 0xE8, CHR 0xA6, CHR 0x81, CHR 0xE6, CHR 0x9D, CHR 0xA5, CHR 0xE6, CHR 0xBA, CHR 0x90] @ '' '' @ join [CHR 0xE3, CHR 0x80, CHR 0x81] parts)"
    unfolding sshFailureDetail_def Let_def detail_def parts_def ss_def by simp
  then show ?thesis using text_mono[OF d, of 4000] text_mono[OF e, of 4000] by simp
qed

lemma ssh_title: "text_le 240 (''SSH '' @ [CHR 0xE8, CHR 0xAE, CHR 0xA4, CHR 0xE8, CHR 0xAF, CHR 0x81, CHR 0xE5, CHR 0xA4, CHR 0xB1, CHR 0xE8, CHR 0xB4, CHR 0xA5, CHR 0xE7, CHR 0xAA, CHR 0x81, CHR 0xE5, CHR 0xA2, CHR 0x9E])" "trim_space (''SSH '' @ [CHR 0xE8, CHR 0xAE, CHR 0xA4, CHR 0xE8, CHR 0xAF, CHR 0x81, CHR 0xE5, CHR 0xA4, CHR 0xB1, CHR 0xE8, CHR 0xB4, CHR 0xA5, CHR 0xE7, CHR 0xAA, CHR 0x81, CHR 0xE5, CHR 0xA2, CHR 0x9E]) \<noteq> []"
  by (simp_all add: text_le_def utf8_eval trim_space_empty)

lemma ssh_valid:
  assumes h: "host_text (ob_HostID ob)" and c: "\<forall>k. \<forall>s \<in> set (carry m k). signal_ok (ob_HostID ob) s"
    and t: "\<And>a. ob_SSH ob = Some a \<Longrightarrow> ssh_texts_ok a" and s: "s \<in> set (ssh_signals ob m)"
  shows "signal_ok (ob_HostID ob) s"
  using s c h unfolding ssh_signals_def Let_def host_text_def
  by (auto split: if_splits option.splits simp del: append.simps
      intro!: rule_signal rule_keys rule_kinds severities ssh_title ssh_detail_text t)

lemma offline_valid:
  assumes h: "host_text (ob_HostID ob)" and t: "valid_utf8 (ob_LastError ob)"
  shows "signal_ok (ob_HostID ob) (offline_signal ob)"
proof -
  have "text_le 4000 (boundedEventDetail (ob_LastError ob) (''Hub '' @ [CHR 0xE6, CHR 0x97, CHR 0xA0, CHR 0xE6, CHR 0xB3, CHR 0x95, CHR 0xE5, CHR 0x8F, CHR 0x96, CHR 0xE5, CHR 0xBE, CHR 0x97] @ '' Agent '' @ [CHR 0xE5, CHR 0xAE, CHR 0x9E, CHR 0xE6, CHR 0x97, CHR 0xB6, CHR 0xE7, CHR 0x8A, CHR 0xB6, CHR 0xE6, CHR 0x80, CHR 0x81]))"
    by (rule text_mono[OF bounded_text[OF t]]) (simp_all add: utf8_eval)
  then show ?thesis using h unfolding offline_signal_def host_text_def
    by (intro rule_signal rule_keys rule_kinds severities const_titles const_shown) simp_all
qed

lemma failed_source: "s \<in> set (failed_workloads hid seen ws) \<Longrightarrow> \<exists>w \<in> set ws. s = workload_signal hid w"
  by (induction hid seen ws rule: failed_workloads.induct) (auto split: if_splits)

lemma workload_signal_valid:
  assumes h: "host_text hid" and w: "valid_identifier (w_Key w) 512" "valid_utf8 (w_Key w)" "valid_utf8 (w_State w)"
    "text_le 235 (w_Name w)"
  shows "signal_ok hid (workload_signal hid w)"
proof -
  have "\<not> containsControl '':failed''" by (simp add: utf8_eval)
  then have "valid_identifier (w_Key w @ '':failed'') 519"
    using w(1,2) unfolding valid_identifier_def by (simp add: containsControl_append)
  then have r: "rule_key ('':workload:'' @ w_Key w @ '':failed'')"
    by (intro rule_key_append[where n = 519]) (simp_all add: rule_key_def utf8_eval)
  have t: "text_le (5 + 235) ([CHR 0xE6, CHR 0x9C, CHR 0x8D, CHR 0xE5, CHR 0x8A, CHR 0xA1, CHR 0xE5, CHR 0xA4, CHR 0xB1, CHR 0xE8, CHR 0xB4, CHR 0xA5, CHR 0xEF, CHR 0xBC, CHR 0x9A] @ w_Name w)" by (intro text_add const_texts w)
  have s: "trim_space ([CHR 0xE6, CHR 0x9C, CHR 0x8D, CHR 0xE5, CHR 0x8A, CHR 0xA1, CHR 0xE5, CHR 0xA4, CHR 0xB1, CHR 0xE8, CHR 0xB4, CHR 0xA5, CHR 0xEF, CHR 0xBC, CHR 0x9A] @ w_Name w) \<noteq> []" by (intro shown_append const_shown) (simp add: utf8_eval)
  have d: "text_le 4000 (boundedEventDetail (w_State w) [CHR 0xE5, CHR 0xB7, CHR 0xA5, CHR 0xE4, CHR 0xBD, CHR 0x9C, CHR 0xE8, CHR 0xB4, CHR 0x9F, CHR 0xE8, CHR 0xBD, CHR 0xBD, CHR 0xE5, CHR 0xA4, CHR 0x84, CHR 0xE4, CHR 0xBA, CHR 0x8E, CHR 0xE5, CHR 0xA4, CHR 0xB1, CHR 0xE8, CHR 0xB4, CHR 0xA5, CHR 0xE7, CHR 0x8A, CHR 0xB6, CHR 0xE6, CHR 0x80, CHR 0x81])"
    by (rule text_mono[OF bounded_text[OF w(3)]]) (simp_all add: utf8_eval)
  show ?thesis unfolding workload_signal_def workload_key_def
    using h t s d unfolding host_text_def by (intro rule_signal rule_kinds severities r) simp_all
qed

lemma listener_signal_valid:
  assumes h: "host_text hid" and e: "valid_identifier (ep_Key e) 512" "1 \<le> ep_Port e" "ep_Port e \<le> 65535"
    "ep_Protocol e = ''tcp'' \<or> ep_Protocol e = ''udp''" "text_le 512 (ep_WorkloadKey e)" "text_le 512 (ep_Bind e)"
  shows "signal_ok hid (listenerAddedSignal hid (listener_key hid e) e)"
proof -
  have r: "rule_key ('':listener:'' @ ep_Key e)"
    using e(1) by (intro rule_key_append[where n = 512]) (simp_all add: rule_key_def utf8_eval)
  have p: "\<bar>ep_Port e\<bar> < 2 ^ 63" using e(2,3) by simp
  have "text_le 3 (ep_Protocol e)" using e(4) by (auto intro!: text_ascii simp: ascii_eval)
  then have t: "text_le 240 ([CHR 0xE6, CHR 0x96, CHR 0xB0, CHR 0xE5, CHR 0xA2, CHR 0x9E, CHR 0xE5, CHR 0x85, CHR 0xAC, CHR 0xE7, CHR 0xBD, CHR 0x91, CHR 0xE7, CHR 0xBB, CHR 0x91, CHR 0xE5, CHR 0xAE, CHR 0x9A, CHR 0xEF, CHR 0xBC, CHR 0x9A] @ itoa (ep_Port e) @ ''/'' @ ep_Protocol e)"
    by - (rule text_mono, (rule text_add const_texts text_parts text_byte p | assumption)+, simp)
  have s: "trim_space ([CHR 0xE6, CHR 0x96, CHR 0xB0, CHR 0xE5, CHR 0xA2, CHR 0x9E, CHR 0xE5, CHR 0x85, CHR 0xAC, CHR 0xE7, CHR 0xBD, CHR 0x91, CHR 0xE7, CHR 0xBB, CHR 0x91, CHR 0xE5, CHR 0xAE, CHR 0x9A, CHR 0xEF, CHR 0xBC, CHR 0x9A] @ itoa (ep_Port e) @ ''/'' @ ep_Protocol e) \<noteq> []"
    by (intro shown_append const_shown) (simp add: utf8_eval)
  have d: "text_le 4000 (ep_WorkloadKey e @ '' '' @ [CHR 0xC2, CHR 0xB7] @ '' '' @ ep_Bind e)"
    by (rule text_mono, (rule text_add e ssh_texts text_parts)+) simp
  show ?thesis unfolding listenerAddedSignal_def listener_key_def
    using h t s d unfolding host_text_def by (intro rule_signal rule_kinds severities r) simp_all
qed

lemma workload_valid:
  assumes h: "host_text (ob_HostID ob)" and a: "\<forall>e \<in> set active. validateEvent e = Inr ()"
    and w: "\<forall>w \<in> set (workloads_of ob). valid_identifier (w_Key w) 512 \<and> valid_utf8 (w_Key w) \<and> valid_utf8 (w_State w) \<and>
      text_le 235 (w_Name w)"
    and s: "s \<in> set (workload_signals ob (active_entries ob active))"
  shows "signal_ok (ob_HostID ob) s"
proof -
  consider e where "e \<in> set (active_entries ob active)" "s = signalFromEvent e"
    | x where "x \<in> set (workloads_of ob)" "s = workload_signal (ob_HostID ob) x"
    using s by (auto simp: workload_signals_def Let_def workloads_of_def dest!: failed_source split: option.splits)
  then show ?thesis
    by cases (use entry_valid[OF a] workload_signal_valid[OF h] w in auto)
qed

lemma listener_valid:
  assumes h: "host_text (ob_HostID ob)" and a: "\<forall>e \<in> set active. validateEvent e = Inr ()"
    and p: "\<forall>e \<in> set (ob_Endpoints ob). valid_identifier (ep_Key e) 512 \<and> 1 \<le> ep_Port e \<and> ep_Port e \<le> 65535 \<and>
      (ep_Protocol e = ''tcp'' \<or> ep_Protocol e = ''udp'') \<and> text_le 512 (ep_WorkloadKey e) \<and> text_le 512 (ep_Bind e)"
    and s: "s \<in> set (listener_signals previous ob m (active_entries ob active) known established)"
  shows "signal_ok (ob_HostID ob) s"
proof -
  consider e where "e \<in> set (active_entries ob active)" "s = signalFromEvent e"
    | k where "k \<in> set (listenerWildcardKeys ob)" "s = listenerAddedSignal (ob_HostID ob) k (the (listenerWildcardEndpoints ob k))"
    using s by (auto simp: listener_signals_def Let_def split: if_splits)
  then show ?thesis
  proof cases
    case 1
    then show ?thesis using entry_valid[OF a] by simp
  next
    case 2
    obtain e where e: "listenerWildcardEndpoints ob k = Some e" using 2(1) unfolding wildcard_key by blast
    have "k = listener_key (ob_HostID ob) e" "e \<in> set (ob_Endpoints ob)" using wildcard_endpoint[OF e] by simp_all
    then show ?thesis unfolding 2(2) e option.sel using p by (auto intro!: listener_signal_valid[OF h])
  qed
qed

section \<open>The signals of an observation\<close>

lemma observation_parts:
  assumes "validateObservation ob = Inr ()"
  shows "valid_identifier (ob_HostID ob) 128" "ob_ObservedAt ob \<noteq> 0"
    "\<forall>w \<in> set (workloads_of ob). validateWorkload (ob_HostID ob) w = Inr ()" "distinct (map w_Key (workloads_of ob))"
    "\<forall>e \<in> set (ob_Endpoints ob). validateEndpoint (ob_HostID ob) (map w_Key (workloads_of ob)) e = Inr ()"
    "ob_SSH ob = Some a \<Longrightarrow> validateSSHAuthObservation a = Inr ()"
  using assms by (auto simp: validateObservation_def andThen_ok check_distinct_ok_Nil split: option.splits)

lemma workload_parts: "validateWorkload hid w = Inr () \<Longrightarrow> valid_identifier (w_Key w) 512"
  by (simp add: validateWorkload_def andThen_ok)

lemma endpoint_parts: "validateEndpoint hid ws e = Inr () \<Longrightarrow> valid_identifier (ep_Key e) 512 \<and> 1 \<le> ep_Port e \<and>
    ep_Port e \<le> 65535 \<and> (ep_Protocol e = ''tcp'' \<or> ep_Protocol e = ''udp'') \<and> ep_WorkloadKey e \<in> set ws"
  by (auto simp: validateEndpoint_def andThen_ok)

lemma ssh_parts:
  assumes "validateSSHAuthObservation a = Inr ()" "list_all (\<lambda>x. text_le 512 (src_Address x)) (ssh_Sources a)"
  shows "ssh_texts_ok a"
proof -
  have "0 \<le> ssh_FailedTotal a \<and> ssh_FailedTotal a \<le> 1000000" "\<forall>x \<in> set (ssh_Sources a). validateSSHSource x = Inr ()"
    using assms(1) by (auto simp: validateSSHAuthObservation_def Let_def andThen_ok check_distinct_ok_Nil not_less)
  moreover have "1 \<le> src_Count x \<and> src_Count x \<le> 1000000" if "validateSSHSource x = Inr ()" for x
    using that by (auto simp: validateSSHSource_def split: option.splits)
  ultimately show ?thesis using assms(2) by (fastforce simp: ssh_texts_ok_def list_all_iff)
qed

lemma resource_valid:
  assumes h: "host_text (ob_HostID ob)" and a: "\<forall>e \<in> set active. validateEvent e = Inr ()"
    and t: "signal_texts ob" and s: "s \<in> set (resource_signals ob (active_by_key ob active) (active_entries ob active))"
  shows "signal_ok (ob_HostID ob) s"
proof (cases "ob_Resources ob")
  case None
  then show ?thesis using s entry_valid[OF a] by (auto simp: resource_signals_def)
next
  case (Some rs)
  have c: "\<forall>k. \<forall>s \<in> set (carry (active_by_key ob active) k). signal_ok (ob_HostID ob) s" using carry_valid[OF a] by blast
  have "\<bar>rs_CPUs rs\<bar> < 2 ^ 63" "float_in_range (rs_Load1 rs)" "mem_TotalBytes (rs_Memory rs) < 2 ^ 63"
    "\<forall>d \<in> set (rs_Disks rs). dk_TotalBytes d < 2 ^ 63"
    using t unfolding signal_texts_def Some list_all_iff option.case by blast+
  then show ?thesis using s memory_valid[OF h c] disk_valid[OF h c] load_valid[OF h c] by (auto simp: resource_signals_def Some)
qed

lemma every_signal_valid:
  assumes ob: "validateObservation ob = Inr ()" and t: "signal_texts ob" and a: "\<forall>e \<in> set active. validateEvent e = Inr ()"
    and s: "s \<in> set (evaluateEventSignals previous ob active known established)"
  shows "signal_ok (ob_HostID ob) s"
proof -
  have h: "host_text (ob_HostID ob)" using observation_parts(1)[OF ob] t by (simp add: host_text_def signal_texts_def)
  have c: "\<forall>k. \<forall>s \<in> set (carry (active_by_key ob active) k). signal_ok (ob_HostID ob) s" using carry_valid[OF a] by blast
  have w: "\<forall>w \<in> set (workloads_of ob). valid_identifier (w_Key w) 512 \<and> valid_utf8 (w_Key w) \<and> valid_utf8 (w_State w) \<and> text_le 235 (w_Name w)"
    using t observation_parts(3)[OF ob] workload_parts by (auto simp: signal_texts_def list_all_iff text_le_def)
  have k: "text_le 512 x" if "x \<in> set (map w_Key (workloads_of ob))" for x
    using that w by (auto simp: valid_identifier_def intro: text_bytes)
  have p: "\<forall>e \<in> set (ob_Endpoints ob). valid_identifier (ep_Key e) 512 \<and> 1 \<le> ep_Port e \<and> ep_Port e \<le> 65535 \<and>
      (ep_Protocol e = ''tcp'' \<or> ep_Protocol e = ''udp'') \<and> text_le 512 (ep_WorkloadKey e) \<and> text_le 512 (ep_Bind e)"
    using t observation_parts(5)[OF ob] endpoint_parts k by (fastforce simp: signal_texts_def list_all_iff)
  have ssh: "ssh_texts_ok x" if "ob_SSH ob = Some x" for x
    using t observation_parts(6)[OF ob that] by (intro ssh_parts) (simp_all add: signal_texts_def that)
  have o: "valid_utf8 (ob_LastError ob)" using t by (simp add: signal_texts_def)
  show ?thesis
  proof (cases "ob_Online ob")
    case False
    then have "s = offline_signal ob \<or> (\<exists>e \<in> set (active_entries ob active). s = signalFromEvent e)"
      using s by (auto simp: evaluateEventSignals_def sortedEventSignals_def Let_def)
    then show ?thesis using offline_valid[OF h o] entry_valid[OF a] by blast
  next
    case True
    have "s \<in> set (resource_signals ob (active_by_key ob active) (active_entries ob active)) \<union> set (ssh_signals ob (active_by_key ob active)) \<union>
        set (workload_signals ob (active_entries ob active)) \<union>
        set (listener_signals previous ob (active_by_key ob active) (active_entries ob active) known established)"
      using s True by (simp add: evaluateEventSignals_def sortedEventSignals_def Let_def)
    then show ?thesis
      using resource_valid[OF h a t] ssh_valid[OF h c ssh] workload_valid[OF h a w] listener_valid[OF h a p] by blast
  qed
qed

lemma ordered_signals: "active_ok active \<Longrightarrow> sorted_wrt (<) (map sg_DedupeKey (evaluateEventSignals previous ob active known established))"
  using distinct_signals unfolding strict_sorted_iff
  by (auto simp: evaluateEventSignals_def sortedEventSignals_def Let_def)


text \<open>C20. Nothing recovers by silence: an unresolved event of the host that the rules drop stands for a
  condition the observation itself shows to be over. The host answered, the telemetry of that category
  was collected, and the value is under the clearing threshold, the workload no longer failed or the
  port no longer bound to every interface.\<close>

theorem resolved_only_by_evidence:
  assumes "active_ok active" "e \<in> set active" "unresolved (ob_HostID ob) e"
    "ev_DedupeKey e \<notin> sg_DedupeKey ` set (evaluateEventSignals previous ob active known established)"
  shows "condition_over ob (ev_DedupeKey e)"
proof -
  have "active_by_key ob active (ev_DedupeKey e) \<noteq> None" using assms(2,3) unfolding active_by_key_None by blast
  then obtain f where f: "active_by_key ob active (ev_DedupeKey e) = Some f" by blast
  show ?thesis by (rule recovery_shown[OF assms(1) f assms(4)])
qed

text \<open>Nothing opens without a cause: a signal whose key had no unresolved event stands for a condition
  that the observation shows at the threshold that opens an event, or for a public binding that is not
  in the established baseline.\<close>

theorem opened_only_by_evidence:
  assumes "active_ok active" "s \<in> set (evaluateEventSignals previous ob active known established)"
    "\<forall>e \<in> set active. unresolved (ob_HostID ob) e \<longrightarrow> ev_DedupeKey e \<noteq> sg_DedupeKey s"
  shows "condition_holds known established ob (sg_DedupeKey s)"
  using opening_shown[OF assms(1)] assms(2,3) active_by_key_None by blast

text \<open>The rules have no bound on the title: a failed workload whose name, which no check limits, has more
  than 235 characters yields a signal that \<^verbatim>\<open>EventSignal.Validate\<close> rejects, although the observation is valid.\<close>

theorem long_name_rejected:
  assumes "validateObservation ob = Inr ()" "ob_Online ob" "w \<in> set (workloads_of ob)" "workloadFailed w"
    "valid_utf8 (w_Name w)" "235 < rune_count (w_Name w)"
  shows "list_ex (\<lambda>s. validateEventSignal s \<noteq> Inr ()) (evaluateEventSignals previous ob [] known established)"
proof -
  let ?ws = "workload_signals ob (active_entries ob [])"
  have n: "active_entries ob [] = []" by (simp add: active_entries_def sorted_keys_def)
  obtain ws where ws: "ob_Workloads ob = Some ws" "w \<in> set ws" using assms(3) by (cases "ob_Workloads ob") (auto simp: workloads_of_def)
  have "workload_key (ob_HostID ob) w \<in> sg_DedupeKey ` set (failed_workloads (ob_HostID ob) [] ws)"
    unfolding failed_workload_keys using ws assms(4) by auto
  then obtain v where v: "v \<in> set ws" "workload_signal (ob_HostID ob) v \<in> set ?ws" "workload_key (ob_HostID ob) v = workload_key (ob_HostID ob) w"
    using failed_source ws unfolding n workload_signals_def by (fastforce simp: workload_signal_def)
  have "v = w" using observation_parts(4)[OF assms(1)] v(1,3) ws
    by (auto simp: workload_key_def workloads_of_def dest: inj_onD[OF conjunct2[OF distinct_map[THEN iffD1]]])
  then have "workload_signal (ob_HostID ob) w \<in> set (evaluateEventSignals previous ob [] known established)"
    using v(2) assms(2) by (simp add: evaluateEventSignals_def sortedEventSignals_def Let_def)
  moreover have "240 < rune_count (sg_Title (workload_signal (ob_HostID ob) w))"
    using assms(5,6) by (simp add: workload_signal_def rune_count_def chunk_cjk byte_def cont_byte_def)
  ultimately show ?thesis by (auto simp: list_ex_iff validateEventSignal_ok intro!: bexI[of _ "workload_signal (ob_HostID ob) w"])
qed

section \<open>Witnesses\<close>

text \<open>A host with its whole memory in use, then with none of it, and a workload that failed.\<close>

definition host_sample :: "int \<Rightarrow> workload list \<Rightarrow> observation" where
  "host_sample used ws =
     \<lparr>ob_HostID = ''h'', ob_ObservedAt = 10, ob_Online = True, ob_LastError = [], ob_Hostname = ''h'', ob_AgentVersion = ''1'',
      ob_Resources = Some \<lparr>rs_CPUs = 0, rs_Load1 = Fin 0, rs_Load5 = Fin 0, rs_Load15 = Fin 0,
        rs_Memory = \<lparr>mem_TotalBytes = 100, mem_AvailableBytes = 100 - used, mem_UsedBytes = used, mem_SwapTotalBytes = 0, mem_SwapUsedBytes = 0\<rparr>,
        rs_Disks = [], rs_Docker = None\<rparr>,
      ob_SSH = None, ob_Workloads = Some ws, ob_Endpoints = [], ob_Routes = [], ob_Warnings = []\<rparr>"

definition memory_event :: event where
  "memory_event =
     \<lparr>ev_ID = ''e1'', ev_HostID = ''h'', ev_Kind = ''resource.memory'', ev_Severity = SeverityCritical, ev_State = EventActive,
      ev_DedupeKey = ''h:resource:memory'', ev_Title = ''memory'', ev_Detail = [], ev_FirstObservedAt = 5, ev_LastObservedAt = 5,
      ev_AcknowledgedAt = None, ev_ResolvedAt = None\<rparr>"

definition failed_sample :: "string \<Rightarrow> workload" where
  "failed_sample name =
     \<lparr>w_HostID = ''h'', w_Key = ''systemd:a'', w_Kind = ''systemd'', w_Name = name, w_State = ''failed'', w_Image = [], w_Unit = [],
      w_ComposeProject = [], w_ComposeService = [], w_Health = [], w_PID = 0, w_StartedAt = None, w_Unidentified = False\<rparr>"

lemma sample_valid: "validateObservation (host_sample used []) = Inr ()" "signal_texts (host_sample used [])"
  by (simp_all add: validateObservation_def host_sample_def andThen_ok workloads_of_def valid_identifier_def utf8_eval
      signal_texts_def float_in_range_def)

lemma memory_event_ok: "active_ok [memory_event]" "unresolved ''h'' memory_event" "validateEvent memory_event = Inr ()"
  by (simp_all add: active_ok_def memory_event_def unresolved_def validateEvent_ok validateEventState_ok validateEventSignal_ok
      event_signal_of_def valid_identifier_def utf8_eval has_prefix_def validSeverity_def trim_space_empty)

lemma sample_host: "ob_HostID (host_sample used ws) = ''h''" "ob_Online (host_sample used ws)"
  by (simp_all add: host_sample_def)

lemma memory_event_key: "ev_DedupeKey memory_event = ''h:resource:memory''"
  by (simp add: memory_event_def)

lemma name_ascii: "ascii (replicate n CHR ''a'')"
  by (simp add: ascii_def list_all_iff byte_def)

lemma failed_sample_ok:
  "workloadFailed (failed_sample name)" "valid_utf8 (w_Name (failed_sample (replicate 300 CHR ''a'')))"
  "235 < rune_count (w_Name (failed_sample (replicate 300 CHR ''a'')))"
  using name_ascii[of 300] by (simp_all only: failed_sample_def workload.simps valid_utf8_ascii rune_count_ascii length_replicate)
    (simp_all add: workloadFailed_def trim_space_def trim_chunks_def utf8_eval equal_fold_ascii_def fold_rune_def)

lemma failed_valid: "validateObservation (host_sample used [failed_sample (replicate 300 CHR ''a'')]) = Inr ()"
proof -
  have "list_ex (\<lambda>r. \<not> is_space r) (runes (replicate 300 CHR ''a''))"
    unfolding runes_ascii[OF name_ascii] by (simp add: list_ex_iff byte_def is_space_def)
  then have "trim_space (replicate 300 CHR ''a'') \<noteq> []" by (auto simp: trim_space_empty list_ex_iff list_all_iff)
  then show ?thesis by (simp add: validateObservation_def host_sample_def failed_sample_def andThen_ok workloads_of_def
     valid_identifier_def utf8_eval validateWorkload_def validWorkloadKind_def del: replicate.simps)
qed

lemmas sample_eval = evaluateEventSignals_def sortedEventSignals_def Let_def host_sample_def active_by_key_def index_by_def
  active_entries_def sorted_keys_def resource_signals_def memory_signals_def disk_signals_def load_signals_def
  memoryTelemetryMissing_def diskTelemetryMissing_def loadTelemetryMissing_def observationHasWarning_def UsagePercent_def
  carry_def is_active_def ssh_signals_def workload_signals_def listener_signals_def listenerTelemetryMissing_def
  establishingListeners_def listenerWildcardKeys_def wildcard_endpoints_def

lemma calm_signals: "evaluateEventSignals None (host_sample 0 []) [memory_event] {} True = []"
  by (simp add: sample_eval memory_event_def unresolved_def has_prefix_def float_of_int_def)

lemma hundred: "itoa 100 = ''100''"
  by code_simp

lemma busy_signals: "evaluateEventSignals None (host_sample 100 []) [] {} established =
    [\<lparr>sg_HostID = ''h'', sg_Kind = ''resource.memory'', sg_Severity = SeverityCritical, sg_DedupeKey = ''h:resource:memory'',
      sg_Title = [CHR 0xE5, CHR 0x86, CHR 0x85, CHR 0xE5, CHR 0xAD, CHR 0x98, CHR 0xE5, CHR 0x8E, CHR 0x8B, CHR 0xE5, CHR 0x8A, CHR 0x9B], sg_Detail = [CHR 0xE5, CHR 0x86, CHR 0x85, CHR 0xE5, CHR 0xAD, CHR 0x98, CHR 0xE4, CHR 0xBD, CHR 0xBF, CHR 0xE7, CHR 0x94, CHR 0xA8, CHR 0xE7, CHR 0x8E, CHR 0x87] @ '' 100%''\<rparr>]"
  by (simp add: sample_eval hundred)


theorem resolved_only_by_evidence_witness: "condition_over (host_sample 0 []) ''h:resource:memory''"
  using resolved_only_by_evidence[OF memory_event_ok(1), of memory_event "host_sample 0 []" None "{}" True] memory_event_ok(2)
  by (simp add: sample_host calm_signals memory_event_key)

theorem opened_only_by_evidence_witness: "condition_holds {} True (host_sample 100 []) ''h:resource:memory''"
  using opened_only_by_evidence[of "[]" "hd (evaluateEventSignals None (host_sample 100 []) [] {} True)" None "host_sample 100 []" "{}" True]
  unfolding busy_signals by (simp add: active_ok_def)

theorem long_name_rejected_witness:
  "list_ex (\<lambda>s. validateEventSignal s \<noteq> Inr ())
     (evaluateEventSignals None (host_sample 0 [failed_sample (replicate 300 CHR ''a'')]) [] {} True)"
  by (rule long_name_rejected[OF failed_valid sample_host(2) _ failed_sample_ok]) (simp_all add: host_sample_def workloads_of_def)

end
