(* ===== verification/Observation_Roundtrip.thy ===== *)
theory Observation_Roundtrip
  imports Observation_Store Event_Validity "HOL-Library.Multiset"
begin

text \<open>
  What the observation tables promise: a recorded observation is loaded as it was, its lists in the
  order of their keys; the latest one is the one last recorded; pruning removes the old ones and
  nothing else; and the summaries that the history computes in SQL are those of the domain.
\<close>

section \<open>The invariant of the tables\<close>

definition tables_ok :: "db \<Rightarrow> bool" where
  "tables_ok d =
     (distinct (map or_ID (db_observations d)) \<and> (\<forall>r \<in> set (db_observations d). or_ID r \<le> db_observation_seq d) \<and>
      fst ` set (db_workloads d) \<union> fst ` set (db_endpoints d) \<union> fst ` set (db_routes d) \<subseteq> or_ID ` set (db_observations d))"

lemma fresh_rows:
  assumes "tables_ok d"
  shows "filter (\<lambda>r. fst r = db_observation_seq d + 1) (db_workloads d) = []"
    "filter (\<lambda>r. fst r = db_observation_seq d + 1) (db_endpoints d) = []"
    "filter (\<lambda>r. fst r = db_observation_seq d + 1) (db_routes d) = []"
    "\<forall>r \<in> set (db_observations d). or_ID r \<noteq> db_observation_seq d + 1"
  using assms unfolding tables_ok_def filter_empty_conv by fastforce+

section \<open>What recording writes\<close>

definition stored_route :: "proxy_route \<Rightarrow> proxy_route" where
  "stored_route r = r\<lparr>rt_Upstreams := map json_text (rt_Upstreams r)\<rparr>"

lemma insert_workload_step: "insert_workload i x d = Inr d' \<Longrightarrow> d' = d\<lparr>db_workloads := db_workloads d @ [(i, x)]\<rparr>"
  by (simp add: insert_workload_def split: if_splits)

lemma insert_endpoint_step: "insert_endpoint i x d = Inr d' \<Longrightarrow> d' = d\<lparr>db_endpoints := db_endpoints d @ [(i, x)]\<rparr>"
  by (simp add: insert_endpoint_def split: if_splits)

lemma insert_route_step: "insert_route i x d = Inr d' \<Longrightarrow> d' = d\<lparr>db_routes := db_routes d @ [(i, stored_route x)]\<rparr>"
  by (simp add: insert_route_def stored_route_def split: if_splits)

lemma workloads_written:
  "each (insert_workload i) ws d = Inr d' \<Longrightarrow> d' = d\<lparr>db_workloads := db_workloads d @ map (Pair i) ws\<rparr>"
proof (induction ws arbitrary: d)
  case (Cons x xs)
  have "each (insert_workload i) xs (d\<lparr>db_workloads := db_workloads d @ [(i, x)]\<rparr>) = Inr d'"
    using Cons.prems by (auto simp: andThen_ok dest: insert_workload_step)
  from Cons.IH[OF this] show ?case by simp
qed simp

lemma endpoints_written:
  "each (insert_endpoint i) es d = Inr d' \<Longrightarrow> d' = d\<lparr>db_endpoints := db_endpoints d @ map (Pair i) es\<rparr>"
proof (induction es arbitrary: d)
  case (Cons x xs)
  have "each (insert_endpoint i) xs (d\<lparr>db_endpoints := db_endpoints d @ [(i, x)]\<rparr>) = Inr d'"
    using Cons.prems by (auto simp: andThen_ok dest: insert_endpoint_step)
  from Cons.IH[OF this] show ?case by simp
qed simp

lemma routes_written:
  "each (insert_route i) rs d = Inr d' \<Longrightarrow> d' = d\<lparr>db_routes := db_routes d @ map (Pair i \<circ> stored_route) rs\<rparr>"
proof (induction rs arbitrary: d)
  case (Cons x xs)
  have "each (insert_route i) xs (d\<lparr>db_routes := db_routes d @ [(i, stored_route x)]\<rparr>) = Inr d'"
    using Cons.prems by (auto simp: andThen_ok dest: insert_route_step)
  from Cons.IH[OF this] show ?case by simp
qed simp

text \<open>The statements succeed on keys that are new and rows that meet the constraints.\<close>

lemma workloads_insert:
  assumes "distinct (map w_Key ws)" "\<forall>w \<in> set ws. \<not> workload_exists d i (w_Key w)"
  shows "each (insert_workload i) ws d = Inr (d\<lparr>db_workloads := db_workloads d @ map (Pair i) ws\<rparr>)"
  using assms
proof (induction ws arbitrary: d)
  case (Cons w ws)
  have "insert_workload i w d = Inr (d\<lparr>db_workloads := db_workloads d @ [(i, w)]\<rparr>)"
    using Cons.prems by (simp add: insert_workload_def workload_exists_def)
  moreover have "\<forall>v \<in> set ws. \<not> workload_exists (d\<lparr>db_workloads := db_workloads d @ [(i, w)]\<rparr>) i (w_Key v)"
    using Cons.prems by (auto simp: workload_exists_def list_ex_iff)
  ultimately show ?case using Cons.IH Cons.prems by simp
qed simp

lemma endpoints_insert:
  assumes "distinct (map (\<lambda>e. composite_key (ep_WorkloadKey e) (ep_Key e)) es)"
    "\<forall>e \<in> set es. 1 \<le> ep_Port e \<and> ep_Port e \<le> 65535 \<and> workload_exists d i (ep_WorkloadKey e)"
    "\<forall>r \<in> set (db_endpoints d). fst r = i \<longrightarrow> (\<forall>e \<in> set es. ep_WorkloadKey (snd r) \<noteq> ep_WorkloadKey e \<or> ep_Key (snd r) \<noteq> ep_Key e)"
  shows "each (insert_endpoint i) es d = Inr (d\<lparr>db_endpoints := db_endpoints d @ map (Pair i) es\<rparr>)"
  using assms
proof (induction es arbitrary: d)
  case (Cons e es)
  let ?d = "d\<lparr>db_endpoints := db_endpoints d @ [(i, e)]\<rparr>"
  have "insert_endpoint i e d = Inr ?d"
    using Cons.prems by (auto simp: insert_endpoint_def list_ex_iff)
  moreover have "\<forall>x \<in> set es. 1 \<le> ep_Port x \<and> ep_Port x \<le> 65535 \<and> workload_exists ?d i (ep_WorkloadKey x)"
    using Cons.prems by (simp add: workload_exists_def)
  moreover have "\<forall>r \<in> set (db_endpoints ?d). fst r = i \<longrightarrow> (\<forall>x \<in> set es. ep_WorkloadKey (snd r) \<noteq> ep_WorkloadKey x \<or> ep_Key (snd r) \<noteq> ep_Key x)"
    using Cons.prems by (auto simp: rev_image_eqI)
  ultimately show ?case using Cons.IH[of ?d] Cons.prems by simp
qed simp

lemma routes_insert:
  assumes "distinct (map (\<lambda>r. composite_key (rt_WorkloadKey r) (rt_Key r)) rs)"
    "\<forall>r \<in> set rs. (rt_Scheme r = ''http'' \<or> rt_Scheme r = ''https'') \<and> 1 \<le> rt_Port r \<and> rt_Port r \<le> 65535 \<and>
      rt_Kind r \<in> {RouteUnknown, RouteProxy, RouteStatic, RouteSite} \<and> workload_exists d i (rt_WorkloadKey r)"
    "\<forall>x \<in> set (db_routes d). fst x = i \<longrightarrow> (\<forall>r \<in> set rs. rt_WorkloadKey (snd x) \<noteq> rt_WorkloadKey r \<or> rt_Key (snd x) \<noteq> rt_Key r)"
  shows "each (insert_route i) rs d = Inr (d\<lparr>db_routes := db_routes d @ map (Pair i \<circ> stored_route) rs\<rparr>)"
  using assms
proof (induction rs arbitrary: d)
  case (Cons r rs)
  let ?d = "d\<lparr>db_routes := db_routes d @ [(i, stored_route r)]\<rparr>"
  have "insert_route i r d = Inr ?d"
    using Cons.prems by (auto simp: insert_route_def stored_route_def list_ex_iff)
  moreover have "\<forall>x \<in> set rs. (rt_Scheme x = ''http'' \<or> rt_Scheme x = ''https'') \<and> 1 \<le> rt_Port x \<and> rt_Port x \<le> 65535 \<and>
      rt_Kind x \<in> {RouteUnknown, RouteProxy, RouteStatic, RouteSite} \<and> workload_exists ?d i (rt_WorkloadKey x)"
    using Cons.prems by (simp add: workload_exists_def)
  moreover have "\<forall>x \<in> set (db_routes ?d). fst x = i \<longrightarrow> (\<forall>y \<in> set rs. rt_WorkloadKey (snd x) \<noteq> rt_WorkloadKey y \<or> rt_Key (snd x) \<noteq> rt_Key y)"
    using Cons.prems by (auto simp: stored_route_def rev_image_eqI)
  ultimately show ?case using Cons.IH[of ?d] Cons.prems by simp
qed simp

section \<open>A valid observation is recorded\<close>

definition observation_row_of :: "int \<Rightarrow> observation \<Rightarrow> resources option \<Rightarrow> observation_row" where
  "observation_row_of i ob rs =
     \<lparr>or_ID = i, or_HostID = ob_HostID ob, or_ObservedAt = ob_ObservedAt ob, or_Online = ob_Online ob,
      or_LastError = ob_LastError ob, or_Hostname = ob_Hostname ob, or_AgentVersion = ob_AgentVersion ob,
      or_Resources = rs, or_SSH = map_option marshal_ssh (ob_SSH ob), or_Warnings = map json_text (ob_Warnings ob),
      or_WorkloadsCollected = (ob_Workloads ob \<noteq> None)\<rparr>"

definition recorded :: "observation \<Rightarrow> resources option \<Rightarrow> db \<Rightarrow> db" where
  "recorded ob rs d =
     (let i = db_observation_seq d + 1 in
      d\<lparr>db_observation_seq := i, db_observations := db_observations d @ [observation_row_of i ob rs],
        db_workloads := db_workloads d @ map (Pair i) (workloads_of ob),
        db_endpoints := db_endpoints d @ map (Pair i) (ob_Endpoints ob),
        db_routes := db_routes d @ map (Pair i \<circ> stored_route) (ob_Routes ob)\<rparr>)"

definition marshal_optional :: "resources option \<Rightarrow> go_error + resources option" where
  "marshal_optional r0 = (case r0 of None \<Rightarrow> Inr None | Some rs \<Rightarrow> andThen (marshal_resources rs) (\<lambda>r. Inr (Some r)))"

lemma record_written:
  assumes "recordObservationTx ob d = Inr (i, d')"
  shows "\<exists>rs. marshal_optional (ob_Resources ob) = Inr rs \<and> i = db_observation_seq d + 1 \<and> d' = recorded ob rs d \<and>
    host_exists (db_hosts d) (ob_HostID ob)"
proof -
  obtain rs where rs: "marshal_optional (ob_Resources ob) = Inr rs"
    and h: "host_exists (db_hosts d) (ob_HostID ob)" and i: "i = db_observation_seq d + 1"
    and d: "andThen (each (insert_workload i) (workloads_of ob)
        (d\<lparr>db_observation_seq := i, db_observations := db_observations d @ [observation_row_of i ob rs]\<rparr>))
      (\<lambda>d2. andThen (each (insert_endpoint i) (ob_Endpoints ob) d2)
      (\<lambda>d3. andThen (each (insert_route i) (ob_Routes ob) d3) (\<lambda>d4. Inr (i, d4)))) = Inr (i, d')"
    using assms unfolding recordObservationTx_def marshal_optional_def[symmetric]
    by (auto simp: andThen_ok insert_observation_def Let_def observation_row_of_def)
  then show ?thesis
    by (auto simp: andThen_ok recorded_def i Let_def dest!: workloads_written endpoints_written routes_written)
qed

lemma route_parts: "validateRoute hid ws r = Inr () \<Longrightarrow> (rt_Scheme r = ''http'' \<or> rt_Scheme r = ''https'') \<and> 1 \<le> rt_Port r \<and>
    rt_Port r \<le> 65535 \<and> rt_Kind r \<in> {RouteUnknown, RouteProxy, RouteStatic, RouteSite} \<and> rt_WorkloadKey r \<in> set ws \<and> rt_HostID r = hid"
  by (auto simp: validateRoute_def andThen_ok not_less)

lemma observation_lists:
  assumes "validateObservation ob = Inr ()"
  shows "distinct (map (\<lambda>e. composite_key (ep_WorkloadKey e) (ep_Key e)) (ob_Endpoints ob))"
    "distinct (map (\<lambda>r. composite_key (rt_WorkloadKey r) (rt_Key r)) (ob_Routes ob))"
    "\<forall>r \<in> set (ob_Routes ob). validateRoute (ob_HostID ob) (map w_Key (workloads_of ob)) r = Inr ()"
    "\<forall>w \<in> set (workloads_of ob). w_HostID w = ob_HostID ob"
    "\<forall>e \<in> set (ob_Endpoints ob). ep_HostID e = ob_HostID ob"
  using assms by (auto simp: validateObservation_def validateWorkload_def validateEndpoint_def andThen_ok check_distinct_ok_Nil)

lemma record_succeeds:
  assumes v: "validateObservation ob = Inr ()" and t: "tables_ok d" and h: "host_exists (db_hosts d) (ob_HostID ob)"
    and rs: "marshal_optional (ob_Resources ob) = Inr rs"
  shows "recordObservationTx ob d = Inr (db_observation_seq d + 1, recorded ob rs d)"
proof -
  let ?i = "db_observation_seq d + 1"
  note fresh = fresh_rows[OF t, unfolded filter_empty_conv]
  define d1 where "d1 = d\<lparr>db_observation_seq := ?i, db_observations := db_observations d @ [observation_row_of ?i ob rs]\<rparr>"
  define d2 where "d2 = d1\<lparr>db_workloads := db_workloads d1 @ map (Pair ?i) (workloads_of ob)\<rparr>"
  define d3 where "d3 = d2\<lparr>db_endpoints := db_endpoints d2 @ map (Pair ?i) (ob_Endpoints ob)\<rparr>"
  have "each (insert_workload ?i) (workloads_of ob) d1 = Inr d2" unfolding d2_def
    using observation_parts(4)[OF v] fresh by (intro workloads_insert) (auto simp: d1_def workload_exists_def list_ex_iff)
  moreover have w: "workload_exists x ?i k" if "k \<in> set (map w_Key (workloads_of ob))" "x = d2 \<or> x = d3" for k x
    using that by (auto simp: d3_def d2_def workload_exists_def list_ex_iff bex_Un)
  have "each (insert_endpoint ?i) (ob_Endpoints ob) d2 = Inr d3" unfolding d3_def
  proof (rule endpoints_insert[OF observation_lists(1)[OF v]])
    show "\<forall>e \<in> set (ob_Endpoints ob). 1 \<le> ep_Port e \<and> ep_Port e \<le> 65535 \<and> workload_exists d2 ?i (ep_WorkloadKey e)"
      using observation_parts(5)[OF v] endpoint_parts w by blast
    show "\<forall>r \<in> set (db_endpoints d2). fst r = ?i \<longrightarrow>
       (\<forall>e \<in> set (ob_Endpoints ob). ep_WorkloadKey (snd r) \<noteq> ep_WorkloadKey e \<or> ep_Key (snd r) \<noteq> ep_Key e)"
      using fresh by (auto simp: d2_def d1_def)
  qed
  moreover have "each (insert_route ?i) (ob_Routes ob) d3 =
      Inr (d3\<lparr>db_routes := db_routes d3 @ map (Pair ?i \<circ> stored_route) (ob_Routes ob)\<rparr>)"
  proof (rule routes_insert[OF observation_lists(2)[OF v]])
    show "\<forall>r \<in> set (ob_Routes ob). (rt_Scheme r = ''http'' \<or> rt_Scheme r = ''https'') \<and> 1 \<le> rt_Port r \<and> rt_Port r \<le> 65535 \<and>
      rt_Kind r \<in> {RouteUnknown, RouteProxy, RouteStatic, RouteSite} \<and> workload_exists d3 ?i (rt_WorkloadKey r)"
      using observation_lists(3)[OF v] route_parts w by blast
    show "\<forall>x \<in> set (db_routes d3). fst x = ?i \<longrightarrow>
       (\<forall>r \<in> set (ob_Routes ob). rt_WorkloadKey (snd x) \<noteq> rt_WorkloadKey r \<or> rt_Key (snd x) \<noteq> rt_Key r)"
      using fresh by (auto simp: d3_def d2_def d1_def)
  qed
  moreover have "insert_observation ob rs d = Inr (?i, d1)"
    using h by (simp add: insert_observation_def d1_def observation_row_of_def Let_def)
  ultimately have "recordObservationTx ob d = Inr (?i, d3\<lparr>db_routes := db_routes d3 @ map (Pair ?i \<circ> stored_route) (ob_Routes ob)\<rparr>)"
    unfolding recordObservationTx_def marshal_optional_def[symmetric] rs by simp
  then show ?thesis by (simp add: d3_def d2_def d1_def recorded_def Let_def)
qed

section \<open>Loading gives it back\<close>

definition canonical :: "observation \<Rightarrow> observation" where
  "canonical ob = ob\<lparr>ob_Workloads := map_option (sort_key w_Key) (ob_Workloads ob),
     ob_Endpoints := sort_key ep_WorkloadKey (sort_key ep_Key (ob_Endpoints ob)),
     ob_Routes := sort_key rt_WorkloadKey (sort_key rt_Key (ob_Routes ob))\<rparr>"

text \<open>What JSON can hold: finite floats and UTF-8.\<close>

definition json_clean :: "observation \<Rightarrow> bool" where
  "json_clean ob = (list_all valid_utf8 (ob_Warnings ob) \<and>
     (case ob_Resources ob of None \<Rightarrow> True | Some rs \<Rightarrow>
        finite_float (rs_Load1 rs) \<and> finite_float (rs_Load5 rs) \<and> finite_float (rs_Load15 rs) \<and>
        list_all (\<lambda>d. valid_utf8 (dk_Mount d) \<and> valid_utf8 (dk_Filesystem d)) (rs_Disks rs)) \<and>
     (case ob_SSH ob of None \<Rightarrow> True | Some a \<Rightarrow> list_all (\<lambda>s. valid_utf8 (src_Address s)) (ssh_Sources a)) \<and>
     list_all (\<lambda>r. list_all valid_utf8 (rt_Upstreams r)) (ob_Routes ob))"

lemma json_text_id [simp]: "valid_utf8 s \<Longrightarrow> json_text s = s"
proof -
  assume "valid_utf8 s"
  then have "map rune_bytes (rune_chunks s) = map snd (rune_chunks s)"
    by (auto simp: valid_utf8_def list_ex_iff rune_bytes_def)
  then show ?thesis unfolding json_text_def by (simp only: concat_chunks)
qed

lemma map_json_text: "list_all valid_utf8 ss \<Longrightarrow> map json_text ss = ss"
  by (induction ss) simp_all

lemma marshal_clean:
  assumes "json_clean ob"
  shows "marshal_optional (ob_Resources ob) = Inr (ob_Resources ob)" "map_option marshal_ssh (ob_SSH ob) = ob_SSH ob"
    "map json_text (ob_Warnings ob) = ob_Warnings ob" "map stored_route (ob_Routes ob) = ob_Routes ob"
proof -
  have m: "map (\<lambda>d. d\<lparr>dk_Mount := json_text (dk_Mount d), dk_Filesystem := json_text (dk_Filesystem d)\<rparr>) ds = ds"
    if "list_all (\<lambda>d. valid_utf8 (dk_Mount d) \<and> valid_utf8 (dk_Filesystem d)) ds" for ds
    using that by (induction ds) auto
  have n: "rs\<lparr>rs_Disks := map (\<lambda>d. d\<lparr>dk_Mount := json_text (dk_Mount d), dk_Filesystem := json_text (dk_Filesystem d)\<rparr>) (rs_Disks rs)\<rparr> = rs"
    if "list_all (\<lambda>d. valid_utf8 (dk_Mount d) \<and> valid_utf8 (dk_Filesystem d)) (rs_Disks rs)" for rs
    unfolding m[OF that] by simp
  show "marshal_optional (ob_Resources ob) = Inr (ob_Resources ob)"
  proof (cases "ob_Resources ob")
    case (Some a)
    then have "marshal_resources a = Inr a" using assms n[of a] unfolding json_clean_def marshal_resources_def by simp
    then show ?thesis by (simp add: marshal_optional_def Some)
  qed (simp add: marshal_optional_def)
  have k: "map (\<lambda>s. s\<lparr>src_Address := json_text (src_Address s)\<rparr>) ss = ss" if "list_all (\<lambda>s. valid_utf8 (src_Address s)) ss" for ss
    using that by (induction ss) auto
  have a: "marshal_ssh a = a" if "list_all (\<lambda>s. valid_utf8 (src_Address s)) (ssh_Sources a)" for a
    unfolding marshal_ssh_def k[OF that] by simp
  show "map_option marshal_ssh (ob_SSH ob) = ob_SSH ob"
    using assms a by (cases "ob_SSH ob") (simp_all add: json_clean_def)
  show "map json_text (ob_Warnings ob) = ob_Warnings ob" using assms by (simp add: json_clean_def map_json_text)
  have "map stored_route rs = rs" if "list_all (\<lambda>r. list_all valid_utf8 (rt_Upstreams r)) rs" for rs
    using that by (induction rs) (auto simp: stored_route_def map_json_text)
  then show "map stored_route (ob_Routes ob) = ob_Routes ob" using assms by (simp add: json_clean_def)
qed

lemma insort_key_map: "insort_key f (g x) (map g xs) = map g (insort_key (\<lambda>x. f (g x)) x xs)"
  by (induction xs) auto

lemma sort_key_map: "sort_key f (map g xs) = map g (sort_key (\<lambda>x. f (g x)) xs)"
  by (induction xs) (simp_all add: insort_key_map)

lemma filter_pair [simp]: "filter (\<lambda>r. fst r = i) (map (Pair i) xs) = map (Pair i) xs"
  by (induction xs) auto

lemma set_host_id:
  "\<forall>w \<in> set ws. w_HostID w = hid \<Longrightarrow> map (\<lambda>x. x\<lparr>w_HostID := hid\<rparr>) ws = ws"
  "\<forall>e \<in> set es. ep_HostID e = hid \<Longrightarrow> map (\<lambda>x. x\<lparr>ep_HostID := hid\<rparr>) es = es"
  "\<forall>r \<in> set rs. rt_HostID r = hid \<Longrightarrow> map (\<lambda>x. x\<lparr>rt_HostID := hid\<rparr>) rs = rs"
  by (auto intro!: map_idI)

lemma load_recorded:
  assumes v: "validateObservation ob = Inr ()" and t: "tables_ok d" and c: "json_clean ob"
  defines "i \<equiv> db_observation_seq d + 1"
  shows "load_workloads (ob_HostID ob) i (recorded ob rs d) = sort_key w_Key (workloads_of ob)"
    "load_endpoints (ob_HostID ob) i (recorded ob rs d) = ob_Endpoints (canonical ob)"
    "load_routes (ob_HostID ob) i (recorded ob rs d) = ob_Routes (canonical ob)"
proof -
  note f = fresh_rows[OF t, folded i_def] and h = observation_lists(4,5)[OF v]
  have r: "\<forall>r \<in> set (ob_Routes ob). rt_HostID r = ob_HostID ob" using observation_lists(3)[OF v] route_parts by blast
  show "load_workloads (ob_HostID ob) i (recorded ob rs d) = sort_key w_Key (workloads_of ob)"
    using h by (simp add: load_workloads_def recorded_def i_def[symmetric] Let_def f sort_key_map comp_def set_host_id)
  show "load_endpoints (ob_HostID ob) i (recorded ob rs d) = ob_Endpoints (canonical ob)"
    using h by (simp add: load_endpoints_def recorded_def i_def[symmetric] Let_def f sort_key_map comp_def set_host_id canonical_def)
  have m: "map (Pair i \<circ> stored_route) (ob_Routes ob) = map (Pair i) (ob_Routes ob)"
    using marshal_clean(4)[OF c] by (metis map_map)
  show "load_routes (ob_HostID ob) i (recorded ob rs d) = ob_Routes (canonical ob)"
    using r by (simp add: load_routes_def recorded_def i_def[symmetric] Let_def f m del: map_map)
      (simp add: sort_key_map comp_def set_host_id canonical_def)
qed

text \<open>The order of the lists does not matter to \<^verbatim>\<open>Observation.Validate\<close>.\<close>

lemma check_distinct_perm:
  assumes "mset xs = mset ys"
  shows "check_distinct dup key pre post [] xs = Inr u \<longleftrightarrow> check_distinct dup key pre post [] ys = Inr u"
proof -
  have "mset (map key xs) = mset (map key ys)" using assms by simp
  then have "distinct (map key xs) = distinct (map key ys)" by (rule mset_eq_imp_distinct_iff)
  moreover have "set xs = set ys" using assms by (rule mset_eq_setD)
  ultimately show ?thesis unfolding check_distinct_ok_Nil by simp
qed

lemma validate_endpoint_set: "set ws = set ws' \<Longrightarrow> validateEndpoint hid ws = validateEndpoint hid ws'"
  "set ws = set ws' \<Longrightarrow> validateRoute hid ws = validateRoute hid ws'"
  by (simp_all add: fun_eq_iff validateEndpoint_def validateRoute_def)

lemma canonical_workloads: "workloads_of (canonical ob) = sort_key w_Key (workloads_of ob)"
  by (cases "ob_Workloads ob") (simp_all add: workloads_of_def canonical_def)

lemma validate_canonical:
  assumes "validateObservation ob = Inr ()"
  shows "validateObservation (canonical ob) = Inr ()"
proof -
  have k: "set (map w_Key (workloads_of (canonical ob))) = set (map w_Key (workloads_of ob))"
    by (simp add: canonical_workloads)
  have u: "ob_HostID (canonical ob) = ob_HostID ob" "ob_ObservedAt (canonical ob) = ob_ObservedAt ob" "ob_SSH (canonical ob) = ob_SSH ob"
    "ob_Online (canonical ob) = ob_Online ob" by (simp_all add: canonical_def)
  have m: "mset (workloads_of (canonical ob)) = mset (workloads_of ob)" "mset (ob_Endpoints (canonical ob)) = mset (ob_Endpoints ob)"
    "mset (ob_Routes (canonical ob)) = mset (ob_Routes ob)" by (simp_all add: canonical_workloads) (simp_all add: canonical_def)
  show ?thesis using assms unfolding validateObservation_def andThen_ok u validate_endpoint_set[OF k]
      check_distinct_perm[OF m(1)] check_distinct_perm[OF m(2)] check_distinct_perm[OF m(3)] .
qed

lemma find_recorded:
  assumes "tables_ok d"
  shows "find (\<lambda>r. or_ID r = db_observation_seq d + 1) (db_observations (recorded ob rs d)) = Some (observation_row_of (db_observation_seq d + 1) ob rs)"
proof -
  have "find P (xs @ ys) = (case find P xs of None \<Rightarrow> find P ys | s \<Rightarrow> s)" for P :: "observation_row \<Rightarrow> bool" and xs ys
    by (induction xs) auto
  moreover have "find (\<lambda>r. or_ID r = db_observation_seq d + 1) (db_observations d) = None"
    using fresh_rows(4)[OF assms] by (auto simp: find_None_iff)
  ultimately show ?thesis by (simp add: recorded_def Let_def observation_row_of_def)
qed

lemma record_load:
  assumes v: "validateObservation ob = Inr ()" and t: "tables_ok d" and c: "json_clean ob"
  shows "loadObservation (recorded ob (ob_Resources ob) d) (db_observation_seq d + 1) = Inr (canonical ob)"
proof -
  let ?r = "observation_row_of (db_observation_seq d + 1) ob (ob_Resources ob)" and ?d = "recorded ob (ob_Resources ob) d"
  have e: "sort_key w_Key (workloads_of ob) = [] \<longleftrightarrow> workloads_of ob = []" by (metis length_0_conv length_sort)
  have "\<lparr>ob_HostID = or_HostID ?r, ob_ObservedAt = or_ObservedAt ?r, ob_Online = or_Online ?r, ob_LastError = or_LastError ?r,
      ob_Hostname = or_Hostname ?r, ob_AgentVersion = or_AgentVersion ?r, ob_Resources = or_Resources ?r, ob_SSH = or_SSH ?r,
      ob_Workloads = (if load_workloads (or_HostID ?r) (db_observation_seq d + 1) ?d = [] \<and> \<not> or_WorkloadsCollected ?r then None
        else Some (load_workloads (or_HostID ?r) (db_observation_seq d + 1) ?d)),
      ob_Endpoints = load_endpoints (or_HostID ?r) (db_observation_seq d + 1) ?d,
      ob_Routes = load_routes (or_HostID ?r) (db_observation_seq d + 1) ?d, ob_Warnings = or_Warnings ?r\<rparr> = canonical ob"
    using load_recorded[OF v t c, of "ob_Resources ob"] marshal_clean(2,3)[OF c] e
    by (cases "ob_Workloads ob") (simp_all add: observation_row_of_def workloads_of_def canonical_def)
  then show ?thesis unfolding loadObservation_def find_recorded[OF t] option.case Let_def
    using validate_canonical[OF v] by simp
qed

lemma tables_recorded: "tables_ok d \<Longrightarrow> tables_ok (recorded ob rs d)"
proof -
  assume t: "tables_ok d"
  let ?i = "db_observation_seq d + 1"
  have o: "db_observations (recorded ob rs d) = db_observations d @ [observation_row_of ?i ob rs]" "or_ID (observation_row_of ?i ob rs) = ?i"
    "db_observation_seq (recorded ob rs d) = ?i" by (simp_all add: recorded_def observation_row_of_def Let_def)
  have "distinct (map or_ID (db_observations (recorded ob rs d)))"
    using t fresh_rows(4)[OF t] unfolding o(1) tables_ok_def by (auto simp: o(2))
  moreover have "\<forall>r \<in> set (db_observations (recorded ob rs d)). or_ID r \<le> ?i"
    using t unfolding o(1) tables_ok_def by (auto simp: o(2))
  moreover have "fst ` set (db_workloads (recorded ob rs d)) \<union> fst ` set (db_endpoints (recorded ob rs d)) \<union> fst ` set (db_routes (recorded ob rs d))
      \<subseteq> or_ID ` set (db_observations (recorded ob rs d))"
  proof (rule order.trans)
    show "fst ` set (db_workloads (recorded ob rs d)) \<union> fst ` set (db_endpoints (recorded ob rs d)) \<union> fst ` set (db_routes (recorded ob rs d))
        \<subseteq> insert ?i (fst ` set (db_workloads d) \<union> fst ` set (db_endpoints d) \<union> fst ` set (db_routes d))"
      by (auto simp: recorded_def Let_def)
    have "or_ID ` set (db_observations (recorded ob rs d)) = insert ?i (or_ID ` set (db_observations d))"
      unfolding o(1) by (simp add: o(2))
    then show "insert ?i (fst ` set (db_workloads d) \<union> fst ` set (db_endpoints d) \<union> fst ` set (db_routes d))
        \<subseteq> or_ID ` set (db_observations (recorded ob rs d))"
      using t unfolding tables_ok_def by (metis insert_mono)
  qed
  ultimately show ?thesis unfolding tables_ok_def o(3) by (intro conjI)
qed

section \<open>The newest observation\<close>

lemma sort_key_last:
  assumes "\<forall>y \<in> set xs. f z < f y"
  shows "sort_key f (xs @ [z]) = z # sort_key f xs"
  using assms
proof (induction xs)
  case (Cons x xs)
  then show ?case by (simp add: insort_key.simps) (metis insort_key.simps(2) not_less order.strict_iff_order Cons.prems list.set_intros(1))
qed simp

lemma newest_recorded:
  assumes t: "tables_ok d" and l: "\<forall>r \<in> set (db_observations d). or_HostID r = ob_HostID ob \<longrightarrow> or_ObservedAt r \<le> ob_ObservedAt ob"
  shows "newest_observations (ob_HostID ob) (recorded ob rs d) =
    observation_row_of (db_observation_seq d + 1) ob rs # newest_observations (ob_HostID ob) d"
proof -
  let ?z = "observation_row_of (db_observation_seq d + 1) ob rs" and ?xs = "filter (\<lambda>r. or_HostID r = ob_HostID ob) (db_observations d)"
  have "filter (\<lambda>r. or_HostID r = ob_HostID ob) (db_observations (recorded ob rs d)) = ?xs @ [?z]"
    by (simp add: recorded_def observation_row_of_def Let_def)
  moreover have "sort_key (\<lambda>r. - or_ID r) (?xs @ [?z]) = ?z # sort_key (\<lambda>r. - or_ID r) ?xs"
    using t by (intro sort_key_last) (auto simp: tables_ok_def observation_row_of_def)
  moreover have "insort_key (\<lambda>r. - or_ObservedAt r) ?z (sort_key (\<lambda>r. - or_ObservedAt r) ys) = ?z # sort_key (\<lambda>r. - or_ObservedAt r) ys"
    if "\<forall>r \<in> set ys. or_ObservedAt r \<le> ob_ObservedAt ob" for ys
    using that by (intro insort_is_Cons) (simp add: observation_row_of_def)
  ultimately show ?thesis using l by (simp add: newest_observations_def)
qed

section \<open>Pruning\<close>

lemma find_filter_id:
  assumes "distinct (map or_ID rs)" "r \<in> set rs" "P r"
  shows "find (\<lambda>x. or_ID x = or_ID r) (filter P rs) = Some r" "find (\<lambda>x. or_ID x = or_ID r) rs = Some r"
proof -
  have "distinct (map or_ID (filter P rs))" by (rule distinct_map_filter[OF assms(1)])
  then show "find (\<lambda>x. or_ID x = or_ID r) (filter P rs) = Some r" using assms by (intro find_distinct_key) simp_all
  show "find (\<lambda>x. or_ID x = or_ID r) rs = Some r" by (rule find_distinct_key[OF assms(1,2)])
qed

definition pruned :: "time \<Rightarrow> db \<Rightarrow> db" where
  "pruned before d = snd (PruneObservations before d)"

lemma pruned_ids:
  assumes "tables_ok d" "r \<in> set (db_observations d)" "before \<le> or_ObservedAt r"
  shows "or_ID r \<notin> set (map or_ID (filter (\<lambda>r. or_ObservedAt r < before) (db_observations d)))"
proof
  assume "or_ID r \<in> set (map or_ID (filter (\<lambda>r. or_ObservedAt r < before) (db_observations d)))"
  then obtain s where "s \<in> set (db_observations d)" "or_ObservedAt s < before" "or_ID s = or_ID r" by auto
  then have "s = r" using assms(1,2) by (auto simp: tables_ok_def distinct_map dest: inj_onD)
  then show False using assms(3) \<open>or_ObservedAt s < before\<close> by simp
qed

lemma filter_keeps: "i \<notin> A \<Longrightarrow> filter (\<lambda>r. fst r = i) (filter (\<lambda>r. fst r \<notin> A) xs) = filter (\<lambda>r. fst r = i) xs"
  by (auto simp: filter_filter intro: filter_cong)

lemma pruned_load:
  assumes t: "tables_ok d" and r: "r \<in> set (db_observations d)" "before \<le> or_ObservedAt r"
  shows "loadObservation (pruned before d) (or_ID r) = loadObservation d (or_ID r)"
proof -
  let ?gone = "set (map or_ID (filter (\<lambda>r. or_ObservedAt r < before) (db_observations d)))"
  note k = filter_keeps[OF pruned_ids[OF t r]]
  have f: "find (\<lambda>x. or_ID x = or_ID r) (db_observations (pruned before d)) = find (\<lambda>x. or_ID x = or_ID r) (db_observations d)"
    using t r find_filter_id[of "db_observations d" r "\<lambda>r. \<not> or_ObservedAt r < before"]
    by (simp add: pruned_def PruneObservations_def Let_def tables_ok_def)
  have p: "db_workloads (pruned before d) = filter (\<lambda>r. fst r \<notin> ?gone) (db_workloads d)"
    "db_endpoints (pruned before d) = filter (\<lambda>r. fst r \<notin> ?gone) (db_endpoints d)"
    "db_routes (pruned before d) = filter (\<lambda>r. fst r \<notin> ?gone) (db_routes d)"
    by (simp_all add: pruned_def PruneObservations_def Let_def)
  have l: "load_workloads h (or_ID r) (pruned before d) = load_workloads h (or_ID r) d"
    "load_endpoints h (or_ID r) (pruned before d) = load_endpoints h (or_ID r) d"
    "load_routes h (or_ID r) (pruned before d) = load_routes h (or_ID r) d" for h
    by (simp_all only: load_workloads_def load_endpoints_def load_routes_def p k)
  show ?thesis unfolding loadObservation_def f l ..
qed

end
