(* ===== verification/Observation_Summaries.thy ===== *)
theory Observation_Summaries
  imports Observation_Roundtrip
begin

text \<open>
  The summaries of the history, computed by SQL, against those of the domain
  (\<^verbatim>\<open>SummarizeObservation\<close>), and the theorems on the observation tables.
\<close>

section \<open>Failed workloads in SQL\<close>

lemma decode_tail_small: "194 \<le> b \<Longrightarrow> 128 \<le> fst (decode_tail b cs)"
  by (induction b cs rule: decode_tail.induct) (auto simp: second_ok_def cont_byte_def)

lemma small_rune:
  assumes "s = c # cs" "fst (decode_rune s) < 128"
  shows "decode_rune s = (byte c, 1) \<and> byte c < 128"
proof (cases "byte c < 128")
  case False
  have "128 \<le> fst (decode_rune s)"
    using False decode_tail_small[of "byte c" cs] by (auto simp: assms(1) decode_rune_def)
  then show ?thesis using assms(2) by simp
qed (simp add: assms(1) decode_rune_def)

lemma small_runes_ascii: "list_all (\<lambda>r. r < 128) (runes s) \<Longrightarrow> ascii s"
proof (induction s)
  case (Cons c cs)
  have d: "fst (decode_rune (c # cs)) < 128" using Cons.prems
    by (simp add: runes_def rune_chunks.simps(2)[of c cs] split: prod.splits)
  note r = small_rune[OF refl d]
  have "list_all (\<lambda>r. r < 128) (runes cs)" using Cons.prems r
    by (simp add: runes_def rune_chunks.simps(2)[of c cs])
  then show ?case using Cons.IH r by (simp add: ascii_def)
qed (simp add: ascii_def)

text \<open>A target of lower-case letters other than the two with a folding outside ASCII.\<close>

definition plain_target :: "string \<Rightarrow> bool" where
  "plain_target t = list_all (\<lambda>c. 97 \<le> byte c \<and> byte c \<le> 122 \<and> byte c \<noteq> 107 \<and> byte c \<noteq> 115) t"

lemma byte_char_of: "n < 256 \<Longrightarrow> byte (char_of n) = n"
  by (simp add: byte_def)

lemma byte_inject: "byte a = byte b \<longleftrightarrow> a = b"
  by (simp add: byte_def)

lemma lower_bytes: "ascii s \<Longrightarrow> map byte (sql_lower s) = map fold_rune (map byte s)"
  by (induction s) (auto simp: sql_lower_def ascii_def fold_rune_def byte_char_of)

lemma lower_fold:
  assumes "plain_target t"
  shows "sql_lower s = t \<longleftrightarrow> equal_fold_ascii s t"
proof -
  have a: "ascii t" using assms by (auto simp: plain_target_def ascii_def list_all_iff)
  have f: "map fold_rune (map byte t) = map byte t" using assms by (auto simp: plain_target_def list_all_iff fold_rune_def)
  have inj: "map byte x = map byte y \<longleftrightarrow> x = y" for x y by (rule inj_map_eq_map) (simp add: inj_def byte_inject)
  have "ascii s" if "sql_lower s = t"
    using a unfolding that[symmetric] by (auto simp: ascii_def list_all_iff sql_lower_def byte_char_of split: if_splits)
  moreover have "ascii s" if "equal_fold_ascii s t"
  proof (rule small_runes_ascii)
    have m: "map fold_rune (runes s) = map byte t" using that f by (simp add: equal_fold_ascii_def runes_ascii[OF a])
    have "r < 128" if "r \<in> set (runes s)" for r
    proof -
      have "fold_rune r \<in> byte ` set t" using that m by (metis image_eqI image_set)
      then show ?thesis using assms by (auto simp: plain_target_def list_all_iff fold_rune_def split: if_splits)
    qed
    then show "list_all (\<lambda>r. r < 128) (runes s)" by (simp add: list_all_iff)
  qed
  moreover have "sql_lower s = t \<longleftrightarrow> equal_fold_ascii s t" if "ascii s"
    unfolding equal_fold_ascii_def runes_ascii[OF that] runes_ascii[OF a] f lower_bytes[OF that, symmetric] inj ..
  ultimately show ?thesis by blast
qed

lemma sql_failed_eq:
  assumes "trim_space (w_State w) = sql_trim (w_State w)" "trim_space (w_Health w) = sql_trim (w_Health w)"
  shows "sql_failed w = failed_workload w"
proof -
  have "plain_target ''failed''" "plain_target ''unhealthy''" by (simp_all add: plain_target_def byte_def)
  then show ?thesis unfolding sql_failed_def failed_workload_def assms using lower_fold by metis
qed

section \<open>The summaries of the history\<close>

lemma affected_sort: "affected P (sort_key f xs) = affected P xs"
  by (simp add: affected_def filter_sort)

lemma affected_map: "affected P (map f xs) = affected (\<lambda>x. P (f x)) xs"
  by (simp add: affected_def filter_map comp_def)

lemma affected_filter: "affected P (filter Q xs) = affected (\<lambda>x. Q x \<and> P x) xs"
  by (simp add: affected_def conj_commute)

lemma affected_cong: "(\<And>x. x \<in> set xs \<Longrightarrow> P x = Q x) \<Longrightarrow> affected P xs = affected Q xs"
  by (simp add: affected_def cong: filter_cong)

lemma failed_host_id: "failed_workload (w\<lparr>w_HostID := hid\<rparr>) = failed_workload w"
  by (simp add: failed_workload_def)

lemma loaded_counts:
  "length (load_workloads hid i d) = affected (\<lambda>w. fst w = i) (db_workloads d)"
  "affected failed_workload (load_workloads hid i d) = affected (\<lambda>w. fst w = i \<and> failed_workload (snd w)) (db_workloads d)"
  "affected (\<lambda>e. ep_Binding e = BindingWildcard) (load_endpoints hid i d) =
     affected (\<lambda>e. fst e = i \<and> ep_Binding (snd e) = BindingWildcard) (db_endpoints d)"
  by (simp_all add: load_workloads_def load_endpoints_def affected_map affected_sort affected_filter failed_host_id)
    (simp add: affected_def)

definition plain_states :: "observation \<Rightarrow> bool" where
  "plain_states ob = list_all (\<lambda>w. trim_space (w_State w) = sql_trim (w_State w) \<and> trim_space (w_Health w) = sql_trim (w_Health w))
     (workloads_of ob)"

lemma summary_row_eq:
  assumes t: "tables_ok d" and r: "r \<in> set (db_observations d)" and l: "loadObservation d (or_ID r) = Inr ob" and p: "plain_states ob"
  shows "summary_row d r = summary_of ob"
proof -
  have f: "find (\<lambda>x. or_ID x = or_ID r) (db_observations d) = Some r"
    using t r by (intro find_distinct_key) (simp_all add: tables_ok_def)
  define ws where "ws = load_workloads (or_HostID r) (or_ID r) d"
  have ob: "ob_HostID ob = or_HostID r" "ob_ObservedAt ob = or_ObservedAt r" "ob_Online ob = or_Online r" "ob_LastError ob = or_LastError r"
    "ob_AgentVersion ob = or_AgentVersion r" "ob_Resources ob = or_Resources r" "ob_Warnings ob = or_Warnings r"
    "workloads_of ob = ws" "ob_Endpoints ob = load_endpoints (or_HostID r) (or_ID r) d"
    using l unfolding loadObservation_def f option.case Let_def ws_def
    by (auto simp: andThen_ok workloads_of_def split: if_splits)
  have "sql_failed (snd w) = failed_workload (snd w)" if "w \<in> set (db_workloads d)" "fst w = or_ID r" for w
  proof -
    have "(snd w)\<lparr>w_HostID := or_HostID r\<rparr> \<in> set ws" using that by (auto simp: ws_def load_workloads_def)
    then have "trim_space (w_State ((snd w)\<lparr>w_HostID := or_HostID r\<rparr>)) = sql_trim (w_State ((snd w)\<lparr>w_HostID := or_HostID r\<rparr>)) \<and>
      trim_space (w_Health ((snd w)\<lparr>w_HostID := or_HostID r\<rparr>)) = sql_trim (w_Health ((snd w)\<lparr>w_HostID := or_HostID r\<rparr>))"
      using p unfolding plain_states_def ob list_all_iff by blast
    then show ?thesis by (intro sql_failed_eq) simp_all
  qed
  then have "affected (\<lambda>w. fst w = or_ID r \<and> sql_failed (snd w)) (db_workloads d) =
      affected (\<lambda>w. fst w = or_ID r \<and> failed_workload (snd w)) (db_workloads d)" by (intro affected_cong) auto
  then show ?thesis unfolding summary_row_def summary_of_def ob ws_def loaded_counts by simp
qed

lemma collect_ok: "collect f xs = Inr ys \<longleftrightarrow> list_all2 (\<lambda>x y. f x = Inr y) xs ys"
  by (induction xs arbitrary: ys) (auto simp: andThen_ok list_all2_Cons1)

lemma collect_match: "list_all2 (\<lambda>x y. f x = g y) xs ys \<Longrightarrow> collect f xs = collect g ys"
  by (induction rule: list_all2_induct) simp_all

lemma loaded_valid: "loadObservation d i = Inr ob \<Longrightarrow> validateObservation ob = Inr ()"
  by (auto simp: loadObservation_def Let_def andThen_ok split: option.splits)

lemma newest_subset: "set (newest_observations hid d) \<subseteq> set (db_observations d)"
  by (auto simp: newest_observations_def)

lemma summary_history:
  assumes t: "tables_ok d" and h: "ObservationHistory hid limit d = Inr obs" and p: "\<forall>ob \<in> set obs. plain_states ob"
  shows "ObservationSummaryHistory hid limit d = collect SummarizeObservation obs"
proof -
  let ?rs = "take (nat limit) (newest_observations hid d)"
  have g: "\<not> (limit < 1 \<or> limit > 1000)" and c: "list_all2 (\<lambda>r ob. loadObservation d (or_ID r) = Inr ob) ?rs obs"
    using h by (auto simp: ObservationHistory_def andThen_ok collect_ok)
  have "list_all2 (\<lambda>r ob. andThen (validateSummary (summary_row d r)) (\<lambda>_. Inr (summary_row d r)) = SummarizeObservation ob) ?rs obs"
  proof (rule list_all2_all_nthI)
    show "length ?rs = length obs" by (rule list_all2_lengthD[OF c])
    fix n assume n: "n < length ?rs"
    have l: "loadObservation d (or_ID (?rs ! n)) = Inr (obs ! n)" by (rule list_all2_nthD[OF c n])
    have "?rs ! n \<in> set (db_observations d)" using nth_mem[OF n] newest_subset[of hid d] by (auto dest: in_set_takeD)
    moreover have "n < length obs" using n unfolding list_all2_lengthD[OF c] .
    then have "plain_states (obs ! n)" using p nth_mem by blast
    ultimately show "andThen (validateSummary (summary_row d (?rs ! n))) (\<lambda>_. Inr (summary_row d (?rs ! n))) = SummarizeObservation (obs ! n)"
      using summary_row_eq[OF t _ l] loaded_valid[OF l] by (simp add: SummarizeObservation_def)
  qed
  from collect_match[OF this] show ?thesis using g by (simp add: ObservationSummaryHistory_def guard_def)
qed

section \<open>The theorems on the observation tables\<close>

lemma record_observation:
  assumes "validateObservation ob = Inr ()" "tables_ok d" "json_clean ob" "host_exists (db_hosts d) (ob_HostID ob)"
  shows "RecordObservation ob d = Inr (db_observation_seq d + 1, recorded ob (ob_Resources ob) d)"
  using record_succeeds[OF assms(1,2,4) marshal_clean(1)[OF assms(3)]] assms(1) by (simp add: RecordObservation_def)

lemma latest_recorded:
  assumes "validateObservation ob = Inr ()" "tables_ok d" "json_clean ob"
    "\<forall>r \<in> set (db_observations d). or_HostID r = ob_HostID ob \<longrightarrow> or_ObservedAt r \<le> ob_ObservedAt ob"
  shows "LatestObservation (ob_HostID ob) (recorded ob (ob_Resources ob) d) = Inr (Some (canonical ob))"
  unfolding LatestObservation_def newest_recorded[OF assms(2,4)] list.case
  using record_load[OF assms(1-3)] by (simp add: observation_row_of_def)

lemma kept_rows:
  assumes "fst ` set xs \<subseteq> or_ID ` set rs"
  shows "fst ` set (filter (\<lambda>x. fst x \<notin> set (map or_ID (filter P rs))) xs) \<subseteq> or_ID ` set (filter (\<lambda>r. \<not> P r) rs)"
proof
  fix i assume "i \<in> fst ` set (filter (\<lambda>x. fst x \<notin> set (map or_ID (filter P rs))) xs)"
  then have i: "i \<in> fst ` set xs" "i \<notin> or_ID ` set (filter P rs)" by auto
  then obtain r where "r \<in> set rs" "i = or_ID r" using assms by blast
  moreover from this have "\<not> P r" using i(2) by auto
  ultimately obtain r where "r \<in> set rs" "i = or_ID r" "\<not> P r" by blast
  then show "i \<in> or_ID ` set (filter (\<lambda>r. \<not> P r) rs)" by simp
qed

lemma pruned_ok: "tables_ok d \<Longrightarrow> tables_ok (pruned before d)"
  using kept_rows[of "db_workloads d" "db_observations d" "\<lambda>r. or_ObservedAt r < before"]
    kept_rows[of "db_endpoints d" "db_observations d" "\<lambda>r. or_ObservedAt r < before"]
    kept_rows[of "db_routes d" "db_observations d" "\<lambda>r. or_ObservedAt r < before"]
  by (simp add: tables_ok_def pruned_def PruneObservations_def Let_def distinct_map_filter)

lemma summary_canonical: "summary_of (canonical ob) = summary_of ob"
proof -
  have "length (workloads_of (canonical ob)) = length (workloads_of ob)"
    "affected failed_workload (workloads_of (canonical ob)) = affected failed_workload (workloads_of ob)"
    by (simp_all add: canonical_workloads affected_sort)
  moreover have "affected (\<lambda>e. ep_Binding e = BindingWildcard) (ob_Endpoints (canonical ob)) =
      affected (\<lambda>e. ep_Binding e = BindingWildcard) (ob_Endpoints ob)" by (simp add: canonical_def affected_sort)
  ultimately show ?thesis by (simp add: summary_of_def) (simp add: canonical_def)
qed

lemma plain_canonical: "plain_states (canonical ob) = plain_states ob"
  by (simp add: plain_states_def canonical_workloads list_all_iff)

text \<open>C22. A valid observation of a known host is always recorded, and loading it gives it back, its workloads,
  endpoints and routes in the order of their keys; if no older row of the host is newer, it is the latest
  observation that the next evaluation of the event rules compares with.\<close>

theorem observation_roundtrip:
  assumes "validateObservation ob = Inr ()" "tables_ok d" "json_clean ob" "host_exists (db_hosts d) (ob_HostID ob)"
    "\<forall>r \<in> set (db_observations d). or_HostID r = ob_HostID ob \<longrightarrow> or_ObservedAt r \<le> ob_ObservedAt ob"
  shows "\<exists>i d'. RecordObservation ob d = Inr (i, d') \<and> tables_ok d' \<and> loadObservation d' i = Inr (canonical ob) \<and>
    LatestObservation (ob_HostID ob) d' = Inr (Some (canonical ob))"
  using record_observation[OF assms(1-4)] record_load[OF assms(1-3)] tables_recorded[OF assms(2)] latest_recorded[OF assms(1-3,5)]
  by blast

text \<open>Pruning removes exactly the observations before the limit, with their workloads, endpoints and routes,
  returns how many, and leaves every other observation as it was.\<close>

theorem prune_exact:
  assumes "tables_ok d" "PruneObservations before d = (n, d')"
  shows "tables_ok d' \<and> n = int (length (filter (\<lambda>r. or_ObservedAt r < before) (db_observations d))) \<and>
    list_all (\<lambda>r. if or_ObservedAt r < before
       then loadObservation d' (or_ID r) = Inl ''sql: no rows in result set'' \<and> or_ID r \<notin> fst ` set (db_workloads d')
       else loadObservation d' (or_ID r) = loadObservation d (or_ID r)) (db_observations d)"
proof -
  have d': "d' = pruned before d" and n: "n = int (length (filter (\<lambda>r. or_ObservedAt r < before) (db_observations d)))"
    using assms(2) by (simp_all add: pruned_def PruneObservations_def Let_def affected_def)
  have gone: "loadObservation d' (or_ID r) = Inl ''sql: no rows in result set'' \<and> or_ID r \<notin> fst ` set (db_workloads d')"
    if r: "r \<in> set (db_observations d)" "or_ObservedAt r < before" for r
  proof -
    have "or_ID r \<notin> or_ID ` set (db_observations d')"
    proof
      assume "or_ID r \<in> or_ID ` set (db_observations d')"
      then obtain x where x: "x \<in> set (db_observations d)" "\<not> or_ObservedAt x < before" "or_ID x = or_ID r"
        by (auto simp: d' pruned_def PruneObservations_def Let_def)
      then have "x = r" using assms(1) r(1) by (auto simp: tables_ok_def distinct_map dest: inj_onD)
      then show False using x(2) r(2) by simp
    qed
    moreover have "fst ` set (db_workloads d') \<subseteq> or_ID ` set (db_observations d')"
      using pruned_ok[OF assms(1)] unfolding d' tables_ok_def by blast
    moreover have "find (\<lambda>x. or_ID x = or_ID r) (db_observations d') = None"
      unfolding find_None_iff using calculation(1) by (metis image_eqI)
    ultimately show ?thesis unfolding loadObservation_def by auto
  qed
  show ?thesis using pruned_ok[OF assms(1)] pruned_load[OF assms(1)] gone n unfolding list_all_iff d' by auto
qed


text \<open>The summary's bounds are not those of the observation: a valid observation that exceeds them, by its
  number of processors, its load or the length of its version or error, is recorded, and then every
  history of its host fails until it is pruned or pushed out.\<close>

theorem summary_history_blocked:
  assumes "validateObservation ob = Inr ()" "tables_ok d" "json_clean ob" "host_exists (db_hosts d) (ob_HostID ob)"
    "\<forall>r \<in> set (db_observations d). or_HostID r = ob_HostID ob \<longrightarrow> or_ObservedAt r \<le> ob_ObservedAt ob"
    "plain_states ob" "validateSummary (summary_of ob) = Inl e" "1 \<le> limit" "limit \<le> 1000"
  shows "\<exists>i d'. RecordObservation ob d = Inr (i, d') \<and> ObservationSummaryHistory (ob_HostID ob) limit d' = Inl e"
proof -
  let ?i = "db_observation_seq d + 1" and ?d = "recorded ob (ob_Resources ob) d"
  let ?r = "observation_row_of ?i ob (ob_Resources ob)"
  have "?r \<in> set (db_observations ?d)" by (simp add: recorded_def Let_def)
  moreover have "loadObservation ?d (or_ID ?r) = Inr (canonical ob)"
    using record_load[OF assms(1-3)] by (simp add: observation_row_of_def)
  ultimately have s: "summary_row ?d ?r = summary_of ob"
    using summary_row_eq[OF tables_recorded[OF assms(2)]] assms(6) plain_canonical summary_canonical by metis
  obtain k where k: "nat limit = Suc k" using assms(8) by (cases "nat limit") auto
  have "ObservationSummaryHistory (ob_HostID ob) limit ?d = Inl e"
    using assms(7-9) unfolding ObservationSummaryHistory_def newest_recorded[OF assms(2,5)] k take_Suc_Cons collect.simps s
    by (simp add: guard_def)
  then show ?thesis using record_observation[OF assms(1-4)] by blast
qed

section \<open>Witnesses\<close>

text \<open>A database with one host, and a host observed with an agent whose version has 200 bytes.\<close>

definition one_host :: db where
  "one_host = empty_db\<lparr>db_hosts := [\<lparr>hr_ID = ''h'', hr_Name = ''h'', hr_PublicHost = [], hr_Configured = True, hr_DisplayOrder = 0,
     hr_CreatedAt = 1, hr_UpdatedAt = 1\<rparr>]\<rparr>"

lemma one_host_ok: "tables_ok one_host" "host_exists (db_hosts one_host) ''h''" "db_observations one_host = []"
  by (simp_all add: tables_ok_def one_host_def empty_db_def host_exists_def)

lemma sample_clean: "json_clean (host_sample used [])" "plain_states (host_sample used [])"
  by (simp_all add: json_clean_def host_sample_def finite_float_def plain_states_def workloads_of_def)

theorem observation_roundtrip_witness:
  "\<exists>i d'. RecordObservation (host_sample 50 []) one_host = Inr (i, d') \<and> tables_ok d' \<and>
    loadObservation d' i = Inr (canonical (host_sample 50 [])) \<and> LatestObservation ''h'' d' = Inr (Some (canonical (host_sample 50 [])))"
  using observation_roundtrip[OF sample_valid(1) one_host_ok(1) sample_clean(1), of 50] by (simp add: sample_host one_host_ok)

definition old_host :: db where
  "old_host = recorded (host_sample 50 []) (ob_Resources (host_sample 50 [])) one_host"

lemma old_host_rows: "db_observations old_host = [observation_row_of 1 (host_sample 50 []) (ob_Resources (host_sample 50 []))]"
  "db_workloads old_host = []"
  by (simp_all add: old_host_def recorded_def one_host_def empty_db_def Let_def workloads_of_def host_sample_def)

theorem prune_exact_witness:
  "fst (PruneObservations 11 old_host) = 1 \<and> loadObservation (snd (PruneObservations 11 old_host)) 1 = Inl ''sql: no rows in result set''"
proof -
  have t: "tables_ok old_host" unfolding old_host_def by (rule tables_recorded[OF one_host_ok(1)])
  obtain n d' where p: "PruneObservations 11 old_host = (n, d')" by (cases "PruneObservations 11 old_host")
  have o: "or_ObservedAt (observation_row_of 1 (host_sample 50 []) rs) = 10" "or_ID (observation_row_of 1 (host_sample 50 []) rs) = 1" for rs
    by (simp_all add: observation_row_of_def host_sample_def)
  show ?thesis using prune_exact[OF t p] by (simp add: p old_host_rows o)
qed


theorem summary_history_blocked_witness:
  "\<exists>i d'. RecordObservation (host_sample 50 []\<lparr>ob_AgentVersion := replicate 200 CHR ''1''\<rparr>) one_host = Inr (i, d') \<and>
    ObservationSummaryHistory ''h'' 100 d' = Inl ''observation summary Agent version is invalid''"
proof -
  let ?ob = "host_sample 50 []\<lparr>ob_AgentVersion := replicate 200 CHR ''1''\<rparr>"
  have "validateObservation ?ob = Inr ()" "json_clean ?ob" "plain_states ?ob" "ob_HostID ?ob = ''h''"
    by (simp_all add: validateObservation_def host_sample_def andThen_ok workloads_of_def valid_identifier_def utf8_eval
      json_clean_def finite_float_def plain_states_def)
  moreover have "validateSummary (summary_of ?ob) = Inl ''observation summary Agent version is invalid''"
    by (simp add: validateSummary_def summary_of_def host_sample_def guard_def valid_identifier_def utf8_eval validateIdentifier_def)
  ultimately show ?thesis
    using summary_history_blocked[of ?ob one_host _ 100] one_host_ok by simp
qed

end
