(* ===== verification/Hub_Pipeline.thy ===== *)
theory Hub_Pipeline
  imports Hub_Store Observation_Summaries
begin

text \<open>
  What an update of the durable store guarantees (\<^verbatim>\<open>SQLiteStore.Update\<close>): the event rules, the
  reconciliation, the outbox and the observation tables together.
\<close>

section \<open>The invariant of the store\<close>

text \<open>The event of an unreachable host, and no other, has the host's offline key.\<close>

definition kinds_ok :: "event list \<Rightarrow> bool" where
  "kinds_ok es = (\<forall>e \<in> set es. ev_Kind e = ''host.offline'' \<longleftrightarrow> ev_DedupeKey e = ev_HostID e @ '':host:offline'')"

definition store_ok :: "db \<Rightarrow> bool" where
  "store_ok d = (tables_ok d \<and> events_ok (db_events d) \<and> kinds_ok (db_events d))"

lemma active_rows_ok:
  assumes "events_ok es" "kinds_ok es"
  shows "active_ok (active_rows hid es)" "\<forall>e \<in> set (active_rows hid es). validateEvent e = Inr ()"
  using assms by (auto simp: active_ok_def events_ok_def kinds_ok_def active_rows_def validateEvent_ok valid_identifier_def)

section \<open>The kind of every signal\<close>

definition offline_kind :: "host_id \<Rightarrow> event_signal \<Rightarrow> bool" where
  "offline_kind hid s = (sg_HostID s = hid \<and> (sg_Kind s = ''host.offline'' \<longleftrightarrow> sg_DedupeKey s = hid @ '':host:offline''))"

lemma kind_of_entry:
  assumes "active_ok active" "e \<in> set (active_entries ob active)"
  shows "offline_kind (ob_HostID ob) (signalFromEvent e)"
  using assms active_by_key_Some[OF assms(2)[unfolded active_entries_iff]]
  by (auto simp: offline_kind_def signalFromEvent_def active_ok_def unresolved_def)

lemma kind_of_carry:
  assumes "active_ok active" "s \<in> set (carry (active_by_key ob active) k)"
  shows "offline_kind (ob_HostID ob) s"
proof -
  obtain e where e: "active_by_key ob active k = Some e" "s = signalFromEvent e"
    using assms(2) by (auto simp: carry_def is_active_def split: if_splits option.splits)
  then show ?thesis using kind_of_entry[OF assms(1)] entry_of_key[OF e(1)] by blast
qed

lemma kind_of_rule: "sg_HostID s = hid \<Longrightarrow> sg_Kind s \<noteq> ''host.offline'' \<Longrightarrow> sg_DedupeKey s = hid @ rest \<Longrightarrow> rest \<noteq> '':host:offline'' \<Longrightarrow>
    offline_kind hid s"
  by (simp add: offline_kind_def)

lemma kind_of_resource:
  assumes a: "active_ok active"
  shows "s \<in> set (memory_signals ob rs (active_by_key ob active)) \<Longrightarrow> offline_kind (ob_HostID ob) s"
    "s \<in> set (disk_signals ob rs (active_by_key ob active)) \<Longrightarrow> offline_kind (ob_HostID ob) s"
    "s \<in> set (load_signals ob rs (active_by_key ob active)) \<Longrightarrow> offline_kind (ob_HostID ob) s"
proof -
  note c = kind_of_carry[OF a, of s ob]
  show "s \<in> set (memory_signals ob rs (active_by_key ob active)) \<Longrightarrow> offline_kind (ob_HostID ob) s"
    unfolding memory_signals_def Let_def using c
    by (cases "memoryTelemetryMissing ob") (auto simp: offline_kind_def split: if_splits)
  show "s \<in> set (disk_signals ob rs (active_by_key ob active)) \<Longrightarrow> offline_kind (ob_HostID ob) s"
    unfolding disk_signals_def Let_def using c
    by (cases "diskTelemetryMissing ob"; cases "find (\<lambda>d. dk_Mount d = ''/'') (rs_Disks rs)") (auto simp: offline_kind_def split: if_splits)
  show "s \<in> set (load_signals ob rs (active_by_key ob active)) \<Longrightarrow> offline_kind (ob_HostID ob) s"
    unfolding load_signals_def Let_def using c
    by (cases "loadTelemetryMissing ob") (auto simp: offline_kind_def split: if_splits)
qed

lemma kind_of_signal:
  assumes a: "active_ok active" and s: "s \<in> set (evaluateEventSignals previous ob active known established)"
  shows "offline_kind (ob_HostID ob) s"
proof (cases "ob_Online ob")
  case False
  then have "s = offline_signal ob \<or> (\<exists>e \<in> set (active_entries ob active). s = signalFromEvent e)"
    using s by (auto simp: evaluateEventSignals_def sortedEventSignals_def Let_def)
  then show ?thesis using kind_of_entry[OF a] by (auto simp: offline_kind_def offline_signal_def)
next
  case True
  let ?m = "active_by_key ob active" and ?es = "active_entries ob active"
  consider (res) "s \<in> set (resource_signals ob ?m ?es)" | (ssh) "s \<in> set (ssh_signals ob ?m)"
    | (work) "s \<in> set (workload_signals ob ?es)" | (listen) "s \<in> set (listener_signals previous ob ?m ?es known established)"
    using s True by (auto simp: evaluateEventSignals_def sortedEventSignals_def Let_def)
  then show ?thesis
  proof cases
    case res
    then show ?thesis using kind_of_resource[OF a] kind_of_entry[OF a]
      by (auto simp: resource_signals_def split: option.splits)
  next
    case ssh
    then show ?thesis using kind_of_carry[OF a] by (auto simp: ssh_signals_def Let_def offline_kind_def split: option.splits if_splits)
  next
    case work
    then consider e where "e \<in> set ?es" "s = signalFromEvent e" | w where "s = workload_signal (ob_HostID ob) w"
      by (auto simp: workload_signals_def Let_def dest!: failed_source split: option.splits)
    then show ?thesis using kind_of_entry[OF a]
      by cases (auto simp: offline_kind_def workload_signal_def workload_key_def)
  next
    case listen
    then consider e where "e \<in> set ?es" "s = signalFromEvent e"
      | k where "k \<in> set (listenerWildcardKeys ob)" "s = listenerAddedSignal (ob_HostID ob) k (the (listenerWildcardEndpoints ob k))"
      by (auto simp: listener_signals_def Let_def split: if_splits)
    then show ?thesis using kind_of_entry[OF a]
      by cases (auto simp: offline_kind_def listenerAddedSignal_def wildcard_keys_iff listener_key_def)
  qed
qed

section \<open>What an update writes\<close>

lemma baseline_frame:
  assumes "replaceListenerBaselineTx now hid keys d = Inr d'"
  shows "\<exists>bl bh. d' = d\<lparr>db_listener_baselines := bl, db_listener_hosts := bh\<rparr>"
proof -
  obtain d1 where d1: "each (insert_baseline hid) keys (d\<lparr>db_listener_baselines := filter (\<lambda>r. fst r \<noteq> hid) (db_listener_baselines d)\<rparr>) = Inr d1"
    using assms by (auto simp: replaceListenerBaselineTx_def andThen_ok)
  have "\<exists>bl. d1 = d\<lparr>db_listener_baselines := bl\<rparr>"
  proof (rule each_inv[OF d1, where I = "\<lambda>x. \<exists>bl. x = d\<lparr>db_listener_baselines := bl\<rparr>"])
    show "\<exists>bl. d\<lparr>db_listener_baselines := filter (\<lambda>r. fst r \<noteq> hid) (db_listener_baselines d)\<rparr> = d\<lparr>db_listener_baselines := bl\<rparr>" by blast
    show "\<exists>bl. s' = d\<lparr>db_listener_baselines := bl\<rparr>"
      if "\<exists>bl. s = d\<lparr>db_listener_baselines := bl\<rparr>" "insert_baseline hid x s = Inr s'" for x s s'
      using that by (auto simp: insert_baseline_def split: if_splits)
  qed
  then obtain bl where bl: "d1 = d\<lparr>db_listener_baselines := bl\<rparr>" by blast
  have "\<exists>bh. d' = d1\<lparr>db_listener_hosts := bh\<rparr>"
    using assms d1 by (auto simp: replaceListenerBaselineTx_def andThen_ok split: if_splits)
  then show ?thesis unfolding bl by auto
qed

definition persisted ::
  "(nat \<Rightarrow> string) \<Rightarrow> observation \<Rightarrow> db \<Rightarrow> observation option \<Rightarrow> string set \<Rightarrow> bool \<Rightarrow> resources option \<Rightarrow> event list \<Rightarrow> db \<Rightarrow> bool" where
  "persisted newid ob d previous known established rs evs d' =
     (LatestObservation (ob_HostID ob) d = Inr previous \<and> ListenerBaseline (ob_HostID ob) d = Inr (known, established) \<and>
      (\<exists>trs. reconcileEventSignals newid (db_hosts d) (ob_HostID ob) (ob_ObservedAt ob)
        (evaluateEventSignals previous ob (active_rows (ob_HostID ob) (db_events d)) known established) (db_events d) = Inr (evs, trs)) \<and>
      (\<exists>rows bl bh. d' = (recorded ob rs d)\<lparr>db_events := evs, db_outbox := rows, db_listener_baselines := bl, db_listener_hosts := bh\<rparr>))"

lemma recorded_frame [simp]: "db_hosts (recorded ob rs d) = db_hosts d" "db_events (recorded ob rs d) = db_events d"
  "db_outbox (recorded ob rs d) = db_outbox d"
  by (simp_all add: recorded_def Let_def)

lemma with_events_parts:
  assumes "recordObservationWithEvents newid now ob signals policies baseline d = Inr (i, trs, d')"
  shows "validateObservation ob = Inr () \<and> (\<exists>rs evs rows bl bh. marshal_optional (ob_Resources ob) = Inr rs \<and>
    reconcileEventSignals newid (db_hosts d) (ob_HostID ob) (ob_ObservedAt ob) signals (db_events d) = Inr (evs, trs) \<and>
    d' = (recorded ob rs d)\<lparr>db_events := evs, db_outbox := rows, db_listener_baselines := bl, db_listener_hosts := bh\<rparr>)"
proof -
  obtain d1 evs rows where v: "validateObservation ob = Inr ()" and r: "recordObservationTx ob d = Inr (i, d1)"
    and e: "reconcileEventSignals newid (db_hosts d1) (ob_HostID ob) (ob_ObservedAt ob) signals (db_events d1) = Inr (evs, trs)"
    and b: "(case baseline of None \<Rightarrow> Inr (d1\<lparr>db_events := evs, db_outbox := rows\<rparr>)
      | Some keys \<Rightarrow> replaceListenerBaselineTx now (ob_HostID ob) keys (d1\<lparr>db_events := evs, db_outbox := rows\<rparr>)) = Inr d'"
    using assms by (auto simp: recordObservationWithEvents_def andThen_ok Let_def)
  obtain rs where rs: "marshal_optional (ob_Resources ob) = Inr rs" and d1: "d1 = recorded ob rs d" using record_written[OF r] by blast
  have "\<exists>bl bh. d' = d1\<lparr>db_events := evs, db_outbox := rows, db_listener_baselines := bl, db_listener_hosts := bh\<rparr>"
  proof (cases baseline)
    case None
    then have "d' = d1\<lparr>db_events := evs, db_outbox := rows, db_listener_baselines := db_listener_baselines d1,
        db_listener_hosts := db_listener_hosts d1\<rparr>" using b by (cases d1) auto
    then show ?thesis by blast
  next
    case (Some keys)
    then show ?thesis using b baseline_frame by fastforce
  qed
  then show ?thesis using v e rs unfolding d1 by auto
qed

lemma persist_parts:
  assumes "persist_observation newid now policies ob d = Inr d'"
  shows "\<exists>previous known established rs evs. persisted newid ob d previous known established rs evs d' \<and>
    marshal_optional (ob_Resources ob) = Inr rs"
proof -
  obtain previous known established active i trs baseline where l: "LatestObservation (ob_HostID ob) d = Inr previous"
    and a: "ActiveEvents (ob_HostID ob) d = Inr active" and b: "ListenerBaseline (ob_HostID ob) d = Inr (known, established)"
    and w: "recordObservationWithEvents newid (if baseline = None then 0 else now) ob
      (evaluateEventSignals previous ob active known established) policies baseline d = Inr (i, trs, d')"
  proof -
    obtain previous active known established where p: "LatestObservation (ob_HostID ob) d = Inr previous"
      "ActiveEvents (ob_HostID ob) d = Inr active" "ListenerBaseline (ob_HostID ob) d = Inr (known, established)"
      and r: "andThen (if ob_Online ob \<and> \<not> listenerTelemetryMissing ob
          then RecordObservationWithListenerBaseline newid now ob (evaluateEventSignals previous ob active known established) policies (listenerWildcardKeys ob) d
          else RecordObservationWithNotifications newid ob (evaluateEventSignals previous ob active known established) policies d)
        (\<lambda>(_, _, d'). Inr d') = Inr d'"
      using assms by (auto simp: persist_observation_def andThen_ok Let_def)
    show thesis
    proof (cases "ob_Online ob \<and> \<not> listenerTelemetryMissing ob")
      case True
      then obtain i trs where "RecordObservationWithListenerBaseline newid now ob (evaluateEventSignals previous ob active known established) policies (listenerWildcardKeys ob) d = Inr (i, trs, d')"
        using r by (auto simp: andThen_ok)
      then show thesis using that[OF p, of "Some (listenerWildcardKeys ob)"] by (simp add: RecordObservationWithListenerBaseline_def)
    next
      case False
      then obtain i trs where "RecordObservationWithNotifications newid ob (evaluateEventSignals previous ob active known established) policies d = Inr (i, trs, d')"
        using r by (auto simp: andThen_ok)
      then show thesis using that[OF p, of None] by (simp add: RecordObservationWithNotifications_def)
    qed
  qed
  have "active = active_rows (ob_HostID ob) (db_events d)" using a by (auto simp: ActiveEvents_def loadEvents_def andThen_ok)
  then show ?thesis using with_events_parts[OF w] l b unfolding persisted_def by blast
qed

section \<open>Evidence\<close>

lemma opened_from:
  assumes "x \<in> set (opened_events newid hid t (index_by sg_DedupeKey signals) (new_keys hid signals es))"
  shows "\<exists>n s. s \<in> set signals \<and> x = open_event (newid n) hid t s"
proof -
  obtain n k where nk: "(n, k) \<in> set (enumerate 0 (new_keys hid signals es))"
    "x = open_event (newid n) hid t (the (index_by sg_DedupeKey signals k))"
    using assms unfolding opened_events_def set_map by (elim imageE) (simp split: prod.splits)
  have "k \<in> set (new_keys hid signals es)" using nk(1) by (auto simp: in_set_enumerate_eq)
  then have "k \<in> sg_DedupeKey ` set signals" using new_keys_subset by blast
  then obtain s where s: "index_by sg_DedupeKey signals k = Some s" using index_key[of k sg_DedupeKey signals] by auto
  have "s \<in> set signals" using index_by_eq_Some[OF s] by blast
  moreover have "x = open_event (newid n) hid t s" unfolding nk(2) s by simp
  ultimately show ?thesis by blast
qed

lemma persisted_events:
  assumes p: "persisted newid ob d previous known established rs evs d'" and ok: "store_ok d"
  shows "db_events d' = evs" "events_ok evs" "kinds_ok evs" "tables_ok d'"
proof -
  let ?signals = "evaluateEventSignals previous ob (active_rows (ob_HostID ob) (db_events d)) known established"
  obtain trs rows bl bh where r: "reconcileEventSignals newid (db_hosts d) (ob_HostID ob) (ob_ObservedAt ob) ?signals (db_events d) = Inr (evs, trs)"
    and d': "d' = (recorded ob rs d)\<lparr>db_events := evs, db_outbox := rows, db_listener_baselines := bl, db_listener_hosts := bh\<rparr>"
    using p unfolding persisted_def by blast
  have e: "events_ok (db_events d)" "kinds_ok (db_events d)" and t: "tables_ok d" using ok by (simp_all add: store_ok_def)
  show "db_events d' = evs" by (simp add: d')
  show "events_ok evs" by (rule invariant_after[OF e(1) r])
  have "tables_ok (recorded ob rs d)" by (rule tables_recorded[OF t])
  then show "tables_ok d'" by (simp add: d' tables_ok_def)
  note c = reconcile_closed_form[OF e(1) r]
  have kind: "offline_kind (ob_HostID ob) s" if "s \<in> set ?signals" for s by (rule kind_of_signal[OF active_rows_ok(1)[OF e] that])
  have at: "s \<in> set ?signals \<and> sg_DedupeKey s = k" if "index_by sg_DedupeKey ?signals k = Some s" for s k
    by (rule index_by_eq_Some[OF that])
  have old: "ev_Kind x = ''host.offline'' \<longleftrightarrow> ev_DedupeKey x = ev_HostID x @ '':host:offline''"
    if x: "x = reconcile_row (ob_HostID ob) (ob_ObservedAt ob) (index_by sg_DedupeKey ?signals) y" and y: "y \<in> set (db_events d)" for x y
  proof (cases "unresolved (ob_HostID ob) y \<and> index_by sg_DedupeKey ?signals (ev_DedupeKey y) \<noteq> None")
    case True
    then obtain s where s: "index_by sg_DedupeKey ?signals (ev_DedupeKey y) = Some s" by blast
    then show ?thesis using True kind[of s] at[OF s]
      by (simp add: x reconcile_row_def refresh_def offline_kind_def unresolved_def)
  next
    case False
    then have "ev_Kind x = ev_Kind y" "ev_DedupeKey x = ev_DedupeKey y" "ev_HostID x = ev_HostID y"
      by (auto simp: x reconcile_row_def resolve_def split: option.splits)
    then show ?thesis using e(2) y by (simp add: kinds_ok_def)
  qed
  have new: "ev_Kind x = ''host.offline'' \<longleftrightarrow> ev_DedupeKey x = ev_HostID x @ '':host:offline''"
    if x: "x \<in> set (opened_events newid (ob_HostID ob) (ob_ObservedAt ob) (index_by sg_DedupeKey ?signals) (new_keys (ob_HostID ob) ?signals (db_events d)))" for x
  proof -
    obtain n s where ns: "s \<in> set ?signals" "x = open_event (newid n) (ob_HostID ob) (ob_ObservedAt ob) s"
      using opened_from[OF x] by blast
    show ?thesis using kind[OF ns(1)] by (simp add: ns(2) open_event_def offline_kind_def)
  qed
  have "\<forall>x \<in> set evs. ev_Kind x = ''host.offline'' \<longleftrightarrow> ev_DedupeKey x = ev_HostID x @ '':host:offline''"
    using c old new by auto
  then show "kinds_ok evs" unfolding kinds_ok_def .
qed

text \<open>The events a transaction resolved, and those it opened.\<close>

definition resolved_between :: "db \<Rightarrow> db \<Rightarrow> event list" where
  "resolved_between d d' = filter (\<lambda>e. ev_State e \<noteq> EventResolved \<and>
     list_ex (\<lambda>x. ev_ID x = ev_ID e \<and> ev_State x = EventResolved) (db_events d')) (db_events d)"

definition opened_between :: "db \<Rightarrow> db \<Rightarrow> event list" where
  "opened_between d d' = filter (\<lambda>e. ev_ID e \<notin> ev_ID ` set (db_events d)) (db_events d')"

lemma evidence_of_update:
  assumes p: "persisted newid ob d previous known established rs evs d'" and ok: "store_ok d"
  shows "e \<in> set (resolved_between d d') \<Longrightarrow> ev_HostID e = ob_HostID ob \<and> condition_over ob (ev_DedupeKey e)"
    "e \<in> set (opened_between d d') \<Longrightarrow> ev_HostID e = ob_HostID ob \<and> condition_holds known established ob (ev_DedupeKey e)"
proof -
  let ?signals = "evaluateEventSignals previous ob (active_rows (ob_HostID ob) (db_events d)) known established"
  let ?row = "reconcile_row (ob_HostID ob) (ob_ObservedAt ob) (index_by sg_DedupeKey ?signals)"
  obtain trs where r: "reconcileEventSignals newid (db_hosts d) (ob_HostID ob) (ob_ObservedAt ob) ?signals (db_events d) = Inr (evs, trs)"
    using p unfolding persisted_def by blast
  have e: "events_ok (db_events d)" "kinds_ok (db_events d)" using ok by (simp_all add: store_ok_def)
  note a = active_rows_ok(1)[OF e, of "ob_HostID ob"] and c = reconcile_closed_form[OF e(1) r] and d' = persisted_events(1,2)[OF p ok]
  have act: "active_by_key ob (active_rows (ob_HostID ob) (db_events d)) k \<noteq> None \<longleftrightarrow>
      (\<exists>x \<in> set (db_events d). unresolved (ob_HostID ob) x \<and> ev_DedupeKey x = k)" for k
    using active_by_key_None[of ob "active_rows (ob_HostID ob) (db_events d)" k] by (auto simp: active_rows_def)
  show "ev_HostID e = ob_HostID ob \<and> condition_over ob (ev_DedupeKey e)" if "e \<in> set (resolved_between d d')"
  proof -
    obtain x where e0: "e \<in> set (db_events d)" "ev_State e \<noteq> EventResolved" and x: "x \<in> set evs" "ev_ID x = ev_ID e" "ev_State x = EventResolved"
      using \<open>e \<in> set (resolved_between d d')\<close> by (auto simp: resolved_between_def d' list_ex_iff)
    have w: "?row e \<in> set evs" "ev_ID (?row e) = ev_ID e"
      using c e0 by (auto simp: reconcile_row_def refresh_def resolve_def split: option.splits)
    have "inj_on ev_ID (set evs)" using d'(2) by (simp add: events_ok_def distinct_map)
    then have "x = ?row e" by (rule inj_onD) (use x w in simp_all)
    then have u: "unresolved (ob_HostID ob) e" "index_by sg_DedupeKey ?signals (ev_DedupeKey e) = None"
      using x(3) e0(2) by (auto simp: reconcile_row_def refresh_def split: if_splits option.splits)
    have gone: "ev_DedupeKey e \<notin> sg_DedupeKey ` set ?signals" using u(2) by (simp add: index_by_None)
    obtain f where "active_by_key ob (active_rows (ob_HostID ob) (db_events d)) (ev_DedupeKey e) = Some f"
      using act[of "ev_DedupeKey e"] e0(1) u(1) by blast
    from recovery_shown[OF a this gone] show ?thesis using u(1) by (simp add: unresolved_def)
  qed
  show "ev_HostID e = ob_HostID ob \<and> condition_holds known established ob (ev_DedupeKey e)" if "e \<in> set (opened_between d d')"
  proof -
    have m: "e \<in> set evs" "ev_ID e \<notin> ev_ID ` set (db_events d)" using that by (auto simp: opened_between_def d')
    have "ev_ID (?row x) = ev_ID x" for x by (simp add: reconcile_row_def refresh_def resolve_def split: option.split)
    then have "e \<notin> set (map ?row (db_events d))" using m(2) by auto
    then have o: "e \<in> set (opened_events newid (ob_HostID ob) (ob_ObservedAt ob) (index_by sg_DedupeKey ?signals)
        (new_keys (ob_HostID ob) ?signals (db_events d)))" using c m(1) by auto
    have k: "ev_DedupeKey e \<in> set (new_keys (ob_HostID ob) ?signals (db_events d))"
      using arg_cong[OF opened_keys[OF new_keys_subset], of set] o by (metis image_eqI set_map)
    then have "ev_DedupeKey e \<notin> ev_DedupeKey ` {x \<in> set (db_events d). unresolved (ob_HostID ob) x}"
      by (simp add: new_keys_def active_rows_def)
    note absent = this
    have n: "active_by_key ob (active_rows (ob_HostID ob) (db_events d)) (ev_DedupeKey e) = None"
    proof (rule ccontr)
      assume "active_by_key ob (active_rows (ob_HostID ob) (db_events d)) (ev_DedupeKey e) \<noteq> None"
      from iffD1[OF act this] obtain x where x: "x \<in> set (db_events d)" "unresolved (ob_HostID ob) x" "ev_DedupeKey x = ev_DedupeKey e"
        by blast
      then show False using absent imageI[of x "{x \<in> set (db_events d). unresolved (ob_HostID ob) x}" ev_DedupeKey] by simp
    qed
    have "ev_DedupeKey e \<in> sg_DedupeKey ` set ?signals" using subsetD[OF new_keys_subset k] .
    from opening_shown[OF a n this] show ?thesis using opened_event_props[OF o] by simp
  qed
qed

section \<open>When an update succeeds\<close>

lemma enqueue_total:
  assumes "\<forall>tr \<in> set trs. (tr_Type tr = EventOpened \<or> tr_Type tr = EventRecovered) \<and> ev_ID (tr_Event tr) \<in> ev_ID ` set evs"
  shows "\<exists>rows'. enqueueEventNotifications evs trs policies t rows = Inr rows'"
proof -
  have one: "\<exists>rows'. enqueue_one evs t (tr, p) rows = Inr rows'"
    if "tr_Type tr = EventOpened \<or> tr_Type tr = EventRecovered" "ev_ID (tr_Event tr) \<in> ev_ID ` set evs" for tr p rows
  proof -
    have "list_ex (\<lambda>x. ev_ID x = ev_ID (tr_Event tr)) evs" using that(2) by (auto simp: list_ex_iff)
    then show ?thesis using that(1) by (auto simp: enqueue_one_def insert_pending_def Let_def)
  qed
  have "\<exists>rows'. enqueue_one evs t x r = Inr rows' \<and> True" if m: "x \<in> set (List.product trs policies)" for x r
  proof -
    obtain tr p where x: "x = (tr, p)" by (cases x)
    have "x \<in> set trs \<times> set policies" using m by (simp only: set_product)
    then have "tr \<in> set trs" by (simp add: x)
    then show ?thesis using one[of tr p r] assms x by simp
  qed
  then have "\<exists>rows'. each (enqueue_one evs t) (List.product trs policies) rows = Inr rows' \<and> True" by (intro each_ok) auto
  then show ?thesis by (simp add: enqueueEventNotifications_def)
qed

lemma baseline_inserts:
  assumes "distinct keys" "\<forall>k \<in> set keys. trim_space k \<noteq> [] \<and> length k \<le> 640 \<and> (hid, k) \<notin> set (db_listener_baselines d)"
    "host_exists (db_hosts d) hid"
  shows "\<exists>d'. each (insert_baseline hid) keys d = Inr d' \<and> db_hosts d' = db_hosts d"
  using assms
proof (induction keys arbitrary: d)
  case (Cons k ks)
  let ?d = "d\<lparr>db_listener_baselines := db_listener_baselines d @ [(hid, k)]\<rparr>"
  have "insert_baseline hid k d = Inr ?d" using Cons.prems by (simp add: insert_baseline_def)
  moreover have "\<exists>d'. each (insert_baseline hid) ks ?d = Inr d' \<and> db_hosts d' = db_hosts ?d"
    using Cons.prems by (intro Cons.IH) auto
  ultimately show ?case by simp
qed simp

lemma baseline_total:
  assumes "distinct keys" "\<forall>k \<in> set keys. trim_space k \<noteq> [] \<and> length k \<le> 640" "host_exists (db_hosts d) hid"
  shows "\<exists>d'. replaceListenerBaselineTx now hid keys d = Inr d'"
proof -
  let ?d = "d\<lparr>db_listener_baselines := filter (\<lambda>r. fst r \<noteq> hid) (db_listener_baselines d)\<rparr>"
  obtain d1 where "each (insert_baseline hid) keys ?d = Inr d1" "db_hosts d1 = db_hosts d"
    using baseline_inserts[of keys hid ?d] assms by auto
  then show ?thesis using assms(3) by (auto simp: replaceListenerBaselineTx_def)
qed

text \<open>Host identifiers without a colon keep the keys of two hosts apart.\<close>

lemma host_of_key:
  assumes "has_prefix k (a @ '':'')" "has_prefix k (b @ '':'')" "CHR '':'' \<notin> set a" "CHR '':'' \<notin> set b"
  shows "a = b"
proof -
  obtain x where "k = a @ CHR '':'' # x" using assms(1) by (auto simp: has_prefix_iff)
  moreover obtain y where "k = b @ CHR '':'' # y" using assms(2) by (auto simp: has_prefix_iff)
  ultimately have "k = a @ CHR '':'' # x" "k = b @ CHR '':'' # y" by blast+
  then have "cut CHR '':'' k = Some (a, x)" "cut CHR '':'' k = Some (b, y)" using assms(3,4) cut_append by metis+
  then show ?thesis by simp
qed

definition keys_apart :: "host_id \<Rightarrow> event list \<Rightarrow> bool" where
  "keys_apart hid es = (CHR '':'' \<notin> set hid \<and> (\<forall>e \<in> set es. CHR '':'' \<notin> set (ev_HostID e)))"

text \<open>The first \<open>N\<close> identifiers drawn from the random source are valid, new and different.\<close>

definition fresh_ids :: "(nat \<Rightarrow> string) \<Rightarrow> nat \<Rightarrow> event list \<Rightarrow> bool" where
  "fresh_ids newid N es = (distinct (map newid [0..<N]) \<and> (\<forall>n < N. valid_identifier (newid n) 128 \<and> newid n \<notin> ev_ID ` set es))"

text \<open>The observation is not older than what is known of its host.\<close>

definition not_older :: "host_id \<Rightarrow> time \<Rightarrow> event list \<Rightarrow> bool" where
  "not_older hid t es = (\<forall>e \<in> set es. unresolved hid e \<longrightarrow> ev_LastObservedAt e \<le> t \<and>
     (case ev_AcknowledgedAt e of None \<Rightarrow> True | Some a \<Rightarrow> a \<le> t))"

lemma signals_ready:
  fixes previous :: "observation option" and known :: "string set" and established :: bool
  assumes v: "validateObservation ob = Inr ()" and t: "signal_texts ob" and ok: "events_ok es" "kinds_ok es"
    and h: "host_exists hosts (ob_HostID ob)" and n: "not_older (ob_HostID ob) (ob_ObservedAt ob) es"
    and k: "keys_apart (ob_HostID ob) es"
  defines "signals \<equiv> evaluateEventSignals previous ob (active_rows (ob_HostID ob) es) known established"
  assumes i: "fresh_ids newid (length signals) es"
  shows "reconcile_ready newid hosts (ob_HostID ob) (ob_ObservedAt ob) signals es" "validateSignals (ob_HostID ob) signals = Inr ()"
proof -
  note a = active_rows_ok[OF ok, of "ob_HostID ob"]
  have s: "validateEventSignal s = Inr () \<and> sg_HostID s = ob_HostID ob" if "s \<in> set signals" for s
    using every_signal_valid[OF v t a(2), of s] that by (simp add: signals_def signal_ok_def)
  have other: "ev_DedupeKey e \<notin> sg_DedupeKey ` set signals" if e: "e \<in> set es" "ev_HostID e \<noteq> ob_HostID ob" for e
  proof
    assume "ev_DedupeKey e \<in> sg_DedupeKey ` set signals"
    then obtain x where x: "x \<in> set signals" "ev_DedupeKey e = sg_DedupeKey x" by auto
    have "has_prefix (ev_DedupeKey e) (ob_HostID ob @ '':'')" using s[OF x(1)] x(2) by (auto simp: validateEventSignal_ok)
    moreover have "has_prefix (ev_DedupeKey e) (ev_HostID e @ '':'')"
      using ok(1) e(1) by (auto simp: events_ok_def validateEvent_ok validateEventSignal_ok event_signal_of_def)
    ultimately show False using host_of_key k e unfolding keys_apart_def by metis
  qed
  show "reconcile_ready newid hosts (ob_HostID ob) (ob_ObservedAt ob) signals es"
    unfolding reconcile_ready_def
    using s other h i n observation_parts(2)[OF v] by (simp add: fresh_ids_def not_older_def)
  show "validateSignals (ob_HostID ob) signals = Inr ()"
    using s distinct_signals[OF a(1)] by (simp add: validateSignals_def check_distinct_ok_Nil andThen_ok signals_def)
qed


lemma transitions_known:
  assumes ok: "events_ok es" and r: "reconcileEventSignals newid hosts hid t signals es = Inr (evs, trs)"
  shows "\<forall>tr \<in> set trs. (tr_Type tr = EventOpened \<or> tr_Type tr = EventRecovered) \<and> ev_ID (tr_Event tr) \<in> ev_ID ` set evs"
proof
  let ?sig = "index_by sg_DedupeKey signals" and ?act = "index_by ev_DedupeKey (active_rows hid es)"
  note c = reconcile_closed_form[OF ok r]
  fix tr assume "tr \<in> set trs"
  then have "tr \<in> opened_transition ` set (opened_events newid hid t ?sig (new_keys hid signals es)) \<union>
      (\<lambda>k. recovered_transition (resolve t (the (?act k)))) ` set (stale_keys hid signals es)"
    unfolding conjunct1[OF conjunct2[OF c]] set_append set_map .
  then show "(tr_Type tr = EventOpened \<or> tr_Type tr = EventRecovered) \<and> ev_ID (tr_Event tr) \<in> ev_ID ` set evs"
  proof (elim UnE imageE)
    fix e assume "tr = opened_transition e" "e \<in> set (opened_events newid hid t ?sig (new_keys hid signals es))"
    then show ?thesis unfolding conjunct1[OF c] by (simp add: opened_transition_def)
  next
    fix k assume k: "tr = recovered_transition (resolve t (the (?act k)))" "k \<in> set (stale_keys hid signals es)"
    then have "k \<in> ev_DedupeKey ` set (active_rows hid es)" by (auto simp: stale_keys_def)
    then obtain e where e: "?act k = Some e" using index_key[of k ev_DedupeKey "active_rows hid es"] by auto
    have "e \<in> set es" using index_by_eq_Some[OF e] by (auto simp: active_rows_def)
    then have "reconcile_row hid t ?sig e \<in> set evs" unfolding conjunct1[OF c] by simp
    moreover have "ev_ID (reconcile_row hid t ?sig e) = ev_ID (resolve t e)"
      by (simp add: reconcile_row_def refresh_def resolve_def split: option.split)
    ultimately have "ev_ID (resolve t e) \<in> ev_ID ` set evs" by (metis image_eqI)
    then show ?thesis unfolding k(1) e by (simp add: recovered_transition_def)
  qed
qed

lemma listener_key_ok:
  assumes "valid_utf8 (ob_HostID ob)" "\<forall>e \<in> set (ob_Endpoints ob). length (ob_HostID ob) + 10 + length (ep_Key e) \<le> 640"
    "k \<in> set (listenerWildcardKeys ob)"
  shows "trim_space k \<noteq> [] \<and> length k \<le> 640"
proof -
  obtain e where e: "e \<in> set (ob_Endpoints ob)" "k = listener_key (ob_HostID ob) e" using assms(3) unfolding wildcard_keys_iff by blast
  have "runes k = runes (ob_HostID ob) @ runes ('':'' @ ''listener:'' @ ep_Key e)"
    unfolding e(2) listener_key_def runes_append[OF assms(1), symmetric] by simp
  also have "runes ('':'' @ ''listener:'' @ ep_Key e) = 58 # runes (''listener:'' @ ep_Key e)"
    using runes_append[of "'':''" "''listener:'' @ ep_Key e"] by (simp add: utf8_eval)
  finally have "\<not> list_all is_space (runes k)" by (simp add: is_space_def)
  then show ?thesis using assms(2) e by (auto simp: trim_space_empty listener_key_def)
qed

definition stored_signals :: "observation option \<Rightarrow> observation \<Rightarrow> db \<Rightarrow> event_signal list" where
  "stored_signals previous ob d = evaluateEventSignals previous ob (active_rows (ob_HostID ob) (db_events d))
     (listenerBaselineKeys (ob_HostID ob) d) (list_ex (\<lambda>r. fst r = ob_HostID ob) (db_listener_hosts d))"

text \<open>What the store and the caller bring: the notification policies are valid, the host is known, the observation
  is not older than anything recorded of it, its texts are UTF-8, and the latest observation loads.\<close>

definition update_ready :: "(nat \<Rightarrow> string) \<Rightarrow> notification_policy list \<Rightarrow> observation \<Rightarrow> db \<Rightarrow> bool" where
  "update_ready newid policies ob d =
     (validateNotificationPolicies policies = Inr () \<and> signal_texts ob \<and> json_clean ob \<and> trim_space (ob_HostID ob) \<noteq> [] \<and>
      host_exists (db_hosts d) (ob_HostID ob) \<and>
      (case LatestObservation (ob_HostID ob) d of Inl _ \<Rightarrow> False | Inr previous \<Rightarrow>
         fresh_ids newid (length (stored_signals previous ob d)) (db_events d)) \<and>
      not_older (ob_HostID ob) (ob_ObservedAt ob) (db_events d) \<and> keys_apart (ob_HostID ob) (db_events d) \<and>
      (\<forall>r \<in> set (db_observations d). or_HostID r = ob_HostID ob \<longrightarrow> or_ObservedAt r \<le> ob_ObservedAt ob) \<and>
      (\<forall>e \<in> set (ob_Endpoints ob). length (ob_HostID ob) + 10 + length (ep_Key e) \<le> 640))"

lemma with_events_total:
  assumes v: "validateObservation ob = Inr ()" and ok: "store_ok d" and u: "update_ready newid policies ob d"
    and l: "LatestObservation (ob_HostID ob) d = Inr previous" and s: "signals = stored_signals previous ob d"
    and b: "baseline = None \<or> baseline = Some (listenerWildcardKeys ob)"
  shows "\<exists>x. recordObservationWithEvents newid now ob signals policies baseline d = Inr x"
proof -
  have t: "tables_ok d" and e: "events_ok (db_events d)" "kinds_ok (db_events d)" using ok by (simp_all add: store_ok_def)
  have h: "host_exists (db_hosts d) (ob_HostID ob)" and j: "json_clean ob" and p: "validateNotificationPolicies policies = Inr ()"
    and st: "signal_texts ob" and n: "not_older (ob_HostID ob) (ob_ObservedAt ob) (db_events d)"
    and k: "keys_apart (ob_HostID ob) (db_events d)" using u by (simp_all add: update_ready_def)
  have f: "fresh_ids newid (length (evaluateEventSignals previous ob (active_rows (ob_HostID ob) (db_events d))
      (listenerBaselineKeys (ob_HostID ob) d) (list_ex (\<lambda>r. fst r = ob_HostID ob) (db_listener_hosts d)))) (db_events d)"
    using u by (simp add: update_ready_def l stored_signals_def)
  let ?d1 = "recorded ob (ob_Resources ob) d"
  have 1: "recordObservationTx ob d = Inr (db_observation_seq d + 1, ?d1)"
    by (rule record_succeeds[OF v t h marshal_clean(1)[OF j]])
  have ready: "reconcile_ready newid (db_hosts d) (ob_HostID ob) (ob_ObservedAt ob) signals (db_events d)"
    "validateSignals (ob_HostID ob) signals = Inr ()"
    unfolding s stored_signals_def by (rule signals_ready[OF v st e h n k f])+
  obtain evs trs where 2: "reconcileEventSignals newid (db_hosts d) (ob_HostID ob) (ob_ObservedAt ob) signals (db_events d) = Inr (evs, trs)"
    using reconcile_succeeds[OF e(1) ready(1)] by blast
  obtain rows where 3: "enqueueEventNotifications evs trs policies (ob_ObservedAt ob) (db_outbox d) = Inr rows"
    using enqueue_total[OF transitions_known[OF e(1) 2]] by blast
  let ?d2 = "?d1\<lparr>db_events := evs, db_outbox := rows\<rparr>"
  have "\<exists>d'. (case baseline of None \<Rightarrow> Inr ?d2 | Some keys \<Rightarrow> replaceListenerBaselineTx now (ob_HostID ob) keys ?d2) = Inr d'"
  proof (cases baseline)
    case (Some keys)
    then have keys: "keys = listenerWildcardKeys ob" using b by simp
    have "valid_utf8 (ob_HostID ob)" using st by (simp add: signal_texts_def)
    then have "\<forall>k \<in> set keys. trim_space k \<noteq> [] \<and> length k \<le> 640"
      using listener_key_ok[of ob] u unfolding keys update_ready_def by blast
    moreover have "distinct keys" by (simp add: keys listenerWildcardKeys_def)
    ultimately show ?thesis using baseline_total[of keys ?d2 "ob_HostID ob" now] h Some by simp
  qed simp
  then show ?thesis using v p ready(2) 1 2 3 by (auto simp: recordObservationWithEvents_def Let_def)
qed

lemma persist_succeeds:
  assumes v: "validateObservation ob = Inr ()" and ok: "store_ok d" and u: "update_ready newid policies ob d"
  shows "\<exists>d'. persist_observation newid now policies ob d = Inr d'"
proof -
  obtain previous where l: "LatestObservation (ob_HostID ob) d = Inr previous"
    using u by (cases "LatestObservation (ob_HostID ob) d") (auto simp: update_ready_def)
  have h: "trim_space (ob_HostID ob) \<noteq> []" using u by (simp add: update_ready_def)
  have e: "events_ok (db_events d)" using ok by (simp add: store_ok_def)
  have a: "ActiveEvents (ob_HostID ob) d = Inr (active_rows (ob_HostID ob) (db_events d))"
    using h check_all_Inr[OF active_rows_ok(2)[of "db_events d" "ob_HostID ob"]] ok
    by (simp add: ActiveEvents_def loadEvents_def guard_def store_ok_def del: check_all_ok')
  have b: "ListenerBaseline (ob_HostID ob) d =
      Inr (listenerBaselineKeys (ob_HostID ob) d, list_ex (\<lambda>r. fst r = ob_HostID ob) (db_listener_hosts d))"
    using h by (simp add: ListenerBaseline_def guard_def)
  note w = with_events_total[OF v ok u l refl, unfolded stored_signals_def]
  show ?thesis
  proof (cases "ob_Online ob \<and> \<not> listenerTelemetryMissing ob")
    case True
    then show ?thesis using w[of "Some (listenerWildcardKeys ob)" now]
      by (auto simp: persist_observation_def l a b RecordObservationWithListenerBaseline_def Let_def)
  next
    case False
    then show ?thesis using w[of None 0]
      by (auto simp: persist_observation_def l a b RecordObservationWithNotifications_def Let_def)
  qed
qed

lemma latest_frame: "LatestObservation hid (d\<lparr>db_events := evs, db_outbox := rows, db_listener_baselines := bl, db_listener_hosts := bh\<rparr>) =
    LatestObservation hid d"
  by (simp add: LatestObservation_def newest_observations_def loadObservation_def load_workloads_def load_endpoints_def load_routes_def
      split: list.split option.split)

lemma persisted_ok:
  assumes "persisted newid ob d previous known established rs evs d'" "store_ok d"
  shows "store_ok d'"
  using persisted_events[OF assms] by (simp add: store_ok_def)

section \<open>The theorems on the durable store\<close>

text \<open>C17. An update that the durable store committed kept its invariant, resolved only events of the observed
  host whose condition the observation shows to be over, and opened only events of that host whose
  condition it shows; an event of another host keeps its state.\<close>

theorem update_evidence:
  assumes "persist_observation newid now policies ob d = Inr d'" "store_ok d"
  shows "store_ok d' \<and>
    list_all (\<lambda>e. ev_HostID e = ob_HostID ob \<and> condition_over ob (ev_DedupeKey e)) (resolved_between d d') \<and>
    list_all (\<lambda>e. ev_HostID e = ob_HostID ob \<and>
        condition_holds (listenerBaselineKeys (ob_HostID ob) d) (list_ex (\<lambda>r. fst r = ob_HostID ob) (db_listener_hosts d)) ob (ev_DedupeKey e))
      (opened_between d d')"
proof -
  obtain previous known established rs evs where w: "persisted newid ob d previous known established rs evs d'"
    using persist_parts[OF assms(1)] by blast
  have "known = listenerBaselineKeys (ob_HostID ob) d" "established = list_ex (\<lambda>r. fst r = ob_HostID ob) (db_listener_hosts d)"
    using w by (auto simp: persisted_def ListenerBaseline_def andThen_ok)
  then show ?thesis using evidence_of_update[OF w assms(2)] persisted_ok[OF w assms(2)] by (simp add: list_all_iff)
qed



section \<open>Witnesses\<close>

definition one_name :: "nat \<Rightarrow> string" where
  "one_name n = ''e'' @ itoa (int n)"

lemma one_host_store: "store_ok one_host" "db_events one_host = []" "db_listener_hosts one_host = []" "db_listener_baselines one_host = []"
  using one_host_ok(1) by (simp_all add: store_ok_def events_ok_def kinds_ok_def one_host_def empty_db_def open_keys_def)

lemma first_latest: "LatestObservation hid one_host = Inr None"
  by (simp add: LatestObservation_def newest_observations_def one_host_ok(3))

lemma first_signals: "stored_signals None (host_sample 100 []) one_host = evaluateEventSignals None (host_sample 100 []) [] {} False"
  by (simp add: stored_signals_def one_host_store active_rows_def listenerBaselineKeys_def)

lemma busy_length: "length (stored_signals None (host_sample 100 []) one_host) = 1"
  unfolding first_signals busy_signals by simp

lemma first_ready: "update_ready one_name [] (host_sample 100 []) one_host"
proof -
  have "fresh_ids one_name 1 []" by (simp add: fresh_ids_def one_name_def valid_identifier_def utf8_eval itoa_def itoa_nat.simps digit_char_def)
  moreover have "ob_Endpoints (host_sample 100 []) = []" by (simp add: host_sample_def)
  ultimately show ?thesis unfolding update_ready_def
    using sample_valid(2)[of 100] sample_clean(1)[of 100] by (simp add: first_latest busy_length one_host_store one_host_ok sample_host
        not_older_def keys_apart_def validateNotificationPolicies_def utf8_eval trim_space_empty)
qed

theorem update_evidence_witness:
  "\<exists>d'. persist_observation one_name 20 [] (host_sample 100 []) one_host = Inr d' \<and> store_ok d' \<and>
    list_all (\<lambda>e. ev_HostID e = ''h'' \<and> condition_holds {} False (host_sample 100 []) (ev_DedupeKey e)) (opened_between one_host d')"
proof -
  obtain d' where d': "persist_observation one_name 20 [] (host_sample 100 []) one_host = Inr d'"
    using persist_succeeds[OF sample_valid(1) one_host_store(1) first_ready] by blast
  from update_evidence[OF this one_host_store(1)] show ?thesis
    by (intro exI[of _ d'] conjI d') (simp_all add: sample_host listenerBaselineKeys_def one_host_store)
qed



end
