(* ===== verification/Go_Base64.thy ===== *)
theory Go_Base64
  imports Go_Strings
begin

text \<open>
  \<^verbatim>\<open>encoding/base64\<close> without padding, in the URL and in the standard alphabet, decoding strictly: the
  bits that the last character has to spare must be zero. Line breaks are skipped, as in Go.
\<close>

type_synonym alphabet = string

definition raw_url :: alphabet where
  "raw_url = ''ABCDEFGHIJKLMNOPQRSTUVWXYZabcdefghijklmnopqrstuvwxyz0123456789-_''"

definition raw_std :: alphabet where
  "raw_std = ''ABCDEFGHIJKLMNOPQRSTUVWXYZabcdefghijklmnopqrstuvwxyz0123456789+/''"

definition is_alphabet :: "alphabet \<Rightarrow> bool" where
  "is_alphabet al = (length al = 64 \<and> distinct al \<and> CHR 0x0A \<notin> set al \<and> CHR 0x0D \<notin> set al)"

definition sextet_of :: "alphabet \<Rightarrow> char \<Rightarrow> nat option" where
  "sextet_of al c = (if c \<in> set al then Some (length (takeWhile (\<lambda>d. d \<noteq> c) al)) else None)"

fun b64_sextets :: "nat list \<Rightarrow> nat list" where
  "b64_sextets [] = []"
| "b64_sextets [a] = [a div 4, a mod 4 * 16]"
| "b64_sextets [a, b] = [a div 4, a mod 4 * 16 + b div 16, b mod 16 * 4]"
| "b64_sextets (a # b # c # rest) =
     a div 4 # (a mod 4 * 16 + b div 16) # (b mod 16 * 4 + c div 64) # c mod 64 # b64_sextets rest"

fun b64_bytes :: "nat list \<Rightarrow> nat list option" where
  "b64_bytes [] = Some []"
| "b64_bytes [p] = None"
| "b64_bytes [p, q] = (if q mod 16 = 0 then Some [p * 4 + q div 16] else None)"
| "b64_bytes [p, q, r] = (if r mod 4 = 0 then Some [p * 4 + q div 16, q mod 16 * 16 + r div 4] else None)"
| "b64_bytes (p # q # r # s # rest) =
     map_option (\<lambda>bs. (p * 4 + q div 16) # (q mod 16 * 16 + r div 4) # (r mod 4 * 64 + s) # bs) (b64_bytes rest)"

definition raw64_encode :: "alphabet \<Rightarrow> string \<Rightarrow> string" where
  "raw64_encode al s = map (\<lambda>n. al ! n) (b64_sextets (map byte s))"

definition raw64_decode :: "alphabet \<Rightarrow> string \<Rightarrow> string option" where
  "raw64_decode al s =
     (let cs = filter (\<lambda>c. c \<noteq> CHR 0x0A \<and> c \<noteq> CHR 0x0D) s in
      if list_all (\<lambda>c. sextet_of al c \<noteq> None) cs
      then map_option (map char_of) (b64_bytes (map (\<lambda>c. the (sextet_of al c)) cs))
      else None)"

lemma alphabets: "is_alphabet raw_url" "is_alphabet raw_std"
  by (simp_all add: is_alphabet_def raw_url_def raw_std_def)

lemma groups_small: "\<forall>b \<in> set bs. b < 256 \<Longrightarrow> \<forall>n \<in> set (b64_sextets bs). n < 64"
  by (induction bs rule: b64_sextets.induct) (auto simp: less_mult_imp_div_less)

lemma byte_parts:
  "b < 256 \<Longrightarrow> b div 16 div 16 = 0" "b < 256 \<Longrightarrow> b div 16 mod 16 = b div 16"
  "b < 256 \<Longrightarrow> b div 64 div 4 = 0" "b < 256 \<Longrightarrow> b div 64 mod 4 = b div 64" for b :: nat
  using less_mult_imp_div_less[of b 16 16] less_mult_imp_div_less[of b 4 64] by simp_all

lemma bytes_of_groups: "\<forall>b \<in> set bs. b < 256 \<Longrightarrow> b64_bytes (b64_sextets bs) = Some bs"
  by (induction bs rule: b64_sextets.induct) (simp_all add: byte_parts)

lemma value_of_char: "is_alphabet al \<Longrightarrow> n < 64 \<Longrightarrow> sextet_of al (al ! n) = Some n"
proof -
  assume al: "is_alphabet al" "n < 64"
  have "takeWhile (\<lambda>d. d \<noteq> al ! n) al = take n al"
    by (rule takeWhile_eq_take_P_nth) (use al in \<open>auto simp: is_alphabet_def nth_eq_iff_index_eq\<close>)
  then show ?thesis using al by (simp add: sextet_of_def is_alphabet_def)
qed

lemma raw64_encode_chars: "is_alphabet al \<Longrightarrow> set (raw64_encode al s) \<subseteq> set al"
  using groups_small[of "map byte s"] by (auto simp: raw64_encode_def is_alphabet_def byte_def)

lemma raw64_roundtrip: "is_alphabet al \<Longrightarrow> raw64_decode al (raw64_encode al s) = Some s"
proof -
  assume al: "is_alphabet al"
  let ?ns = "b64_sextets (map byte s)"
  have b: "\<forall>b \<in> set (map byte s). b < 256" by (simp add: byte_def)
  have n: "\<forall>n \<in> set ?ns. n < 64" by (rule groups_small[OF b])
  have v: "\<forall>n \<in> set ?ns. sextet_of al (al ! n) = Some n" using value_of_char[OF al] n by blast
  have "filter (\<lambda>c. c \<noteq> CHR 0x0A \<and> c \<noteq> CHR 0x0D) (raw64_encode al s) = raw64_encode al s"
    unfolding filter_id_conv using raw64_encode_chars[OF al, of s] al by (auto simp: is_alphabet_def)
  moreover have "map (\<lambda>c. the (sextet_of al c)) (raw64_encode al s) = ?ns"
    using v by (simp add: raw64_encode_def map_idI)
  moreover have "list_all (\<lambda>c. sextet_of al c \<noteq> None) (raw64_encode al s)" using v by (simp add: raw64_encode_def list_all_iff)
  moreover have "map char_of (map byte s) = s" by (simp add: byte_def comp_def)
  ultimately show ?thesis using bytes_of_groups[OF b] by (simp add: raw64_decode_def Let_def)
qed

end
