(* ===== verification/Sessions.thy ===== *)
theory Sessions
  imports Go_Base64 Operation_Handlers
begin

text \<open>
  Sessions (\<^verbatim>\<open>internal/hub/auth.go\<close>) and the password verifier (\<^verbatim>\<open>internal/hub/password.go\<close>). The keyed
  hash (HMAC-SHA256) is the parameter \<open>mac\<close> of a key and a text, Argon2id the parameter \<open>argon2\<close> of the
  password, the salt, the costs and the length.
\<close>

section \<open>The password verifier\<close>

record argon_parameters =
  ap_time :: nat
  ap_memory :: nat
  ap_threads :: nat
  ap_keyLen :: nat

type_synonym argon = "string \<Rightarrow> string \<Rightarrow> nat \<Rightarrow> nat \<Rightarrow> nat \<Rightarrow> nat \<Rightarrow> string"

definition argon2_Version :: nat where "argon2_Version = 19"

text \<open>\<open>salt\<close> is the sixteen random bytes, \<open>None\<close> when there are none.\<close>

definition HashPassword :: "argon \<Rightarrow> string option \<Rightarrow> string \<Rightarrow> go_error + string" where
  "HashPassword argon2 salt password =
     andThen (guard ''password must not be empty'' (password = []))
     (\<lambda>_. andThen (guard ''password is too long'' (length password > 1024))
     (\<lambda>_. case salt of
        None \<Rightarrow> Inl ''generate password salt''
      | Some salt \<Rightarrow> Inr (''$argon2id$v='' @ itoa_nat argon2_Version @ ''$m='' @ itoa_nat (64 * 1024) @ '',t='' @ itoa_nat 3 @ '',p='' @ itoa_nat 1
          @ ''$'' @ raw64_encode raw_std salt @ ''$'' @ raw64_encode raw_std (argon2 password salt 3 (64 * 1024) 1 32))))"

text \<open>One field of the costs: \<open>m\<close>, \<open>t\<close> or \<open>p\<close>; the last of several fields counts.\<close>

definition argon_field :: "string \<Rightarrow> argon_parameters \<Rightarrow> go_error + argon_parameters" where
  "argon_field field ps = (case cut CHR ''='' field of
       None \<Rightarrow> Inl ''invalid Argon2 parameter''
     | Some (name, value) \<Rightarrow> (case parse_uint 32 value of
         None \<Rightarrow> Inl ''invalid Argon2 parameter value''
       | Some v \<Rightarrow> if name = ''m'' then Inr (ps\<lparr>ap_memory := v\<rparr>)
           else if name = ''t'' then Inr (ps\<lparr>ap_time := v\<rparr>)
           else if name = ''p'' then Inr (ps\<lparr>ap_threads := v\<rparr>)
           else Inl ''unknown Argon2 parameter''))"

definition parsePasswordHash :: "string \<Rightarrow> go_error + (argon_parameters \<times> string \<times> string)" where
  "parsePasswordHash encoded =
     (let parts = split_on CHR ''$'' encoded; fields = split_on CHR '','' (parts ! 3) in
      andThen (guard ''passwordHash must use Argon2id PHC format'' (length parts \<noteq> 6 \<or> parts ! 0 \<noteq> [] \<or> parts ! 1 \<noteq> ''argon2id''))
      (\<lambda>_. andThen (guard ''unsupported Argon2 version'' (atoi (trim_prefix (parts ! 2) ''v='') \<noteq> Some (int argon2_Version)))
      (\<lambda>_. andThen (guard ''invalid Argon2 parameters'' (length fields \<noteq> 3))
      (\<lambda>_. andThen (each argon_field fields \<lparr>ap_time = 0, ap_memory = 0, ap_threads = 0, ap_keyLen = 0\<rparr>)
      (\<lambda>ps. andThen (guard ''Argon2 parameters outside safe bounds''
          (ap_memory ps < 32 * 1024 \<or> ap_memory ps > 256 * 1024 \<or> ap_time ps < 1 \<or> ap_time ps > 10 \<or> ap_threads ps < 1 \<or> ap_threads ps > 8))
      (\<lambda>_. case raw64_decode raw_std (parts ! 4) of None \<Rightarrow> Inl ''invalid Argon2 salt'' | Some salt \<Rightarrow>
        andThen (guard ''invalid Argon2 salt'' (length salt < 16 \<or> length salt > 64))
      (\<lambda>_. case raw64_decode raw_std (parts ! 5) of None \<Rightarrow> Inl ''invalid Argon2 hash'' | Some hash \<Rightarrow>
        andThen (guard ''invalid Argon2 hash'' (length hash < 16 \<or> length hash > 64))
      (\<lambda>_. Inr (ps\<lparr>ap_keyLen := length hash\<rparr>, salt, hash)))))))))"

definition validatePasswordHash :: "string \<Rightarrow> go_error + unit" where
  "validatePasswordHash encoded = andThen (parsePasswordHash encoded) (\<lambda>_. Inr ())"

definition VerifyPassword :: "argon \<Rightarrow> string \<Rightarrow> string \<Rightarrow> bool" where
  "VerifyPassword argon2 encoded password = (case parsePasswordHash encoded of
       Inl _ \<Rightarrow> False
     | Inr (ps, salt, expected) \<Rightarrow> length password \<le> 1024 \<and>
         argon2 password salt (ap_time ps) (ap_memory ps) (ap_threads ps) (ap_keyLen ps) = expected)"

section \<open>Sessions\<close>

text \<open>What \<^verbatim>\<open>internal/hub/session_secret.go\<close> writes for a key and how it reads the file back.\<close>

definition session_key_text :: "string \<Rightarrow> string" where
  "session_key_text raw = raw64_encode raw_std raw @ [CHR 0x0A]"

definition session_key_of_text :: "string \<Rightarrow> string option" where
  "session_key_of_text encoded = (case raw64_decode raw_std (trim_space encoded) of
       None \<Rightarrow> None
     | Some key \<Rightarrow> if length key \<noteq> 32 then None else Some key)"

type_synonym keyed_hash = "string \<Rightarrow> string \<Rightarrow> string"

definition sessionTTL :: duration where "sessionTTL = 30 * 24 * hour"
definition sessionKeyBytes :: nat where "sessionKeyBytes = 32"

record authenticator =
  au_passwordHash :: string
  au_sessionKey :: string

definition newAuthenticator :: "string \<Rightarrow> string \<Rightarrow> go_error + authenticator" where
  "newAuthenticator passwordHash sessionKey =
     (if passwordHash = [] then Inr \<lparr>au_passwordHash = [], au_sessionKey = []\<rparr>
      else andThen (validatePasswordHash passwordHash)
        (\<lambda>_. andThen (guard ''authenticated mode requires an independent session key of at least 32 bytes'' (length sessionKey < sessionKeyBytes))
        (\<lambda>_. Inr \<lparr>au_passwordHash = passwordHash, au_sessionKey = sessionKey\<rparr>)))"

definition enabled :: "authenticator \<Rightarrow> bool" where
  "enabled a = (au_passwordHash a \<noteq> [])"

definition sign :: "keyed_hash \<Rightarrow> authenticator \<Rightarrow> string \<Rightarrow> string" where
  "sign mac a value = mac (au_sessionKey a) value"

text \<open>\<^verbatim>\<open>Unix()\<close>: the whole seconds since 1970.\<close>

definition unix :: "time \<Rightarrow> int" where
  "unix t = t div second - 62135596800"

definition session_text :: "authenticator \<Rightarrow> string \<Rightarrow> string" where
  "session_text a payload = ''session:'' @ au_passwordHash a @ '':'' @ payload"

definition issueCookie :: "keyed_hash \<Rightarrow> authenticator \<Rightarrow> time \<Rightarrow> string option \<Rightarrow> string option" where
  "issueCookie mac a now nonce = (case nonce of
       None \<Rightarrow> None
     | Some nonce \<Rightarrow>
         let payload = itoa (unix (now + sessionTTL)) @ ''.'' @ raw64_encode raw_url nonce
         in Some (payload @ ''.'' @ raw64_encode raw_url (sign mac a (session_text a payload))))"

definition validCookie :: "keyed_hash \<Rightarrow> authenticator \<Rightarrow> time \<Rightarrow> string \<Rightarrow> bool" where
  "validCookie mac a now cookie =
     (enabled a \<and> (case split_on CHR ''.'' cookie of
        [p0, p1, p2] \<Rightarrow> (case atoi p0 of
            None \<Rightarrow> False
          | Some expiry \<Rightarrow> \<not> (expiry < unix now \<or> expiry > unix (now + sessionTTL + minute)) \<and>
              (case raw64_decode raw_url p1 of None \<Rightarrow> False | Some nonce \<Rightarrow> length nonce = 16 \<and>
                (case raw64_decode raw_url p2 of None \<Rightarrow> False | Some got \<Rightarrow>
                   got = sign mac a (session_text a (p0 @ ''.'' @ p1)))))
      | _ \<Rightarrow> False))"

definition hex_encode :: "string \<Rightarrow> string" where
  "hex_encode s = concat (map (\<lambda>c. hex_byte (byte c)) s)"

definition csrfToken :: "keyed_hash \<Rightarrow> authenticator \<Rightarrow> string \<Rightarrow> string" where
  "csrfToken mac a cookie = hex_encode (sign mac a (''csrf:'' @ cookie))"

text \<open>What the handlers read of a request: the session cookie, when there is one, and headers.\<close>

record web_request =
  wq_Method :: string
  wq_Cookie :: "string option"
  wq_CSRF :: string
  wq_ContentType :: string
  wq_RemoteAddr :: string
  wq_ForwardedFor :: string

definition authed :: "keyed_hash \<Rightarrow> authenticator \<Rightarrow> time \<Rightarrow> web_request \<Rightarrow> bool" where
  "authed mac a now rq =
     (\<not> enabled a \<or> (case wq_Cookie rq of None \<Rightarrow> False | Some c \<Rightarrow> validCookie mac a now c))"

definition validCSRF :: "keyed_hash \<Rightarrow> authenticator \<Rightarrow> time \<Rightarrow> web_request \<Rightarrow> bool" where
  "validCSRF mac a now rq =
     (\<not> enabled a \<or> (case wq_Cookie rq of
        None \<Rightarrow> False
      | Some c \<Rightarrow> validCookie mac a now c \<and> wq_CSRF rq = csrfToken mac a c))"

definition operationRequester :: "keyed_hash \<Rightarrow> authenticator \<Rightarrow> time \<Rightarrow> web_request \<Rightarrow> string" where
  "operationRequester mac a now rq =
     (if \<not> enabled a then ''tailnet-operator''
      else case wq_Cookie rq of
          None \<Rightarrow> ''unknown-session''
        | Some c \<Rightarrow> if \<not> validCookie mac a now c then ''unknown-session''
            else ''session:'' @ hex_encode (take 8 (sign mac a (''operator:'' @ c))))"

definition isStateChanging :: "string \<Rightarrow> bool" where
  "isStateChanging m = (m \<noteq> ''GET'' \<and> m \<noteq> ''HEAD'' \<and> m \<noteq> ''OPTIONS'')"

text \<open>The wrapper of every protected handler. \<open>h\<close> is the handler with what it returns; \<open>clk\<close> the two
  readings of the clock.\<close>

definition auth :: "keyed_hash \<Rightarrow> authenticator \<Rightarrow> (nat \<Rightarrow> time) \<Rightarrow> (web_request \<Rightarrow> 's \<Rightarrow> 'a reply \<times> 's) \<Rightarrow> web_request \<Rightarrow> 's \<Rightarrow> 'a reply \<times> 's" where
  "auth mac a clk h rq s =
     (if \<not> authed mac a (clk 0) rq then (Refused 401 ''unauthorized'', s)
      else if isStateChanging (wq_Method rq) \<and> \<not> validCSRF mac a (clk 1) rq then (Refused 403 ''csrf'', s)
      else h rq s)"

definition handleLogout :: "keyed_hash \<Rightarrow> authenticator \<Rightarrow> (nat \<Rightarrow> time) \<Rightarrow> web_request \<Rightarrow> unit reply" where
  "handleLogout mac a clk rq =
     (if wq_Method rq \<noteq> ''POST'' then Refused 405 ''POST''
      else if \<not> authed mac a (clk 0) rq then Refused 401 ''unauthorized''
      else if \<not> validCSRF mac a (clk 1) rq then Refused 403 ''csrf''
      else Reply 200 ())"

text \<open>Whether the browser is logged in, and its token.\<close>

definition handleSession :: "keyed_hash \<Rightarrow> authenticator \<Rightarrow> time \<Rightarrow> web_request \<Rightarrow> (bool \<times> string) reply" where
  "handleSession mac a now rq =
     (if wq_Method rq \<noteq> ''GET'' then Refused 405 ''GET''
      else let ok = authed mac a now rq in
        Reply 200 (ok, if ok \<and> enabled a then (case wq_Cookie rq of None \<Rightarrow> [] | Some c \<Rightarrow> csrfToken mac a c) else []))"

section \<open>A session that was issued\<close>

lemma split_three: "d \<notin> set a \<Longrightarrow> d \<notin> set b \<Longrightarrow> d \<notin> set c \<Longrightarrow> split_on d (a @ d # b @ d # c) = [a, b, c]"
  by (simp add: split_on_append split_on_single)

lemma atoi_itoa: "0 \<le> n \<Longrightarrow> n < 2 ^ 63 \<Longrightarrow> atoi (itoa n) = Some n"
proof -
  assume n: "0 \<le> n" "n < 2 ^ 63"
  have d: "list_all is_digit (itoa_nat (nat n))" "itoa_nat (nat n) \<noteq> []" using itoa_nat_digits by auto
  then have "\<not> has_prefix (itoa_nat (nat n)) ''-''" "\<not> has_prefix (itoa_nat (nat n)) ''+''"
    by (auto simp: has_prefix_iff list_all_iff is_digit_def byte_def)
  then show ?thesis using n d by (simp add: atoi_def itoa_def digits_value_itoa)
qed

lemma no_dot: "CHR ''.'' \<notin> set (itoa_nat n)" "CHR ''.'' \<notin> set (raw64_encode raw_url s)"
proof -
  show "CHR ''.'' \<notin> set (itoa_nat n)" using digits_not[of "CHR ''.''" n] by (auto simp: is_digit_def byte_def)
  have "CHR ''.'' \<notin> set raw_url" by (simp add: raw_url_def)
  then show "CHR ''.'' \<notin> set (raw64_encode raw_url s)" using raw64_encode_chars[OF alphabets(1), of s] by auto
qed

text \<open>A session is valid from when it is issued until its last second has passed.\<close>

lemma issued_valid:
  assumes e: "enabled a" and n: "length nonce = 16" and c: "issueCookie mac a t (Some nonce) = Some cookie"
    and t: "t \<le> now" "0 \<le> unix (t + sessionTTL)" "unix (t + sessionTTL) < 2 ^ 63"
  shows "validCookie mac a now cookie \<longleftrightarrow> unix now \<le> unix (t + sessionTTL)"
proof -
  let ?e = "itoa (unix (t + sessionTTL))" and ?n = "raw64_encode raw_url nonce"
  let ?s = "raw64_encode raw_url (sign mac a (session_text a (?e @ ''.'' @ ?n)))"
  have "cookie = ?e @ CHR ''.'' # ?n @ CHR ''.'' # ?s" using c by (simp add: issueCookie_def Let_def)
  moreover have "CHR ''.'' \<notin> set ?e" using t(2) no_dot(1) by (simp add: itoa_def)
  ultimately have s: "split_on CHR ''.'' cookie = [?e, ?n, ?s]" using split_three no_dot(2) by simp
  have "unix (t + sessionTTL) \<le> unix (now + sessionTTL + minute)" using t(1) by (simp add: unix_def zdiv_mono1)
  then show ?thesis unfolding validCookie_def s using e n atoi_itoa[OF t(2,3)]
    by (simp add: raw64_roundtrip[OF alphabets(1)] not_less)
qed

section \<open>A password that was hashed\<close>

lemma no_dollar: "CHR ''$'' \<notin> set (itoa_nat n)" "CHR ''$'' \<notin> set (raw64_encode raw_std s)"
proof -
  show "CHR ''$'' \<notin> set (itoa_nat n)" using digits_not[of "CHR ''$''" n] by (auto simp: is_digit_def byte_def)
  have "CHR ''$'' \<notin> set raw_std" by (simp add: raw_std_def)
  then show "CHR ''$'' \<notin> set (raw64_encode raw_std s)" using raw64_encode_chars[OF alphabets(2), of s] by auto
qed

lemma digit_chars: "digit_char 1 = CHR ''1''" "digit_char (Suc 0) = CHR ''1''" "digit_char 3 = CHR ''3''" "digit_char 5 = CHR ''5''"
  "digit_char 6 = CHR ''6''" "digit_char 9 = CHR ''9''"
  by code_simp+

lemma hash_parses:
  assumes s: "length salt = 16" and h: "HashPassword argon2 (Some salt) password = Inr encoded"
    and l: "length (argon2 password salt 3 (64 * 1024) 1 32) = 32"
  shows "parsePasswordHash encoded = Inr (\<lparr>ap_time = 3, ap_memory = 64 * 1024, ap_threads = 1, ap_keyLen = 32\<rparr>, salt,
    argon2 password salt 3 (64 * 1024) 1 32) \<and> 0 < length password \<and> length password \<le> 1024"
proof -
  let ?s = "raw64_encode raw_std salt" and ?h = "raw64_encode raw_std (argon2 password salt 3 (64 * 1024) 1 32)"
  have i: "itoa_nat argon2_Version = ''19''" "itoa_nat (64 * 1024) = ''65536''" "itoa_nat 3 = ''3''" "itoa_nat 1 = ''1''"
    by (simp_all add: itoa_nat.simps digit_chars argon2_Version_def)
  have p: "encoded = [] @ CHR ''$'' # ''argon2id'' @ CHR ''$'' # ''v=19'' @ CHR ''$'' # ''m=65536,t=3,p=1'' @ CHR ''$'' # ?s @ CHR ''$'' # ?h"
    and len: "0 < length password \<and> length password \<le> 1024"
    using h unfolding HashPassword_def i by (auto simp: andThen_ok)
  have parts: "split_on CHR ''$'' encoded = [[], ''argon2id'', ''v=19'', ''m=65536,t=3,p=1'', ?s, ?h]"
    unfolding p using no_dollar(2) by (subst split_on_append, simp)+ (simp add: split_on_single)
  have f: "split_on CHR '','' ''m=65536,t=3,p=1'' = [''m=65536'', ''t=3'', ''p=1'']" by simp
  have v: "atoi (trim_prefix ''v=19'' ''v='') = Some 19"
    by (simp add: trim_prefix_def has_prefix_def atoi_def is_digit_def byte_def digits_value_def)
  have e: "each argon_field [''m=65536'', ''t=3'', ''p=1''] \<lparr>ap_time = 0, ap_memory = 0, ap_threads = 0, ap_keyLen = 0\<rparr> =
      Inr \<lparr>ap_time = 3, ap_memory = 64 * 1024, ap_threads = 1, ap_keyLen = 0\<rparr>"
    by (simp add: argon_field_def parse_uint_def is_digit_def byte_def digits_value_def)
  show ?thesis unfolding parsePasswordHash_def Let_def parts
    using f v e s l len by (simp add: raw64_roundtrip[OF alphabets(2)] argon2_Version_def)
qed

text \<open>Whatever Argon2id computes, a password verifies against its own hash, and another only with the same
  result.\<close>

lemma password_roundtrip:
  assumes "length salt = 16" "HashPassword argon2 (Some salt) password = Inr encoded"
    "length (argon2 password salt 3 (64 * 1024) 1 32) = 32"
  shows "VerifyPassword argon2 encoded other \<longleftrightarrow>
    length other \<le> 1024 \<and> argon2 other salt 3 (64 * 1024) 1 32 = argon2 password salt 3 (64 * 1024) 1 32"
  using hash_parses[OF assms] by (simp add: VerifyPassword_def)

lemma hash_authenticates:
  assumes "length salt = 16" "HashPassword argon2 (Some salt) password = Inr encoded"
    "length (argon2 password salt 3 (64 * 1024) 1 32) = 32" "32 \<le> length key"
  shows "newAuthenticator encoded key = Inr \<lparr>au_passwordHash = encoded, au_sessionKey = key\<rparr> \<and> encoded \<noteq> []"
proof -
  have "encoded \<noteq> []" using assms(2) by (auto simp: HashPassword_def andThen_ok)
  then show ?thesis using hash_parses[OF assms(1-3)] assms(4)
    by (simp add: newAuthenticator_def validatePasswordHash_def sessionKeyBytes_def)
qed

lemma session_key_roundtrip: "length raw = 32 \<Longrightarrow> session_key_of_text (session_key_text raw) = Some raw"
proof -
  assume l: "length raw = 32"
  let ?s = "raw64_encode raw_std raw"
  have "list_all (\<lambda>c. byte c < 128 \<and> \<not> is_space (byte c)) raw_std" by (simp add: raw_std_def byte_def is_space_def)
  then have c: "\<forall>c \<in> set ?s. byte c < 128 \<and> \<not> is_space (byte c)"
    using raw64_encode_chars[OF alphabets(2), of raw] by (auto simp: list_all_iff)
  then have a: "ascii (?s @ [CHR 0x0A])" by (simp add: ascii_def list_all_iff byte_def)
  let ?f = "\<lambda>c. (byte c, [c])"
  have w: "dropWhile (\<lambda>p. is_space (fst p)) (map ?f xs @ ys) = map ?f xs @ ys"
    if "\<forall>c \<in> set xs. byte c < 128 \<and> \<not> is_space (byte c)" "xs \<noteq> []" for xs ys using that by (cases xs) auto
  have "trim_chunks (map ?f (?s @ [CHR 0x0A])) = map ?f ?s"
  proof (cases "?s = []")
    case True
    then show ?thesis by (simp add: trim_chunks_def byte_def is_space_def)
  next
    case False
    then show ?thesis using w[of ?s "[?f CHR 0x0A]"] w[of "rev ?s" "[]"] c
      by (simp add: trim_chunks_def byte_def is_space_def rev_map)
  qed
  then have "trim_space (?s @ [CHR 0x0A]) = ?s"
    by (simp add: trim_space_def rune_chunks_ascii[OF a] comp_def)
  then show ?thesis using l by (simp add: session_key_of_text_def session_key_text_def raw64_roundtrip[OF alphabets(2)])
qed

end
