(* ===== verification/Rate_Limit.thy ===== *)
theory Rate_Limit
  imports Go_Net
begin

text \<open>
  The limiter of failed logins (\<^verbatim>\<open>internal/hub/ratelimit.go\<close>): failures are counted for each client and
  once more for all clients together; from the sixth failure on a bucket is locked, each time twice
  as long, up to half an hour. The readings of the clock are parameters: \<open>clk i\<close> is the \<open>i\<close>-th
  reading of a call.
\<close>

definition rateLimitThreshold :: nat where "rateLimitThreshold = 5"
definition rateLimitBaseDelay :: duration where "rateLimitBaseDelay = 30 * second"
definition rateLimitMaxDelay :: duration where "rateLimitMaxDelay = 30 * minute"
definition rateLimitIdleTTL :: duration where "rateLimitIdleTTL = hour"
definition globalLimiterKey :: string where "globalLimiterKey = ''* global *''"

record login_attempt =
  at_failures :: nat
  at_lockedUntil :: time
  at_lastAttempt :: time

type_synonym limiter = "string \<rightharpoonup> login_attempt"

definition lockedLocked :: "time \<Rightarrow> limiter \<Rightarrow> string \<Rightarrow> duration option" where
  "lockedLocked now l key = (case l key of
       None \<Rightarrow> None
     | Some a \<Rightarrow> if at_lockedUntil a - now > 0 then Some (at_lockedUntil a - now) else None)"

definition locked :: "time \<Rightarrow> limiter \<Rightarrow> string \<Rightarrow> duration option" where
  "locked now l ip = (case lockedLocked now l globalLimiterKey of
       Some wait \<Rightarrow> Some wait
     | None \<Rightarrow> lockedLocked now l ip)"

text \<open>The loop that doubles the delay.\<close>

fun grow_delay :: "nat \<Rightarrow> duration \<Rightarrow> duration" where
  "grow_delay 0 delay = delay"
| "grow_delay (Suc n) delay = (if delay < rateLimitMaxDelay then grow_delay n (delay * 2) else delay)"

definition lock_delay :: "nat \<Rightarrow> duration" where
  "lock_delay failures =
     (let delay = grow_delay (failures - rateLimitThreshold - 1) rateLimitBaseDelay
      in if delay > rateLimitMaxDelay then rateLimitMaxDelay else delay)"

definition recordFailureLocked :: "time \<Rightarrow> time \<Rightarrow> string \<Rightarrow> limiter \<Rightarrow> limiter" where
  "recordFailureLocked now later key l =
     (let a = (case l key of None \<Rightarrow> \<lparr>at_failures = 0, at_lockedUntil = 0, at_lastAttempt = 0\<rparr> | Some a \<Rightarrow> a);
          a = a\<lparr>at_failures := at_failures a + 1, at_lastAttempt := now\<rparr>
      in l(key \<mapsto> if at_failures a > rateLimitThreshold then a\<lparr>at_lockedUntil := later + lock_delay (at_failures a)\<rparr> else a))"

definition recordFailure :: "(nat \<Rightarrow> time) \<Rightarrow> string \<Rightarrow> limiter \<Rightarrow> limiter" where
  "recordFailure clk ip l =
     (let l = recordFailureLocked (clk 0) (clk 1) ip l
      in if ip \<noteq> globalLimiterKey then recordFailureLocked (clk 2) (clk 3) globalLimiterKey l else l)"

definition recordSuccess :: "string \<Rightarrow> limiter \<Rightarrow> limiter" where
  "recordSuccess ip l = l(ip := None, globalLimiterKey := None)"

definition cleanup :: "time \<Rightarrow> limiter \<Rightarrow> limiter" where
  "cleanup now l = (\<lambda>ip. case l ip of
       None \<Rightarrow> None
     | Some a \<Rightarrow> if now - at_lastAttempt a > rateLimitIdleTTL then None else Some a)"

text \<open>The remote address and the header \<^verbatim>\<open>X-Forwarded-For\<close> of a request.\<close>

definition clientIP :: "string \<Rightarrow> string \<Rightarrow> string" where
  "clientIP remoteAddr xff =
     (let host = (case split_host_port remoteAddr of None \<Rightarrow> remoteAddr | Some (h, _) \<Rightarrow> h);
          first = trim_space (hd (split_on CHR '','' xff))
      in if (host = ''127.0.0.1'' \<or> host = ''::1'') \<and> xff \<noteq> [] \<and> first \<noteq> [] then first else host)"

section \<open>The delays\<close>

lemmas limiter_consts = rateLimitThreshold_def rateLimitBaseDelay_def rateLimitMaxDelay_def rateLimitIdleTTL_def

lemma grow_delay_capped: "rateLimitMaxDelay \<le> delay \<Longrightarrow> grow_delay n delay = delay"
  by (cases n) simp_all

lemma grow_from_base: "grow_delay (Suc (Suc (Suc (Suc (Suc (Suc n)))))) rateLimitBaseDelay = 1920 * second"
  by (simp add: limiter_consts grow_delay_capped)

lemma lock_delay_values:
  "lock_delay 6 = 30 * second" "lock_delay 7 = 60 * second" "lock_delay 8 = 120 * second" "lock_delay 9 = 240 * second"
  "lock_delay 10 = 480 * second" "lock_delay 11 = 960 * second"
  by (simp_all add: lock_delay_def limiter_consts numeral_eq_Suc)

lemma lock_delay_large: "12 \<le> n \<Longrightarrow> lock_delay n = 1800 * second"
proof -
  assume "12 \<le> n"
  then obtain k where k: "n - 5 - 1 = Suc (Suc (Suc (Suc (Suc (Suc k)))))"
    by (intro that[of "n - 12"]) simp
  show ?thesis unfolding lock_delay_def rateLimitThreshold_def k grow_from_base by (simp add: limiter_consts)
qed

lemma lock_delay_bounds: "6 \<le> n \<Longrightarrow> rateLimitBaseDelay \<le> lock_delay n \<and> lock_delay n \<le> rateLimitMaxDelay"
proof -
  assume n: "6 \<le> n"
  consider "n \<in> {6, 7, 8, 9, 10, 11}" | "12 \<le> n" using n by force
  then show ?thesis by cases (auto simp: lock_delay_values lock_delay_large limiter_consts)
qed

end
