(* ===== verification/Login.thy ===== *)
theory Login
  imports Sessions Rate_Limit
begin

text \<open>
  The login (\<^verbatim>\<open>handleLogin\<close> of \<^verbatim>\<open>internal/hub/auth.go\<close>) as two steps, because the body of a request is
  read between them: whether the limiter admits the request, and the check of the password. Argon2id,
  the keyed hash, the clock and the random nonce are parameters; \<open>slot\<close> tells whether the only slot for
  a password check is free.
\<close>

record login_env =
  le_argon2 :: argon
  le_mac :: keyed_hash
  le_authn :: authenticator

datatype login_reply = LoginRefused nat string "duration option" | LoggedIn "string option"

definition login_admit :: "login_env \<Rightarrow> time \<Rightarrow> web_request \<Rightarrow> limiter \<Rightarrow> login_reply + string" where
  "login_admit env now rq l =
     (if wq_Method rq \<noteq> ''POST'' then Inl (LoginRefused 405 ''POST'' None)
      else if \<not> enabled (le_authn env) then Inl (LoggedIn None)
      else if \<not> hasJSONContentType (wq_ContentType rq) then Inl (LoginRefused 415 json_required None)
      else let ip = clientIP (wq_RemoteAddr rq) (wq_ForwardedFor rq) in
        case locked now l ip of
          Some wait \<Rightarrow> Inl (LoginRefused 429 ''too_many_attempts'' (Some (go_quot wait second + 1)))
        | None \<Rightarrow> Inr ip)"

definition login_check ::
  "login_env \<Rightarrow> (nat \<Rightarrow> time) \<Rightarrow> bool \<Rightarrow> string option \<Rightarrow> string body \<Rightarrow> string \<Rightarrow> limiter \<Rightarrow> login_reply \<times> limiter" where
  "login_check env clk slot nonce body ip l = (case body of
       Body password \<Rightarrow>
         if length password > 1024 then (LoginRefused 400 ''bad json'' None, l)
         else if \<not> slot then (LoginRefused 429 ''authentication_busy'' (Some 1), l)
         else if \<not> VerifyPassword (le_argon2 env) (au_passwordHash (le_authn env)) password
         then (LoginRefused 401 ''unauthorized'' None, recordFailure clk ip l)
         else (case issueCookie (le_mac env) (le_authn env) (clk 0) nonce of
             None \<Rightarrow> (LoginRefused 500 ''session_unavailable'' None, l)
           | Some cookie \<Rightarrow> (LoggedIn (Some cookie), recordSuccess ip l))
     | _ \<Rightarrow> (LoginRefused 400 ''bad json'' None, l))"

definition handleLogin ::
  "login_env \<Rightarrow> time \<Rightarrow> (nat \<Rightarrow> time) \<Rightarrow> bool \<Rightarrow> string option \<Rightarrow> string body \<Rightarrow> web_request \<Rightarrow> limiter \<Rightarrow> login_reply \<times> limiter" where
  "handleLogin env now clk slot nonce body rq l = (case login_admit env now rq l of
       Inl reply \<Rightarrow> (reply, l)
     | Inr ip \<Rightarrow> login_check env clk slot nonce body ip l)"

section \<open>Runs\<close>

text \<open>Whether a reply says that a password was checked and was wrong.\<close>

definition wrong_password :: "login_reply \<Rightarrow> bool" where
  "wrong_password r = (case r of LoginRefused code _ _ \<Rightarrow> code = 401 | LoggedIn _ \<Rightarrow> False)"

text \<open>The requests of a Hub handled one after the other from \<open>t0\<close> on, with the limiter, the last reading of
  the clock and the number of wrong passwords checked. No request of the run was answered with a session:
  who sent the requests does not know the password. \<open>Unlocked\<close> is the global bucket's state alone.\<close>

inductive login_run :: "login_env \<Rightarrow> time \<Rightarrow> limiter \<Rightarrow> time \<Rightarrow> nat \<Rightarrow> bool" for env t0 where
  start: "login_run env t0 Map.empty t0 0"
| request: "login_run env t0 l t n \<Longrightarrow> t \<le> now \<Longrightarrow> now \<le> clk 0 \<Longrightarrow> \<forall>i < 3. clk i \<le> clk (Suc i) \<Longrightarrow>
    handleLogin env now clk slot nonce body rq l = (reply, l') \<Longrightarrow> (\<forall>c. reply \<noteq> LoggedIn (Some c)) \<Longrightarrow>
    login_run env t0 l' (clk 3) (if wrong_password reply then Suc n else n)"
| clean: "login_run env t0 l t n \<Longrightarrow> t \<le> now \<Longrightarrow> login_run env t0 (cleanup now l) now n"

text \<open>The same requests interleaved: a request admitted by the limiter waits for its body, and its password
  is checked later, whatever the limiter says then. \<open>ips\<close> are the admitted requests.\<close>

inductive login_race :: "login_env \<Rightarrow> time \<Rightarrow> limiter \<Rightarrow> string list \<Rightarrow> time \<Rightarrow> nat \<Rightarrow> bool" for env t0 where
  race_start: "login_race env t0 Map.empty [] t0 0"
| race_admit: "login_race env t0 l ips t n \<Longrightarrow> t \<le> now \<Longrightarrow> login_admit env now rq l = Inr ip \<Longrightarrow>
    login_race env t0 l (ip # ips) now n"
| race_check: "login_race env t0 l (ip # ips) t n \<Longrightarrow> t \<le> clk 0 \<Longrightarrow> \<forall>i < 3. clk i \<le> clk (Suc i) \<Longrightarrow>
    login_check env clk slot nonce body ip l = (reply, l') \<Longrightarrow> (\<forall>c. reply \<noteq> LoggedIn (Some c)) \<Longrightarrow>
    login_race env t0 l' ips (clk 3) (if wrong_password reply then Suc n else n)"

section \<open>How many passwords can be tried\<close>

text \<open>What \<open>f\<close> failures of the global bucket may have cost less than 405 seconds each.\<close>

definition credit :: "nat \<Rightarrow> duration" where
  "credit f = (if f \<le> 6 then 405 * int f else if f = 7 then 2805 else if f = 8 then 3150 else if f = 9 then 3435
     else if f = 10 then 3600 else if f = 11 then 3525 else 2970) * second"

definition bucket_bound :: "time \<Rightarrow> time \<Rightarrow> nat \<Rightarrow> limiter \<Rightarrow> bool" where
  "bucket_bound t0 t n l = (case l globalLimiterKey of
       None \<Rightarrow> int n * (405 * second) \<le> t - t0
     | Some a \<Rightarrow> 0 < at_failures a \<and> at_lastAttempt a \<le> t \<and>
         int n * (405 * second) \<le> at_lastAttempt a - t0 + credit (at_failures a) \<and>
         (at_failures a > rateLimitThreshold \<longrightarrow> at_lastAttempt a + lock_delay (at_failures a) \<le> at_lockedUntil a))"

lemma credit_step: "1 \<le> f \<Longrightarrow> credit f + 405 * second \<le> (if f > 5 then lock_delay f else 0) + credit (Suc f)"
proof -
  assume "1 \<le> f"
  then consider "f \<le> 5" | "f \<in> {6, 7, 8, 9, 10, 11}" | "12 \<le> f" by force
  then show ?thesis
    by cases (auto simp: credit_def lock_delay_values lock_delay_large)
qed

lemma credit_max: "credit f \<le> 3600 * second" "credit 1 = 405 * second"
  by (simp_all add: credit_def)

lemma bound_after_failure:
  assumes b: "bucket_bound t0 t n l" and t: "t \<le> now" "now \<le> clk 0" "\<forall>i < 3. clk i \<le> clk (Suc i)"
    and u: "lockedLocked now l globalLimiterKey = None"
  shows "bucket_bound t0 (clk 3) (Suc n) (recordFailure clk ip l)"
proof -
  have c: "now \<le> clk 0" "clk 0 \<le> clk 1" "clk 1 \<le> clk 2" "clk 2 \<le> clk 3"
    using t(2) t(3)[rule_format, of 0] t(3)[rule_format, of 1] t(3)[rule_format, of 2] by (simp_all add: numeral_eq_Suc)
  have step: "bucket_bound t0 (clk 3) (Suc n) (recordFailureLocked i j globalLimiterKey l')"
    if ij: "now \<le> i" "i \<le> j" "j \<le> clk 3" and l': "l' globalLimiterKey = l globalLimiterKey" for i j l'
  proof (cases "l globalLimiterKey")
    case None
    then show ?thesis using b t ij credit_max(2)
      by (simp add: bucket_bound_def recordFailureLocked_def l' limiter_consts algebra_simps Let_def)
  next
    case (Some a)
    have f: "1 \<le> at_failures a" "at_lastAttempt a \<le> t" "int n * (405 * second) \<le> at_lastAttempt a - t0 + credit (at_failures a)"
      "at_failures a > 5 \<longrightarrow> at_lastAttempt a + lock_delay (at_failures a) \<le> now"
      using b u Some by (auto simp: bucket_bound_def lockedLocked_def limiter_consts split: if_splits)
    then show ?thesis using credit_step[OF f(1)] ij t
      by (auto simp: bucket_bound_def recordFailureLocked_def l' Some Let_def limiter_consts algebra_simps split: if_splits)
  qed
  show ?thesis
  proof (cases "ip = globalLimiterKey")
    case True
    then show ?thesis using step[of "clk 0" "clk 1" l] c by (simp add: recordFailure_def Let_def)
  next
    case False
    then have "recordFailureLocked (clk 0) (clk 1) ip l globalLimiterKey = l globalLimiterKey"
      by (simp add: recordFailureLocked_def Let_def)
    then show ?thesis using step[of "clk 2" "clk 3" "recordFailureLocked (clk 0) (clk 1) ip l"] c False
      by (simp add: recordFailure_def Let_def)
  qed
qed

lemma bound_after_cleanup:
  assumes "bucket_bound t0 t n l" "t \<le> now"
  shows "bucket_bound t0 now n (cleanup now l)"
proof (cases "l globalLimiterKey")
  case (Some a)
  then show ?thesis using assms credit_max(1)[of "at_failures a"]
    by (auto simp: bucket_bound_def cleanup_def rateLimitIdleTTL_def)
qed (use assms in \<open>simp add: bucket_bound_def cleanup_def\<close>)

lemma login_effect:
  assumes "handleLogin env now clk slot nonce body rq l = (reply, l')" "\<forall>c. reply \<noteq> LoggedIn (Some c)"
  shows "(wrong_password reply \<and> locked now l (clientIP (wq_RemoteAddr rq) (wq_ForwardedFor rq)) = None \<and>
      l' = recordFailure clk (clientIP (wq_RemoteAddr rq) (wq_ForwardedFor rq)) l) \<or> (\<not> wrong_password reply \<and> l' = l)"
  using assms
  by (auto simp: handleLogin_def login_admit_def login_check_def Let_def wrong_password_def
      split: if_splits option.splits body.splits)

lemma run_bound: "login_run env t0 l t n \<Longrightarrow> bucket_bound t0 t n l \<and> t0 \<le> t"
proof (induction rule: login_run.induct)
  case (request l t n now clk slot nonce body rq reply l')
  have c: "t \<le> clk 3"
    using request.hyps(2,3) request.hyps(4)[rule_format, of 0] request.hyps(4)[rule_format, of 1] request.hyps(4)[rule_format, of 2]
    by (simp add: numeral_eq_Suc)
  from login_effect[OF request.hyps(5,6)] show ?case
  proof (elim disjE conjE)
    assume w: "wrong_password reply" "locked now l (clientIP (wq_RemoteAddr rq) (wq_ForwardedFor rq)) = None"
      "l' = recordFailure clk (clientIP (wq_RemoteAddr rq) (wq_ForwardedFor rq)) l"
    have "lockedLocked now l globalLimiterKey = None" using w(2) by (simp add: locked_def split: option.splits)
    then show ?thesis using bound_after_failure[OF conjunct1[OF request.IH] request.hyps(2,3,4)] w c request.IH by simp
  next
    assume "\<not> wrong_password reply" "l' = l"
    then show ?thesis using request.IH c by (auto simp: bucket_bound_def split: option.splits)
  qed
next
  case (clean l t n now)
  then show ?case using bound_after_cleanup by auto
qed (simp add: bucket_bound_def)

lemma guesses: "login_run env t0 l t n \<Longrightarrow> int n * (405 * second) \<le> t - t0 + 3600 * second"
proof -
  assume r: "login_run env t0 l t n"
  show ?thesis
  proof (cases "l globalLimiterKey")
    case (Some a)
    then show ?thesis using run_bound[OF r] credit_max(1)[of "at_failures a"] by (simp add: bucket_bound_def)
  qed (use run_bound[OF r] in \<open>simp add: bucket_bound_def\<close>)
qed

text \<open>C14. Whoever does not know the password has, over all addresses and whatever is forwarded, at most one
  wrong password checked in 405 seconds, nine aside: the lock of all clients together bounds guessing
  by about two hundred a day, also when idle records are cleaned up. This is so for requests handled
  one after the other.\<close>

theorem login_guess_bound:
  assumes "login_run env t0 l t n"
  shows "int n * (405 * second) \<le> t - t0 + 3600 * second"
  by (rule guesses[OF assms])

section \<open>The lock is not checked again\<close>

lemma race_admits:
  assumes "login_admit env t0 rq Map.empty = Inr ip"
  shows "login_race env t0 Map.empty (replicate m ip) t0 0"
proof (induction m)
  case (Suc m)
  then show ?case using race_admit[OF Suc.IH order_refl assms] by simp
qed (simp add: race_start)

lemma race_checks:
  assumes w: "\<not> VerifyPassword (le_argon2 env) (au_passwordHash (le_authn env)) pw" "length pw \<le> 1024"
  shows "login_race env t0 l (replicate m ip) t0 n \<Longrightarrow> \<exists>l'. login_race env t0 l' [] t0 (n + m)"
proof (induction m arbitrary: l n)
  case (Suc m)
  have c: "login_check env (\<lambda>_. t0) True None (Body pw) ip l = (LoginRefused 401 ''unauthorized'' None, recordFailure (\<lambda>_. t0) ip l)"
    using w by (simp add: login_check_def)
  have "login_race env t0 (recordFailure (\<lambda>_. t0) ip l) (replicate m ip) t0 (Suc n)"
    using race_check[of env t0 l ip "replicate m ip" t0 n "\<lambda>_. t0", OF _ _ _ c] Suc.prems by (simp add: wrong_password_def)
  from Suc.IH[OF this] show ?case by simp
qed auto

lemma json_type: "hasJSONContentType ''application/json''"
  by (simp add: hasJSONContentType_def trim_space_def trim_chunks_def utf8_eval equal_fold_ascii_def fold_rune_def)

text \<open>C15. The limiter is asked before the body is read and not again: requests that it admits together and
  whose bodies arrive later are all checked. For every \<open>n\<close> there is an interleaving in which \<open>n\<close> wrong
  passwords are checked at one instant, where the requests handled one by one would be
  locked out after the sixth.\<close>

theorem lock_not_rechecked:
  assumes "enabled (le_authn env)" "\<not> VerifyPassword (le_argon2 env) (au_passwordHash (le_authn env)) pw" "length pw \<le> 1024"
  shows "\<exists>l. login_race env t0 l [] t0 n"
proof -
  let ?rq = "\<lparr>wq_Method = ''POST'', wq_Cookie = None, wq_CSRF = [], wq_ContentType = ''application/json'',
    wq_RemoteAddr = [], wq_ForwardedFor = []\<rparr>"
  have "\<exists>ip. login_admit env t0 ?rq Map.empty = Inr ip"
    using assms(1) json_type by (simp add: login_admit_def Let_def locked_def lockedLocked_def)
  then obtain ip where "login_admit env t0 ?rq Map.empty = Inr ip" by blast
  from race_checks[OF assms(2,3) race_admits[OF this]] show ?thesis by simp
qed

section \<open>A login that succeeds\<close>

lemma login_succeeds:
  assumes h: "length salt = 16" "HashPassword argon2 (Some salt) password = Inr encoded"
      "length (argon2 password salt 3 (64 * 1024) 1 32) = 32" "32 \<le> length key"
    and rq: "wq_Method rq = ''POST''" "hasJSONContentType (wq_ContentType rq)"
      "locked now l (clientIP (wq_RemoteAddr rq) (wq_ForwardedFor rq)) = None"
    and n: "length nonce = 16" and t: "0 \<le> unix (clk 0 + sessionTTL)" "unix (clk 0 + sessionTTL) < 2 ^ 63"
      "clk 0 \<le> later" "unix later \<le> unix (clk 0 + sessionTTL)"
    and env: "newAuthenticator encoded key = Inr a" "env = \<lparr>le_argon2 = argon2, le_mac = mac, le_authn = a\<rparr>"
  shows "\<exists>cookie l'. handleLogin env now clk True (Some nonce) (Body password) rq l = (LoggedIn (Some cookie), l') \<and>
    l' globalLimiterKey = None \<and>
    handleSession mac a later (any\<lparr>wq_Method := ''GET'', wq_Cookie := Some cookie\<rparr>) = Reply 200 (True, csrfToken mac a cookie) \<and>
    auth mac a (\<lambda>_. later) handler (any\<lparr>wq_Cookie := Some cookie, wq_CSRF := csrfToken mac a cookie\<rparr>) st =
      handler (any\<lparr>wq_Cookie := Some cookie, wq_CSRF := csrfToken mac a cookie\<rparr>) st"
proof -
  have a: "a = \<lparr>au_passwordHash = encoded, au_sessionKey = key\<rparr>" "enabled a"
    using hash_authenticates[OF h] env(1) by (auto simp: enabled_def)
  obtain cookie where c: "issueCookie mac a (clk 0) (Some nonce) = Some cookie" by (simp add: issueCookie_def Let_def)
  have v: "validCookie mac a later cookie" using issued_valid[OF a(2) n c t(3,1,2)] t(4) by blast
  have "VerifyPassword argon2 encoded password" "length password \<le> 1024"
    using password_roundtrip[OF h(1-3)] hash_parses[OF h(1-3)] by blast+
  then have "handleLogin env now clk True (Some nonce) (Body password) rq l =
      (LoggedIn (Some cookie), recordSuccess (clientIP (wq_RemoteAddr rq) (wq_ForwardedFor rq)) l)"
    using rq a c by (simp add: handleLogin_def login_admit_def login_check_def env(2) Let_def)
  then show ?thesis using v a(2)
    by (simp add: recordSuccess_def handleSession_def authed_def auth_def validCSRF_def Let_def)
qed

text \<open>C16. The parts of the login fit together: the password whose hash the Hub was started with logs in whenever
  the limiter admits it, the global lock is lifted, and until its last second the session is accepted by
  the session query, and with the token the query returns by every protected handler, writing ones
  included.\<close>

theorem login_session_works:
  assumes "length salt = 16" "HashPassword argon2 (Some salt) password = Inr encoded"
      "length (argon2 password salt 3 (64 * 1024) 1 32) = 32" "32 \<le> length key"
      "wq_Method rq = ''POST''" "hasJSONContentType (wq_ContentType rq)"
      "locked now l (clientIP (wq_RemoteAddr rq) (wq_ForwardedFor rq)) = None"
      "length nonce = 16" "0 \<le> unix (clk 0 + sessionTTL)" "unix (clk 0 + sessionTTL) < 2 ^ 63"
      "clk 0 \<le> later" "unix later \<le> unix (clk 0 + sessionTTL)"
      "newAuthenticator encoded key = Inr a" "env = \<lparr>le_argon2 = argon2, le_mac = mac, le_authn = a\<rparr>"
  shows "\<exists>cookie l'. handleLogin env now clk True (Some nonce) (Body password) rq l = (LoggedIn (Some cookie), l') \<and>
    l' globalLimiterKey = None \<and>
    handleSession mac a later (any\<lparr>wq_Method := ''GET'', wq_Cookie := Some cookie\<rparr>) = Reply 200 (True, csrfToken mac a cookie) \<and>
    auth mac a (\<lambda>_. later) handler (any\<lparr>wq_Cookie := Some cookie, wq_CSRF := csrfToken mac a cookie\<rparr>) st =
      handler (any\<lparr>wq_Cookie := Some cookie, wq_CSRF := csrfToken mac a cookie\<rparr>) st"
  by (rule login_succeeds[where clk = clk, OF assms])

text \<open>A clean-up never lifts a lock that is not over: a lock ends at most half an hour after its last attempt.\<close>

lemma cleanup_keeps_lock:
  assumes "l k = Some a" "at_lockedUntil a \<le> at_lastAttempt a + rateLimitIdleTTL"
  shows "lockedLocked now (cleanup now l) k = lockedLocked now l k"
  using assms by (auto simp: lockedLocked_def cleanup_def)

section \<open>Witnesses\<close>

definition sample_argon :: argon where
  "sample_argon password salt t m p n = take n (password @ replicate n CHR ''x'')"

definition sample_mac :: keyed_hash where "sample_mac key text = key @ text"

definition sample_hash :: string where
  "sample_hash = (case HashPassword sample_argon (Some (replicate 16 CHR ''s'')) ''secret'' of Inl _ \<Rightarrow> [] | Inr h \<Rightarrow> h)"

definition sample_authn :: authenticator where
  "sample_authn = \<lparr>au_passwordHash = sample_hash, au_sessionKey = replicate 32 CHR ''k''\<rparr>"

definition sample_login :: login_env where
  "sample_login = \<lparr>le_argon2 = sample_argon, le_mac = sample_mac, le_authn = sample_authn\<rparr>"

definition sample_post :: web_request where
  "sample_post = \<lparr>wq_Method = ''POST'', wq_Cookie = None, wq_CSRF = [], wq_ContentType = ''application/json'',
    wq_RemoteAddr = [], wq_ForwardedFor = []\<rparr>"

lemma sample_hashed: "HashPassword sample_argon (Some (replicate 16 CHR ''s'')) ''secret'' = Inr sample_hash"
  by (simp add: sample_hash_def HashPassword_def)

lemma sample_argon_length: "length (sample_argon pw salt t m p n) = n"
  by (simp add: sample_argon_def)

lemma sample_parts:
  "newAuthenticator sample_hash (replicate 32 CHR ''k'') = Inr sample_authn" "enabled sample_authn"
  using hash_authenticates[OF _ sample_hashed sample_argon_length, of "replicate 32 CHR ''k''"]
  by (simp_all add: sample_authn_def enabled_def)

lemma wrong_guess: "\<not> VerifyPassword (le_argon2 sample_login) (au_passwordHash (le_authn sample_login)) ''guess''"
proof -
  have "sample_argon ''guess'' s t m p 32 \<noteq> sample_argon ''secret'' s t m p 32" for s t m p
    by (simp add: sample_argon_def)
  then show ?thesis using password_roundtrip[OF _ sample_hashed sample_argon_length, of "''guess''"]
    by (simp add: sample_login_def sample_authn_def)
qed

theorem lock_not_rechecked_witness: "\<exists>l. login_race sample_login 100 l [] 100 1000"
  by (rule lock_not_rechecked[OF _ wrong_guess]) (simp_all add: sample_login_def sample_parts)

lemma one_wrong_guess:
  "\<exists>l. login_run sample_login 100 l 100 1"
proof -
  have "handleLogin sample_login 100 (\<lambda>_. 100) True None (Body ''guess'') sample_post Map.empty =
      (LoginRefused 401 ''unauthorized'' None, recordFailure (\<lambda>_. 100) (clientIP [] []) Map.empty)"
    using wrong_guess json_type sample_parts(2)
    by (simp add: handleLogin_def login_admit_def login_check_def sample_post_def locked_def lockedLocked_def Let_def sample_login_def)
  from login_run.request[OF login_run.start _ _ _ this] show ?thesis by (auto simp: wrong_password_def)
qed

theorem login_guess_bound_witness:
  "\<exists>l. login_run sample_login 100 l 100 1 \<and> int 1 * (405 * second) \<le> 100 - 100 + 3600 * second"
proof -
  obtain l where "login_run sample_login 100 l 100 1" using one_wrong_guess by blast
  then show ?thesis using login_guess_bound[of sample_login 100 l 100 1] by blast
qed

theorem login_session_works_witness:
  "\<exists>cookie l'. handleLogin sample_login 64000000000000000000 (\<lambda>_. 64000000000000000000) True (Some (replicate 16 CHR ''n'')) (Body ''secret'') sample_post Map.empty
      = (LoggedIn (Some cookie), l') \<and>
    handleSession sample_mac sample_authn 64000000000000000000 (sample_post\<lparr>wq_Method := ''GET'', wq_Cookie := Some cookie\<rparr>)
      = Reply 200 (True, csrfToken sample_mac sample_authn cookie)"
proof -
  have "sample_login = \<lparr>le_argon2 = sample_argon, le_mac = sample_mac, le_authn = sample_authn\<rparr>" by (simp add: sample_login_def)
  from login_session_works[OF _ sample_hashed sample_argon_length _ _ _ _ _ _ _ _ _ sample_parts(1) this,
      of sample_post 64000000000000000000 Map.empty "replicate 16 CHR ''n''" "\<lambda>_. 64000000000000000000" 64000000000000000000 sample_post
        "\<lambda>_ s. (Reply 200 (), s)" "()"]
  show ?thesis by (auto simp: sample_post_def json_type unix_def sessionTTL_def locked_def lockedLocked_def)
qed

end
