(* ===== verification/Event_Paging.thy ===== *)
theory Event_Paging
  imports Event_Store
begin

text \<open>
  The operator's timeline of events (\<^verbatim>\<open>ListEventPage\<close>, \<^verbatim>\<open>EventCountsFiltered\<close> and the snapshots of
  \<^verbatim>\<open>internal/storage/sqlite.go\<close>): the first page freezes the list of the matching identifiers, the next
  pages walk that list and load the rows as they are now. The map of snapshots is the list of its
  values; where Go ranges over it to find the oldest, the first of several equally old ones is taken.
\<close>

section \<open>Filters\<close>

record event_filter =
  ef_HostID :: host_id
  ef_State :: string
  ef_Limit :: int
  ef_Offset :: int
  ef_AfterID :: string
  ef_Snapshot :: string

record event_list_page =
  lp_Snapshot :: string
  lp_Matched :: int
  lp_Offset :: int
  lp_HasMore :: bool

record event_counts =
  ec_Ongoing :: int
  ec_Active :: int
  ec_Critical :: int
  ec_Resolved :: int
  ec_Matched :: int

definition ErrEventSnapshot :: go_error where "ErrEventSnapshot = ''event snapshot is invalid or expired''"
definition ErrEventCursor :: go_error where "ErrEventCursor = ''event paging cursor is invalid''"

definition eventStatePredicate :: "string \<Rightarrow> go_error + (event \<Rightarrow> bool)" where
  "eventStatePredicate state =
     (if state = [] \<or> state = ''all'' then Inr (\<lambda>_. True)
      else if state = ''ongoing'' then Inr (\<lambda>e. ev_State e = EventActive \<or> ev_State e = EventAcknowledged)
      else if state = ''active'' \<or> state = ''acknowledged'' \<or> state = ''resolved'' then Inr (\<lambda>e. ev_State e = state)
      else Inl ''event state filter is invalid'')"

definition eventWhere :: "host_id \<Rightarrow> string \<Rightarrow> go_error + (event \<Rightarrow> bool)" where
  "eventWhere hid state =
     andThen (eventStatePredicate state) (\<lambda>p. Inr (\<lambda>e. (hid = [] \<or> ev_HostID e = hid) \<and> p e))"

section \<open>The order of the list\<close>

definition list_rank :: "event \<Rightarrow> nat" where
  "list_rank e = (if ev_State e = EventActive then 0 else if ev_State e = EventAcknowledged then 1 else 2)"

definition listEventIDs :: "(event \<Rightarrow> bool) \<Rightarrow> event list \<Rightarrow> string list" where
  "listEventIDs p es =
     map ev_ID (sort_key list_rank (sort_key (\<lambda>e. - ev_LastObservedAt e) (rev (sort_key ev_ID (filter p es)))))"

definition loadEventsByIDs :: "string list \<Rightarrow> event list \<Rightarrow> go_error + event list" where
  "loadEventsByIDs ids es =
     (if ids = [] then Inr []
      else andThen (loadEvents (filter (\<lambda>e. ev_ID e \<in> set ids) es))
        (\<lambda>events. Inr (List.map_filter (index_by ev_ID events) ids)))"

section \<open>Snapshots\<close>

record event_snapshot =
  es_ID :: string
  es_HostID :: host_id
  es_State :: string
  es_IDs :: "string list"
  es_CreatedAt :: time

definition eventSnapshotTTL :: duration where "eventSnapshotTTL = hour"
definition eventSnapshotLimit :: nat where "eventSnapshotLimit = 64"

definition validEventSnapshotID :: "string \<Rightarrow> bool" where
  "validEventSnapshotID i =
     (has_prefix i ''snap_'' \<and> length i = 37 \<and>
      list_all (\<lambda>c. (48 \<le> byte c \<and> byte c \<le> 57) \<or> (97 \<le> byte c \<and> byte c \<le> 102)) (drop 5 i))"

fun oldest :: "event_snapshot option \<Rightarrow> event_snapshot list \<Rightarrow> event_snapshot option" where
  "oldest best [] = best"
| "oldest None (s # ss) = oldest (Some s) ss"
| "oldest (Some b) (s # ss) = oldest (Some (if es_CreatedAt s < es_CreatedAt b then s else b)) ss"

definition drop_oldest :: "event_snapshot list \<Rightarrow> event_snapshot list" where
  "drop_oldest ss = (case oldest None ss of None \<Rightarrow> ss | Some b \<Rightarrow> filter (\<lambda>s. es_ID s \<noteq> es_ID b) ss)"

lemma oldest_Some: "oldest (Some b) ss = Some x \<Longrightarrow> x \<in> set (b # ss) \<and> (\<forall>s \<in> set (b # ss). es_CreatedAt x \<le> es_CreatedAt s)"
  by (induction ss arbitrary: b) (fastforce split: if_splits)+

lemma oldest_ex: "\<exists>x. oldest (Some b) ss = Some x"
  by (induction ss arbitrary: b) auto

lemma oldest_None:
  assumes "ss \<noteq> []"
  obtains x where "oldest None ss = Some x" "x \<in> set ss" "\<forall>s \<in> set ss. es_CreatedAt x \<le> es_CreatedAt s"
  using assms oldest_ex oldest_Some by (cases ss) (auto, metis)

lemma drop_oldest_less: "ss \<noteq> [] \<Longrightarrow> length (drop_oldest ss) < length ss"
  by (erule oldest_None) (auto simp: drop_oldest_def intro!: length_filter_less)

function evict :: "event_snapshot list \<Rightarrow> event_snapshot list" where
  "evict ss = (if length ss \<ge> eventSnapshotLimit then evict (drop_oldest ss) else ss)"
  by pat_completeness auto
termination
  by (relation "measure length") (auto simp: eventSnapshotLimit_def intro!: drop_oldest_less)

declare evict.simps [simp del]

text \<open>\<open>random\<close> is the text of the sixteen random bytes.\<close>

definition putEventSnapshot ::
  "string \<Rightarrow> time \<Rightarrow> host_id \<Rightarrow> string \<Rightarrow> string list \<Rightarrow> event_snapshot list \<Rightarrow> event_snapshot \<times> event_snapshot list" where
  "putEventSnapshot random now hid state ids ss =
     (let snapshot = \<lparr>es_ID = ''snap_'' @ random, es_HostID = hid, es_State = state, es_IDs = ids, es_CreatedAt = now\<rparr>;
          kept = evict (filter (\<lambda>s. \<not> now - es_CreatedAt s > eventSnapshotTTL) ss)
      in (snapshot, filter (\<lambda>s. es_ID s \<noteq> es_ID snapshot) kept @ [snapshot]))"

definition getEventSnapshot :: "time \<Rightarrow> string \<Rightarrow> event_snapshot list \<Rightarrow> (go_error + event_snapshot) \<times> event_snapshot list" where
  "getEventSnapshot now i ss = (case find (\<lambda>s. es_ID s = i) ss of
       None \<Rightarrow> (Inl ErrEventSnapshot, ss)
     | Some s \<Rightarrow> if now - es_CreatedAt s > eventSnapshotTTL then (Inl ErrEventSnapshot, filter (\<lambda>s. es_ID s \<noteq> i) ss)
         else (Inr s, ss))"

section \<open>Pages\<close>

fun index_of :: "nat \<Rightarrow> string \<Rightarrow> string list \<Rightarrow> nat option" where
  "index_of i x [] = None"
| "index_of i x (y # ys) = (if y = x then Some i else index_of (Suc i) x ys)"

definition page_of :: "event_filter \<Rightarrow> event list \<Rightarrow> event_snapshot \<Rightarrow> go_error + (event list \<times> event_list_page)" where
  "page_of f es s =
     andThen (if ef_AfterID f \<noteq> [] then (case index_of 0 (ef_AfterID f) (es_IDs s) of None \<Rightarrow> Inl ErrEventCursor | Some i \<Rightarrow> Inr (i + 1))
        else Inr (nat (ef_Offset f)))
     (\<lambda>start0. let start = min start0 (length (es_IDs s)); finish = min (start + nat (ef_Limit f)) (length (es_IDs s)) in
       andThen (loadEventsByIDs (take (finish - start) (drop start (es_IDs s))) es)
       (\<lambda>events. Inr (events, \<lparr>lp_Snapshot = es_ID s, lp_Matched = int (length (es_IDs s)), lp_Offset = int start,
          lp_HasMore = (finish < length (es_IDs s))\<rparr>)))"

definition ListEventPage ::
  "string \<Rightarrow> time \<Rightarrow> event_filter \<Rightarrow> event list \<Rightarrow> event_snapshot list
   \<Rightarrow> (go_error + (event list \<times> event_list_page)) \<times> event_snapshot list" where
  "ListEventPage random now f es ss =
     (if ef_Limit f < 1 \<or> ef_Limit f > 500 then (Inl ''event limit must be between 1 and 500'', ss)
      else if ef_Offset f < 0 then (Inl ''event offset must not be negative'', ss)
      else if trim_space (ef_AfterID f) \<noteq> ef_AfterID f \<or> length (ef_AfterID f) > 128 then (Inl ErrEventCursor, ss)
      else if ef_Snapshot f \<noteq> [] \<and> \<not> validEventSnapshotID (ef_Snapshot f) then (Inl ErrEventSnapshot, ss)
      else if ef_Snapshot f = [] \<and> (ef_Offset f > 0 \<or> ef_AfterID f \<noteq> []) then (Inl ''event snapshot is required to page'', ss)
      else if ef_Snapshot f = [] then
        (case eventWhere (ef_HostID f) (ef_State f) of
           Inl e \<Rightarrow> (Inl e, ss)
         | Inr p \<Rightarrow> let (s, ss') = putEventSnapshot random now (ef_HostID f) (ef_State f) (listEventIDs p es) ss
             in (page_of f es s, ss'))
      else case getEventSnapshot now (ef_Snapshot f) ss of
          (Inl e, ss') \<Rightarrow> (Inl e, ss')
        | (Inr s, ss') \<Rightarrow>
            if es_HostID s \<noteq> ef_HostID f \<or> es_State s \<noteq> ef_State f then (Inl ErrEventSnapshot, ss')
            else (page_of f es s, ss'))"

definition EventCountsFiltered :: "event_filter \<Rightarrow> event list \<Rightarrow> go_error + event_counts" where
  "EventCountsFiltered f es =
     andThen (eventWhere (ef_HostID f) [])
     (\<lambda>p. let rows = filter p es in
       andThen (eventWhere (ef_HostID f) (ef_State f))
       (\<lambda>q. Inr \<lparr>ec_Ongoing = int (affected (\<lambda>e. ev_State e = EventActive \<or> ev_State e = EventAcknowledged) rows),
          ec_Active = int (affected (\<lambda>e. ev_State e = EventActive) rows),
          ec_Critical = int (affected (\<lambda>e. ev_State e \<noteq> EventResolved \<and> ev_Severity e = SeverityCritical) rows),
          ec_Resolved = int (affected (\<lambda>e. ev_State e = EventResolved) rows),
          ec_Matched = int (affected q es)\<rparr>))"

section \<open>What a page holds\<close>

definition table_ok :: "event list \<Rightarrow> bool" where
  "table_ok es \<longleftrightarrow> distinct (map ev_ID es) \<and> (\<forall>e \<in> set es. validateEvent e = Inr ())"

lemma loadEvents_ok: "\<forall>e \<in> set es. validateEvent e = Inr () \<Longrightarrow> loadEvents es = Inr es"
  by (simp add: loadEvents_def check_all_Inr)

lemma index_by_rows:
  assumes "table_ok es" "set ids \<subseteq> ev_ID ` set es" "i \<in> set ids"
  shows "\<exists>e. index_by ev_ID (filter (\<lambda>e. ev_ID e \<in> set ids) es) i = Some e \<and> ev_ID e = i \<and> e \<in> set es"
proof -
  obtain e where e: "e \<in> set es" "ev_ID e = i" using assms(2,3) by auto
  have "distinct (map ev_ID (filter (\<lambda>e. ev_ID e \<in> set ids) es))"
    using assms(1) by (simp add: table_ok_def distinct_map_filter)
  from index_by_Some[OF this, of i e] e assms(3) show ?thesis by auto
qed

lemma map_filter_total: "\<forall>i \<in> set ids. \<exists>e. g i = Some e \<and> key e = i \<Longrightarrow> map key (List.map_filter g ids) = ids"
  by (induction ids) (auto simp: List.map_filter_def)

lemma in_map_filter: "x \<in> set (List.map_filter g ids) \<Longrightarrow> \<exists>i \<in> set ids. g i = Some x"
  by (induction ids) (auto simp: List.map_filter_def split: option.splits if_splits)

lemma loadEventsByIDs_ok:
  assumes "table_ok es" "set ids \<subseteq> ev_ID ` set es"
  shows "\<exists>evs. loadEventsByIDs ids es = Inr evs \<and> map ev_ID evs = ids \<and> set evs \<subseteq> set es"
proof (cases "ids = []")
  case False
  let ?g = "index_by ev_ID (filter (\<lambda>e. ev_ID e \<in> set ids) es)"
  have "loadEvents (filter (\<lambda>e. ev_ID e \<in> set ids) es) = Inr (filter (\<lambda>e. ev_ID e \<in> set ids) es)"
    using assms(1) by (intro loadEvents_ok) (auto simp: table_ok_def)
  then have "loadEventsByIDs ids es = Inr (List.map_filter ?g ids)" using False by (simp add: loadEventsByIDs_def)
  moreover have "map ev_ID (List.map_filter ?g ids) = ids"
    using index_by_rows[OF assms] by (intro map_filter_total) blast
  moreover have "set (List.map_filter ?g ids) \<subseteq> set es"
    by (auto dest!: in_map_filter index_by_eq_Some)
  ultimately show ?thesis by blast
qed (simp add: loadEventsByIDs_def)

lemma index_of_nth:
  "distinct xs \<Longrightarrow> n < length xs \<Longrightarrow> index_of i (xs ! n) xs = Some (i + n)"
proof (induction xs arbitrary: i n)
  case (Cons x xs)
  then show ?case by (cases n) (auto simp: nth_Cons')
qed simp

lemma index_of_Some: "index_of i x xs = Some k \<Longrightarrow> i \<le> k \<and> k < i + length xs"
  by (induction xs arbitrary: i) (fastforce split: if_splits)+

text \<open>The identifiers a page shows are a slice of the snapshot.\<close>

definition slice_start :: "event_filter \<Rightarrow> event_snapshot \<Rightarrow> nat option" where
  "slice_start f s = map_option (\<lambda>n. min n (length (es_IDs s)))
     (if ef_AfterID f \<noteq> [] then map_option Suc (index_of 0 (ef_AfterID f) (es_IDs s)) else Some (nat (ef_Offset f)))"

lemma page_of_slice:
  assumes "table_ok es" "set (es_IDs s) \<subseteq> ev_ID ` set es" "slice_start f s = Some n"
  shows "\<exists>evs. page_of f es s = Inr (evs, \<lparr>lp_Snapshot = es_ID s, lp_Matched = int (length (es_IDs s)), lp_Offset = int n,
      lp_HasMore = (n + nat (ef_Limit f) < length (es_IDs s))\<rparr>)
    \<and> map ev_ID evs = take (nat (ef_Limit f)) (drop n (es_IDs s)) \<and> set evs \<subseteq> set es"
proof -
  define m where "m = min (n + nat (ef_Limit f)) (length (es_IDs s))"
  have n: "n \<le> length (es_IDs s)" using assms(3) by (auto simp: slice_start_def)
  have t: "take (m - n) (drop n (es_IDs s)) = take (nat (ef_Limit f)) (drop n (es_IDs s))"
    using n by (simp add: m_def min_def)
  have "set (take (nat (ef_Limit f)) (drop n (es_IDs s))) \<subseteq> ev_ID ` set es"
    using assms(2) by (meson in_set_dropD in_set_takeD subset_eq)
  from loadEventsByIDs_ok[OF assms(1) this] obtain evs where
    l: "loadEventsByIDs (take (m - n) (drop n (es_IDs s))) es = Inr evs"
    "map ev_ID evs = take (nat (ef_Limit f)) (drop n (es_IDs s))" "set evs \<subseteq> set es" unfolding t by blast
  have "page_of f es s = andThen (loadEventsByIDs (take (m - n) (drop n (es_IDs s))) es)
       (\<lambda>events. Inr (events, \<lparr>lp_Snapshot = es_ID s, lp_Matched = int (length (es_IDs s)), lp_Offset = int n,
          lp_HasMore = (m < length (es_IDs s))\<rparr>))"
    using assms(3) by (auto simp: page_of_def slice_start_def m_def Let_def split: option.splits)
  then show ?thesis using l by (auto simp: m_def)
qed

section \<open>Walking the pages\<close>

text \<open>
  An operator's console asks for the first page and then, while the answer says there is more, for the
  page after the last event shown, with the snapshot's id. Request \<open>k\<close> happens at \<open>clk k\<close> on the table
  \<open>tbl k\<close>; before request \<open>k\<close> other requests change the table of snapshots by \<open>others k\<close>.
\<close>

fun follow ::
  "nat \<Rightarrow> string \<Rightarrow> (nat \<Rightarrow> time) \<Rightarrow> (nat \<Rightarrow> event list) \<Rightarrow> (nat \<Rightarrow> event_snapshot list \<Rightarrow> event_snapshot list)
   \<Rightarrow> event_filter \<Rightarrow> nat \<Rightarrow> event_snapshot list \<Rightarrow> go_error + string list" where
  "follow 0 random clk tbl others f k ss = Inr []"
| "follow (Suc n) random clk tbl others f k ss =
     (case ListEventPage random (clk k) f (tbl k) (others k ss) of
        (Inl e, _) \<Rightarrow> Inl e
      | (Inr (evs, page), ss') \<Rightarrow>
          if lp_HasMore page
          then andThen (follow n random clk tbl others
                 (f\<lparr>ef_AfterID := ev_ID (last evs), ef_Snapshot := lp_Snapshot page\<rparr>) (Suc k) ss')
                 (\<lambda>rest. Inr (map ev_ID evs @ rest))
          else Inr (map ev_ID evs))"

lemma evict_keeps: "set (evict ss) \<subseteq> set ss"
proof (induction ss rule: evict.induct)
  case (1 ss)
  have "set (drop_oldest ss) \<subseteq> set ss" by (auto simp: drop_oldest_def split: option.splits)
  then show ?case using 1 by (subst evict.simps) auto
qed

lemma find_append: "find P (xs @ ys) = (case find P xs of None \<Rightarrow> find P ys | Some x \<Rightarrow> Some x)"
  by (induction xs) auto

lemma find_dropped: "find (\<lambda>x. key x = i) (filter (\<lambda>x. key x \<noteq> i) xs) = None"
  by (induction xs) auto

lemma put_find:
  "putEventSnapshot random now hid st ids ss = (s, ss') \<Longrightarrow>
   s = \<lparr>es_ID = ''snap_'' @ random, es_HostID = hid, es_State = st, es_IDs = ids, es_CreatedAt = now\<rparr> \<and>
   find (\<lambda>x. es_ID x = ''snap_'' @ random) ss' = Some s"
  by (auto simp: putEventSnapshot_def Let_def find_append find_dropped)

lemma follow_next:
  assumes lim: "1 \<le> ef_Limit f" "ef_Limit f \<le> 500" and off: "0 \<le> ef_Offset f"
    and s: "find (\<lambda>x. es_ID x = es_ID s) (others k ss) = Some s"
    and same: "es_HostID s = ef_HostID f" "es_State s = ef_State f"
    and snap: "ef_Snapshot f = es_ID s" "validEventSnapshotID (es_ID s)"
    and fresh: "clk k - es_CreatedAt s \<le> eventSnapshotTTL"
    and after: "trim_space (ef_AfterID f) = ef_AfterID f" "length (ef_AfterID f) \<le> 128"
  shows "ListEventPage random (clk k) f (tbl k) (others k ss) = (page_of f (tbl k) s, others k ss)"
proof -
  have "es_ID s \<noteq> []" using snap(2) by (auto simp: validEventSnapshotID_def)
  then show ?thesis
    using assms by (simp add: ListEventPage_def getEventSnapshot_def)
qed

lemma last_slice:
  assumes "map ev_ID evs = take n (drop q ids)" "0 < n" "q + n < length ids"
  shows "ev_ID (last evs) = ids ! (q + n - 1)"
proof -
  have l: "length (take n (drop q ids)) = n" using assms(3) by simp
  then have "take n (drop q ids) \<noteq> []" "evs \<noteq> []" using assms(1,2) by (metis length_0_conv less_irrefl map_is_Nil_conv)+
  then have "ev_ID (last evs) = last (take n (drop q ids))" using assms(1) by (metis last_map)
  also have "\<dots> = take n (drop q ids) ! (n - 1)" using l assms(2) \<open>take n (drop q ids) \<noteq> []\<close> by (simp add: last_conv_nth)
  also have "\<dots> = ids ! (q + n - 1)" using assms(2,3) by simp
  finally show ?thesis .
qed

text \<open>What the requests rely on: the rows of the snapshot stay valid rows of the table, their identifiers (which the
  store draws itself) have no blanks around them, the walk ends
  within the lifetime of the snapshot, and no other request drops it.\<close>

definition walk_ok ::
  "(nat \<Rightarrow> time) \<Rightarrow> (nat \<Rightarrow> event list) \<Rightarrow> (nat \<Rightarrow> event_snapshot list \<Rightarrow> event_snapshot list)
   \<Rightarrow> time \<Rightarrow> string list \<Rightarrow> string \<Rightarrow> bool" where
  "walk_ok clk tbl others now ids i \<longleftrightarrow>
     (\<forall>k. table_ok (tbl k) \<and> set ids \<subseteq> ev_ID ` set (tbl k) \<and> clk k - now \<le> eventSnapshotTTL
       \<and> (\<forall>x \<in> set ids. trim_space x = x)
       \<and> (\<forall>ss. find (\<lambda>x. es_ID x = i) ss \<noteq> None \<longrightarrow>
            find (\<lambda>x. es_ID x = i) (others k ss) = find (\<lambda>x. es_ID x = i) ss))"

lemma walk_id_ok:
  assumes "walk_ok clk tbl others now ids i" "x \<in> set ids"
  shows "x \<noteq> []" "trim_space x = x" "length x \<le> 128"
proof -
  obtain e where "e \<in> set (tbl 0)" "ev_ID e = x" "validateEvent e = Inr ()"
    using assms unfolding walk_ok_def table_ok_def by blast
  then have "valid_identifier x 128" by (auto simp: validateEvent_ok)
  then show "x \<noteq> []" "length x \<le> 128" by (auto simp: valid_identifier_def)
  show "trim_space x = x" using assms unfolding walk_ok_def by blast
qed

lemma slice_start_after:
  assumes "distinct (es_IDs s)" "m < length (es_IDs s)" "ef_AfterID f = es_IDs s ! m" "es_IDs s ! m \<noteq> []"
  shows "slice_start f s = Some (Suc m)"
  using assms index_of_nth[OF assms(1,2), of 0] by (simp add: slice_start_def)

lemma follow_rest:
  assumes walk: "walk_ok clk tbl others (es_CreatedAt s) (es_IDs s) (es_ID s)" and d: "distinct (es_IDs s)"
    and v: "validEventSnapshotID (es_ID s)"
    and lim: "1 \<le> ef_Limit f" "ef_Limit f \<le> 500" and off: "0 \<le> ef_Offset f"
    and same: "es_HostID s = ef_HostID f" "es_State s = ef_State f"
    and find: "find (\<lambda>x. es_ID x = es_ID s) ss = Some s"
    and m: "m < length (es_IDs s)" "length (es_IDs s) - m \<le> n"
  shows "follow n random clk tbl others (f\<lparr>ef_AfterID := es_IDs s ! m, ef_Snapshot := es_ID s\<rparr>) k ss
    = Inr (drop (Suc m) (es_IDs s))"
  using find m
proof (induction n arbitrary: m k ss)
  case (Suc n)
  let ?f = "f\<lparr>ef_AfterID := es_IDs s ! m, ef_Snapshot := es_ID s\<rparr>" and ?l = "nat (ef_Limit f)"
  have x: "es_IDs s ! m \<in> set (es_IDs s)" using Suc.prems by simp
  note idok = walk_id_ok[OF walk x]
  have w: "table_ok (tbl k)" "set (es_IDs s) \<subseteq> ev_ID ` set (tbl k)" "clk k - es_CreatedAt s \<le> eventSnapshotTTL"
    and keep: "find (\<lambda>x. es_ID x = es_ID s) (others k ss) = Some s"
    using walk Suc.prems(1) unfolding walk_ok_def by auto
  have step: "ListEventPage random (clk k) ?f (tbl k) (others k ss) = (page_of ?f (tbl k) s, others k ss)"
    by (rule follow_next) (use keep same v w(3) lim off idok in simp_all)
  obtain evs where p: "page_of ?f (tbl k) s = Inr (evs, \<lparr>lp_Snapshot = es_ID s, lp_Matched = int (length (es_IDs s)),
      lp_Offset = int (Suc m), lp_HasMore = (Suc m + ?l < length (es_IDs s))\<rparr>)"
    and e: "map ev_ID evs = take ?l (drop (Suc m) (es_IDs s))"
    using page_of_slice[OF w(1,2) slice_start_after[OF d Suc.prems(2), of ?f]] idok by auto
  show ?case
  proof (cases "Suc m + ?l < length (es_IDs s)")
    case True
    have l: "ev_ID (last evs) = es_IDs s ! (m + ?l)"
      using last_slice[OF e] True lim by simp
    have "follow n random clk tbl others (f\<lparr>ef_AfterID := es_IDs s ! (m + ?l), ef_Snapshot := es_ID s\<rparr>) (Suc k) (others k ss)
      = Inr (drop (Suc (m + ?l)) (es_IDs s))"
      by (rule Suc.IH) (use keep True Suc.prems lim in auto)
    moreover have "drop (Suc m) (es_IDs s) = take ?l (drop (Suc m) (es_IDs s)) @ drop (Suc (m + ?l)) (es_IDs s)"
      by (metis add_Suc_right append_take_drop_id drop_drop add.commute)
    ultimately show ?thesis using True by (simp add: step p e l)
  next
    case False
    then have "take ?l (drop (Suc m) (es_IDs s)) = drop (Suc m) (es_IDs s)" by simp
    then show ?thesis using False by (simp add: step p e)
  qed
qed simp

lemma walk_pages:
  assumes f: "1 \<le> ef_Limit f" "ef_Limit f \<le> 500" "ef_Offset f = 0" "ef_AfterID f = []" "ef_Snapshot f = []"
    and p: "eventWhere (ef_HostID f) (ef_State f) = Inr p" and v: "validEventSnapshotID (''snap_'' @ random)"
    and walk: "walk_ok clk tbl others (clk 0) (listEventIDs p (tbl 0)) (''snap_'' @ random)"
    and n: "length (tbl 0) < n"
  shows "follow n random clk tbl others f 0 ss = Inr (listEventIDs p (tbl 0))"
proof -
  obtain n' where n': "n = Suc n'" using n by (cases n) auto
  let ?ids = "listEventIDs p (tbl 0)" and ?l = "nat (ef_Limit f)"
  obtain s ss' where put: "putEventSnapshot random (clk 0) (ef_HostID f) (ef_State f) ?ids (others 0 ss) = (s, ss')"
    by fastforce
  from put_find[OF put] have s: "s = \<lparr>es_ID = ''snap_'' @ random, es_HostID = ef_HostID f, es_State = ef_State f,
      es_IDs = ?ids, es_CreatedAt = clk 0\<rparr>" and found: "find (\<lambda>x. es_ID x = ''snap_'' @ random) ss' = Some s" by auto
  have tok: "table_ok (tbl 0)" and sub: "set ?ids \<subseteq> ev_ID ` set (tbl 0)"
    using walk unfolding walk_ok_def by auto
  have d: "distinct ?ids" and len: "length ?ids \<le> length (tbl 0)"
    using tok by (auto simp: listEventIDs_def table_ok_def distinct_map inj_on_def)
  have step: "ListEventPage random (clk 0) f (tbl 0) (others 0 ss) = (page_of f (tbl 0) s, ss')"
    using f p put by (simp add: ListEventPage_def trim_space_empty runes_def)
  have "slice_start f s = Some 0" using f by (simp add: slice_start_def)
  from page_of_slice[OF tok _ this] sub obtain evs where
    pg: "page_of f (tbl 0) s = Inr (evs, \<lparr>lp_Snapshot = es_ID s, lp_Matched = int (length ?ids),
      lp_Offset = 0, lp_HasMore = (?l < length ?ids)\<rparr>)" and e: "map ev_ID evs = take ?l ?ids"
    by (auto simp: s)
  show ?thesis
  proof (cases "?l < length ?ids")
    case True
    have l: "ev_ID (last evs) = ?ids ! (?l - 1)" using last_slice[of evs ?l 0 ?ids] e True f by simp
    have "follow n' random clk tbl others (f\<lparr>ef_AfterID := es_IDs s ! (?l - 1), ef_Snapshot := es_ID s\<rparr>) (Suc 0) ss'
      = Inr (drop (Suc (?l - 1)) (es_IDs s))"
      by (rule follow_rest) (use walk d v f found True n len n' in \<open>auto simp: s\<close>)
    then have "follow n' random clk tbl others (f\<lparr>ef_AfterID := ?ids ! (?l - 1), ef_Snapshot := es_ID s\<rparr>) (Suc 0) ss'
      = Inr (drop ?l ?ids)" using f by (simp add: s)
    then show ?thesis using True by (simp add: n' step pg e l)
  next
    case False
    then have "take ?l ?ids = ?ids" by simp
    then show ?thesis using False by (simp add: n' step pg e)
  qed
qed

section \<open>The order of the timeline\<close>

definition after_key :: "('a \<Rightarrow> 'b :: linorder) \<Rightarrow> ('a \<Rightarrow> 'a \<Rightarrow> bool) \<Rightarrow> 'a \<Rightarrow> 'a \<Rightarrow> bool" where
  "after_key f R x y = (f x < f y \<or> f x = f y \<and> R x y)"

lemma insort_after_key:
  assumes "sorted_wrt (after_key f R) ys" "\<forall>y \<in> set ys. R x y"
  shows "sorted_wrt (after_key f R) (insort_key f x ys)"
  using assms
proof (induction ys)
  case (Cons y ys)
  show ?case
  proof (cases "f x \<le> f y")
    case True
    have "after_key f R x z" if "z \<in> set (y # ys)" for z
      using Cons.prems True that by (fastforce simp: after_key_def)
    then show ?thesis using Cons.prems True by simp
  next
    case False
    then have "after_key f R y z" if "z \<in> set (insort_key f x ys)" for z
      using Cons.prems that by (auto simp: after_key_def set_insort_key)
    then show ?thesis using Cons False by simp
  qed
qed simp

lemma sort_after_key: "sorted_wrt R xs \<Longrightarrow> sorted_wrt (after_key f R) (sort_key f xs)"
  by (induction xs) (auto intro: insort_after_key)

text \<open>Open events first, active before acknowledged; then the latest; then the larger identifier.\<close>

definition timeline_before :: "event \<Rightarrow> event \<Rightarrow> bool" where
  "timeline_before = after_key list_rank (after_key (\<lambda>e. - ev_LastObservedAt e) (\<lambda>a b. ev_ID b \<le> ev_ID a))"

lemma listEventIDs_rows:
  obtains rows where "listEventIDs p es = map ev_ID rows" "set rows = set (filter p es)" "length rows = length (filter p es)" "sorted_wrt timeline_before rows"
proof
  let ?r = "rev (sort_key ev_ID (filter p es))"
  have "sorted_wrt (\<lambda>a b. ev_ID b \<le> ev_ID a) ?r"
    using sorted_sort_key[of ev_ID "filter p es"] by (simp add: sorted_wrt_rev sorted_map)
  from sort_after_key[OF sort_after_key[OF this, of "\<lambda>e. - ev_LastObservedAt e"], of list_rank]
  show "sorted_wrt timeline_before (sort_key list_rank (sort_key (\<lambda>e. - ev_LastObservedAt e) ?r))"
    by (simp only: timeline_before_def)
qed (simp_all add: listEventIDs_def)

section \<open>The table of snapshots\<close>

lemma drop_oldest_distinct: "distinct (map es_ID ss) \<Longrightarrow> distinct (map es_ID (drop_oldest ss))"
  by (simp add: drop_oldest_def distinct_map_filter split: option.splits)

lemma evict_bound: "length (evict ss) < eventSnapshotLimit"
proof (induction ss rule: evict.induct)
  case (1 ss)
  then show ?case by (subst evict.simps) simp
qed

lemma evict_under: "length ss < eventSnapshotLimit \<Longrightarrow> evict ss = ss"
  by (subst evict.simps) simp

text \<open>What eviction drops is no younger than what it keeps.\<close>

lemma evict_oldest:
  "distinct (map es_ID ss) \<Longrightarrow> x \<in> set ss \<Longrightarrow> x \<notin> set (evict ss) \<Longrightarrow> y \<in> set (evict ss) \<Longrightarrow> es_CreatedAt x \<le> es_CreatedAt y"
proof (induction ss rule: evict.induct)
  case (1 ss)
  show ?case
  proof (cases "eventSnapshotLimit \<le> length ss")
    case False
    then show ?thesis using 1 by (simp add: evict_under)
  next
    case True
    then have ev: "evict ss = evict (drop_oldest ss)" by (subst evict.simps) simp
    have "ss \<noteq> []" using 1 by auto
    then obtain b where b: "oldest None ss = Some b" "b \<in> set ss" "\<forall>s \<in> set ss. es_CreatedAt b \<le> es_CreatedAt s"
      by (rule oldest_None)
    have y: "y \<in> set ss" using 1(5) evict_keeps[of "drop_oldest ss"]
      by (auto simp: ev drop_oldest_def b split: option.splits)
    show ?thesis
    proof (cases "x = b")
      case True
      then show ?thesis using b y by simp
    next
      case False
      then have "es_ID x \<noteq> es_ID b" using 1(2,3) b(2) by (auto simp: distinct_map inj_on_def)
      then have "x \<in> set (drop_oldest ss)" using 1(3) by (simp add: drop_oldest_def b)
      then show ?thesis using 1 True drop_oldest_distinct ev by simp
    qed
  qed
qed

lemma put_snapshot:
  assumes put: "putEventSnapshot random now hid st ids ss = (s, ss')" and d: "distinct (map es_ID ss)"
    and new: "\<forall>x \<in> set ss. es_ID x \<noteq> ''snap_'' @ random"
  shows "length ss' \<le> eventSnapshotLimit \<and> distinct (map es_ID ss') \<and> s \<in> set ss'
    \<and> (length ss < eventSnapshotLimit \<longrightarrow> (\<forall>x \<in> set ss. now - es_CreatedAt x \<le> eventSnapshotTTL \<longrightarrow> x \<in> set ss'))
    \<and> (\<forall>x \<in> set ss. x \<notin> set ss' \<longrightarrow> now - es_CreatedAt x > eventSnapshotTTL
         \<or> (\<forall>y \<in> set ss'. y \<noteq> s \<longrightarrow> es_CreatedAt x \<le> es_CreatedAt y))"
proof -
  define live where "live = filter (\<lambda>s. \<not> now - es_CreatedAt s > eventSnapshotTTL) ss"
  have i: "es_ID s = ''snap_'' @ random" using put_find[OF put] by simp
  have sub: "set (evict live) \<subseteq> set ss" using evict_keeps[of live] by (auto simp: live_def)
  then have keep: "filter (\<lambda>x. es_ID x \<noteq> es_ID s) (evict live) = evict live"
    using new i by (auto simp: filter_id_conv)
  have ss': "ss' = evict live @ [s]"
    using put keep by (auto simp: putEventSnapshot_def Let_def live_def)
  have dl: "distinct (map es_ID live)" using d by (simp add: live_def distinct_map_filter)
  have de: "distinct (map es_ID (evict live))"
    using dl by (induction live rule: evict.induct) (subst evict.simps, simp add: drop_oldest_distinct)
  have "s \<notin> set ss" using new i by auto
  have one: "length ss' \<le> eventSnapshotLimit" using evict_bound[of live] by (simp add: ss')
  have two: "distinct (map es_ID ss')" using de sub new i by (auto simp: ss')
  have three: "x \<in> set ss'" if "length ss < eventSnapshotLimit" "x \<in> set ss" "now - es_CreatedAt x \<le> eventSnapshotTTL" for x
  proof -
    have "length live < eventSnapshotLimit" using that(1) length_filter_le[of _ ss] unfolding live_def by (rule le_less_trans[rotated])
    then show ?thesis using that by (simp add: ss' evict_under) (simp add: live_def)
  qed
  have four: "es_CreatedAt x \<le> es_CreatedAt y"
    if "x \<in> set ss" "x \<notin> set ss'" "\<not> now - es_CreatedAt x > eventSnapshotTTL" "y \<in> set ss'" "y \<noteq> s" for x y
    using evict_oldest[OF dl, of x y] that by (auto simp: ss' live_def)
  show ?thesis using one two three four by (auto simp: ss')
qed

section \<open>Properties\<close>


text \<open>A new snapshot is in the table, the table stays within its limit, a live snapshot leaves it only when
  the table is full, and then only the oldest ones leave.\<close>

theorem snapshot_table_bounded:
  assumes "putEventSnapshot random now hid st ids ss = (s, ss')" "distinct (map es_ID ss)"
    and "\<forall>x \<in> set ss. es_ID x \<noteq> ''snap_'' @ random"
  shows "length ss' \<le> eventSnapshotLimit \<and> distinct (map es_ID ss') \<and> s \<in> set ss'
    \<and> (length ss < eventSnapshotLimit \<longrightarrow> (\<forall>x \<in> set ss. now - es_CreatedAt x \<le> eventSnapshotTTL \<longrightarrow> x \<in> set ss'))
    \<and> (\<forall>x \<in> set ss. x \<notin> set ss' \<longrightarrow> now - es_CreatedAt x > eventSnapshotTTL
         \<or> (\<forall>y \<in> set ss'. y \<noteq> s \<longrightarrow> es_CreatedAt x \<le> es_CreatedAt y))"
  by (rule put_snapshot[OF assms])

section \<open>Witnesses\<close>

definition two_rows :: "nat \<Rightarrow> event list" where
  "two_rows k = [if k = 0 then sample_event else sample_event\<lparr>ev_State := EventAcknowledged, ev_AcknowledgedAt := Some 8\<rparr>,
     sample_event\<lparr>ev_ID := ''evt_2'', ev_DedupeKey := ''web-2:resource:load''\<rparr>]"

definition first_page :: event_filter where
  "first_page = \<lparr>ef_HostID = [], ef_State = ''ongoing'', ef_Limit = 1, ef_Offset = 0, ef_AfterID = [], ef_Snapshot = []\<rparr>"

lemma two_rows_ok: "table_ok (two_rows k)" "map ev_ID (two_rows k) = [''evt_1'', ''evt_2'']"
  by (simp_all add: two_rows_def table_ok_def validateEvent_ok validateEventState_ok validateEventSignal_ok
      event_signal_of_def sample_event_def valid_identifier_ascii ascii_eval validSeverity_def has_prefix_def)

lemma sample_snapshot_id: "validEventSnapshotID (''snap_'' @ replicate 32 CHR ''a'')"
  by (simp add: validEventSnapshotID_def has_prefix_def byte_def list_all_iff)

lemma plain_ids: "trim_space ''evt_1'' = ''evt_1''" "trim_space ''evt_2'' = ''evt_2''"
  by (simp_all add: trim_space_def trim_chunks_def rune_chunks_ascii ascii_def byte_def is_space_def)

definition ongoing_row :: "event \<Rightarrow> bool" where
  "ongoing_row e = (ev_State e = EventActive \<or> ev_State e = EventAcknowledged)"

lemma first_where: "eventWhere (ef_HostID first_page) (ef_State first_page) = Inr ongoing_row"
  by (simp add: eventWhere_def first_page_def eventStatePredicate_def ongoing_row_def fun_eq_iff)

lemma two_walk: "walk_ok (\<lambda>k. 5) two_rows (\<lambda>_ ss. ss) 5 (listEventIDs ongoing_row (two_rows 0)) i"
proof -
  have "set (listEventIDs ongoing_row (two_rows 0)) \<subseteq> {''evt_1'', ''evt_2''}"
    using two_rows_ok(2)[of 0] by (auto simp: listEventIDs_def two_rows_def sample_event_def)
  moreover have "ev_ID ` set (two_rows k) = {''evt_1'', ''evt_2''}" for k
    using two_rows_ok(2)[of k] by (metis list.set(1,2) list.set_map)
  ultimately show ?thesis using two_rows_ok(1) plain_ids by (auto simp: walk_ok_def eventSnapshotTTL_def)
qed


theorem snapshot_table_bounded_witness:
  "\<exists>s ss'. putEventSnapshot (replicate 32 CHR ''a'') 9 [] [] [] [] = (s, ss') \<and> length ss' \<le> eventSnapshotLimit \<and> s \<in> set ss'"
proof -
  obtain s ss' where p: "putEventSnapshot (replicate 32 CHR ''a'') 9 [] [] [] [] = (s, ss')" by fastforce
  from snapshot_table_bounded[OF p] p show ?thesis by simp
qed

end
