(* ===== verification/Service_Views.thy ===== *)
theory Service_Views
  imports Hub_Store "HOL-Library.Multiset"
begin

text \<open>
  What the console shows of the services (\<^verbatim>\<open>internal/hub/types.go\<close>): every observed service joined with
  its annotation, with the links that can be followed, and the summaries of the agents
  (\<^verbatim>\<open>internal/hub/server.go\<close>: \<^verbatim>\<open>agents\<close>, \<^verbatim>\<open>services\<close>, \<^verbatim>\<open>sortByExposure\<close>).
\<close>

section \<open>Links\<close>

text \<open>\<^verbatim>\<open>url.URL.String\<close> on a scheme, an authority and a path that starts with a slash or is not \<^verbatim>\<open>*\<close>:
  the bytes that are not allowed as they are become \<^verbatim>\<open>%XX\<close>.\<close>

definition upper_hex :: "nat \<Rightarrow> char" where
  "upper_hex n = (if n < 10 then char_of (48 + n) else char_of (55 + n))"

definition percent :: "(char \<Rightarrow> bool) \<Rightarrow> string \<Rightarrow> string" where
  "percent allowed s = concat (map (\<lambda>c. if allowed c then [c]
     else [CHR ''%'', upper_hex (byte c div 16), upper_hex (byte c mod 16)]) s)"

definition host_char :: "char \<Rightarrow> bool" where
  "host_char c = (alnum c \<or> c \<in> set (CHR 0x22 # CHR 0x27 # ''-_.~!$&()*+,;=:[]<>''))"

definition path_char :: "char \<Rightarrow> bool" where
  "path_char c = (alnum c \<or> c \<in> set ''-_.~$&+,/:;=@'')"

definition url_text :: "string \<Rightarrow> string \<Rightarrow> string \<Rightarrow> string" where
  "url_text scheme host path = scheme @ ''://'' @ percent host_char host @
     (if path \<noteq> [] \<and> hd path \<noteq> CHR ''/'' then ''/'' else []) @ percent path_char path"

definition proxyRouteURL :: "wire_route \<Rightarrow> string \<Rightarrow> string" where
  "proxyRouteURL route publicHost =
     (let host = (if wr_Host route = [] then publicHost else wr_Host route) in
      if host = [] \<or> contains host ''*'' \<or> (wr_Scheme route \<noteq> ''http'' \<and> wr_Scheme route \<noteq> ''https'')
         \<or> wr_Port route < 1 \<or> wr_Port route > 65535 then []
      else
        let authority =
              (if (wr_Scheme route = ''http'' \<and> wr_Port route \<noteq> 80) \<or> (wr_Scheme route = ''https'' \<and> wr_Port route \<noteq> 443)
               then join_host_port host (itoa (wr_Port route))
               else if contains host '':'' then ''['' @ host @ '']'' else host);
            path = takeWhile (\<lambda>c. c \<noteq> CHR ''*'' \<and> c \<noteq> CHR ''{'') (wr_Path route)
        in url_text (wr_Scheme route) authority (if path = [] then ''/'' else path))"

definition webPortScheme :: "int \<Rightarrow> string option" where
  "webPortScheme p =
     (if p = 443 \<or> p = 8443 \<or> p = 9443 then Some ''https''
      else if p = 80 \<or> p = 3000 \<or> p = 5000 \<or> p = 8000 \<or> p = 8080 \<or> p = 8888 then Some ''http'' else None)"

definition best_port :: "int \<Rightarrow> port \<Rightarrow> int" where
  "best_port best p = (if webPortScheme (po_Port p) \<noteq> None \<and> (best = 0 \<or> po_Port p < best) then po_Port p else best)"

definition guessURL :: "service \<Rightarrow> string \<Rightarrow> string" where
  "guessURL s publicHost =
     (if publicHost = [] then []
      else case find (\<lambda>p. po_Port p = 80 \<or> po_Port p = 443) (sv_Ports s) of
        Some p \<Rightarrow> (if po_Port p = 80 then ''http://'' @ publicHost else ''https://'' @ publicHost)
      | None \<Rightarrow>
          let best = foldl best_port 0 (sv_Ports s) in
          if best \<noteq> 0 then the (webPortScheme best) @ ''://'' @ publicHost @ '':'' @ itoa best else [])"

section \<open>The join\<close>

record route_view =
  rv_Route :: wire_route
  rv_URL :: string

record service_view =
  vw_Service :: service
  vw_Routes :: "route_view list"
  vw_Alias :: string
  vw_URL :: string
  vw_Hidden :: bool
  vw_Notes :: string

definition proxyRouteRank :: "route_view \<Rightarrow> nat" where
  "proxyRouteRank r =
     (if wr_Host (rv_Route r) = [] then 4 else 0) + (if wr_Scheme (rv_Route r) \<noteq> ''https'' then 2 else 0)
     + (if wr_Path (rv_Route r) \<noteq> ''/'' then 1 else 0)"

definition route_views :: "string \<Rightarrow> wire_route list \<Rightarrow> route_view list" where
  "route_views publicHost routes =
     sort_key proxyRouteRank (sort_key rv_URL (map (\<lambda>r. \<lparr>rv_Route = r, rv_URL = proxyRouteURL r publicHost\<rparr>) routes))"

text \<open>A key without an annotation reads the zero annotation.\<close>

definition no_annotation :: hub_annotation where
  "no_annotation = \<lparr>ha_Key = [], ha_AgentID = [], ha_Alias = [], ha_URL = [], ha_Hidden = False, ha_Notes = []\<rparr>"

definition service_link :: "hub_annotation \<Rightarrow> route_view list \<Rightarrow> service \<Rightarrow> string \<Rightarrow> string" where
  "service_link a routes s publicHost =
     (if ha_URL a \<noteq> [] then ha_URL a
      else case find (\<lambda>r. rv_URL r \<noteq> []) routes of
        Some r \<Rightarrow> rv_URL r
      | None \<Rightarrow> guessURL s publicHost)"

definition join_service :: "(string \<rightharpoonup> hub_annotation) \<Rightarrow> string \<Rightarrow> service \<Rightarrow> service_view" where
  "join_service ann publicHost s =
     (let a = (case ann (sv_Key s) of None \<Rightarrow> no_annotation | Some a \<Rightarrow> a); routes = route_views publicHost (sv_Routes s) in
      \<lparr>vw_Service = s, vw_Routes = routes, vw_Alias = ha_Alias a, vw_URL = service_link a routes s publicHost,
       vw_Hidden = ha_Hidden a, vw_Notes = ha_Notes a\<rparr>)"

definition JoinServices :: "service list \<Rightarrow> (string \<rightharpoonup> hub_annotation) \<Rightarrow> string \<Rightarrow> service_view list" where
  "JoinServices services ann publicHost = map (join_service ann publicHost) services"

section \<open>The order of the services\<close>

text \<open>A key that the map \<^verbatim>\<open>rank\<close> does not hold reads 0.\<close>

definition exposure_order :: "service_view \<Rightarrow> nat" where
  "exposure_order v = (let e = sv_MaxExposure (vw_Service v) in
     if e = ExposureOther then 1 else if e = ExposureTailnet then 2 else if e = ExposureLocal then 3 else 0)"

fun sift :: "nat \<Rightarrow> service_view list \<Rightarrow> service_view list" where
  "sift 0 vs = vs"
| "sift (Suc j) vs =
     (if exposure_order (vs ! Suc j) < exposure_order (vs ! j)
      then sift j (vs[Suc j := vs ! j, j := vs ! Suc j]) else vs)"

definition sortByExposure :: "service_view list \<Rightarrow> service_view list" where
  "sortByExposure vs = foldl (\<lambda>sorted i. sift i sorted) vs [1..<length vs]"

section \<open>The pages of the agents and of the services\<close>

record agent_summary =
  sm_ID :: string
  sm_Name :: string
  sm_Online :: bool
  sm_LastSeen :: "time option"
  sm_LastError :: string
  sm_ServiceCount :: int
  sm_PublicCount :: int
  sm_CPUs :: int
  sm_Load1 :: float64
  sm_MemUsedPct :: int
  sm_DiskUsedPct :: int

definition rootDisk :: "wire_disk list \<Rightarrow> wire_disk option" where
  "rootDisk disks = find (\<lambda>d. wd_Mount d = ''/'') disks"

text \<open>\<^verbatim>\<open>int(used * 100 / total)\<close> on \<^verbatim>\<open>int64\<close>: the product wraps around.\<close>

definition wrap64 :: "int \<Rightarrow> int" where
  "wrap64 n = (n + 2 ^ 63) mod 2 ^ 64 - 2 ^ 63"

definition percent64 :: "int \<Rightarrow> int \<Rightarrow> int" where
  "percent64 used tot = go_quot (wrap64 (used * 100)) tot"

definition agent_summary_of :: "agent_snapshot \<Rightarrow> agent_summary" where
  "agent_summary_of sn =
     (let services = (case sn_Services sn of None \<Rightarrow> [] | Some ss \<Rightarrow> ss) in
      \<lparr>sm_ID = sn_ID sn, sm_Name = sn_Name sn, sm_Online = sn_Online sn, sm_LastSeen = sn_LastSeen sn,
       sm_LastError = sn_LastError sn, sm_ServiceCount = int (length services),
       sm_PublicCount = int (affected (\<lambda>s. sv_MaxExposure s = ExposurePublic) services),
       sm_CPUs = (case sn_Status sn of None \<Rightarrow> 0 | Some st \<Rightarrow> la_CPUs (st_Load st)),
       sm_Load1 = (case sn_Status sn of None \<Rightarrow> Fin 0 | Some st \<Rightarrow> la_One (st_Load st)),
       sm_MemUsedPct = (case sn_Status sn of None \<Rightarrow> 0 | Some st \<Rightarrow>
          if wm_TotalBytes (st_Memory st) > 0 then percent64 (wm_UsedBytes (st_Memory st)) (wm_TotalBytes (st_Memory st)) else 0),
       sm_DiskUsedPct = (case sn_Status sn of None \<Rightarrow> 0 | Some st \<Rightarrow>
          (case rootDisk (st_Disks st) of None \<Rightarrow> 0
           | Some d \<Rightarrow> if wd_TotalBytes d > 0 then percent64 (wd_UsedBytes d) (wd_TotalBytes d) else 0))\<rparr>)"

definition agents_page :: "mem_store \<Rightarrow> agent_summary list" where
  "agents_page m = map agent_summary_of (mem_Snapshot m)"

record agent_services =
  gs_Snapshot :: agent_snapshot
  gs_Services :: "service_view list"

text \<open>\<open>hostByID\<close> is a map written in the order of the agents: the last one of an id counts.\<close>

definition host_by_id :: "agent_config list \<Rightarrow> string \<Rightarrow> string" where
  "host_by_id agents i = (case map_of (rev (map (\<lambda>a. (ac_ID a, ac_PublicHost a)) agents)) i of None \<Rightarrow> [] | Some h \<Rightarrow> h)"

definition services_page :: "string \<Rightarrow> mem_store \<Rightarrow> agent_services list" where
  "services_page agentID m =
     map (\<lambda>sn. \<lparr>gs_Snapshot = sn,
            gs_Services = sortByExposure (JoinServices (case sn_Services sn of None \<Rightarrow> [] | Some ss \<Rightarrow> ss)
              (mm_anns m (sn_ID sn)) (host_by_id (mm_agents m) (sn_ID sn)))\<rparr>)
       (filter (\<lambda>sn. agentID = [] \<or> sn_ID sn = agentID) (mem_Snapshot m))"

section \<open>The insertion sort is the stable sort\<close>

lemma sift_prefix:
  assumes "sorted (map exposure_order ys)"
  shows "sift (length ys) (ys @ x # zs) =
    takeWhile (\<lambda>y. exposure_order y \<le> exposure_order x) ys @ x # dropWhile (\<lambda>y. exposure_order y \<le> exposure_order x) ys @ zs"
  using assms
proof (induction ys arbitrary: zs rule: rev_induct)
  case (snoc y ys)
  have s: "sorted (map exposure_order ys)" "\<forall>z \<in> set ys. exposure_order z \<le> exposure_order y"
    using snoc.prems by (auto simp: sorted_append)
  show ?case
  proof (cases "exposure_order x < exposure_order y")
    case True
    have "sift (length (ys @ [y])) ((ys @ [y]) @ x # zs) = sift (length ys) (ys @ x # y # zs)"
      using True by (simp add: nth_append list_update_append)
    also have "\<dots> = takeWhile (\<lambda>y. exposure_order y \<le> exposure_order x) ys @ x #
        dropWhile (\<lambda>y. exposure_order y \<le> exposure_order x) ys @ y # zs" by (rule snoc.IH[OF s(1)])
    finally show ?thesis using True
      by (cases "\<forall>z \<in> set ys. exposure_order z \<le> exposure_order x")
        (auto simp: takeWhile_append dropWhile_append not_le)
  next
    case False
    then have "\<forall>z \<in> set (ys @ [y]). exposure_order z \<le> exposure_order x" using s(2) by auto
    then show ?thesis using False by (simp add: nth_append takeWhile_eq_all_conv[THEN iffD2] dropWhile_eq_Nil_conv[THEN iffD2])
  qed
qed simp

lemma sort_key_snoc:
  fixes f :: "'a \<Rightarrow> 'b :: linorder"
  shows "sort_key f (ys @ [x]) = takeWhile (\<lambda>y. f y \<le> f x) (sort_key f ys) @ x # dropWhile (\<lambda>y. f y \<le> f x) (sort_key f ys)"
proof (rule properties_for_sort_key)
  let ?s = "sort_key f ys"
  let ?t = "takeWhile (\<lambda>y. f y \<le> f x) ?s" and ?d = "dropWhile (\<lambda>y. f y \<le> f x) ?s"
  have td: "?t @ ?d = ?s" by simp
  have srt: "sorted (map f ?s)" by simp
  have big: "\<forall>y \<in> set ?d. f x < f y"
  proof (cases ?d)
    case (Cons d ds)
    have "sorted (map f (d # ds))" using srt td Cons by (metis map_append sorted_append)
    moreover have "f x < f d" using hd_dropWhile[of "\<lambda>y. f y \<le> f x" ?s] Cons by (auto simp: not_le)
    ultimately show ?thesis unfolding Cons by auto
  next
    case Nil
    show ?thesis unfolding Nil by simp
  qed
  have "mset ?t + mset ?d = mset ys" using arg_cong[OF td, of mset] by (simp only: mset_append mset_sort)
  then show "mset (?t @ x # ?d) = mset (ys @ [x])" by simp
  show "filter (\<lambda>y. f k = f y) (?t @ x # ?d) = filter (\<lambda>y. f k = f y) (ys @ [x])" if "k \<in> set (?t @ x # ?d)" for k
  proof -
    have "filter (\<lambda>y. f k = f y) ?s = filter (\<lambda>y. f k = f y) ys" using sort_key_stable[of f "f k" ys] by (simp add: eq_commute)
    then have "filter (\<lambda>y. f k = f y) ?t @ filter (\<lambda>y. f k = f y) ?d = filter (\<lambda>y. f k = f y) ys"
      using td by (metis filter_append)
    moreover have "f k = f x \<Longrightarrow> filter (\<lambda>y. f k = f y) ?d = []" using big by (auto simp: filter_empty_conv)
    ultimately show ?thesis by auto
  qed
  have "sorted (map f (?t @ ?d))" unfolding td by simp
  then have "sorted (map f ?t)" "sorted (map f ?d)" by (simp_all only: map_append sorted_append)
  moreover have "\<forall>y \<in> set ?t. f y \<le> f x" by (auto dest: set_takeWhileD)
  ultimately show "sorted (map f (?t @ x # ?d))"
    using big by (fastforce simp: sorted_append)
qed

lemma sift_step:
  assumes "i < length vs"
  shows "sift i (sort_key exposure_order (take i vs) @ drop i vs) = sort_key exposure_order (take (Suc i) vs) @ drop (Suc i) vs"
proof -
  let ?s = "sort_key exposure_order (take i vs)"
  have "sift (length ?s) (?s @ vs ! i # drop (Suc i) vs) =
    takeWhile (\<lambda>y. exposure_order y \<le> exposure_order (vs ! i)) ?s @ vs ! i #
    dropWhile (\<lambda>y. exposure_order y \<le> exposure_order (vs ! i)) ?s @ drop (Suc i) vs"
    by (rule sift_prefix) simp
  moreover have "length ?s = i" using assms by simp
  ultimately show ?thesis
    using assms sort_key_snoc[of exposure_order "take i vs" "vs ! i"]
    by (simp add: take_Suc_conv_app_nth Cons_nth_drop_Suc[symmetric])
qed

lemma sortByExposure_is: "sortByExposure vs = sort_key exposure_order vs"
proof -
  have "n \<le> length vs \<Longrightarrow> 1 \<le> n \<Longrightarrow>
    foldl (\<lambda>sorted i. sift i sorted) vs [1..<n] = sort_key exposure_order (take n vs) @ drop n vs" for n
  proof (induction n)
    case (Suc n)
    show ?case
    proof (cases "n = 0")
      case True
      then show ?thesis using Suc.prems by (cases vs) auto
    next
      case False
      then have "foldl (\<lambda>sorted i. sift i sorted) vs [1..<Suc n] = sift n (sort_key exposure_order (take n vs) @ drop n vs)"
        using Suc by simp
      then show ?thesis using Suc.prems sift_step[of n vs] by simp
    qed
  qed simp
  from this[of "length vs"] show ?thesis by (cases vs) (auto simp: sortByExposure_def)
qed

section \<open>Which links are shown\<close>

definition web_port :: "int \<Rightarrow> bool" where "web_port p \<longleftrightarrow> webPortScheme p \<noteq> None"

lemma web_port_pos: "web_port p \<Longrightarrow> 0 < p"
  by (auto simp: web_port_def webPortScheme_def split: if_splits)

text \<open>After the first web port, the fold is a minimum.\<close>

lemma best_port_min:
  "web_port b \<Longrightarrow> web_port (foldl best_port b ps) \<and> foldl best_port b ps \<le> b
    \<and> (foldl best_port b ps = b \<or> foldl best_port b ps \<in> po_Port ` set ps)
    \<and> (\<forall>p \<in> set ps. web_port (po_Port p) \<longrightarrow> foldl best_port b ps \<le> po_Port p)"
proof (induction ps arbitrary: b)
  case (Cons p ps)
  have b: "b \<noteq> 0" using web_port_pos[OF Cons.prems] by simp
  have step: "best_port b p = (if web_port (po_Port p) \<and> po_Port p < b then po_Port p else b)"
    using b by (simp add: best_port_def web_port_def)
  show ?case
  proof (cases "web_port (po_Port p) \<and> po_Port p < b")
    case True
    then show ?thesis using Cons.IH[of "po_Port p"] step by force
  next
    case False
    then show ?thesis using Cons.IH[OF Cons.prems] step by force
  qed
qed simp

lemma best_port_fold:
  assumes "foldl best_port 0 ps \<noteq> 0"
  shows "\<exists>p \<in> set ps. foldl best_port 0 ps = po_Port p \<and> web_port (po_Port p)
    \<and> (\<forall>q \<in> set ps. web_port (po_Port q) \<longrightarrow> po_Port p \<le> po_Port q)"
  using assms
proof (induction ps)
  case (Cons p ps)
  have step: "best_port 0 p = (if web_port (po_Port p) then po_Port p else 0)"
    by (simp add: best_port_def web_port_def)
  show ?case
  proof (cases "web_port (po_Port p)")
    case True
    then show ?thesis using best_port_min[OF True, of ps] step by auto
  next
    case False
    then show ?thesis using Cons step by auto
  qed
qed simp

lemma guess_cases:
  assumes "guessURL s h \<noteq> []"
  obtains p scheme where "p \<in> set (sv_Ports s)" "webPortScheme (po_Port p) = Some scheme"
    "guessURL s h = scheme @ ''://'' @ h \<and> po_Port p \<in> {80, 443} \<or>
     guessURL s h = scheme @ ''://'' @ h @ '':'' @ itoa (po_Port p) \<and>
       (\<forall>q \<in> set (sv_Ports s). po_Port q \<noteq> 80 \<and> po_Port q \<noteq> 443 \<and> (web_port (po_Port q) \<longrightarrow> po_Port p \<le> po_Port q))"
proof (cases "find (\<lambda>p. po_Port p = 80 \<or> po_Port p = 443) (sv_Ports s)")
  case (Some p)
  from find_SomeD[OF this] have p: "p \<in> set (sv_Ports s)" "po_Port p = 80 \<or> po_Port p = 443" by auto
  have h: "h \<noteq> []" using assms by (auto simp: guessURL_def)
  show ?thesis
    using that[OF p(1), of "if po_Port p = 80 then ''http'' else ''https''"] p h Some
    by (auto simp: guessURL_def webPortScheme_def)
next
  case None
  let ?best = "foldl best_port 0 (sv_Ports s)"
  have h: "h \<noteq> []" "?best \<noteq> 0" using assms None by (auto simp: guessURL_def Let_def split: if_splits)
  from best_port_fold[OF h(2)] obtain p where
    p: "p \<in> set (sv_Ports s)" "?best = po_Port p" "web_port (po_Port p)"
    "\<forall>q \<in> set (sv_Ports s). web_port (po_Port q) \<longrightarrow> po_Port p \<le> po_Port q" by blast
  from p(3) obtain scheme where sc: "webPortScheme (po_Port p) = Some scheme" by (auto simp: web_port_def)
  have g: "guessURL s h = scheme @ ''://'' @ h @ '':'' @ itoa (po_Port p)"
    using None h p sc by (simp add: guessURL_def Let_def)
  have "\<forall>q \<in> set (sv_Ports s). po_Port q \<noteq> 80 \<and> po_Port q \<noteq> 443 \<and> (web_port (po_Port q) \<longrightarrow> po_Port p \<le> po_Port q)"
    using find_NoneD[OF None] p(4) by blast
  then show ?thesis using that[OF p(1) sc] g by blast
qed

definition http_link :: "string \<Rightarrow> bool" where
  "http_link u \<longleftrightarrow> has_prefix u ''http://'' \<or> has_prefix u ''https://''"

lemma http_link_text: "sch = ''http'' \<or> sch = ''https'' \<Longrightarrow> http_link (sch @ ''://'' @ t)"
  unfolding http_link_def has_prefix_iff by auto

lemma url_text_http: "sch = ''http'' \<or> sch = ''https'' \<Longrightarrow> http_link (url_text sch a p)"
  unfolding url_text_def by (rule http_link_text)

lemma proxy_link: "proxyRouteURL r h \<noteq> [] \<Longrightarrow> http_link (proxyRouteURL r h)"
  by (auto simp: proxyRouteURL_def Let_def intro!: url_text_http split: if_splits)

lemma guess_link: "guessURL s h \<noteq> [] \<Longrightarrow> http_link (guessURL s h)"
proof (rule guess_cases[of s h])
  fix p scheme
  assume w: "webPortScheme (po_Port p) = Some scheme"
    and g: "guessURL s h = scheme @ ''://'' @ h \<and> po_Port p \<in> {80, 443} \<or>
     guessURL s h = scheme @ ''://'' @ h @ '':'' @ itoa (po_Port p) \<and>
       (\<forall>q \<in> set (sv_Ports s). po_Port q \<noteq> 80 \<and> po_Port q \<noteq> 443 \<and> (web_port (po_Port q) \<longrightarrow> po_Port p \<le> po_Port q))"
  have "scheme = ''http'' \<or> scheme = ''https''" using w by (auto simp: webPortScheme_def split: if_splits)
  note http_link_text[OF this]
  then show "http_link (guessURL s h)" using g by metis
qed

lemma route_views_props:
  "mset (map rv_Route (route_views h rs)) = mset rs" "r \<in> set (route_views h rs) \<Longrightarrow> rv_URL r = proxyRouteURL (rv_Route r) h"
  by (auto simp: route_views_def image_mset.compositionality comp_def)

lemma joined_link:
  assumes "v = join_service ann h s"
  shows "vw_URL v = [] \<or> (\<exists>a. ann (sv_Key s) = Some a \<and> vw_URL v = ha_URL a) \<or> http_link (vw_URL v)"
proof -
  define a where "a = (case ann (sv_Key s) of None \<Rightarrow> no_annotation | Some a \<Rightarrow> a)"
  have u: "vw_URL v = service_link a (route_views h (sv_Routes s)) s h"
    by (simp add: assms join_service_def a_def Let_def)
  show ?thesis
  proof (cases "ha_URL a = []")
    case False
    then have "ann (sv_Key s) = Some a" by (auto simp: a_def no_annotation_def split: option.splits)
    then show ?thesis using False by (simp add: u service_link_def)
  next
    case True
    show ?thesis
    proof (cases "find (\<lambda>r. rv_URL r \<noteq> []) (route_views h (sv_Routes s))")
      case None
      then show ?thesis using True guess_link[of s h] by (auto simp: u service_link_def)
    next
      case (Some r)
      from find_SomeD[OF this] have "http_link (rv_URL r)" using route_views_props(2)[of r h] proxy_link by metis
      then show ?thesis using True Some by (simp add: u service_link_def)
    qed
  qed
qed

section \<open>Properties\<close>

text \<open>The insertion sort of the services is the stable sort by exposure, public services first; an exposure
  the code does not know counts as public.\<close>

theorem sortByExposure_stable: "sortByExposure vs = sort_key exposure_order vs"
  by (rule sortByExposure_is)

text \<open>Every service is shown with all its routes, ordered by rank and link. A link set by the operator is the
  one shown; any other link that is shown is an http or https link.\<close>

theorem shown_links:
  assumes "v \<in> set (JoinServices services ann h)"
  shows "vw_Service v \<in> set services \<and> mset (map rv_Route (vw_Routes v)) = mset (sv_Routes (vw_Service v))
    \<and> sorted_wrt (lex_le proxyRouteRank rv_URL) (vw_Routes v)
    \<and> (case ann (sv_Key (vw_Service v)) of
         Some a \<Rightarrow> (if ha_URL a \<noteq> [] then vw_URL v = ha_URL a else vw_URL v = [] \<or> http_link (vw_URL v))
       | None \<Rightarrow> vw_URL v = [] \<or> http_link (vw_URL v))"
proof -
  obtain s where s: "s \<in> set services" "v = join_service ann h s" using assms by (auto simp: JoinServices_def)
  have f: "vw_Service v = s" "vw_Routes v = route_views h (sv_Routes s)" by (simp_all add: s(2) join_service_def Let_def)
  have "sorted_wrt (lex_le proxyRouteRank rv_URL) (vw_Routes v)"
    unfolding f route_views_def by (rule sort_lex)
  moreover have "ann (sv_Key s) = Some a \<Longrightarrow> ha_URL a \<noteq> [] \<Longrightarrow> vw_URL v = ha_URL a" for a
    by (simp add: s(2) join_service_def Let_def service_link_def)
  ultimately show ?thesis using joined_link[OF s(2)] s(1) route_views_props(1)[of h "sv_Routes s"]
    by (auto simp: f split: option.split)
qed

section \<open>A concrete service\<close>

definition nginx_service :: service where
  "nginx_service = \<lparr>sv_Key = ''docker:nginx'', sv_Kind = ''docker'', sv_Name = ''nginx'', sv_Status = ''running'', sv_Since = [],
     sv_Image = [], sv_Unit = [], sv_ComposeProject = [], sv_ComposeService = [], sv_Health = [], sv_PID = 7,
     sv_Ports = [\<lparr>po_Proto = ''tcp'', po_Port = 8080, po_Bind = ''0.0.0.0'', po_Exposure = ExposurePublic\<rparr>], sv_Routes = [],
     sv_Unidentified = False, sv_MaxExposure = ExposurePublic\<rparr>"

theorem shown_links_witness:
  "\<exists>v. JoinServices [nginx_service] (\<lambda>_. None) ''web.example.org'' = [v] \<and> (vw_URL v = [] \<or> http_link (vw_URL v))"
proof -
  let ?v = "join_service (\<lambda>_. None) ''web.example.org'' nginx_service"
  have j: "JoinServices [nginx_service] (\<lambda>_. None) ''web.example.org'' = [?v]" by (simp add: JoinServices_def)
  have "?v \<in> set (JoinServices [nginx_service] (\<lambda>_. None) ''web.example.org'')" unfolding j by simp
  from shown_links[OF this] j show ?thesis by simp
qed

end
