(* ===== verification/Link_Probe.thy ===== *)
theory Link_Probe
  imports Service_Views
begin

text \<open>
  The check of the registered Web links (\<^verbatim>\<open>internal/hub/link_probe.go\<close> and the handler \<^verbatim>\<open>linkChecks\<close> of
  \<^verbatim>\<open>internal/hub/server.go\<close>). What a server answers to the HEAD request, and how long it took, is a
  parameter; so is the text of a parsed URL whose empty path became a slash.
\<close>

section \<open>Targets\<close>

record web_link_target =
  tg_HostID :: host_id
  tg_WorkloadKey :: string
  tg_URL :: string

definition maxWebLinkProbeTargets :: nat where "maxWebLinkProbeTargets = 64"

definition candidate_urls :: "service_view \<Rightarrow> string list" where
  "candidate_urls v = vw_URL v # map rv_URL (vw_Routes v)"

definition link_target :: "url_parser \<Rightarrow> (parsed_url \<Rightarrow> string) \<Rightarrow> string \<Rightarrow> string \<Rightarrow> string \<Rightarrow> web_link_target option" where
  "link_target parse_url normal_url hid key candidate =
     (case parse_url candidate of
        None \<Rightarrow> None
      | Some p \<Rightarrow> if u_Host p = [] \<or> (u_Scheme p \<noteq> ''http'' \<and> u_Scheme p \<noteq> ''https'') \<or> u_HasUser p then None
          else Some \<lparr>tg_HostID = hid, tg_WorkloadKey = key, tg_URL = normal_url p\<rparr>)"

definition snapshot_targets ::
  "url_parser \<Rightarrow> (parsed_url \<Rightarrow> string) \<Rightarrow> mem_store \<Rightarrow> agent_snapshot \<Rightarrow> web_link_target list" where
  "snapshot_targets parse_url normal_url m sn =
     concat (map (\<lambda>v. List.map_filter (link_target parse_url normal_url (sn_ID sn) (sv_Key (vw_Service v))) (candidate_urls v))
       (JoinServices (case sn_Services sn of None \<Rightarrow> [] | Some ss \<Rightarrow> ss) (mm_anns m (sn_ID sn))
         (host_by_id (mm_agents m) (sn_ID sn))))"

text \<open>\<open>seen\<close> keeps the first of each; the targets are then sorted by all their fields.\<close>

fun first_seen :: "'a list \<Rightarrow> 'a list \<Rightarrow> 'a list" where
  "first_seen seen [] = []"
| "first_seen seen (x # xs) = (if x \<in> set seen then first_seen seen xs else x # first_seen (x # seen) xs)"

definition currentWebLinkTargets :: "url_parser \<Rightarrow> (parsed_url \<Rightarrow> string) \<Rightarrow> mem_store \<Rightarrow> web_link_target list" where
  "currentWebLinkTargets parse_url normal_url m =
     sort_key tg_HostID (sort_key tg_WorkloadKey (sort_key tg_URL
       (first_seen [] (concat (map (snapshot_targets parse_url normal_url m) (mem_Snapshot m))))))"

section \<open>Probes\<close>

datatype net_error = DeadlineExceeded | BadCertificate | DNSFailure | NetTimeout | OpFailure | OtherFailure

definition classifyWebLinkError :: "net_error \<Rightarrow> string" where
  "classifyWebLinkError e = (case e of DeadlineExceeded \<Rightarrow> ''timeout'' | BadCertificate \<Rightarrow> ''tls'' | DNSFailure \<Rightarrow> ''dns''
     | NetTimeout \<Rightarrow> ''timeout'' | OpFailure \<Rightarrow> ''connect'' | OtherFailure \<Rightarrow> ''network'')"

text \<open>No slot before the budget ended; no request could be made; an answer or an error after some milliseconds.\<close>

datatype probe_outcome = NoSlot | NoRequest | Answered int int | Broken net_error int

definition unreachableWebLinkCheck :: "web_link_target \<Rightarrow> time \<Rightarrow> int \<Rightarrow> string \<Rightarrow> web_link_check" where
  "unreachableWebLinkCheck t checkedAt latency kind =
     \<lparr>lc_HostID = tg_HostID t, lc_WorkloadKey = tg_WorkloadKey t, lc_URL = tg_URL t, lc_State = WebLinkUnreachable,
      lc_HTTPStatus = 0, lc_LatencyMS = latency, lc_ErrorKind = kind, lc_CheckedAt = checkedAt\<rparr>"

definition probeOne :: "probe_outcome \<Rightarrow> web_link_target \<Rightarrow> time \<Rightarrow> web_link_check" where
  "probeOne outcome t checkedAt = (case outcome of
       NoSlot \<Rightarrow> unreachableWebLinkCheck t checkedAt 0 ''timeout''
     | NoRequest \<Rightarrow> unreachableWebLinkCheck t checkedAt 0 ''request''
     | Broken e latency \<Rightarrow> unreachableWebLinkCheck t checkedAt latency (classifyWebLinkError e)
     | Answered status latency \<Rightarrow>
         \<lparr>lc_HostID = tg_HostID t, lc_WorkloadKey = tg_WorkloadKey t, lc_URL = tg_URL t,
          lc_State = (if status \<ge> 500 then WebLinkDegraded else WebLinkReachable), lc_HTTPStatus = status,
          lc_LatencyMS = latency, lc_ErrorKind = [], lc_CheckedAt = checkedAt\<rparr>)"

definition Probe :: "(web_link_target \<Rightarrow> probe_outcome) \<Rightarrow> web_link_target list \<Rightarrow> time \<Rightarrow> web_link_check list" where
  "Probe net targets checkedAt = map (\<lambda>t. probeOne (net t) t checkedAt) targets"

section \<open>The handler\<close>

record link_check_summary =
  ls_Total :: int
  ls_Reachable :: int
  ls_Degraded :: int
  ls_Unreachable :: int
  ls_CheckedAt :: "time option"

text \<open>The latest check is found on the texts of the instants in the source; here on the instants.\<close>

definition webLinkChecksResponse :: "web_link_check list \<Rightarrow> link_check_summary" where
  "webLinkChecksResponse checks =
     \<lparr>ls_Total = int (length checks), ls_Reachable = int (affected (\<lambda>c. lc_State c = WebLinkReachable) checks),
      ls_Degraded = int (affected (\<lambda>c. lc_State c = WebLinkDegraded) checks),
      ls_Unreachable = int (affected (\<lambda>c. lc_State c = WebLinkUnreachable) checks),
      ls_CheckedAt = foldl (\<lambda>latest c. case latest of None \<Rightarrow> Some (lc_CheckedAt c)
         | Some t \<Rightarrow> if lc_CheckedAt c > t then Some (lc_CheckedAt c) else Some t) None checks\<rparr>"

datatype link_reply = LinkRefused nat string | LinkChecks "web_link_check list" link_check_summary

text \<open>\<open>free\<close>: no other check is running.\<close>

definition linkChecks ::
  "url_parser \<Rightarrow> (parsed_url \<Rightarrow> string) \<Rightarrow> (web_link_target \<Rightarrow> probe_outcome) \<Rightarrow> time \<Rightarrow> bool \<Rightarrow> string \<Rightarrow> hub_store
   \<Rightarrow> link_reply \<times> hub_store" where
  "linkChecks parse_url normal_url net now free meth s =
     (if meth = ''GET'' then
        (case WebLinkChecks parse_url (hb_database s) of
           Inl e \<Rightarrow> (LinkRefused 500 ''link check persistence failed'', s)
         | Inr checks \<Rightarrow> (LinkChecks checks (webLinkChecksResponse checks), s))
      else if meth = ''POST'' then
        (if \<not> free then (LinkRefused 409 ''link check already running'', s)
         else
           let targets = currentWebLinkTargets parse_url normal_url (hb_runtime s) in
           if length targets > maxWebLinkProbeTargets then (LinkRefused 422 ''too many registered Web links'', s)
           else
             let checks = Probe net targets now in
             case ReplaceWebLinkChecks parse_url checks (hb_database s) of
               Inl e \<Rightarrow> (LinkRefused 500 ''link check persistence failed'', s)
             | Inr d \<Rightarrow> (LinkChecks checks (webLinkChecksResponse checks), s\<lparr>hb_database := d\<rparr>))
      else (LinkRefused 405 ''method not allowed'', s))"

section \<open>The targets\<close>

lemma first_seen_set: "set (first_seen seen xs) = set xs - set seen"
  by (induction seen xs rule: first_seen.induct) auto

lemma first_seen_distinct: "distinct (first_seen seen xs)"
  by (induction seen xs rule: first_seen.induct) (auto simp: first_seen_set)

definition target_key :: "web_link_target \<Rightarrow> string \<times> string \<times> string" where
  "target_key t = (tg_HostID t, tg_WorkloadKey t, tg_URL t)"

lemma target_key_inj: "inj target_key"
  by (auto simp: inj_def target_key_def)

lemma targets_distinct: "distinct (map target_key (currentWebLinkTargets parse_url normal_url m))"
  unfolding currentWebLinkTargets_def
  by (simp add: distinct_map first_seen_distinct inj_on_subset[OF target_key_inj])

lemma in_mapf: "x \<in> set (List.map_filter g xs) \<longleftrightarrow> (\<exists>y \<in> set xs. g y = Some x)"
  by (induction xs) (auto simp: List.map_filter_def split: option.splits)

lemma target_parsed:
  assumes "t \<in> set (currentWebLinkTargets parse_url normal_url m)"
  obtains candidate p where "parse_url candidate = Some p" "u_Host p \<noteq> []" "u_Scheme p = ''http'' \<or> u_Scheme p = ''https''"
    "\<not> u_HasUser p" "tg_URL t = normal_url p"
proof -
  from assms obtain sn where "t \<in> set (snapshot_targets parse_url normal_url m sn)"
    unfolding currentWebLinkTargets_def by (auto simp: first_seen_set)
  then obtain i k candidate where "link_target parse_url normal_url i k candidate = Some t"
    unfolding snapshot_targets_def by (fastforce simp: in_mapf)
  then show ?thesis using that
    by (auto simp: link_target_def split: option.splits if_splits)
qed

section \<open>When the checks are kept\<close>

text \<open>What the probes answered can be stored: a status below 600 and a latency of at most an hour.\<close>

definition outcome_ok :: "probe_outcome \<Rightarrow> bool" where
  "outcome_ok out \<longleftrightarrow> (case out of
       Answered status latency \<Rightarrow> 100 \<le> status \<and> status \<le> 599 \<and> 0 \<le> latency \<and> latency \<le> hour div millisecond
     | Broken e latency \<Rightarrow> 0 \<le> latency \<and> latency \<le> hour div millisecond
     | _ \<Rightarrow> True)"

definition target_ok :: "url_parser \<Rightarrow> db \<Rightarrow> web_link_target \<Rightarrow> bool" where
  "target_ok parse_url d t \<longleftrightarrow> valid_identifier (tg_HostID t) 128 \<and> valid_identifier (tg_WorkloadKey t) 512
     \<and> length (tg_URL t) \<le> 2048 \<and> absolute_http parse_url (tg_URL t) \<and> host_exists (db_hosts d) (tg_HostID t)"

lemma classify_kind: "length (classifyWebLinkError e) \<le> 64 \<and> valid_utf8 (classifyWebLinkError e) \<and> classifyWebLinkError e \<noteq> []"
  by (cases e) (simp_all add: classifyWebLinkError_def ascii_eval)

lemma probeOne_fields [simp]:
  "lc_HostID (probeOne out t now) = tg_HostID t" "lc_WorkloadKey (probeOne out t now) = tg_WorkloadKey t"
  "lc_URL (probeOne out t now) = tg_URL t" "lc_CheckedAt (probeOne out t now) = now"
  by (cases out; simp add: probeOne_def unreachableWebLinkCheck_def)+

lemma probeOne_state:
  assumes "outcome_ok out" shows "validateLinkState (probeOne out t now) = Inr ()"
    and "0 \<le> lc_LatencyMS (probeOne out t now)" "lc_LatencyMS (probeOne out t now) \<le> hour div millisecond"
    and "length (lc_ErrorKind (probeOne out t now)) \<le> 64" "valid_utf8 (lc_ErrorKind (probeOne out t now))"
  using assms classify_kind
  by (cases out; auto simp: probeOne_def unreachableWebLinkCheck_def outcome_ok_def validateLinkState_def ascii_eval)+

lemma probeOne_valid:
  assumes "outcome_ok out" "target_ok parse_url d t" "now \<noteq> 0"
  shows "validateWebLinkCheck parse_url (probeOne out t now) = Inr ()"
  using assms probeOne_state[OF assms(1)]
  by (simp add: validateWebLinkCheck_def andThen_ok target_ok_def not_less)

lemma link_state_row:
  "validateLinkState c = Inr () \<Longrightarrow> lc_State c \<in> {WebLinkReachable, WebLinkDegraded, WebLinkUnreachable}
    \<and> 0 \<le> lc_HTTPStatus c \<and> lc_HTTPStatus c \<le> 599"
  by (auto simp: validateLinkState_def split: if_splits)

lemma insert_all_checks:
  assumes "\<forall>c \<in> set cs. host_exists hosts (lc_HostID c) \<and> validateLinkState c = Inr () \<and> 0 \<le> lc_LatencyMS c"
    and "distinct (map (\<lambda>c. (lc_HostID c, lc_WorkloadKey c, lc_URL c)) (rows @ cs))"
  shows "each (insert_link_check hosts) cs rows = Inr (rows @ cs)"
  using assms
proof (induction cs arbitrary: rows)
  case (Cons c cs)
  have "\<not> list_ex (\<lambda>r. lc_HostID r = lc_HostID c \<and> lc_WorkloadKey r = lc_WorkloadKey c \<and> lc_URL r = lc_URL c) rows"
  proof -
    have "(lc_HostID c, lc_WorkloadKey c, lc_URL c) \<notin> (\<lambda>c. (lc_HostID c, lc_WorkloadKey c, lc_URL c)) ` set rows"
      using Cons.prems(2) by simp
    then show ?thesis unfolding list_ex_iff image_iff by force
  qed
  then have u: "guard ''UNIQUE constraint failed'' (list_ex (\<lambda>r. lc_HostID r = lc_HostID c \<and> lc_WorkloadKey r = lc_WorkloadKey c
      \<and> lc_URL r = lc_URL c) rows) = Inr ()" by simp
  have h: "host_exists hosts (lc_HostID c)" "validateLinkState c = Inr ()" "0 \<le> lc_LatencyMS c"
    using Cons.prems(1) by simp_all
  then have k: "\<not> (lc_State c \<notin> {WebLinkReachable, WebLinkDegraded, WebLinkUnreachable}
      \<or> lc_HTTPStatus c < 0 \<or> lc_HTTPStatus c > 599 \<or> lc_LatencyMS c < 0)" using link_state_row[OF h(2)] by linarith
  have "insert_link_check hosts c rows = Inr (rows @ [c])"
    unfolding insert_link_check_def u using h(1) k by (simp only: not_not guard_eval andThen_simps simp_thms)
  then show ?case using Cons.prems Cons.IH[of "rows @ [c]"] by simp
qed simp

lemma probe_distinct:
  "distinct (map target_key targets) \<Longrightarrow>
   distinct (map (\<lambda>c. (lc_HostID c, lc_WorkloadKey c, lc_URL c)) (Probe net targets now))"
  by (simp add: Probe_def comp_def target_key_def[abs_def])

lemma replace_probed:
  assumes t: "\<forall>t \<in> set targets. target_ok parse_url d t \<and> outcome_ok (net t)" and d: "distinct (map target_key targets)"
    and now: "now \<noteq> 0"
  shows "ReplaceWebLinkChecks parse_url (Probe net targets now) d = Inr (d\<lparr>db_link_checks := Probe net targets now\<rparr>)"
proof -
  have "each (insert_link_check (db_hosts d)) (Probe net targets now) [] = Inr ([] @ Probe net targets now)"
    by (rule insert_all_checks)
      (use t probe_distinct[OF d] probeOne_state in \<open>auto simp: Probe_def target_ok_def\<close>)
  moreover have "check_distinct ''duplicate Web link check'' (\<lambda>c. (lc_HostID c, lc_WorkloadKey c, lc_URL c))
      (validateWebLinkCheck parse_url) (\<lambda>_. Inr ()) [] (Probe net targets now) = Inr ()"
    using t probe_distinct[OF d] probeOne_valid[OF _ _ now]
    by (auto simp: check_distinct_ok Probe_def)
  ultimately show ?thesis by (simp add: ReplaceWebLinkChecks_def)
qed

text \<open>The answers to a request are the checks of the targets, and they are what a later request reads.\<close>

lemma linkChecks_stored:
  assumes "length (currentWebLinkTargets parse_url normal_url (hb_runtime s)) \<le> maxWebLinkProbeTargets" "now \<noteq> 0"
    and "\<forall>t \<in> set (currentWebLinkTargets parse_url normal_url (hb_runtime s)).
      target_ok parse_url (hb_database s) t \<and> outcome_ok (net t)"
  shows "\<exists>checks s' rows. linkChecks parse_url normal_url net now True ''POST'' s = (LinkChecks checks (webLinkChecksResponse checks), s')
    \<and> checks = Probe net (currentWebLinkTargets parse_url normal_url (hb_runtime s)) now
    \<and> linkChecks parse_url normal_url net2 now2 free2 ''GET'' s' = (LinkChecks rows (webLinkChecksResponse rows), s')
    \<and> mset rows = mset checks"
proof -
  let ?t = "currentWebLinkTargets parse_url normal_url (hb_runtime s)"
  let ?c = "Probe net ?t now"
  let ?s = "s\<lparr>hb_database := (hb_database s)\<lparr>db_link_checks := ?c\<rparr>\<rparr>"
  have r: "ReplaceWebLinkChecks parse_url ?c (hb_database s) = Inr ((hb_database s)\<lparr>db_link_checks := ?c\<rparr>)"
    by (rule replace_probed[OF assms(3) targets_distinct assms(2)])
  have p: "linkChecks parse_url normal_url net now True ''POST'' s = (LinkChecks ?c (webLinkChecksResponse ?c), ?s)"
    using assms(1) r by (simp add: linkChecks_def Let_def)
  let ?rows = "sort_key lc_HostID (sort_key lc_WorkloadKey (sort_key lc_URL ?c))"
  have "\<forall>c \<in> set ?c. validateWebLinkCheck parse_url c = Inr ()"
    using assms(3) probeOne_valid[OF _ _ assms(2)] by (auto simp: Probe_def)
  then have "WebLinkChecks parse_url (hb_database ?s) = Inr ?rows" by (simp add: WebLinkChecks_def check_all_Inr)
  then have "linkChecks parse_url normal_url net2 now2 free2 ''GET'' ?s = (LinkChecks ?rows (webLinkChecksResponse ?rows), ?s)"
    by (simp add: linkChecks_def)
  then show ?thesis using p by (intro exI[of _ ?c] exI[of _ ?s] exI[of _ ?rows]) simp
qed

text \<open>One server that answers with a status the validator does not know keeps every check from being stored.\<close>

lemma odd_status_invalid:
  assumes "out = Answered status latency" "status < 100 \<or> 599 < status"
  shows "validateWebLinkCheck parse_url (probeOne out t now) \<noteq> Inr ()"
proof -
  have "validateLinkState (probeOne out t now) \<noteq> Inr ()"
    using assms by (auto simp: probeOne_def validateLinkState_def)
  then show ?thesis by (auto simp: validateWebLinkCheck_def andThen_ok)
qed

lemma linkChecks_odd_status:
  assumes "t \<in> set (currentWebLinkTargets parse_url normal_url (hb_runtime s))"
    and "net t = Answered status latency" "status < 100 \<or> 599 < status"
    and "length (currentWebLinkTargets parse_url normal_url (hb_runtime s)) \<le> maxWebLinkProbeTargets"
  shows "linkChecks parse_url normal_url net now True ''POST'' s = (LinkRefused 500 ''link check persistence failed'', s)"
proof -
  let ?c = "Probe net (currentWebLinkTargets parse_url normal_url (hb_runtime s)) now"
  have "probeOne (net t) t now \<in> set ?c" using assms(1) by (auto simp: Probe_def)
  then have "check_distinct ''duplicate Web link check'' (\<lambda>c. (lc_HostID c, lc_WorkloadKey c, lc_URL c))
      (validateWebLinkCheck parse_url) (\<lambda>_. Inr ()) [] ?c \<noteq> Inr ()"
    using odd_status_invalid[OF assms(2,3)] by (auto simp: check_distinct_ok)
  then have "\<exists>e. ReplaceWebLinkChecks parse_url ?c (hb_database s) = Inl e"
    by (cases "check_distinct ''duplicate Web link check'' (\<lambda>c. (lc_HostID c, lc_WorkloadKey c, lc_URL c))
      (validateWebLinkCheck parse_url) (\<lambda>_. Inr ()) [] ?c") (auto simp: ReplaceWebLinkChecks_def)
  then show ?thesis using assms(4) by (auto simp: linkChecks_def Let_def)
qed

section \<open>Properties\<close>

text \<open>C13. When every registered link can be probed and stored, the checks a request answers with are those of the
  targets, and a later request reads exactly them.\<close>

theorem link_checks_stored:
  assumes "length (currentWebLinkTargets parse_url normal_url (hb_runtime s)) \<le> maxWebLinkProbeTargets" "now \<noteq> 0"
    and "\<forall>t \<in> set (currentWebLinkTargets parse_url normal_url (hb_runtime s)).
      target_ok parse_url (hb_database s) t \<and> outcome_ok (net t)"
  shows "\<exists>checks s' rows. linkChecks parse_url normal_url net now True ''POST'' s = (LinkChecks checks (webLinkChecksResponse checks), s')
    \<and> checks = Probe net (currentWebLinkTargets parse_url normal_url (hb_runtime s)) now
    \<and> linkChecks parse_url normal_url net2 now2 free2 ''GET'' s' = (LinkChecks rows (webLinkChecksResponse rows), s')
    \<and> mset rows = mset checks"
  by (rule linkChecks_stored[OF assms])

text \<open>One registered server that answers with a status outside 100..599, which Go's client accepts (some
  sites answer 999), makes the whole request fail: no check of any link is stored.\<close>

theorem odd_status_blocks_all:
  assumes "t \<in> set (currentWebLinkTargets parse_url normal_url (hb_runtime s))"
    and "net t = Answered status latency" "status < 100 \<or> 599 < status"
    and "length (currentWebLinkTargets parse_url normal_url (hb_runtime s)) \<le> maxWebLinkProbeTargets"
  shows "linkChecks parse_url normal_url net now True ''POST'' s = (LinkRefused 500 ''link check persistence failed'', s)"
  by (rule linkChecks_odd_status[where net = net, OF assms])

section \<open>A store with one link\<close>

definition one_agent :: agent_config where
  "one_agent = \<lparr>ac_ID = ''web-2'', ac_Name = ''Web'', ac_URL = [], ac_Token = [], ac_PublicHost = []\<rparr>"

definition one_link_store :: hub_store where
  "one_link_store = \<lparr>hb_database = sample_db,
     hb_runtime = NewMemStore\<lparr>mm_agents := [one_agent],
       mm_snaps := [''web-2'' \<mapsto> (empty_snapshot ''web-2'')\<lparr>sn_Services := Some [nginx_service]\<rparr>],
       mm_anns := (\<lambda>_. Map.empty)(''web-2'' := [''docker:nginx'' \<mapsto> annotation_of sample_annotation])\<rparr>,
     hb_policies = []\<rparr>"

definition one_target :: web_link_target where
  "one_target = \<lparr>tg_HostID = ''web-2'', tg_WorkloadKey = ''docker:nginx'', tg_URL = ''https://web.example.org/''\<rparr>"

lemma one_link_targets: "currentWebLinkTargets sample_parser u_String (hb_runtime one_link_store) = [one_target]"
  by (simp add: currentWebLinkTargets_def one_link_store_def mem_Snapshot_def List.map_filter_def one_agent_def
      snapshot_targets_def empty_snapshot_def JoinServices_def join_service_def nginx_service_def candidate_urls_def
      service_link_def annotation_of_def sample_annotation_def route_views_def link_target_def sample_parser_def one_target_def
      Let_def)

lemma one_target_ok: "target_ok sample_parser sample_db one_target"
  by (simp add: target_ok_def one_target_def valid_identifier_ascii ascii_eval absolute_http_def sample_parser_def
      sample_db_def host_exists_def)

theorem link_checks_stored_witness:
  "\<exists>checks s' rows. linkChecks sample_parser u_String (\<lambda>_. Answered 200 12) 5 True ''POST'' one_link_store =
      (LinkChecks checks (webLinkChecksResponse checks), s')
    \<and> linkChecks sample_parser u_String (\<lambda>_. NoSlot) 6 True ''GET'' s' = (LinkChecks rows (webLinkChecksResponse rows), s')
    \<and> length checks = 1"
proof -
  have d: "hb_database one_link_store = sample_db" by (simp add: one_link_store_def)
  have "length (currentWebLinkTargets sample_parser u_String (hb_runtime one_link_store)) \<le> maxWebLinkProbeTargets"
    "\<forall>t \<in> set (currentWebLinkTargets sample_parser u_String (hb_runtime one_link_store)).
      target_ok sample_parser (hb_database one_link_store) t \<and> outcome_ok (Answered 200 12)"
    unfolding one_link_targets d using one_target_ok by (simp_all add: maxWebLinkProbeTargets_def outcome_ok_def)
  from link_checks_stored[OF this(1) _ this(2), of 5 "\<lambda>_. NoSlot" 6 True] show ?thesis
    by (auto simp: one_link_targets Probe_def)
qed

theorem odd_status_blocks_all_witness:
  "linkChecks sample_parser u_String (\<lambda>_. Answered 999 12) 5 True ''POST'' one_link_store =
    (LinkRefused 500 ''link check persistence failed'', one_link_store)"
  by (rule odd_status_blocks_all[of one_target _ _ _ _ 999 12])
    (simp_all only: one_link_targets list.set list.size maxWebLinkProbeTargets_def, simp_all)

end
