(* ===== verification/Request_Handlers.thy ===== *)
theory Request_Handlers
  imports Event_Paging Link_Probe Operation_Handlers
begin

text \<open>
  The Hub's request handlers for the timeline of events, the acknowledgement, the history of a host and the
  annotation of a service (\<^verbatim>\<open>internal/hub/server.go\<close>), over the durable store
  (\<^verbatim>\<open>internal/hub/sqlite_store.go\<close>: \<^verbatim>\<open>Events\<close>, \<^verbatim>\<open>AcknowledgeEvent\<close>). The session and the CSRF check that
  precede them are in \<open>Sessions\<close>. A query is parsed; the instants of a reply stay instants.
\<close>

definition historyDefaultLimit :: int where "historyDefaultLimit = 120"
definition historyMaximumLimit :: int where "historyMaximumLimit = 500"
definition eventsDefaultLimit :: int where "eventsDefaultLimit = 100"
definition eventsMaximumLimit :: int where "eventsMaximumLimit = 500"
definition maxServiceKeyBytes :: nat where "maxServiceKeyBytes = 512"
definition maxAliasRunes :: nat where "maxAliasRunes = 120"
definition maxNotesRunes :: nat where "maxNotesRunes = 4000"
definition maxURLBytes :: nat where "maxURLBytes = 2048"

section \<open>Events\<close>

record hub_event_counts =
  hc_Ongoing :: int
  hc_Active :: int
  hc_Critical :: int
  hc_Resolved :: int
  hc_Matched :: int
  hc_Snapshot :: string
  hc_Offset :: int
  hc_HasMore :: bool

definition hub_Events ::
  "string \<Rightarrow> time \<Rightarrow> event_filter \<Rightarrow> event list \<Rightarrow> event_snapshot list
   \<Rightarrow> (go_error + (event list \<times> hub_event_counts)) \<times> event_snapshot list" where
  "hub_Events random now f es ss =
     (let (r, ss') = ListEventPage random now f es ss in
      (andThen r (\<lambda>(events, page).
         andThen (EventCountsFiltered f es) (\<lambda>counts.
           Inr (events, \<lparr>hc_Ongoing = ec_Ongoing counts, hc_Active = ec_Active counts, hc_Critical = ec_Critical counts,
             hc_Resolved = ec_Resolved counts, hc_Matched = lp_Matched page, hc_Snapshot = lp_Snapshot page,
             hc_Offset = lp_Offset page, hc_HasMore = lp_HasMore page\<rparr>))), ss'))"

definition validEventListState :: "string \<Rightarrow> bool" where
  "validEventListState state =
     (state = [] \<or> state = ''all'' \<or> state = ''ongoing'' \<or> state = ''active'' \<or> state = ''acknowledged'' \<or> state = ''resolved'')"

definition boundedQueryLimit :: "query \<Rightarrow> int \<Rightarrow> int \<Rightarrow> int option" where
  "boundedQueryLimit q defaultLimit maximum =
     (if query_get q ''limit'' = [] then Some defaultLimit
      else case atoi (query_get q ''limit'') of
        None \<Rightarrow> None
      | Some n \<Rightarrow> if n < 1 \<or> n > maximum then None else Some n)"

definition boundedQueryOffset :: "query \<Rightarrow> int option" where
  "boundedQueryOffset q =
     (if query_get q ''offset'' = [] then Some 0
      else case atoi (query_get q ''offset'') of
        None \<Rightarrow> None
      | Some n \<Rightarrow> if n < 0 then None else Some n)"

record event_view =
  ew_ID :: string
  ew_AgentID :: string
  ew_Kind :: string
  ew_Severity :: string
  ew_State :: string
  ew_Title :: string
  ew_Detail :: string
  ew_FirstObservedAt :: time
  ew_LastObservedAt :: time
  ew_AcknowledgedAt :: "time option"
  ew_ResolvedAt :: "time option"

definition eventView :: "event \<Rightarrow> event_view" where
  "eventView e = \<lparr>ew_ID = ev_ID e, ew_AgentID = ev_HostID e, ew_Kind = ev_Kind e, ew_Severity = ev_Severity e,
     ew_State = ev_State e, ew_Title = ev_Title e, ew_Detail = ev_Detail e, ew_FirstObservedAt = ev_FirstObservedAt e,
     ew_LastObservedAt = ev_LastObservedAt e, ew_AcknowledgedAt = ev_AcknowledgedAt e, ew_ResolvedAt = ev_ResolvedAt e\<rparr>"

record events_response =
  vr_AgentID :: string
  vr_State :: string
  vr_Events :: "event_view list"
  vr_Counts :: hub_event_counts
  vr_Limit :: int

text \<open>The checks of a query before the store is asked.\<close>

definition paging_query :: "host_id \<Rightarrow> string \<Rightarrow> query \<Rightarrow> (nat \<times> string) + event_filter" where
  "paging_query agentID state q =
     (case boundedQueryLimit q eventsDefaultLimit eventsMaximumLimit of
         None \<Rightarrow> Inl (400, ''event limit must be between 1 and 500'')
       | Some limit \<Rightarrow> (case boundedQueryOffset q of
           None \<Rightarrow> Inl (400, ''event offset must not be negative'')
         | Some offset \<Rightarrow>
             let snapshot = query_get q ''snapshot''; afterID = query_get q ''after'' in
             if (snapshot = [] \<and> (offset > 0 \<or> afterID \<noteq> [])) \<or> length snapshot > 128 \<or> length afterID > 128
             then Inl (400, ''event snapshot is required to page'')
             else Inr \<lparr>ef_HostID = agentID, ef_State = state, ef_Limit = limit, ef_Offset = offset,
               ef_AfterID = afterID, ef_Snapshot = snapshot\<rparr>))"

definition event_query :: "mem_store \<Rightarrow> string \<Rightarrow> query \<Rightarrow> (nat \<times> string) + event_filter" where
  "event_query m meth q =
     andThen (guard (405, ''GET'') (meth \<noteq> ''GET''))
     (\<lambda>_. andThen (guard (400, ''invalid_query'')
        (\<not> queryKeysAllowed q [''agent'', ''state'', ''limit'', ''offset'', ''snapshot'', ''after'']))
     (\<lambda>_. let agentID = query_get q ''agent''; state = query_get q ''state'' in
       andThen (guard (400, ''invalid agent'')
         (list_ex (\<lambda>k. length (query_values q k) > 1) [''agent'', ''state'', ''limit'', ''offset'', ''snapshot'', ''after'']
          \<or> length agentID > maxAgentIDBytes))
     (\<lambda>_. andThen (guard (404, ''unknown agent'') (agentID \<noteq> [] \<and> \<not> hasAgent (mm_agents m) agentID))
     (\<lambda>_. andThen (guard (400, ''invalid event state'') (\<not> validEventListState state))
     (\<lambda>_. paging_query agentID state q)))))"

definition events_handler ::
  "string \<Rightarrow> time \<Rightarrow> string \<Rightarrow> query \<Rightarrow> hub_store \<Rightarrow> event_snapshot list \<Rightarrow> events_response reply \<times> event_snapshot list" where
  "events_handler random now meth q s ss = (case event_query (hb_runtime s) meth q of
       Inl (code, e) \<Rightarrow> (Refused code e, ss)
     | Inr f \<Rightarrow> (case hub_Events random now f (db_events (hb_database s)) ss of
           (Inl e, ss') \<Rightarrow>
             (if e = ErrEventSnapshot \<or> e = ErrEventCursor then Refused 400 e else Refused 500 ''event persistence failed'', ss')
         | (Inr (events, counts), ss') \<Rightarrow>
             (Reply 200 \<lparr>vr_AgentID = ef_HostID f, vr_State = ef_State f, vr_Events = map eventView events,
                vr_Counts = counts, vr_Limit = ef_Limit f\<rparr>, ss')))"

section \<open>Acknowledgement\<close>

definition acknowledge_handler :: "time \<Rightarrow> string \<Rightarrow> query \<Rightarrow> hub_store \<Rightarrow> event_view reply \<times> hub_store" where
  "acknowledge_handler now meth q s =
     (let i = query_get q ''id'' in
      if meth \<noteq> ''POST'' then (Refused 405 ''POST'', s)
      else if trim_space i = [] \<or> length i > 128 then (Refused 400 ''invalid event id'', s)
      else case AcknowledgeEvent i now (db_events (hb_database s)) of
          Inl AckResolved \<Rightarrow> (Refused 409 ''event already resolved'', s)
        | Inl _ \<Rightarrow> (Refused 500 ''event persistence failed'', s)
        | Inr None \<Rightarrow> (Refused 404 ''unknown event'', s)
        | Inr (Some (e, es)) \<Rightarrow> (Reply 200 (eventView e), s\<lparr>hb_database := (hb_database s)\<lparr>db_events := es\<rparr>\<rparr>))"

section \<open>History\<close>

definition history_handler :: "string \<Rightarrow> query \<Rightarrow> hub_store \<Rightarrow> (observation_summary list) reply" where
  "history_handler meth q s =
     (let agentID = query_get q ''agent'' in
      if meth \<noteq> ''GET'' then Refused 405 ''GET''
      else if agentID = [] \<or> length agentID > maxAgentIDBytes then Refused 400 ([CHR 0xE9, CHR 0x9C, CHR 0x80, CHR 0xE8, CHR 0xA6, CHR 0x81, CHR 0xE6, CHR 0x9C, CHR 0x89, CHR 0xE6, CHR 0x95, CHR 0x88, CHR 0xE7, CHR 0x9A, CHR 0x84] @ '' agent'')
      else if \<not> hasAgent (mm_agents (hb_runtime s)) agentID then Refused 404 ''unknown agent''
      else case boundedQueryLimit q historyDefaultLimit historyMaximumLimit of
          None \<Rightarrow> Refused 400 ''limit must be between 1 and 500''
        | Some limit \<Rightarrow> (case ObservationSummaryHistory agentID limit (hb_database s) of
            Inl e \<Rightarrow> Refused 500 ''history persistence failed''
          | Inr summaries \<Rightarrow> Reply 200 summaries))"

section \<open>Annotations\<close>

record annotation_input =
  in_Alias :: string
  in_URL :: string
  in_Hidden :: bool
  in_Notes :: string

text \<open>\<^verbatim>\<open>validateAnnotation\<close>: the texts trimmed, the link as \<^verbatim>\<open>net/url\<close> writes it.\<close>

definition validate_input :: "url_parser \<Rightarrow> annotation_input \<Rightarrow> go_error + annotation_input" where
  "validate_input parse_url ann =
     (let a = ann\<lparr>in_Alias := trim_space (in_Alias ann), in_URL := trim_space (in_URL ann), in_Notes := trim_space (in_Notes ann)\<rparr> in
      andThen (guard ''annotation must be valid UTF-8''
        (\<not> valid_utf8 (in_Alias a) \<or> \<not> valid_utf8 (in_Notes a) \<or> \<not> valid_utf8 (in_URL a)))
     (\<lambda>_. andThen (guard ''alias too long'' (rune_count (in_Alias a) > maxAliasRunes))
     (\<lambda>_. andThen (guard ''notes too long'' (rune_count (in_Notes a) > maxNotesRunes))
     (\<lambda>_. andThen (guard ''url too long'' (length (in_URL a) > maxURLBytes))
     (\<lambda>_. if in_URL a = [] then Inr a
          else case parse_url (in_URL a) of
              None \<Rightarrow> Inl ''url must be an absolute http/https URL without credentials''
            | Some u \<Rightarrow>
                if u_Host u = [] \<or> (u_Scheme u \<noteq> ''http'' \<and> u_Scheme u \<noteq> ''https'') \<or> u_HasUser u
                then Inl ''url must be an absolute http/https URL without credentials''
                else Inr (a\<lparr>in_URL := u_String u\<rparr>))))))"

definition input_annotation :: "annotation_input \<Rightarrow> hub_annotation" where
  "input_annotation a = \<lparr>ha_Key = [], ha_AgentID = [], ha_Alias = in_Alias a, ha_URL = in_URL a, ha_Hidden = in_Hidden a,
     ha_Notes = in_Notes a\<rparr>"

definition annotation_handler ::
  "url_parser \<Rightarrow> time \<Rightarrow> query \<Rightarrow> annotation_input request \<Rightarrow> hub_store \<Rightarrow> unit reply \<times> hub_store" where
  "annotation_handler parse_url now q rq s =
     (let agentID = query_get q ''agent''; key = query_get q ''key'' in
      if rq_Method rq \<noteq> ''POST'' then (Refused 405 ''POST'', s)
      else if agentID = [] \<or> key = [] \<or> length agentID > maxAgentIDBytes \<or> length key > maxServiceKeyBytes
      then (Refused 400 ([CHR 0xE9, CHR 0x9C, CHR 0x80, CHR 0xE8, CHR 0xA6, CHR 0x81] @ '' agent '' @ [CHR 0xE5, CHR 0x92, CHR 0x8C] @ '' key''), s)
      else if \<not> hasAgent (mm_agents (hb_runtime s)) agentID then (Refused 404 ''unknown agent'', s)
      else if \<not> hasJSONContentType (rq_ContentType rq) then (Refused 415 json_required, s)
      else case rq_Body rq of
          BodyTooLarge \<Rightarrow> (Refused 413 ''body too large'', s)
        | BadJSON \<Rightarrow> (Refused 400 ''bad json'', s)
        | Body input \<Rightarrow> (case validate_input parse_url input of
            Inl e \<Rightarrow> (Refused 400 e, s)
          | Inr normalized \<Rightarrow> (case SetAnnotation parse_url now agentID key (input_annotation normalized) s of
              Inl e \<Rightarrow> (Refused 500 ''annotation persistence failed'', s)
            | Inr s' \<Rightarrow> (Reply 200 (), s'))))"

section \<open>The timeline never fails on valid rows\<close>

lemma loadEventsByIDs_total:
  "\<forall>e \<in> set es. validateEvent e = Inr () \<Longrightarrow> \<exists>evs. loadEventsByIDs ids es = Inr evs"
  by (cases "ids = []") (auto simp: loadEventsByIDs_def loadEvents_ok)

lemma page_of_errors:
  assumes "\<forall>e \<in> set es. validateEvent e = Inr ()" "page_of f es s = Inl e"
  shows "e = ErrEventCursor"
proof -
  have "loadEventsByIDs ids es \<noteq> Inl e'" for ids e'
    using loadEventsByIDs_total[OF assms(1), of ids] by auto
  then show ?thesis using assms(2)
    by (auto simp: page_of_def andThen_err Let_def split: if_splits option.splits)
qed

lemma valid_state_where: "validEventListState st \<Longrightarrow> \<exists>p. eventWhere hid st = Inr p"
  by (auto simp: validEventListState_def eventWhere_def eventStatePredicate_def)

lemma get_snapshot_error: "getEventSnapshot now i ss = (Inl e, ss') \<Longrightarrow> e = ErrEventSnapshot"
  by (auto simp: getEventSnapshot_def split: option.splits if_splits)

lemma list_page_errors:
  assumes v: "\<forall>e \<in> set es. validateEvent e = Inr ()" and st: "validEventListState (ef_State f)"
    and f: "1 \<le> ef_Limit f" "ef_Limit f \<le> 500" "0 \<le> ef_Offset f"
      "\<not> (ef_Snapshot f = [] \<and> (ef_Offset f > 0 \<or> ef_AfterID f \<noteq> []))"
    and e: "ListEventPage random now f es ss = (Inl e, ss')"
  shows "e = ErrEventSnapshot \<or> e = ErrEventCursor"
proof -
  obtain p where "eventWhere (ef_HostID f) (ef_State f) = Inr p" using valid_state_where[OF st] by blast
  then show ?thesis
    using e f page_of_errors[OF v, of f] get_snapshot_error
    by (auto simp: ListEventPage_def Let_def split: if_splits prod.splits sum.splits)
qed

lemma event_query_ok:
  assumes "event_query m meth q = Inr f"
  shows "validEventListState (ef_State f)" "1 \<le> ef_Limit f" "ef_Limit f \<le> 500" "0 \<le> ef_Offset f"
    "\<not> (ef_Snapshot f = [] \<and> (ef_Offset f > 0 \<or> ef_AfterID f \<noteq> []))"
proof -
  have "validEventListState (query_get q ''state'') \<and> paging_query (query_get q ''agent'') (query_get q ''state'') q = Inr f"
    using assms unfolding event_query_def Let_def by (simp only: andThen_ok guard_ok) blast
  then obtain limit offset where v: "validEventListState (query_get q ''state'')"
    and l: "boundedQueryLimit q eventsDefaultLimit eventsMaximumLimit = Some limit" "boundedQueryOffset q = Some offset"
    and f: "ef_State f = query_get q ''state''" "ef_Limit f = limit" "ef_Offset f = offset"
      "\<not> (ef_Snapshot f = [] \<and> (offset > 0 \<or> ef_AfterID f \<noteq> []))"
    unfolding paging_query_def Let_def by (auto split: option.splits if_splits)
  show "validEventListState (ef_State f)" "1 \<le> ef_Limit f" "ef_Limit f \<le> 500" "0 \<le> ef_Offset f"
    "\<not> (ef_Snapshot f = [] \<and> (ef_Offset f > 0 \<or> ef_AfterID f \<noteq> []))"
    using v l f unfolding boundedQueryLimit_def boundedQueryOffset_def eventsDefaultLimit_def eventsMaximumLimit_def
    by (auto split: option.splits if_splits)
qed

definition codes_in :: "nat set \<Rightarrow> (nat \<times> string) + 'a \<Rightarrow> bool" where
  "codes_in C r \<longleftrightarrow> (\<forall>code e. r = Inl (code, e) \<longrightarrow> code \<in> C)"

lemma codes_in_guard: "c \<in> C \<Longrightarrow> codes_in C (guard (c, e) b)"
  by (simp add: codes_in_def)

lemma codes_in_andThen: "codes_in C r \<Longrightarrow> (\<And>x. codes_in C (f x)) \<Longrightarrow> codes_in C (andThen r f)"
  by (cases r) (simp_all add: codes_in_def)

lemma event_query_code: "event_query m meth q = Inl (code, e) \<Longrightarrow> code \<in> {400, 404, 405}"
proof -
  have "codes_in {400, 404, 405} (event_query m meth q)"
    unfolding event_query_def Let_def
    by (intro codes_in_andThen codes_in_guard) (simp_all add: codes_in_def paging_query_def Let_def split: option.split)
  then show "event_query m meth q = Inl (code, e) \<Longrightarrow> code \<in> {400, 404, 405}" unfolding codes_in_def by blast
qed

lemma events_answers:
  assumes "\<forall>e \<in> set (db_events (hb_database s)). validateEvent e = Inr ()"
    and "events_handler random now meth q s ss = (Refused code e, ss')"
  shows "code \<in> {400, 404, 405}"
proof (cases "event_query (hb_runtime s) meth q")
  case (Inl err)
  then show ?thesis using assms(2) event_query_code[of _ meth q] by (cases err) (auto simp: events_handler_def)
next
  case (Inr f)
  note ok = event_query_ok[OF Inr]
  have "validEventListState []" by (simp add: validEventListState_def)
  then obtain p p' where p: "eventWhere (ef_HostID f) [] = Inr p" "eventWhere (ef_HostID f) (ef_State f) = Inr p'"
    using valid_state_where[OF ok(1)] valid_state_where[of "[]"] by metis
  obtain r ss1 where l: "ListEventPage random now f (db_events (hb_database s)) ss = (r, ss1)" by fastforce
  show ?thesis
  proof (cases r)
    case (Inl e1)
    then have "e1 = ErrEventSnapshot \<or> e1 = ErrEventCursor"
      using list_page_errors[OF assms(1) ok] l by blast
    then show ?thesis using assms(2) Inr Inl l by (auto simp: events_handler_def hub_Events_def)
  next
    case (Inr pg)
    then show ?thesis using assms(2) \<open>event_query (hb_runtime s) meth q = Inr f\<close> l p
      by (auto simp: events_handler_def hub_Events_def EventCountsFiltered_def Let_def split: prod.splits)
  qed
qed

section \<open>An annotation is shown\<close>

lemma annotation_accepted:
  assumes "annotation_handler parse_url now q rq s = (Reply code (), s')"
  obtains input a where "rq_Body rq = Body input" "validate_input parse_url input = Inr a"
    "SetAnnotation parse_url now (query_get q ''agent'') (query_get q ''key'') (input_annotation a) s = Inr s'"
    "query_get q ''key'' \<noteq> []" "query_get q ''agent'' \<noteq> []"
proof (cases "rq_Body rq")
  case (Body input)
  then show ?thesis using assms that
    by (auto simp: annotation_handler_def Let_def split: if_splits sum.splits)
qed (use assms in \<open>auto simp: annotation_handler_def Let_def split: if_splits\<close>)

lemma set_annotation_runtime:
  assumes "SetAnnotation parse_url now i k a s = Inr s'"
  shows "mm_anns (hb_runtime s') i k = Some (a\<lparr>ha_Key := k, ha_AgentID := i\<rparr>)"
    and "mm_agents (hb_runtime s') = mm_agents (hb_runtime s)" "mm_snaps (hb_runtime s') = mm_snaps (hb_runtime s)"
    and "ha_URL a \<noteq> [] \<Longrightarrow> absolute_http parse_url (ha_URL a)"
  using assms by (auto simp: SetAnnotation_def andThen_ok mem_SetAnnotation_def UpsertAnnotation_def validateAnnotation_def)

lemma services_page_views:
  assumes "g \<in> set (services_page i m)" "v \<in> set (gs_Services g)" "i \<noteq> []"
  shows "sn_ID (gs_Snapshot g) = i \<and>
    (\<exists>s. v = join_service (mm_anns m i) (host_by_id (mm_agents m) i) s)"
  using assms by (auto simp: services_page_def sortByExposure_is JoinServices_def)

lemma annotation_shown_lemma:
  assumes h: "annotation_handler parse_url now q rq s = (Reply code (), s')"
    and g: "g \<in> set (services_page (query_get q ''agent'') (hb_runtime s'))" "v \<in> set (gs_Services g)"
    and k: "sv_Key (vw_Service v) = query_get q ''key''"
  shows "\<exists>input a. rq_Body rq = Body input \<and> validate_input parse_url input = Inr a \<and>
    vw_Alias v = in_Alias a \<and> vw_Hidden v = in_Hidden a \<and> vw_Notes v = in_Notes a \<and>
    (in_URL a = [] \<or> (vw_URL v = in_URL a \<and> absolute_http parse_url (vw_URL v)))"
proof -
  obtain input a where ia: "rq_Body rq = Body input" "validate_input parse_url input = Inr a"
    "SetAnnotation parse_url now (query_get q ''agent'') (query_get q ''key'') (input_annotation a) s = Inr s'"
    "query_get q ''agent'' \<noteq> []"
    using h by (rule annotation_accepted)
  note m = set_annotation_runtime[OF ia(3)]
  obtain sv where v: "v = join_service (mm_anns (hb_runtime s') (query_get q ''agent''))
      (host_by_id (mm_agents (hb_runtime s')) (query_get q ''agent'')) sv"
    using services_page_views[OF g ia(4)] by blast
  then have "sv_Key sv = query_get q ''key''" using k by (simp add: join_service_def Let_def)
  then show ?thesis using ia(1,2) v m(1,4)
    by (auto simp: join_service_def Let_def service_link_def input_annotation_def)
qed

text \<open>A key with a control character passes the handler's checks and fails in the store.\<close>

lemma annotation_control_key_lemma:
  assumes "containsControl (query_get q ''key'')" "length (query_get q ''key'') \<le> maxServiceKeyBytes"
    and "query_get q ''agent'' \<noteq> []" "length (query_get q ''agent'') \<le> maxAgentIDBytes"
    and "hasAgent (mm_agents (hb_runtime s)) (query_get q ''agent'')"
    and "rq_Method rq = ''POST''" "hasJSONContentType (rq_ContentType rq)" "rq_Body rq = Body input"
    and "validate_input parse_url input = Inr a"
  shows "annotation_handler parse_url now q rq s = (Refused 500 ''annotation persistence failed'', s)"
proof -
  have "query_get q ''key'' \<noteq> []" using assms(1) by (auto simp: containsControl_def)
  moreover have "\<exists>e. SetAnnotation parse_url now (query_get q ''agent'') (query_get q ''key'') (input_annotation a) s = Inl e"
  proof -
    have "validateIdentifier ''workload key'' (query_get q ''key'') 512 \<noteq> Inr ()"
      using assms(1) by (simp add: valid_identifier_def)
    then have "validateAnnotation parse_url \<lparr>an_HostID = query_get q ''agent'', an_WorkloadKey = query_get q ''key'',
        an_Alias = ha_Alias (input_annotation a), an_URL = ha_URL (input_annotation a), an_Hidden = ha_Hidden (input_annotation a),
        an_Notes = ha_Notes (input_annotation a), an_UpdatedAt = now\<rparr> \<noteq> Inr ()"
      by (auto simp: validateAnnotation_def andThen_ok)
    then show ?thesis
      by (cases "validateAnnotation parse_url \<lparr>an_HostID = query_get q ''agent'', an_WorkloadKey = query_get q ''key'',
        an_Alias = ha_Alias (input_annotation a), an_URL = ha_URL (input_annotation a), an_Hidden = ha_Hidden (input_annotation a),
        an_Notes = ha_Notes (input_annotation a), an_UpdatedAt = now\<rparr>") (auto simp: SetAnnotation_def UpsertAnnotation_def)
  qed
  ultimately show ?thesis using assms by (auto simp: annotation_handler_def Let_def)
qed

section \<open>Properties\<close>

text \<open>On a table of valid events the timeline never answers with an internal error: a request is served, or
  refused as malformed, unknown, stale or of the wrong method.\<close>

theorem events_never_fail:
  assumes "\<forall>e \<in> set (db_events (hb_database s)). validateEvent e = Inr ()"
    and "events_handler random now meth q s ss = (Refused code e, ss')"
  shows "code \<in> {400, 404, 405}"
  by (rule events_answers[OF assms])

text \<open>After an annotation was accepted, the page of the services shows it at its service: the normalised texts,
  and the normalised link where one was given, which is an absolute http or https URL without credentials.\<close>

theorem annotation_shown:
  assumes "annotation_handler parse_url now q rq s = (Reply code (), s')"
    and "g \<in> set (services_page (query_get q ''agent'') (hb_runtime s'))" "v \<in> set (gs_Services g)"
    and "sv_Key (vw_Service v) = query_get q ''key''"
  shows "\<exists>input a. rq_Body rq = Body input \<and> validate_input parse_url input = Inr a \<and>
    vw_Alias v = in_Alias a \<and> vw_Hidden v = in_Hidden a \<and> vw_Notes v = in_Notes a \<and>
    (in_URL a = [] \<or> (vw_URL v = in_URL a \<and> absolute_http parse_url (vw_URL v)))"
  by (rule annotation_shown_lemma[OF assms])

text \<open>A key with a control character passes the checks of the handler and is refused by the store only: the
  operator's mistake is answered as an internal error, and nothing changes.\<close>

theorem annotation_control_key:
  assumes "containsControl (query_get q ''key'')" "length (query_get q ''key'') \<le> maxServiceKeyBytes"
    and "query_get q ''agent'' \<noteq> []" "length (query_get q ''agent'') \<le> maxAgentIDBytes"
    and "hasAgent (mm_agents (hb_runtime s)) (query_get q ''agent'')"
    and "rq_Method rq = ''POST''" "hasJSONContentType (rq_ContentType rq)" "rq_Body rq = Body input"
    and "validate_input parse_url input = Inr a"
  shows "annotation_handler parse_url now q rq s = (Refused 500 ''annotation persistence failed'', s)"
  by (rule annotation_control_key_lemma[OF assms])

section \<open>Requests to the store with one link\<close>

definition front_input :: annotation_input where
  "front_input = \<lparr>in_Alias = ''Front'', in_URL = [], in_Hidden = False, in_Notes = []\<rparr>"

definition front_request :: "annotation_input request" where
  "front_request = \<lparr>rq_Method = ''POST'', rq_RawQuery = [], rq_ContentType = ''application/json'', rq_Body = Body front_input\<rparr>"

definition key_query :: "string \<Rightarrow> query" where
  "key_query key = [(''agent'', [''web-2'']), (''key'', [key])]"

lemma key_query_get [simp]: "query_get (key_query key) ''agent'' = ''web-2''" "query_get (key_query key) ''key'' = key"
  by (simp_all add: query_get_def query_values_def key_query_def)

lemma front_valid: "validate_input p front_input = Inr front_input"
  by (simp add: validate_input_def front_input_def maxAliasRunes_def maxNotesRunes_def maxURLBytes_def Let_def
      trim_space_def trim_chunks_def rune_chunks_ascii ascii_def byte_def is_space_def valid_utf8_ascii rune_count_ascii)

lemma json_content: "hasJSONContentType ''application/json''"
  by (simp add: hasJSONContentType_def trim_space_def trim_chunks_def rune_chunks_ascii ascii_def byte_def is_space_def
      equal_fold_ascii_def runes_def fold_rune_def)

lemma one_link_agent: "hasAgent (mm_agents (hb_runtime one_link_store)) ''web-2''"
  by (simp add: hasAgent_def one_link_store_def one_agent_def)

theorem events_never_fail_witness:
  "\<exists>code e ss'. events_handler [] 9 ''PUT'' [] one_link_store [] = (Refused code e, ss') \<and> code \<in> {400, 404, 405}"
proof -
  have "db_events (hb_database one_link_store) = []"
    by (simp add: one_link_store_def sample_db_def empty_db_def)
  then have v: "\<forall>e \<in> set (db_events (hb_database one_link_store)). validateEvent e = Inr ()" by simp
  have "events_handler [] 9 ''PUT'' [] one_link_store [] = (Refused 405 ''GET'', [])"
    by (simp add: events_handler_def event_query_def)
  with events_never_fail[OF v this] show ?thesis by blast
qed

lemma front_accepted:
  "annotation_handler sample_parser 5 (key_query ''docker:nginx'') front_request one_link_store =
    (Reply 200 (), one_link_store\<lparr>hb_database := sample_db\<lparr>db_annotations :=
       [\<lparr>an_HostID = ''web-2'', an_WorkloadKey = ''docker:nginx'', an_Alias = ''Front'', an_URL = [], an_Hidden = False, an_Notes = [],
         an_UpdatedAt = 5\<rparr>]\<rparr>,
       hb_runtime := mem_SetAnnotation ''web-2'' ''docker:nginx'' (input_annotation front_input) (hb_runtime one_link_store)\<rparr>)"
proof -
  have db: "hb_database one_link_store = sample_db" by (simp add: one_link_store_def)
  have v: "validateAnnotation sample_parser \<lparr>an_HostID = ''web-2'', an_WorkloadKey = ''docker:nginx'', an_Alias = ''Front'', an_URL = [],
      an_Hidden = False, an_Notes = [], an_UpdatedAt = 5\<rparr> = Inr ()"
    by (simp add: validateAnnotation_def valid_identifier_ascii ascii_eval andThen_ok)
  have "SetAnnotation sample_parser 5 ''web-2'' ''docker:nginx'' (input_annotation front_input) one_link_store =
    Inr (one_link_store\<lparr>hb_database := sample_db\<lparr>db_annotations :=
       [\<lparr>an_HostID = ''web-2'', an_WorkloadKey = ''docker:nginx'', an_Alias = ''Front'', an_URL = [], an_Hidden = False, an_Notes = [],
         an_UpdatedAt = 5\<rparr>]\<rparr>,
       hb_runtime := mem_SetAnnotation ''web-2'' ''docker:nginx'' (input_annotation front_input) (hb_runtime one_link_store)\<rparr>)"
    using v by (simp add: SetAnnotation_def UpsertAnnotation_def db input_annotation_def front_input_def)
      (simp add: sample_db_def empty_db_def host_exists_def)
  then show ?thesis
    using front_valid[of sample_parser] json_content one_link_agent
    by (simp add: annotation_handler_def front_request_def maxAgentIDBytes_def maxServiceKeyBytes_def Let_def)
qed

theorem annotation_shown_witness:
  "\<exists>s' g v. annotation_handler sample_parser 5 (key_query ''docker:nginx'') front_request one_link_store = (Reply 200 (), s') \<and>
    g \<in> set (services_page ''web-2'' (hb_runtime s')) \<and> v \<in> set (gs_Services g) \<and> vw_Alias v = ''Front''"
proof -
  obtain s' where s': "annotation_handler sample_parser 5 (key_query ''docker:nginx'') front_request one_link_store = (Reply 200 (), s')"
    and m: "hb_runtime s' = mem_SetAnnotation ''web-2'' ''docker:nginx'' (input_annotation front_input) (hb_runtime one_link_store)"
    using front_accepted by auto
  obtain g v where g: "g \<in> set (services_page ''web-2'' (hb_runtime s'))" "v \<in> set (gs_Services g)" "sv_Key (vw_Service v) = ''docker:nginx''"
    by (auto simp: m services_page_def sortByExposure_is mem_Snapshot_def mem_SetAnnotation_def one_link_store_def List.map_filter_def
        one_agent_def empty_snapshot_def JoinServices_def join_service_def nginx_service_def Let_def)
  have "\<exists>input a. rq_Body front_request = Body input \<and> validate_input sample_parser input = Inr a \<and>
    vw_Alias v = in_Alias a \<and> vw_Hidden v = in_Hidden a \<and> vw_Notes v = in_Notes a \<and>
    (in_URL a = [] \<or> (vw_URL v = in_URL a \<and> absolute_http sample_parser (vw_URL v)))"
    by (rule annotation_shown[OF s']) (use g in simp_all)
  then have "vw_Alias v = ''Front''" using front_valid[of sample_parser] by (auto simp: front_request_def front_input_def)
  with s' g show ?thesis by blast
qed

theorem annotation_control_key_witness:
  "annotation_handler sample_parser 5 (key_query [CHR 0x07]) front_request one_link_store =
    (Refused 500 ''annotation persistence failed'', one_link_store)"
  by (rule annotation_control_key[of _ _ _ front_input _ front_input])
    (simp_all add: front_valid json_content one_link_agent front_request_def maxServiceKeyBytes_def maxAgentIDBytes_def
      containsControl_def runes_ascii ascii_def byte_def is_control_def)

end
