(* ===== verification/Proxy_Routes.thy ===== *)
theory Proxy_Routes
  imports Hub_Projection Event_Store Sessions
begin

text \<open>
  The routes of reverse proxies an Agent discovers (\<^verbatim>\<open>internal/agent/proxy_routes.go\<close>): a candidate is
  normalised or dropped, candidates of the same address are merged, and the records cross from the
  privileged helper to the Agent as lines of JSON. The JSON library and \<^verbatim>\<open>url.Parse\<close> are parameters. The
  readers of the configuration files are in \<open>Proxy_Configs\<close>.
\<close>

section \<open>Texts\<close>

text \<open>\<^verbatim>\<open>strings.ToLower\<close>: two characters outside ASCII have a lower case inside it. The others keep their
  bytes here; a text with one of them is refused by every check that follows.\<close>

definition lower_byte :: "char \<Rightarrow> char" where
  "lower_byte c = (if 65 \<le> byte c \<and> byte c \<le> 90 then char_of (byte c + 32) else c)"

definition lower_chunk :: "nat \<times> string \<Rightarrow> string" where
  "lower_chunk p = (if fst p < 128 then map lower_byte (snd p) else if fst p = 0x212A then ''k''
     else if fst p = 0x130 then ''i'' else snd p)"

definition go_lower :: "string \<Rightarrow> string" where
  "go_lower s = concat (map lower_chunk (rune_chunks s))"

definition unique_sorted :: "string list \<Rightarrow> string list" where
  "unique_sorted vs = sort (remdups (filter (\<lambda>v. v \<noteq> []) vs))"

section \<open>Checks\<close>

definition maxProxyRoutes :: nat where "maxProxyRoutes = 256"
definition maxProxyWarnings :: nat where "maxProxyWarnings = 32"

definition validRouteKind :: "string \<Rightarrow> bool" where
  "validRouteKind k = (k = ''unknown'' \<or> k = ''proxy'' \<or> k = ''static'' \<or> k = ''site'')"

definition route_kind_rank :: "string \<Rightarrow> nat" where
  "route_kind_rank k = (if k = ''site'' then 1 else if k = ''static'' then 2 else if k = ''proxy'' then 3 else 0)"

definition strongerRouteKind :: "string \<Rightarrow> string \<Rightarrow> string" where
  "strongerRouteKind left right = (if route_kind_rank right > route_kind_rank left then right else left)"

definition no_controls :: "string \<Rightarrow> bool" where
  "no_controls s = (\<not> list_ex (\<lambda>r. r = 0 \<or> is_control r) (runes s))"

definition validProxyWorkloadKey :: "string \<Rightarrow> bool" where
  "validProxyWorkloadKey v =
     (if length v < 8 \<or> length v > 512 \<or> (\<not> has_prefix v ''docker:'' \<and> \<not> has_prefix v ''systemd:'') then False
      else no_controls v)"

definition validProxyWarning :: "string \<Rightarrow> bool" where
  "validProxyWarning v = (if v = [] \<or> length v > 240 \<or> \<not> valid_utf8 v then False else no_controls v)"

definition normalizedAuthority :: "string \<Rightarrow> string \<Rightarrow> string" where
  "normalizedAuthority host portText =
     (if \<not> validProxyHost host False then []
      else case atoi portText of
        None \<Rightarrow> []
      | Some p \<Rightarrow> if p < 1 \<or> p > 65535 then [] else join_host_port host (itoa p))"

definition sanitizeUpstream :: "url_parser \<Rightarrow> string \<Rightarrow> string" where
  "sanitizeUpstream parse_url raw0 =
     (let raw = trim_space raw0 in
      if raw = [] \<or> length raw > 256 \<or> contains_any raw ''$@?#'' then []
      else if contains raw ''://'' then
        (case parse_url raw of
           None \<Rightarrow> []
         | Some u \<Rightarrow>
             if u_HasUser u \<or> (u_Scheme u \<noteq> ''http'' \<and> u_Scheme u \<noteq> ''https'' \<and> u_Scheme u \<noteq> ''h2c'') then []
             else normalizedAuthority (go_lower (u_Hostname u))
               (if u_PortText u = [] then (if u_Scheme u = ''https'' then ''443'' else ''80'') else u_PortText u))
      else case split_host_port raw of
          None \<Rightarrow> []
        | Some (host, port) \<Rightarrow> normalizedAuthority (go_lower host) port)"

section \<open>Normalisation\<close>

record discovered_route =
  xr_WorkloadKey :: string
  xr_Route :: wire_route

record proxy_discovery =
  xd_Routes :: "discovered_route list"
  xd_Warnings :: "string list"

definition normalizeProxyRoute :: "url_parser \<Rightarrow> string \<Rightarrow> wire_route \<Rightarrow> discovered_route option" where
  "normalizeProxyRoute parse_url workloadKey route =
     (if \<not> validProxyWorkloadKey workloadKey then None
      else
        let scheme = go_lower (trim_space (wr_Scheme route));
            host = go_lower (trim_suffix (trim_space (wr_Host route)) ''.'');
            path0 = trim_space (wr_Path route);
            kind = (if wr_Kind route = [] then (if wr_Upstreams route \<noteq> [] then ''proxy'' else ''unknown'') else wr_Kind route);
            path = (if path0 = [] then ''/'' else path0)
        in
        if \<not> validRouteKind kind \<or> (scheme \<noteq> ''http'' \<and> scheme \<noteq> ''https'') \<or> wr_Port route < 1 \<or> wr_Port route > 65535
           \<or> \<not> validProxyHost host True \<or> \<not> validProxyPath path then None
        else Some \<lparr>xr_WorkloadKey = workloadKey, xr_Route = \<lparr>wr_Kind = kind, wr_Scheme = scheme, wr_Host = host,
               wr_Port = wr_Port route, wr_Path = path,
               wr_Upstreams = take 16 (unique_sorted (map (sanitizeUpstream parse_url) (wr_Upstreams route)))\<rparr>\<rparr>)"

section \<open>Merging\<close>

definition zero_char :: char where "zero_char = CHR 0x00"

definition proxy_key :: "discovered_route \<Rightarrow> string" where
  "proxy_key r = xr_WorkloadKey r @ [zero_char] @ wr_Scheme (xr_Route r) @ [zero_char] @ wr_Host (xr_Route r) @ [zero_char]
     @ itoa (wr_Port (xr_Route r)) @ [zero_char] @ wr_Path (xr_Route r)"

definition join_routes :: "discovered_route \<Rightarrow> discovered_route \<Rightarrow> discovered_route" where
  "join_routes e r = e\<lparr>xr_Route := (xr_Route e)\<lparr>wr_Kind := strongerRouteKind (wr_Kind (xr_Route e)) (wr_Kind (xr_Route r)),
     wr_Upstreams := unique_sorted (wr_Upstreams (xr_Route e) @ wr_Upstreams (xr_Route r))\<rparr>\<rparr>"

text \<open>The values of the map \<^verbatim>\<open>byKey\<close>.\<close>

definition merge_route :: "discovered_route list \<Rightarrow> discovered_route \<Rightarrow> discovered_route list" where
  "merge_route acc r =
     (if list_ex (\<lambda>e. proxy_key e = proxy_key r) acc
      then update_where (\<lambda>e. proxy_key e = proxy_key r) (\<lambda>e. join_routes e r) acc else acc @ [r])"

definition normalized_routes :: "url_parser \<Rightarrow> discovered_route list \<Rightarrow> discovered_route list" where
  "normalized_routes parse_url rs = List.map_filter (\<lambda>c. normalizeProxyRoute parse_url (xr_WorkloadKey c) (xr_Route c)) rs"

definition mergeProxyRoutes :: "url_parser \<Rightarrow> discovered_route list \<Rightarrow> discovered_route list" where
  "mergeProxyRoutes parse_url rs = sort_key proxy_key (foldl merge_route [] (normalized_routes parse_url rs))"

section \<open>Records\<close>

datatype proxy_record = RouteRecord discovered_route | WarningRecord string | OtherRecord

definition discovery_records :: "url_parser \<Rightarrow> proxy_discovery \<Rightarrow> proxy_record list" where
  "discovery_records parse_url d =
     map RouteRecord (take maxProxyRoutes (mergeProxyRoutes parse_url (xd_Routes d)))
     @ map WarningRecord (filter validProxyWarning (take maxProxyWarnings (xd_Warnings d)))"

text \<open>An encoder writes its record and a newline.\<close>

definition writeProxyDiscovery :: "url_parser \<Rightarrow> (proxy_record \<Rightarrow> string) \<Rightarrow> proxy_discovery \<Rightarrow> string" where
  "writeProxyDiscovery parse_url encode d = concat (map (\<lambda>r. encode r @ [CHR 0x0A]) (discovery_records parse_url d))"

definition add_record :: "url_parser \<Rightarrow> proxy_discovery \<Rightarrow> proxy_record \<Rightarrow> proxy_discovery" where
  "add_record parse_url d r = (case r of
       RouteRecord c \<Rightarrow>
         (if length (xd_Routes d) \<ge> maxProxyRoutes then d
          else case normalizeProxyRoute parse_url (xr_WorkloadKey c) (xr_Route c) of
            None \<Rightarrow> d
          | Some route \<Rightarrow> d\<lparr>xd_Routes := xd_Routes d @ [route]\<rparr>)
     | WarningRecord m \<Rightarrow>
         (if length (xd_Warnings d) < maxProxyWarnings \<and> validProxyWarning m then d\<lparr>xd_Warnings := xd_Warnings d @ [m]\<rparr> else d)
     | OtherRecord \<Rightarrow> d)"

definition parseProxyDiscovery :: "url_parser \<Rightarrow> (string \<Rightarrow> proxy_record option) \<Rightarrow> string \<Rightarrow> proxy_discovery" where
  "parseProxyDiscovery parse_url decode content =
     (let lines = filter (\<lambda>l. l \<noteq> []) (map trim_space (split_on (CHR 0x0A) content));
          d = foldl (add_record parse_url) \<lparr>xd_Routes = [], xd_Warnings = []\<rparr> (List.map_filter decode lines)
      in d\<lparr>xd_Routes := mergeProxyRoutes parse_url (xd_Routes d)\<rparr>)"

section \<open>The characters of a host\<close>

definition host_byte :: "char \<Rightarrow> bool" where
  "host_byte c \<longleftrightarrow> asciiAlphaNumeric c \<or> c = CHR ''-'' \<or> c = CHR ''.'' \<or> c = CHR '':''"

lemma digit_host_byte: "is_digit c \<Longrightarrow> host_byte c"
  by (simp add: is_digit_def host_byte_def asciiAlphaNumeric_def)

lemma hex_host_byte: "is_hex c \<Longrightarrow> host_byte c"
  by (auto simp: is_hex_def hex_value_def host_byte_def asciiAlphaNumeric_def Let_def split: if_splits)

lemma split_chars: "c \<in> set s \<Longrightarrow> c = d \<or> (\<exists>w \<in> set (split_on d s). c \<in> set w)"
  by (induction d s rule: split_on.induct) (auto split: list.splits if_splits)

lemma octet_chars: "parse_octet w = Some n \<Longrightarrow> c \<in> set w \<Longrightarrow> host_byte c"
  using digit_host_byte by (auto simp: parse_octet_def list_all_iff split: if_splits)

lemma ipv4_chars: "parse_ipv4 s = Some gs \<Longrightarrow> c \<in> set s \<Longrightarrow> host_byte c"
  using split_chars[of c s "CHR ''.''"] octet_chars
  by (fastforce simp: parse_ipv4_def host_byte_def split: list.splits option.splits)

lemma groups_chars: "ipv6_groups n s gs ell = Some r \<Longrightarrow> c \<in> set s \<Longrightarrow> host_byte c"
proof (induction n s gs ell rule: ipv6_groups.induct)
  case (2 fuel s gs ell)
  let ?h = "takeWhile is_hex s" and ?r = "dropWhile is_hex s"
  have s: "c \<in> set ?h \<or> c \<in> set ?r" using 2(4) by (metis Un_iff set_append takeWhile_dropWhile_id)
  show ?case
  proof (cases "c \<in> set ?h")
    case True
    then show ?thesis using hex_host_byte by (auto dest: set_takeWhileD)
  next
    case False
    then have c: "c \<in> set ?r" using s by simp
    then obtain x xs where r: "?r = x # xs" by (cases ?r) auto
    have h: "?h \<noteq> []" "\<not> length ?h > 4" using 2(3) by (auto simp: Let_def split: if_splits)
    show ?thesis
    proof (cases "x = CHR ''.''")
      case True
      then obtain q where "parse_ipv4 s = Some q" using 2(3) h r by (auto simp: Let_def split: if_splits option.splits)
      then show ?thesis using ipv4_chars 2(4) by blast
    next
      case dot: False
      then have x: "x = CHR '':''" using 2(3) h r by (auto simp: Let_def split: if_splits)
      then obtain y ys where xs: "xs = y # ys" using 2(3) h r by (auto simp: Let_def split: if_splits list.splits)
      consider "c = CHR '':''" | "c = y" "y \<noteq> CHR '':''" | "c \<in> set ys" using c r x xs by auto
      then show ?thesis
      proof cases
        case 1
        then show ?thesis by (simp add: host_byte_def)
      next
        case 2
        then show ?thesis using "2.IH"(2)[OF refl refl _ r _ _ xs refl] "2.prems" h r x xs dot
          by (auto simp: Let_def)
      next
        case 3
        then show ?thesis using "2.IH" "2.prems" h r x xs dot
          by (auto simp: Let_def split: if_splits)
      qed
    qed
  qed
qed (auto split: if_splits)

lemma ipv6_body_chars: "parse_ipv6_body s = Some gs \<Longrightarrow> c \<in> set s \<Longrightarrow> host_byte c"
proof -
  assume p: "parse_ipv6_body s = Some gs" and c: "c \<in> set s"
  show "host_byte c"
  proof (cases "take 2 s = ''::''")
    case True
    then have s: "s = ''::'' @ drop 2 s" by (metis append_take_drop_id)
    show ?thesis
    proof (cases "c \<in> set (drop 2 s)")
      case True
      then have "length s \<noteq> 2" by auto
      then obtain r where "ipv6_groups 8 (drop 2 s) [] (Some 0) = Some r"
        using p \<open>take 2 s = ''::''\<close> by (auto simp: parse_ipv6_body_def split: bind_splits)
      then show ?thesis using groups_chars True by blast
    next
      case False
      then have "c \<in> set ''::''" using c s by (metis Un_iff set_append)
      then show ?thesis by (simp add: host_byte_def)
    qed
  next
    case False
    then obtain r where "ipv6_groups 8 s [] None = Some r" using p by (auto simp: parse_ipv6_body_def split: bind_splits)
    then show ?thesis using groups_chars c by blast
  qed
qed

lemma ip_chars: "parse_ip h = Some a \<Longrightarrow> c \<in> set h \<Longrightarrow> host_byte c"
proof -
  assume p: "parse_ip h = Some a" and c: "c \<in> set h"
  then obtain b where b: "parse_addr h = Some b" "\<forall>g z. b = AddrV6 g z \<longrightarrow> z = []"
    by (auto simp: parse_ip_def split: option.splits addr.splits if_splits)
  then obtain x where f: "find (\<lambda>c. c \<in> set ''.:%'') h = Some x" by (auto simp: parse_addr_def split: option.splits)
  show "host_byte c"
  proof (cases "x = CHR ''.''")
    case True
    then show ?thesis using b(1) f c ipv4_chars by (auto simp: parse_addr_def)
  next
    case False
    then have "parse_ipv6 h = Some b" using b(1) f by (auto simp: parse_addr_def split: if_splits)
    moreover have "cut CHR ''%'' h = None"
      using calculation b(2) by (auto simp: parse_ipv6_def split: option.splits if_splits)
    ultimately show ?thesis using ipv6_body_chars c by (auto simp: parse_ipv6_def)
  qed
qed

lemma label_chars:
  assumes "validHostLabel l" "c \<in> set l" shows "host_byte c"
proof -
  have l: "l \<noteq> []" "asciiAlphaNumeric (hd l)" "asciiAlphaNumeric (last l)"
    "\<forall>c \<in> set (butlast (tl l)). asciiAlphaNumeric c \<or> c = CHR ''-''"
    using assms(1) by (auto simp: validHostLabel_def list_all_iff)
  have "c = hd l \<or> c = last l \<or> c \<in> set (butlast (tl l))"
  proof (cases "tl l = []")
    case True
    then show ?thesis using assms(2) l(1) by (cases l) auto
  next
    case False
    have "l = hd l # butlast (tl l) @ [last (tl l)]" using l(1) False by simp
    then have "set l = {hd l} \<union> set (butlast (tl l)) \<union> {last (tl l)}" by (metis Un_insert_right append.right_neutral list.simps(15) set_append sup_bot_right Un_commute insert_is_Un list.set(1) list.set(2))
    moreover have "last (tl l) = last l" using False by (simp add: last_tl)
    ultimately show ?thesis using assms(2) by auto
  qed
  then show ?thesis using l by (auto simp: host_byte_def)
qed

lemma host_chars:
  assumes "validProxyHost h e" "c \<in> set h" shows "host_byte c"
proof (cases "parse_ip h")
  case None
  then have "list_all validHostLabel (split_on CHR ''.'' h)" using assms by (auto simp: validProxyHost_def split: if_splits)
  then show ?thesis using split_chars[OF assms(2), of "CHR ''.''"] label_chars
    by (auto simp: list_all_iff host_byte_def)
next
  case (Some a)
  then show ?thesis using ip_chars assms(2) by blast
qed

lemma host_byte_range: "host_byte c \<Longrightarrow> 45 \<le> byte c \<and> byte c \<le> 122 \<and> byte c \<notin> {47, 59, 60, 61, 62, 63, 64, 91, 92, 93, 94, 95, 96}"
  by (auto simp: host_byte_def asciiAlphaNumeric_def byte_def Let_def)

lemma host_ascii: "validProxyHost h e \<Longrightarrow> ascii h"
  using host_chars host_byte_range by (fastforce simp: ascii_def list_all_iff)

section \<open>Lower case\<close>

lemma byte_lower: "byte (lower_byte c) = (if 65 \<le> byte c \<and> byte c \<le> 90 then byte c + 32 else byte c)"
  by (simp add: lower_byte_def byte_def)

lemma go_lower_ascii: "ascii s \<Longrightarrow> go_lower s = map lower_byte s"
  by (induction s) (auto simp: go_lower_def rune_chunks_ascii lower_chunk_def ascii_def comp_def)

lemma lower_byte_idem: "lower_byte (lower_byte c) = lower_byte c"
  using byte_lower[of c] by (auto simp: lower_byte_def)

definition lower_text :: "string \<Rightarrow> bool" where
  "lower_text s \<longleftrightarrow> (\<forall>c \<in> set s. byte c < 65 \<or> 90 < byte c)"

lemma second_bytes: "second_ok b0 b1 \<Longrightarrow> 128 \<le> b1" "second_ok 224 b1 \<Longrightarrow> 160 \<le> b1" "second_ok 240 b1 \<Longrightarrow> 144 \<le> b1"
  by (auto simp: second_ok_def cont_byte_def split: if_splits)

lemma two_byte_value: "194 \<le> b0 \<Longrightarrow> 128 \<le> (b0 - 192) * 64 + (x::nat)"
  by (cases "b0 - 192") auto

lemma three_byte_value: "second_ok b0 b1 \<Longrightarrow> 224 \<le> b0 \<Longrightarrow> 128 \<le> (b0 - 224) * 4096 + (b1 - 128) * 64 + (x::nat)"
  using second_bytes(2)[of b1] by (cases "b0 = 224") auto

lemma four_byte_value: "second_ok b0 b1 \<Longrightarrow> 240 \<le> b0 \<Longrightarrow> 128 \<le> (b0 - 240) * 262144 + (b1 - 128) * 4096 + (x::nat) + y"
  using second_bytes(3)[of b1] by (cases "b0 = 240") auto

lemma tail_rune: "194 \<le> b0 \<Longrightarrow> 128 \<le> fst (decode_tail b0 cs)"
  using two_byte_value three_byte_value four_byte_value
  by (induction b0 cs rule: decode_tail.induct) (simp_all split del: if_split, simp_all split: if_split)

lemma tail_bytes:
  "194 \<le> b0 \<Longrightarrow> c \<in> set (take (snd (decode_tail b0 cs) - 1) cs) \<Longrightarrow> 128 \<le> byte c"
proof (induction b0 cs rule: decode_tail.induct)
  case (4 b0 c1 c2 c3 cs)
  note s = second_bytes(1)[of b0 "byte c1"]
  show ?case using 4 s by (auto simp: cont_byte_def take_Cons' split: if_splits)
next
  case (3 b0 c1 c2)
  note s = second_bytes(1)[of b0 "byte c1"]
  show ?case using 3 s by (auto simp: cont_byte_def take_Cons' split: if_splits)
next
  case (2 b0 c1)
  note s = second_bytes(1)[of b0 "byte c1"]
  show ?case using 2 s by (auto simp: take_Cons' split: if_splits)
qed simp

lemma chunk_bytes:
  "p \<in> set (rune_chunks s) \<Longrightarrow> (\<exists>c. p = (byte c, [c]) \<and> byte c < 128) \<or> (128 \<le> fst p \<and> (\<forall>c \<in> set (snd p). 128 \<le> byte c))"
proof (induction "length s" arbitrary: s rule: less_induct)
  case less
  obtain c cs where s: "s = c # cs" using less.prems by (cases s) auto
  obtain r n where d: "decode_rune s = (r, n)" by fastforce
  have n: "1 \<le> n" using decode_rune_size[of s] d s by simp
  have "p = (r, take n s) \<or> p \<in> set (rune_chunks (drop n s))"
    using less.prems rune_chunks_step[of s] d s by auto
  then show ?case
  proof
    assume "p \<in> set (rune_chunks (drop n s))"
    moreover have "length (drop n s) < length s" using n s by simp
    ultimately show ?thesis using less.hyps by blast
  next
    assume p: "p = (r, take n s)"
    show ?thesis
    proof (cases "byte c < 128")
      case True
      then show ?thesis using d p s by (auto simp: decode_rune_def)
    next
      case False
      show ?thesis
      proof (cases "byte c < 194 \<or> 244 < byte c")
        case True
        then show ?thesis using d p s False by (auto simp: decode_rune_def split: if_splits)
      next
        case ok: False
        then have t: "decode_tail (byte c) cs = (r, n)" using d s False by (auto simp: decode_rune_def)
        have "take n s = c # take (n - 1) cs" using n s by (cases n) auto
        then show ?thesis using tail_bytes[of "byte c" _ cs] tail_rune[of "byte c" cs] t ok False p by auto
      qed
    qed
  qed
qed

lemma byte_of_rune:
  assumes "c \<in> set s" "byte c < 128" shows "byte c \<in> set (runes s)"
proof -
  obtain p where p: "p \<in> set (rune_chunks s)" "c \<in> set (snd p)"
  proof -
    have "c \<in> set (concat (map snd (rune_chunks s)))" using assms(1) by (simp only: concat_chunks)
    then show thesis using that by auto
  qed
  from chunk_bytes[OF p(1)] have "p = (byte c, [c])" using p(2) assms(2) by auto
  then have "fst p = byte c" by simp
  then show ?thesis using p(1) unfolding runes_def by (metis imageI list.set_map)
qed

lemma lower_chunk_text: "p \<in> set (rune_chunks s) \<Longrightarrow> lower_text (lower_chunk p)"
  using chunk_bytes[of p s] by (auto simp: lower_text_def lower_chunk_def byte_lower) (auto simp: byte_def)

lemma go_lower_text: "lower_text (go_lower s)"
  using lower_chunk_text unfolding go_lower_def lower_text_def by fastforce

lemma go_lower_lower: "ascii s \<Longrightarrow> lower_text s \<Longrightarrow> go_lower s = s"
  by (simp add: go_lower_ascii lower_text_def) (auto simp: lower_byte_def intro!: map_idI)

section \<open>Upstreams\<close>

text \<open>What \<open>url.Parse\<close> keeps of a text: its parts are no longer than the text.\<close>

definition url_lengths :: "url_parser \<Rightarrow> bool" where
  "url_lengths parse_url \<longleftrightarrow> (\<forall>raw u. parse_url raw = Some u \<longrightarrow>
     length (u_Scheme u) + 3 + length (u_Hostname u) + (if u_PortText u = [] then 0 else 1 + length (u_PortText u)) \<le> length raw)"

definition upstream_text :: "string \<Rightarrow> bool" where
  "upstream_text s \<longleftrightarrow> (\<exists>h k. s = join_host_port h (itoa k) \<and> validProxyHost h False \<and> lower_text h \<and> 1 \<le> k \<and> k \<le> 65535
     \<and> length s \<le> 256)"

lemma lower_chunk_length: "p \<in> set (rune_chunks s) \<Longrightarrow> length (lower_chunk p) \<le> length (snd p)"
  using chunk_nonempty[of p s] by (cases "snd p") (auto simp: lower_chunk_def)

lemma go_lower_length: "length (go_lower s) \<le> length s"
proof -
  have "sum_list (map (length \<circ> lower_chunk) (rune_chunks s)) \<le> sum_list (map (length \<circ> snd) (rune_chunks s))"
    by (intro sum_list_mono) (simp add: lower_chunk_length)
  moreover have "length s = sum_list (map (length \<circ> snd) (rune_chunks s))"
    using arg_cong[OF concat_chunks[of s], of length] by (simp add: length_concat)
  ultimately show ?thesis by (simp add: go_lower_def length_concat)
qed

lemma lower_byte_colon: "lower_byte c = CHR '':'' \<longleftrightarrow> c = CHR '':''"
proof -
  have "byte (lower_byte c) = byte (CHR '':'') \<longleftrightarrow> byte c = byte (CHR '':'')" by (auto simp: byte_lower) (auto simp: byte_def)
  then show ?thesis unfolding byte_def of_char_eq_iff .
qed

lemma go_lower_colon: "CHR '':'' \<in> set (go_lower s) \<Longrightarrow> CHR '':'' \<in> set s"
proof -
  assume "CHR '':'' \<in> set (go_lower s)"
  then obtain p where p: "p \<in> set (rune_chunks s)" "CHR '':'' \<in> set (lower_chunk p)" by (auto simp: go_lower_def)
  have "CHR '':'' \<in> set (snd p)"
  proof (cases "fst p < 128")
    case True
    then obtain c where "c \<in> set (snd p)" "lower_byte c = CHR '':''"
      using p(2) by (auto simp: lower_chunk_def)
    then show ?thesis using lower_byte_colon by simp
  next
    case False
    then show ?thesis using p(2) by (auto simp: lower_chunk_def split: if_splits)
  qed
  then have "CHR '':'' \<in> set (concat (map snd (rune_chunks s)))" using p(1) by auto
  then show ?thesis by (simp only: concat_chunks)
qed

lemma digits_bound: "list_all is_digit s \<Longrightarrow> digits_value s < 10 ^ length s"
proof (induction s rule: rev_induct)
  case (snoc c s)
  then show ?case by (auto simp: digits_value_snoc is_digit_def)
qed (simp add: digits_value_def)

lemma itoa_shorter: "atoi s = Some k \<Longrightarrow> 1 \<le> k \<Longrightarrow> length (itoa k) \<le> length s"
proof -
  assume a: "atoi s = Some k" and k: "1 \<le> k"
  define t where "t = (if has_prefix s ''-'' \<or> has_prefix s ''+'' then drop 1 s else s)"
  have t: "t \<noteq> []" "list_all is_digit t" "k = int (digits_value t)"
    using a k by (auto simp: atoi_def t_def Let_def split: if_splits)
  have "length (itoa_nat (digits_value t)) \<le> length t"
    using digits_bound[OF t(2)] t(1) by (intro length_itoa_nat) auto
  then show ?thesis using t(3) k by (auto simp: itoa_def t_def split: if_splits)
qed

lemma authority_cases:
  assumes "normalizedAuthority h p \<noteq> []"
  obtains k where "normalizedAuthority h p = join_host_port h (itoa k)" "validProxyHost h False" "atoi p = Some k"
    "1 \<le> k" "k \<le> 65535" "length (itoa k) \<le> length p"
  using assms itoa_shorter by (auto simp: normalizedAuthority_def split: if_splits option.splits)

lemma join_length: "length (join_host_port h p) = length h + length p + (if CHR '':'' \<in> set h then 3 else 1)"
  by (simp add: join_host_port_def)

lemma cut_last_Some: "cut_last d s = Some (a, b) \<Longrightarrow> s = a @ d # b"
  by (auto simp: cut_last_def cut_Some split: option.splits prod.splits)
    (metis append.assoc append_Cons append_Nil rev.simps(2) rev_append rev_rev_ident)

lemma split_length:
  assumes "split_host_port raw = Some (h, p)"
  shows "length h + length p + (if CHR '':'' \<in> set h then 3 else 1) \<le> length raw"
proof -
  obtain a where c: "cut_last CHR '':'' raw = Some (a, p)"
    using assms by (auto simp: split_host_port_def split: option.splits prod.splits if_splits)
  then have raw: "raw = a @ CHR '':'' # p" by (rule cut_last_Some)
  show ?thesis
  proof (cases "has_prefix raw ''[''")
    case True
    then obtain b x where x: "cut CHR '']'' raw = Some (b, x)" "length b + 1 = length a" "h = drop 1 b"
      using assms c by (auto simp: split_host_port_def split: option.splits prod.splits if_splits)
    have "b \<noteq> []" using True x(1) by (auto simp: has_prefix_iff cut_Some)
    then have "length h + 2 = length a" using x by (cases b) auto
    then show ?thesis by (simp add: raw)
  next
    case False
    then have "h = a" "CHR '':'' \<notin> set a" using assms c by (auto simp: split_host_port_def split: if_splits)
    then show ?thesis by (simp add: raw)
  qed
qed

lemma sanitized_text:
  assumes law: "url_lengths parse_url" and ne: "sanitizeUpstream parse_url raw0 \<noteq> []"
  shows "upstream_text (sanitizeUpstream parse_url raw0)"
proof -
  define raw where "raw = trim_space raw0"
  have l: "length raw \<le> 256" using ne by (auto simp: sanitizeUpstream_def raw_def Let_def split: if_splits)
  obtain h p where a: "sanitizeUpstream parse_url raw0 = normalizedAuthority (go_lower h) p"
    and b: "length h + length p + (if CHR '':'' \<in> set h then 3 else 1) \<le> length raw"
  proof (cases "contains raw ''://''")
    case True
    then obtain u where u: "parse_url raw = Some u" "u_Scheme u = ''http'' \<or> u_Scheme u = ''https'' \<or> u_Scheme u = ''h2c''"
      "sanitizeUpstream parse_url raw0 = normalizedAuthority (go_lower (u_Hostname u))
         (if u_PortText u = [] then (if u_Scheme u = ''https'' then ''443'' else ''80'') else u_PortText u)"
      using ne by (auto simp: sanitizeUpstream_def raw_def[symmetric] Let_def split: if_splits option.splits)
    have "length (u_Scheme u) + 3 + length (u_Hostname u) + (if u_PortText u = [] then 0 else 1 + length (u_PortText u)) \<le> length raw"
      using law u(1) by (simp add: url_lengths_def)
    then show ?thesis using that[OF u(3)] u(2) by (auto split: if_splits)
  next
    case False
    then obtain h p where "split_host_port raw = Some (h, p)" "sanitizeUpstream parse_url raw0 = normalizedAuthority (go_lower h) p"
      using ne by (auto simp: sanitizeUpstream_def raw_def[symmetric] Let_def split: if_splits option.splits)
    then show ?thesis using that split_length by blast
  qed
  from ne[unfolded a] obtain k where k: "normalizedAuthority (go_lower h) p = join_host_port (go_lower h) (itoa k)"
    "validProxyHost (go_lower h) False" "1 \<le> k" "k \<le> 65535" "length (itoa k) \<le> length p" by (rule authority_cases)
  have "length (join_host_port (go_lower h) (itoa k)) \<le> 256"
    using join_length[of "go_lower h" "itoa k"] go_lower_length[of h] go_lower_colon[of h] b k(5) l by (auto split: if_splits)
  then show ?thesis unfolding upstream_text_def a k(1) using k go_lower_text by blast
qed

lemma itoa_digits: "1 \<le> k \<Longrightarrow> c \<in> set (itoa k) \<Longrightarrow> is_digit c"
  using itoa_nat_digits by (auto simp: itoa_def list_all_iff)

lemma upstream_chars:
  assumes "validProxyHost h False" "1 \<le> k" "c \<in> set (join_host_port h (itoa k))"
  shows "host_byte c \<or> c = CHR ''['' \<or> c = CHR '']''"
  using assms(3) host_chars[OF assms(1)] itoa_digits[OF assms(2)] digit_host_byte
  by (auto simp: join_host_port_def host_byte_def split: if_splits)

lemma trim_printable: "\<forall>c \<in> set s. 33 \<le> byte c \<and> byte c \<le> 126 \<Longrightarrow> trim_space s = s"
proof -
  assume a: "\<forall>c \<in> set s. 33 \<le> byte c \<and> byte c \<le> 126"
  then have asc: "ascii s" by (auto simp: ascii_def list_all_iff)
  have sp: "\<not> is_space (fst q)" if "q \<in> set (rune_chunks s)" for q
    using that a unfolding rune_chunks_ascii[OF asc] by (auto simp: is_space_def)
  have "dropWhile (\<lambda>p. is_space (fst p)) ps = ps" if "set ps = set (rune_chunks s)" for ps
    unfolding dropWhile_stuck using sp that by (cases ps) auto
  then have "trim_chunks (rune_chunks s) = rune_chunks s" unfolding trim_chunks_def by simp
  then show ?thesis by (simp add: trim_space_def concat_chunks)
qed

lemma split_upstream:
  assumes "validProxyHost h False" "1 \<le> k"
  shows "split_host_port (join_host_port h (itoa k)) = Some (h, itoa k)"
proof (rule split_join_host_port)
  show "CHR '':'' \<notin> set (itoa k)" using itoa_digits[OF assms(2), of "CHR '':''"] by (auto simp: is_digit_def byte_def)
  have "c \<in> set (h @ itoa k) \<Longrightarrow> host_byte c" for c
    using host_chars[OF assms(1)] itoa_digits[OF assms(2)] digit_host_byte by auto
  moreover have "\<not> host_byte CHR ''[''" "\<not> host_byte CHR '']''"
    by (simp_all add: host_byte_def asciiAlphaNumeric_def byte_def)
  ultimately show "CHR ''['' \<notin> set (h @ itoa k)" "CHR '']'' \<notin> set (h @ itoa k)" by blast+
qed

lemma upstream_valid: "upstream_text s \<Longrightarrow> validProxyUpstream s"
proof -
  assume "upstream_text s"
  then obtain h k where s: "s = join_host_port h (itoa k)" "validProxyHost h False" "1 \<le> k" "k \<le> 65535" "length s \<le> 256"
    by (auto simp: upstream_text_def)
  have "c \<in> set ''/@?#'' \<Longrightarrow> \<not> (host_byte c \<or> c = CHR ''['' \<or> c = CHR '']'')" for c
    by (auto simp: host_byte_def asciiAlphaNumeric_def byte_def)
  then have c: "\<not> contains_any s ''/@?#''"
    using upstream_chars[OF s(2,3)] unfolding contains_any_def list_ex_iff s(1) by blast
  have "h \<noteq> []" "itoa k \<noteq> []" using s(2,3) itoa_nat_digits[of "nat k"] by (auto simp: validProxyHost_def itoa_def)
  then have "1 \<le> length h" "1 \<le> length (itoa k)" by (simp_all add: Suc_leI)
  then have "3 \<le> length s" using join_length[of h "itoa k"] s(1) by auto
  then show ?thesis using c s split_upstream[OF s(2,3)] atoi_itoa[of "nat k"] by (auto simp: validProxyUpstream_def)
qed

lemma upstream_fixed: "upstream_text s \<Longrightarrow> sanitizeUpstream parse_url s = s"
proof -
  assume "upstream_text s"
  then obtain h k where s: "s = join_host_port h (itoa k)" "validProxyHost h False" "lower_text h" "1 \<le> k" "k \<le> 65535" "length s \<le> 256"
    by (auto simp: upstream_text_def)
  have ch: "c \<in> set s \<Longrightarrow> host_byte c \<or> c = CHR ''['' \<or> c = CHR '']''" for c using upstream_chars[OF s(2,4)] s(1) by blast
  have "33 \<le> byte c \<and> byte c \<le> 126" if "c \<in> set s" for c
    using ch[OF that] host_byte_range[of c] by (auto simp: byte_def)
  then have t: "trim_space s = s" by (intro trim_printable) blast
  have no: "c \<in> set ''$@?#/'' \<Longrightarrow> \<not> (host_byte c \<or> c = CHR ''['' \<or> c = CHR '']'')" for c
    by (auto simp: host_byte_def asciiAlphaNumeric_def byte_def)
  then have c: "\<not> contains_any s ''$@?#''" using ch unfolding contains_any_def list_ex_iff by auto
  have "CHR ''/'' \<notin> set s" using no[of "CHR ''/''"] ch by auto
  then have u: "\<not> contains s ''://''" unfolding contains_iff by auto
  have "s \<noteq> []" using s(1) by (auto simp: join_host_port_def split: if_splits)
  then show ?thesis
    using t c u s split_upstream[OF s(2,4)] go_lower_lower[OF host_ascii[OF s(2)] s(3)] atoi_itoa[of "nat k"]
    by (simp add: sanitizeUpstream_def Let_def normalizedAuthority_def)
qed

section \<open>Normal routes\<close>

definition truncated :: "discovered_route \<Rightarrow> discovered_route" where
  "truncated r = r\<lparr>xr_Route := (xr_Route r)\<lparr>wr_Upstreams := take 16 (wr_Upstreams (xr_Route r))\<rparr>\<rparr>"

definition normal_route :: "discovered_route \<Rightarrow> bool" where
  "normal_route r \<longleftrightarrow> validProxyWorkloadKey (xr_WorkloadKey r) \<and> validRouteKind (wr_Kind (xr_Route r))
     \<and> (wr_Scheme (xr_Route r) = ''http'' \<or> wr_Scheme (xr_Route r) = ''https'')
     \<and> 1 \<le> wr_Port (xr_Route r) \<and> wr_Port (xr_Route r) \<le> 65535
     \<and> validProxyHost (wr_Host (xr_Route r)) True \<and> lower_text (wr_Host (xr_Route r))
     \<and> validProxyPath (wr_Path (xr_Route r)) \<and> trim_space (wr_Path (xr_Route r)) = wr_Path (xr_Route r)
     \<and> sorted (wr_Upstreams (xr_Route r)) \<and> distinct (wr_Upstreams (xr_Route r))
     \<and> (\<forall>u \<in> set (wr_Upstreams (xr_Route r)). upstream_text u)"

lemma chunks_of_suffix: "rune_chunks s = l @ t \<Longrightarrow> rune_chunks (concat (map snd t)) = t"
proof (induction l arbitrary: s)
  case Nil
  then show ?case using concat_chunks[of s] by simp
next
  case (Cons p l)
  then have "s \<noteq> []" by auto
  then have "rune_chunks (drop (snd (decode_rune s)) s) = l @ t" using Cons.prems rune_chunks_step[of s] by simp
  then show ?case by (rule Cons.IH)
qed

lemma prefix_of_chunks:
  "xs @ ys = us @ vs \<Longrightarrow> \<forall>p \<in> set (xs @ ys). snd p \<noteq> [] \<Longrightarrow> concat (map snd xs) = concat (map snd us) \<Longrightarrow> xs = us"
proof (induction xs arbitrary: us)
  case Nil
  then show ?case by (cases us) auto
next
  case (Cons x xs)
  then show ?case by (cases us) auto
qed

lemma trim_twice: "valid_utf8 (trim_space s) \<Longrightarrow> trim_space (trim_space s) = trim_space s"
proof -
  assume v: "valid_utf8 (trim_space s)"
  let ?sp = "\<lambda>p. is_space (fst p)"
  define a where "a = takeWhile ?sp (rune_chunks s)"
  define m where "m = dropWhile ?sp (rune_chunks s)"
  have am: "rune_chunks s = a @ m" by (simp add: a_def m_def)
  define t where "t = trim_chunks (rune_chunks s)"
  have t: "t = rev (dropWhile ?sp (rev m))" by (simp add: t_def trim_chunks_def m_def)
  obtain r where r: "m = t @ r"
    using t by (metis rev_append rev_rev_ident takeWhile_dropWhile_id)
  have T: "trim_space s = concat (map snd t)" by (simp add: trim_space_def t_def)
  have "rune_chunks (concat (map snd (t @ r))) = t @ r" using chunks_of_suffix[of s a "t @ r"] am r by simp
  then have "rune_chunks (trim_space s) @ rune_chunks (concat (map snd r)) = t @ r"
    using rune_chunks_append[OF v] by (simp add: T)
  moreover have "\<forall>p \<in> set (rune_chunks (trim_space s) @ rune_chunks (concat (map snd r))). snd p \<noteq> []"
    using chunk_nonempty by auto
  ultimately have "rune_chunks (trim_space s) = t"
    by (rule prefix_of_chunks) (simp add: concat_chunks T)
  then show ?thesis using trim_chunks_idem[of "rune_chunks s"] by (simp add: trim_space_def[of "trim_space s"] t_def) (simp add: T t_def)
qed

lemma unique_sorted_props [simp]:
  "sorted (unique_sorted vs)" "distinct (unique_sorted vs)" "set (unique_sorted vs) = set vs - {[]}"
  by (auto simp: unique_sorted_def)

lemma unique_sorted_fixed: "sorted us \<Longrightarrow> distinct us \<Longrightarrow> [] \<notin> set us \<Longrightarrow> unique_sorted us = us"
  by (simp add: unique_sorted_def sorted_sort_id remdups_id_iff_distinct filter_id_conv[THEN iffD2] cong: filter_cong)
    (metis (mono_tags, lifting) filter_True remdups_id_iff_distinct sorted_sort_id)

lemma upstream_not_empty: "upstream_text u \<Longrightarrow> u \<noteq> []"
  by (auto simp: upstream_text_def join_host_port_def split: if_splits)

lemma normalized_normal:
  assumes law: "url_lengths parse_url" and n: "normalizeProxyRoute parse_url k r = Some d"
  shows "normal_route d" "length (wr_Upstreams (xr_Route d)) \<le> 16"
proof -
  let ?u = "unique_sorted (map (sanitizeUpstream parse_url) (wr_Upstreams r))"
  let ?path = "if trim_space (wr_Path r) = [] then ''/'' else trim_space (wr_Path r)"
  have p: "validProxyPath ?path" and d: "xr_WorkloadKey d = k" "wr_Path (xr_Route d) = ?path" "wr_Upstreams (xr_Route d) = take 16 ?u"
    and o: "validProxyWorkloadKey k" "validRouteKind (wr_Kind (xr_Route d))"
      "wr_Scheme (xr_Route d) = ''http'' \<or> wr_Scheme (xr_Route d) = ''https''"
      "1 \<le> wr_Port (xr_Route d)" "wr_Port (xr_Route d) \<le> 65535" "validProxyHost (wr_Host (xr_Route d)) True"
      "wr_Host (xr_Route d) = go_lower (trim_suffix (trim_space (wr_Host r)) ''.'')"
    using n by (auto simp: normalizeProxyRoute_def Let_def not_less split: if_splits)
  have "trim_space ''/'' = ''/''" by (rule trim_printable) (simp add: byte_def)
  moreover have "trim_space (wr_Path r) \<noteq> [] \<Longrightarrow> valid_utf8 (trim_space (wr_Path r))"
    using p by (auto simp: validProxyPath_def split: if_splits)
  ultimately have t: "trim_space ?path = ?path" using trim_twice by simp
  have "upstream_text u" if "u \<in> set (take 16 ?u)" for u
  proof -
    have "u \<in> set ?u" using that by (rule in_set_takeD)
    then show ?thesis using sanitized_text[OF law] by auto
  qed
  then show "normal_route d"
    using o p d t go_lower_text by (auto simp: normal_route_def sorted_wrt_take)
  show "length (wr_Upstreams (xr_Route d)) \<le> 16" by (simp add: d)
qed

lemma host_fixed:
  assumes "validProxyHost h True" "lower_text h"
  shows "go_lower (trim_suffix (trim_space h) ''.'') = h"
proof -
  have "33 \<le> byte c \<and> byte c \<le> 126" if "c \<in> set h" for c
    using host_chars[OF assms(1) that] host_byte_range[of c] by auto
  then have t: "trim_space h = h" by (intro trim_printable) blast
  have "\<not> has_suffix h ''.''" using assms(1) by (auto simp: validProxyHost_def has_suffix_def split: if_splits)
  then have "trim_suffix (trim_space h) ''.'' = h" by (simp add: t trim_suffix_def)
  then show ?thesis using go_lower_lower[OF host_ascii[OF assms(1)] assms(2)] by simp
qed

lemma scheme_fixed: "go_lower (trim_space ''http'') = ''http''" "go_lower (trim_space ''https'') = ''https''"
proof -
  have t: "trim_space ''http'' = ''http''" "trim_space ''https'' = ''https''" by (rule trim_printable; simp add: byte_def)+
  show "go_lower (trim_space ''http'') = ''http''" "go_lower (trim_space ''https'') = ''https''"
    unfolding t by (rule go_lower_lower; simp add: ascii_def lower_text_def byte_def)+
qed

lemma normalize_again:
  assumes "normal_route d"
  shows "normalizeProxyRoute parse_url (xr_WorkloadKey d) (xr_Route d) = Some (truncated d)"
proof -
  let ?r = "xr_Route d"
  have n: "validProxyWorkloadKey (xr_WorkloadKey d)" "validRouteKind (wr_Kind ?r)" "wr_Scheme ?r = ''http'' \<or> wr_Scheme ?r = ''https''"
    "\<not> wr_Port ?r < 1" "\<not> wr_Port ?r > 65535" "validProxyHost (wr_Host ?r) True" "lower_text (wr_Host ?r)"
    "validProxyPath (wr_Path ?r)" "trim_space (wr_Path ?r) = wr_Path ?r"
    and u: "sorted (wr_Upstreams ?r)" "distinct (wr_Upstreams ?r)" "\<forall>u \<in> set (wr_Upstreams ?r). upstream_text u"
    using assms by (auto simp: normal_route_def)
  have "map (sanitizeUpstream parse_url) (wr_Upstreams ?r) = wr_Upstreams ?r"
    using u(3) upstream_fixed by (auto intro!: map_idI)
  moreover have "[] \<notin> set (wr_Upstreams ?r)" using u(3) upstream_not_empty by blast
  ultimately have us: "unique_sorted (map (sanitizeUpstream parse_url) (wr_Upstreams ?r)) = wr_Upstreams ?r"
    using unique_sorted_fixed u by simp
  have sch: "go_lower (trim_space (wr_Scheme ?r)) = wr_Scheme ?r" using n(3) scheme_fixed by auto
  have k: "wr_Kind ?r \<noteq> []" "wr_Path ?r \<noteq> []" using n(2,8) by (auto simp: validRouteKind_def validProxyPath_def)
  show ?thesis
    unfolding normalizeProxyRoute_def Let_def us sch host_fixed[OF n(6,7)] n(9)
    using n k by (simp add: truncated_def)
qed

section \<open>Merging does not depend on the order\<close>

definition same_address :: "discovered_route \<Rightarrow> discovered_route \<Rightarrow> bool" where
  "same_address a b \<longleftrightarrow> xr_WorkloadKey a = xr_WorkloadKey b \<and> wr_Scheme (xr_Route a) = wr_Scheme (xr_Route b)
     \<and> wr_Host (xr_Route a) = wr_Host (xr_Route b) \<and> wr_Port (xr_Route a) = wr_Port (xr_Route b)
     \<and> wr_Path (xr_Route a) = wr_Path (xr_Route b)"

lemma no_zero: "no_controls s \<Longrightarrow> zero_char \<notin> set s"
  using byte_of_rune[of zero_char s] by (auto simp: no_controls_def zero_char_def list_ex_iff byte_def)

lemma key_parts:
  assumes "normal_route r"
  shows "zero_char \<notin> set (xr_WorkloadKey r)" "zero_char \<notin> set (wr_Scheme (xr_Route r))"
    "zero_char \<notin> set (itoa (wr_Port (xr_Route r)))" "zero_char \<notin> set (wr_Path (xr_Route r))"
proof -
  show "zero_char \<notin> set (xr_WorkloadKey r)" "zero_char \<notin> set (wr_Path (xr_Route r))"
    using assms no_zero by (auto simp: normal_route_def validProxyWorkloadKey_def validProxyPath_def no_controls_def split: if_splits)
  show "zero_char \<notin> set (wr_Scheme (xr_Route r))"
    using assms by (auto simp: normal_route_def zero_char_def)
  show "zero_char \<notin> set (itoa (wr_Port (xr_Route r)))"
    using itoa_digits[of "wr_Port (xr_Route r)" zero_char] assms by (auto simp: normal_route_def is_digit_def zero_char_def byte_def)
qed

lemma itoa_inj: "1 \<le> a \<Longrightarrow> 1 \<le> b \<Longrightarrow> itoa a = itoa b \<Longrightarrow> a = b"
  using itoa_nat_inj[of "nat a" "nat b"] by (simp add: itoa_def)

lemma first_part:
  assumes e: "a @ (d :: char) # x = b @ d # y" and da: "d \<notin> set a" and db: "d \<notin> set b"
  shows "a = b \<and> x = y"
proof -
  have "Some (a, x) = cut d (a @ d # x)" by (rule cut_append[OF da, symmetric])
  also have "\<dots> = cut d (b @ d # y)" by (rule arg_cong[OF e])
  also have "\<dots> = Some (b, y)" by (rule cut_append[OF db])
  finally show ?thesis by simp
qed

lemma last_part:
  assumes e: "a @ (d :: char) # x = b @ d # y" and da: "d \<notin> set x" and db: "d \<notin> set y"
  shows "a = b \<and> x = y"
proof -
  have "Some (a, x) = cut_last d (a @ d # x)" by (rule cut_last_append[OF da, symmetric])
  also have "\<dots> = cut_last d (b @ d # y)" by (rule arg_cong[OF e])
  also have "\<dots> = Some (b, y)" by (rule cut_last_append[OF db])
  finally show ?thesis by simp
qed

lemma key_address:
  assumes "normal_route a" "normal_route b" "proxy_key a = proxy_key b"
  shows "same_address a b"
proof -
  note za = key_parts[OF assms(1)] and zb = key_parts[OF assms(2)]
  define u where "u = (\<lambda>r::discovered_route. wr_Host (xr_Route r) @ zero_char # itoa (wr_Port (xr_Route r)) @ zero_char # wr_Path (xr_Route r))"
  have "xr_WorkloadKey a @ zero_char # (wr_Scheme (xr_Route a) @ zero_char # u a) =
    xr_WorkloadKey b @ zero_char # (wr_Scheme (xr_Route b) @ zero_char # u b)"
    using assms(3) by (simp add: proxy_key_def u_def)
  note 1 = first_part[OF this za(1) zb(1)]
  note 2 = first_part[OF conjunct2[OF 1] za(2) zb(2)]
  have "(wr_Host (xr_Route a) @ zero_char # itoa (wr_Port (xr_Route a))) @ zero_char # wr_Path (xr_Route a) =
    (wr_Host (xr_Route b) @ zero_char # itoa (wr_Port (xr_Route b))) @ zero_char # wr_Path (xr_Route b)"
    using conjunct2[OF 2] by (simp add: u_def)
  note 3 = last_part[OF this za(4) zb(4)]
  note 4 = last_part[OF conjunct1[OF 3] za(3) zb(3)]
  have "wr_Port (xr_Route a) = wr_Port (xr_Route b)"
    using itoa_inj 4 assms(1,2) by (simp add: normal_route_def)
  then show ?thesis using 1 2 3 4 by (simp add: same_address_def)
qed

text \<open>What the entry of a key is, in terms of the set of the routes with that key.\<close>

definition members :: "discovered_route list \<Rightarrow> string \<Rightarrow> discovered_route set" where
  "members N k = {r \<in> set N. proxy_key r = k}"

definition describes :: "discovered_route list \<Rightarrow> discovered_route \<Rightarrow> bool" where
  "describes N e \<longleftrightarrow> normal_route e \<and> members N (proxy_key e) \<noteq> {} \<and> (\<forall>r \<in> members N (proxy_key e). same_address r e)
     \<and> (\<exists>r \<in> members N (proxy_key e). wr_Kind (xr_Route r) = wr_Kind (xr_Route e))
     \<and> (\<forall>r \<in> members N (proxy_key e). route_kind_rank (wr_Kind (xr_Route r)) \<le> route_kind_rank (wr_Kind (xr_Route e)))
     \<and> set (wr_Upstreams (xr_Route e)) = (\<Union>r \<in> members N (proxy_key e). set (wr_Upstreams (xr_Route r)))"

lemma join_address [simp]: "proxy_key (join_routes e r) = proxy_key e" "same_address (join_routes e r) e"
  by (simp_all add: proxy_key_def join_routes_def same_address_def)

lemma rank_inj:
  "validRouteKind a \<Longrightarrow> validRouteKind b \<Longrightarrow> route_kind_rank a = route_kind_rank b \<Longrightarrow> a = b"
  by (auto simp: validRouteKind_def route_kind_rank_def split: if_splits)

lemma join_normal:
  assumes "normal_route e" "normal_route r" shows "normal_route (join_routes e r)"
proof -
  have "upstream_text u" if "u \<in> set (unique_sorted (wr_Upstreams (xr_Route e) @ wr_Upstreams (xr_Route r)))" for u
    using assms that by (auto simp: normal_route_def)
  then show ?thesis using assms by (auto simp: normal_route_def join_routes_def strongerRouteKind_def)
qed

lemma describes_join:
  assumes "describes N e" "normal_route r" "proxy_key e = proxy_key r"
  shows "describes (N @ [r]) (join_routes e r)"
proof -
  have m: "members (N @ [r]) (proxy_key e) = insert r (members N (proxy_key e))" using assms(3) by (auto simp: members_def)
  have ne: "[] \<notin> set (wr_Upstreams (xr_Route x))" if "normal_route x" for x
    using that upstream_not_empty unfolding normal_route_def by blast
  have e: "normal_route e" using assms(1) by (simp add: describes_def)
  have same: "same_address x (join_routes e r)" if "same_address x e" for x
    using that by (simp add: same_address_def join_routes_def)
  have "same_address r e" using key_address[OF assms(2) e] assms(3) by simp
  then have "\<forall>x \<in> members (N @ [r]) (proxy_key e). same_address x (join_routes e r)"
    using assms(1) same unfolding m describes_def by blast
  moreover have "set (wr_Upstreams (xr_Route (join_routes e r))) = (\<Union>x \<in> members (N @ [r]) (proxy_key e). set (wr_Upstreams (xr_Route x)))"
    using assms(1) ne[OF e] ne[OF assms(2)] unfolding m describes_def by (auto simp: join_routes_def)
  moreover have "\<exists>x \<in> members (N @ [r]) (proxy_key e). wr_Kind (xr_Route x) = wr_Kind (xr_Route (join_routes e r))"
    using assms(1) unfolding m describes_def by (auto simp: join_routes_def strongerRouteKind_def)
  moreover have "\<forall>x \<in> members (N @ [r]) (proxy_key e). route_kind_rank (wr_Kind (xr_Route x)) \<le> route_kind_rank (wr_Kind (xr_Route (join_routes e r)))"
    using assms(1) unfolding m describes_def by (auto simp: join_routes_def strongerRouteKind_def)
  ultimately show ?thesis using join_normal[OF e assms(2)] unfolding describes_def join_address m by blast
qed

lemma describes_other: "describes N e \<Longrightarrow> proxy_key e \<noteq> proxy_key r \<Longrightarrow> describes (N @ [r]) e"
proof -
  assume a: "describes N e" "proxy_key e \<noteq> proxy_key r"
  then have "members (N @ [r]) (proxy_key e) = members N (proxy_key e)" by (auto simp: members_def)
  then show ?thesis using a(1) by (simp add: describes_def)
qed

lemma describes_new:
  assumes "normal_route r" "\<forall>x \<in> set N. proxy_key x \<noteq> proxy_key r" shows "describes (N @ [r]) r"
proof -
  have "members (N @ [r]) (proxy_key r) = {r}" using assms(2) by (auto simp: members_def)
  then show ?thesis using assms(1) by (simp add: describes_def same_address_def)
qed

lemma merged_entries:
  assumes "\<forall>r \<in> set N. normal_route r"
  shows "distinct (map proxy_key (foldl merge_route [] N)) \<and> proxy_key ` set (foldl merge_route [] N) = proxy_key ` set N
    \<and> (\<forall>e \<in> set (foldl merge_route [] N). describes N e)"
  using assms
proof (induction N rule: rev_induct)
  case (snoc r N)
  let ?acc = "foldl merge_route [] N"
  have IH: "distinct (map proxy_key ?acc)" "proxy_key ` set ?acc = proxy_key ` set N" "\<forall>e \<in> set ?acc. describes N e"
    and r: "normal_route r" using snoc by auto
  show ?case
  proof (cases "list_ex (\<lambda>e. proxy_key e = proxy_key r) ?acc")
    case True
    let ?acc' = "update_where (\<lambda>e. proxy_key e = proxy_key r) (\<lambda>e. join_routes e r) ?acc"
    have f: "foldl merge_route [] (N @ [r]) = ?acc'" using True by (simp add: merge_route_def)
    have k: "map proxy_key ?acc' = map proxy_key ?acc" by (simp add: update_where_def)
    have "\<forall>e \<in> set ?acc'. describes (N @ [r]) e"
      using IH(3) describes_join[OF _ r] describes_other by (auto simp: set_update_where)
    moreover have "proxy_key r \<in> proxy_key ` set N"
    proof -
      obtain e where "e \<in> set ?acc" "proxy_key e = proxy_key r" using True unfolding list_ex_iff by blast
      then show ?thesis using IH(2) by (metis image_eqI)
    qed
    moreover have "proxy_key ` set ?acc' = proxy_key ` set ?acc" using arg_cong[OF k, of set] by simp
    ultimately show ?thesis unfolding f k using IH(1,2) by auto
  next
    case False
    have f: "foldl merge_route [] (N @ [r]) = ?acc @ [r]" using False by (simp add: merge_route_def)
    have new: "proxy_key r \<notin> proxy_key ` set ?acc" using False by (auto simp: list_ex_iff)
    then have "\<forall>e \<in> set ?acc. describes (N @ [r]) e" using IH(3) describes_other by (metis image_eqI)
    moreover have "describes (N @ [r]) r" using describes_new[OF r] new IH(2) by (metis image_eqI)
    ultimately show ?thesis unfolding f using IH(1,2) new by auto
  qed
qed simp

lemma described_once:
  assumes "describes N e" "describes N' e'" "set N = set N'" "proxy_key e = proxy_key e'"
  shows "e = e'"
proof -
  have m: "members N (proxy_key e) = members N' (proxy_key e')" using assms(3,4) by (simp add: members_def)
  have n: "normal_route e" "normal_route e'" using assms(1,2) by (simp_all add: describes_def)
  have "same_address e e'" by (rule key_address[OF n assms(4)])
  moreover have "wr_Kind (xr_Route e) = wr_Kind (xr_Route e')"
  proof (rule rank_inj)
    show "validRouteKind (wr_Kind (xr_Route e))" "validRouteKind (wr_Kind (xr_Route e'))" using n by (simp_all add: normal_route_def)
    show "route_kind_rank (wr_Kind (xr_Route e)) = route_kind_rank (wr_Kind (xr_Route e'))"
      using assms(1,2) m unfolding describes_def by (metis order_antisym)
  qed
  moreover have "wr_Upstreams (xr_Route e) = wr_Upstreams (xr_Route e')"
    using assms(1,2) m n unfolding describes_def normal_route_def by (intro sorted_distinct_set_unique) simp_all
  ultimately show ?thesis by (cases e; cases e'; cases "xr_Route e"; cases "xr_Route e'") (simp add: same_address_def)
qed

lemma normalized_all:
  "url_lengths parse_url \<Longrightarrow> r \<in> set (normalized_routes parse_url rs) \<Longrightarrow> normal_route r \<and> length (wr_Upstreams (xr_Route r)) \<le> 16"
  using normalized_normal by (auto simp: normalized_routes_def List.map_filter_def)

lemma set_normalized: "set rs = set rs' \<Longrightarrow> set (normalized_routes parse_url rs) = set (normalized_routes parse_url rs')"
  by (auto simp: normalized_routes_def List.map_filter_def)

lemma merge_order:
  assumes law: "url_lengths parse_url" and s: "set rs = set rs'"
  shows "mergeProxyRoutes parse_url rs = mergeProxyRoutes parse_url rs'"
proof -
  let ?N = "normalized_routes parse_url rs" and ?N' = "normalized_routes parse_url rs'"
  let ?a = "foldl merge_route [] ?N" and ?a' = "foldl merge_route [] ?N'"
  note m = merged_entries[of ?N] merged_entries[of ?N']
  have n: "\<forall>r \<in> set ?N. normal_route r" "\<forall>r \<in> set ?N'. normal_route r" using normalized_all[OF law] by blast+
  note m = merged_entries[OF n(1)] merged_entries[OF n(2)]
  have sN: "set ?N = set ?N'" by (rule set_normalized[OF s])
  have sub: "e \<in> set A'"
    if e: "e \<in> set A" "describes M e" and A': "\<forall>x \<in> set A'. describes M' x" and M: "set M = set M'"
      and k: "proxy_key ` set A = proxy_key ` set A'" for e A A' M M'
  proof -
    obtain x where x: "x \<in> set A'" "proxy_key x = proxy_key e" using e(1) k by (metis image_iff)
    then have "e = x" using described_once[OF e(2) _ M] A' by metis
    then show ?thesis using x by simp
  qed
  have kk: "proxy_key ` set ?a = proxy_key ` set ?a'" using m sN by simp
  have "set ?a = set ?a'"
  proof
    show "set ?a \<subseteq> set ?a'" using sub[of _ ?a ?N ?a' ?N'] m sN kk by blast
    show "set ?a' \<subseteq> set ?a" using sub[of _ ?a' ?N' ?a ?N] m sN[symmetric] kk[symmetric] by blast
  qed
  then show ?thesis unfolding mergeProxyRoutes_def
    using m by (intro sort_key_cong_set) (auto simp: distinct_map)
qed

section \<open>From the helper to the Agent\<close>

text \<open>What the JSON library does with the records of a discovery: a line holds no newline, has no blanks around
  it, and is read as the record it was written from.\<close>

definition lines_decode :: "(proxy_record \<Rightarrow> string) \<Rightarrow> (string \<Rightarrow> proxy_record option) \<Rightarrow> proxy_record list \<Rightarrow> bool" where
  "lines_decode encode decode rs \<longleftrightarrow> (\<forall>r \<in> set rs. encode r \<noteq> [] \<and> CHR 0x0A \<notin> set (encode r) \<and> trim_space (encode r) = encode r
     \<and> decode (encode r) = Some r)"

lemma lines_back:
  "\<forall>l \<in> set ls. d \<notin> set l \<Longrightarrow> split_on d (concat (map (\<lambda>l. l @ [d]) ls)) = ls @ [[]]"
  by (induction ls) (simp_all add: split_on_append)

lemma decoded_lines:
  assumes "lines_decode encode decode rs"
  shows "List.map_filter decode (filter (\<lambda>l. l \<noteq> []) (map trim_space (split_on (CHR 0x0A)
    (concat (map (\<lambda>r. encode r @ [CHR 0x0A]) rs))))) = rs"
proof -
  have "concat (map (\<lambda>r. encode r @ [CHR 0x0A]) rs) = concat (map (\<lambda>l. l @ [CHR 0x0A]) (map encode rs))" by (simp add: comp_def)
  also have "split_on (CHR 0x0A) \<dots> = map encode rs @ [[]]"
    using assms by (intro lines_back) (auto simp: lines_decode_def)
  finally have s: "split_on (CHR 0x0A) (concat (map (\<lambda>r. encode r @ [CHR 0x0A]) rs)) = map encode rs @ [[]]" .
  have t: "map trim_space (map encode rs @ [[]]) = map encode rs @ [[]]"
    using assms by (simp add: lines_decode_def trim_space_empty)
  have f: "filter (\<lambda>l. l \<noteq> []) (map encode rs @ [[]]) = map encode rs"
    using assms by (auto simp: lines_decode_def filter_id_conv)
  have d: "List.map_filter decode (map encode rs) = rs"
    using assms by (induction rs) (auto simp: lines_decode_def List.map_filter_def)
  show ?thesis unfolding s t f d by (rule refl)
qed

lemma truncated_key [simp]: "proxy_key (truncated r) = proxy_key r"
  by (simp add: truncated_def proxy_key_def)

lemma truncated_normal: "normal_route r \<Longrightarrow> normal_route (truncated r) \<and> length (wr_Upstreams (xr_Route (truncated r))) \<le> 16"
  by (auto simp: normal_route_def truncated_def sorted_wrt_take dest: in_set_takeD)

lemma truncated_short: "length (wr_Upstreams (xr_Route r)) \<le> 16 \<Longrightarrow> truncated r = r"
  by (simp add: truncated_def)

lemma add_routes:
  assumes "\<forall>r \<in> set rs. normal_route r" "length (xd_Routes d) + length rs \<le> maxProxyRoutes"
  shows "foldl (add_record parse_url) d (map RouteRecord rs) = d\<lparr>xd_Routes := xd_Routes d @ map truncated rs\<rparr>"
  using assms
proof (induction rs arbitrary: d)
  case (Cons r rs)
  have "add_record parse_url d (RouteRecord r) = d\<lparr>xd_Routes := xd_Routes d @ [truncated r]\<rparr>"
    using Cons.prems normalize_again[of r] by (simp add: add_record_def)
  then show ?case using Cons.prems Cons.IH[of "d\<lparr>xd_Routes := xd_Routes d @ [truncated r]\<rparr>"] by simp
qed simp

lemma add_warnings:
  assumes "\<forall>w \<in> set ws. validProxyWarning w" "length (xd_Warnings d) + length ws \<le> maxProxyWarnings"
  shows "foldl (add_record parse_url) d (map WarningRecord ws) = d\<lparr>xd_Warnings := xd_Warnings d @ ws\<rparr>"
  using assms
proof (induction ws arbitrary: d)
  case (Cons w ws)
  have "add_record parse_url d (WarningRecord w) = d\<lparr>xd_Warnings := xd_Warnings d @ [w]\<rparr>"
    using Cons.prems by (simp add: add_record_def)
  then show ?case using Cons.prems Cons.IH[of "d\<lparr>xd_Warnings := xd_Warnings d @ [w]\<rparr>"] by simp
qed simp

lemma merge_distinct: "distinct (map proxy_key (acc @ rs)) \<Longrightarrow> foldl merge_route acc rs = acc @ rs"
proof (induction rs arbitrary: acc)
  case (Cons r rs)
  have "\<not> list_ex (\<lambda>e. proxy_key e = proxy_key r) acc"
    using Cons.prems by (auto simp: list_ex_iff) (metis image_eqI)
  then show ?case using Cons.prems Cons.IH[of "acc @ [r]"] by (simp add: merge_route_def)
qed simp

lemma merge_fixed:
  assumes "\<forall>r \<in> set rs. normal_route r \<and> length (wr_Upstreams (xr_Route r)) \<le> 16" "distinct (map proxy_key rs)"
    and "sorted (map proxy_key rs)"
  shows "mergeProxyRoutes parse_url rs = rs"
proof -
  have "normalized_routes parse_url rs = rs"
    using assms(1) normalize_again truncated_short
    by (induction rs) (auto simp: normalized_routes_def List.map_filter_def)
  then have "mergeProxyRoutes parse_url rs = sort_key proxy_key rs"
    using merge_distinct[of "[]" rs] assms(2) by (simp add: mergeProxyRoutes_def)
  also have "\<dots> = rs" using assms(3) by (simp add: sort_key_id_if_sorted)
  finally show ?thesis .
qed

lemma merged_normal:
  assumes "url_lengths parse_url"
  shows "\<forall>r \<in> set (mergeProxyRoutes parse_url rs). normal_route r"
    "distinct (map proxy_key (mergeProxyRoutes parse_url rs))" "sorted (map proxy_key (mergeProxyRoutes parse_url rs))"
proof -
  have n: "\<forall>r \<in> set (normalized_routes parse_url rs). normal_route r" using normalized_all[OF assms] by blast
  note m = merged_entries[OF n]
  show "\<forall>r \<in> set (mergeProxyRoutes parse_url rs). normal_route r" using m by (simp add: mergeProxyRoutes_def describes_def)
  show "distinct (map proxy_key (mergeProxyRoutes parse_url rs))" using m by (simp add: mergeProxyRoutes_def distinct_map)
  show "sorted (map proxy_key (mergeProxyRoutes parse_url rs))" by (simp add: mergeProxyRoutes_def)
qed

lemma discovery_crosses:
  assumes law: "url_lengths parse_url" and json: "lines_decode encode decode (discovery_records parse_url d)"
  shows "parseProxyDiscovery parse_url decode (writeProxyDiscovery parse_url encode d) =
    \<lparr>xd_Routes = map truncated (take maxProxyRoutes (mergeProxyRoutes parse_url (xd_Routes d))),
     xd_Warnings = filter validProxyWarning (take maxProxyWarnings (xd_Warnings d))\<rparr>"
proof -
  let ?m = "take maxProxyRoutes (mergeProxyRoutes parse_url (xd_Routes d))"
  let ?w = "filter validProxyWarning (take maxProxyWarnings (xd_Warnings d))"
  have m: "\<forall>r \<in> set ?m. normal_route r" "distinct (map proxy_key ?m)" "sorted (map proxy_key ?m)"
    using merged_normal[OF law, of "xd_Routes d"] in_set_takeD[of _ maxProxyRoutes "mergeProxyRoutes parse_url (xd_Routes d)"]
    by (auto simp: take_map[symmetric] sorted_wrt_take)
  have "length ?w \<le> maxProxyWarnings" by (rule order_trans[OF length_filter_le]) simp
  then have f: "foldl (add_record parse_url) \<lparr>xd_Routes = [], xd_Warnings = []\<rparr> (discovery_records parse_url d) =
    \<lparr>xd_Routes = map truncated ?m, xd_Warnings = ?w\<rparr>"
    using m(1) by (simp add: discovery_records_def add_routes add_warnings)
  have "mergeProxyRoutes parse_url (map truncated ?m) = map truncated ?m"
    by (rule merge_fixed) (use m truncated_normal in \<open>auto simp: comp_def\<close>)
  then show ?thesis
    unfolding parseProxyDiscovery_def writeProxyDiscovery_def Let_def decoded_lines[OF json] f by simp
qed

section \<open>The Hub accepts what was discovered\<close>

lemma path_length: "validProxyPath p \<Longrightarrow> length p \<le> 512 \<and> valid_utf8 p \<and> \<not> containsControl p"
  by (auto simp: validProxyPath_def containsControl_def list_ex_iff split: if_splits)

lemma port_length: "1 \<le> p \<Longrightarrow> p \<le> 65535 \<Longrightarrow> length (itoa p) \<le> 5"
  using length_itoa_nat[of "nat p" 5] by (simp add: itoa_def)

lemma authority_text:
  assumes "validProxyHost h True" "1 \<le> p" "p \<le> 65535"
  shows "length (join_host_port h (itoa p)) \<le> 261" "ascii (join_host_port h (itoa p))"
    "\<forall>c \<in> set (join_host_port h (itoa p)). \<not> is_control (byte c)"
proof -
  have h: "length h \<le> 253" using assms(1) by (cases "h = []") (auto simp: validProxyHost_def split: if_splits)
  show "length (join_host_port h (itoa p)) \<le> 261"
    using h join_length[of h "itoa p"] port_length[OF assms(2,3)] by (auto split: if_splits)
  have c: "45 \<le> byte c \<and> byte c \<le> 122" if "c \<in> set (join_host_port h (itoa p))" for c
    using that host_chars[OF assms(1), of c] host_byte_range[of c] itoa_digits[OF assms(2), of c]
    by (auto simp: join_host_port_def is_digit_def byte_def split: if_splits)
  show "ascii (join_host_port h (itoa p))" using c by (fastforce simp: ascii_def list_all_iff)
  show "\<forall>c \<in> set (join_host_port h (itoa p)). \<not> is_control (byte c)" using c by (fastforce simp: is_control_def)
qed

lemma route_key_ok:
  assumes "normal_route r" shows "valid_identifier (wire_route_key (xr_Route r)) 1024"
proof -
  let ?r = "xr_Route r"
  let ?a = "wr_Scheme ?r @ ''://'' @ join_host_port (wr_Host ?r) (itoa (wr_Port ?r))"
  have n: "wr_Scheme ?r = ''http'' \<or> wr_Scheme ?r = ''https''" "validProxyHost (wr_Host ?r) True" "1 \<le> wr_Port ?r" "wr_Port ?r \<le> 65535"
    "validProxyPath (wr_Path ?r)" using assms by (simp_all add: normal_route_def)
  note t = authority_text[OF n(2-4)] and p = path_length[OF n(5)]
  have s: "ascii (wr_Scheme ?r @ ''://'')" "length (wr_Scheme ?r) \<le> 5" "\<forall>c \<in> set (wr_Scheme ?r @ ''://''). \<not> is_control (byte c)"
    using n(1) by (auto simp: ascii_def is_control_def byte_def)
  have asc: "ascii ?a" using s(1) t(2) by (simp add: ascii_def)
  have "\<not> containsControl ?a"
    unfolding containsControl_def runes_ascii[OF asc] list_ex_iff using s(3) t(3) by auto
  then have "\<not> containsControl (?a @ wr_Path ?r)"
    using p containsControl_append[OF valid_utf8_ascii[OF asc]] by blast
  moreover have "wire_route_key ?r = ?a @ wr_Path ?r" by (simp add: wire_route_key_def)
  moreover have "length (?a @ wr_Path ?r) \<le> 1024" using s(2) t(1) p by simp
  ultimately show ?thesis by (simp add: valid_identifier_def)
qed

lemma kind_projected:
  "projectRouteKind k \<in> {RouteUnknown, RouteProxy, RouteStatic, RouteSite}"
  by (simp add: projectRouteKind_def)

lemma discovered_accepted:
  assumes n: "normal_route r" and u: "length (wr_Upstreams (xr_Route r)) \<le> 16" and k: "sv_Key s \<in> set workloads"
  shows "validateRoute hid workloads (project_route hid s (xr_Route r)) = Inr ()"
proof -
  have us: "validateUpstreams (wr_Upstreams (xr_Route r)) = Inr ()"
    using n upstream_valid by (auto simp: validateUpstreams_def check_distinct_ok_Nil normal_route_def)
  show ?thesis
    using n u k us route_key_ok[OF n] kind_projected[of "wr_Kind (xr_Route r)"]
    unfolding validateRoute_def
    by (auto simp: andThen_ok project_route_def route_key_def wire_route_key_def normal_route_def not_less)
qed

section \<open>Properties\<close>

text \<open>What is merged does not depend on the order in which the candidates were found, nor on how often: the
  maps of Go, over which the readers of the configurations range in any order, do not show in the result.\<close>

theorem merge_order_irrelevant:
  assumes "url_lengths parse_url" "set rs = set rs'"
  shows "mergeProxyRoutes parse_url rs = mergeProxyRoutes parse_url rs'"
  by (rule merge_order[OF assms])


text \<open>Whatever the helper discovers, every route that reaches the Agent passes the Hub's validation of an
  observation once it is projected: no proxy configuration can make the Hub refuse the observation of its
  host.\<close>

theorem discovered_routes_accepted:
  assumes "url_lengths parse_url" "lines_decode encode decode (discovery_records parse_url d)"
    and "r \<in> set (xd_Routes (parseProxyDiscovery parse_url decode (writeProxyDiscovery parse_url encode d)))"
    and "sv_Key s \<in> set workloads"
  shows "validateRoute hid workloads (project_route hid s (xr_Route r)) = Inr ()"
proof -
  have "r \<in> truncated ` set (mergeProxyRoutes parse_url (xd_Routes d))"
    using assms(3) discovery_crosses[OF assms(1,2)] by (auto dest: in_set_takeD)
  then have "normal_route r \<and> length (wr_Upstreams (xr_Route r)) \<le> 16"
    using merged_normal(1)[OF assms(1), of "xd_Routes d"] truncated_normal by auto
  then show ?thesis using discovered_accepted assms(4) by blast
qed

section \<open>A concrete discovery\<close>

definition app_route :: discovered_route where
  "app_route = \<lparr>xr_WorkloadKey = ''docker:web'', xr_Route = \<lparr>wr_Kind = ''proxy'', wr_Scheme = ''https'', wr_Host = ''example'', wr_Port = 443,
     wr_Path = ''/'', wr_Upstreams = [''app:80'']\<rparr>\<rparr>"

definition no_urls :: url_parser where "no_urls u = None"

lemma no_urls_law: "url_lengths no_urls"
  by (simp add: url_lengths_def no_urls_def)

lemma app_upstream: "upstream_text ''app:80''"
proof -
  have "digit_char 8 = CHR ''8''" "digit_char 0 = CHR ''0''" by code_simp+
  then have "itoa 80 = ''80''" by (simp add: itoa_def itoa_nat.simps)
  then have "''app:80'' = join_host_port ''app'' (itoa 80)" by (simp add: join_host_port_def)
  moreover have "validProxyHost ''app'' False \<and> lower_text ''app''"
    by (simp add: validProxyHost_def has_suffix_def parse_ip_def parse_addr_def contains_any_def validHostLabel_def
        asciiAlphaNumeric_def byte_def lower_text_def)
  moreover have "length ''app:80'' \<le> 256" by simp
  ultimately show ?thesis unfolding upstream_text_def by (intro exI[of _ "''app''"] exI[of _ "80"]) linarith
qed

lemma app_normal: "normal_route app_route"
proof -
  have "trim_space ''/'' = ''/''" by (rule trim_printable) (simp add: byte_def)
  moreover have "validProxyHost ''example'' True"
    by (simp add: validProxyHost_def has_suffix_def parse_ip_def parse_addr_def contains_any_def validHostLabel_def
        asciiAlphaNumeric_def byte_def)
  moreover have "ascii ''docker:web''" "ascii ''/''" by (simp_all add: ascii_def byte_def)
  ultimately show ?thesis using app_upstream
    by (simp add: normal_route_def app_route_def validProxyWorkloadKey_def has_prefix_def no_controls_def runes_ascii valid_utf8_ascii
        validRouteKind_def lower_text_def validProxyPath_def contains_any_def byte_def is_control_def)
qed

lemma app_merged: "mergeProxyRoutes p [app_route] = [app_route]"
  by (rule merge_fixed) (use app_normal in \<open>simp_all add: app_route_def\<close>)

definition app_discovery :: proxy_discovery where
  "app_discovery = \<lparr>xd_Routes = [app_route], xd_Warnings = []\<rparr>"

lemma app_records: "discovery_records p app_discovery = [RouteRecord app_route]"
  by (simp add: discovery_records_def app_discovery_def app_merged maxProxyRoutes_def)

lemma app_lines: "lines_decode (\<lambda>_. ''{}'') (\<lambda>_. Some (RouteRecord app_route)) (discovery_records p app_discovery)"
proof -
  have "trim_space ''{}'' = ''{}''" by (rule trim_printable) (simp add: byte_def)
  then show ?thesis by (simp add: lines_decode_def app_records)
qed

theorem merge_order_irrelevant_witness:
  "mergeProxyRoutes no_urls [app_route, app_route] = [app_route]"
  using merge_order_irrelevant[OF no_urls_law, of "[app_route, app_route]" "[app_route]"] app_merged by simp

lemma app_truncated: "truncated app_route = app_route"
  by (rule truncated_short) (simp add: app_route_def)


theorem discovered_routes_accepted_witness:
  "\<exists>s. sv_Key s = ''docker:web'' \<and> validateRoute ''web-2'' [''docker:web''] (project_route ''web-2'' s (xr_Route app_route)) = Inr ()"
proof -
  let ?s = "\<lparr>sv_Key = ''docker:web'', sv_Kind = ''docker'', sv_Name = ''web'', sv_Status = ''running'', sv_Since = [], sv_Image = [],
    sv_Unit = [], sv_ComposeProject = [], sv_ComposeService = [], sv_Health = [], sv_PID = 0, sv_Ports = [], sv_Routes = [],
    sv_Unidentified = False, sv_MaxExposure = ExposureLocal\<rparr>"
  have "xd_Routes (parseProxyDiscovery no_urls (\<lambda>_. Some (RouteRecord app_route)) (writeProxyDiscovery no_urls (\<lambda>_. ''{}'') app_discovery))
    = [app_route]"
    using discovery_crosses[OF no_urls_law app_lines] by (simp add: app_discovery_def app_merged maxProxyRoutes_def app_truncated)
  then have "validateRoute ''web-2'' [''docker:web''] (project_route ''web-2'' ?s (xr_Route app_route)) = Inr ()"
    by (intro discovered_routes_accepted[OF no_urls_law app_lines]) simp_all
  then show ?thesis by (intro exI[of _ ?s]) simp
qed

end
