(* ===== verification/Proxy_Configs.thy ===== *)
theory Proxy_Configs
  imports Proxy_Routes
begin

text \<open>
  The readers of the configurations of reverse proxies (\<^verbatim>\<open>internal/agent/proxy_routes.go\<close>): the lexer both
  share, the tree of Nginx directives and the routes found in it, and the line by line reader of a
  Caddyfile. A map of Go is the list of its entries in the order of their insertion; what is found is
  merged, and the merge does not depend on the order (\<open>merge_order_irrelevant\<close>).
\<close>

definition maxProxyConfigBytes :: nat where "maxProxyConfigBytes = 4 * 1024 * 1024"

section \<open>The lexer\<close>

text \<open>The text of a quoted token and what follows it; a token that is never closed runs to the end.\<close>

fun lex_quoted :: "char \<Rightarrow> string \<Rightarrow> string \<times> string" where
  "lex_quoted q [] = ([], [])"
| "lex_quoted q (c # cs) =
     (if c = q then ([], cs)
      else if c = CHR 0x5C then
        (case cs of
           [] \<Rightarrow> ([c], [])
         | d # ds \<Rightarrow> let (v, r) = lex_quoted q ds in (d # v, r))
      else let (v, r) = lex_quoted q cs in (c # v, r))"

lemma lex_quoted_closed [simp]: "lex_quoted c (c # cs) = ([], cs)"
  by (simp add: lex_quoted.simps(2))

lemma lex_quoted_escape:
  "q \<noteq> CHR 0x5C \<Longrightarrow> lex_quoted q (CHR 0x5C # d # ds) = (d # fst (lex_quoted q ds), snd (lex_quoted q ds))"
  by (subst lex_quoted.simps(2)) (simp add: case_prod_unfold Let_def)

lemma lex_quoted_plain:
  "c \<noteq> q \<Longrightarrow> c \<noteq> CHR 0x5C \<Longrightarrow> lex_quoted q (c # cs) = (c # fst (lex_quoted q cs), snd (lex_quoted q cs))"
  by (subst lex_quoted.simps(2)) (simp add: case_prod_unfold Let_def)

lemma lex_quoted_last: "q \<noteq> CHR 0x5C \<Longrightarrow> lex_quoted q [CHR 0x5C] = ([CHR 0x5C], [])"
  by (subst lex_quoted.simps(2)) simp

declare lex_quoted.simps(2) [simp del]

lemma lex_quoted_length: "length (snd (lex_quoted q s)) \<le> length s"
proof (induction "length s" arbitrary: s rule: less_induct)
  case less
  show ?case
  proof (cases s)
    case (Cons c cs)
    show ?thesis
    proof (cases "c = q \<or> c \<noteq> CHR 0x5C")
      case True
      then show ?thesis using Cons less[of cs] by (cases "c = q") (simp_all add: lex_quoted_plain)
    next
      case False
      then show ?thesis
        using Cons less[of "tl cs"] by (cases cs) (auto simp: lex_quoted_last lex_quoted_escape)
    qed
  qed simp
qed

definition blank_byte :: "char \<Rightarrow> bool" where
  "blank_byte c = (c = CHR '' '' \<or> c = CHR 0x09 \<or> c = CHR 0x0D \<or> c = CHR 0x0A)"

definition brace :: "char \<Rightarrow> bool" where
  "brace c = (c = CHR ''{'' \<or> c = CHR ''}'' \<or> c = CHR '';'')"

definition word_byte :: "char \<Rightarrow> bool" where
  "word_byte c = (\<not> blank_byte c \<and> \<not> brace c \<and> c \<noteq> CHR 0x23)"

function lexConfig :: "string \<Rightarrow> string list" where
  "lexConfig [] = []"
| "lexConfig (c # cs) =
     (if c = CHR 0x23 then lexConfig (dropWhile (\<lambda>x. x \<noteq> CHR 0x0A) cs)
      else if blank_byte c then lexConfig cs
      else if brace c then [c] # lexConfig cs
      else if c = CHR 0x27 \<or> c = CHR 0x22 then fst (lex_quoted c cs) # lexConfig (snd (lex_quoted c cs))
      else (c # takeWhile word_byte cs) # lexConfig (dropWhile word_byte cs))"
  by pat_completeness auto
termination
  by (relation "measure length") (auto simp: le_imp_less_Suc length_dropWhile_le lex_quoted_length)

declare lexConfig.simps(2) [simp del]

section \<open>The tree of directives\<close>

datatype config_node = ConfigNode (cn_Name: string) (cn_Args: "string list") (cn_Children: "config_node list")

definition ends_args :: "string \<Rightarrow> bool" where
  "ends_args t = (t = '';'' \<or> t = ''{'' \<or> t = ''}'')"

text \<open>The nodes and the tokens left. Every call reads a token, so as many calls as tokens and one more are
  enough.\<close>

fun parse_nodes :: "nat \<Rightarrow> string list \<Rightarrow> bool \<Rightarrow> (config_node list \<times> string list) option" where
  "parse_nodes 0 ts nested = None"
| "parse_nodes (Suc n) ts nested = (case ts of
       [] \<Rightarrow> (if nested then None else Some ([], []))
     | t # ts' \<Rightarrow>
         if t = ''}'' then (if nested then Some ([], ts') else None)
         else
           let args = takeWhile (\<lambda>x. \<not> ends_args x) ts' in
           (case dropWhile (\<lambda>x. \<not> ends_args x) ts' of
              [] \<Rightarrow> None
            | r # rs \<Rightarrow>
                if r = '';'' then
                  (case parse_nodes n rs nested of
                     None \<Rightarrow> None
                   | Some (ns, out) \<Rightarrow> Some (ConfigNode t args [] # ns, out))
                else if r = ''{'' then
                  (case parse_nodes n rs True of
                     None \<Rightarrow> None
                   | Some (children, rest) \<Rightarrow> (case parse_nodes n rest nested of
                       None \<Rightarrow> None
                     | Some (ns, out) \<Rightarrow> Some (ConfigNode t args children # ns, out)))
                else None))"

definition parseConfigNodes :: "string list \<Rightarrow> config_node list option" where
  "parseConfigNodes tokens = map_option fst (parse_nodes (Suc (length tokens)) tokens False)"

fun findConfigNodes :: "string \<Rightarrow> config_node list \<Rightarrow> config_node list" where
  "findConfigNodes name [] = []"
| "findConfigNodes name (ConfigNode n args children # ns) =
     (if n = name then [ConfigNode n args children] else []) @ findConfigNodes name children @ findConfigNodes name ns"

section \<open>Nginx\<close>

record caddy_address =
  ca_Scheme :: string
  ca_Host :: string
  ca_Port :: int

definition validRoutePath :: "string \<Rightarrow> bool" where
  "validRoutePath path =
     (if path = [] \<or> length path > 512 \<or> hd path \<noteq> CHR ''/'' \<or> \<not> valid_utf8 path
         \<or> contains_any path ''?#'' then False
      else \<not> list_ex (\<lambda>r. r = 0 \<or> is_control r) (runes path))"

text \<open>The helper and the Hub have the same rule for a path.\<close>

lemma route_path_rule: "validRoutePath = validProxyPath"
  by (simp add: validRoutePath_def validProxyPath_def fun_eq_iff)

definition normalizeMatcherPath :: "string \<Rightarrow> string" where
  "normalizeMatcherPath raw0 = (let raw = trim_space raw0 in
     if \<not> has_prefix raw ''/'' then [] else if \<not> validRoutePath raw then [] else raw)"

definition listen_port_text :: "string \<Rightarrow> string" where
  "listen_port_text a = (case split_host_port a of
       Some (_, p) \<Rightarrow> p
     | None \<Rightarrow> (case cut_last CHR '':'' a of Some (_, t) \<Rightarrow> trim_brackets t | None \<Rightarrow> a))"

definition nginx_listener :: "config_node \<Rightarrow> caddy_address option" where
  "nginx_listener node =
     (if cn_Name node \<noteq> ''listen'' \<or> cn_Args node = [] \<or> has_prefix (hd (cn_Args node)) ''unix:'' then None
      else case atoi (listen_port_text (hd (cn_Args node))) of
        None \<Rightarrow> None
      | Some port \<Rightarrow>
          if port < 1 \<or> port > 65535 then None
          else Some \<lparr>ca_Scheme = (if ''ssl'' \<in> set (tl (cn_Args node)) \<or> port = 443 \<or> port = 8443 \<or> port = 9443
             then ''https'' else ''http''), ca_Host = [], ca_Port = port\<rparr>)"

definition nginxListeners :: "config_node list \<Rightarrow> caddy_address list" where
  "nginxListeners nodes =
     sort_key (\<lambda>a. ca_Scheme a @ '':'' @ itoa (ca_Port a)) (remdups (List.map_filter nginx_listener nodes))"

type_synonym path_upstreams = "(string \<times> string list) list"

fun add_path :: "string \<Rightarrow> string list \<Rightarrow> path_upstreams \<Rightarrow> path_upstreams" where
  "add_path k us [] = [(k, us)]"
| "add_path k us ((k', us') # m) = (if k' = k then (k', us' @ us) # m else (k', us') # add_path k us m)"

definition add_paths :: "path_upstreams \<Rightarrow> path_upstreams \<Rightarrow> path_upstreams" where
  "add_paths m added = foldl (\<lambda>m (k, us). add_path k us m) m added"

definition location_path :: "string \<Rightarrow> string \<Rightarrow> string list \<Rightarrow> string" where
  "location_path inherited name args =
     (if name = ''location'' then
        (case find (\<lambda>p. p \<noteq> []) (map normalizeMatcherPath args) of Some p \<Rightarrow> p | None \<Rightarrow> inherited)
      else inherited)"

fun collectNginxProxyPass :: "url_parser \<Rightarrow> string \<Rightarrow> config_node list \<Rightarrow> path_upstreams" where
  "collectNginxProxyPass parse_url inherited [] = []"
| "collectNginxProxyPass parse_url inherited (ConfigNode name args children # ns) =
     (let path = location_path inherited name args;
          own = (if name = ''proxy_pass'' \<and> args \<noteq> [] then
                   (let u = sanitizeUpstream parse_url (hd args) in [(path, if u \<noteq> [] then [u] else [])])
                 else [])
      in add_paths (add_paths own (collectNginxProxyPass parse_url path children))
           (collectNginxProxyPass parse_url inherited ns))"

definition serving_name :: "string \<Rightarrow> bool" where
  "serving_name n = (n = ''root'' \<or> n = ''alias'' \<or> n = ''try_files'' \<or> n = ''index'')"

definition hasDirectNginxServingDirective :: "config_node list \<Rightarrow> bool" where
  "hasDirectNginxServingDirective nodes = list_ex (\<lambda>n. serving_name (cn_Name n)) nodes"

fun hasNginxServingDirective :: "config_node list \<Rightarrow> bool" where
  "hasNginxServingDirective [] = False"
| "hasNginxServingDirective (ConfigNode name args children # ns) =
     (serving_name name \<or> hasNginxServingDirective children \<or> hasNginxServingDirective ns)"

fun hasNginxDirective :: "string \<Rightarrow> config_node list \<Rightarrow> bool" where
  "hasNginxDirective wanted [] = False"
| "hasNginxDirective wanted (ConfigNode name args children # ns) =
     (name = wanted \<or> hasNginxDirective wanted children \<or> hasNginxDirective wanted ns)"

fun static_paths :: "string \<Rightarrow> config_node list \<Rightarrow> config_node list \<Rightarrow> string list" where
  "static_paths inherited everything [] =
     (if inherited = ''/'' \<and> hasDirectNginxServingDirective everything then [''/''] else [])"
| "static_paths inherited everything (ConfigNode name args children # ns) =
     (let path = location_path inherited name args in
      (if name = ''location'' \<and> hasNginxServingDirective children \<and> \<not> hasNginxDirective ''proxy_pass'' children then [path] else [])
      @ static_paths path children children @ static_paths inherited everything ns)"

definition collectNginxStaticPaths :: "string \<Rightarrow> config_node list \<Rightarrow> string list" where
  "collectNginxStaticPaths inherited nodes = remdups (static_paths inherited nodes nodes)"

definition nginx_hosts :: "config_node list \<Rightarrow> string list" where
  "nginx_hosts children =
     (let hosts = filter (\<lambda>h. validProxyHost h False \<and> h \<noteq> ''_'')
            (map (\<lambda>a. go_lower (trim_suffix a ''.'')) (concat (map cn_Args (filter (\<lambda>c. cn_Name c = ''server_name'') children))))
      in if hosts \<noteq> [] then unique_sorted hosts else [[]])"

definition server_routes :: "url_parser \<Rightarrow> string \<Rightarrow> config_node \<Rightarrow> discovered_route list" where
  "server_routes parse_url workloadKey server =
     (let children = cn_Children server;
          found = nginxListeners children;
          listeners = (if found = [] then [\<lparr>ca_Scheme = ''http'', ca_Host = [], ca_Port = 80\<rparr>] else found);
          proxyPaths = collectNginxProxyPass parse_url ''/'' children;
          staticPaths = collectNginxStaticPaths ''/'' children
      in concat (map (\<lambda>l. concat (map (\<lambda>h.
           map (\<lambda>(path, us). \<lparr>xr_WorkloadKey = workloadKey, xr_Route = \<lparr>wr_Kind = ''proxy'', wr_Scheme = ca_Scheme l, wr_Host = h,
              wr_Port = ca_Port l, wr_Path = path, wr_Upstreams = unique_sorted us\<rparr>\<rparr>) proxyPaths
           @ (if h = [] then []
              else map (\<lambda>path. \<lparr>xr_WorkloadKey = workloadKey, xr_Route = \<lparr>wr_Kind = ''static'', wr_Scheme = ca_Scheme l, wr_Host = h,
                  wr_Port = ca_Port l, wr_Path = path, wr_Upstreams = []\<rparr>\<rparr>)
                (filter (\<lambda>path. path \<notin> set (map fst proxyPaths)) staticPaths))) (nginx_hosts children))) listeners))"

definition parseNginxRoutes :: "url_parser \<Rightarrow> string \<Rightarrow> string \<Rightarrow> go_error + discovered_route list" where
  "parseNginxRoutes parse_url content workloadKey =
     (if length content > maxProxyConfigBytes then Inl ''Nginx config exceeds the route discovery limit''
      else case parseConfigNodes (lexConfig content) of
        None \<Rightarrow> Inl ''Nginx config could not be parsed safely''
      | Some nodes \<Rightarrow>
          Inr (mergeProxyRoutes parse_url (concat (map (server_routes parse_url workloadKey) (findConfigNodes ''server'' nodes)))))"

section \<open>Caddy\<close>

definition parseCaddyAddress :: "url_parser \<Rightarrow> string \<Rightarrow> caddy_address option" where
  "parseCaddyAddress parse_url raw0 = (let raw = trim_space (trim_suffix raw0 '','') in
     if raw = [] \<or> has_prefix raw ''('' \<or> contains_any raw ''{}$@'' then None
     else if contains raw ''://'' then
       (case parse_url raw of
          None \<Rightarrow> None
        | Some u \<Rightarrow>
            if u_HasUser u \<or> (u_Scheme u \<noteq> ''http'' \<and> u_Scheme u \<noteq> ''https'') \<or> u_Path u \<noteq> [] then None
            else case atoi (if u_PortText u = [] then (if u_Scheme u = ''http'' then ''80'' else ''443'') else u_PortText u) of
                None \<Rightarrow> None
              | Some port \<Rightarrow>
                  if 1 \<le> port \<and> port \<le> 65535 \<and> validProxyHost (go_lower (u_Hostname u)) True
                  then Some \<lparr>ca_Scheme = u_Scheme u, ca_Host = go_lower (u_Hostname u), ca_Port = port\<rparr> else None)
     else if has_prefix raw '':'' then
       (case atoi (trim_prefix raw '':'') of
          None \<Rightarrow> None
        | Some port \<Rightarrow>
            if port < 1 \<or> port > 65535 then None
            else Some \<lparr>ca_Scheme = (if port = 80 then ''http'' else ''https''), ca_Host = [], ca_Port = port\<rparr>)
     else
       (case (case split_host_port raw of
           Some (h, t) \<Rightarrow> map_option (\<lambda>p. (h, p)) (atoi t)
         | None \<Rightarrow>
             if count_list raw (CHR '':'') = 1 then
               (case cut (CHR '':'') raw of
                  Some (h, t) \<Rightarrow> (case atoi t of Some p \<Rightarrow> Some (h, p) | None \<Rightarrow> Some (raw, 443))
                | None \<Rightarrow> Some (raw, 443))
             else Some (raw, 443)) of
          None \<Rightarrow> None
        | Some (h, port) \<Rightarrow>
            (let host = go_lower (trim_suffix h ''.'') in
             if port < 1 \<or> port > 65535 \<or> \<not> validProxyHost host False then None
             else Some \<lparr>ca_Scheme = (if port = 80 then ''http'' else ''https''), ca_Host = host, ca_Port = port\<rparr>)))"

text \<open>What the reader keeps between two lines. A depth that has no path has the empty path.\<close>

record caddy_state =
  cd_Routes :: "discovered_route list"
  cd_Depth :: int
  cd_Addresses :: "caddy_address list"
  cd_SiteDepth :: int
  cd_Count :: nat
  cd_Paths :: "int \<Rightarrow> string"

definition caddy_start :: caddy_state where
  "caddy_start = \<lparr>cd_Routes = [], cd_Depth = 0, cd_Addresses = [], cd_SiteDepth = 0, cd_Count = 0, cd_Paths = (\<lambda>_. [])\<rparr>"

definition caddy_route :: "string \<Rightarrow> string \<Rightarrow> string \<Rightarrow> string list \<Rightarrow> caddy_address \<Rightarrow> discovered_route" where
  "caddy_route workloadKey kind path us a = \<lparr>xr_WorkloadKey = workloadKey, xr_Route = \<lparr>wr_Kind = kind, wr_Scheme = ca_Scheme a,
     wr_Host = ca_Host a, wr_Port = ca_Port a, wr_Path = path, wr_Upstreams = us\<rparr>\<rparr>"

definition finishSite :: "string \<Rightarrow> caddy_state \<Rightarrow> caddy_state" where
  "finishSite workloadKey s = s\<lparr>cd_Routes := cd_Routes s @ (if cd_Addresses s \<noteq> [] \<and> cd_Count s = 0
         then map (caddy_route workloadKey ''site'' ''/'' []) (cd_Addresses s) else []),
     cd_Addresses := [], cd_SiteDepth := 0, cd_Count := 0, cd_Paths := (\<lambda>_. [])\<rparr>"

definition close_brace :: "string \<Rightarrow> caddy_state \<Rightarrow> caddy_state" where
  "close_brace workloadKey s = (let t = s\<lparr>cd_Depth := cd_Depth s - 1, cd_Paths := (cd_Paths s)(cd_Depth s := [])\<rparr> in
     if cd_Addresses t \<noteq> [] \<and> cd_Depth t < cd_SiteDepth t then finishSite workloadKey t else t)"

fun close_leading :: "string \<Rightarrow> caddy_state \<Rightarrow> string list \<Rightarrow> caddy_state \<times> string list" where
  "close_leading workloadKey s [] = (s, [])"
| "close_leading workloadKey s (t # ts) =
     (if t = ''}'' then close_leading workloadKey (close_brace workloadKey s) ts else (s, t # ts))"

definition open_site :: "url_parser \<Rightarrow> string list \<Rightarrow> caddy_state \<Rightarrow> caddy_state" where
  "open_site parse_url tokens s =
     (if cd_Addresses s = [] \<and> cd_Depth s = 0 \<and> ''{'' \<in> set tokens \<and> hd tokens \<noteq> ''{'' then
        let found = List.map_filter (\<lambda>part. parseCaddyAddress parse_url (trim_space part))
              (concat (map (split_on (CHR '','')) (takeWhile (\<lambda>t. t \<noteq> ''{'') tokens)))
        in if found \<noteq> [] then s\<lparr>cd_Addresses := found, cd_SiteDepth := cd_Depth s + 1\<rparr> else s
      else s)"

definition current_path :: "caddy_state \<Rightarrow> string" where
  "current_path s = foldl (\<lambda>path d. if cd_Paths s d \<noteq> [] then cd_Paths s d else path) ''/'' [cd_SiteDepth s..cd_Depth s]"

definition handler_name :: "string \<Rightarrow> bool" where
  "handler_name n = (n = ''handle'' \<or> n = ''handle_path'' \<or> n = ''route'')"

definition note_path :: "string list \<Rightarrow> caddy_state \<Rightarrow> caddy_state" where
  "note_path tokens s =
     (if handler_name (hd tokens) \<and> ''{'' \<in> set tokens then
        (case find (\<lambda>p. p \<noteq> []) (map normalizeMatcherPath (takeWhile (\<lambda>t. t \<noteq> ''{'') (tl tokens))) of
           Some p \<Rightarrow> s\<lparr>cd_Paths := (cd_Paths s)(cd_Depth s + 1 := p)\<rparr>
         | None \<Rightarrow> s)
      else s)"

definition note_proxy :: "url_parser \<Rightarrow> string \<Rightarrow> string list \<Rightarrow> string \<Rightarrow> caddy_state \<Rightarrow> caddy_state" where
  "note_proxy parse_url workloadKey tokens currentPath s =
     (if hd tokens = ''reverse_proxy'' then
        let args = takeWhile (\<lambda>t. t \<noteq> ''{'') (tl tokens);
            matcher = (if args = [] then [] else normalizeMatcherPath (hd args));
            path = (if matcher \<noteq> [] then matcher else currentPath);
            rest = (if args \<noteq> [] \<and> (matcher \<noteq> [] \<or> has_prefix (hd args) ''@'') then tl args else args);
            upstreams = filter (\<lambda>u. u \<noteq> []) (map (sanitizeUpstream parse_url) rest)
        in s\<lparr>cd_Routes := cd_Routes s @ map (caddy_route workloadKey ''proxy'' path upstreams) (cd_Addresses s),
             cd_Count := cd_Count s + length (cd_Addresses s)\<rparr>
      else s)"

definition read_directive :: "url_parser \<Rightarrow> string \<Rightarrow> string list \<Rightarrow> caddy_state \<Rightarrow> caddy_state" where
  "read_directive parse_url workloadKey tokens s =
     (if cd_Addresses s \<noteq> [] \<and> cd_Depth s \<ge> cd_SiteDepth s
      then note_proxy parse_url workloadKey tokens (current_path s) (note_path tokens s) else s)"

definition count_brace :: "string \<Rightarrow> caddy_state \<Rightarrow> string \<Rightarrow> caddy_state" where
  "count_brace workloadKey s t =
     (if t = ''{'' then s\<lparr>cd_Depth := cd_Depth s + 1\<rparr> else if t = ''}'' then close_brace workloadKey s else s)"

definition caddy_line :: "url_parser \<Rightarrow> string \<Rightarrow> caddy_state \<Rightarrow> string \<Rightarrow> caddy_state" where
  "caddy_line parse_url workloadKey s rawLine =
     (let (t, tokens) = close_leading workloadKey s (lexConfig rawLine) in
      if tokens = [] then t
      else foldl (count_brace workloadKey)
             (read_directive parse_url workloadKey tokens (open_site parse_url tokens t)) tokens)"

definition caddy_lines :: "url_parser \<Rightarrow> string \<Rightarrow> caddy_state \<Rightarrow> string list \<Rightarrow> caddy_state" where
  "caddy_lines parse_url workloadKey s ls = foldl (caddy_line parse_url workloadKey) s ls"

definition parseCaddyRoutes :: "url_parser \<Rightarrow> string \<Rightarrow> string \<Rightarrow> go_error + discovered_route list" where
  "parseCaddyRoutes parse_url content workloadKey =
     (if length content > maxProxyConfigBytes then Inl ''Caddy config exceeds the route discovery limit''
      else let s = caddy_lines parse_url workloadKey caddy_start (split_on (CHR 0x0A) content);
               t = (if cd_Addresses s \<noteq> [] then finishSite workloadKey s else s)
           in Inr (mergeProxyRoutes parse_url (cd_Routes t)))"

section \<open>The lexer reads back what is quoted\<close>

definition escape_char :: "char \<Rightarrow> string" where
  "escape_char c = (if c = CHR 0x22 \<or> c = CHR 0x5C then [CHR 0x5C, c] else [c])"

definition quote_token :: "string \<Rightarrow> string" where
  "quote_token w = CHR 0x22 # concat (map escape_char w) @ [CHR 0x22, CHR '' '']"

lemma lex_escaped: "lex_quoted (CHR 0x22) (concat (map escape_char w) @ CHR 0x22 # r) = (w, r)"
  by (induction w) (simp_all add: escape_char_def lex_quoted_escape lex_quoted_plain)

lemma lex_blank: "blank_byte c \<Longrightarrow> lexConfig (c # cs) = lexConfig cs"
  by (simp add: lexConfig.simps(2)) (auto simp: blank_byte_def)

lemma lex_quote: "lexConfig (quote_token w @ r) = w # lexConfig r"
  by (simp add: quote_token_def lexConfig.simps(2)[of "CHR 0x22"] blank_byte_def brace_def lex_escaped lex_blank)

lemma lex_quotes: "lexConfig (concat (map quote_token ts)) = ts"
  by (induction ts) (simp_all add: lex_quote)

lemma lex_word:
  assumes "w \<noteq> []" "\<forall>c \<in> set w. word_byte c" "hd w \<noteq> CHR 0x22" "hd w \<noteq> CHR 0x27" "\<not> word_byte c"
  shows "lexConfig (w @ c # r) = w # lexConfig (c # r)"
proof -
  obtain a v where w: "w = a # v" using assms(1) by (cases w) auto
  have a: "word_byte a" "a \<noteq> CHR 0x22" "a \<noteq> CHR 0x27" and v: "\<forall>x \<in> set v. word_byte x" using assms w by auto
  have "takeWhile word_byte (v @ c # r) = v" "dropWhile word_byte (v @ c # r) = c # r"
    using v assms(5) by (simp_all add: takeWhile_append2 dropWhile_append2)
  then show ?thesis using a w by (simp add: lexConfig.simps(2)[of a] word_byte_def)
qed

lemma lex_brace: "brace c \<Longrightarrow> lexConfig (c # r) = [c] # lexConfig r"
  by (simp add: lexConfig.simps(2)) (auto simp: brace_def blank_byte_def)

section \<open>The grammar of a configuration\<close>

inductive config_text :: "config_node list \<Rightarrow> string list \<Rightarrow> bool" where
  config_end: "config_text [] []"
| config_simple: "t \<noteq> ''}'' \<Longrightarrow> \<forall>a \<in> set args. \<not> ends_args a \<Longrightarrow> config_text ns ts
    \<Longrightarrow> config_text (ConfigNode t args [] # ns) (t # args @ '';'' # ts)"
| config_block: "t \<noteq> ''}'' \<Longrightarrow> \<forall>a \<in> set args. \<not> ends_args a \<Longrightarrow> config_text children cs \<Longrightarrow> config_text ns ts
    \<Longrightarrow> config_text (ConfigNode t args children # ns) (t # args @ ''{'' # cs @ ''}'' # ts)"

lemma args_split:
  assumes "\<forall>a \<in> set args. \<not> ends_args a" "ends_args e"
  shows "takeWhile (\<lambda>x. \<not> ends_args x) (args @ e # r) = args" "dropWhile (\<lambda>x. \<not> ends_args x) (args @ e # r) = e # r"
  using assms by (simp_all add: takeWhile_append2 dropWhile_append2)

lemma ends: "ends_args '';''" "ends_args ''{''" "ends_args ''}''"
  by (simp_all add: ends_args_def)

definition after_block :: "bool \<Rightarrow> string list \<Rightarrow> string list" where
  "after_block nested r = (if nested then ''}'' # r else [])"

lemma text_parsed:
  "config_text ns ts \<Longrightarrow> length ts < n \<Longrightarrow>
   parse_nodes n (ts @ after_block nested r) nested = Some (ns, if nested then r else [])"
proof (induction arbitrary: n nested r rule: config_text.induct)
  case config_end
  then show ?case by (cases n) (simp_all add: after_block_def)
next
  case (config_simple t args ns ts)
  then obtain m where m: "n = Suc m" "length ts < m" by (cases n) auto
  show ?case
    using config_simple(1,2) config_simple.IH[OF m(2), of nested r] by (simp add: m(1) args_split ends)
next
  case (config_block t args children cs ns ts)
  then obtain m where m: "n = Suc m" "length cs < m" "length ts < m" by (cases n) auto
  have "parse_nodes m (cs @ ''}'' # ts @ after_block nested r) True = Some (children, ts @ after_block nested r)"
    using config_block.IH(1)[OF m(2), of True] by (simp add: after_block_def)
  then show ?case
    using config_block(1,2) config_block.IH(2)[OF m(3), of nested r] by (simp add: m(1) args_split ends)
qed

lemma drop_args:
  assumes "dropWhile (\<lambda>x. \<not> ends_args x) ts = e # r"
  shows "ts = takeWhile (\<lambda>x. \<not> ends_args x) ts @ e # r \<and> (\<forall>a \<in> set (takeWhile (\<lambda>x. \<not> ends_args x) ts). \<not> ends_args a)"
  using takeWhile_dropWhile_id[of "\<lambda>x. \<not> ends_args x" ts] assms by (auto dest: set_takeWhileD)

lemma parsed_text:
  "parse_nodes n ts nested = Some (ns, out) \<Longrightarrow>
   \<exists>cs. config_text ns cs \<and> ts = cs @ after_block nested out \<and> (nested \<or> out = [])"
proof (induction n ts nested arbitrary: ns out rule: parse_nodes.induct)
  case (2 n ts nested)
  show ?case
  proof (cases ts)
    case Nil
    then show ?thesis using 2(4) by (auto simp: after_block_def intro: config_end split: if_splits)
  next
    case (Cons t ts')
    show ?thesis
    proof (cases "t = ''}''")
      case True
      then show ?thesis using 2(4) Cons by (auto simp: after_block_def intro: config_end split: if_splits)
    next
      case nt: False
      let ?args = "takeWhile (\<lambda>x. \<not> ends_args x) ts'"
      obtain e r where er: "dropWhile (\<lambda>x. \<not> ends_args x) ts' = e # r"
        using 2(4) Cons nt by (auto simp: Let_def split: list.splits)
      note ar = drop_args[OF er]
      consider "e = '';''" | "e \<noteq> '';''" "e = ''{''" using 2(4) Cons nt er by (auto simp: Let_def split: if_splits)
      then show ?thesis
      proof cases
        case 1
        obtain ns' where p: "parse_nodes n r nested = Some (ns', out)" and ns: "ns = ConfigNode t ?args [] # ns'"
          using 2(4) Cons nt er 1 by (auto simp: Let_def split: option.splits)
        obtain cs where "config_text ns' cs" "r = cs @ after_block nested out" "nested \<or> out = []"
          using 2(1)[OF Cons nt refl er 1 p] by blast
        then show ?thesis
          using config_simple[OF nt, of ?args ns' cs] ar ns Cons 1 by (intro exI[of _ "t # ?args @ '';'' # cs"]) auto
      next
        case b: 2
        obtain children rest ns' where c: "parse_nodes n r True = Some (children, rest)"
          and p: "parse_nodes n rest nested = Some (ns', out)" and ns: "ns = ConfigNode t ?args children # ns'"
          using 2(4) Cons nt er b by (auto simp: Let_def split: option.splits)
        obtain ks where k: "config_text children ks" "r = ks @ ''}'' # rest"
          using 2(2)[OF Cons nt refl er b c] by (auto simp: after_block_def)
        obtain cs where "config_text ns' cs" "rest = cs @ after_block nested out" "nested \<or> out = []"
          using 2(3)[OF Cons nt refl er b c refl p] by blast
        then show ?thesis
          using config_block[OF nt, of ?args children ks ns' cs] ar ns Cons b k
          by (intro exI[of _ "t # ?args @ ''{'' # ks @ ''}'' # cs"]) auto
      qed
    qed
  qed
qed simp

lemma parse_config_iff: "parseConfigNodes ts = Some ns \<longleftrightarrow> config_text ns ts"
proof
  assume "parseConfigNodes ts = Some ns"
  then obtain out where "parse_nodes (Suc (length ts)) ts False = Some (ns, out)" by (auto simp: parseConfigNodes_def)
  from parsed_text[OF this] show "config_text ns ts" by (auto simp: after_block_def)
next
  assume "config_text ns ts"
  from text_parsed[OF this, of "Suc (length ts)" False] show "parseConfigNodes ts = Some ns"
    by (simp add: parseConfigNodes_def after_block_def)
qed

section \<open>A Caddyfile of sites\<close>

text \<open>A site: its address and the upstreams its requests go to; a site that only serves files has none.\<close>

definition proxy_line :: "string list \<Rightarrow> string" where
  "proxy_line us = ''reverse_proxy '' @ concat (map quote_token us)"

definition caddy_site :: "string \<times> string list \<Rightarrow> string list" where
  "caddy_site s = [fst s @ '' {'', (if snd s = [] then '' '' else proxy_line (snd s)), ''}'']"

definition caddy_text :: "(string \<times> string list) list \<Rightarrow> string" where
  "caddy_text sites = join [CHR 0x0A] (concat (map caddy_site sites) @ [[]])"

definition https_address :: "string \<Rightarrow> caddy_address" where
  "https_address h = \<lparr>ca_Scheme = ''https'', ca_Host = h, ca_Port = 443\<rparr>"

definition site_route :: "string \<Rightarrow> string \<times> string list \<Rightarrow> discovered_route" where
  "site_route workloadKey s = caddy_route workloadKey (if snd s = [] then ''site'' else ''proxy'') ''/'' (snd s) (https_address (fst s))"

definition site_ok :: "string \<times> string list \<Rightarrow> bool" where
  "site_ok s \<longleftrightarrow> validProxyHost (fst s) False \<and> CHR '':'' \<notin> set (fst s) \<and> lower_text (fst s) \<and> (\<forall>u \<in> set (snd s). upstream_text u)"

lemma host_printable: "validProxyHost h e \<Longrightarrow> c \<in> set h \<Longrightarrow> 33 \<le> byte c \<and> byte c \<le> 126"
  using host_chars host_byte_range by fastforce

lemma host_word: "validProxyHost h e \<Longrightarrow> c \<in> set h \<Longrightarrow> word_byte c \<and> c \<noteq> CHR 0x22 \<and> c \<noteq> CHR 0x27 \<and> c \<noteq> CHR '','' \<and> c \<noteq> CHR ''/''
    \<and> c \<noteq> CHR ''('' \<and> c \<noteq> CHR ''$'' \<and> c \<noteq> CHR ''@'' \<and> c \<noteq> CHR ''{'' \<and> c \<noteq> CHR ''}''"
  using host_chars[of h e c] by (auto simp: word_byte_def blank_byte_def brace_def host_byte_def asciiAlphaNumeric_def byte_def)

lemma host_nonempty: "validProxyHost h False \<Longrightarrow> h \<noteq> []"
  by (auto simp: validProxyHost_def)

lemma host_either: "validProxyHost h False \<Longrightarrow> validProxyHost h True"
  by (simp add: validProxyHost_def split: if_splits)

lemma suffix_kept: "c \<notin> set s \<Longrightarrow> trim_suffix s [c] = s"
  by (metis has_suffix_def in_set_dropD list.set_intros(1) trim_suffix_def)

lemma site_address:
  assumes "site_ok s"
  shows "parseCaddyAddress parse_url (fst s) = Some (https_address (fst s))"
proof -
  let ?h = "fst s"
  have h: "validProxyHost ?h False" "CHR '':'' \<notin> set ?h" "lower_text ?h" using assms by (auto simp: site_ok_def)
  note w = host_word[OF h(1)]
  have t: "trim_space ?h = ?h" by (rule trim_printable) (use host_printable[OF h(1)] in blast)
  have c: "trim_suffix ?h '','' = ?h" by (rule suffix_kept) (use w in blast)
  obtain a v where av: "?h = a # v" using host_nonempty[OF h(1)] by (cases ?h) auto
  have p: "\<not> has_prefix ?h ''(''" "\<not> has_prefix ?h '':''"
    using w[of a] h(2) av by (auto simp: has_prefix_def)
  have any: "\<not> contains_any ?h ''{}$@''" using w unfolding contains_any_def list_ex_iff by auto
  have u: "\<not> contains ?h ''://''" using h(2) unfolding contains_iff by auto
  have sp: "split_host_port ?h = None"
    using h(2) cut_None[of "CHR '':''" "rev ?h"] by (simp add: split_host_port_def cut_last_def)
  have n: "count_list ?h (CHR '':'') = 0" using h(2) by (simp add: count_list_0_iff)
  have f: "go_lower (trim_suffix ?h ''.'') = ?h" using host_fixed[OF host_either[OF h(1)] h(3)] t by simp
  show ?thesis
    unfolding parseCaddyAddress_def Let_def c t
    using av any p u sp n f h(1) by (simp add: https_address_def)
qed

definition between_sites :: "caddy_state \<Rightarrow> bool" where
  "between_sites s \<longleftrightarrow> cd_Depth s = 0 \<and> cd_Addresses s = [] \<and> cd_SiteDepth s = 0 \<and> cd_Count s = 0 \<and> cd_Paths s = (\<lambda>_. [])"

lemma upstream_word:
  assumes "upstream_text u" "c \<in> set u"
  shows "c \<noteq> CHR ''{'' \<and> c \<noteq> CHR ''}'' \<and> c \<noteq> CHR ''/'' \<and> c \<noteq> CHR ''@'' \<and> c \<noteq> CHR 0x0A \<and> 33 \<le> byte c \<and> byte c \<le> 126"
proof -
  obtain h k where u: "u = join_host_port h (itoa k)" "validProxyHost h False" "1 \<le> k" using assms(1) by (auto simp: upstream_text_def)
  have "host_byte c \<or> c = CHR ''['' \<or> c = CHR '']''" using upstream_chars[OF u(2,3)] assms(2) u(1) by blast
  then show ?thesis by (auto simp: host_byte_def asciiAlphaNumeric_def byte_def Let_def)
qed

lemma upstream_facts:
  assumes "upstream_text u"
  shows "u \<noteq> ''{''" "u \<noteq> ''}''" "normalizeMatcherPath u = []" "\<not> has_prefix u ''@''" "CHR 0x0A \<notin> set u"
    "sanitizeUpstream parse_url u = u"
proof -
  note w = upstream_word[OF assms]
  show "u \<noteq> ''{''" "u \<noteq> ''}''" using w[of "CHR ''{''"] w[of "CHR ''}''"] by auto
  have t: "trim_space u = u" by (rule trim_printable) (use w in blast)
  obtain a v where av: "u = a # v" using upstream_not_empty[OF assms] by (cases u) auto
  show "normalizeMatcherPath u = []" "\<not> has_prefix u ''@''"
    using w[of a] t unfolding av by (simp_all add: normalizeMatcherPath_def has_prefix_def)
  show "CHR 0x0A \<notin> set u" using w by blast
  show "sanitizeUpstream parse_url u = u" using upstream_fixed[OF assms] .
qed

lemma no_braces_counted: "\<forall>t \<in> set ts. t \<noteq> ''{'' \<and> t \<noteq> ''}'' \<Longrightarrow> foldl (count_brace k) s ts = s"
  by (induction ts arbitrary: s) (simp_all add: count_brace_def)

definition in_site :: "caddy_state \<Rightarrow> string \<Rightarrow> caddy_state" where
  "in_site s h = s\<lparr>cd_Depth := 1, cd_Addresses := [https_address h], cd_SiteDepth := 1\<rparr>"

lemma caddy_head:
  assumes ok: "site_ok x" and b: "between_sites s"
  shows "caddy_line parse_url k s (fst x @ '' {'') = in_site s (fst x)"
proof -
  let ?h = "fst x"
  have h: "validProxyHost ?h False" using ok by (auto simp: site_ok_def)
  note w = host_word[OF h]
  have ne: "?h \<noteq> []" by (rule host_nonempty[OF h])
  have q: "hd ?h \<noteq> CHR 0x22" "hd ?h \<noteq> CHR 0x27" using w ne by (metis list.set_sel(1))+
  have ws: "\<forall>c \<in> set ?h. word_byte c" using w by blast
  have lx: "lexConfig (?h @ '' {'') = [?h, ''{'']"
    using lex_word[OF ne ws q, of "CHR '' ''" "''{''"] by (simp add: word_byte_def blank_byte_def lex_blank lex_brace brace_def)
  have br: "?h \<noteq> ''{''" "?h \<noteq> ''}''" using w[of "CHR ''{''"] w[of "CHR ''}''"] by auto
  have "CHR '','' \<notin> set ?h" using w by blast
  then have sp: "split_on (CHR '','') ?h = [?h]" by (rule split_on_single)
  have t: "trim_space ?h = ?h" by (rule trim_printable) (use host_printable[OF h] in blast)
  have "open_site parse_url [?h, ''{''] s = s\<lparr>cd_Addresses := [https_address ?h], cd_SiteDepth := 1\<rparr>"
    using b br sp t site_address[OF ok, of parse_url] by (simp add: open_site_def between_sites_def List.map_filter_def)
  then show ?thesis
    using b br by (simp add: caddy_line_def lx read_directive_def count_brace_def in_site_def between_sites_def)
qed

lemma caddy_body:
  assumes ok: "site_ok x" and b: "between_sites s" and us: "snd x \<noteq> []"
  shows "caddy_line parse_url k (in_site s (fst x)) (proxy_line (snd x)) =
    (in_site s (fst x))\<lparr>cd_Routes := cd_Routes s @ [site_route k x], cd_Count := 1\<rparr>"
proof -
  let ?us = "snd x" and ?t = "in_site s (fst x)"
  have u: "\<And>v. v \<in> set ?us \<Longrightarrow> upstream_text v" using ok by (auto simp: site_ok_def)
  have lx: "lexConfig (proxy_line ?us) = ''reverse_proxy'' # ?us"
    unfolding proxy_line_def using lex_word[of "''reverse_proxy''" "CHR '' ''" "concat (map quote_token ?us)"]
    by (simp add: word_byte_def blank_byte_def brace_def lex_blank lex_quotes)
  have nb: "\<forall>v \<in> set ?us. v \<noteq> ''{'' \<and> v \<noteq> ''}''" using u upstream_facts by blast
  have op: "open_site parse_url (''reverse_proxy'' # ?us) ?t = ?t" by (simp add: open_site_def in_site_def)
  have tw: "takeWhile (\<lambda>v. v \<noteq> ''{'') ?us = ?us" using nb by (simp add: takeWhile_eq_all_conv)
  have san: "map (sanitizeUpstream parse_url) ?us = ?us" using u upstream_facts(6) by (intro map_idI) blast
  have fil: "filter (\<lambda>v. v \<noteq> []) ?us = ?us" using u upstream_not_empty by (auto simp: filter_id_conv)
  have hd: "normalizeMatcherPath (hd ?us) = []" "\<not> has_prefix (hd ?us) ''@''"
    using upstream_facts(3,4) u us by (metis list.set_sel(1))+
  have cp: "current_path ?t = ''/''" using b by (simp add: current_path_def in_site_def between_sites_def)
  have np: "note_path (''reverse_proxy'' # ?us) ?t = ?t" by (simp add: note_path_def handler_name_def)
  have "read_directive parse_url k (''reverse_proxy'' # ?us) ?t = ?t\<lparr>cd_Routes := cd_Routes s @ [site_route k x], cd_Count := 1\<rparr>"
    unfolding read_directive_def np cp
    using us b by (simp add: note_proxy_def Let_def tw san fil hd in_site_def between_sites_def site_route_def)
  moreover have "foldl (count_brace k) t (''reverse_proxy'' # ?us) = t" for t using nb by (intro no_braces_counted) auto
  ultimately show ?thesis by (simp add: caddy_line_def lx op)
qed

lemma caddy_blank_line: "caddy_line parse_url k s '' '' = s" "caddy_line parse_url k s [] = s"
  by (simp_all add: caddy_line_def lex_blank blank_byte_def)

lemma caddy_close:
  assumes "between_sites s"
  shows "caddy_line parse_url k ((in_site s h)\<lparr>cd_Routes := rs, cd_Count := n\<rparr>) ''}'' =
    s\<lparr>cd_Routes := rs @ (if n = 0 then [caddy_route k ''site'' ''/'' [] (https_address h)] else [])\<rparr>"
  using assms by (simp add: caddy_line_def lex_brace brace_def close_brace_def in_site_def finishSite_def between_sites_def Let_def)

lemma caddy_one_site:
  assumes ok: "site_ok x" and b: "between_sites s"
  shows "caddy_lines parse_url k s (caddy_site x) = s\<lparr>cd_Routes := cd_Routes s @ [site_route k x]\<rparr>"
proof (cases "snd x = []")
  case True
  have "in_site s (fst x) = (in_site s (fst x))\<lparr>cd_Routes := cd_Routes s, cd_Count := 0\<rparr>"
    using b by (simp add: in_site_def between_sites_def)
  then show ?thesis
    using True caddy_close[OF b, where h = "fst x" and rs = "cd_Routes s" and n = 0]
    by (simp add: caddy_lines_def caddy_site_def caddy_head[OF ok b] caddy_blank_line site_route_def)
next
  case False
  then show ?thesis
    by (simp add: caddy_lines_def caddy_site_def caddy_head[OF ok b] caddy_body[OF ok b] caddy_close[OF b])
qed

lemma caddy_sites:
  "\<forall>x \<in> set xs. site_ok x \<Longrightarrow> between_sites s \<Longrightarrow>
   caddy_lines parse_url k s (concat (map caddy_site xs)) = s\<lparr>cd_Routes := cd_Routes s @ map (site_route k) xs\<rparr>"
proof (induction xs arbitrary: s)
  case (Cons x xs)
  let ?t = "s\<lparr>cd_Routes := cd_Routes s @ [site_route k x]\<rparr>"
  have "caddy_lines parse_url k s (concat (map caddy_site (x # xs))) = caddy_lines parse_url k ?t (concat (map caddy_site xs))"
    using caddy_one_site[of x s parse_url k] Cons.prems by (simp add: caddy_lines_def)
  also have "\<dots> = ?t\<lparr>cd_Routes := cd_Routes ?t @ map (site_route k) xs\<rparr>"
    using Cons.prems by (intro Cons.IH) (auto simp: between_sites_def)
  finally show ?case by simp
qed (simp add: caddy_lines_def)

lemma caddy_site_lines:
  assumes "site_ok x" "l \<in> set (caddy_site x)" shows "CHR 0x0A \<notin> set l"
proof -
  have h: "CHR 0x0A \<notin> set (fst x)" using assms(1) host_printable[where h = "fst x" and e = False and c = "CHR 0x0A"] by (auto simp: site_ok_def byte_def)
  have u: "\<And>v. v \<in> set (snd x) \<Longrightarrow> CHR 0x0A \<notin> set v" using assms(1) upstream_facts(5) by (auto simp: site_ok_def)
  have "CHR 0x0A \<notin> set (quote_token v)" if "v \<in> set (snd x)" for v
    using u[OF that] by (auto simp: quote_token_def escape_char_def)
  then show ?thesis using assms(2) h by (auto simp: caddy_site_def proxy_line_def split: if_splits)
qed

lemma caddy_text_read:
  assumes "\<forall>x \<in> set sites. site_ok x" "length (caddy_text sites) \<le> maxProxyConfigBytes"
  shows "parseCaddyRoutes parse_url (caddy_text sites) k = Inr (mergeProxyRoutes parse_url (map (site_route k) sites))"
proof -
  have "split_on (CHR 0x0A) (caddy_text sites) = concat (map caddy_site sites) @ [[]]"
    unfolding caddy_text_def by (rule split_join) (use assms(1) caddy_site_lines in auto)
  moreover have "caddy_lines parse_url k caddy_start (concat (map caddy_site sites) @ [[]]) =
      caddy_start\<lparr>cd_Routes := map (site_route k) sites\<rparr>"
    using caddy_sites[OF assms(1), of caddy_start parse_url k]
    by (simp add: caddy_lines_def caddy_blank_line caddy_start_def between_sites_def)
  ultimately show ?thesis using assms(2) by (simp add: parseCaddyRoutes_def caddy_start_def)
qed

section \<open>An Nginx configuration of servers\<close>

text \<open>A server: its port, its name, the path of its location and what the location passes requests to.\<close>

type_synonym nginx_server = "int \<times> string \<times> string \<times> string"

fun server_node :: "nginx_server \<Rightarrow> config_node" where
  "server_node (p, h, path, pass) = ConfigNode ''server'' [] [ConfigNode ''listen'' [itoa p] [], ConfigNode ''server_name'' [h] [],
     ConfigNode ''location'' [path] [ConfigNode ''proxy_pass'' [pass] []]]"

fun server_tokens :: "nginx_server \<Rightarrow> string list" where
  "server_tokens (p, h, path, pass) = [''server'', ''{'', ''listen'', itoa p, '';'', ''server_name'', h, '';'', ''location'', path, ''{'',
     ''proxy_pass'', pass, '';'', ''}'', ''}'']"

definition nginx_text :: "nginx_server list \<Rightarrow> string" where
  "nginx_text servers = concat (map quote_token (concat (map server_tokens servers)))"

fun server_ok :: "nginx_server \<Rightarrow> bool" where
  "server_ok (p, h, path, pass) \<longleftrightarrow> 1 \<le> p \<and> p \<le> 65535 \<and> validProxyHost h False \<and> lower_text h
     \<and> validProxyPath path \<and> trim_space path = path \<and> \<not> ends_args pass"

fun nginx_route :: "url_parser \<Rightarrow> string \<Rightarrow> nginx_server \<Rightarrow> discovered_route" where
  "nginx_route parse_url workloadKey (p, h, path, pass) = \<lparr>xr_WorkloadKey = workloadKey, xr_Route = \<lparr>wr_Kind = ''proxy'',
     wr_Scheme = (if p = 443 \<or> p = 8443 \<or> p = 9443 then ''https'' else ''http''), wr_Host = h, wr_Port = p, wr_Path = path,
     wr_Upstreams = unique_sorted [sanitizeUpstream parse_url pass]\<rparr>\<rparr>"

lemma server_args:
  assumes "server_ok (p, h, path, pass)"
  shows "\<not> ends_args (itoa p)" "\<not> ends_args h" "\<not> ends_args path"
proof -
  have v: "validProxyHost h False" "1 \<le> p" "validProxyPath path" using assms by auto
  show "\<not> ends_args (itoa p)" using itoa_digits[OF v(2)] by (auto simp: ends_args_def is_digit_def byte_def)
  show "\<not> ends_args h" using host_word[OF v(1)] by (auto simp: ends_args_def word_byte_def brace_def)
  show "\<not> ends_args path" using v(3) by (auto simp: ends_args_def validProxyPath_def)
qed

lemma one_directive: "\<not> ends_args a \<Longrightarrow> t \<noteq> ''}'' \<Longrightarrow> config_text ns ts \<Longrightarrow> config_text (ConfigNode t [a] [] # ns) (t # a # '';'' # ts)"
  using config_simple[of t "[a]" ns ts] by simp

lemma servers_text:
  "\<forall>s \<in> set servers. server_ok s \<Longrightarrow> config_text (map server_node servers) (concat (map server_tokens servers))"
proof (induction servers)
  case (Cons s servers)
  obtain p h path pass where s: "s = (p, h, path, pass)" by (cases s) auto
  have ok: "server_ok (p, h, path, pass)" using Cons.prems s by auto
  then have np: "\<not> ends_args pass" by simp
  note a = server_args[OF ok]
  have "config_text [ConfigNode ''proxy_pass'' [pass] []] [''proxy_pass'', pass, '';'']"
    by (rule one_directive[OF np]) (simp_all add: config_end)
  then have "config_text [ConfigNode ''location'' [path] [ConfigNode ''proxy_pass'' [pass] []]]
      [''location'', path, ''{'', ''proxy_pass'', pass, '';'', ''}'']"
    using config_block[of "''location''" "[path]" _ "[''proxy_pass'', pass, '';'']" "[]" "[]"] a(3) config_end by simp
  then have body: "config_text [ConfigNode ''listen'' [itoa p] [], ConfigNode ''server_name'' [h] [],
      ConfigNode ''location'' [path] [ConfigNode ''proxy_pass'' [pass] []]]
      [''listen'', itoa p, '';'', ''server_name'', h, '';'', ''location'', path, ''{'', ''proxy_pass'', pass, '';'', ''}'']"
    by (intro one_directive a) simp_all
  have "config_text (map server_node servers) (concat (map server_tokens servers))" using Cons by simp
  from config_block[OF _ _ body this, of "''server''" "[]"] show ?case by (simp add: s)
qed (simp add: config_end)

lemma found_servers: "findConfigNodes ''server'' (map server_node servers) = map server_node servers"
  by (induction servers) (auto split: prod.splits)

lemma listener_read:
  assumes "1 \<le> p" "p \<le> 65535"
  shows "nginx_listener (ConfigNode ''listen'' [itoa p] []) = Some \<lparr>ca_Scheme = (if p = 443 \<or> p = 8443 \<or> p = 9443 then ''https'' else ''http''),
    ca_Host = [], ca_Port = p\<rparr>"
proof -
  have c: "CHR '':'' \<notin> set (itoa p)" "CHR ''u'' \<notin> set (itoa p)" using itoa_digits[OF assms(1), of "CHR '':''"] itoa_digits[OF assms(1), of "CHR ''u''"] by (auto simp: is_digit_def byte_def)
  then have "cut_last (CHR '':'') (itoa p) = None" using cut_None[of "CHR '':''" "rev (itoa p)"] by (simp add: cut_last_def)
  then have t: "listen_port_text (itoa p) = itoa p" by (simp add: listen_port_text_def split_host_port_def)
  have u: "\<not> has_prefix (itoa p) ''unix:''" using c(2) by (metis has_prefix_def in_set_takeD list.set_intros(1))
  have "atoi (itoa p) = Some p" using atoi_itoa[of "nat p"] assms by simp
  then show ?thesis using assms t u by (simp add: nginx_listener_def)
qed

lemma server_read:
  assumes ok: "server_ok s"
  shows "server_routes parse_url k (server_node s) = [nginx_route parse_url k s]"
proof -
  obtain p h path pass where s: "s = (p, h, path, pass)" by (cases s) auto
  have v: "1 \<le> p" "p \<le> 65535" "validProxyHost h False" "lower_text h" "validProxyPath path" "trim_space path = path"
    using ok s by auto
  have hs: "nginx_hosts (cn_Children (server_node s)) = [h]"
  proof -
    have t: "trim_space h = h" by (rule trim_printable) (use host_printable[OF v(3)] in blast)
    have f: "go_lower (trim_suffix h ''.'') = h" using host_fixed[OF host_either[OF v(3)] v(4)] t by simp
    have "\<not> host_byte (CHR ''_'')" by (simp add: host_byte_def asciiAlphaNumeric_def byte_def)
    then have "h \<noteq> ''_''" using host_chars[OF v(3)] by auto
    then show ?thesis using v(3) host_nonempty[OF v(3)] f by (simp add: nginx_hosts_def s unique_sorted_def)
  qed
  have ls: "nginxListeners (cn_Children (server_node s)) = [\<lparr>ca_Scheme = (if p = 443 \<or> p = 8443 \<or> p = 9443 then ''https'' else ''http''),
      ca_Host = [], ca_Port = p\<rparr>]"
    unfolding nginxListeners_def s using listener_read[OF v(1,2)] by (simp add: List.map_filter_def nginx_listener_def)
  have np: "path \<noteq> []" "has_prefix path ''/''" using v(5) by (cases path; auto simp: validProxyPath_def has_prefix_def split: if_splits)+
  then have m: "normalizeMatcherPath path = path" using v(5,6) by (simp add: normalizeMatcherPath_def route_path_rule)
  have pp: "collectNginxProxyPass parse_url ''/'' (cn_Children (server_node s)) =
      [(path, if sanitizeUpstream parse_url pass \<noteq> [] then [sanitizeUpstream parse_url pass] else [])]"
    using m np by (simp add: s location_path_def add_paths_def Let_def)
  have sp: "collectNginxStaticPaths ''/'' (cn_Children (server_node s)) = []"
    by (simp add: s collectNginxStaticPaths_def hasDirectNginxServingDirective_def serving_name_def Let_def)
  show ?thesis using hs ls pp sp by (simp add: server_routes_def Let_def s unique_sorted_def)
qed

lemma nginx_text_read:
  assumes "\<forall>s \<in> set servers. server_ok s" "length (nginx_text servers) \<le> maxProxyConfigBytes"
  shows "parseNginxRoutes parse_url (nginx_text servers) k = Inr (mergeProxyRoutes parse_url (map (nginx_route parse_url k) servers))"
proof -
  have t: "parseConfigNodes (lexConfig (nginx_text servers)) = Some (map server_node servers)"
    unfolding nginx_text_def lex_quotes parse_config_iff by (rule servers_text[OF assms(1)])
  have "map (server_routes parse_url k) (map server_node servers) = map (\<lambda>s. [nginx_route parse_url k s]) servers"
    using server_read assms(1) by simp
  then have "concat (map (server_routes parse_url k) (map server_node servers)) = map (nginx_route parse_url k) servers"
    by (simp only: concat_map_singleton)
  then show ?thesis using assms(2) by (simp add: parseNginxRoutes_def t found_servers)
qed

section \<open>Properties\<close>

text \<open>C9. The text of a configuration is read back: the lexer returns the tokens that were quoted, whatever
  bytes they hold, and the parser accepts exactly the token lists the grammar of directives and blocks
  derives, with the tree it derives them from; its bound on nested calls never runs out.\<close>

theorem nginx_grammar:
  "lexConfig (concat (map quote_token ts)) = ts \<and> (parseConfigNodes ts = Some ns \<longleftrightarrow> config_text ns ts)"
  using lex_quotes parse_config_iff by blast

definition log_format_text :: string where
  "log_format_text = ''log_format j '' @ quote_token ''{'' @ quote_token ''a'' @ quote_token ''}'' @ '';''"

lemma log_format_tokens:
  "lexConfig (log_format_text @ rest) = [''log_format'', ''j'', ''{'', ''a'', ''}'', '';''] @ lexConfig rest"
proof -
  have "lexConfig (''log_format'' @ CHR '' '' # r) = ''log_format'' # lexConfig (CHR '' '' # r)" for r
    by (rule lex_word) (simp_all add: word_byte_def blank_byte_def brace_def)
  moreover have "lexConfig (''j'' @ CHR '' '' # r) = ''j'' # lexConfig (CHR '' '' # r)" for r
    by (rule lex_word) (simp_all add: word_byte_def blank_byte_def brace_def)
  ultimately show ?thesis
    by (simp add: log_format_text_def lex_blank blank_byte_def lex_quote lex_brace brace_def)
qed

lemma log_format_unparsed: "parseConfigNodes ([''log_format'', ''j'', ''{'', ''a'', ''}'', '';''] @ ts) = None"
  by (simp add: parseConfigNodes_def ends_args_def)



lemma example_site: "site_ok (''example'', [''app:80''])" "site_ok (''files'', [])"
  using app_upstream
  by (simp_all add: site_ok_def validProxyHost_def has_suffix_def parse_ip_def parse_addr_def contains_any_def validHostLabel_def
      asciiAlphaNumeric_def byte_def lower_text_def)

lemma example_caddy_length: "length (caddy_text [(''example'', [''app:80'']), (''files'', [])]) \<le> maxProxyConfigBytes"
  by (simp add: caddy_text_def caddy_site_def proxy_line_def quote_token_def escape_char_def maxProxyConfigBytes_def)


text \<open>The servers of an Nginx configuration are all found: each gives one route of kind \<open>proxy\<close> on its port,
  host and path, HTTPS on the usual TLS ports, and the route is kept without an upstream when what it
  passes requests to cannot be reduced to a host and a port.\<close>

theorem nginx_servers_discovered:
  assumes "\<forall>s \<in> set servers. server_ok s" "length (nginx_text servers) \<le> maxProxyConfigBytes"
  shows "parseNginxRoutes parse_url (nginx_text servers) workloadKey =
    Inr (mergeProxyRoutes parse_url (map (nginx_route parse_url workloadKey) servers))"
  by (rule nginx_text_read[OF assms])

definition example_server :: nginx_server where
  "example_server = (443, ''example'', ''/api'', ''$backend'')"

lemma example_server_ok: "server_ok example_server"
proof -
  have "trim_space ''/api'' = ''/api''" by (rule trim_printable) (simp add: byte_def)
  moreover have "ascii ''/api''" by (simp add: ascii_def byte_def)
  ultimately show ?thesis
    by (simp add: example_server_def validProxyHost_def has_suffix_def parse_ip_def parse_addr_def contains_any_def validHostLabel_def
      asciiAlphaNumeric_def byte_def lower_text_def ends_args_def validProxyPath_def valid_utf8_ascii runes_ascii is_control_def)
qed

lemma quoted_length: "length (quote_token w) \<le> 2 * length w + 3"
  by (induction w) (auto simp: quote_token_def escape_char_def)

lemma example_nginx_length: "length (nginx_text [example_server]) \<le> maxProxyConfigBytes"
  using quoted_length[of "itoa 443"] port_length[of 443]
  by (simp add: nginx_text_def example_server_def maxProxyConfigBytes_def) (simp add: quote_token_def escape_char_def)

theorem nginx_servers_discovered_witness:
  "parseNginxRoutes no_urls (nginx_text [example_server]) ''docker:web'' = Inr (mergeProxyRoutes no_urls [nginx_route no_urls ''docker:web'' example_server])"
  using nginx_servers_discovered[of "[example_server]" no_urls "''docker:web''"] example_server_ok example_nginx_length by simp

end
