(* ===== verification/Agent_Metadata.thy ===== *)
theory Agent_Metadata
  imports Proxy_Routes Agent_Actions Agent_Deployments "HOL-Library.AList"
begin

text \<open>
  What an Agent learns of its host beside Docker and sockets: the Compose identity of containers and the
  units of systemd (\<^verbatim>\<open>internal/agent/orchestration.go\<close>), and the origin of bare processes
  (\<^verbatim>\<open>internal/agent/process_origins.go\<close>). JSON decoding and SHA-256 are parameters.
\<close>

section \<open>Compose\<close>

record compose_metadata =
  cm_Project :: string
  cm_Service :: string

definition composeLabel :: "string \<Rightarrow> bool" where
  "composeLabel s = name_pattern alnum (or_in alnum ''_.-'') 127 s"

definition validContainerID :: "string \<Rightarrow> bool" where
  "validContainerID v = (if length v < 12 \<or> length v > 64 then False
     else list_all (\<lambda>c. (48 \<le> byte c \<and> byte c \<le> 57) \<or> (97 \<le> byte c \<and> byte c \<le> 102)) v)"

definition compose_entry :: "string list \<Rightarrow> (string \<times> compose_metadata) option" where
  "compose_entry tuple = (case tuple of
       [containerID, project, service] \<Rightarrow>
         if \<not> validContainerID containerID \<or> \<not> composeLabel project then None
         else if service \<noteq> [] \<and> \<not> composeLabel service then None
         else Some (containerID, \<lparr>cm_Project = project, cm_Service = service\<rparr>)
     | _ \<Rightarrow> None)"

text \<open>The lines of an output that are not blank, and the entries \<open>decode\<close> finds in them; a later entry of a
  container replaces an earlier one.\<close>

definition text_lines :: "string \<Rightarrow> string list" where
  "text_lines content = filter (\<lambda>l. l \<noteq> []) (map trim_space (split_on (CHR 0x0A) content))"

definition parseComposeMetadata :: "(string \<Rightarrow> string list option) \<Rightarrow> string \<Rightarrow> (string \<times> compose_metadata) list" where
  "parseComposeMetadata decode content =
     foldl (\<lambda>m (k, v). AList.update k v m) []
       (List.map_filter (\<lambda>line. case decode line of None \<Rightarrow> None | Some t \<Rightarrow> compose_entry t) (text_lines content))"

text \<open>The helper writes the entries in the order of the containers.\<close>

definition compose_tuples :: "(string \<times> compose_metadata) list \<Rightarrow> string list list" where
  "compose_tuples m = map (\<lambda>(k, v). [k, cm_Project v, cm_Service v]) (sort_key fst m)"

definition writeComposeMetadata :: "(string \<Rightarrow> string list option) \<Rightarrow> (string list \<Rightarrow> string) \<Rightarrow> string \<Rightarrow> string" where
  "writeComposeMetadata decode encode content =
     concat (map (\<lambda>t. encode t @ [CHR 0x0A]) (compose_tuples (parseComposeMetadata decode content)))"

definition findComposeMetadata :: "(string \<times> compose_metadata) list \<Rightarrow> string \<Rightarrow> compose_metadata option" where
  "findComposeMetadata m containerID = (case map_of m containerID of
       Some v \<Rightarrow> Some v
     | None \<Rightarrow> map_option snd (find (\<lambda>(k, _). has_prefix k containerID \<or> has_prefix containerID k) m))"

section \<open>Units\<close>

record systemd_unit =
  su_ID :: string
  su_LoadState :: string
  su_ActiveState :: string
  su_SubState :: string
  su_FragmentPath :: string

definition unit_valid :: "systemd_unit \<Rightarrow> bool" where
  "unit_valid u =
     (if su_LoadState u \<noteq> ''loaded'' \<or> \<not> has_suffix (su_ID u) ''.service'' \<or> length (su_ID u) > 256 \<or> \<not> valid_utf8 (su_ID u) then False
      else if contains (su_ID u) ''/'' then False
      else if list_ex (\<lambda>r. r = 0 \<or> is_control r) (runes (su_ID u)) then False
      else su_ActiveState u \<in> {''active'', ''activating'', ''deactivating'', ''reloading'', ''inactive'', ''failed''})"

text \<open>\<^verbatim>\<open>filepath.Clean\<close> of an absolute path.\<close>

definition clean_step :: "string list \<Rightarrow> string \<Rightarrow> string list" where
  "clean_step acc e = (if e = [] \<or> e = ''.'' then acc else if e = ''..'' then butlast acc else acc @ [e])"

definition clean_abs :: "string \<Rightarrow> string" where
  "clean_abs p = ''/'' @ join ''/'' (foldl clean_step [] (split_on (CHR ''/'') p))"

definition unit_custom :: "systemd_unit \<Rightarrow> bool" where
  "unit_custom u =
     (if \<not> is_abs (su_FragmentPath u) then False
      else let cleaned = clean_abs (su_FragmentPath u) in
        has_prefix cleaned ''/etc/systemd/system/'' \<or> has_prefix cleaned ''/usr/local/lib/systemd/system/''
        \<or> has_prefix cleaned ''/usr/local/etc/systemd/system/'')"

definition unit_relevant :: "systemd_unit \<Rightarrow> bool" where
  "unit_relevant u =
     (if su_ActiveState u = ''failed'' then True
      else unit_custom u \<and> (su_ActiveState u = ''active'' \<or> su_ActiveState u = ''activating''
        \<or> su_ActiveState u = ''deactivating'' \<or> su_ActiveState u = ''reloading''))"

definition unit_status :: "systemd_unit \<Rightarrow> string" where
  "unit_status u = (if su_SubState u = [] \<or> su_SubState u = su_ActiveState u then su_ActiveState u
     else su_ActiveState u @ ''/'' @ su_SubState u)"

definition unit_of :: "(string \<times> string) list \<Rightarrow> systemd_unit" where
  "unit_of kvs = (let get = (\<lambda>k. case map_of kvs k of Some v \<Rightarrow> v | None \<Rightarrow> []) in
     \<lparr>su_ID = get ''Id'', su_LoadState = get ''LoadState'', su_ActiveState = get ''ActiveState'', su_SubState = get ''SubState'',
      su_FragmentPath = get ''FragmentPath''\<rparr>)"

text \<open>The properties of the unit being read, the latest first, and the units read.\<close>

definition flush_unit :: "(string \<times> string) list \<times> systemd_unit list \<Rightarrow> (string \<times> string) list \<times> systemd_unit list" where
  "flush_unit s = (case s of (kvs, us) \<Rightarrow>
     if kvs = [] then s else ([], if unit_valid (unit_of kvs) then us @ [unit_of kvs] else us))"

definition unit_line :: "(string \<times> string) list \<times> systemd_unit list \<Rightarrow> string \<Rightarrow> (string \<times> string) list \<times> systemd_unit list" where
  "unit_line s line = (if line = [] then flush_unit s
     else case cut (CHR ''='') line of None \<Rightarrow> s | Some (k, v) \<Rightarrow> ((k, v) # fst s, snd s))"

definition parseSystemdUnits :: "string \<Rightarrow> systemd_unit list" where
  "parseSystemdUnits content = snd (flush_unit (foldl unit_line ([], []) (split_on (CHR 0x0A) content)))"

section \<open>Processes\<close>

record process_origin =
  pr_PID :: int
  pr_UID :: int
  pr_Comm :: string
  pr_Executable :: string
  pr_CWDBase :: string
  pr_CWDFingerprint :: string

definition origin_strong :: "process_origin \<Rightarrow> bool" where
  "origin_strong p =
     (if pr_PID p \<le> 1 \<or> pr_UID p < 0 \<or> pr_CWDBase p = [] \<or> length (pr_CWDFingerprint p) \<noteq> 16 then False
      else if \<not> list_all is_hex (pr_CWDFingerprint p) then False
      else pr_Executable p \<noteq> [] \<or> pr_Comm p \<noteq> [])"

text \<open>The lines a scanner gives; the latest origin of a process counts.\<close>

definition parseProcessOrigins :: "(string \<Rightarrow> process_origin option) \<Rightarrow> string list \<Rightarrow> int \<Rightarrow> process_origin option" where
  "parseProcessOrigins decode ls =
     map_of (rev (map (\<lambda>p. (pr_PID p, p)) (filter origin_strong (List.map_filter decode ls))))"

definition origin_text :: "process_origin \<Rightarrow> string" where
  "origin_text p = itoa (pr_UID p) @ [zero_char] @ pr_CWDFingerprint p @ [zero_char] @ pr_Executable p @ [zero_char] @ pr_Comm p"

definition origin_workloadKey :: "(string \<Rightarrow> string) \<Rightarrow> process_origin \<Rightarrow> string" where
  "origin_workloadKey sha256 p = ''process:'' @ hex_encode (take 8 (sha256 (origin_text p)))"

definition middle_dot :: string where "middle_dot = [CHR '' '', CHR 0xC2, CHR 0xB7, CHR '' '']"

definition origin_workloadName :: "process_origin \<Rightarrow> string \<Rightarrow> string" where
  "origin_workloadName p fallback =
     (let runtime0 = (if pr_Executable p = [] then pr_Comm p else pr_Executable p);
          runtimeName = (if runtime0 = [] then fallback else runtime0)
      in if pr_CWDBase p = runtimeName \<or> trim_space (pr_CWDBase p) = [] then runtimeName
         else pr_CWDBase p @ middle_dot @ runtimeName)"

text \<open>A label: at most 128 runes, none of them a control character.\<close>

definition label_chunk :: "nat \<times> string \<Rightarrow> string" where
  "label_chunk p = (if is_control (fst p) then error_bytes else rune_bytes p)"

definition sanitizeProcessLabel :: "string \<Rightarrow> string" where
  "sanitizeProcessLabel value = trim_space (concat (map label_chunk (take 128 (rune_chunks (to_valid_utf8 value)))))"

end
