(* ===== verification/Privileged_Commands.thy ===== *)
theory Privileged_Commands
  imports Go_Strings
begin

text \<open>
  The commands an Agent runs as root (\<^verbatim>\<open>internal/agent/commands.go\<close>), the sudoers file generated from them,
  and their execution (\<^verbatim>\<open>internal/agent/exec.go\<close>). Looking up a program and running one are parameters.
\<close>

section \<open>The commands\<close>

record priv_command =
  pc_Write :: bool
  pc_Argv :: "string list"
  pc_Desc :: string

definition agent_path :: string where "agent_path = ''/usr/local/bin/lodge-agent''"

definition processOriginsCommand :: "string list" where "processOriginsCommand = [agent_path, ''--collect-process-origins'']"
definition composeMetadataCommand :: "string list" where "composeMetadataCommand = [agent_path, ''--collect-compose-metadata'']"
definition proxyRoutesCommand :: "string list" where "proxyRoutesCommand = [agent_path, ''--collect-proxy-routes'']"
definition sshAuthCommand :: "string list" where "sshAuthCommand = [agent_path, ''--collect-ssh-auth'']"
definition securityPostureCommand :: "string list" where "securityPostureCommand = [agent_path, ''--collect-security-posture'']"
definition listActionsCommand :: "string list" where "listActionsCommand = [agent_path, ''--list-actions'']"
definition executeActionCommand :: "string list" where "executeActionCommand = [agent_path, ''--execute-action'']"
definition listDeploymentsCommand :: "string list" where "listDeploymentsCommand = [agent_path, ''--list-deployments'']"
definition executeDeploymentCommand :: "string list" where "executeDeploymentCommand = [agent_path, ''--execute-deployment'']"
definition systemdUnitsCommand :: "string list" where
  "systemdUnitsCommand = [''systemctl'', ''show'', ''--type=service'', ''--all'',
     ''--property=Id,LoadState,ActiveState,SubState,FragmentPath'']"
definition dockerPS :: "string list" where
  "dockerPS = [''docker'', ''ps'', ''--all'', ''--no-trunc'', ''--format'', ''{{json .}}'']"
definition dockerDF :: "string list" where
  "dockerDF = [''docker'', ''system'', ''df'', ''--format'', ''{{json .}}'']"
definition ssCmd :: "string list" where "ssCmd = [''ss'', ''-tlnpH'']"

definition read_command :: "string list \<Rightarrow> string \<Rightarrow> priv_command" where
  "read_command argv desc = \<lparr>pc_Write = False, pc_Argv = argv, pc_Desc = desc\<rparr>"

definition privilegedRead :: "priv_command list" where
  "privilegedRead = [
     read_command dockerPS ([CHR 0xE5, CHR 0x88, CHR 0x97, CHR 0xE5, CHR 0x87, CHR 0xBA, CHR 0xE6, CHR 0x89, CHR 0x80, CHR 0xE6, CHR 0x9C, CHR 0x89, CHR 0xE5, CHR 0xAE, CHR 0xB9, CHR 0xE5, CHR 0x99, CHR 0xA8, CHR 0xEF, CHR 0xBC, CHR 0x88, CHR 0xE5, CHR 0x90, CHR 0xAB, CHR 0xE5, CHR 0xAE, CHR 0x8C, CHR 0xE6, CHR 0x95, CHR 0xB4] @ '' ID'' @ [CHR 0xEF, CHR 0xBC, CHR 0x89]),
     read_command dockerDF (''docker '' @ [CHR 0xE7, CHR 0xA3, CHR 0x81, CHR 0xE7, CHR 0x9B, CHR 0x98, CHR 0xE5, CHR 0x8D, CHR 0xA0, CHR 0xE7, CHR 0x94, CHR 0xA8]),
     read_command composeMetadataCommand ([CHR 0xE8, CHR 0xBE, CHR 0x93, CHR 0xE5, CHR 0x87, CHR 0xBA, CHR 0xE6, CHR 0xA0, CHR 0xA1, CHR 0xE9, CHR 0xAA, CHR 0x8C, CHR 0xE5, CHR 0x90, CHR 0x8E, CHR 0xE7, CHR 0x9A, CHR 0x84] @ '' Compose project/service '' @ [CHR 0xE8, CHR 0xBA, CHR 0xAB, CHR 0xE4, CHR 0xBB, CHR 0xBD]),
     read_command proxyRoutesCommand ([CHR 0xE8, CHR 0xBE, CHR 0x93, CHR 0xE5, CHR 0x87, CHR 0xBA, CHR 0xE8, CHR 0x84, CHR 0xB1, CHR 0xE6, CHR 0x95, CHR 0x8F, CHR 0xE7, CHR 0x9A, CHR 0x84] @ '' Caddy/Nginx Web '' @ [CHR 0xE8, CHR 0xB7, CHR 0xAF, CHR 0xE7, CHR 0x94, CHR 0xB1]),
     read_command sshAuthCommand ([CHR 0xE8, CHR 0xBE, CHR 0x93, CHR 0xE5, CHR 0x87, CHR 0xBA, CHR 0xE6, CHR 0x9C, CHR 0x80, CHR 0xE8, CHR 0xBF, CHR 0x91] @ '' SSH '' @ [CHR 0xE8, CHR 0xAE, CHR 0xA4, CHR 0xE8, CHR 0xAF, CHR 0x81, CHR 0xE5, CHR 0xA4, CHR 0xB1, CHR 0xE8, CHR 0xB4, CHR 0xA5, CHR 0xE7, CHR 0x9A, CHR 0x84, CHR 0xE6, CHR 0x9D, CHR 0xA5, CHR 0xE6, CHR 0xBA, CHR 0x90] @ '' IP '' @ [CHR 0xE8, CHR 0x81, CHR 0x9A, CHR 0xE5, CHR 0x90, CHR 0x88]),
     read_command securityPostureCommand ([CHR 0xE8, CHR 0xBE, CHR 0x93, CHR 0xE5, CHR 0x87, CHR 0xBA, CHR 0xE8, CHR 0x84, CHR 0xB1, CHR 0xE6, CHR 0x95, CHR 0x8F] @ '' SSH '' @ [CHR 0xE4, CHR 0xB8, CHR 0x8E, CHR 0xE6, CHR 0x9C, CHR 0xAC, CHR 0xE6, CHR 0x9C, CHR 0xBA, CHR 0xE9, CHR 0x98, CHR 0xB2, CHR 0xE6, CHR 0x8A, CHR 0xA4, CHR 0xE5, CHR 0xA7, CHR 0xBF, CHR 0xE6, CHR 0x80, CHR 0x81]),
     read_command listActionsCommand ([CHR 0xE5, CHR 0x88, CHR 0x97, CHR 0xE5, CHR 0x87, CHR 0xBA] @ '' root '' @ [CHR 0xE7, CHR 0xAD, CHR 0x96, CHR 0xE7, CHR 0x95, CHR 0xA5, CHR 0xE6, CHR 0x89, CHR 0xB9, CHR 0xE5, CHR 0x87, CHR 0x86, CHR 0xE7, CHR 0x9A, CHR 0x84, CHR 0xE5, CHR 0x8F, CHR 0x97, CHR 0xE6, CHR 0x8E, CHR 0xA7, CHR 0xE5, CHR 0x8A, CHR 0xA8, CHR 0xE4, CHR 0xBD, CHR 0x9C]),
     read_command listDeploymentsCommand ([CHR 0xE5, CHR 0x88, CHR 0x97, CHR 0xE5, CHR 0x87, CHR 0xBA] @ '' root '' @ [CHR 0xE7, CHR 0xAD, CHR 0x96, CHR 0xE7, CHR 0x95, CHR 0xA5, CHR 0xE6, CHR 0x89, CHR 0xB9, CHR 0xE5, CHR 0x87, CHR 0x86, CHR 0xE7, CHR 0x9A, CHR 0x84, CHR 0xE5, CHR 0xA3, CHR 0xB0, CHR 0xE6, CHR 0x98, CHR 0x8E, CHR 0xE5, CHR 0xBC, CHR 0x8F, CHR 0xE9, CHR 0x83, CHR 0xA8, CHR 0xE7, CHR 0xBD, CHR 0xB2]),
     read_command ssCmd ([CHR 0xE7, CHR 0x9B, CHR 0x91, CHR 0xE5, CHR 0x90, CHR 0xAC, CHR 0xE5, CHR 0xA5, CHR 0x97, CHR 0xE6, CHR 0x8E, CHR 0xA5, CHR 0xE5, CHR 0xAD, CHR 0x97, CHR 0xEF, CHR 0xBC, CHR 0x88, CHR 0xE5, CHR 0x90, CHR 0xAB] @ '' PID'' @ [CHR 0xEF, CHR 0xBC, CHR 0x8C, CHR 0xE9, CHR 0x9C, CHR 0x80] @ '' root '' @ [CHR 0xE6, CHR 0x89, CHR 0x8D, CHR 0xE8, CHR 0x83, CHR 0xBD, CHR 0xE8, CHR 0xB7, CHR 0xA8, CHR 0xE7, CHR 0x94, CHR 0xA8, CHR 0xE6, CHR 0x88, CHR 0xB7, CHR 0xEF, CHR 0xBC, CHR 0x89]),
     read_command systemdUnitsCommand ([CHR 0xE8, CHR 0xAF, CHR 0xBB, CHR 0xE5, CHR 0x8F, CHR 0x96] @ '' systemd service '' @ [CHR 0xE7, CHR 0x8A, CHR 0xB6, CHR 0xE6, CHR 0x80, CHR 0x81, CHR 0xE4, CHR 0xB8, CHR 0x8E] @ '' unit '' @ [CHR 0xE6, CHR 0x9D, CHR 0xA5, CHR 0xE6, CHR 0xBA, CHR 0x90, CHR 0xE5, CHR 0x88, CHR 0x86, CHR 0xE7, CHR 0xB1, CHR 0xBB]),
     read_command processOriginsCommand [CHR 0xE8, CHR 0xBE, CHR 0x93, CHR 0xE5, CHR 0x87, CHR 0xBA, CHR 0xE8, CHR 0x84, CHR 0xB1, CHR 0xE6, CHR 0x95, CHR 0x8F, CHR 0xE8, CHR 0xBF, CHR 0x9B, CHR 0xE7, CHR 0xA8, CHR 0x8B, CHR 0xE6, CHR 0x9D, CHR 0xA5, CHR 0xE6, CHR 0xBA, CHR 0x90, CHR 0xEF, CHR 0xBC, CHR 0x88, CHR 0xE4, CHR 0xB8, CHR 0x8D, CHR 0xE5, CHR 0x90, CHR 0xAB, CHR 0xE5, CHR 0x8F, CHR 0x82, CHR 0xE6, CHR 0x95, CHR 0xB0, CHR 0xE3, CHR 0x80, CHR 0x81, CHR 0xE7, CHR 0x8E, CHR 0xAF, CHR 0xE5, CHR 0xA2, CHR 0x83, CHR 0xE5, CHR 0x8F, CHR 0x98, CHR 0xE9, CHR 0x87, CHR 0x8F, CHR 0xE6, CHR 0x88, CHR 0x96, CHR 0xE5, CHR 0xAE, CHR 0x8C, CHR 0xE6, CHR 0x95, CHR 0xB4, CHR 0xE8, CHR 0xB7, CHR 0xAF, CHR 0xE5, CHR 0xBE, CHR 0x84, CHR 0xEF, CHR 0xBC, CHR 0x89]]"

definition privilegedWrite :: "priv_command list" where
  "privilegedWrite = [
     \<lparr>pc_Write = True, pc_Argv = executeActionCommand, pc_Desc = ([CHR 0xE6, CHR 0x89, CHR 0xA7, CHR 0xE8, CHR 0xA1, CHR 0x8C] @ '' root '' @ [CHR 0xE7, CHR 0xAD, CHR 0x96, CHR 0xE7, CHR 0x95, CHR 0xA5, CHR 0xE6, CHR 0x89, CHR 0xB9, CHR 0xE5, CHR 0x87, CHR 0x86, CHR 0xE7, CHR 0x9A, CHR 0x84, CHR 0xE5, CHR 0x8D, CHR 0x95, CHR 0xE4, CHR 0xB8, CHR 0xAA, CHR 0xE5, CHR 0x8F, CHR 0x97, CHR 0xE6, CHR 0x8E, CHR 0xA7, CHR 0xE5, CHR 0x8A, CHR 0xA8, CHR 0xE4, CHR 0xBD, CHR 0x9C])\<rparr>,
     \<lparr>pc_Write = True, pc_Argv = executeDeploymentCommand, pc_Desc = ([CHR 0xE6, CHR 0x89, CHR 0xA7, CHR 0xE8, CHR 0xA1, CHR 0x8C] @ '' root '' @ [CHR 0xE7, CHR 0xAD, CHR 0x96, CHR 0xE7, CHR 0x95, CHR 0xA5, CHR 0xE6, CHR 0x89, CHR 0xB9, CHR 0xE5, CHR 0x87, CHR 0x86, CHR 0xE7, CHR 0x9A, CHR 0x84, CHR 0xE5, CHR 0xA3, CHR 0xB0, CHR 0xE6, CHR 0x98, CHR 0x8E, CHR 0xE5, CHR 0xBC, CHR 0x8F, CHR 0xE9, CHR 0x83, CHR 0xA8, CHR 0xE7, CHR 0xBD, CHR 0xB2])\<rparr>]"

definition AllPrivileged :: "priv_command list" where
  "AllPrivileged = privilegedRead @ privilegedWrite"

definition commandByName :: "string list \<Rightarrow> priv_command option" where
  "commandByName argv = find (\<lambda>c. pc_Argv c = argv) AllPrivileged"

section \<open>The sudoers file\<close>

text \<open>\<^verbatim>\<open>%q\<close> of the name of a program, which is printable ASCII. \<open>lookPath\<close> answers with a path or an error.\<close>

definition quoted :: "string \<Rightarrow> string" where
  "quoted s = [CHR 0x22] @ s @ [CHR 0x22]"

definition resolveAbsolute :: "(string \<Rightarrow> string + string) \<Rightarrow> priv_command list \<Rightarrow> string + string list list" where
  "resolveAbsolute lookPath cmds = foldr (\<lambda>c rest.
     if pc_Argv c = [] then Inl [CHR 0xE7, CHR 0xA9, CHR 0xBA, CHR 0xE5, CHR 0x91, CHR 0xBD, CHR 0xE4, CHR 0xBB, CHR 0xA4]
     else case lookPath (hd (pc_Argv c)) of
       Inl e \<Rightarrow> Inl (([CHR 0xE6, CHR 0x89, CHR 0xBE, CHR 0xE4, CHR 0xB8, CHR 0x8D, CHR 0xE5, CHR 0x88, CHR 0xB0, CHR 0xE5, CHR 0x91, CHR 0xBD, CHR 0xE4, CHR 0xBB, CHR 0xA4] @ '' '') @ quoted (hd (pc_Argv c)) @ [CHR 0xEF, CHR 0xBC, CHR 0x9A] @ e)
     | Inr path \<Rightarrow> map_sum (\<lambda>e. e) (\<lambda>rs. (path # tl (pc_Argv c)) # rs) rest) cmds (Inr [])"

definition sudoers_special :: "char \<Rightarrow> bool" where
  "sudoers_special c = (c = CHR 0x5C \<or> c = CHR '','' \<or> c = CHR '':'' \<or> c = CHR 0x23 \<or> c = CHR '' '')"

definition escapeSudoersArg :: "string \<Rightarrow> string" where
  "escapeSudoersArg s = concat (map (\<lambda>c. if sudoers_special c then [CHR 0x5C, c] else [c]) s)"

definition formatSudoersLine :: "string list \<Rightarrow> string" where
  "formatSudoersLine argv = join '' '' (hd argv # map escapeSudoersArg (tl argv))"

definition newline :: string where "newline = [CHR 0x0A]"

fun sudoers_lines :: "string list list \<Rightarrow> string" where
  "sudoers_lines [] = []"
| "sudoers_lines [argv] = ''    '' @ formatSudoersLine argv @ newline"
| "sudoers_lines (argv # rest) = ''    '' @ formatSudoersLine argv @ '', '' @ [CHR 0x5C] @ newline @ sudoers_lines rest"

definition writeSudoersSpec :: "string \<Rightarrow> string list list \<Rightarrow> string" where
  "writeSudoersSpec description commands =
     (if commands = [] then []
      else newline @ [CHR 0x23, CHR '' ''] @ description @ newline @ ''lodge ALL=(root) NOPASSWD: '' @ [CHR 0x5C] @ newline
           @ sudoers_lines commands)"

definition sudoers_title :: string where
  "sudoers_title = ''# /etc/sudoers.d/lodge-agent''"

definition sudoers_generated :: string where
  "sudoers_generated = (''# '' @ [CHR 0xE7, CHR 0x94, CHR 0xB1] @ '' '' @ [CHR 0x60] @ ''lodge-agent --print-sudoers'' @ [CHR 0x60] @ '' '' @ [CHR 0xE7, CHR 0x94, CHR 0x9F, CHR 0xE6, CHR 0x88, CHR 0x90, CHR 0xEF, CHR 0xBC, CHR 0x8C, CHR 0xE8, CHR 0xAF, CHR 0xB7, CHR 0xE5, CHR 0x8B, CHR 0xBF, CHR 0xE6, CHR 0x89, CHR 0x8B, CHR 0xE6, CHR 0x94, CHR 0xB9, CHR 0xE3, CHR 0x80, CHR 0x82])"

definition sudoers_warning :: string where
  "sudoers_warning = (''# '' @ [CHR 0xE4, CHR 0xB8, CHR 0x8E] @ '' agent '' @ [CHR 0xE4, CHR 0xBA, CHR 0x8C, CHR 0xE8, CHR 0xBF, CHR 0x9B, CHR 0xE5, CHR 0x88, CHR 0xB6, CHR 0xE5, CHR 0x86, CHR 0x85, CHR 0xE9, CHR 0x83, CHR 0xA8, CHR 0xE7, CHR 0x9A, CHR 0x84, CHR 0xE5, CHR 0x91, CHR 0xBD, CHR 0xE4, CHR 0xBB, CHR 0xA4, CHR 0xE9, CHR 0x80, CHR 0x90, CHR 0xE5, CHR 0xAD, CHR 0x97, CHR 0xE5, CHR 0xAF, CHR 0xB9, CHR 0xE5, CHR 0xBA, CHR 0x94, CHR 0xEF, CHR 0xBC, CHR 0x8C, CHR 0xE6, CHR 0x89, CHR 0x8B, CHR 0xE6, CHR 0x94, CHR 0xB9, CHR 0xE4, CHR 0xBC, CHR 0x9A, CHR 0xE5, CHR 0xAF, CHR 0xBC, CHR 0xE8, CHR 0x87, CHR 0xB4] @ '' sudo '' @ [CHR 0xE6, CHR 0x8B, CHR 0x92, CHR 0xE7, CHR 0xBB, CHR 0x9D, CHR 0xE6, CHR 0x89, CHR 0xA7, CHR 0xE8, CHR 0xA1, CHR 0x8C, CHR 0xE3, CHR 0x80, CHR 0x82])"

definition read_title :: string where
  "read_title = [CHR 0xE5, CHR 0x8F, CHR 0xAA, CHR 0xE8, CHR 0xAF, CHR 0xBB, CHR 0xE9, CHR 0x87, CHR 0x87, CHR 0xE9, CHR 0x9B, CHR 0x86]"

definition write_title :: string where
  "write_title = [CHR 0xE5, CHR 0x8F, CHR 0x97, CHR 0xE6, CHR 0x8E, CHR 0xA7, CHR 0xE5, CHR 0x86, CHR 0x99, CHR 0xE6, CHR 0x93, CHR 0x8D, CHR 0xE4, CHR 0xBD, CHR 0x9C]"

definition sudoers_header :: string where
  "sudoers_header = sudoers_title @ newline @ sudoers_generated @ newline @ sudoers_warning @ newline"

definition GenerateSudoers :: "string list list \<Rightarrow> string list list \<Rightarrow> string" where
  "GenerateSudoers read write = sudoers_header @ writeSudoersSpec read_title read @ writeSudoersSpec write_title write"

definition PrintSudoers :: "(string \<Rightarrow> string + string) \<Rightarrow> string + string" where
  "PrintSudoers lookPath = (case resolveAbsolute lookPath privilegedRead of
       Inl e \<Rightarrow> Inl e
     | Inr read \<Rightarrow> (case resolveAbsolute lookPath privilegedWrite of
         Inl e \<Rightarrow> Inl e
       | Inr write \<Rightarrow> Inr (GenerateSudoers read write)))"

section \<open>Running a command\<close>

definition maxPrivilegedStdin :: nat where "maxPrivilegedStdin = 4096"
definition maxPrivilegedStdout :: nat where "maxPrivilegedStdout = 4194304"
definition maxPrivilegedStderr :: nat where "maxPrivilegedStderr = 65536"

record bounded_buffer =
  bb_Content :: string
  bb_Limit :: nat
  bb_Exceeded :: bool

definition bounded_write :: "bounded_buffer \<Rightarrow> string \<Rightarrow> bounded_buffer" where
  "bounded_write b content =
     (let remaining = bb_Limit b - length (bb_Content b) in
      b\<lparr>bb_Content := bb_Content b @ take remaining content,
        bb_Exceeded := bb_Exceeded b \<or> min remaining (length content) < length content\<rparr>)"

definition bounded_writes :: "nat \<Rightarrow> string list \<Rightarrow> bounded_buffer" where
  "bounded_writes limit chunks = foldl bounded_write \<lparr>bb_Content = [], bb_Limit = limit, bb_Exceeded = False\<rparr> chunks"

definition firstLine :: "string \<Rightarrow> string" where
  "firstLine s = takeWhile (\<lambda>c. c \<noteq> CHR 0x0A) s"

definition joinArgv :: "string list \<Rightarrow> string" where
  "joinArgv argv = join '' '' argv"

text \<open>What a program does with its standard input: the chunks it writes and whether it ends well.\<close>

type_synonym program = "string list \<Rightarrow> string \<Rightarrow> string list \<times> string list \<times> string option"

text \<open>The command that was run, when one was, and its answer or the error with what was read.\<close>

record run_result =
  rr_Ran :: "(string list \<times> string) option"
  rr_Stdout :: string
  rr_Stderr :: string
  rr_Error :: "string option"

definition refused :: "string \<Rightarrow> run_result" where
  "refused e = \<lparr>rr_Ran = None, rr_Stdout = [], rr_Stderr = [], rr_Error = Some e\<rparr>"

definition runPrivilegedInput :: "program \<Rightarrow> string list \<Rightarrow> string \<Rightarrow> run_result" where
  "runPrivilegedInput run argv input = (case commandByName argv of
       None \<Rightarrow> refused (([CHR 0xE5, CHR 0x91, CHR 0xBD, CHR 0xE4, CHR 0xBB, CHR 0xA4, CHR 0xE4, CHR 0xB8, CHR 0x8D, CHR 0xE5, CHR 0x9C, CHR 0xA8] @ '' sudoers '' @ [CHR 0xE7, CHR 0x99, CHR 0xBD, CHR 0xE5, CHR 0x90, CHR 0x8D, CHR 0xE5, CHR 0x8D, CHR 0x95, CHR 0xE5, CHR 0x86, CHR 0x85, CHR 0xEF, CHR 0xBC, CHR 0x8C, CHR 0xE6, CHR 0x8B, CHR 0x92, CHR 0xE7, CHR 0xBB, CHR 0x9D, CHR 0xE6, CHR 0x89, CHR 0xA7, CHR 0xE8, CHR 0xA1, CHR 0x8C] @ '': '') @ joinArgv argv)
     | Some c \<Rightarrow>
         if length input > maxPrivilegedStdin then refused [CHR 0xE7, CHR 0x89, CHR 0xB9, CHR 0xE6, CHR 0x9D, CHR 0x83, CHR 0xE5, CHR 0x91, CHR 0xBD, CHR 0xE4, CHR 0xBB, CHR 0xA4, CHR 0xE8, CHR 0xBE, CHR 0x93, CHR 0xE5, CHR 0x85, CHR 0xA5, CHR 0xE8, CHR 0xB6, CHR 0x85, CHR 0xE8, CHR 0xBF, CHR 0x87, CHR 0xE9, CHR 0x99, CHR 0x90, CHR 0xE5, CHR 0x88, CHR 0xB6]
         else if input \<noteq> [] \<and> \<not> pc_Write c then refused [CHR 0xE5, CHR 0x8F, CHR 0xAA, CHR 0xE8, CHR 0xAF, CHR 0xBB, CHR 0xE7, CHR 0x89, CHR 0xB9, CHR 0xE6, CHR 0x9D, CHR 0x83, CHR 0xE5, CHR 0x91, CHR 0xBD, CHR 0xE4, CHR 0xBB, CHR 0xA4, CHR 0xE4, CHR 0xB8, CHR 0x8D, CHR 0xE6, CHR 0x8E, CHR 0xA5, CHR 0xE5, CHR 0x8F, CHR 0x97, CHR 0xE6, CHR 0xA0, CHR 0x87, CHR 0xE5, CHR 0x87, CHR 0x86, CHR 0xE8, CHR 0xBE, CHR 0x93, CHR 0xE5, CHR 0x85, CHR 0xA5]
         else
           let cmd = ''sudo'' # ''-n'' # ''--'' # argv;
               (outs, errs, failure) = run cmd input;
               out = bounded_writes maxPrivilegedStdout outs;
               err = bounded_writes maxPrivilegedStderr errs;
               limited = bb_Exceeded out \<or> bb_Exceeded err
           in \<lparr>rr_Ran = Some (cmd, input), rr_Stdout = bb_Content out, rr_Stderr = bb_Content err,
                rr_Error = (if failure \<noteq> None \<or> limited then
                    Some ((case failure of Some f \<Rightarrow> f | None \<Rightarrow> [])
                      @ (if limited then (if failure \<noteq> None then newline else []) @ ([CHR 0xE7, CHR 0x89, CHR 0xB9, CHR 0xE6, CHR 0x9D, CHR 0x83, CHR 0xE5, CHR 0x91, CHR 0xBD, CHR 0xE4, CHR 0xBB, CHR 0xA4, CHR 0xE8, CHR 0xBE, CHR 0x93, CHR 0xE5, CHR 0x87, CHR 0xBA, CHR 0xE8, CHR 0xB6, CHR 0x85, CHR 0xE8, CHR 0xBF, CHR 0x87, CHR 0xE9, CHR 0x99, CHR 0x90, CHR 0xE5, CHR 0x88, CHR 0xB6, CHR 0xEF, CHR 0xBC, CHR 0x88] @ ''stdout=4194304 bytes, stderr=65536 bytes'' @ [CHR 0xEF, CHR 0xBC, CHR 0x89]) else [])
                      @ (if bb_Content err \<noteq> [] then '': '' @ firstLine (bb_Content err) else []))
                  else None)\<rparr>)"

definition runPrivileged :: "program \<Rightarrow> string list \<Rightarrow> run_result" where
  "runPrivileged run argv = runPrivilegedInput run argv []"

section \<open>The buffer\<close>

lemma bounded_invariant:
  "length (bb_Content b) \<le> bb_Limit b \<Longrightarrow>
   foldl bounded_write b chunks = \<lparr>bb_Content = take (bb_Limit b) (bb_Content b @ concat chunks), bb_Limit = bb_Limit b,
     bb_Exceeded = bb_Exceeded b \<or> bb_Limit b < length (bb_Content b @ concat chunks) \<rparr>"
proof (induction chunks arbitrary: b)
  case Nil
  then show ?case by (cases b) auto
next
  case (Cons c cs)
  let ?b = "bounded_write b c"
  have l: "bb_Limit ?b = bb_Limit b" "length (bb_Content ?b) \<le> bb_Limit b" using Cons.prems by (auto simp: bounded_write_def Let_def)
  have t: "take (bb_Limit b) (bb_Content ?b @ concat cs) = take (bb_Limit b) (bb_Content b @ c @ concat cs)"
    using Cons.prems by (auto simp: bounded_write_def Let_def min_def)
  have e: "(bb_Exceeded ?b \<or> bb_Limit b < length (bb_Content ?b @ concat cs)) =
      (bb_Exceeded b \<or> bb_Limit b < length (bb_Content b @ c @ concat cs))"
    using Cons.prems by (auto simp: bounded_write_def Let_def min_def)
  show ?case using Cons.IH[of ?b] l t e by simp
qed

lemma bounded_content:
  "bb_Content (bounded_writes n chunks) = take n (concat chunks)" "bb_Exceeded (bounded_writes n chunks) \<longleftrightarrow> n < length (concat chunks)"
  using bounded_invariant[of "\<lparr>bb_Content = [], bb_Limit = n, bb_Exceeded = False\<rparr>" chunks] by (simp_all add: bounded_writes_def)

section \<open>The sudoers file read back\<close>

text \<open>How sudo reads a command: a backslash takes the next byte as it is, a space ends an argument, and a comma
  or the end of the line ends the command.\<close>

fun sudo_tokens :: "string \<Rightarrow> string \<Rightarrow> string list" where
  "sudo_tokens [] w = [w]"
| "sudo_tokens (c # cs) w =
     (if c = CHR 0x5C then (case cs of [] \<Rightarrow> [w] | d # ds \<Rightarrow> sudo_tokens ds (w @ [d]))
      else if c = CHR '' '' then w # sudo_tokens cs []
      else if c = CHR '','' then [w]
      else sudo_tokens cs (w @ [c]))"

definition sudoers_commands :: "string \<Rightarrow> string list list" where
  "sudoers_commands file = map (\<lambda>l. sudo_tokens (drop 4 l) []) (filter (\<lambda>l. has_prefix l ''    '') (split_on (CHR 0x0A) file))"

declare sudo_tokens.simps(2) [simp del]

lemma tokens_plain: "\<not> sudoers_special c \<Longrightarrow> sudo_tokens (c # cs) w = sudo_tokens cs (w @ [c])"
  by (simp add: sudo_tokens.simps(2) sudoers_special_def)

lemma tokens_escaped: "sudo_tokens (CHR 0x5C # d # ds) w = sudo_tokens ds (w @ [d])"
  by (simp add: sudo_tokens.simps(2))

lemma tokens_space: "sudo_tokens (CHR '' '' # cs) w = w # sudo_tokens cs []"
  by (simp add: sudo_tokens.simps(2))

lemma tokens_comma: "sudo_tokens (CHR '','' # cs) w = [w]"
  by (simp add: sudo_tokens.simps(2))

lemma tokens_program: "\<forall>c \<in> set p. \<not> sudoers_special c \<Longrightarrow> sudo_tokens (p @ r) w = sudo_tokens r (w @ p)"
  by (induction p arbitrary: w) (simp_all add: tokens_plain)

lemma tokens_argument: "sudo_tokens (escapeSudoersArg a @ r) w = sudo_tokens r (w @ a)"
  by (induction a arbitrary: w) (simp_all add: escapeSudoersArg_def tokens_plain tokens_escaped)

definition ends_command :: "string \<Rightarrow> bool" where
  "ends_command r \<longleftrightarrow> r = [] \<or> hd r = CHR '',''"

lemma tokens_end: "ends_command r \<Longrightarrow> sudo_tokens r w = [w]"
  by (cases r) (auto simp: ends_command_def tokens_comma)

lemma tokens_arguments:
  "ends_command r \<Longrightarrow> sudo_tokens (concat (map (\<lambda>a. CHR '' '' # escapeSudoersArg a) as) @ r) w = w # as"
  by (induction as arbitrary: w) (simp_all add: tokens_end tokens_space tokens_argument[where w = "[]", simplified])

lemma join_spaced: "join '' '' (w # ws) = w @ concat (map (\<lambda>v. CHR '' '' # v) ws)"
  by (induction ws arbitrary: w) simp_all

definition program_ok :: "string list \<Rightarrow> bool" where
  "program_ok argv \<longleftrightarrow> argv \<noteq> [] \<and> (\<forall>c \<in> set (hd argv). \<not> sudoers_special c) \<and> (\<forall>a \<in> set argv. CHR 0x0A \<notin> set a)"

lemma line_tokens:
  assumes "program_ok argv" "ends_command r"
  shows "sudo_tokens (formatSudoersLine argv @ r) [] = argv"
proof -
  obtain p as where a: "argv = p # as" using assms(1) by (cases argv) (auto simp: program_ok_def)
  have "formatSudoersLine argv = p @ concat (map (\<lambda>x. CHR '' '' # escapeSudoersArg x) as)"
    by (simp add: a formatSudoersLine_def join_spaced comp_def)
  then show ?thesis using assms tokens_program[of p _ "[]"] tokens_arguments[OF assms(2)] by (simp add: a program_ok_def)
qed

lemma escape_lines: "CHR 0x0A \<notin> set a \<Longrightarrow> CHR 0x0A \<notin> set (escapeSudoersArg a)"
  by (auto simp: escapeSudoersArg_def)

lemma format_lines: "program_ok argv \<Longrightarrow> CHR 0x0A \<notin> set (formatSudoersLine argv)"
  by (cases argv) (auto simp: formatSudoersLine_def join_spaced program_ok_def dest: escape_lines)

lemma commands_append: "CHR 0x0A \<notin> set l \<Longrightarrow>
  sudoers_commands (l @ CHR 0x0A # r) = (if has_prefix l ''    '' then [sudo_tokens (drop 4 l) []] else []) @ sudoers_commands r"
  by (simp add: sudoers_commands_def split_on_append)

lemma commands_lines:
  "\<forall>c \<in> set cmds. program_ok c \<Longrightarrow> sudoers_commands (sudoers_lines cmds @ r) = cmds @ sudoers_commands r"
proof (induction cmds rule: sudoers_lines.induct)
  case (2 argv)
  have "CHR 0x0A \<notin> set (''    '' @ formatSudoersLine argv)" using format_lines 2 by simp
  from commands_append[OF this] show ?case
    using line_tokens[of argv "[]"] 2 by (simp add: newline_def ends_command_def has_prefix_def)
next
  case (3 argv c cs)
  have n: "CHR 0x0A \<notin> set (''    '' @ formatSudoersLine argv @ '', '' @ [CHR 0x5C])" using format_lines 3 by simp
  have "sudoers_commands (sudoers_lines (argv # c # cs) @ r) = argv # sudoers_commands (sudoers_lines (c # cs) @ r)"
    using commands_append[OF n] line_tokens[of argv "'', '' @ [CHR 0x5C]"] 3(2) by (simp add: newline_def ends_command_def has_prefix_def)
  then show ?case using 3 by simp
qed simp

section \<open>Properties\<close>

lemma not_indented: "c \<noteq> CHR '' '' \<Longrightarrow> \<not> has_prefix (c # cs) ''    ''" "\<not> has_prefix [] ''    ''"
  by (simp_all add: has_prefix_def)

lemma commands_skip: "CHR 0x0A \<notin> set l \<Longrightarrow> \<not> has_prefix l ''    '' \<Longrightarrow> sudoers_commands (l @ CHR 0x0A # r) = sudoers_commands r"
  by (simp add: commands_append)

definition plain_line :: "string \<Rightarrow> bool" where
  "plain_line l \<longleftrightarrow> CHR 0x0A \<notin> set l \<and> \<not> has_prefix l ''    ''"

lemma plain_lines: "plain_line sudoers_title" "plain_line sudoers_generated" "plain_line sudoers_warning"
  by (simp_all add: plain_line_def sudoers_title_def sudoers_generated_def sudoers_warning_def has_prefix_def)

lemma skip_plain: "plain_line l \<Longrightarrow> sudoers_commands (l @ newline @ r) = sudoers_commands r"
  by (simp add: plain_line_def newline_def commands_append)

lemma header_commands: "sudoers_commands (sudoers_header @ r) = sudoers_commands r"
  by (simp add: sudoers_header_def skip_plain plain_lines)

lemma titles: "CHR 0x0A \<notin> set read_title" "CHR 0x0A \<notin> set write_title"
  by (simp_all add: read_title_def write_title_def)

lemma spec_commands:
  assumes "\<forall>c \<in> set cmds. program_ok c" "CHR 0x0A \<notin> set t"
  shows "sudoers_commands (writeSudoersSpec t cmds @ r) = cmds @ sudoers_commands r"
proof (cases "cmds = []")
  case False
  have e: "plain_line []" by (simp add: plain_line_def has_prefix_def)
  have l1: "plain_line ([CHR 0x23, CHR '' ''] @ t)" using assms(2) by (simp add: plain_line_def has_prefix_def)
  have l2: "plain_line (''lodge ALL=(root) NOPASSWD: '' @ [CHR 0x5C])" by (simp add: plain_line_def has_prefix_def)
  have "writeSudoersSpec t cmds @ r = [] @ newline @ ([CHR 0x23, CHR '' ''] @ t) @ newline
      @ (''lodge ALL=(root) NOPASSWD: '' @ [CHR 0x5C]) @ newline @ sudoers_lines cmds @ r"
    using False by (simp add: writeSudoersSpec_def)
  then show ?thesis using commands_lines[OF assms(1)] by (simp only: skip_plain e l1 l2)
qed (simp add: writeSudoersSpec_def)

lemma no_commands: "sudoers_commands [] = []"
  by (simp add: sudoers_commands_def has_prefix_def)

lemma generated_commands:
  assumes "\<forall>c \<in> set read. program_ok c" "\<forall>c \<in> set write. program_ok c"
  shows "sudoers_commands (GenerateSudoers read write) = read @ write"
  using spec_commands[OF assms(1) titles(1), of "writeSudoersSpec write_title write"] spec_commands[OF assms(2) titles(2), of "[]"]
  by (simp add: GenerateSudoers_def header_commands no_commands)

definition paths_plain :: "(string \<Rightarrow> string + string) \<Rightarrow> bool" where
  "paths_plain lookPath \<longleftrightarrow> (\<forall>n q. lookPath n = Inr q \<longrightarrow> (\<forall>c \<in> set q. \<not> sudoers_special c \<and> c \<noteq> CHR 0x0A))"

definition resolved :: "(string \<Rightarrow> string + string) \<Rightarrow> priv_command \<Rightarrow> string list \<Rightarrow> bool" where
  "resolved lookPath c argv \<longleftrightarrow> (\<exists>q. lookPath (hd (pc_Argv c)) = Inr q \<and> argv = q # tl (pc_Argv c))"

lemma resolve_cases: "resolveAbsolute lookPath cmds = Inr rs \<Longrightarrow> list_all2 (resolved lookPath) cmds rs"
proof (induction cmds arbitrary: rs)
  case (Cons c cmds)
  have "resolveAbsolute lookPath (c # cmds) = (if pc_Argv c = [] then resolveAbsolute lookPath (c # cmds)
      else case lookPath (hd (pc_Argv c)) of Inl e \<Rightarrow> resolveAbsolute lookPath (c # cmds)
        | Inr q \<Rightarrow> map_sum (\<lambda>e. e) (\<lambda>rs. (q # tl (pc_Argv c)) # rs) (resolveAbsolute lookPath cmds))"
    by (simp add: resolveAbsolute_def split: sum.split)
  then obtain q ys where "lookPath (hd (pc_Argv c)) = Inr q" "resolveAbsolute lookPath cmds = Inr ys" "rs = (q # tl (pc_Argv c)) # ys"
    using Cons.prems by (cases "resolveAbsolute lookPath cmds")
      (auto simp: resolveAbsolute_def split: if_splits sum.splits)
  then show ?case using Cons.IH by (simp add: resolved_def)
qed (simp add: resolveAbsolute_def)

lemma registered_plain: "c \<in> set AllPrivileged \<Longrightarrow> \<forall>a \<in> set (pc_Argv c). CHR 0x0A \<notin> set a"
  by (simp add: AllPrivileged_def privilegedRead_def privilegedWrite_def read_command_def dockerPS_def dockerDF_def
      composeMetadataCommand_def proxyRoutesCommand_def sshAuthCommand_def securityPostureCommand_def listActionsCommand_def
      listDeploymentsCommand_def ssCmd_def systemdUnitsCommand_def processOriginsCommand_def executeActionCommand_def
      executeDeploymentCommand_def agent_path_def) (elim disjE; simp)

lemma resolved_ok:
  assumes "paths_plain lookPath" "list_all2 (resolved lookPath) cs rs" "set cs \<subseteq> set AllPrivileged"
  shows "\<forall>r \<in> set rs. program_ok r"
proof
  fix r assume "r \<in> set rs"
  then obtain c where c: "c \<in> set cs" "resolved lookPath c r"
    using assms(2) by (metis in_set_conv_nth list_all2_conv_all_nth)
  then have "\<forall>a \<in> set (tl (pc_Argv c)). CHR 0x0A \<notin> set a"
    using registered_plain[of c] assms(3) by (metis list.sel(2) list.set_sel(2) subsetD)
  moreover obtain q where q: "lookPath (hd (pc_Argv c)) = Inr q" "r = q # tl (pc_Argv c)" using c(2) by (auto simp: resolved_def)
  then have "\<forall>x \<in> set q. \<not> sudoers_special x \<and> x \<noteq> CHR 0x0A" using assms(1) unfolding paths_plain_def by blast
  ultimately show "program_ok r" using q(2) by (auto simp: program_ok_def)
qed

lemma printed_commands:
  assumes "paths_plain lookPath" "PrintSudoers lookPath = Inr file"
  shows "list_all2 (resolved lookPath) AllPrivileged (sudoers_commands file)"
proof -
  obtain rs ws where r: "resolveAbsolute lookPath privilegedRead = Inr rs" and w: "resolveAbsolute lookPath privilegedWrite = Inr ws"
    and f: "file = GenerateSudoers rs ws"
    using assms(2) by (auto simp: PrintSudoers_def split: sum.splits)
  note rr = resolve_cases[OF r] and ww = resolve_cases[OF w]
  have "sudoers_commands file = rs @ ws"
    unfolding f by (rule generated_commands; rule resolved_ok[OF assms(1)]; (rule rr ww)?) (auto simp: AllPrivileged_def)
  then show ?thesis unfolding AllPrivileged_def using rr ww by (simp add: list_all2_appendI)
qed


lemma found_command: "commandByName argv = Some c \<Longrightarrow> c \<in> set AllPrivileged \<and> pc_Argv c = argv"
  unfolding commandByName_def find_Some_iff by auto

lemma run_confined:
  assumes "rr_Ran (runPrivilegedInput run argv input) = Some executed"
  shows "\<exists>c \<in> set AllPrivileged. executed = (''sudo'' # ''-n'' # ''--'' # pc_Argv c, input) \<and> (input \<noteq> [] \<longrightarrow> pc_Write c)
    \<and> length input \<le> maxPrivilegedStdin"
proof -
  obtain c where c: "commandByName argv = Some c" using assms by (auto simp: runPrivilegedInput_def refused_def split: option.splits)
  have "\<not> length input > maxPrivilegedStdin" "\<not> (input \<noteq> [] \<and> \<not> pc_Write c)"
    using assms by (auto simp: runPrivilegedInput_def refused_def c split: if_splits)
  then show ?thesis
    using assms found_command[OF c] by (intro bexI[of _ c]) (auto simp: runPrivilegedInput_def c Let_def split: prod.splits)
qed

lemma run_bounded:
  "length (rr_Stdout (runPrivilegedInput run argv input)) \<le> maxPrivilegedStdout
   \<and> length (rr_Stderr (runPrivilegedInput run argv input)) \<le> maxPrivilegedStderr"
  by (simp add: runPrivilegedInput_def refused_def Let_def bounded_content split: option.split prod.split)

text \<open>C7. Nothing but a registered command is ever run as root: what runs is \<open>sudo -n --\<close> with the exact
  arguments of one, its input is at most 4 KiB and empty unless the command writes, and what is kept of its
  output is bounded, however much it prints.\<close>

theorem privileged_confined:
  assumes "rr_Ran (runPrivilegedInput run argv input) = Some executed"
  shows "(\<exists>c \<in> set AllPrivileged. executed = (''sudo'' # ''-n'' # ''--'' # pc_Argv c, input) \<and> (input \<noteq> [] \<longrightarrow> pc_Write c)
      \<and> length input \<le> maxPrivilegedStdin)
    \<and> length (rr_Stdout (runPrivilegedInput run argv input)) \<le> maxPrivilegedStdout
    \<and> length (rr_Stderr (runPrivilegedInput run argv input)) \<le> maxPrivilegedStderr"
  using run_confined[OF assms] run_bounded by blast

definition silent :: program where
  "silent cmd input = ([], [], None)"

lemma ss_registered: "\<exists>desc. commandByName ssCmd = Some (read_command ssCmd desc)"
  by (simp add: commandByName_def AllPrivileged_def privilegedRead_def read_command_def dockerPS_def dockerDF_def
      composeMetadataCommand_def proxyRoutesCommand_def sshAuthCommand_def securityPostureCommand_def listActionsCommand_def
      listDeploymentsCommand_def ssCmd_def)

theorem privileged_confined_witness:
  "\<exists>c \<in> set AllPrivileged. pc_Argv c = ssCmd \<and> rr_Stdout (runPrivilegedInput silent ssCmd []) = []"
proof -
  obtain desc where d: "commandByName ssCmd = Some (read_command ssCmd desc)" using ss_registered by blast
  have r: "rr_Ran (runPrivilegedInput silent ssCmd []) = Some (''sudo'' # ''-n'' # ''--'' # ssCmd, [])"
    using d by (simp add: runPrivilegedInput_def silent_def bounded_writes_def split: option.split)
  moreover have "rr_Stdout (runPrivilegedInput silent ssCmd []) = []"
    using d by (simp add: runPrivilegedInput_def silent_def bounded_writes_def split: option.split)
  ultimately show ?thesis using privileged_confined[OF r] by (metis fst_conv list.inject)
qed

definition usr_bin :: "string \<Rightarrow> string + string" where
  "usr_bin n = (if n = agent_path then Inr n
     else if n \<in> {''docker'', ''systemctl'', ''ss''} then Inr (''/usr/bin/'' @ n) else Inl ''not found'')"

lemma usr_bin_plain: "paths_plain usr_bin"
  by (auto simp: paths_plain_def usr_bin_def agent_path_def sudoers_special_def split: if_splits)

lemma usr_bin_resolves: "\<forall>c \<in> set cs. pc_Argv c \<noteq> [] \<and> hd (pc_Argv c) \<in> {agent_path, ''docker'', ''systemctl'', ''ss''} \<Longrightarrow>
  \<exists>rs. resolveAbsolute usr_bin cs = Inr rs"
proof (induction cs)
  case (Cons c cs)
  have "\<exists>q. usr_bin n = Inr q" if "n \<in> {agent_path, ''docker'', ''systemctl'', ''ss''}" for n
    using that by (auto simp: usr_bin_def)
  then obtain q where "usr_bin (hd (pc_Argv c)) = Inr q" using Cons.prems by auto
  moreover obtain rs where "resolveAbsolute usr_bin cs = Inr rs" using Cons by auto
  ultimately show ?case using Cons.prems by (simp add: resolveAbsolute_def)
qed (simp add: resolveAbsolute_def)

lemmas command_argv = privilegedRead_def privilegedWrite_def read_command_def dockerPS_def dockerDF_def composeMetadataCommand_def
  proxyRoutesCommand_def sshAuthCommand_def securityPostureCommand_def listActionsCommand_def listDeploymentsCommand_def ssCmd_def
  systemdUnitsCommand_def processOriginsCommand_def executeActionCommand_def executeDeploymentCommand_def

lemma usr_bin_printed: "\<exists>file. PrintSudoers usr_bin = Inr file"
  using usr_bin_resolves[of privilegedRead] usr_bin_resolves[of privilegedWrite]
  by (auto simp: PrintSudoers_def command_argv)


end
