(* ===== verification/Discovery.thy ===== *)
theory Discovery
  imports Agent_Metadata Privileged_Commands
begin

text \<open>
  What runs on a host and where it listens (\<^verbatim>\<open>internal/agent/discover.go\<close>): the readers of the outputs of
  \<^verbatim>\<open>ss\<close>, \<^verbatim>\<open>docker ps\<close> and of \<^verbatim>\<open>/proc/<pid>/cgroup\<close>, and the discovery that attributes every socket. The
  commands, the files of \<^verbatim>\<open>/proc\<close>, JSON and SHA-256 are parameters. The services the code points to from
  several maps are the entries of one list, and the maps hold their positions; the Go map of containers is
  the list of its entries, in which a prefix is looked for in their order.
\<close>

section \<open>Fields\<close>

text \<open>\<^verbatim>\<open>strings.Fields\<close>: the runs of bytes between white space.\<close>

fun chunk_fields :: "(nat \<times> string) list \<Rightarrow> string \<Rightarrow> string list" where
  "chunk_fields [] w = (if w = [] then [] else [w])"
| "chunk_fields (p # ps) w =
     (if is_space (fst p) then (if w = [] then chunk_fields ps [] else w # chunk_fields ps [])
      else chunk_fields ps (w @ snd p))"

definition text_fields :: "string \<Rightarrow> string list" where
  "text_fields s = chunk_fields (rune_chunks s) []"

section \<open>Sockets\<close>

record socket_info =
  sk_Proto :: string
  sk_Bind :: string
  sk_Port :: int
  sk_PID :: int
  sk_Proc :: string

text \<open>The leftmost matches of \<^verbatim>\<open>pid=(\d+)\<close> and of \<^verbatim>\<open>\(\("([^"]+)"\<close>.\<close>

fun find_pid :: "string \<Rightarrow> string option" where
  "find_pid [] = None"
| "find_pid (c # cs) =
     (let digits = takeWhile is_digit (drop 4 (c # cs)) in
      if has_prefix (c # cs) ''pid='' \<and> digits \<noteq> [] then Some digits else find_pid cs)"

fun find_proc :: "string \<Rightarrow> string option" where
  "find_proc [] = None"
| "find_proc (c # cs) =
     (let name = takeWhile (\<lambda>x. x \<noteq> CHR 0x22) (drop 3 (c # cs)) in
      if has_prefix (c # cs) [CHR ''('', CHR ''('', CHR 0x22] \<and> name \<noteq> [] \<and> length name < length (drop 3 (c # cs))
      then Some name else find_proc cs)"

text \<open>\<^verbatim>\<open>strconv.Atoi\<close> of digits: out of range, it is the largest \<^verbatim>\<open>int\<close>.\<close>

definition atoi_or_max :: "string \<Rightarrow> int" where
  "atoi_or_max s = (case atoi s of Some n \<Rightarrow> n | None \<Rightarrow> 9223372036854775807)"

definition isNetid :: "string \<Rightarrow> bool" where
  "isNetid s = (s \<in> {''tcp'', ''tcp6'', ''udp'', ''udp6'', ''raw'', ''raw6'', ''sctp'', ''sctp6''})"

definition parse_ss_line :: "string \<Rightarrow> socket_info option" where
  "parse_ss_line line =
     (let f = text_fields line;
          before = takeWhile (\<lambda>x. \<not> has_prefix x ''users:('') f;
          users = dropWhile (\<lambda>x. \<not> has_prefix x ''users:('') f;
          procCol = join '' '' users
      in if length f < 5 \<or> length before < 2 then None
         else case SplitHostPort (before ! (length before - 2)) of
             None \<Rightarrow> None
           | Some (bind, port) \<Rightarrow> Some \<lparr>sk_Proto = (if isNetid (hd f) then trim_suffix (hd f) ''6'' else ''tcp''),
               sk_Bind = bind, sk_Port = port,
               sk_PID = (if users = [] then 0 else case find_pid procCol of Some d \<Rightarrow> atoi_or_max d | None \<Rightarrow> 0),
               sk_Proc = (if users = [] then [] else case find_proc procCol of Some n \<Rightarrow> n | None \<Rightarrow> [])\<rparr>)"

definition parseSS :: "string \<Rightarrow> socket_info list" where
  "parseSS content = List.map_filter parse_ss_line (split_on (CHR 0x0A) content)"

section \<open>Containers\<close>

record raw_container =
  rc_ID :: string
  rc_Names :: string
  rc_Image :: string
  rc_State :: string
  rc_Status :: string
  rc_Ports :: string

definition read_container :: "(string \<Rightarrow> raw_container option) \<Rightarrow> string \<Rightarrow> raw_container option" where
  "read_container decode line =
     (if \<not> has_prefix line ''{'' then None
      else case decode line of
        None \<Rightarrow> None
      | Some r \<Rightarrow>
          if rc_ID r = [] then None
          else Some (r\<lparr>rc_Names := trim_prefix (case cut (CHR '','') (rc_Names r) of Some (a, _) \<Rightarrow> a | None \<Rightarrow> rc_Names r) ''/''\<rparr>))"

definition parseDockerPS :: "(string \<Rightarrow> raw_container option) \<Rightarrow> string \<Rightarrow> raw_container list" where
  "parseDockerPS decode content = List.map_filter (read_container decode) (text_lines content)"

text \<open>What is before the first \<^verbatim>\<open>->\<close> and what starts with it.\<close>

fun cut_arrow :: "string \<Rightarrow> (string \<times> string) option" where
  "cut_arrow [] = None"
| "cut_arrow (c # cs) =
     (if has_prefix (c # cs) ''->'' then Some ([], c # cs) else map_option (\<lambda>(a, b). (c # a, b)) (cut_arrow cs))"

definition parse_docker_port :: "string \<Rightarrow> port option" where
  "parse_docker_port entry =
     (let (hostPart, rest) = (case cut_arrow entry of Some (a, b) \<Rightarrow> (a, Some b) | None \<Rightarrow> (entry, None));
          proto = (case rest of None \<Rightarrow> ''tcp''
             | Some b \<Rightarrow> (case cut (CHR ''/'') b of Some (_, t) \<Rightarrow> trim_space t | None \<Rightarrow> ''tcp''))
      in case SplitHostPort hostPart of
           None \<Rightarrow> None
         | Some (bind, port) \<Rightarrow> Some \<lparr>po_Proto = proto, po_Port = port, po_Bind = bind, po_Exposure = ClassifyBind bind\<rparr>)"

definition parseDockerPorts :: "string \<Rightarrow> port list" where
  "parseDockerPorts s = List.map_filter parse_docker_port (filter (\<lambda>e. e \<noteq> []) (map trim_space (split_on (CHR '','') s)))"

section \<open>Owners\<close>

datatype cgroup_owner = OwnedByDocker string | OwnedByUnit string | OwnedByNobody

definition id_byte :: "char \<Rightarrow> bool" where
  "id_byte c = ((48 \<le> byte c \<and> byte c \<le> 57) \<or> (97 \<le> byte c \<and> byte c \<le> 102))"

definition id_length :: "string \<Rightarrow> bool" where
  "id_length h = (12 \<le> length h \<and> length h \<le> 64)"

definition at_slash_or_end :: "string \<Rightarrow> bool" where
  "at_slash_or_end s = (s = [] \<or> hd s = CHR ''/'')"

text \<open>The leftmost matches of \<^verbatim>\<open>/docker/([0-9a-f]{12,64})(?:/|$)\<close> and of
  \<^verbatim>\<open>(?:^|/)docker-([0-9a-f]{12,64})\.scope(?:/|$)\<close>. The run of hexadecimal digits is followed by another
  byte or by the end, so only the whole run can match.\<close>

fun find_docker_path :: "string \<Rightarrow> string option" where
  "find_docker_path [] = None"
| "find_docker_path (c # cs) =
     (let h = takeWhile id_byte (drop 8 (c # cs)); r = dropWhile id_byte (drop 8 (c # cs)) in
      if has_prefix (c # cs) ''/docker/'' \<and> id_length h \<and> at_slash_or_end r then Some h else find_docker_path cs)"

definition scope_here :: "string \<Rightarrow> string option" where
  "scope_here s =
     (let h = takeWhile id_byte (drop 7 s); r = dropWhile id_byte (drop 7 s) in
      if has_prefix s ''docker-'' \<and> id_length h \<and> has_prefix r ''.scope'' \<and> at_slash_or_end (drop 6 r) then Some h else None)"

fun find_scope_after_slash :: "string \<Rightarrow> string option" where
  "find_scope_after_slash [] = None"
| "find_scope_after_slash (c # cs) =
     (case (if c = CHR ''/'' then scope_here cs else None) of Some h \<Rightarrow> Some h | None \<Rightarrow> find_scope_after_slash cs)"

definition find_docker_scope :: "string \<Rightarrow> string option" where
  "find_docker_scope s = (case scope_here s of Some h \<Rightarrow> Some h | None \<Rightarrow> find_scope_after_slash s)"

definition cgroup_line :: "string \<Rightarrow> cgroup_owner option" where
  "cgroup_line line =
     (let path = (case cut_last (CHR '':'') line of Some (_, p) \<Rightarrow> p | None \<Rightarrow> line) in
      case find_docker_path path of
        Some h \<Rightarrow> Some (OwnedByDocker h)
      | None \<Rightarrow> (case find_docker_scope path of
          Some h \<Rightarrow> Some (OwnedByDocker h)
        | None \<Rightarrow> if contains path ''.service''
            then map_option OwnedByUnit (find (\<lambda>seg. has_suffix seg ''.service'') (split_on (CHR ''/'') path)) else None))"

definition parseCgroup :: "string \<Rightarrow> cgroup_owner" where
  "parseCgroup content = (case List.map_filter cgroup_line (split_on (CHR 0x0A) content) of
     o1 # _ \<Rightarrow> o1 | [] \<Rightarrow> OwnedByNobody)"

definition readCgroup :: "(string \<Rightarrow> string option) \<Rightarrow> int \<Rightarrow> cgroup_owner" where
  "readCgroup read_file pid =
     (if pid = 0 then OwnedByNobody
      else case read_file (''/proc/'' @ itoa pid @ ''/cgroup'') of None \<Rightarrow> OwnedByNobody | Some c \<Rightarrow> parseCgroup c)"

section \<open>The discovery\<close>

definition unitName :: "string \<Rightarrow> string" where
  "unitName unit = trim_suffix unit ''.service''"

definition stateOrStatus :: "string \<Rightarrow> string \<Rightarrow> string" where
  "stateOrStatus state status = (if state \<noteq> [] then state else status)"

definition hasPort :: "port list \<Rightarrow> port \<Rightarrow> bool" where
  "hasPort ports c = list_ex (\<lambda>p. po_Proto p = po_Proto c \<and> po_Port p = po_Port c \<and> po_Bind p = po_Bind c) ports"

definition portKey :: "string \<Rightarrow> int \<Rightarrow> string" where
  "portKey proto port = proto @ ''/'' @ itoa port"

text \<open>The state of a discovery. A container and an identified process point to a service of the list.\<close>

record discovery =
  dv_Services :: "service list"
  dv_Warnings :: "string list"
  dv_ContainerPorts :: "string list"
  dv_Containers :: "(string \<times> nat) list"
  dv_Seen :: "string list"
  dv_Processes :: "(string \<times> nat) list"

definition no_discovery :: discovery where
  "no_discovery = \<lparr>dv_Services = [], dv_Warnings = [], dv_ContainerPorts = [], dv_Containers = [], dv_Seen = [], dv_Processes = []\<rparr>"

definition blank_service :: service where
  "blank_service = \<lparr>sv_Key = [], sv_Kind = [], sv_Name = [], sv_Status = [], sv_Since = [], sv_Image = [], sv_Unit = [],
     sv_ComposeProject = [], sv_ComposeService = [], sv_Health = [], sv_PID = 0, sv_Ports = [], sv_Routes = [],
     sv_Unidentified = False, sv_MaxExposure = []\<rparr>"

definition warn :: "string \<Rightarrow> discovery \<Rightarrow> discovery" where
  "warn w d = d\<lparr>dv_Warnings := dv_Warnings d @ [w]\<rparr>"

definition change_service :: "nat \<Rightarrow> (service \<Rightarrow> service) \<Rightarrow> discovery \<Rightarrow> discovery" where
  "change_service i f d = d\<lparr>dv_Services := (dv_Services d)[i := f (dv_Services d ! i)]\<rparr>"

definition add_service :: "service \<Rightarrow> discovery \<Rightarrow> discovery" where
  "add_service s d = d\<lparr>dv_Services := dv_Services d @ [s]\<rparr>"

definition add_port :: "port \<Rightarrow> service \<Rightarrow> service" where
  "add_port p s = s\<lparr>sv_Ports := sv_Ports s @ [p]\<rparr>"

definition container_service :: "raw_container \<Rightarrow> service" where
  "container_service c = blank_service\<lparr>sv_Key := ''docker:'' @ rc_Names c, sv_Kind := ''docker'', sv_Name := rc_Names c,
     sv_Status := stateOrStatus (rc_State c) (rc_Status c), sv_Image := rc_Image c, sv_Ports := parseDockerPorts (rc_Ports c),
     sv_MaxExposure := MaxExposure (parseDockerPorts (rc_Ports c))\<rparr>"

definition add_container :: "discovery \<Rightarrow> raw_container \<Rightarrow> discovery" where
  "add_container d c = add_service (container_service c)
     (d\<lparr>dv_Containers := AList.update (rc_ID c) (length (dv_Services d)) (dv_Containers d),
        dv_ContainerPorts := dv_ContainerPorts d @ map (\<lambda>p. portKey (po_Proto p) (po_Port p)) (parseDockerPorts (rc_Ports c))\<rparr>)"

definition findContainerByID :: "(string \<times> nat) list \<Rightarrow> string \<Rightarrow> nat option" where
  "findContainerByID containers ownerID = (case map_of containers ownerID of
       Some i \<Rightarrow> Some i
     | None \<Rightarrow> map_option snd (find (\<lambda>(k, _). has_prefix k ownerID \<or> has_prefix ownerID k) containers))"

definition findService :: "service list \<Rightarrow> string \<Rightarrow> nat option" where
  "findService ss key = (let n = length (takeWhile (\<lambda>s. sv_Key s \<noteq> key) ss) in if n < length ss then Some n else None)"

definition unit_service :: "string \<Rightarrow> string \<Rightarrow> service" where
  "unit_service unit status = blank_service\<lparr>sv_Key := ''systemd:'' @ unit, sv_Kind := ''systemd'', sv_Unit := unit, sv_Name := unitName unit,
     sv_Status := status\<rparr>"

text \<open>What the sockets are attributed with: the origins of processes, the units, and the owner of a process.\<close>

record attribution =
  at_Origins :: "int \<Rightarrow> process_origin option"
  at_Units :: "systemd_unit list"
  at_Owner :: "int \<Rightarrow> cgroup_owner"
  at_Sha :: "string \<Rightarrow> string"

definition unit_state :: "systemd_unit list \<Rightarrow> string \<Rightarrow> string" where
  "unit_state us unit = (case find (\<lambda>u. su_ID u = unit) (rev us) of Some u \<Rightarrow> unit_status u | None \<Rightarrow> ''running'')"

definition socket_port :: "socket_info \<Rightarrow> port" where
  "socket_port s = \<lparr>po_Proto = sk_Proto s, po_Port = sk_Port s, po_Bind = sk_Bind s, po_Exposure = ClassifyBind (sk_Bind s)\<rparr>"

definition add_container_socket :: "string \<Rightarrow> port \<Rightarrow> discovery \<Rightarrow> discovery" where
  "add_container_socket ownerID p d = (case findContainerByID (dv_Containers d) ownerID of
       None \<Rightarrow> d
     | Some i \<Rightarrow> if hasPort (sv_Ports (dv_Services d ! i)) p then d else change_service i (add_port p) d)"

definition add_unit_socket :: "systemd_unit list \<Rightarrow> string \<Rightarrow> port \<Rightarrow> discovery \<Rightarrow> discovery" where
  "add_unit_socket us unit p d = (case findService (dv_Services d) (''systemd:'' @ unit) of
       Some i \<Rightarrow> change_service i (add_port p) d
     | None \<Rightarrow> add_service (add_port p (unit_service unit (unit_state us unit))) d)"

definition origin_service :: "string \<Rightarrow> process_origin \<Rightarrow> socket_info \<Rightarrow> service" where
  "origin_service key p s = blank_service\<lparr>sv_Key := key, sv_Kind := ''process'', sv_Name := origin_workloadName p (sk_Proc s),
     sv_PID := sk_PID s, sv_Status := ''running''\<rparr>"

definition add_new_port :: "port \<Rightarrow> service \<Rightarrow> service" where
  "add_new_port p s = (if hasPort (sv_Ports s) p then s else add_port p s)"

definition add_process_socket :: "string \<Rightarrow> process_origin \<Rightarrow> socket_info \<Rightarrow> discovery \<Rightarrow> discovery" where
  "add_process_socket key p s d = (case map_of (dv_Processes d) key of
       None \<Rightarrow> add_service (add_new_port (socket_port s) (origin_service key p s))
                 (d\<lparr>dv_Processes := (key, length (dv_Services d)) # dv_Processes d\<rparr>)
     | Some i \<Rightarrow> change_service i
         (\<lambda>v. add_new_port (socket_port s) (if sv_PID v \<noteq> sk_PID s then v\<lparr>sv_PID := 0\<rparr> else v)) d)"

definition bare_service :: "socket_info \<Rightarrow> service" where
  "bare_service s = blank_service\<lparr>sv_Key := ''port:'' @ portKey (sk_Proto s) (sk_Port s), sv_Kind := ''process'',
     sv_Name := (if sk_Proc s = [] then ''unknown'' else sk_Proc s), sv_PID := sk_PID s, sv_Status := ''running'',
     sv_Ports := [socket_port s], sv_Unidentified := True\<rparr>"

definition add_bare_socket :: "socket_info \<Rightarrow> discovery \<Rightarrow> discovery" where
  "add_bare_socket s d =
     (if portKey (sk_Proto s) (sk_Port s) \<in> set (dv_Seen d) then d
      else add_service (bare_service s) (d\<lparr>dv_Seen := portKey (sk_Proto s) (sk_Port s) # dv_Seen d\<rparr>))"

definition add_socket :: "attribution \<Rightarrow> discovery \<Rightarrow> socket_info \<Rightarrow> discovery" where
  "add_socket a d s =
     (if portKey (sk_Proto s) (sk_Port s) \<in> set (dv_ContainerPorts d) then d
      else case at_Owner a (sk_PID s) of
          OwnedByDocker h \<Rightarrow> add_container_socket h (socket_port s) d
        | OwnedByUnit unit \<Rightarrow> add_unit_socket (at_Units a) unit (socket_port s) d
        | OwnedByNobody \<Rightarrow> (case at_Origins a (sk_PID s) of
              Some p \<Rightarrow> add_process_socket (origin_workloadKey (at_Sha a) p) p s d
            | None \<Rightarrow> add_bare_socket s d))"

definition add_unit :: "discovery \<Rightarrow> systemd_unit \<Rightarrow> discovery" where
  "add_unit d u = (if unit_relevant u then add_service (unit_service (su_ID u) (unit_status u)) d else d)"

definition label_container :: "discovery \<Rightarrow> string \<times> compose_metadata \<Rightarrow> discovery" where
  "label_container d e = (case findContainerByID (dv_Containers d) (fst e) of
       None \<Rightarrow> d
     | Some i \<Rightarrow> change_service i (\<lambda>s. s\<lparr>sv_ComposeProject := cm_Project (snd e), sv_ComposeService := cm_Service (snd e)\<rparr>) d)"

definition finish_service :: "discovered_route list \<Rightarrow> service \<Rightarrow> service" where
  "finish_service routes s = s\<lparr>sv_Routes := map xr_Route (filter (\<lambda>r. xr_WorkloadKey r = sv_Key s) routes),
     sv_MaxExposure := MaxExposure (sv_Ports s)\<rparr>"

text \<open>The host as the discovery sees it: every command answers with its output, its error output and whether it
  succeeded.\<close>

record host_world =
  hw_Run :: "string list \<Rightarrow> string \<times> string \<times> bool"
  hw_ReadFile :: "string \<Rightarrow> string option"
  hw_Container :: "string \<Rightarrow> raw_container option"
  hw_Tuple :: "string \<Rightarrow> string list option"
  hw_Origin :: "string \<Rightarrow> process_origin option"
  hw_Record :: "string \<Rightarrow> proxy_record option"
  hw_Sha :: "string \<Rightarrow> string"
  hw_URL :: url_parser

definition isDockerMissing :: "string \<Rightarrow> bool" where
  "isDockerMissing stderr = (let low = go_lower stderr in
     contains low ''command not found'' \<or> contains low ''no such file or directory'' \<or> contains low ''not found'')"

definition discover_containers :: "host_world \<Rightarrow> discovery \<Rightarrow> discovery" where
  "discover_containers w d = (case hw_Run w dockerPS of (out, err, ok) \<Rightarrow>
     if ok then foldl add_container d (parseDockerPS (hw_Container w) out)
     else if \<not> isDockerMissing err then warn ((''docker ps '' @ [CHR 0xE5, CHR 0xA4, CHR 0xB1, CHR 0xE8, CHR 0xB4, CHR 0xA5] @ '': '') @ firstLine err) d else d)"

definition discover_labels :: "host_world \<Rightarrow> discovery \<Rightarrow> discovery" where
  "discover_labels w d = (case hw_Run w composeMetadataCommand of (out, err, ok) \<Rightarrow>
     if ok then foldl label_container d (parseComposeMetadata (hw_Tuple w) out)
     else if \<not> isDockerMissing err then warn ((''Docker Compose '' @ [CHR 0xE6, CHR 0xA0, CHR 0x87, CHR 0xE7, CHR 0xAD, CHR 0xBE, CHR 0xE9, CHR 0x87, CHR 0x87, CHR 0xE9, CHR 0x9B, CHR 0x86, CHR 0xE5, CHR 0xA4, CHR 0xB1, CHR 0xE8, CHR 0xB4, CHR 0xA5] @ '': '') @ firstLine err) d else d)"

definition discover_origins :: "host_world \<Rightarrow> discovery \<Rightarrow> (int \<Rightarrow> process_origin option) \<times> discovery" where
  "discover_origins w d = (case hw_Run w processOriginsCommand of (out, err, ok) \<Rightarrow>
     if ok then (parseProcessOrigins (hw_Origin w) (split_on (CHR 0x0A) out), d)
     else (\<lambda>_. None, warn (([CHR 0xE8, CHR 0xBF, CHR 0x9B, CHR 0xE7, CHR 0xA8, CHR 0x8B, CHR 0xE6, CHR 0x9D, CHR 0xA5, CHR 0xE6, CHR 0xBA, CHR 0x90, CHR 0xE9, CHR 0x87, CHR 0x87, CHR 0xE9, CHR 0x9B, CHR 0x86, CHR 0xE5, CHR 0xA4, CHR 0xB1, CHR 0xE8, CHR 0xB4, CHR 0xA5] @ '': '') @ firstLine err) d))"

definition discover_units :: "host_world \<Rightarrow> discovery \<Rightarrow> systemd_unit list \<times> discovery" where
  "discover_units w d = (case hw_Run w systemdUnitsCommand of (out, err, ok) \<Rightarrow>
     if ok then (parseSystemdUnits out, foldl add_unit d (parseSystemdUnits out))
     else ([], warn ((''systemd unit '' @ [CHR 0xE9, CHR 0x87, CHR 0x87, CHR 0xE9, CHR 0x9B, CHR 0x86, CHR 0xE5, CHR 0xA4, CHR 0xB1, CHR 0xE8, CHR 0xB4, CHR 0xA5] @ '': '') @ firstLine err) d))"

definition discover_routes :: "host_world \<Rightarrow> discovery \<Rightarrow> discovered_route list \<times> discovery" where
  "discover_routes w d = (case hw_Run w proxyRoutesCommand of (out, err, ok) \<Rightarrow>
     if ok then (let x = parseProxyDiscovery (hw_URL w) (hw_Record w) out in
       (xd_Routes x, foldl (\<lambda>d m. warn (([CHR 0xE5, CHR 0x8F, CHR 0x8D, CHR 0xE5, CHR 0x90, CHR 0x91, CHR 0xE4, CHR 0xBB, CHR 0xA3, CHR 0xE7, CHR 0x90, CHR 0x86, CHR 0xE8, CHR 0xB7, CHR 0xAF, CHR 0xE7, CHR 0x94, CHR 0xB1, CHR 0xE9, CHR 0x87, CHR 0x87, CHR 0xE9, CHR 0x9B, CHR 0x86, CHR 0xE4, CHR 0xB8, CHR 0x8D, CHR 0xE5, CHR 0xAE, CHR 0x8C, CHR 0xE6, CHR 0x95, CHR 0xB4] @ '': '') @ m) d) d (xd_Warnings x)))
     else ([], warn (([CHR 0xE5, CHR 0x8F, CHR 0x8D, CHR 0xE5, CHR 0x90, CHR 0x91, CHR 0xE4, CHR 0xBB, CHR 0xA3, CHR 0xE7, CHR 0x90, CHR 0x86, CHR 0xE8, CHR 0xB7, CHR 0xAF, CHR 0xE7, CHR 0x94, CHR 0xB1, CHR 0xE9, CHR 0x87, CHR 0x87, CHR 0xE9, CHR 0x9B, CHR 0x86, CHR 0xE5, CHR 0xA4, CHR 0xB1, CHR 0xE8, CHR 0xB4, CHR 0xA5] @ '': '') @ firstLine err) d))"

definition discover_sockets :: "host_world \<Rightarrow> attribution \<Rightarrow> discovery \<Rightarrow> discovery" where
  "discover_sockets w a d = (case hw_Run w ssCmd of (out, err, ok) \<Rightarrow>
     if ok then foldl (add_socket a) d (parseSS out)
     else warn ((''ss '' @ [CHR 0xE9, CHR 0x87, CHR 0x87, CHR 0xE9, CHR 0x9B, CHR 0x86, CHR 0xE5, CHR 0xA4, CHR 0xB1, CHR 0xE8, CHR 0xB4, CHR 0xA5, CHR 0xEF, CHR 0xBC, CHR 0x88, CHR 0xE7, CHR 0xAB, CHR 0xAF, CHR 0xE5, CHR 0x8F, CHR 0xA3, CHR 0xE7, CHR 0xBB, CHR 0xB4, CHR 0xE5, CHR 0xBA, CHR 0xA6, CHR 0xE5, CHR 0xB0, CHR 0x86, CHR 0xE7, CHR 0xBC, CHR 0xBA, CHR 0xE5, CHR 0xA4, CHR 0xB1, CHR 0xEF, CHR 0xBC, CHR 0x89] @ '': '') @ firstLine err) d)"

text \<open>What is known before the sockets are read.\<close>

definition before_sockets :: "host_world \<Rightarrow> attribution \<times> discovered_route list \<times> discovery" where
  "before_sockets w =
     (let d1 = discover_labels w (discover_containers w no_discovery);
          (origins, d2) = discover_origins w d1;
          (us, d3) = discover_units w d2;
          (routes, d4) = discover_routes w d3
      in (\<lparr>at_Origins = origins, at_Units = us, at_Owner = readCgroup (hw_ReadFile w), at_Sha = hw_Sha w\<rparr>, routes, d4))"

definition Discover :: "string \<Rightarrow> string \<Rightarrow> host_world \<Rightarrow> services_response" where
  "Discover hostname now w =
     (let (a, routes, d) = before_sockets w;
          e = discover_sockets w a d
      in \<lparr>sr_Hostname = hostname, sr_CollectedAt = now, sr_Services = Some (map (finish_service routes) (dv_Services e)),
           sr_Warnings = dv_Warnings e\<rparr>)"

section \<open>The list of services\<close>

text \<open>Every step changes a service in place or adds one, so three facts are kept throughout: the maps point into
  the list, the keys are distinct, and the ports are classified.\<close>

definition has_port_key :: "service list \<Rightarrow> string \<Rightarrow> bool" where
  "has_port_key ss k \<longleftrightarrow> (\<exists>v \<in> set ss. \<exists>p \<in> set (sv_Ports v). portKey (po_Proto p) (po_Port p) = k)"

definition port_ok :: "port \<Rightarrow> bool" where
  "port_ok p \<longleftrightarrow> 1 \<le> po_Port p \<and> po_Exposure p = ClassifyBind (po_Bind p)"

definition classified :: "service \<Rightarrow> bool" where
  "classified v \<longleftrightarrow> (\<forall>p \<in> set (sv_Ports v). port_ok p)"

definition ports_ok :: "discovery \<Rightarrow> bool" where
  "ports_ok d \<longleftrightarrow> (\<forall>v \<in> set (dv_Services d). classified v)
     \<and> (\<forall>k \<in> set (dv_ContainerPorts d). has_port_key (dv_Services d) k) \<and> (\<forall>k \<in> set (dv_Seen d). has_port_key (dv_Services d) k)
     \<and> snd ` set (dv_Containers d) \<subseteq> {..<length (dv_Services d)} \<and> snd ` set (dv_Processes d) \<subseteq> {..<length (dv_Services d)}"

definition keys_ok :: "discovery \<Rightarrow> bool" where
  "keys_ok d \<longleftrightarrow> distinct (map sv_Key (dv_Services d))
     \<and> (\<forall>v \<in> set (dv_Services d). has_prefix (sv_Key v) ''process:'' \<longrightarrow> sv_Key v \<in> fst ` set (dv_Processes d))
     \<and> (\<forall>v \<in> set (dv_Services d). \<forall>k. sv_Key v = ''port:'' @ k \<longrightarrow> k \<in> set (dv_Seen d))"

text \<open>A change that keeps the key and the ports.\<close>

definition grows :: "(service \<Rightarrow> service) \<Rightarrow> bool" where
  "grows f \<longleftrightarrow> (\<forall>v. sv_Key (f v) = sv_Key v \<and> set (sv_Ports v) \<subseteq> set (sv_Ports (f v)))"

lemma changed [simp]:
  "length (dv_Services (change_service i f d)) = length (dv_Services d)"
  "dv_Containers (change_service i f d) = dv_Containers d" "dv_Processes (change_service i f d) = dv_Processes d"
  "dv_ContainerPorts (change_service i f d) = dv_ContainerPorts d" "dv_Seen (change_service i f d) = dv_Seen d"
  by (simp_all add: change_service_def)

lemma changed_keys: "grows f \<Longrightarrow> map sv_Key (dv_Services (change_service i f d)) = map sv_Key (dv_Services d)"
proof (cases "i < length (dv_Services d)")
  case True
  assume "grows f"
  then have "map sv_Key (dv_Services (change_service i f d)) = (map sv_Key (dv_Services d))[i := map sv_Key (dv_Services d) ! i]"
    using True by (simp add: change_service_def map_update grows_def)
  then show ?thesis by (simp only: list_update_id)
qed (simp add: change_service_def list_update_beyond)

lemma changed_has:
  assumes "grows f" "has_port_key (dv_Services d) k" shows "has_port_key (dv_Services (change_service i f d)) k"
proof (cases "i < length (dv_Services d)")
  case True
  obtain v p where v: "v \<in> set (dv_Services d)" "p \<in> set (sv_Ports v)" "portKey (po_Proto p) (po_Port p) = k"
    using assms(2) by (auto simp: has_port_key_def)
  then obtain j where j: "j < length (dv_Services d)" "dv_Services d ! j = v" by (auto simp: in_set_conv_nth)
  let ?w = "(dv_Services (change_service i f d)) ! j"
  have "p \<in> set (sv_Ports ?w)" using v(2) j assms(1) True by (cases "i = j") (auto simp: change_service_def grows_def)
  moreover have "?w \<in> set (dv_Services (change_service i f d))" using j by (intro nth_mem) simp
  ultimately show ?thesis using v(3) by (auto simp: has_port_key_def)
qed (use assms(2) in \<open>simp add: change_service_def list_update_beyond\<close>)

lemma changed_ports_ok:
  assumes "grows f" "\<And>v. classified v \<Longrightarrow> classified (f v)" "ports_ok d"
  shows "ports_ok (change_service i f d)"
proof -
  have "classified v" if "v \<in> set (dv_Services (change_service i f d))" for v
  proof (cases "i < length (dv_Services d)")
    case True
    have "set ((dv_Services d)[i := f (dv_Services d ! i)]) \<subseteq> insert (f (dv_Services d ! i)) (set (dv_Services d))"
      by (rule set_update_subset_insert)
    then have "v = f (dv_Services d ! i) \<or> v \<in> set (dv_Services d)" using that by (auto simp: change_service_def)
    moreover have "\<forall>v \<in> set (dv_Services d). classified v" using assms(3) unfolding ports_ok_def by blast
    ultimately show ?thesis using assms(2)[of "dv_Services d ! i"] nth_mem[OF True] by blast
  qed (use that assms(3) in \<open>simp add: change_service_def ports_ok_def list_update_beyond\<close>)
  then have "\<forall>v \<in> set (dv_Services (change_service i f d)). classified v" by blast
  then show ?thesis using assms(3) unfolding ports_ok_def changed by (simp add: changed_has[OF assms(1)])
qed

lemma changed_keys_ok:
  assumes "grows f" "keys_ok d" shows "keys_ok (change_service i f d)"
proof -
  have m: "map sv_Key (dv_Services (change_service i f d)) = map sv_Key (dv_Services d)" by (rule changed_keys[OF assms(1)])
  then have "sv_Key ` set (dv_Services (change_service i f d)) = sv_Key ` set (dv_Services d)" by (metis set_map)
  then have "\<forall>v \<in> set (dv_Services (change_service i f d)). \<exists>u \<in> set (dv_Services d). sv_Key v = sv_Key u" by (metis image_iff)
  then show ?thesis using assms(2) m unfolding keys_ok_def changed by (metis (no_types, lifting))
qed

lemma add_has: "has_port_key ss k \<Longrightarrow> has_port_key (ss @ ts) k"
  by (auto simp: has_port_key_def)

lemma below_Suc: "S \<subseteq> {..<n} \<Longrightarrow> S \<subseteq> {..<Suc n}"
  by auto

lemma added_services [simp]: "dv_Services (add_service v d) = dv_Services d @ [v]"
  "dv_Containers (add_service v d) = dv_Containers d" "dv_Processes (add_service v d) = dv_Processes d"
  "dv_ContainerPorts (add_service v d) = dv_ContainerPorts d" "dv_Seen (add_service v d) = dv_Seen d"
  by (simp_all add: add_service_def)

lemma added_ports_ok: "ports_ok d \<Longrightarrow> classified v \<Longrightarrow> ports_ok (add_service v d)"
  by (simp add: ports_ok_def add_has below_Suc)

lemma grow_ports: "grows (add_port p)" "grows (add_new_port p)"
  by (auto simp: grows_def add_port_def add_new_port_def)

lemma socket_ports: "1 \<le> sk_Port s \<Longrightarrow> port_ok (socket_port s)"
  by (simp add: port_ok_def socket_port_def)

lemma mapped_in: "y \<in> set (List.map_filter f xs) \<Longrightarrow> \<exists>x \<in> set xs. f x = Some y"
  by (auto simp: List.map_filter_def)

lemma split_positive: "SplitHostPort t = Some (b, n) \<Longrightarrow> 1 \<le> n"
  by (auto simp: SplitHostPort_def split: option.splits prod.splits if_splits)

lemma docker_port_ok: "parse_docker_port e = Some p \<Longrightarrow> port_ok p"
  unfolding parse_docker_port_def Let_def
  by (auto simp: port_ok_def split_positive split: prod.splits option.split_asm)

lemma parsed_ports: "p \<in> set (parseDockerPorts t) \<Longrightarrow> port_ok p"
  unfolding parseDockerPorts_def using mapped_in docker_port_ok by metis

lemma ss_line_port:
  assumes "parse_ss_line l = Some s" shows "1 \<le> sk_Port s"
proof -
  let ?b = "takeWhile (\<lambda>x. \<not> has_prefix x ''users:('') (text_fields l)"
  obtain b n where n: "SplitHostPort (?b ! (length ?b - 2)) = Some (b, n)"
    using assms by (cases "SplitHostPort (?b ! (length ?b - 2))") (auto simp: parse_ss_line_def Let_def split: if_splits)
  then have "sk_Port s = n" using assms by (auto simp: parse_ss_line_def Let_def split: if_split_asm)
  then show ?thesis using split_positive[OF n] by simp
qed

lemma parsed_socket: "s \<in> set (parseSS t) \<Longrightarrow> 1 \<le> sk_Port s"
  unfolding parseSS_def using mapped_in ss_line_port by metis

section \<open>Ports\<close>

lemma find_in: "find P xs = Some x \<Longrightarrow> x \<in> set xs"
  by (induction xs) (auto split: if_splits)

lemma found_container: "findContainerByID m h = Some i \<Longrightarrow> i \<in> snd ` set m"
proof (cases "map_of m h")
  case None
  assume "findContainerByID m h = Some i"
  then obtain e where "find (\<lambda>(k, _). has_prefix k h \<or> has_prefix h k) m = Some e" "snd e = i"
    using None by (auto simp: findContainerByID_def)
  then show ?thesis using find_in by fast
next
  case (Some j)
  assume "findContainerByID m h = Some i"
  then have "map_of m h = Some i" using Some by (simp add: findContainerByID_def)
  then have "(h, i) \<in> set m" by (rule map_of_SomeD)
  then show ?thesis by (metis image_eqI snd_conv)
qed

lemma found_service: "findService ss k = Some i \<Longrightarrow> i < length ss \<and> sv_Key (ss ! i) = k"
  using nth_length_takeWhile[of "\<lambda>s. sv_Key s \<noteq> k" ss] by (auto simp: findService_def Let_def split: if_splits)

lemma takeWhile_short: "\<not> length (takeWhile P xs) < length xs \<Longrightarrow> x \<in> set xs \<Longrightarrow> P x"
  by (induction xs) (auto split: if_splits)

lemma not_found_service: "findService ss k = None \<Longrightarrow> k \<notin> sv_Key ` set ss"
  using takeWhile_short[of "\<lambda>s. sv_Key s \<noteq> k" ss] by (auto simp: findService_def Let_def split: if_splits)

lemma updated_indices: "snd ` set (AList.update k n m) \<subseteq> insert n (snd ` set m)"
  by (induction m) auto

lemma container_ports: "ports_ok d \<Longrightarrow> ports_ok (add_container d c)"
proof -
  assume ok: "ports_ok d"
  let ?v = "container_service c"
  let ?d = "d\<lparr>dv_Containers := AList.update (rc_ID c) (length (dv_Services d)) (dv_Containers d),
        dv_ContainerPorts := dv_ContainerPorts d @ map (\<lambda>p. portKey (po_Proto p) (po_Port p)) (parseDockerPorts (rc_Ports c))\<rparr>"
  have p: "sv_Ports ?v = parseDockerPorts (rc_Ports c)" by (simp add: container_service_def)
  have c: "classified ?v" using parsed_ports p by (simp add: classified_def)
  have h: "has_port_key (dv_Services d @ [?v]) k" if "k \<in> set (dv_ContainerPorts ?d)" for k
    using that ok p by (auto simp: ports_ok_def add_has) (auto simp: has_port_key_def)
  have i: "snd ` set (dv_Containers ?d) \<subseteq> {..<Suc (length (dv_Services d))}"
    using updated_indices[of "rc_ID c" "length (dv_Services d)" "dv_Containers d"] ok by (fastforce simp: ports_ok_def)
  show ?thesis
    unfolding add_container_def ports_ok_def added_services
    using ok c h i by (simp add: ports_ok_def add_has below_Suc)
qed

lemma label_grows: "grows (\<lambda>v. v\<lparr>sv_ComposeProject := x, sv_ComposeService := y\<rparr>)"
  by (simp add: grows_def)

lemma label_ports: "ports_ok d \<Longrightarrow> ports_ok (label_container d e)"
  using changed_ports_ok[OF label_grows] by (simp add: label_container_def classified_def split: option.split)

lemma unit_classified: "classified (unit_service u t)"
  by (simp add: classified_def unit_service_def blank_service_def)

lemma unit_ports: "ports_ok d \<Longrightarrow> ports_ok (add_unit d u)"
  by (simp add: add_unit_def added_ports_ok unit_classified)

lemma more_classified: "port_ok p \<Longrightarrow> classified v \<Longrightarrow> classified (add_port p v)" "port_ok p \<Longrightarrow> classified v \<Longrightarrow> classified (add_new_port p v)"
  by (auto simp: classified_def add_port_def add_new_port_def)

lemma more_seen: "ports_ok d \<Longrightarrow> has_port_key (dv_Services d) k \<Longrightarrow> ports_ok (d\<lparr>dv_Seen := k # dv_Seen d\<rparr>)"
  by (simp add: ports_ok_def)

lemma container_socket_ports: "ports_ok d \<Longrightarrow> port_ok p \<Longrightarrow> ports_ok (add_container_socket h p d)"
  by (simp add: add_container_socket_def changed_ports_ok grow_ports more_classified split: option.split)

lemma unit_socket_ports: "ports_ok d \<Longrightarrow> port_ok p \<Longrightarrow> ports_ok (add_unit_socket us u p d)"
  by (simp add: add_unit_socket_def changed_ports_ok grow_ports more_classified added_ports_ok unit_classified split: option.split)

definition seen_from :: "socket_info \<Rightarrow> service \<Rightarrow> service" where
  "seen_from s v = add_new_port (socket_port s) (if sv_PID v \<noteq> sk_PID s then v\<lparr>sv_PID := 0\<rparr> else v)"

lemma seen_grows: "grows (seen_from s)"
  by (auto simp: grows_def seen_from_def add_new_port_def add_port_def)

lemma process_socket_ports:
  assumes "ports_ok d" "port_ok (socket_port s)"
  shows "ports_ok (add_process_socket k p s d)"
proof (cases "map_of (dv_Processes d) k")
  case None
  let ?d = "d\<lparr>dv_Processes := (k, length (dv_Services d)) # dv_Processes d\<rparr>"
  have "classified (origin_service k p s)" by (simp add: classified_def origin_service_def blank_service_def)
  then have "classified (add_new_port (socket_port s) (origin_service k p s))" by (rule more_classified(2)[OF assms(2)])
  then have "ports_ok (add_service (add_new_port (socket_port s) (origin_service k p s)) ?d)"
    using assms(1) by (simp add: ports_ok_def add_has below_Suc)
  then show ?thesis using None by (simp add: add_process_socket_def)
next
  case (Some i)
  have "classified (seen_from s v)" if "classified v" for v
    unfolding seen_from_def using that by (intro more_classified(2)[OF assms(2)]) (simp add: classified_def)
  then have "ports_ok (change_service i (seen_from s) d)" by (rule changed_ports_ok[OF seen_grows _ assms(1)])
  then show ?thesis using Some by (simp add: add_process_socket_def flip: seen_from_def)
qed

lemma bare_socket_ports:
  assumes "ports_ok d" "port_ok (socket_port s)"
  shows "ports_ok (add_bare_socket s d)"
proof (cases "portKey (sk_Proto s) (sk_Port s) \<in> set (dv_Seen d)")
  case False
  let ?k = "portKey (sk_Proto s) (sk_Port s)"
  have c: "classified (bare_service s)" using assms(2) by (simp add: bare_service_def classified_def)
  have h: "has_port_key (dv_Services d @ [bare_service s]) ?k"
    by (simp add: has_port_key_def bare_service_def socket_port_def)
  have "ports_ok (add_service (bare_service s) (d\<lparr>dv_Seen := ?k # dv_Seen d\<rparr>))"
    using assms(1) c h by (simp add: ports_ok_def add_has below_Suc)
  then show ?thesis using False by (simp add: add_bare_socket_def)
qed (use assms(1) in \<open>simp add: add_bare_socket_def\<close>)

lemma socket_step:
  assumes "ports_ok d" "1 \<le> sk_Port s" shows "ports_ok (add_socket a d s)"
  using assms(1) container_socket_ports[OF assms(1) socket_ports[OF assms(2)]] unit_socket_ports[OF assms(1) socket_ports[OF assms(2)]]
    process_socket_ports[OF assms(1) socket_ports[OF assms(2)]] bare_socket_ports[OF assms(1) socket_ports[OF assms(2)]]
  by (simp add: add_socket_def split: cgroup_owner.split option.split)

section \<open>Every socket is shown\<close>

lemma changed_shows:
  assumes "i < length (dv_Services d)" "p \<in> set (sv_Ports (f (dv_Services d ! i)))"
  shows "has_port_key (dv_Services (change_service i f d)) (portKey (po_Proto p) (po_Port p))"
proof -
  have "f (dv_Services d ! i) \<in> set (dv_Services (change_service i f d))"
    using assms(1) by (simp add: change_service_def set_update_memI)
  then show ?thesis using assms(2) by (auto simp: has_port_key_def)
qed

lemma added_shows: "p \<in> set (sv_Ports v) \<Longrightarrow> has_port_key (dv_Services (add_service v d)) (portKey (po_Proto p) (po_Port p))"
  by (auto simp: has_port_key_def)

lemma socket_port_simps [simp]: "po_Proto (socket_port s) = sk_Proto s" "po_Port (socket_port s) = sk_Port s"
  "po_Bind (socket_port s) = sk_Bind s"
  by (simp_all add: socket_port_def)

lemma port_added [simp]: "p \<in> set (sv_Ports (add_port p v))"
  by (simp add: add_port_def)

lemma same_port: "hasPort ps p \<Longrightarrow> \<exists>q \<in> set ps. po_Proto q = po_Proto p \<and> po_Port q = po_Port p"
  by (auto simp: hasPort_def list_ex_iff)

lemma new_port_has: "\<exists>q \<in> set (sv_Ports (add_new_port p v)). po_Proto q = po_Proto p \<and> po_Port q = po_Port p"
  using same_port[of "sv_Ports v" p] by (auto simp: add_new_port_def add_port_def)

definition socket_key :: "socket_info \<Rightarrow> string" where
  "socket_key s = portKey (sk_Proto s) (sk_Port s)"

lemma container_socket_shown:
  assumes "ports_ok d" "findContainerByID (dv_Containers d) h = Some i"
  shows "has_port_key (dv_Services (add_container_socket h (socket_port s) d)) (socket_key s)"
proof -
  have i: "i < length (dv_Services d)" using found_container[OF assms(2)] assms(1) unfolding ports_ok_def by blast
  show ?thesis
  proof (cases "hasPort (sv_Ports (dv_Services d ! i)) (socket_port s)")
    case True
    then obtain q where "q \<in> set (sv_Ports (dv_Services d ! i))" "po_Proto q = sk_Proto s" "po_Port q = sk_Port s"
      using same_port by fastforce
    then have "has_port_key (dv_Services d) (socket_key s)" using nth_mem[OF i]
      unfolding has_port_key_def socket_key_def by metis
    then show ?thesis using True assms(2) by (simp add: add_container_socket_def)
  next
    case False
    then show ?thesis
      using changed_shows[OF i, of "socket_port s" "add_port (socket_port s)"] assms(2) by (simp add: add_container_socket_def socket_key_def)
  qed
qed

lemma unit_socket_shown: "has_port_key (dv_Services (add_unit_socket us u (socket_port s) d)) (socket_key s)"
proof (cases "findService (dv_Services d) (''systemd:'' @ u)")
  case None
  then show ?thesis
    using added_shows[of "socket_port s" "add_port (socket_port s) (unit_service u (unit_state us u))" d]
    by (simp add: add_unit_socket_def socket_key_def)
next
  case (Some i)
  then show ?thesis
    using changed_shows[of i d "socket_port s" "add_port (socket_port s)"] found_service[OF Some]
    by (simp add: add_unit_socket_def socket_key_def)
qed

lemma process_socket_shown:
  assumes "ports_ok d"
  shows "has_port_key (dv_Services (add_process_socket k p s d)) (socket_key s)"
proof (cases "map_of (dv_Processes d) k")
  case None
  obtain q where q: "q \<in> set (sv_Ports (add_new_port (socket_port s) (origin_service k p s)))" "po_Proto q = sk_Proto s" "po_Port q = sk_Port s"
    using new_port_has[of "socket_port s" "origin_service k p s"] by auto
  then show ?thesis using None added_shows[OF q(1)] by (simp add: add_process_socket_def socket_key_def)
next
  case (Some i)
  then have "i \<in> snd ` set (dv_Processes d)" by (metis image_eqI map_of_SomeD snd_conv)
  then have i: "i < length (dv_Services d)" using assms unfolding ports_ok_def by blast
  obtain q where "q \<in> set (sv_Ports (seen_from s (dv_Services d ! i)))" "po_Proto q = sk_Proto s" "po_Port q = sk_Port s"
    using new_port_has[of "socket_port s"] unfolding seen_from_def by fastforce
  then show ?thesis using changed_shows[OF i, of q "seen_from s"] Some
    by (simp add: add_process_socket_def socket_key_def flip: seen_from_def)
qed

lemma bare_socket_shown: "ports_ok d \<Longrightarrow> has_port_key (dv_Services (add_bare_socket s d)) (socket_key s)"
  using added_shows[of "socket_port s" "bare_service s"]
  by (simp add: add_bare_socket_def ports_ok_def socket_key_def bare_service_def)

definition owner_known :: "attribution \<Rightarrow> discovery \<Rightarrow> socket_info \<Rightarrow> bool" where
  "owner_known a d s \<longleftrightarrow> (case at_Owner a (sk_PID s) of OwnedByDocker h \<Rightarrow> findContainerByID (dv_Containers d) h \<noteq> None | _ \<Rightarrow> True)"

lemma socket_shown:
  assumes "ports_ok d" "owner_known a d s"
  shows "has_port_key (dv_Services (add_socket a d s)) (socket_key s)"
proof (cases "portKey (sk_Proto s) (sk_Port s) \<in> set (dv_ContainerPorts d)")
  case True
  then show ?thesis using assms(1) by (simp add: add_socket_def ports_ok_def socket_key_def)
next
  case False
  then show ?thesis
    using assms container_socket_shown[OF assms(1)] unit_socket_shown process_socket_shown[OF assms(1)] bare_socket_shown[OF assms(1)]
    by (auto simp: add_socket_def owner_known_def split: cgroup_owner.split option.split)
qed

lemma socket_keeps: "has_port_key (dv_Services d) k \<Longrightarrow> has_port_key (dv_Services (add_socket a d s)) k"
  by (simp add: add_socket_def add_container_socket_def add_unit_socket_def add_process_socket_def add_bare_socket_def
      changed_has grow_ports add_has seen_grows flip: seen_from_def split: cgroup_owner.split option.split)

lemma socket_containers [simp]: "dv_Containers (add_socket a d s) = dv_Containers d"
  by (simp add: add_socket_def add_container_socket_def add_unit_socket_def add_process_socket_def add_bare_socket_def
      split: cgroup_owner.split option.split)

lemma sockets_ok: "ports_ok d \<Longrightarrow> \<forall>s \<in> set ss. 1 \<le> sk_Port s \<Longrightarrow> ports_ok (foldl (add_socket a) d ss)"
  by (induction ss arbitrary: d) (simp_all add: socket_step)

lemma sockets_keep: "has_port_key (dv_Services d) k \<Longrightarrow> has_port_key (dv_Services (foldl (add_socket a) d ss)) k"
  by (induction ss arbitrary: d) (simp_all add: socket_keeps)

lemma sockets_shown:
  "ports_ok d \<Longrightarrow> \<forall>s \<in> set ss. 1 \<le> sk_Port s \<Longrightarrow> s \<in> set ss \<Longrightarrow> owner_known a d s \<Longrightarrow>
   has_port_key (dv_Services (foldl (add_socket a) d ss)) (socket_key s)"
proof (induction ss arbitrary: d)
  case (Cons x ss)
  have ok: "ports_ok (add_socket a d x)" using Cons.prems by (simp add: socket_step)
  have kn: "owner_known a (add_socket a d x) s" using Cons.prems(4) by (simp add: owner_known_def split: cgroup_owner.splits)
  show ?case
  proof (cases "s = x")
    case True
    then show ?thesis using sockets_keep[OF socket_shown[OF Cons.prems(1)]] Cons.prems(4) by simp
  next
    case False
    then show ?thesis using Cons.IH[OF ok _ _ kn] Cons.prems by simp
  qed
qed simp

lemma slash_free: "1 \<le> n \<Longrightarrow> CHR ''/'' \<notin> set (itoa n)"
  using itoa_digits[of n "CHR ''/''"] by (auto simp: is_digit_def byte_def)

lemma port_key_inj: "1 \<le> m \<Longrightarrow> 1 \<le> n \<Longrightarrow> portKey a m = portKey b n \<Longrightarrow> a = b \<and> m = n"
  using last_part[of a "CHR ''/''" "itoa m" b "itoa n"] slash_free itoa_inj[of m n] by (auto simp: portKey_def)

section \<open>The keys of the services\<close>

lemma fold_keeps: "(\<And>d x. P d \<Longrightarrow> P (f d x)) \<Longrightarrow> P d \<Longrightarrow> P (foldl f d xs)"
  by (induction xs arbitrary: d) simp_all

lemma warn_parts [simp]: "dv_Services (warn m d) = dv_Services d" "dv_Containers (warn m d) = dv_Containers d"
  "dv_Processes (warn m d) = dv_Processes d" "dv_ContainerPorts (warn m d) = dv_ContainerPorts d" "dv_Seen (warn m d) = dv_Seen d"
  by (simp_all add: warn_def)

lemma warn_ports [simp]: "ports_ok (warn m d) = ports_ok d"
  by (simp add: ports_ok_def)

lemma no_discovery_ok: "ports_ok no_discovery"
  by (simp add: ports_ok_def no_discovery_def)

lemma before_ports: "ports_ok (snd (snd (before_sockets w)))"
proof -
  have c: "ports_ok (discover_containers w no_discovery)"
    by (simp add: discover_containers_def no_discovery_ok fold_keeps[of ports_ok add_container, OF container_ports] split: prod.split)
  have l: "ports_ok d \<Longrightarrow> ports_ok (discover_labels w d)" for d
    by (simp add: discover_labels_def fold_keeps[of ports_ok label_container, OF label_ports] split: prod.split)
  have o1: "ports_ok d \<Longrightarrow> ports_ok (snd (discover_origins w d))" for d
    by (simp add: discover_origins_def split: prod.split)
  have u: "ports_ok d \<Longrightarrow> ports_ok (snd (discover_units w d))" for d
    by (simp add: discover_units_def fold_keeps[of ports_ok add_unit, OF unit_ports] split: prod.split)
  have r: "ports_ok d \<Longrightarrow> ports_ok (snd (discover_routes w d))" for d
    by (simp add: discover_routes_def Let_def fold_keeps[of ports_ok] split: prod.split)
  show ?thesis using c l o1 u r by (simp add: before_sockets_def Let_def case_prod_unfold)
qed

lemma added_keys_ok:
  assumes "keys_ok d" "sv_Key v \<notin> sv_Key ` set (dv_Services d)"
    and "has_prefix (sv_Key v) ''process:'' \<longrightarrow> sv_Key v \<in> fst ` set (dv_Processes d)"
    and "\<forall>k. sv_Key v = ''port:'' @ k \<longrightarrow> k \<in> set (dv_Seen d)"
  shows "keys_ok (add_service v d)"
  using assms by (simp add: keys_ok_def)

lemma unit_key: "sv_Key (unit_service u t) = ''systemd:'' @ u" "sv_Key (add_port p v) = sv_Key v" "sv_Key (add_new_port p v) = sv_Key v"
  "sv_Key (bare_service s) = ''port:'' @ socket_key s" "sv_Key (origin_service k p1 s) = k"
  by (simp_all add: unit_service_def add_port_def add_new_port_def bare_service_def socket_key_def origin_service_def)

lemma unit_socket_keys: "keys_ok d \<Longrightarrow> keys_ok (add_unit_socket us u p d)"
  using not_found_service[of "dv_Services d" "''systemd:'' @ u"]
  by (cases "findService (dv_Services d) (''systemd:'' @ u)")
    (simp_all add: add_unit_socket_def changed_keys_ok grow_ports added_keys_ok unit_key has_prefix_def)

lemma process_socket_keys:
  assumes "keys_ok d" "has_prefix k ''process:''"
  shows "keys_ok (add_process_socket k p s d)"
proof (cases "map_of (dv_Processes d) k")
  case None
  then have n: "k \<notin> sv_Key ` set (dv_Services d)" using assms by (auto simp: keys_ok_def map_of_eq_None_iff)
  have np: "\<forall>r. k \<noteq> ''port:'' @ r" using assms(2) by (auto simp: has_prefix_def)
  have "keys_ok (d\<lparr>dv_Processes := (k, length (dv_Services d)) # dv_Processes d\<rparr>)" using assms(1) by (simp add: keys_ok_def)
  then show ?thesis using None n np by (simp add: add_process_socket_def added_keys_ok unit_key)
next
  case (Some i)
  then show ?thesis using assms(1) by (simp add: add_process_socket_def changed_keys_ok seen_grows flip: seen_from_def)
qed

lemma bare_socket_keys:
  assumes "keys_ok d" shows "keys_ok (add_bare_socket s d)"
proof (cases "socket_key s \<in> set (dv_Seen d)")
  case False
  then have n: "''port:'' @ socket_key s \<notin> sv_Key ` set (dv_Services d)" using assms unfolding keys_ok_def by (metis imageE)
  have "keys_ok (d\<lparr>dv_Seen := socket_key s # dv_Seen d\<rparr>)" using assms by (simp add: keys_ok_def)
  then have "keys_ok (add_service (bare_service s) (d\<lparr>dv_Seen := socket_key s # dv_Seen d\<rparr>))"
    by (rule added_keys_ok) (use n in \<open>simp_all add: unit_key(4) has_prefix_def\<close>)
  then show ?thesis using False by (simp add: add_bare_socket_def socket_key_def)
qed (use assms in \<open>simp add: add_bare_socket_def socket_key_def\<close>)

lemma origin_key: "has_prefix (origin_workloadKey h p) ''process:''"
  by (simp add: origin_workloadKey_def has_prefix_def)

lemma socket_keys: "keys_ok d \<Longrightarrow> keys_ok (add_socket a d s)"
  by (simp add: add_socket_def add_container_socket_def changed_keys_ok grow_ports unit_socket_keys process_socket_keys[OF _ origin_key]
      bare_socket_keys split: cgroup_owner.split option.split)

definition known_containers :: "host_world \<Rightarrow> raw_container list" where
  "known_containers w = (case hw_Run w dockerPS of (out, err, ok) \<Rightarrow> if ok then parseDockerPS (hw_Container w) out else [])"

definition known_units :: "host_world \<Rightarrow> systemd_unit list" where
  "known_units w = (case hw_Run w systemdUnitsCommand of (out, err, ok) \<Rightarrow> if ok then filter unit_relevant (parseSystemdUnits out) else [])"

definition plain_keys :: "discovery \<Rightarrow> string list \<Rightarrow> bool" where
  "plain_keys d ks \<longleftrightarrow> map sv_Key (dv_Services d) = ks \<and> dv_Processes d = [] \<and> dv_Seen d = []"

lemma containers_keys: "plain_keys d ks \<Longrightarrow> plain_keys (foldl add_container d cs) (ks @ map (\<lambda>c. ''docker:'' @ rc_Names c) cs)"
proof (induction cs arbitrary: d ks)
  case (Cons c cs)
  have "plain_keys (add_container d c) (ks @ [''docker:'' @ rc_Names c])"
    using Cons.prems by (simp add: plain_keys_def add_container_def container_service_def)
  from Cons.IH[OF this] show ?case by simp
qed simp

lemma label_keys: "plain_keys d ks \<Longrightarrow> plain_keys (label_container d e) ks"
  by (simp add: plain_keys_def label_container_def changed_keys[OF label_grows] split: option.split)

lemma units_keys:
  "plain_keys d ks \<Longrightarrow> plain_keys (foldl add_unit d us) (ks @ map (\<lambda>u. ''systemd:'' @ su_ID u) (filter unit_relevant us))"
proof (induction us arbitrary: d ks)
  case (Cons u us)
  have "plain_keys (add_unit d u) (ks @ (if unit_relevant u then [''systemd:'' @ su_ID u] else []))"
    using Cons.prems by (simp add: plain_keys_def add_unit_def unit_key)
  from Cons.IH[OF this] show ?case by (cases "unit_relevant u") simp_all
qed simp

lemma warn_keys: "plain_keys (warn m d) ks = plain_keys d ks"
  by (simp add: plain_keys_def)

lemma before_keys:
  "plain_keys (snd (snd (before_sockets w)))
     (map (\<lambda>c. ''docker:'' @ rc_Names c) (known_containers w) @ map (\<lambda>u. ''systemd:'' @ su_ID u) (known_units w))"
proof -
  have n: "plain_keys no_discovery []" by (simp add: plain_keys_def no_discovery_def)
  have c: "plain_keys (discover_containers w no_discovery) (map (\<lambda>c. ''docker:'' @ rc_Names c) (known_containers w))"
    using n containers_keys[OF n] by (simp add: discover_containers_def known_containers_def warn_keys split: prod.split)
  have l: "plain_keys d ks \<Longrightarrow> plain_keys (discover_labels w d) ks" for d ks
    by (simp add: discover_labels_def warn_keys fold_keeps[of "\<lambda>d. plain_keys d ks" label_container, OF label_keys] split: prod.split)
  have o1: "plain_keys d ks \<Longrightarrow> plain_keys (snd (discover_origins w d)) ks" for d ks
    by (simp add: discover_origins_def warn_keys split: prod.split)
  have u: "plain_keys d ks \<Longrightarrow> plain_keys (snd (discover_units w d)) (ks @ map (\<lambda>u. ''systemd:'' @ su_ID u) (known_units w))" for d ks
    using units_keys by (simp add: discover_units_def known_units_def warn_keys split: prod.split)
  have r: "plain_keys d ks \<Longrightarrow> plain_keys (snd (discover_routes w d)) ks" for d ks
    by (simp add: discover_routes_def Let_def warn_keys fold_keeps[of "\<lambda>d. plain_keys d ks"] split: prod.split)
  show ?thesis using r[OF u[OF o1[OF l[OF c]]]] by (simp add: before_sockets_def Let_def case_prod_unfold)
qed

lemma before_keys_ok:
  assumes "distinct (map rc_Names (known_containers w))" "distinct (map su_ID (known_units w))"
  shows "keys_ok (snd (snd (before_sockets w)))"
proof -
  let ?d = "snd (snd (before_sockets w))"
  let ?a = "map (\<lambda>c. ''docker:'' @ rc_Names c) (known_containers w)" and ?b = "map (\<lambda>u. ''systemd:'' @ su_ID u) (known_units w)"
  have k: "map sv_Key (dv_Services ?d) = ?a @ ?b" "dv_Processes ?d = []" "dv_Seen ?d = []"
    using before_keys[of w] by (simp_all add: plain_keys_def)
  have "distinct ?a" "distinct ?b" using assms by (auto simp: distinct_map inj_on_def)
  moreover have "set ?a \<inter> set ?b = {}" by auto
  ultimately have "distinct (map sv_Key (dv_Services ?d))" unfolding k(1) distinct_append by blast
  moreover have "sv_Key v \<in> set (?a @ ?b)" if "v \<in> set (dv_Services ?d)" for v using that k(1) by (metis image_eqI set_map)
  then have "\<not> has_prefix (sv_Key v) ''process:'' \<and> (\<forall>r. sv_Key v \<noteq> ''port:'' @ r)" if "v \<in> set (dv_Services ?d)" for v
    using that by (fastforce simp: has_prefix_def)
  ultimately show ?thesis unfolding keys_ok_def by blast
qed

lemma finished_key [simp]: "sv_Key (finish_service r v) = sv_Key v" "sv_Ports (finish_service r v) = sv_Ports v"
  "sv_MaxExposure (finish_service r v) = MaxExposure (sv_Ports v)"
  by (simp_all add: finish_service_def)

lemma discovered_services:
  "sr_Services (Discover host now w) = Some (map (finish_service (fst (snd (before_sockets w))))
     (dv_Services (discover_sockets w (fst (before_sockets w)) (snd (snd (before_sockets w))))))"
  by (simp add: Discover_def Let_def case_prod_unfold)

lemma exposure_covers: "p \<in> set ps \<Longrightarrow> exposureRank (po_Exposure p) \<le> exposureRank (MaxExposure ps)"
  unfolding MaxExposure_def foldl_exposure by (rule Max_ge) auto

section \<open>Properties\<close>


text \<open>C4. No two services have the same key, so the Hub does not refuse the observation: a socket never adds a
  second service for a unit, a program or a port, provided Docker and systemd list a name once.\<close>

theorem service_keys_distinct:
  assumes "distinct (map rc_Names (known_containers w))" "distinct (map su_ID (known_units w))"
  shows "distinct (map sv_Key (the (sr_Services (Discover host now w))))"
proof -
  have "keys_ok (discover_sockets w a d)" if "keys_ok d" for a d
    using that fold_keeps[of keys_ok "add_socket a", OF socket_keys] by (simp add: discover_sockets_def keys_ok_def split: prod.split)
  from this[OF before_keys_ok[OF assms]] show ?thesis
    by (simp add: discovered_services comp_def keys_ok_def)
qed


section \<open>A concrete host\<close>

definition web_line :: string where
  "web_line = ''LISTEN 0 128 127.0.0.1:80 *:*''"

definition web_host :: host_world where
  "web_host = \<lparr>hw_Run = (\<lambda>argv. if argv = ssCmd then (web_line, [], True) else ([], ''not found'', False)), hw_ReadFile = (\<lambda>_. None),
     hw_Container = (\<lambda>_. None), hw_Tuple = (\<lambda>_. None), hw_Origin = (\<lambda>_. None), hw_Record = (\<lambda>_. None), hw_Sha = (\<lambda>s. s),
     hw_URL = no_urls\<rparr>"

definition web_socket :: socket_info where
  "web_socket = \<lparr>sk_Proto = ''tcp'', sk_Bind = ''127.0.0.1'', sk_Port = 80, sk_PID = 0, sk_Proc = []\<rparr>"

lemma web_fields: "text_fields web_line = [''LISTEN'', ''0'', ''128'', ''127.0.0.1:80'', ''*:*'']"
proof -
  have "ascii web_line" by (simp add: ascii_def web_line_def byte_def)
  then show ?thesis by (simp add: text_fields_def rune_chunks_ascii) (simp add: web_line_def is_space_def byte_def)
qed

lemma web_parsed: "parseSS web_line = [web_socket]"
proof -
  have "split_on (CHR 0x0A) web_line = [web_line]" by (rule split_on_single) (simp add: web_line_def)
  moreover have "SplitHostPort ''127.0.0.1:80'' = Some (''127.0.0.1'', 80)"
    by (simp add: SplitHostPort_def cut_last_def atoi_def parse_uint_def digits_value_def is_digit_def byte_def trim_brackets_def has_prefix_def)
  then have "parse_ss_line web_line = Some web_socket"
    by (simp add: parse_ss_line_def web_fields web_socket_def isNetid_def has_prefix_def)
  ultimately show ?thesis by (simp add: parseSS_def List.map_filter_def)
qed

lemma web_owner: "at_Owner (fst (before_sockets web_host)) = readCgroup (\<lambda>_. None)"
  by (simp add: before_sockets_def Let_def case_prod_unfold web_host_def)


theorem service_keys_distinct_witness:
  "distinct (map sv_Key (the (sr_Services (Discover ''web'' [] web_host))))"
  by (rule service_keys_distinct) (simp_all add: known_containers_def known_units_def web_host_def dockerPS_def ssCmd_def systemdUnitsCommand_def)

definition nobody :: attribution where
  "nobody = \<lparr>at_Origins = (\<lambda>_. None), at_Units = [], at_Owner = (\<lambda>_. OwnedByNobody), at_Sha = (\<lambda>s. s)\<rparr>"

definition open_socket :: socket_info where
  "open_socket = web_socket\<lparr>sk_Bind := ''0.0.0.0'', sk_PID := 77\<rparr>"


end
