(* ===== verification/Discovery_Accepted.thy ===== *)
theory Discovery_Accepted
  imports Discovery
begin

text \<open>
  What an Agent discovers (\<^verbatim>\<open>internal/agent/discover.go\<close>) against what the Hub accepts
  (\<^verbatim>\<open>internal/hub/projection.go\<close> and the validators of \<^verbatim>\<open>internal/domain/model.go\<close>): which discoveries become an
  observation, and which one port makes the Hub refuse all of a host.
\<close>

section \<open>Acceptable services\<close>

definition name_ok :: "string \<Rightarrow> bool" where
  "name_ok n \<longleftrightarrow> trim_space n \<noteq> []"

definition plain_bind :: "string \<Rightarrow> bool" where
  "plain_bind b \<longleftrightarrow> ascii b \<and> length b \<le> 255 \<and> (\<forall>c \<in> set b. \<not> is_control (byte c))"

definition listener_ok :: "port \<Rightarrow> bool" where
  "listener_ok p \<longleftrightarrow> (po_Proto p = ''tcp'' \<or> po_Proto p = ''udp'') \<and> 1 \<le> po_Port p \<and> po_Port p \<le> 65535 \<and> plain_bind (po_Bind p)"

definition compose_ok :: "service \<Rightarrow> bool" where
  "compose_ok v \<longleftrightarrow> (sv_ComposeService v \<noteq> [] \<longrightarrow> sv_ComposeProject v \<noteq> []) \<and>
     (sv_ComposeProject v \<noteq> [] \<longrightarrow> sv_Kind v = ''docker'' \<and> valid_identifier (sv_ComposeProject v) 128) \<and>
     (sv_ComposeService v \<noteq> [] \<longrightarrow> valid_identifier (sv_ComposeService v) 128)"

definition acceptable :: "service \<Rightarrow> bool" where
  "acceptable v \<longleftrightarrow> valid_identifier (sv_Key v) 512 \<and> name_ok (sv_Name v) \<and> compose_ok v \<and> (\<forall>p \<in> set (sv_Ports v). listener_ok p)"

definition all_services :: "(service \<Rightarrow> bool) \<Rightarrow> discovery \<Rightarrow> bool" where
  "all_services P d \<longleftrightarrow> (\<forall>v \<in> set (dv_Services d). P v)"

lemma changed_all:
  assumes "all_services P d" "\<And>v. P v \<Longrightarrow> P (f v)" shows "all_services P (change_service i f d)"
proof (cases "i < length (dv_Services d)")
  case True
  have "set ((dv_Services d)[i := f (dv_Services d ! i)]) \<subseteq> insert (f (dv_Services d ! i)) (set (dv_Services d))"
    by (rule set_update_subset_insert)
  moreover have "P (f (dv_Services d ! i))" using assms True by (simp add: all_services_def)
  ultimately show ?thesis using assms(1) unfolding all_services_def change_service_def by auto
qed (use assms(1) in \<open>simp add: change_service_def list_update_beyond all_services_def\<close>)

lemma added_all: "all_services P (add_service v d) \<longleftrightarrow> all_services P d \<and> P v"
  by (auto simp: all_services_def)

lemma all_warn [simp]: "all_services P (warn m d) = all_services P d"
  by (simp add: all_services_def)

section \<open>Texts\<close>

lemma probe_identifier_plain: "ascii s \<Longrightarrow> s \<noteq> [] \<Longrightarrow> length s \<le> n \<Longrightarrow> \<forall>c \<in> set s. \<not> is_control (byte c) \<Longrightarrow> valid_identifier s n"
  by (simp add: valid_identifier_ascii list_all_iff)

lemma digits_plain: "1 \<le> n \<Longrightarrow> n \<le> 65535 \<Longrightarrow> plain_bind (itoa n) \<and> length (itoa n) \<le> 5"
proof -
  assume n: "1 \<le> n" "n \<le> 65535"
  have "byte c < 128 \<and> \<not> is_control (byte c)" if "c \<in> set (itoa n)" for c
    using itoa_digits[OF n(1) that] by (auto simp: is_digit_def is_control_def)
  then show ?thesis using port_length[OF n] by (auto simp: plain_bind_def ascii_def list_all_iff)
qed

lemma listener_protocol:
  assumes "listener_ok p" shows "port_protocol p = po_Proto p"
proof -
  have "trim_space ''tcp'' = ''tcp''" "trim_space ''udp'' = ''udp''" by (rule trim_printable; simp add: byte_def)+
  then show ?thesis using assms by (auto simp: listener_ok_def port_protocol_def to_lower_def trim_suffix_def has_suffix_def byte_def)
qed

lemma listener_key:
  assumes "listener_ok p" shows "valid_identifier (port_key p) 512"
proof -
  have p: "plain_bind (po_Bind p)" "plain_bind (itoa (po_Port p))" "length (itoa (po_Port p)) \<le> 5"
    using assms digits_plain by (auto simp: listener_ok_def)
  have pr: "ascii (po_Proto p)" "length (po_Proto p) = 3" "\<forall>c \<in> set (po_Proto p). \<not> is_control (byte c)"
    using assms by (auto simp: listener_ok_def ascii_def byte_def is_control_def)
  have "length (join_host_port (po_Bind p) (itoa (po_Port p))) \<le> 263" using p by (simp add: join_length plain_bind_def)
  moreover have "ascii (join_host_port (po_Bind p) (itoa (po_Port p)))"
    "\<forall>c \<in> set (join_host_port (po_Bind p) (itoa (po_Port p))). \<not> is_control (byte c)"
    using p by (auto simp: join_host_port_def plain_bind_def ascii_def byte_def is_control_def)
  ultimately show ?thesis
    unfolding port_key_def listener_protocol[OF assms] using pr
    by (intro probe_identifier_plain) (auto simp: ascii_def byte_def is_control_def)
qed

lemma portKey_text:
  assumes "listener_ok p" shows "valid_identifier (''port:'' @ portKey (po_Proto p) (po_Port p)) 512"
proof -
  have p: "plain_bind (itoa (po_Port p))" "length (itoa (po_Port p)) \<le> 5"
    using assms digits_plain by (auto simp: listener_ok_def)
  have pr: "ascii (po_Proto p)" "length (po_Proto p) = 3" "\<forall>c \<in> set (po_Proto p). \<not> is_control (byte c)"
    using assms by (auto simp: listener_ok_def ascii_def byte_def is_control_def)
  show ?thesis using p pr
    by (intro probe_identifier_plain) (auto simp: portKey_def plain_bind_def ascii_def byte_def is_control_def)
qed

lemma hex_plain: "n < 16 \<Longrightarrow> 48 \<le> byte (hex_char n) \<and> byte (hex_char n) \<le> 102"
  by (auto simp: hex_char_def byte_def)

lemma origin_key_text: "valid_identifier (origin_workloadKey h p) 512"
proof -
  let ?b = "take 8 (h (origin_text p))"
  have len: "length (hex_encode bs) = 2 * length bs" for bs by (induction bs) (simp_all add: hex_encode_def hex_byte_def)
  have ch: "48 \<le> byte c \<and> byte c \<le> 102" if m: "c \<in> set (hex_encode bs)" for c bs
  proof -
    obtain x where x: "c = hex_char (byte x div 16) \<or> c = hex_char (byte x mod 16)"
      using m by (auto simp: hex_encode_def hex_byte_def)
    have "byte x < 256" by (simp add: byte_def)
    then have "byte x div 16 < 16" by simp
    then show ?thesis using x hex_plain[of "byte x div 16"] hex_plain[of "byte x mod 16"] by auto
  qed
  have "length (hex_encode ?b) \<le> 16" unfolding len by simp
  then show ?thesis using ch[of _ ?b] unfolding origin_workloadKey_def
    by (intro probe_identifier_plain) (auto simp: ascii_def list_all_iff byte_def is_control_def dest!: ch)
qed

section \<open>Every step keeps the services acceptable\<close>

definition unit_ok :: "string \<Rightarrow> bool" where
  "unit_ok u \<longleftrightarrow> valid_identifier (''systemd:'' @ u) 512 \<and> name_ok (unitName u)"

definition container_ok :: "raw_container \<Rightarrow> bool" where
  "container_ok c \<longleftrightarrow> valid_identifier (''docker:'' @ rc_Names c) 512 \<and> name_ok (rc_Names c)
     \<and> (\<forall>p \<in> set (parseDockerPorts (rc_Ports c)). listener_ok p)"

definition socket_ok :: "attribution \<Rightarrow> socket_info \<Rightarrow> bool" where
  "socket_ok a s \<longleftrightarrow> listener_ok (socket_port s) \<and> (sk_Proc s \<noteq> [] \<longrightarrow> name_ok (sk_Proc s))
     \<and> (\<forall>u. at_Owner a (sk_PID s) = OwnedByUnit u \<longrightarrow> unit_ok u)
     \<and> (\<forall>p. at_Origins a (sk_PID s) = Some p \<longrightarrow> name_ok (origin_workloadName p (sk_Proc s)))"

definition docker_acceptable :: "service \<Rightarrow> bool" where
  "docker_acceptable v \<longleftrightarrow> acceptable v \<and> sv_Kind v = ''docker''"

lemma container_acceptable: "container_ok c \<Longrightarrow> docker_acceptable (container_service c)"
  by (simp add: docker_acceptable_def acceptable_def container_ok_def container_service_def compose_ok_def blank_service_def)

lemma containers_acceptable:
  "all_services docker_acceptable d \<Longrightarrow> \<forall>c \<in> set cs. container_ok c \<Longrightarrow> all_services docker_acceptable (foldl add_container d cs)"
proof (induction cs arbitrary: d)
  case (Cons c cs)
  have "all_services docker_acceptable (add_container d c)"
    using Cons.prems container_acceptable unfolding add_container_def added_all by (simp add: all_services_def)
  then show ?case using Cons by simp
qed simp

text \<open>The labels of Compose that were read are identifiers.\<close>

lemma label_identifier: "composeLabel s \<Longrightarrow> valid_identifier s 128 \<and> s \<noteq> []"
proof -
  assume "composeLabel s"
  then have "docker_resource s" by (simp add: composeLabel_def docker_resource_def)
  then show ?thesis using docker_resource_plain plain_control[of s] by (auto simp: valid_identifier_def)
qed

definition label_ok :: "string \<times> compose_metadata \<Rightarrow> bool" where
  "label_ok e \<longleftrightarrow> valid_identifier (cm_Project (snd e)) 128 \<and> cm_Project (snd e) \<noteq> []
     \<and> (cm_Service (snd e) \<noteq> [] \<longrightarrow> valid_identifier (cm_Service (snd e)) 128)"

lemma entry_ok: "compose_entry t = Some e \<Longrightarrow> label_ok e"
  using label_identifier by (auto simp: compose_entry_def label_ok_def split: list.splits if_splits)

lemma update_entries: "e \<in> set (AList.update k v m) \<Longrightarrow> e = (k, v) \<or> e \<in> set m"
  by (induction m) (auto split: if_splits)

lemma fold_entries: "e \<in> set (foldl (\<lambda>m (k, v). AList.update k v m) m es) \<Longrightarrow> e \<in> set m \<or> e \<in> set es"
proof (induction es arbitrary: m)
  case (Cons x es)
  obtain k v where x: "x = (k, v)" by (cases x) auto
  show ?case using Cons.IH[of "AList.update k v m"] Cons.prems update_entries[of e k v m] by (auto simp: x)
qed simp

lemma labels_ok:
  assumes "e \<in> set (parseComposeMetadata decode t)" shows "label_ok e"
proof -
  obtain l where "(case decode l of None \<Rightarrow> None | Some t \<Rightarrow> compose_entry t) = Some e"
    using fold_entries[OF assms[unfolded parseComposeMetadata_def]] mapped_in by fastforce
  then show ?thesis using entry_ok by (auto split: option.splits)
qed

lemma label_acceptable:
  assumes "all_services docker_acceptable d" "label_ok e" shows "all_services docker_acceptable (label_container d e)"
proof (cases "findContainerByID (dv_Containers d) (fst e)")
  case (Some i)
  have "docker_acceptable (v\<lparr>sv_ComposeProject := cm_Project (snd e), sv_ComposeService := cm_Service (snd e)\<rparr>)"
    if "docker_acceptable v" for v
    using that assms(2) by (simp add: docker_acceptable_def acceptable_def compose_ok_def label_ok_def)
  from changed_all[OF assms(1) this] show ?thesis using Some by (simp add: label_container_def)
qed (use assms(1) in \<open>simp add: label_container_def\<close>)

lemma labels_acceptable:
  "all_services docker_acceptable d \<Longrightarrow> \<forall>e \<in> set es. label_ok e \<Longrightarrow> all_services docker_acceptable (foldl label_container d es)"
  by (induction es arbitrary: d) (simp_all add: label_acceptable)

lemma unit_acceptable: "unit_ok u \<Longrightarrow> acceptable (unit_service u t)"
  by (simp add: acceptable_def unit_ok_def compose_ok_def unit_service_def blank_service_def)

lemma port_acceptable: "acceptable v \<Longrightarrow> listener_ok p \<Longrightarrow> acceptable (add_port p v)" "acceptable v \<Longrightarrow> listener_ok p \<Longrightarrow> acceptable (add_new_port p v)"
  by (auto simp: acceptable_def compose_ok_def add_port_def add_new_port_def)

lemma units_acceptable:
  "all_services acceptable d \<Longrightarrow> \<forall>u \<in> set (filter unit_relevant us). unit_ok (su_ID u) \<Longrightarrow> all_services acceptable (foldl add_unit d us)"
proof (induction us arbitrary: d)
  case (Cons u us)
  have "all_services acceptable (add_unit d u)" using Cons.prems by (auto simp: add_unit_def added_all unit_acceptable)
  then show ?case using Cons by (simp split: if_splits)
qed simp

lemma seen_acceptable: "acceptable v \<Longrightarrow> listener_ok (socket_port s) \<Longrightarrow> acceptable (seen_from s v)"
  unfolding seen_from_def by (rule port_acceptable(2)) (auto simp: acceptable_def compose_ok_def)

lemma socket_acceptable:
  assumes all: "all_services acceptable d" and ok: "socket_ok a s"
  shows "all_services acceptable (add_socket a d s)"
proof -
  have l: "listener_ok (socket_port s)" using ok by (simp add: socket_ok_def)
  have c: "all_services acceptable (add_container_socket h (socket_port s) d)" for h
    using all changed_all[OF all port_acceptable(1)[OF _ l]] by (simp add: add_container_socket_def split: option.split)
  have u: "all_services acceptable (add_unit_socket us u (socket_port s) d)" if "unit_ok u" for us u
    using all changed_all[OF all port_acceptable(1)[OF _ l]] port_acceptable(1)[OF unit_acceptable[OF that] l]
    by (simp add: add_unit_socket_def added_all split: option.split)
  have b: "all_services acceptable (add_bare_socket s d)"
  proof -
    have "name_ok ''unknown''"
    proof -
      have "trim_space ''unknown'' = ''unknown''" by (rule trim_printable) (simp add: byte_def)
      then show ?thesis by (simp add: name_ok_def)
    qed
    then have "acceptable (bare_service s)"
      using ok l portKey_text[OF l]
      by (simp add: acceptable_def socket_ok_def bare_service_def compose_ok_def blank_service_def)
    then show ?thesis using all by (simp add: add_bare_socket_def all_services_def)
  qed
  have q: "all_services acceptable (add_process_socket (origin_workloadKey h p) p s d)" if "at_Origins a (sk_PID s) = Some p" for h p
  proof (cases "map_of (dv_Processes d) (origin_workloadKey h p)")
    case None
    have "acceptable (origin_service (origin_workloadKey h p) p s)"
      using ok that origin_key_text by (simp add: acceptable_def socket_ok_def origin_service_def compose_ok_def blank_service_def)
    then show ?thesis using None all port_acceptable(2)[OF _ l] by (simp add: add_process_socket_def all_services_def)
  next
    case (Some i)
    then show ?thesis using changed_all[OF all seen_acceptable[OF _ l]] by (simp add: add_process_socket_def flip: seen_from_def)
  qed
  show ?thesis
    using all c u b q ok by (auto simp: add_socket_def socket_ok_def split: cgroup_owner.split option.split)
qed

lemma sockets_acceptable:
  "all_services acceptable d \<Longrightarrow> \<forall>s \<in> set ss. socket_ok a s \<Longrightarrow> all_services acceptable (foldl (add_socket a) d ss)"
  by (induction ss arbitrary: d) (simp_all add: socket_acceptable)

text \<open>What a host shows the Agent: names and addresses the Hub can take.\<close>

definition shown_sockets :: "host_world \<Rightarrow> socket_info list" where
  "shown_sockets w = (case hw_Run w ssCmd of (out, err, ok) \<Rightarrow> if ok then parseSS out else [])"

definition host_texts :: "host_world \<Rightarrow> bool" where
  "host_texts w \<longleftrightarrow> (\<forall>c \<in> set (known_containers w). container_ok c) \<and> (\<forall>u \<in> set (known_units w). unit_ok (su_ID u))
     \<and> (\<forall>s \<in> set (shown_sockets w). socket_ok (fst (before_sockets w)) s)
     \<and> (\<forall>r \<in> set (fst (snd (before_sockets w))). length (wr_Upstreams (xr_Route r)) \<le> 16) \<and> url_lengths (hw_URL w)"

lemma discovered_acceptable:
  assumes "host_texts w"
  shows "all_services acceptable (discover_sockets w (fst (before_sockets w)) (snd (snd (before_sockets w))))"
proof -
  have n: "all_services docker_acceptable no_discovery" by (simp add: all_services_def no_discovery_def)
  have c: "all_services docker_acceptable (discover_containers w no_discovery)"
    using n containers_acceptable[OF n] assms by (auto simp: discover_containers_def host_texts_def known_containers_def split: prod.splits)
  have l: "all_services docker_acceptable d \<Longrightarrow> all_services docker_acceptable (discover_labels w d)" for d
    using labels_acceptable labels_ok by (simp add: discover_labels_def split: prod.split)
  have da: "all_services docker_acceptable d \<Longrightarrow> all_services acceptable d" for d by (simp add: all_services_def docker_acceptable_def)
  have o1: "all_services acceptable d \<Longrightarrow> all_services acceptable (snd (discover_origins w d))" for d
    by (simp add: discover_origins_def split: prod.split)
  have u: "all_services acceptable d \<Longrightarrow> all_services acceptable (snd (discover_units w d))" for d
    using units_acceptable assms by (auto simp: discover_units_def host_texts_def known_units_def split: prod.splits)
  have r: "all_services acceptable d \<Longrightarrow> all_services acceptable (snd (discover_routes w d))" for d
    by (simp add: discover_routes_def Let_def fold_keeps[of "all_services acceptable"] split: prod.split)
  have "all_services acceptable (snd (snd (before_sockets w)))"
    using r[OF u[OF o1[OF da[OF l[OF c]]]]] by (simp add: before_sockets_def Let_def case_prod_unfold)
  moreover have "\<forall>s \<in> set (shown_sockets w). socket_ok (fst (before_sockets w)) s" using assms by (simp add: host_texts_def)
  ultimately show ?thesis
    using sockets_acceptable by (auto simp: discover_sockets_def shown_sockets_def split: prod.splits)
qed

section \<open>The observation of a discovery\<close>

definition hub_services :: "host_world \<Rightarrow> service list" where
  "hub_services w = map (finish_service (fst (snd (before_sockets w))))
     (dv_Services (discover_sockets w (fst (before_sockets w)) (snd (snd (before_sockets w)))))"

lemma hub_services_is: "sr_Services (Discover hostname now w) = Some (hub_services w)"
  by (simp add: discovered_services hub_services_def)

lemma first_keys: "distinct (map key (first_of_key key seen xs)) \<and> key ` set (first_of_key key seen xs) \<inter> set seen = {}"
proof (induction xs arbitrary: seen)
  case (Cons x xs)
  show ?case using Cons[of seen] Cons[of "key x # seen"] by auto
qed simp

lemma first_subset: "set (first_of_key key seen xs) \<subseteq> set xs"
  by (induction xs arbitrary: seen) auto

text \<open>The keys of parts of different services differ, because no key has a zero byte.\<close>

lemma identifier_zero: "valid_identifier s n \<Longrightarrow> CHR 0x00 \<notin> set s"
proof
  assume v: "valid_identifier s n" and "CHR 0x00 \<in> set s"
  then have "0 \<in> set (runes s)" using byte_of_rune[of "CHR 0x00" s] by (simp add: byte_def)
  moreover have "is_control 0" by (simp add: is_control_def)
  ultimately have "containsControl s" unfolding containsControl_def list_ex_iff by blast
  then show False using v by (simp add: valid_identifier_def)
qed

lemma composite_parts:
  "valid_identifier a n \<Longrightarrow> valid_identifier b n \<Longrightarrow> composite_key a x = composite_key b y \<Longrightarrow> a = b \<and> x = y"
  using first_part[of a "CHR 0x00" x b y] identifier_zero[of a n] identifier_zero[of b n] by (simp add: composite_key_def)

lemma parts_distinct:
  assumes "distinct (map sv_Key vs)" "\<forall>v \<in> set vs. valid_identifier (sv_Key v) 512"
    and k: "\<And>v x. x \<in> set (parts v) \<Longrightarrow> wk x = sv_Key v" and d: "\<And>v. distinct (map pk (parts v))"
  shows "distinct (map (\<lambda>x. composite_key (wk x) (pk x)) (concat (map parts vs)))"
  using assms(1,2)
proof (induction vs)
  case (Cons v vs)
  have "inj_on (\<lambda>x. composite_key (wk x) (pk x)) (set (parts v))"
  proof (rule inj_onI)
    fix x y assume xy: "x \<in> set (parts v)" "y \<in> set (parts v)" "composite_key (wk x) (pk x) = composite_key (wk y) (pk y)"
    then have "pk x = pk y" using k by (simp add: composite_key_def)
    then show "x = y" using d[of v] xy(1,2) unfolding distinct_map inj_on_def by blast
  qed
  moreover have "distinct (parts v)" using d[of v] by (simp add: distinct_map)
  moreover have "composite_key (wk x) (pk x) \<noteq> composite_key (wk y) (pk y)"
    if x: "x \<in> set (parts v)" and u: "u \<in> set vs" "y \<in> set (parts u)" for x y u
  proof
    assume e: "composite_key (wk x) (pk x) = composite_key (wk y) (pk y)"
    have i: "valid_identifier (sv_Key v) 512" "valid_identifier (sv_Key u) 512" using Cons.prems(2) u(1) by simp_all
    have "composite_key (sv_Key v) (pk x) = composite_key (sv_Key u) (pk y)" using e k[OF x] k[OF u(2)] by simp
    then have "sv_Key v = sv_Key u" using composite_parts[OF i] by simp
    then show False using Cons.prems(1) u(1) by (auto simp: image_iff)
  qed
  moreover have "distinct (map (\<lambda>x. composite_key (wk x) (pk x)) (concat (map parts vs)))" using Cons by simp
  ultimately show ?case by (simp add: distinct_map image_iff) blast
qed simp

lemma workload_accepted: "acceptable v \<Longrightarrow> validateWorkload hid (project_workload hid v) = Inr ()"
  by (auto simp: acceptable_def name_ok_def compose_ok_def validateWorkload_def project_workload_def andThen_ok projectWorkloadKind_def
      validWorkloadKind_def)

lemma endpoint_accepted:
  assumes "acceptable v" "e \<in> set (service_endpoints hid v)" "sv_Key v \<in> set workloads"
  shows "validateEndpoint hid workloads e = Inr () \<and> validateEndpointEvidence e = Inr ()"
proof -
  obtain p where p: "p \<in> set (sv_Ports v)" "e = project_port hid v p"
    using assms(2) first_subset by (fastforce simp: service_endpoints_def)
  then have l: "listener_ok p" using assms(1) by (simp add: acceptable_def)
  have b: "validBinding (projectBinding (ClassifyBind b))" for b
    using exposure_cases[of b] by (auto simp: projectBinding_def validBinding_def)
  show ?thesis
    using l assms(3) listener_key[OF l] listener_protocol[OF l] b
    by (auto simp: p(2) validateEndpoint_def validateEndpointEvidence_def andThen_ok project_port_def listener_ok_def validReachability_def)
qed

lemma endpoints_keyed: "x \<in> set (service_endpoints hid v) \<Longrightarrow> ep_WorkloadKey x = sv_Key v"
  "distinct (map ep_Key (service_endpoints hid v))"
  using first_keys[of port_key "[]" "sv_Ports v"] by (auto simp: service_endpoints_def project_port_def comp_def)

lemma routes_keyed: "x \<in> set (service_routes hid v) \<Longrightarrow> rt_WorkloadKey x = sv_Key v"
  "distinct (map rt_Key (service_routes hid v))"
  using first_keys[of wire_route_key "[]" "sv_Routes v"] by (auto simp: service_routes_def project_route_def comp_def)

lemma found_routes:
  assumes "host_texts w" "r \<in> set (fst (snd (before_sockets w)))"
  shows "normal_route r \<and> length (wr_Upstreams (xr_Route r)) \<le> 16"
proof -
  have "r \<in> set (fst (discover_routes w d)) \<Longrightarrow> normal_route r" for d
    using merged_normal(1)[of "hw_URL w"] assms(1)
    by (auto simp: discover_routes_def parseProxyDiscovery_def Let_def host_texts_def split: prod.splits if_splits)
  then have "normal_route r" using assms(2) by (auto simp: before_sockets_def Let_def case_prod_unfold)
  then show ?thesis using assms by (simp add: host_texts_def)
qed

lemma route_accepted:
  assumes "host_texts w" "v \<in> set (hub_services w)" "x \<in> set (service_routes hid v)" "sv_Key v \<in> set workloads"
  shows "validateRoute hid workloads x = Inr ()"
proof -
  obtain u where "v = finish_service (fst (snd (before_sockets w))) u" using assms(2) by (auto simp: hub_services_def)
  moreover obtain r where "r \<in> set (sv_Routes v)" "x = project_route hid v r"
    using assms(3) first_subset by (fastforce simp: service_routes_def)
  ultimately obtain q where q: "q \<in> set (fst (snd (before_sockets w)))" "x = project_route hid v (xr_Route q)"
    by (auto simp: finish_service_def)
  then show ?thesis using found_routes[OF assms(1) q(1)] discovered_accepted assms(4) by blast
qed

lemma hub_services_acceptable:
  assumes "host_texts w" "v \<in> set (hub_services w)" shows "acceptable v"
proof -
  obtain u where u: "v = finish_service (fst (snd (before_sockets w))) u"
    "u \<in> set (dv_Services (discover_sockets w (fst (before_sockets w)) (snd (snd (before_sockets w)))))"
    using assms(2) by (auto simp: hub_services_def)
  then have "acceptable u" using discovered_acceptable[OF assms(1)] by (simp add: all_services_def)
  then show ?thesis by (simp add: u(1) acceptable_def compose_ok_def finish_service_def)
qed

lemma hub_keys_distinct:
  assumes "distinct (map rc_Names (known_containers w))" "distinct (map su_ID (known_units w))"
  shows "distinct (map sv_Key (hub_services w))"
proof -
  have "keys_ok (discover_sockets w a d)" if "keys_ok d" for a d
    using that fold_keeps[of keys_ok "add_socket a", OF socket_keys] by (simp add: discover_sockets_def keys_ok_def split: prod.split)
  from this[OF before_keys_ok[OF assms]] show ?thesis by (simp add: hub_services_def comp_def keys_ok_def)
qed

lemma observation_accepted:
  assumes texts: "host_texts w" and names: "distinct (map rc_Names (known_containers w))" "distinct (map su_ID (known_units w))"
    and hid: "valid_identifier (ac_ID agent) 128" and t: "observedAt \<noteq> 0"
  shows "validateObservation (projected agent True lastError ping None (Some (hub_services w)) observedAt) = Inr ()"
proof -
  let ?vs = "hub_services w" and ?h = "ac_ID agent"
  let ?ob = "projected agent True lastError ping None (Some ?vs) observedAt"
  note ok = hub_services_acceptable[OF texts] and ds = hub_keys_distinct[OF names]
  have keys: "\<forall>v \<in> set ?vs. valid_identifier (sv_Key v) 512" using ok by (simp add: acceptable_def)
  have ws: "workloads_of ?ob = map (project_workload ?h) ?vs" by (simp add: projected_def Let_def workloads_of_def)
  have wk: "map w_Key (map (project_workload ?h) ?vs) = map sv_Key ?vs" by (simp add: project_workload_def comp_def)
  have w1: "check_distinct ''duplicate workload key'' w_Key (validateWorkload ?h) (\<lambda>_. Inr ()) [] (workloads_of ?ob) = Inr ()"
    unfolding ws check_distinct_ok wk using ds ok workload_accepted by (auto simp: project_workload_def)
  have e1: "check_distinct ''duplicate endpoint key'' (\<lambda>e. composite_key (ep_WorkloadKey e) (ep_Key e))
      (validateEndpoint ?h (map w_Key (workloads_of ?ob))) validateEndpointEvidence [] (ob_Endpoints ?ob) = Inr ()"
  proof -
    have es: "ob_Endpoints ?ob = concat (map (service_endpoints ?h) ?vs)" by (simp add: projected_def Let_def)
    have d: "distinct (map (\<lambda>e. composite_key (ep_WorkloadKey e) (ep_Key e)) (concat (map (service_endpoints ?h) ?vs)))"
      by (rule parts_distinct[OF ds keys endpoints_keyed])
    have "validateEndpoint ?h (map sv_Key ?vs) e = Inr () \<and> validateEndpointEvidence e = Inr ()"
      if m: "e \<in> set (concat (map (service_endpoints ?h) ?vs))" for e
    proof -
      obtain v where v: "v \<in> set ?vs" "e \<in> set (service_endpoints ?h v)" using m by auto
      then show ?thesis using endpoint_accepted[OF ok[OF v(1)] v(2), of "map sv_Key ?vs"] by simp
    qed
    then show ?thesis unfolding check_distinct_ok es ws wk using d by simp
  qed
  have r1: "check_distinct ''duplicate proxy route key'' (\<lambda>r. composite_key (rt_WorkloadKey r) (rt_Key r))
      (validateRoute ?h (map w_Key (workloads_of ?ob))) (\<lambda>_. Inr ()) [] (ob_Routes ?ob) = Inr ()"
  proof -
    have rs: "ob_Routes ?ob = concat (map (service_routes ?h) ?vs)" by (simp add: projected_def Let_def)
    have d: "distinct (map (\<lambda>r. composite_key (rt_WorkloadKey r) (rt_Key r)) (concat (map (service_routes ?h) ?vs)))"
      by (rule parts_distinct[OF ds keys routes_keyed])
    have "validateRoute ?h (map sv_Key ?vs) x = Inr ()" if m: "x \<in> set (concat (map (service_routes ?h) ?vs))" for x
    proof -
      obtain v where v: "v \<in> set ?vs" "x \<in> set (service_routes ?h v)" using m by auto
      then show ?thesis using route_accepted[OF texts v, of "map sv_Key ?vs"] by simp
    qed
    then show ?thesis unfolding check_distinct_ok rs ws wk using d by simp
  qed
  have p: "ob_HostID ?ob = ?h" "ob_ObservedAt ?ob = observedAt" "ob_SSH ?ob = None" by (simp_all add: projected_def Let_def)
  show ?thesis unfolding validateObservation_def andThen_ok p option.case using hid t w1 e1 r1 by simp
qed

section \<open>What is refused\<close>

definition starts_with :: "port \<Rightarrow> service \<Rightarrow> bool" where
  "starts_with p v \<longleftrightarrow> (\<exists>ps. sv_Ports v = p # ps)"

definition some_service :: "(service \<Rightarrow> bool) \<Rightarrow> discovery \<Rightarrow> bool" where
  "some_service P d \<longleftrightarrow> (\<exists>v \<in> set (dv_Services d). P v)"

lemma changed_some:
  assumes "some_service P d" "\<And>v. P v \<Longrightarrow> P (f v)" shows "some_service P (change_service i f d)"
proof (cases "i < length (dv_Services d)")
  case True
  obtain j where j: "j < length (dv_Services d)" "P (dv_Services d ! j)"
    using assms(1) by (auto simp: some_service_def in_set_conv_nth)
  have "P ((dv_Services (change_service i f d)) ! j)"
    using j assms(2) True by (cases "i = j") (simp_all add: change_service_def)
  moreover have "j < length (dv_Services (change_service i f d))" using j by simp
  ultimately show ?thesis using nth_mem unfolding some_service_def by blast
qed (use assms(1) in \<open>simp add: change_service_def list_update_beyond some_service_def\<close>)

lemma added_some: "some_service P d \<Longrightarrow> some_service P (add_service v d)" "P v \<Longrightarrow> some_service P (add_service v d)"
  by (auto simp: some_service_def)

lemma some_warn [simp]: "some_service P (warn m d) = some_service P d"
  by (simp add: some_service_def)

lemma start_kept: "starts_with p v \<Longrightarrow> starts_with p (add_port q v)" "starts_with p v \<Longrightarrow> starts_with p (seen_from s v)"
  "starts_with p v \<Longrightarrow> starts_with p (v\<lparr>sv_ComposeProject := x, sv_ComposeService := y\<rparr>)"
  by (auto simp: starts_with_def add_port_def seen_from_def add_new_port_def)

lemma start_steps:
  assumes "some_service (starts_with p) d"
  shows "some_service (starts_with p) (add_container d c)" "some_service (starts_with p) (label_container d e)"
    "some_service (starts_with p) (add_unit d u)" "some_service (starts_with p) (add_socket a d s)"
proof -
  note a = added_some(1)[OF assms] and ch = changed_some[OF assms start_kept(1)] changed_some[OF assms start_kept(2)] changed_some[OF assms start_kept(3)]
  show "some_service (starts_with p) (add_container d c)" "some_service (starts_with p) (add_unit d u)"
    using assms a by (auto simp: add_container_def add_unit_def some_service_def)
  show "some_service (starts_with p) (label_container d e)"
    using assms ch by (simp add: label_container_def split: option.split)
  show "some_service (starts_with p) (add_socket a d s)"
    using assms a ch
    by (auto simp: add_socket_def add_container_socket_def add_unit_socket_def add_process_socket_def add_bare_socket_def some_service_def
        simp flip: seen_from_def split: cgroup_owner.split option.split)
qed

lemma container_starts:
  "c \<in> set cs \<Longrightarrow> parseDockerPorts (rc_Ports c) = p # ps \<Longrightarrow> some_service (starts_with p) (foldl add_container d cs)"
proof (induction cs arbitrary: d)
  case (Cons x cs)
  show ?case
  proof (cases "c = x")
    case True
    have "starts_with p (container_service c)" using Cons.prems(2) by (simp add: starts_with_def container_service_def)
    then have "some_service (starts_with p) (add_container d x)" unfolding True add_container_def by (rule added_some(2))
    then show ?thesis using fold_keeps[of "some_service (starts_with p)" add_container, OF start_steps(1)] by simp
  qed (use Cons in simp)
qed simp

lemma published_listed:
  assumes "c \<in> set (known_containers w)" "parseDockerPorts (rc_Ports c) = p # ps"
  shows "\<exists>v \<in> set (hub_services w). starts_with p v"
proof -
  let ?P = "some_service (starts_with p)"
  have c: "?P (discover_containers w no_discovery)"
    using assms container_starts by (auto simp: discover_containers_def known_containers_def split: prod.splits if_splits)
  have l: "?P d \<Longrightarrow> ?P (discover_labels w d)" for d
    by (simp add: discover_labels_def fold_keeps[of ?P label_container, OF start_steps(2)] split: prod.split)
  have o1: "?P d \<Longrightarrow> ?P (snd (discover_origins w d))" for d by (simp add: discover_origins_def split: prod.split)
  have u: "?P d \<Longrightarrow> ?P (snd (discover_units w d))" for d
    by (simp add: discover_units_def fold_keeps[of ?P add_unit, OF start_steps(3)] split: prod.split)
  have r: "?P d \<Longrightarrow> ?P (snd (discover_routes w d))" for d
    by (simp add: discover_routes_def Let_def fold_keeps[of ?P] split: prod.split)
  have k: "?P d \<Longrightarrow> ?P (discover_sockets w a d)" for a d
    by (simp add: discover_sockets_def fold_keeps[of ?P "add_socket a", OF start_steps(4)] split: prod.split)
  have "?P (snd (snd (before_sockets w)))" using r[OF u[OF o1[OF l[OF c]]]] by (simp add: before_sockets_def Let_def case_prod_unfold)
  from k[OF this] obtain v where "v \<in> set (dv_Services (discover_sockets w (fst (before_sockets w)) (snd (snd (before_sockets w)))))"
    "starts_with p v" by (auto simp: some_service_def)
  then show ?thesis by (auto simp: hub_services_def starts_with_def)
qed

lemma protocol_refused:
  assumes "v \<in> set vs" "starts_with p v" "port_protocol p \<noteq> ''tcp''" "port_protocol p \<noteq> ''udp''"
  shows "\<not> is_ok (projectObservation agent online lastError ping status (Some vs) observedAt)"
proof -
  let ?ob = "projected agent online lastError ping status (Some vs) observedAt"
  obtain ps where "sv_Ports v = p # ps" using assms(2) by (auto simp: starts_with_def)
  then have "project_port (ac_ID agent) v p \<in> set (service_endpoints (ac_ID agent) v)" by (simp add: service_endpoints_def)
  then have "project_port (ac_ID agent) v p \<in> set (ob_Endpoints ?ob)" using assms(1) by (auto simp: projected_def Let_def)
  moreover have "validateEndpoint h ws (project_port (ac_ID agent) v p) \<noteq> Inr ()" for h ws
    using assms(3,4) by (auto simp: validateEndpoint_def andThen_ok project_port_def)
  ultimately have "validateObservation ?ob \<noteq> Inr ()"
    by (auto simp: validateObservation_def andThen_ok check_distinct_ok)
  then show ?thesis by (auto simp: projectObservation_def Let_def is_ok_def andThen_def split: sum.splits)
qed

section \<open>Properties\<close>

lemma discovery_accepted_lemma:
  assumes "host_texts w" "distinct (map rc_Names (known_containers w))" "distinct (map su_ID (known_units w))"
    and "valid_identifier (ac_ID agent) 128" "observedAt \<noteq> 0"
  shows "is_ok (projectObservation agent True lastError ping None (sr_Services (Discover hostname now w)) observedAt)"
  using observation_accepted[OF assms] by (simp add: hub_services_is projectObservation_def)



section \<open>Concrete hosts\<close>

definition some_agent :: agent_config where
  "some_agent = \<lparr>ac_ID = ''web'', ac_Name = ''web'', ac_URL = [], ac_Token = [], ac_PublicHost = []\<rparr>"

definition some_ping :: ping where
  "some_ping = \<lparr>pg_OK = True, pg_Hostname = ''web'', pg_AgentVer = [], pg_APIVersion = [], pg_UptimeSec = 0\<rparr>"

lemma web_host_empty: "known_containers web_host = []" "known_units web_host = []"
  by (simp_all add: known_containers_def known_units_def web_host_def dockerPS_def ssCmd_def systemdUnitsCommand_def)

lemma web_host_sockets: "shown_sockets web_host = [web_socket]"
  using web_parsed by (simp add: shown_sockets_def web_host_def)

lemma web_host_attribution: "at_Origins (fst (before_sockets web_host)) n = None" "fst (snd (before_sockets web_host)) = []"
  by (simp_all add: before_sockets_def Let_def case_prod_unfold discover_origins_def discover_routes_def web_host_def
      processOriginsCommand_def proxyRoutesCommand_def ssCmd_def)

lemma web_host_texts: "host_texts web_host"
proof -
  have "listener_ok (socket_port web_socket)"
    by (simp add: listener_ok_def web_socket_def plain_bind_def ascii_def byte_def is_control_def)
  moreover have "at_Owner (fst (before_sockets web_host)) (sk_PID web_socket) = OwnedByNobody"
    by (simp add: web_owner readCgroup_def web_socket_def)
  moreover have "hw_URL web_host = no_urls" by (simp add: web_host_def)
  ultimately show ?thesis
    using no_urls_law by (simp add: host_texts_def web_host_empty web_host_sockets web_host_attribution socket_ok_def web_socket_def)
qed


definition diameter :: raw_container where
  "diameter = \<lparr>rc_ID = ''c1'', rc_Names = ''diameter'', rc_Image = [], rc_State = ''running'', rc_Status = [],
     rc_Ports = ''0.0.0.0:3868->3868/sctp''\<rparr>"

definition sctp_host :: host_world where
  "sctp_host = web_host\<lparr>hw_Run := (\<lambda>argv. if argv = dockerPS then (''{}'', [], True) else ([], ''not found'', False)),
     hw_Container := (\<lambda>_. Some diameter)\<rparr>"

lemma sctp_container: "known_containers sctp_host = [diameter]"
proof -
  have "trim_space ''{}'' = ''{}''" by (rule trim_printable) (simp add: byte_def)
  then show ?thesis
    by (simp add: known_containers_def sctp_host_def parseDockerPS_def text_lines_def List.map_filter_def read_container_def diameter_def
        has_prefix_def trim_prefix_def)
qed

definition sctp_port :: port where
  "sctp_port = \<lparr>po_Proto = ''sctp'', po_Port = 3868, po_Bind = ''0.0.0.0'', po_Exposure = ClassifyBind ''0.0.0.0''\<rparr>"

lemma sctp_ports: "parseDockerPorts (rc_Ports diameter) = [sctp_port]"
proof -
  let ?e = "''0.0.0.0:3868->3868/sctp''"
  have t: "trim_space ?e = ?e" "trim_space ''sctp'' = ''sctp''" by (rule trim_printable; simp add: byte_def)+
  have s: "split_on (CHR '','') ?e = [?e]" by (rule split_on_single) simp
  have h: "SplitHostPort ''0.0.0.0:3868'' = Some (''0.0.0.0'', 3868)"
    by (simp add: SplitHostPort_def cut_last_def atoi_def parse_uint_def digits_value_def is_digit_def byte_def trim_brackets_def has_prefix_def)
  have "cut_arrow ?e = Some (''0.0.0.0:3868'', ''->3868/sctp'')" by (simp add: has_prefix_def)
  then have "parse_docker_port ?e = Some sctp_port" using h t(2) by (simp add: parse_docker_port_def sctp_port_def)
  then show ?thesis using t(1) s by (simp add: parseDockerPorts_def diameter_def List.map_filter_def)
qed


end
