(* ===== verification/Spec2Isabelle.thy ===== *)
theory Spec2Isabelle
  imports Usage_Percent Host_Store Event_Store Webhook Operation_Runs Hub_Pipeline Login Request_Handlers Proxy_Configs Discovery_Accepted
begin

text \<open>
  A model of Lodge, a console that watches and operates a small fleet of hosts.

  \<^bold>\<open>The program.\<close> An Agent runs on every host. It collects what the host runs, with commands it may run as
  root through a generated sudoers file, and, if its owner wrote a policy file, publishes a fixed list of
  actions (start, stop, restart, logs of a container or unit) and of deployments (a service of a Compose
  stack set to an immutable image). The Hub polls the Agents, projects their answers onto observations,
  stores these with the events its rules derive from them and an audit log of operations in SQLite,
  notifies a webhook about events, shows all of it to one operator who has logged in, and lets the
  operator confirm an action or deployment that the Agent has published.

  \<^bold>\<open>Foundations.\<close>

  \<^item> \<open>Lodge_Prelude\<close>: results (\<open>go_error + 'a\<close>, \<open>guard\<close>, \<open>andThen\<close>, the checking loops \<open>check_all\<close> and
    \<open>check_distinct\<close>), tables as lists of rows (\<open>affected\<close>, \<open>update_where\<close>).
  \<^item> \<open>Go_Strings\<close>, \<open>Go_Net\<close>, \<open>Go_Float\<close>, \<open>Go_Time\<close>, \<open>Go_Base64\<close>: the Go standard library as far as the source
    uses it. A Go string is the list of its bytes; UTF-8 decoding, trimming and folding follow Go; IP
    addresses; float64 with its rounding; RFC 3339 times; base64 without padding.
  \<^item> \<open>Domain_Types\<close>, \<open>Domain\<close>, \<open>Usage_Percent\<close>: \<^verbatim>\<open>internal/domain/model.go\<close>, its types and every validator.
  \<^item> \<open>Shared_Types\<close>, \<open>Hub_Wire\<close>: \<^verbatim>\<open>internal/shared\<close>, the wire types and the exposure of an address.

  \<^bold>\<open>Storage\<close> (\<^verbatim>\<open>internal/storage\<close>). A table is a list of rows, a transaction a function from the database to
  an error or the database after it.

  \<^item> \<open>Database\<close>, \<open>Host_Store\<close>: the tables with their constraints (\<^verbatim>\<open>migrations.go\<close>), hosts, annotations and
    link checks.
  \<^item> \<open>Event_Store\<close>, \<open>Event_Paging\<close>: the reconciliation of events with the signals of an observation, which
    refines a declarative specification, acknowledgement, and the paged timeline with its snapshots.
  \<^item> \<open>Observation_Store\<close>, \<open>Observation_Roundtrip\<close>, \<open>Observation_Summaries\<close>: observations, which load as they
    were recorded, their retention, and the history summarised in SQL against the domain's summaries.
  \<^item> \<open>Outbox\<close> (\<^verbatim>\<open>notifications.go\<close>), \<open>Webhook\<close> (\<^verbatim>\<open>internal/hub/webhook.go\<close>): the notifications of events, their
    leases, and the worker that delivers them, a client of the locale of the outbox.
  \<^item> \<open>Operation_Store\<close>, \<open>Mem_Operations\<close>: the audit log and its second implementation in memory
    (\<^verbatim>\<open>internal/hub/store.go\<close>), both interpretations of the locale \<open>operation_store\<close>.

  \<^bold>\<open>The Hub\<close> (\<^verbatim>\<open>internal/hub\<close>).

  \<^item> \<open>Event_Rules\<close>, \<open>Event_Evidence\<close>, \<open>Event_Validity\<close> (\<^verbatim>\<open>event_rules.go\<close>): the signals of an observation; an event
    opens and recovers only on evidence, and every signal is valid.
  \<^item> \<open>Hub_Projection\<close> (\<^verbatim>\<open>projection.go\<close>), \<open>Mem_Store\<close> (\<^verbatim>\<open>store.go\<close>), \<open>Hub_Store\<close>, \<open>Hub_Pipeline\<close>
    (\<^verbatim>\<open>sqlite_store.go\<close>): from an answer of an Agent to the committed update: rules, events, outbox and
    baselines in one transaction, with its invariant.
  \<^item> \<open>Sessions\<close>, \<open>Rate_Limit\<close>, \<open>Login\<close> (\<^verbatim>\<open>auth.go\<close>, \<^verbatim>\<open>password.go\<close>, \<^verbatim>\<open>ratelimit.go\<close>, \<^verbatim>\<open>session_secret.go\<close>): passwords,
    cookies and the limiter, with a bound on the guesses over all clients.
  \<^item> \<open>Service_Views\<close> (\<^verbatim>\<open>types.go\<close>, \<^verbatim>\<open>api_contract.go\<close>), \<open>Link_Probe\<close> (\<^verbatim>\<open>link_probe.go\<close>), \<open>Request_Handlers\<close>
    (\<^verbatim>\<open>server.go\<close>): what the operator is shown, the check of links, and the handlers.
  \<^item> \<open>Operation_Handlers\<close>, \<open>Operation_Audit\<close>, \<open>Operation_Runs\<close> (\<^verbatim>\<open>operation_handlers.go\<close>,
    \<^verbatim>\<open>deployment_handlers.go\<close>): requests for actions and deployments over the stores and the Agents, as steps
    of a machine whose runs keep at most one operation open.

  \<^bold>\<open>The Agent\<close> (\<^verbatim>\<open>internal/agent\<close>).

  \<^item> \<open>Agent_Actions\<close>, \<open>Action_Client\<close>: actions, from the policy and its executor (\<^verbatim>\<open>action_policy.go\<close>,
    \<^verbatim>\<open>action_policy_linux.go\<close>) to the checks of the Hub (\<^verbatim>\<open>internal/hub/action_client.go\<close>).
  \<^item> \<open>Agent_Deployments\<close>, \<open>Deployment_Executor\<close>, \<open>Deployment_Records\<close>, \<open>Deployment_Runs\<close>,
    \<open>Deployment_Client\<close>: deployments, likewise (\<^verbatim>\<open>deployment_policy.go\<close>, \<^verbatim>\<open>deployment_policy_linux.go\<close>,
    \<^verbatim>\<open>deployment_executor_linux.go\<close>, \<^verbatim>\<open>internal/hub/deployment_client.go\<close>).
  \<^item> \<open>Privileged_Commands\<close> (\<^verbatim>\<open>commands.go\<close>, \<^verbatim>\<open>exec.go\<close>): the registered commands, the sudoers file, which grants
    exactly them, and their execution.
  \<^item> \<open>Proxy_Routes\<close>, \<open>Proxy_Configs\<close> (\<^verbatim>\<open>proxy_routes.go\<close>): the routes of reverse proxies, normalised and merged, and
    the readers of Nginx and Caddy configurations against their grammar.
  \<^item> \<open>Agent_Metadata\<close> (\<^verbatim>\<open>orchestration.go\<close>, \<^verbatim>\<open>process_origins.go\<close>), \<open>Discovery\<close> (\<^verbatim>\<open>discover.go\<close>): what runs on
    the host and where it listens; every socket is attributed to a service. \<open>Discovery_Accepted\<close>: the Hub takes
    the whole of it as an observation, and what it refuses.

  \<^bold>\<open>Bounds and fuel.\<close> An action waits at most 42 polls for the state of its
  target and a deployment 601 for its health, the numbers their deadlines and
  intervals allow; a worker makes 32 deliveries in a run, as the code does. The parser of
  configurations gets one call more than there are tokens, since every call reads one
  (\<open>parse_config_iff\<close>). The walk through the timeline is given as many pages as there are events.
  Wrong guesses: one in 405 seconds, nine aside, follows from the steps of the lock.

  \<^bold>\<open>Parameters.\<close> Random identifiers, the clock, \<^verbatim>\<open>url.Parse\<close>, JSON, HTTP, HMAC-SHA256, SHA-256, Argon2id, files
  and processes are arguments; what is relied on is a named hypothesis (\<open>url_lengths\<close>, \<open>json_laws\<close>,
  \<open>lines_decode\<close> and others), and a witness satisfies it with a concrete function.

  \<^bold>\<open>Not modelled.\<close> SQL I/O errors and cancelled contexts, the migration runner, the scraper's timers, the
  configuration files, routing and the web console; the collectors that read \<^verbatim>\<open>/proc\<close> and run programs,
  beyond the commands they run; the security posture, which the Hub passes on untouched. The order in
  which Go visits a map is the order of a list, and sorts that may permute ties keep their order.
\<close>

end
